(* ===== verification/Prelude.thy ===== *)
theory Prelude
  imports Main "HOL-Library.Word"
begin

text \<open>
  Shared vocabulary of the development: the machine types of the Rust sources, and the
  operations of the Rust core library that the modelled code calls (slice windows,
  \<open>str::find\<close>, \<open>str::split\<close>, \<open>str::trim\<close>, integer parsing and
  printing, saturating and wrapping arithmetic), each as an executable HOL function with
  the lemmas the component theories rely on.

  Raw bytes are \<open>8 word\<close>; a Rust \<open>String\<close> or \<open>&str\<close> is the list of its UTF-8 bytes as
  HOL characters, so that \<open>len()\<close>, byte indices and slices mean the same on both sides.
  \<open>bytes_of\<close> and \<open>str_of\<close> are \<open>str::as_bytes\<close> and the unchecked converse.
\<close>

unbundle bit_operations_syntax

named_theorems rust_std \<open>characterisations of the core-library operations\<close>
named_theorems step_simps \<open>one-step evaluation rules of the state machines\<close>

type_synonym byte = "8 word"
type_synonym u16 = "16 word"
type_synonym u32 = "32 word"
type_synonym u64 = "64 word"
type_synonym usize = nat
type_synonym endpoint = "string \<times> u16"

subsection \<open>Bytes and strings\<close>

definition bytes_of :: "string \<Rightarrow> byte list" where
  "bytes_of s = map of_char s"

definition str_of :: "byte list \<Rightarrow> string" where
  "str_of bs = map (\<lambda>b. char_of (unat b)) bs"

definition xor_ff_byte :: "byte \<Rightarrow> byte" where
  "xor_ff_byte b = b XOR 0xFF"

subsection \<open>Slices: prefixes, windows, positions\<close>

definition starts_with :: "'a list \<Rightarrow> 'a list \<Rightarrow> bool" where
  "starts_with xs p \<longleftrightarrow> take (length p) xs = p"

definition ends_with :: "'a list \<Rightarrow> 'a list \<Rightarrow> bool" where
  "ends_with xs p \<longleftrightarrow> starts_with (rev xs) (rev p)"

definition strip_prefix :: "'a list \<Rightarrow> 'a list \<Rightarrow> 'a list option" where
  "strip_prefix p xs = (if starts_with xs p then Some (drop (length p) xs) else None)"

definition strip_suffix :: "'a list \<Rightarrow> 'a list \<Rightarrow> 'a list option" where
  "strip_suffix p xs = (if ends_with xs p then Some (take (length xs - length p) xs) else None)"

fun position :: "('a \<Rightarrow> bool) \<Rightarrow> 'a list \<Rightarrow> nat option" where
  "position P [] = None"
| "position P (x # xs) = (if P x then Some 0 else map_option Suc (position P xs))"

text \<open>\<open>windows(n).position(|w| w == needle)\<close>, which is also \<open>str::find(needle)\<close>.\<close>

fun find_sub :: "'a list \<Rightarrow> 'a list \<Rightarrow> nat option" where
  "find_sub [] needle = (if needle = [] then Some 0 else None)"
| "find_sub (x # xs) needle =
     (if starts_with (x # xs) needle then Some 0 else map_option Suc (find_sub xs needle))"

fun split_on :: "'a \<Rightarrow> 'a list \<Rightarrow> 'a list list" where
  "split_on d [] = [[]]"
| "split_on d (x # xs) =
     (if x = d then [] # split_on d xs
      else (case split_on d xs of [] \<Rightarrow> [[x]] | y # ys \<Rightarrow> (x # y) # ys))"

fun join :: "'a list \<Rightarrow> 'a list list \<Rightarrow> 'a list" where
  "join d [] = []"
| "join d [x] = x"
| "join d (x # y # zs) = x @ d @ join d (y # zs)"

definition str_contains :: "'a list \<Rightarrow> 'a list \<Rightarrow> bool" where
  "str_contains s p \<longleftrightarrow> find_sub s p \<noteq> None"

text \<open>\<open>str::replace\<close> for a non-empty pattern.\<close>

function replace_all :: "'a list \<Rightarrow> 'a list \<Rightarrow> 'a list \<Rightarrow> 'a list" where
  "replace_all p r [] = []"
| "replace_all p r (x # xs) =
     (if p \<noteq> [] \<and> starts_with (x # xs) p then r @ replace_all p r (drop (length p) (x # xs))
      else x # replace_all p r xs)"
  by pat_completeness auto
termination by (relation "measure (\<lambda>(p, r, s). length s)") (auto simp: starts_with_def)

definition split_once :: "'a \<Rightarrow> 'a list \<Rightarrow> ('a list \<times> 'a list) option" where
  "split_once d xs = map_option (\<lambda>i. (take i xs, drop (Suc i) xs)) (position ((=) d) xs)"

definition rsplit_once :: "'a \<Rightarrow> 'a list \<Rightarrow> ('a list \<times> 'a list) option" where
  "rsplit_once d xs = map_option (\<lambda>(a, b). (rev b, rev a)) (split_once d (rev xs))"

subsection \<open>Characters\<close>

definition is_ascii_digit :: "char \<Rightarrow> bool" where
  "is_ascii_digit c \<longleftrightarrow> 48 \<le> (of_char c :: nat) \<and> (of_char c :: nat) \<le> 57"

definition is_ascii_uppercase :: "char \<Rightarrow> bool" where
  "is_ascii_uppercase c \<longleftrightarrow> 65 \<le> (of_char c :: nat) \<and> (of_char c :: nat) \<le> 90"

definition is_ascii_lowercase :: "char \<Rightarrow> bool" where
  "is_ascii_lowercase c \<longleftrightarrow> 97 \<le> (of_char c :: nat) \<and> (of_char c :: nat) \<le> 122"

definition is_ascii_alphabetic :: "char \<Rightarrow> bool" where
  "is_ascii_alphabetic c \<longleftrightarrow> is_ascii_uppercase c \<or> is_ascii_lowercase c"

definition is_ascii_alphanumeric :: "char \<Rightarrow> bool" where
  "is_ascii_alphanumeric c \<longleftrightarrow> is_ascii_alphabetic c \<or> is_ascii_digit c"

definition ascii_upper :: "char \<Rightarrow> char" where
  "ascii_upper c = (if is_ascii_lowercase c then char_of ((of_char c :: nat) - 32) else c)"

definition ascii_lower :: "char \<Rightarrow> char" where
  "ascii_lower c = (if is_ascii_uppercase c then char_of ((of_char c :: nat) + 32) else c)"

definition to_ascii_uppercase :: "string \<Rightarrow> string" where
  "to_ascii_uppercase s = map ascii_upper s"

definition to_ascii_lowercase :: "string \<Rightarrow> string" where
  "to_ascii_lowercase s = map ascii_lower s"

definition eq_ignore_ascii_case :: "string \<Rightarrow> string \<Rightarrow> bool" where
  "eq_ignore_ascii_case s t \<longleftrightarrow> to_ascii_lowercase s = to_ascii_lowercase t"

subsection \<open>Trimming\<close>

text \<open>
  \<open>str::trim\<close> removes the characters with the Unicode \<open>White_Space\<close> property. Each entry
  is the UTF-8 encoding of one such character.
\<close>

definition unicode_white_space :: "string list" where
  "unicode_white_space = map (map (char_of :: nat \<Rightarrow> char))
     ([[9], [10], [11], [12], [13], [32], [0xC2, 0x85], [0xC2, 0xA0], [0xE1, 0x9A, 0x80]]
      @ map (\<lambda>k. [0xE2, 0x80, k])
          [0x80, 0x81, 0x82, 0x83, 0x84, 0x85, 0x86, 0x87, 0x88, 0x89, 0x8A, 0xA8, 0xA9, 0xAF]
      @ [[0xE2, 0x81, 0x9F], [0xE3, 0x80, 0x80]])"

function trim_seqs :: "'a list list \<Rightarrow> 'a list \<Rightarrow> 'a list" where
  "trim_seqs ws s =
     (case find (\<lambda>w. w \<noteq> [] \<and> starts_with s w) ws of
        None \<Rightarrow> s
      | Some w \<Rightarrow> trim_seqs ws (drop (length w) s))"
  by pat_completeness auto
termination
proof (relation "measure (\<lambda>(ws, s). length s)", simp, clarsimp simp: find_Some_iff)
  fix s :: "'a list" and w :: "'a list"
  assume "w \<noteq> []" and "starts_with s w"
  then show "length s - length w < length s"
    by (cases s) (auto simp: starts_with_def)
qed

declare trim_seqs.simps [simp del]

definition trim_start :: "string \<Rightarrow> string" where
  "trim_start s = trim_seqs unicode_white_space s"

definition trim_end :: "string \<Rightarrow> string" where
  "trim_end s = rev (trim_seqs (map rev unicode_white_space) (rev s))"

definition trim :: "string \<Rightarrow> string" where
  "trim s = trim_end (trim_start s)"

subsection \<open>Integers: parsing, printing, saturation\<close>

definition digit_val :: "char \<Rightarrow> nat option" where
  "digit_val c = (if is_ascii_digit c then Some (of_char c - 48) else None)"

fun digits_val :: "nat \<Rightarrow> string \<Rightarrow> nat option" where
  "digits_val acc [] = Some acc"
| "digits_val acc (c # cs) =
     (case digit_val c of None \<Rightarrow> None | Some d \<Rightarrow> digits_val (10 * acc + d) cs)"

text \<open>
  \<open>str::parse\<close> for an unsigned integer type: an optional \<open>+\<close>, then at least one decimal
  digit, and a value in range.
\<close>

definition parse_nat :: "string \<Rightarrow> nat option" where
  "parse_nat s =
     (let t = (case s of c # cs \<Rightarrow> if c = CHR ''+'' then cs else s | [] \<Rightarrow> s)
      in if t = [] then None else digits_val 0 t)"

definition parse_word :: "string \<Rightarrow> 'a::len word option" where
  "parse_word s = (case parse_nat s of
     None \<Rightarrow> None
   | Some n \<Rightarrow> if n < 2 ^ LENGTH('a) then Some (of_nat n) else None)"

fun show_nat :: "nat \<Rightarrow> string" where
  "show_nat n =
     (if n < 10 then [char_of (48 + n)] else show_nat (n div 10) @ [char_of (48 + n mod 10)])"

declare show_nat.simps [simp del]

definition pad_left :: "nat \<Rightarrow> char \<Rightarrow> string \<Rightarrow> string" where
  "pad_left w c s = replicate (w - length s) c @ s"

definition sat_add :: "'a::len word \<Rightarrow> 'a word \<Rightarrow> 'a word" where
  "sat_add a b = (if unat a + unat b < 2 ^ LENGTH('a) then a + b else - 1)"

definition sat_mul :: "'a::len word \<Rightarrow> 'a word \<Rightarrow> 'a word" where
  "sat_mul a b = (if unat a * unat b < 2 ^ LENGTH('a) then a * b else - 1)"

subsection \<open>Lemmas: bytes and strings\<close>

lemma length_bytes_of [simp]: "length (bytes_of s) = length s"
  by (simp add: bytes_of_def)

lemma length_str_of [simp]: "length (str_of bs) = length bs"
  by (simp add: str_of_def)

lemma bytes_of_append [simp]: "bytes_of (s @ t) = bytes_of s @ bytes_of t"
  by (simp add: bytes_of_def)

lemma str_of_append [simp]: "str_of (s @ t) = str_of s @ str_of t"
  by (simp add: str_of_def)

lemma unat_of_char_byte [simp]: "unat (of_char c :: byte) = of_char c"
proof -
  have "unat (of_char c :: byte) = unat (of_nat (of_char c) :: byte)"
    by (simp only: of_nat_of_char)
  also have "\<dots> = of_char c"
    by (simp only: unsigned_of_nat take_bit_eq_mod) simp
  finally show ?thesis .
qed

lemma str_of_bytes_of [simp]: "str_of (bytes_of s) = s"
  by (simp add: str_of_def bytes_of_def comp_def)

lemma bytes_of_str_of [simp]: "bytes_of (str_of bs) = bs"
proof -
  have "(of_char (char_of (unat b)) :: byte) = b" for b :: byte
  proof (rule word_unat_eq_iff [THEN iffD2])
    show "unat (of_char (char_of (unat b)) :: byte) = unat b"
      using unsigned_less [of b, where ?'a = nat] by simp
  qed
  then show ?thesis by (simp add: str_of_def bytes_of_def comp_def map_idI)
qed

lemma bytes_of_eq_Nil_iff [simp]: "bytes_of s = [] \<longleftrightarrow> s = []"
  by (simp add: bytes_of_def)

lemma xor_ff_byte_involution [simp]: "xor_ff_byte (xor_ff_byte b) = b"
  by (simp add: xor_ff_byte_def xor.assoc)

lemma map_xor_ff_involution [simp]: "map xor_ff_byte (map xor_ff_byte bs) = bs"
  by (simp add: comp_def)

subsection \<open>Lemmas: prefixes, positions, splitting\<close>

lemma starts_with_append [simp]: "starts_with (p @ xs) p"
  by (simp add: starts_with_def)

lemma ends_with_append [simp]: "ends_with (xs @ p) p"
  by (simp add: ends_with_def)

lemma strip_prefix_append [simp]: "strip_prefix p (p @ xs) = Some xs"
  by (simp add: strip_prefix_def)

lemma strip_suffix_append [simp]: "strip_suffix p (xs @ p) = Some xs"
  by (simp add: strip_suffix_def)

lemma starts_with_iff: "starts_with xs p \<longleftrightarrow> (\<exists>ys. xs = p @ ys)"
  by (auto simp: starts_with_def) (metis append_take_drop_id)

lemma starts_with_extend: "starts_with xs p \<Longrightarrow> starts_with (xs @ ys) p"
  by (auto simp: starts_with_iff)

lemma starts_with_prefix_iff:
  "length p \<le> length xs \<Longrightarrow> starts_with (xs @ ys) p \<longleftrightarrow> starts_with xs p"
  by (simp add: starts_with_def)

lemma starts_with_length: "starts_with xs p \<Longrightarrow> length p \<le> length xs"
  by (auto simp: starts_with_iff)

lemma position_None_iff: "position P xs = None \<longleftrightarrow> (\<forall>x\<in>set xs. \<not> P x)"
  by (induction xs) auto

lemma position_SomeD:
  "position P xs = Some i \<Longrightarrow> i < length xs \<and> P (xs ! i) \<and> (\<forall>x\<in>set (take i xs). \<not> P x)"
proof (induction xs arbitrary: i)
  case Nil
  then show ?case by simp
next
  case (Cons x xs)
  then show ?case by (cases i) (auto split: if_splits)
qed

lemma position_append:
  "position P (xs @ ys) =
     (case position P xs of Some i \<Rightarrow> Some i | None \<Rightarrow> map_option (\<lambda>n. length xs + n) (position P ys))"
  by (cases "position P ys"; induction xs) (auto split: option.splits)

lemma find_sub_SomeD:
  "find_sub xs p = Some i \<Longrightarrow> i + length p \<le> length xs \<and> starts_with (drop i xs) p"
proof (induction xs arbitrary: i)
  case Nil
  then show ?case by (auto simp: starts_with_def split: if_splits)
next
  case (Cons x xs)
  then show ?case by (cases i) (auto dest: starts_with_length split: if_splits)
qed

lemma find_sub_at_front: "starts_with xs p \<Longrightarrow> find_sub xs p = Some 0"
  by (cases xs) (auto simp: starts_with_def)

lemma find_sub_None_hd: "p \<noteq> [] \<Longrightarrow> hd p \<notin> set xs \<Longrightarrow> find_sub xs p = None"
  by (induction xs) (auto simp: starts_with_iff Cons_eq_append_conv)

lemma find_sub_append_Some: "find_sub xs p = Some i \<Longrightarrow> find_sub (xs @ ys) p = Some i"
proof (induction xs arbitrary: i)
  case Nil
  then show ?case by (auto split: if_splits intro: find_sub_at_front simp: starts_with_def)
next
  case (Cons x xs)
  show ?case
  proof (cases "starts_with (x # xs) p")
    case True
    then show ?thesis using Cons.prems starts_with_extend [OF True, of ys] by simp
  next
    case False
    have "length p \<le> length (x # xs)"
      using find_sub_SomeD [OF Cons.prems] by simp
    then have "\<not> starts_with (x # xs @ ys) p"
      using False starts_with_prefix_iff [of p "x # xs" ys] by simp
    then show ?thesis using Cons False by auto
  qed
qed

text \<open>
  Searching may forget all but the last \<open>length p - 1\<close> elements of a prefix without a match:
  the first match of the extended list is the first match of the kept suffix, shifted.
\<close>

lemma find_sub_skip:
  assumes "find_sub xs p = None" and "k + length p \<le> Suc (length xs)"
  shows "find_sub (xs @ ys) p = map_option ((+) k) (find_sub (drop k xs @ ys) p)"
  using assms
proof (induction k arbitrary: xs)
  case 0
  then show ?case by (simp add: option.map_ident_strong)
next
  case (Suc k)
  then obtain x xs' where xs: "xs = x # xs'"
    by (cases xs) auto
  from Suc.prems xs have none: "find_sub xs' p = None" and nst: "\<not> starts_with xs p"
    by (auto split: if_splits)
  have "\<not> starts_with (xs @ ys) p"
    using nst Suc.prems(2) by (simp add: starts_with_prefix_iff)
  moreover have "find_sub (xs' @ ys) p = map_option ((+) k) (find_sub (drop k xs' @ ys) p)"
    using Suc.IH [OF none] Suc.prems(2) xs by simp
  ultimately show ?case using xs
    by (simp add: option.map_comp comp_def)
qed

lemma split_on_nonempty [simp]: "split_on d xs \<noteq> []"
  by (cases xs) (auto split: list.splits)

lemma split_on_notin: "d \<notin> set xs \<Longrightarrow> split_on d xs = [xs]"
  by (induction xs) auto

lemma split_on_append: "d \<notin> set xs \<Longrightarrow> split_on d (xs @ d # ys) = xs # split_on d ys"
  by (induction xs) auto

lemma split_on_join:
  "xss \<noteq> [] \<Longrightarrow> \<forall>xs\<in>set xss. d \<notin> set xs \<Longrightarrow> split_on d (join [d] xss) = xss"
proof (induction xss rule: induct_list012)
  case (3 x y zs)
  then show ?case using split_on_append [of d x "join [d] (y # zs)"] by simp
qed (auto simp: split_on_notin)

lemma join_split_on: "join [d] (split_on d xs) = xs"
proof (induction xs)
  case Nil
  then show ?case by simp
next
  case (Cons x xs)
  obtain y ys where "split_on d xs = y # ys"
    by (meson neq_Nil_conv split_on_nonempty)
  with Cons show ?case by (cases ys) auto
qed

lemma split_once_append: "d \<notin> set xs \<Longrightarrow> split_once d (xs @ d # ys) = Some (xs, ys)"
  using position_None_iff [of "(=) d" xs]
  by (auto simp: split_once_def position_append)

lemma rsplit_once_append: "d \<notin> set ys \<Longrightarrow> rsplit_once d (xs @ d # ys) = Some (xs, ys)"
  using split_once_append [of d "rev ys" "rev xs"] by (simp add: rsplit_once_def)

subsection \<open>Lemmas: trimming\<close>

lemma trim_seqs_idle: "\<forall>w\<in>set ws. w = [] \<or> \<not> starts_with s w \<Longrightarrow> trim_seqs ws s = s"
  by (subst trim_seqs.simps) (metis (mono_tags, lifting) find_None_iff option.simps(4))

lemma trim_seqs_done: "w \<in> set ws \<Longrightarrow> w \<noteq> [] \<Longrightarrow> \<not> starts_with (trim_seqs ws s) w"
proof (induction ws s rule: trim_seqs.induct)
  case (1 ws s)
  show ?case
  proof (cases "find (\<lambda>w. w \<noteq> [] \<and> starts_with s w) ws")
    case None
    then have "trim_seqs ws s = s" by (subst trim_seqs.simps) simp
    with None "1.prems" show ?thesis by (auto simp: find_None_iff)
  next
    case (Some v)
    then show ?thesis
      using 1 by (subst trim_seqs.simps) simp
  qed
qed

definition is_graphic :: "char \<Rightarrow> bool" where
  "is_graphic c \<longleftrightarrow> 33 \<le> (of_char c :: nat) \<and> (of_char c :: nat) \<le> 126"

lemma white_space_not_graphic:
  "w \<in> set unicode_white_space \<Longrightarrow> w \<noteq> [] \<and> \<not> is_graphic (hd w) \<and> \<not> is_graphic (last w)"
  by (auto simp: unicode_white_space_def is_graphic_def)

lemma trim_start_graphic: "s = [] \<or> is_graphic (hd s) \<Longrightarrow> trim_start s = s"
  unfolding trim_start_def
  by (rule trim_seqs_idle)
    (use white_space_not_graphic in \<open>fastforce simp: starts_with_iff neq_Nil_conv\<close>)

lemma trim_end_graphic: "s = [] \<or> is_graphic (last s) \<Longrightarrow> trim_end s = s"
proof -
  assume s: "s = [] \<or> is_graphic (last s)"
  have "trim_seqs (map rev unicode_white_space) (rev s) = rev s"
  proof (rule trim_seqs_idle, rule ballI)
    fix v assume "v \<in> set (map rev unicode_white_space)"
    then obtain w where w: "w \<in> set unicode_white_space" "v = rev w" by auto
    have "\<not> starts_with (rev s) v"
    proof
      assume "starts_with (rev s) v"
      then obtain ys where "rev s = rev w @ ys" using w by (auto simp: starts_with_iff)
      then have "s = rev ys @ w" by (metis rev_append rev_rev_ident)
      with s white_space_not_graphic [OF w(1)] show False by auto
    qed
    then show "v = [] \<or> \<not> starts_with (rev s) v" ..
  qed
  then show ?thesis by (simp add: trim_end_def)
qed

lemma trim_graphic: "s \<noteq> [] \<Longrightarrow> is_graphic (hd s) \<Longrightarrow> is_graphic (last s) \<Longrightarrow> trim s = s"
  by (simp add: trim_def trim_start_graphic trim_end_graphic)

lemma trim_Nil [simp]: "trim [] = []"
  by (simp add: trim_def trim_start_graphic trim_end_graphic)

subsection \<open>Lemmas: integers\<close>

lemma digit_val_char_of: "d < 10 \<Longrightarrow> digit_val (char_of (48 + d)) = Some d"
  by (simp add: digit_val_def is_ascii_digit_def)

lemma digits_val_append:
  "digits_val acc (s @ t) = (case digits_val acc s of None \<Rightarrow> None | Some a \<Rightarrow> digits_val a t)"
  by (induction s arbitrary: acc) (auto split: option.splits)

lemma show_nat_nonempty [simp]: "show_nat n \<noteq> []"
  by (subst show_nat.simps) simp

lemma digits_val_show_nat: "digits_val 0 (show_nat n) = Some n"
proof (induction n rule: show_nat.induct)
  case (1 n)
  then show ?case
    by (cases "n < 10")
      (auto simp: show_nat.simps [of n] digits_val_append digit_val_char_of)
qed

lemma show_nat_digits: "c \<in> set (show_nat n) \<Longrightarrow> is_ascii_digit c"
proof (induction n rule: show_nat.induct)
  case (1 n)
  then show ?case
    by (cases "n < 10") (auto simp: show_nat.simps [of n] is_ascii_digit_def)
qed

lemma parse_nat_show_nat [simp]: "parse_nat (show_nat n) = Some n"
proof -
  obtain c cs where c: "show_nat n = c # cs"
    by (meson neq_Nil_conv show_nat_nonempty)
  then have "is_ascii_digit c"
    using show_nat_digits [of c n] by simp
  then have "c \<noteq> CHR ''+''" by (auto simp: is_ascii_digit_def)
  then show ?thesis
    using digits_val_show_nat [of n] c by (simp add: parse_nat_def)
qed

lemma parse_word_show_nat [simp]: "parse_word (show_nat (unat w)) = Some w"
  by (simp add: parse_word_def)

lemma unat_sat_add: "unat (sat_add a b) = min (unat a + unat b) (2 ^ LENGTH('a) - 1)"
  for a b :: "'a::len word"
  by (auto simp: sat_add_def unat_word_ariths unsigned_minus_1_eq_mask mask_eq_exp_minus_1)

lemma unat_sat_mul: "unat (sat_mul a b) = min (unat a * unat b) (2 ^ LENGTH('a) - 1)"
  for a b :: "'a::len word"
  by (auto simp: sat_mul_def unat_word_ariths unsigned_minus_1_eq_mask mask_eq_exp_minus_1)

end
