(* ===== verification/Utf8.thy ===== *)
theory Utf8
  imports Prelude
begin

text \<open>
  UTF-8 as the Rust core library decides it: \<open>utf8_char\<close> classifies the sequence at the
  front of a byte slice as \<open>core::str::validations\<close> does, \<open>from_utf8\<close> is
  \<open>str::from_utf8\<close> / \<open>String::from_utf8\<close> with the error's \<open>valid_up_to\<close> and
  \<open>error_len\<close>, and \<open>from_utf8_lossy\<close> replaces every maximal ill-formed sequence by
  U+FFFD. The lemmas show that validity is closed under concatenation, that lossy decoding
  always yields valid text, and that it is the identity on valid text.
\<close>

subsection \<open>Classification of one encoded character\<close>

definition is_cont :: "byte \<Rightarrow> bool" where
  "is_cont b \<longleftrightarrow> 0x80 \<le> b \<and> b \<le> 0xBF"

definition utf8_char_width :: "byte \<Rightarrow> nat" where
  "utf8_char_width b =
     (if b < 0x80 then 1
      else if 0xC2 \<le> b \<and> b \<le> 0xDF then 2
      else if 0xE0 \<le> b \<and> b \<le> 0xEF then 3
      else if 0xF0 \<le> b \<and> b \<le> 0xF4 then 4
      else 0)"

definition second_ok :: "byte \<Rightarrow> byte \<Rightarrow> bool" where
  "second_ok b c =
     (if b = 0xE0 then 0xA0 \<le> c \<and> c \<le> 0xBF
      else if b = 0xED then 0x80 \<le> c \<and> c \<le> 0x9F
      else if b = 0xF0 then 0x90 \<le> c \<and> c \<le> 0xBF
      else if b = 0xF4 then 0x80 \<le> c \<and> c \<le> 0x8F
      else is_cont c)"

text \<open>
  \<open>Inr w\<close>: a well-formed character of \<open>w\<close> bytes; \<open>Inl (Some n)\<close>: an ill-formed sequence
  of \<open>n\<close> bytes; \<open>Inl None\<close>: the input ends inside a character.
\<close>

fun utf8_char :: "byte list \<Rightarrow> nat option + nat" where
  "utf8_char [] = Inl None"
| "utf8_char (b # bs) =
     (let w = utf8_char_width b in
      if w = 1 then Inr 1
      else if w = 0 then Inl (Some 1)
      else (case bs of
          [] \<Rightarrow> Inl None
        | c # cs \<Rightarrow>
            if \<not> second_ok b c then Inl (Some 1)
            else if w = 2 then Inr 2
            else (case cs of
                [] \<Rightarrow> Inl None
              | d # ds \<Rightarrow>
                  if \<not> is_cont d then Inl (Some 2)
                  else if w = 3 then Inr 3
                  else (case ds of
                      [] \<Rightarrow> Inl None
                    | e # es \<Rightarrow> if \<not> is_cont e then Inl (Some 3) else Inr 4))))"

lemma utf8_char_InrD: "utf8_char bs = Inr w \<Longrightarrow> 1 \<le> w \<and> w \<le> 4 \<and> w \<le> length bs"
  by (cases bs) (auto simp: Let_def split: if_splits list.splits)

lemma utf8_char_InlD: "utf8_char bs = Inl (Some n) \<Longrightarrow> 1 \<le> n \<and> n \<le> 3 \<and> n \<le> length bs"
  by (cases bs) (auto simp: Let_def split: if_splits list.splits)

subsection \<open>Validation and decoding\<close>

text \<open>\<open>None\<close> is success; \<open>Some (valid_up_to, error_len)\<close> is the \<open>Utf8Error\<close>.\<close>

function run_utf8_validation :: "byte list \<Rightarrow> nat \<Rightarrow> (nat \<times> nat option) option" where
  "run_utf8_validation bs i =
     (if bs = [] then None
      else (case utf8_char bs of
          Inl e \<Rightarrow> Some (i, e)
        | Inr w \<Rightarrow> run_utf8_validation (drop w bs) (i + w)))"
  by pat_completeness auto
termination
  by (relation "measure (\<lambda>(bs, i). length bs)") (auto dest: utf8_char_InrD)

declare run_utf8_validation.simps [simp del]

definition valid_utf8 :: "byte list \<Rightarrow> bool" where
  "valid_utf8 bs \<longleftrightarrow> run_utf8_validation bs 0 = None"

text \<open>The \<open>Display\<close> text of \<open>Utf8Error\<close> and \<open>FromUtf8Error\<close>.\<close>

fun utf8_error_text :: "nat \<times> nat option \<Rightarrow> string" where
  "utf8_error_text (i, Some n) =
     ''invalid utf-8 sequence of '' @ show_nat n @ '' bytes from index '' @ show_nat i"
| "utf8_error_text (i, None) = ''incomplete utf-8 byte sequence from index '' @ show_nat i"

definition from_utf8 :: "byte list \<Rightarrow> string + string" where
  "from_utf8 bs = (case run_utf8_validation bs 0 of
     None \<Rightarrow> Inr (str_of bs)
   | Some e \<Rightarrow> Inl (utf8_error_text e))"

definition replacement_character :: "byte list" where
  "replacement_character = [0xEF, 0xBF, 0xBD]"

function from_utf8_lossy :: "byte list \<Rightarrow> byte list" where
  "from_utf8_lossy bs =
     (if bs = [] then []
      else (case utf8_char bs of
          Inr w \<Rightarrow> take w bs @ from_utf8_lossy (drop w bs)
        | Inl None \<Rightarrow> replacement_character
        | Inl (Some n) \<Rightarrow> replacement_character @ from_utf8_lossy (drop n bs)))"
  by pat_completeness auto
termination
  by (relation "measure length") (auto dest: utf8_char_InrD utf8_char_InlD)

declare from_utf8_lossy.simps [simp del]

definition is_char_boundary :: "byte list \<Rightarrow> nat \<Rightarrow> bool" where
  "is_char_boundary bs i \<longleftrightarrow>
     i = 0 \<or> i = length bs \<or> (i < length bs \<and> \<not> is_cont (bs ! i))"

subsection \<open>Lemmas\<close>

lemma utf8_char_append: "utf8_char bs = Inr w \<Longrightarrow> utf8_char (bs @ cs) = Inr w"
  by (cases bs) (auto simp: Let_def split: if_splits list.splits)

lemma utf8_char_take:
  assumes "utf8_char bs = Inr w"
  shows "utf8_char (take w bs) = Inr w"
proof -
  have "w = 1 \<or> w = 2 \<or> w = 3 \<or> w = 4"
    using utf8_char_InrD [OF assms] by auto
  then show ?thesis using assms
    by (elim disjE; hypsubst; cases bs)
      (auto simp: Let_def numeral_eq_Suc split: if_splits list.splits)
qed

lemma run_utf8_validation_index:
  "run_utf8_validation bs i = None \<longleftrightarrow> run_utf8_validation bs j = None"
proof (induction bs i arbitrary: j rule: run_utf8_validation.induct)
  case (1 bs i)
  show ?case
    using "1.IH" [of _ "j + _"]
    by (auto simp: run_utf8_validation.simps [of bs i] run_utf8_validation.simps [of bs j]
      split: sum.splits)
qed

lemma valid_utf8_Nil [simp]: "valid_utf8 []"
  by (simp add: valid_utf8_def run_utf8_validation.simps)

lemma valid_utf8_step:
  "utf8_char bs = Inr w \<Longrightarrow> valid_utf8 bs \<longleftrightarrow> valid_utf8 (drop w bs)"
  unfolding valid_utf8_def
  by (subst run_utf8_validation.simps) (auto simp: run_utf8_validation_index [of _ w 0])

lemma valid_utf8_bad: "bs \<noteq> [] \<Longrightarrow> utf8_char bs = Inl e \<Longrightarrow> \<not> valid_utf8 bs"
  by (simp add: valid_utf8_def run_utf8_validation.simps)

lemma valid_utf8_induct [consumes 1, case_names Nil Char]:
  assumes "valid_utf8 bs"
    and "P []"
    and "\<And>bs w. utf8_char bs = Inr w \<Longrightarrow> valid_utf8 (drop w bs) \<Longrightarrow> P (drop w bs) \<Longrightarrow> P bs"
  shows "P bs"
  using assms(1)
proof (induction bs rule: length_induct)
  case (1 bs)
  show ?case
  proof (cases "bs = []")
    case True
    then show ?thesis using assms(2) by simp
  next
    case False
    then obtain w where w: "utf8_char bs = Inr w"
      using "1.prems" valid_utf8_bad by (cases "utf8_char bs") blast+
    then have "valid_utf8 (drop w bs)" and "length (drop w bs) < length bs"
      using "1.prems" False by (auto dest: utf8_char_InrD simp: valid_utf8_step)
    then show ?thesis using "1.IH" w assms(3) by blast
  qed
qed

lemma valid_utf8_append: "valid_utf8 xs \<Longrightarrow> valid_utf8 ys \<Longrightarrow> valid_utf8 (xs @ ys)"
proof (induction xs rule: valid_utf8_induct)
  case Nil
  then show ?case by simp
next
  case (Char xs w)
  then show ?case
    using utf8_char_InrD [OF Char.hyps(1)]
    by (simp add: valid_utf8_step [OF utf8_char_append [OF Char.hyps(1)]])
qed

lemma valid_utf8_single: "utf8_char bs = Inr (length bs) \<Longrightarrow> valid_utf8 bs"
  by (simp add: valid_utf8_step)

lemma valid_utf8_replacement [simp]: "valid_utf8 replacement_character"
  by (rule valid_utf8_single)
    (simp add: replacement_character_def utf8_char_width_def second_ok_def is_cont_def)

lemma valid_utf8_lossy: "valid_utf8 (from_utf8_lossy bs)"
proof (induction bs rule: from_utf8_lossy.induct)
  case (1 bs)
  show ?case
  proof (cases "bs = []")
    case True
    then show ?thesis by (simp add: from_utf8_lossy.simps)
  next
    case nonempty: False
    show ?thesis
    proof (cases "utf8_char bs")
      case (Inl e)
      then show ?thesis using nonempty 1
        by (cases e) (auto simp: from_utf8_lossy.simps [of bs] intro: valid_utf8_append)
    next
      case (Inr w)
      then have "valid_utf8 (take w bs)"
        by (intro valid_utf8_single)
          (use utf8_char_take [OF Inr] utf8_char_InrD [OF Inr] in \<open>simp add: min_def\<close>)
      then show ?thesis using nonempty 1 Inr
        by (auto simp: from_utf8_lossy.simps [of bs] intro: valid_utf8_append)
    qed
  qed
qed

lemma from_utf8_lossy_valid: "valid_utf8 bs \<Longrightarrow> from_utf8_lossy bs = bs"
proof (induction bs rule: valid_utf8_induct)
  case Nil
  then show ?case by (simp add: from_utf8_lossy.simps)
next
  case (Char bs w)
  then show ?case
    by (cases "bs = []") (auto simp: from_utf8_lossy.simps [of bs])
qed

lemma from_utf8_iff: "(\<exists>s. from_utf8 bs = Inr s) \<longleftrightarrow> valid_utf8 bs"
  by (auto simp: from_utf8_def valid_utf8_def split: option.splits)

lemma from_utf8_valid: "valid_utf8 bs \<Longrightarrow> from_utf8 bs = Inr (str_of bs)"
  by (simp add: from_utf8_def valid_utf8_def)

definition is_ascii :: "byte list \<Rightarrow> bool" where
  "is_ascii bs \<longleftrightarrow> list_all (\<lambda>b. b < 0x80) bs"

lemma is_ascii_valid: "is_ascii bs \<Longrightarrow> valid_utf8 bs"
proof (induction bs)
  case Nil
  then show ?case by simp
next
  case (Cons b bs)
  then have "utf8_char (b # bs) = Inr 1"
    by (simp add: is_ascii_def utf8_char_width_def)
  then show ?case using Cons by (simp add: valid_utf8_step is_ascii_def)
qed

subsection \<open>ASCII text\<close>

definition ascii :: "string \<Rightarrow> bool" where
  "ascii s \<longleftrightarrow> (\<forall>c\<in>set s. of_char c < (128 :: nat))"

lemma ascii_subset: "ascii s \<Longrightarrow> set t \<subseteq> set s \<Longrightarrow> ascii t"
  by (auto simp: ascii_def)

lemma ascii_append [simp]: "ascii (s @ t) \<longleftrightarrow> ascii s \<and> ascii t"
  by (auto simp: ascii_def)

lemma ascii_boundary: "ascii s \<Longrightarrow> i \<le> length s \<Longrightarrow> is_char_boundary (bytes_of s) i"
proof -
  assume s: "ascii s" and i: "i \<le> length s"
  have "\<not> is_cont (bytes_of s ! i)" if "i < length s"
    using s nth_mem [OF that] that by (simp add: ascii_def is_cont_def bytes_of_def word_le_nat_alt not_le less_le_trans)
  then show ?thesis using i by (auto simp: is_char_boundary_def)
qed

end
