(* ===== verification/Wire_Model.thy ===== *)
theory Wire_Model
  imports Utf8
begin

text \<open>
  The data of the QBT receiver (\<open>qbt_receiver/protocol/model.rs\<close>, \<open>error.rs\<close>,
  \<open>config.rs\<close>): protocol versions, segments, server lists, warnings, frame events,
  errors with their \<open>Display\<close> texts, and the decoder and receiver configuration.

  A \<open>SystemTime\<close> is the signed number of nanoseconds from the Unix epoch. Struct fields
  carry a short prefix because HOL record selectors are global names.
\<close>

type_synonym system_time = int

subsection \<open>protocol/model.rs\<close>

datatype QbtProtocolVersion = V1 | V2

record QbtSegment =
  seg_filename :: string
  seg_block_number :: u32
  seg_total_blocks :: u32
  seg_content :: "byte list"
  seg_checksum :: u32
  seg_length :: usize
  seg_version :: QbtProtocolVersion
  seg_timestamp_utc :: system_time
  seg_source :: "string option"

record QbtServerList =
  servers :: "endpoint list"
  sat_servers :: "endpoint list"

definition QbtServerList_default :: QbtServerList where
  "QbtServerList_default = \<lparr>servers = [], sat_servers = []\<rparr>"

datatype QbtProtocolWarning =
    ChecksumMismatch string u32
  | DecompressionFailed string u32 string
  | DecoderRecovered string
  | MalformedServerEntry string
  | TimestampParseFallback string
  | HandlerError string
  | BackpressureDrop u64 u64 u64

datatype QbtFrameEvent =
    DataBlock QbtSegment
  | ServerListUpdate QbtServerList
  | Warning QbtProtocolWarning

record QbtAuthMessage =
  auth_email :: string

subsection \<open>error.rs\<close>

datatype QbtProtocolError =
    InvalidHeader
  | InvalidBodyLength usize
  | UnsupportedFrame
  | MissingField string
  | Decompression string
  | ChecksumMismatchError
  | InvalidFrameType
  | InvalidUtf8 string
  | Utf8 string

fun protocol_error_text :: "QbtProtocolError \<Rightarrow> string" where
  "protocol_error_text InvalidHeader = ''invalid frame header''"
| "protocol_error_text (InvalidBodyLength n) = ''invalid body length: '' @ show_nat n"
| "protocol_error_text UnsupportedFrame = ''unsupported frame''"
| "protocol_error_text (MissingField f) = ''missing field: '' @ f"
| "protocol_error_text (Decompression e) = ''decompression failed: '' @ e"
| "protocol_error_text ChecksumMismatchError = ''checksum mismatch''"
| "protocol_error_text InvalidFrameType = ''invalid frame type''"
| "protocol_error_text (InvalidUtf8 e) = ''invalid utf8 in frame: '' @ e"
| "protocol_error_text (Utf8 e) = ''utf8 decode failed: '' @ e"

datatype QbtReceiverConfigError = EmptyEmail | NoServers

fun config_error_text :: "QbtReceiverConfigError \<Rightarrow> string" where
  "config_error_text EmptyEmail = ''email must not be empty''"
| "config_error_text NoServers = ''at least one server is required''"

datatype QbtReceiverError =
    Config QbtReceiverConfigError
  | Protocol QbtProtocolError
  | Io string
  | Lifecycle string

fun receiver_error_text :: "QbtReceiverError \<Rightarrow> string" where
  "receiver_error_text (Config e) = ''invalid config: '' @ config_error_text e"
| "receiver_error_text (Protocol e) = ''protocol error: '' @ protocol_error_text e"
| "receiver_error_text (Io e) = ''io error: '' @ e"
| "receiver_error_text (Lifecycle m) = ''client lifecycle error: '' @ m"

subsection \<open>config.rs\<close>

datatype QbtChecksumPolicy = StrictDrop

datatype QbtV2CompressionPolicy = RequireZlibHeader | TryAlways

record QbtDecodeConfig =
  checksum_policy :: QbtChecksumPolicy
  compression_policy :: QbtV2CompressionPolicy
  max_v2_body_size :: usize

definition QbtDecodeConfig_default :: QbtDecodeConfig where
  "QbtDecodeConfig_default =
     \<lparr>checksum_policy = StrictDrop,
      compression_policy = RequireZlibHeader,
      max_v2_body_size = 1024\<rparr>"

definition DEFAULT_QBT_UPSTREAM_SERVERS :: "endpoint list" where
  "DEFAULT_QBT_UPSTREAM_SERVERS =
     [(''emwin.weathermessage.com'', 2211),
      (''master.weathermessage.com'', 2211),
      (''emwin.interweather.net'', 1000),
      (''wxmesg.upstateweather.com'', 2211)]"

record QbtReceiverConfig =
  cfg_email :: string
  cfg_servers :: "endpoint list"
  cfg_server_list_path :: "string option"
  cfg_follow_server_list_updates :: bool
  cfg_reconnect_delay_secs :: u64
  cfg_connection_timeout_secs :: u64
  cfg_watchdog_timeout_secs :: u64
  cfg_max_exceptions :: u32
  cfg_decode :: QbtDecodeConfig

definition receiver_config_validate :: "QbtReceiverConfig \<Rightarrow> QbtReceiverConfigError + unit" where
  "receiver_config_validate c =
     (if trim (cfg_email c) = [] then Inl EmptyEmail
      else if cfg_servers c = [] then Inl NoServers
      else Inr ())"

end
