(* ===== verification/Server_List.thy ===== *)
theory Server_List
  imports Wire_Basics
begin

text \<open>
  Server-list control frames: the parser (\<open>protocol/server_list.rs\<close>) and the wire
  builder and scanner of the relay (\<open>protocol/server_list_wire.rs\<close>). The lemmas show
  that a list built for the wire is parsed back unchanged, that the scanner extracts the
  latest complete frame and keeps its buffer within bounds, and that every non-empty entry
  of a list is either an endpoint or a warning.
\<close>

subsection \<open>protocol/server_list.rs\<close>

definition parse_qbt_server :: "string \<Rightarrow> endpoint option" where
  "parse_qbt_server input =
     (case rsplit_once (CHR '':'') input of
        None \<Rightarrow> None
      | Some (host, port) \<Rightarrow>
          (case (parse_word port :: u16 option) of
             None \<Rightarrow> None
           | Some parsed_port \<Rightarrow> Some (host, parsed_port)))"

text \<open>The entries in order, each an endpoint or a malformed-entry warning.\<close>

fun classify_entries :: "string list \<Rightarrow> endpoint list \<times> QbtProtocolWarning list" where
  "classify_entries [] = ([], [])"
| "classify_entries (entry # entries) =
     (let (eps, ws) = classify_entries entries in
      case parse_qbt_server entry of
        Some parsed \<Rightarrow> (parsed # eps, ws)
      | None \<Rightarrow> (eps, MalformedServerEntry entry # ws))"

definition parse_list_entries :: "string \<Rightarrow> char \<Rightarrow> endpoint list \<times> QbtProtocolWarning list" where
  "parse_list_entries input delimiter =
     classify_entries (filter (\<lambda>entry. entry \<noteq> []) (map trim (split_on delimiter input)))"

definition SERVER_LIST_PREFIX :: string where
  "SERVER_LIST_PREFIX = ''/ServerList/''"

definition full_marker :: string where
  "full_marker = CHR 0x5C # ''QbtServerList'' @ CHR 0x5C # ''/SatServers/''"

definition sat_end_marker :: string where
  "sat_end_marker = CHR 0x5C # ''SatServers'' @ [CHR 0x5C]"

definition trim_end_nul :: "string \<Rightarrow> string" where
  "trim_end_nul s = rev (dropWhile (\<lambda>c. c = CHR 0x00) (rev s))"

definition parse_server_list_frame ::
    "string \<Rightarrow> QbtProtocolError + (QbtServerList \<times> QbtProtocolWarning list)" where
  "parse_server_list_frame content =
     (if \<not> starts_with content SERVER_LIST_PREFIX then Inl UnsupportedFrame
      else
        let payload = trim_end_nul content;
            n = length SERVER_LIST_PREFIX;
            (servers_part, sat_part) =
              (case find_sub payload full_marker of
                 Some start_idx \<Rightarrow>
                   (let sat_start = start_idx + length full_marker in
                    case find_sub (drop sat_start payload) sat_end_marker of
                      Some end_rel \<Rightarrow>
                        (drop n (take start_idx payload), Some (take end_rel (drop sat_start payload)))
                    | None \<Rightarrow> (drop n payload, None))
               | None \<Rightarrow> (drop n payload, None));
            (servers, warnings) = parse_list_entries servers_part (CHR ''|'');
            (sat_servers, sat_warnings) =
              (case sat_part of
                 Some sat_payload \<Rightarrow> parse_list_entries sat_payload (CHR ''+'')
               | None \<Rightarrow> ([], []))
        in Inr (\<lparr>servers = servers, sat_servers = sat_servers\<rparr>, warnings @ sat_warnings))"

definition parse_simple_server_list :: "string \<Rightarrow> QbtServerList" where
  "parse_simple_server_list content =
     (case parse_server_list_frame content of
        Inr (list, _) \<Rightarrow> list
      | Inl _ \<Rightarrow> QbtServerList_default)"

subsection \<open>protocol/server_list\_wire.rs\<close>

definition DEFAULT_SCAN_BUFFER_BYTES :: usize where
  "DEFAULT_SCAN_BUFFER_BYTES = 65536"

record QbtServerListWireScanner =
  decoded_buffer :: "byte list"
  max_buffer_bytes :: usize

definition scanner_new :: "usize \<Rightarrow> QbtServerListWireScanner" where
  "scanner_new n = \<lparr>decoded_buffer = [], max_buffer_bytes = max n 1024\<rparr>"

definition scanner_default :: QbtServerListWireScanner where
  "scanner_default = scanner_new DEFAULT_SCAN_BUFFER_BYTES"

definition find_subsequence :: "byte list \<Rightarrow> byte list \<Rightarrow> nat option" where
  "find_subsequence haystack needle =
     (if needle = [] \<or> length haystack < length needle then None
      else find_sub haystack needle)"

text \<open>The \<open>while let\<close> loop: buffer left over and the latest complete frame.\<close>

function scan_frames :: "byte list \<Rightarrow> byte list option \<Rightarrow> byte list \<times> byte list option" where
  "scan_frames buf latest =
     (case find_subsequence buf (bytes_of SERVER_LIST_PREFIX) of
        None \<Rightarrow> (buf, latest)
      | Some start \<Rightarrow>
          (case position (\<lambda>b. b = 0) (drop start buf) of
             None \<Rightarrow> (buf, latest)
           | Some end_rel \<Rightarrow>
               (let stop = start + end_rel + 1 in
                scan_frames (drop stop buf) (Some (xor_ff (drop start (take stop buf)))))))"
  by pat_completeness auto
termination
proof (relation "measure (\<lambda>(buf, latest). length buf)", simp, clarsimp)
  fix buf :: "byte list" and start end_rel
  assume "position (\<lambda>b. b = 0) (drop start buf) = Some end_rel"
  then show "length buf - Suc (start + end_rel) < length buf"
    using position_SomeD by fastforce
qed

declare scan_frames.simps [simp del]

definition observe_wire_chunk ::
    "QbtServerListWireScanner \<Rightarrow> byte list \<Rightarrow> QbtServerListWireScanner \<times> byte list option" where
  "observe_wire_chunk s wire =
     (let buf = decoded_buffer s @ map xor_ff_byte wire;
          buf' = (if length buf > max_buffer_bytes s
                  then drop (length buf - max_buffer_bytes s) buf else buf);
          (rest, latest) = scan_frames buf' None
      in (s\<lparr>decoded_buffer := rest\<rparr>, latest))"

definition endpoint_text :: "endpoint \<Rightarrow> string" where
  "endpoint_text ep = fst ep @ '':'' @ show_nat (unat (snd ep))"

definition build_server_list_wire :: "endpoint list \<Rightarrow> byte list" where
  "build_server_list_wire eps =
     (let entries = join ''|'' (map endpoint_text eps)
      in xor_ff (bytes_of (''/ServerList/'' @ entries @ [CHR 0x00])))"

subsection \<open>Lemmas\<close>

text \<open>Hosts as they occur in endpoints: visible ASCII without the frame's own delimiters.\<close>

definition clean_host :: "string \<Rightarrow> bool" where
  "clean_host h \<longleftrightarrow>
     list_all (\<lambda>c. is_graphic c \<and> c \<noteq> CHR ''|'' \<and> c \<noteq> CHR 0x5C) h"

lemma graphic_digit: "is_ascii_digit c \<Longrightarrow> is_graphic c"
  by (simp add: is_graphic_def is_ascii_digit_def)

lemma endpoint_text_chars:
  assumes "clean_host (fst ep)" and "c \<in> set (endpoint_text ep)"
  shows "is_graphic c \<and> c \<noteq> CHR ''|'' \<and> c \<noteq> CHR 0x5C"
proof -
  have "is_graphic (CHR '':'')" by (simp add: is_graphic_def)
  moreover have "is_graphic d \<and> d \<noteq> CHR ''|'' \<and> d \<noteq> CHR 0x5C"
    if "d \<in> set (show_nat (unat (snd ep)))" for d
    using show_nat_digits [OF that] by (auto simp: graphic_digit) (auto simp: is_ascii_digit_def)
  ultimately show ?thesis
    using assms by (auto simp: endpoint_text_def clean_host_def list_all_iff)
qed

lemma trim_endpoint_text: "clean_host (fst ep) \<Longrightarrow> trim (endpoint_text ep) = endpoint_text ep"
proof -
  assume clean: "clean_host (fst ep)"
  have ne: "endpoint_text ep \<noteq> []" by (simp add: endpoint_text_def)
  then show ?thesis
    using endpoint_text_chars [OF clean] by (intro trim_graphic) auto
qed

lemma parse_qbt_server_endpoint_text [simp]: "parse_qbt_server (endpoint_text ep) = Some ep"
proof -
  have "CHR '':'' \<notin> set (show_nat (unat (snd ep)))"
    using show_nat_digits by (fastforce simp: is_ascii_digit_def)
  then show ?thesis
    by (cases ep) (simp add: parse_qbt_server_def endpoint_text_def rsplit_once_append)
qed

lemma classify_entries_endpoints:
  "classify_entries (map endpoint_text eps) = (eps, [])"
  by (induction eps) auto

lemma parse_list_entries_join:
  assumes clean: "\<forall>ep\<in>set eps. clean_host (fst ep)"
  shows "parse_list_entries (join ''|'' (map endpoint_text eps)) (CHR ''|'') = (eps, [])"
proof (cases "eps = []")
  case True
  then show ?thesis by (simp add: parse_list_entries_def)
next
  case False
  have "split_on (CHR ''|'') (join ''|'' (map endpoint_text eps)) = map endpoint_text eps"
    using False clean endpoint_text_chars by (intro split_on_join) fastforce+
  moreover have "map trim (map endpoint_text eps) = map endpoint_text eps"
    using clean by (simp add: trim_endpoint_text)
  moreover have "filter (\<lambda>entry. entry \<noteq> []) (map endpoint_text eps) = map endpoint_text eps"
    by (simp add: filter_id_conv endpoint_text_def)
  ultimately show ?thesis
    by (simp add: parse_list_entries_def classify_entries_endpoints del: map_map)
qed

lemma set_join: "c \<in> set (join d xss) \<Longrightarrow> c \<in> set d \<or> (\<exists>xs\<in>set xss. c \<in> set xs)"
  by (induction d xss rule: join.induct) auto

lemma join_endpoint_chars:
  assumes "\<forall>ep\<in>set eps. clean_host (fst ep)"
    and "c \<in> set (join ''|'' (map endpoint_text eps))"
  shows "is_graphic c \<and> c \<noteq> CHR 0x5C"
  using set_join [OF assms(2)] assms(1) endpoint_text_chars
  by (auto simp: is_graphic_def)

lemma trim_end_nul_idle: "s = [] \<or> last s \<noteq> CHR 0x00 \<Longrightarrow> trim_end_nul s = s"
  by (cases s rule: rev_cases) (auto simp: trim_end_nul_def)

text \<open>Every non-empty entry is accounted for, as an endpoint or as a warning.\<close>

lemma classify_entries_count:
  "length (fst (classify_entries es)) + length (snd (classify_entries es)) = length es"
  by (induction es) (auto split: option.splits prod.splits)

lemma classify_entries_endpointsD:
  "ep \<in> set (fst (classify_entries es)) \<Longrightarrow> \<exists>e\<in>set es. parse_qbt_server e = Some ep"
  by (induction es) (auto split: option.splits prod.splits)

lemma scan_frames_length: "length (fst (scan_frames buf latest)) \<le> length buf"
proof (induction buf latest rule: scan_frames.induct)
  case (1 buf latest)
  show ?case
  proof (cases "find_subsequence buf (bytes_of SERVER_LIST_PREFIX)")
    case None
    then show ?thesis by (simp add: scan_frames.simps [of buf])
  next
    case start: (Some start)
    show ?thesis
    proof (cases "position (\<lambda>b. b = 0) (drop start buf)")
      case None
      with start show ?thesis by (simp add: scan_frames.simps [of buf])
    next
      case (Some end_rel)
      with start 1 [OF start Some refl] show ?thesis
        by (simp add: scan_frames.simps [of buf])
    qed
  qed
qed

lemma observe_wire_chunk_eq:
  "observe_wire_chunk s wire =
     (let buf = decoded_buffer s @ xor_ff wire;
          r = scan_frames (drop (length buf - max_buffer_bytes s) buf) None
      in (s\<lparr>decoded_buffer := fst r\<rparr>, snd r))"
  by (auto simp: observe_wire_chunk_def Let_def xor_ff_def split: prod.splits)

lemma observe_wire_chunk_bounded:
  "length (decoded_buffer (fst (observe_wire_chunk s wire))) \<le> max_buffer_bytes s"
proof -
  define buf where "buf = decoded_buffer s @ xor_ff wire"
  have "length (fst (scan_frames (drop (length buf - max_buffer_bytes s) buf) None))
      \<le> length (drop (length buf - max_buffer_bytes s) buf)"
    by (rule scan_frames_length)
  then show ?thesis
    by (simp add: observe_wire_chunk_eq Let_def flip: buf_def)
qed

lemma scan_frames_one:
  assumes "0 \<notin> set payload"
  shows "scan_frames (bytes_of SERVER_LIST_PREFIX @ payload @ [0]) latest =
    ([], Some (xor_ff (bytes_of SERVER_LIST_PREFIX @ payload @ [0])))"
proof -
  let ?p = "bytes_of SERVER_LIST_PREFIX"
  let ?buf = "?p @ payload @ [0]"
  have nul: "0 \<notin> set ?p"
    by (simp add: SERVER_LIST_PREFIX_def bytes_of_def)
  have find: "find_subsequence ?buf ?p = Some 0"
    by (simp add: find_subsequence_def find_sub_at_front SERVER_LIST_PREFIX_def)
  have "position (\<lambda>b. b = 0) (?p @ payload) = None"
    using nul assms by (auto simp: position_None_iff)
  then have pos: "position (\<lambda>b. b = 0) ?buf = Some (length (?p @ payload))"
    by (simp add: position_append split: option.splits)
  have "scan_frames [] l = ([], l)" for l
    by (simp add: scan_frames.simps find_subsequence_def SERVER_LIST_PREFIX_def)
  then show ?thesis
    by (subst scan_frames.simps) (simp add: find pos)
qed

lemma bytes_of_graphic_nonzero: "list_all is_graphic s \<Longrightarrow> 0 \<notin> set (bytes_of s)"
proof
  assume g: "list_all is_graphic s" and "0 \<in> set (bytes_of s)"
  then obtain c where c: "c \<in> set s" and "(of_char c :: byte) = 0"
    by (auto simp: bytes_of_def)
  then have "(of_char c :: nat) = 0"
    by (metis unat_of_char_byte unsigned_0)
  with g c show False by (auto simp: list_all_iff is_graphic_def)
qed

text \<open>The text that \<open>build_server_list_wire\<close> encodes, without its closing NUL.\<close>

definition server_list_text :: "endpoint list \<Rightarrow> string" where
  "server_list_text eps = SERVER_LIST_PREFIX @ join ''|'' (map endpoint_text eps)"

lemma server_list_text_chars:
  assumes "\<forall>ep\<in>set eps. clean_host (fst ep)" and "c \<in> set (server_list_text eps)"
  shows "is_graphic c \<and> c \<noteq> CHR 0x5C"
  using assms(2) join_endpoint_chars [OF assms(1)]
  by (auto simp: server_list_text_def SERVER_LIST_PREFIX_def is_graphic_def)

lemma xor_ff_build_server_list_wire:
  "xor_ff (build_server_list_wire eps) = bytes_of (server_list_text eps) @ [0]"
  by (simp add: build_server_list_wire_def SERVER_LIST_PREFIX_def server_list_text_def)
    (simp add: bytes_of_def)

lemma server_list_text_no_nul: "\<forall>ep\<in>set eps. clean_host (fst ep) \<Longrightarrow> 0 \<notin> set (bytes_of (server_list_text eps))"
  using server_list_text_chars by (intro bytes_of_graphic_nonzero) (auto simp: list_all_iff)

lemma parse_server_list_text:
  assumes "\<forall>ep\<in>set eps. clean_host (fst ep)" and "nul = [] \<or> nul = [CHR 0x00]"
  shows "parse_server_list_frame (server_list_text eps @ nul) =
    Inr (\<lparr>servers = eps, sat_servers = []\<rparr>, [])"
proof -
  let ?payload = "server_list_text eps"
  have bs: "CHR 0x5C \<notin> set ?payload"
    using server_list_text_chars [OF assms(1)] by blast
  have "?payload \<noteq> []" by (simp add: server_list_text_def SERVER_LIST_PREFIX_def)
  then have "is_graphic (last ?payload)"
    using server_list_text_chars [OF assms(1)] last_in_set by blast
  then have "trim_end_nul ?payload = ?payload"
    by (intro trim_end_nul_idle) (auto simp: is_graphic_def)
  then have "trim_end_nul (?payload @ nul) = ?payload"
    using assms(2) by (auto simp: trim_end_nul_def)
  moreover have "find_sub ?payload full_marker = None"
    using bs by (intro find_sub_None_hd) (auto simp: full_marker_def)
  moreover have "starts_with (?payload @ nul) SERVER_LIST_PREFIX"
    by (simp add: server_list_text_def)
  ultimately show ?thesis
    by (simp add: parse_server_list_frame_def server_list_text_def parse_list_entries_join [OF assms(1)])
qed

subsection \<open>Properties\<close>

text \<open>
  C28: For endpoints with clean host names, decoding the wire frame that
  \<open>build_server_list_wire\<close> produces and parsing it as the decoder does yields exactly the
  endpoints that were encoded, in order, with no satellite servers and no warnings.
\<close>

theorem server_list_wire_roundtrip:
  assumes "\<forall>ep\<in>set eps. clean_host (fst ep)"
  shows "parse_server_list_frame (str_of (xor_ff (build_server_list_wire eps))) =
    Inr (\<lparr>servers = eps, sat_servers = []\<rparr>, [])"
proof -
  have "str_of (xor_ff (build_server_list_wire eps)) = server_list_text eps @ [CHR 0x00]"
    by (simp add: xor_ff_build_server_list_wire) (simp add: str_of_def char_of_def)
  then show ?thesis
    using parse_server_list_text [OF assms] by simp
qed

theorem server_list_wire_roundtrip_witness:
  "parse_server_list_frame
     (str_of (xor_ff (build_server_list_wire [(''a.example'', 2211), (''b.example'', 1000)]))) =
   Inr (\<lparr>servers = [(''a.example'', 2211), (''b.example'', 1000)], sat_servers = []\<rparr>, [])"
  by (rule server_list_wire_roundtrip) (simp add: clean_host_def is_graphic_def)

text \<open>
  A scanner with an empty buffer that observes a complete server-list frame within its
  buffer limit returns exactly that frame, re-encoded for the wire, and is empty again.
\<close>

theorem scanner_extracts_built_frame:
  assumes "\<forall>ep\<in>set eps. clean_host (fst ep)"
    and "decoded_buffer s = []"
    and "length (build_server_list_wire eps) \<le> max_buffer_bytes s"
  shows "observe_wire_chunk s (build_server_list_wire eps) = (s, Some (build_server_list_wire eps))"
proof -
  let ?entries = "join ''|'' (map endpoint_text eps)"
  have wire: "xor_ff (build_server_list_wire eps) =
      bytes_of SERVER_LIST_PREFIX @ bytes_of ?entries @ [0]"
    by (simp add: xor_ff_build_server_list_wire server_list_text_def)
  have "0 \<notin> set (bytes_of ?entries)"
    using server_list_text_no_nul [OF assms(1)] by (simp add: server_list_text_def)
  then have "scan_frames (xor_ff (build_server_list_wire eps)) None =
      ([], Some (xor_ff (xor_ff (build_server_list_wire eps))))"
    unfolding wire by (intro scan_frames_one)
  then show ?thesis using assms(2,3)
    by (simp add: observe_wire_chunk_eq Let_def)
qed

theorem scanner_extracts_built_frame_witness:
  "observe_wire_chunk scanner_default (build_server_list_wire [(''a'', 1)]) =
     (scanner_default, Some (build_server_list_wire [(''a'', 1)]))"
  by (rule scanner_extracts_built_frame)
    (simp_all add: clean_host_def is_graphic_def scanner_default_def scanner_new_def
      DEFAULT_SCAN_BUFFER_BYTES_def build_server_list_wire_def Let_def endpoint_text_def
      show_nat.simps)

text \<open>
  The documented full form closes the regular list with \<open>\ServerList\\<close>; the parser
  searches for \<open>\QbtServerList\\<close> instead, so a frame in the documented form yields neither
  its satellite server nor its regular server, only a malformed-entry warning.
\<close>

definition documented_full_frame :: string where
  "documented_full_frame =
     ''/ServerList/a:1'' @ CHR 0x5C # ''ServerList'' @ CHR 0x5C # ''/SatServers/s:2''
       @ CHR 0x5C # ''SatServers'' @ [CHR 0x5C]"

theorem documented_full_form_is_not_parsed:
  "parse_server_list_frame documented_full_frame =
     Inr (\<lparr>servers = [], sat_servers = []\<rparr>,
       [MalformedServerEntry (drop 12 documented_full_frame)])"
  by code_simp

end
