(* ===== verification/Codec.thy ===== *)
theory Codec
  imports Server_List
begin

text \<open>
  The streaming decoder of the QBT wire format (\<open>protocol/codec.rs\<close>): its seven-state
  machine, header parsing, body handling, validation, the feed loop with recovery, and
  reset. One function per method; a method that may push events returns the events it
  pushes, and \<open>feed\<close> concatenates them in order.

  What the code takes from third-party crates and the clock is the parameter record
  \<open>qbt_ext\<close>: regular-expression captures (\<open>regex\<close>), date parsing (\<open>time\<close>), inflation
  (\<open>flate2\<close>) and the value of \<open>SystemTime::now()\<close>. The code reads the clock once for every header
  whose date cannot be parsed; the model has one value for all these readings of a run, so that the
  fallback timestamps of different blocks, and of different ways to cut the input, are the same. No
  theorem uses its value.
\<close>

record qbt_ext =
  regex_captures :: "string \<Rightarrow> string \<Rightarrow> (string \<rightharpoonup> string) option"
  parse_datetime :: "string \<Rightarrow> string \<Rightarrow> (int \<times> nat) option"
  inflate :: "byte list \<Rightarrow> string + byte list"
  system_now :: system_time

subsection \<open>State\<close>

definition SYNC_BYTES :: "byte list" where
  "SYNC_BYTES = [0, 0, 0, 0, 0, 0]"

definition HEADER_SIZE :: usize where
  "HEADER_SIZE = 80"

definition V1_BODY_SIZE :: usize where
  "V1_BODY_SIZE = 1024"

datatype DecoderState =
  Resync | StartFrame | FrameType | ServerListState | BlockHeader | BlockBody | Validate

record PendingSegment =
  pend_filename :: string
  pend_block_number :: u32
  pend_total_blocks :: u32
  pend_checksum :: u32
  pend_length :: usize
  pend_version :: QbtProtocolVersion
  pend_content :: "byte list"
  pend_timestamp_utc :: system_time
  pend_warnings :: "QbtProtocolWarning list"
  pend_decompression_failed :: bool

record QbtProtocolDecoder =
  dec_config :: QbtDecodeConfig
  dec_buffer :: "byte list"
  dec_state :: DecoderState
  dec_pending :: "PendingSegment option"

definition decoder_new :: "QbtDecodeConfig \<Rightarrow> QbtProtocolDecoder" where
  "decoder_new c = \<lparr>dec_config = c, dec_buffer = [], dec_state = Resync, dec_pending = None\<rparr>"

type_synonym step_result =
  "(QbtProtocolError + bool) \<times> QbtProtocolDecoder \<times> QbtFrameEvent list"

subsection \<open>Header parsing\<close>

definition header_regex :: string where
  "header_regex =
     (let ws = CHR 0x5C # ''s*'' in
      ''^/PF(?P<pf>[A-Za-z0-9._-]+)'' @ ws @ ''/PN'' @ ws @ ''(?P<pn>[0-9]+)'' @ ws
      @ ''/PT'' @ ws @ ''(?P<pt>[0-9]+)'' @ ws @ ''/CS'' @ ws @ ''(?P<cs>[0-9]+)'' @ ws
      @ ''/FD(?P<fd>[0-9/: ]+[AP]M)'' @ ws @ ''(?:/DL(?P<dl>[0-9]+)'' @ ws @ '')?''
      @ CHR 0x5C # ''r'' @ CHR 0x5C # ''n'' @ ws @ ''$'')"

definition FD_FORMAT :: string where
  "FD_FORMAT = ''[month]/[day]/[year] [hour repr:12]:[minute]:[second] [period]''"

definition parse_fd_timestamp :: "qbt_ext \<Rightarrow> string \<Rightarrow> system_time option" where
  "parse_fd_timestamp E fd =
     (case parse_datetime E FD_FORMAT fd of
        None \<Rightarrow> None
      | Some (seconds, nanos) \<Rightarrow>
          if 0 \<le> seconds then Some (seconds * 1000000000 + int nanos)
          else Some (- (\<bar>seconds\<bar> * 1000000000 + int nanos)))"

definition capture_u32 ::
    "(string \<rightharpoonup> string) \<Rightarrow> string \<Rightarrow> string \<Rightarrow> QbtProtocolError + u32" where
  "capture_u32 caps grp field_tag =
     (case caps grp of
        None \<Rightarrow> Inl (MissingField field_tag)
      | Some v \<Rightarrow> (case parse_word v of None \<Rightarrow> Inl InvalidHeader | Some n \<Rightarrow> Inr n))"

definition capture_optional_u32 ::
    "(string \<rightharpoonup> string) \<Rightarrow> string \<Rightarrow> QbtProtocolError + u32 option" where
  "capture_optional_u32 caps grp =
     (case caps grp of
        None \<Rightarrow> Inr None
      | Some v \<Rightarrow> (case parse_word v of None \<Rightarrow> Inl InvalidHeader | Some n \<Rightarrow> Inr (Some n)))"

text \<open>Version and body length from the optional \<open>/DL\<close> field.\<close>

definition body_length ::
    "u32 option \<Rightarrow> usize \<Rightarrow> QbtProtocolError + (QbtProtocolVersion \<times> usize)" where
  "body_length dl max_size =
     (case dl of
        Some n \<Rightarrow>
          (let len = unat n in
           if len = 0 \<or> len > max_size then Inl (InvalidBodyLength len) else Inr (V2, len))
      | None \<Rightarrow> Inr (V1, V1_BODY_SIZE))"

definition parse_captures ::
    "qbt_ext \<Rightarrow> (string \<rightharpoonup> string) \<Rightarrow> usize \<Rightarrow> QbtProtocolError + PendingSegment" where
  "parse_captures E caps max_size =
     (case caps ''pf'' of None \<Rightarrow> Inl (MissingField ''/PF'') | Some filename \<Rightarrow>
     (case capture_u32 caps ''pn'' ''/PN'' of Inl e \<Rightarrow> Inl e | Inr block_number \<Rightarrow>
     (case capture_u32 caps ''pt'' ''/PT'' of Inl e \<Rightarrow> Inl e | Inr total_blocks \<Rightarrow>
     (case capture_u32 caps ''cs'' ''/CS'' of Inl e \<Rightarrow> Inl e | Inr checksum \<Rightarrow>
     (case caps ''fd'' of None \<Rightarrow> Inl (MissingField ''/FD'') | Some fd \<Rightarrow>
     (let (timestamp_utc, warnings) =
            (case parse_fd_timestamp E fd of
               Some ts \<Rightarrow> (ts, [])
             | None \<Rightarrow> (system_now E, [TimestampParseFallback fd])) in
      case capture_optional_u32 caps ''dl'' of Inl e \<Rightarrow> Inl e | Inr dl \<Rightarrow>
     (case body_length dl max_size of Inl e \<Rightarrow> Inl e | Inr (version, len) \<Rightarrow>
      Inr \<lparr>pend_filename = filename, pend_block_number = block_number,
           pend_total_blocks = total_blocks, pend_checksum = checksum, pend_length = len,
           pend_version = version, pend_content = [], pend_timestamp_utc = timestamp_utc,
           pend_warnings = warnings, pend_decompression_failed = False\<rparr>)))))))"

definition parse_header :: "qbt_ext \<Rightarrow> byte list \<Rightarrow> usize \<Rightarrow> QbtProtocolError + PendingSegment" where
  "parse_header E input max_size =
     (case from_utf8 input of Inl e \<Rightarrow> Inl (InvalidUtf8 e) | Inr header \<Rightarrow>
     (case regex_captures E header_regex header of None \<Rightarrow> Inl InvalidHeader | Some caps \<Rightarrow>
      parse_captures E caps max_size))"

subsection \<open>Text helpers\<close>

definition is_text_or_wmo :: "string \<Rightarrow> bool" where
  "is_text_or_wmo filename =
     (let upper = to_ascii_uppercase filename
      in ends_with upper ''.TXT'' \<or> ends_with upper ''.WMO'')"

definition is_padding :: "byte \<Rightarrow> bool" where
  "is_padding b \<longleftrightarrow> b = 0 \<or> b = 0x20 \<or> b = 0x09 \<or> b = 0x0D \<or> b = 0x0A"

definition trim_text_padding :: "byte list \<Rightarrow> byte list" where
  "trim_text_padding content = rev (dropWhile is_padding (rev content))"

subsection \<open>One step per decoder state\<close>

definition find_sync :: "QbtProtocolDecoder \<Rightarrow> bool \<times> QbtProtocolDecoder" where
  "find_sync d =
     (if length (dec_buffer d) < length SYNC_BYTES then (False, d)
      else (case find_sub (dec_buffer d) SYNC_BYTES of
          Some idx \<Rightarrow>
            (True, d\<lparr>dec_buffer := drop (idx + length SYNC_BYTES) (dec_buffer d), dec_state := StartFrame\<rparr>)
        | None \<Rightarrow>
            (let keep = length SYNC_BYTES - 1 in
             (False,
              if length (dec_buffer d) > keep
              then d\<lparr>dec_buffer := drop (length (dec_buffer d) - keep) (dec_buffer d)\<rparr> else d))))"

definition skip_padding :: "QbtProtocolDecoder \<Rightarrow> bool \<times> QbtProtocolDecoder" where
  "skip_padding d =
     (let rest = dropWhile (\<lambda>b. b = 0) (dec_buffer d);
          skipped = length (dec_buffer d) - length rest;
          d' = d\<lparr>dec_buffer := rest\<rparr>
      in if rest \<noteq> [] then (True, d'\<lparr>dec_state := FrameType\<rparr>) else (skipped > 0, d'))"

definition detect_frame_type :: "QbtProtocolDecoder \<Rightarrow> bool \<times> QbtProtocolDecoder" where
  "detect_frame_type d =
     (case dec_buffer d of
        [] \<Rightarrow> (False, d)
      | b # rest \<Rightarrow>
          if b \<noteq> of_char (CHR ''/'') then (True, d\<lparr>dec_buffer := rest, dec_state := Resync\<rparr>)
          else if length (dec_buffer d) < 3 then (False, d)
          else if starts_with (dec_buffer d) (bytes_of ''/PF'') then (True, d\<lparr>dec_state := BlockHeader\<rparr>)
          else if starts_with (dec_buffer d) (bytes_of ''/Se'')
               \<or> starts_with (dec_buffer d) (bytes_of ''/ServerList/'')
            then (True, d\<lparr>dec_state := ServerListState\<rparr>)
          else (True, d\<lparr>dec_buffer := rest, dec_state := Resync\<rparr>))"

definition process_server_list :: "QbtProtocolDecoder \<Rightarrow> step_result" where
  "process_server_list d =
     (case position (\<lambda>b. b = 0) (dec_buffer d) of
        None \<Rightarrow> (Inr False, d, [])
      | Some end_idx \<Rightarrow>
          (let d' = d\<lparr>dec_buffer := drop (end_idx + 1) (dec_buffer d)\<rparr> in
           case from_utf8 (take end_idx (dec_buffer d)) of
             Inl e \<Rightarrow> (Inl (InvalidUtf8 e), d', [])
           | Inr content \<Rightarrow>
               (case parse_server_list_frame content of
                  Inl e \<Rightarrow> (Inl e, d', [])
                | Inr (server_list, warnings) \<Rightarrow>
                    (Inr True, d'\<lparr>dec_state := StartFrame\<rparr>,
                     ServerListUpdate server_list # map Warning warnings))))"

definition process_block_header :: "qbt_ext \<Rightarrow> QbtProtocolDecoder \<Rightarrow> step_result" where
  "process_block_header E d =
     (if length (dec_buffer d) < HEADER_SIZE then (Inr False, d, [])
      else
        let header_bytes = take HEADER_SIZE (dec_buffer d);
            d' = d\<lparr>dec_buffer := drop HEADER_SIZE (dec_buffer d)\<rparr>
        in case parse_header E header_bytes (max_v2_body_size (dec_config d)) of
             Inl e \<Rightarrow> (Inl e, d', [])
           | Inr p \<Rightarrow> (Inr True, d'\<lparr>dec_pending := Some p, dec_state := BlockBody\<rparr>, []))"

text \<open>The body of the pending segment after the decompression policy has been applied.\<close>

definition store_body :: "qbt_ext \<Rightarrow> QbtDecodeConfig \<Rightarrow> PendingSegment \<Rightarrow> byte list \<Rightarrow> PendingSegment" where
  "store_body E c p body =
     (let should_attempt =
            (pend_version p = V2 \<and>
             (case compression_policy c of
                RequireZlibHeader \<Rightarrow> has_zlib_header body
              | TryAlways \<Rightarrow> True))
      in if should_attempt then
           (case decompress_zlib (inflate E) body of
              Inr decompressed \<Rightarrow> p\<lparr>pend_content := decompressed\<rparr>
            | Inl err \<Rightarrow>
                p\<lparr>pend_decompression_failed := True,
                  pend_warnings := pend_warnings p
                    @ [DecompressionFailed (pend_filename p) (pend_block_number p)
                         (protocol_error_text err)],
                  pend_content := body\<rparr>)
         else p\<lparr>pend_content := body\<rparr>)"

definition process_block_body :: "qbt_ext \<Rightarrow> QbtProtocolDecoder \<Rightarrow> step_result" where
  "process_block_body E d =
     (case dec_pending d of
        None \<Rightarrow> (Inl InvalidFrameType, d, [])
      | Some p \<Rightarrow>
          if length (dec_buffer d) < pend_length p then (Inr False, d, [])
          else
            (Inr True,
             d\<lparr>dec_buffer := drop (pend_length p) (dec_buffer d),
               dec_pending := Some (store_body E (dec_config d) p (take (pend_length p) (dec_buffer d))),
               dec_state := Validate\<rparr>, []))"

definition expected_checksum :: "PendingSegment \<Rightarrow> int" where
  "expected_checksum p =
     (if pend_version p = V1 then uint (pend_checksum p AND 0xFFFF) else uint (pend_checksum p))"

definition segment_of :: "PendingSegment \<Rightarrow> QbtSegment" where
  "segment_of p =
     \<lparr>seg_filename = pend_filename p,
      seg_block_number = pend_block_number p,
      seg_total_blocks = pend_total_blocks p,
      seg_content = (if is_text_or_wmo (pend_filename p)
                     then trim_text_padding (pend_content p) else pend_content p),
      seg_checksum = pend_checksum p,
      seg_length = pend_length p,
      seg_version = pend_version p,
      seg_timestamp_utc = pend_timestamp_utc p,
      seg_source = None\<rparr>"

text \<open>The events of \<open>validate_and_emit\<close> after the pending warnings.\<close>

definition emit_segment :: "PendingSegment \<Rightarrow> QbtFrameEvent list" where
  "emit_segment p =
     (if pend_decompression_failed p then []
      else if pend_total_blocks p = 0 \<or> pend_block_number p = 0
              \<or> pend_block_number p > pend_total_blocks p then []
      else if eq_ignore_ascii_case (pend_filename p) ''FILLFILE.TXT'' then []
      else if \<not> verify_checksum (pend_content p) (expected_checksum p)
        then [Warning (ChecksumMismatch (pend_filename p) (pend_block_number p))]
      else [DataBlock (segment_of p)])"

definition validate_and_emit :: "QbtProtocolDecoder \<Rightarrow> step_result" where
  "validate_and_emit d =
     (case dec_pending d of
        None \<Rightarrow> (Inl InvalidFrameType, d, [])
      | Some p \<Rightarrow>
          (Inr True, d\<lparr>dec_pending := None, dec_state := StartFrame\<rparr>,
           map Warning (pend_warnings p) @ emit_segment p))"

fun lift_step :: "bool \<times> QbtProtocolDecoder \<Rightarrow> step_result" where
  "lift_step (progressed, d) = (Inr progressed, d, [])"

definition process_buffer :: "qbt_ext \<Rightarrow> QbtProtocolDecoder \<Rightarrow> step_result" where
  "process_buffer E d =
     (case dec_state d of
        Resync \<Rightarrow> lift_step (find_sync d)
      | StartFrame \<Rightarrow> lift_step (skip_padding d)
      | FrameType \<Rightarrow> lift_step (detect_frame_type d)
      | ServerListState \<Rightarrow> process_server_list d
      | BlockHeader \<Rightarrow> process_block_header E d
      | BlockBody \<Rightarrow> process_block_body E d
      | Validate \<Rightarrow> validate_and_emit d)"

subsection \<open>The feed loop\<close>

definition recover :: "QbtProtocolError \<Rightarrow> QbtProtocolDecoder \<Rightarrow> bool \<times> QbtProtocolDecoder" where
  "recover err d =
     (let d' = d\<lparr>dec_pending := None, dec_state := Resync\<rparr> in
      if err = InvalidFrameType \<and> dec_buffer d' \<noteq> []
      then (True, d'\<lparr>dec_buffer := tl (dec_buffer d')\<rparr>)
      else (dec_buffer d' \<noteq> [], d'))"

text \<open>One iteration of the \<open>loop\<close> in \<open>feed\<close>, recovery included.\<close>

definition feed_step ::
    "qbt_ext \<Rightarrow> QbtProtocolDecoder \<Rightarrow> bool \<times> QbtProtocolDecoder \<times> QbtFrameEvent list" where
  "feed_step E d =
     (case process_buffer E d of
        (Inr progressed, d', evs) \<Rightarrow> (progressed, d', evs)
      | (Inl err, d', evs) \<Rightarrow>
          (let (progressed, d'') = recover err d'
           in (progressed, d'', evs @ [Warning (DecoderRecovered (protocol_error_text err))])))"

fun state_rank :: "DecoderState \<Rightarrow> nat" where
  "state_rank BlockBody = 5"
| "state_rank Validate = 4"
| "state_rank StartFrame = 3"
| "state_rank FrameType = 2"
| "state_rank _ = 1"

text \<open>
  Every step that reports progress shortens the buffer, or keeps it and moves to a state of
  lower rank; so the loop stops.
\<close>

lemma find_sync_progress:
  "find_sync d = (True, d') \<Longrightarrow> length (dec_buffer d') < length (dec_buffer d)"
  by (auto simp: find_sync_def SYNC_BYTES_def split: if_splits option.splits dest: find_sub_SomeD)

lemma skip_padding_progress:
  assumes "skip_padding d = (True, d')" and "dec_state d = StartFrame"
  shows "length (dec_buffer d') < length (dec_buffer d) \<or>
    length (dec_buffer d') = length (dec_buffer d) \<and> state_rank (dec_state d') < state_rank (dec_state d)"
proof -
  have "length (dropWhile (\<lambda>b. b = 0) (dec_buffer d)) \<le> length (dec_buffer d)"
    by (rule length_dropWhile_le)
  then show ?thesis
    using assms by (auto simp: skip_padding_def Let_def split: if_splits)
qed

lemma detect_frame_type_progress:
  assumes "detect_frame_type d = (True, d')" and "dec_state d = FrameType"
  shows "length (dec_buffer d') < length (dec_buffer d) \<or>
    length (dec_buffer d') = length (dec_buffer d) \<and> state_rank (dec_state d') < state_rank (dec_state d)"
  using assms by (auto simp: detect_frame_type_def split: if_splits list.splits)

lemma process_server_list_progress:
  assumes "process_server_list d = (r, d', evs)" and "r \<noteq> Inr False"
  shows "length (dec_buffer d') < length (dec_buffer d)"
  using assms
  by (auto simp: process_server_list_def Let_def dest!: position_SomeD
    split: option.splits sum.splits)

lemma process_block_header_progress:
  assumes "process_block_header E d = (r, d', evs)" and "r \<noteq> Inr False"
  shows "length (dec_buffer d') < length (dec_buffer d)"
  using assms by (auto simp: process_block_header_def Let_def HEADER_SIZE_def split: if_splits sum.splits)

lemma process_block_body_progress:
  assumes "process_block_body E d = (Inr True, d', evs)" and "dec_state d = BlockBody"
  shows "length (dec_buffer d') < length (dec_buffer d) \<or>
    length (dec_buffer d') = length (dec_buffer d) \<and> state_rank (dec_state d') < state_rank (dec_state d)"
  using assms by (auto simp: process_block_body_def split: if_splits option.splits)

lemma feed_step_decreases:
  assumes "feed_step E d = (True, d', evs)"
  shows "(d', d) \<in> measures [\<lambda>d. length (dec_buffer d), \<lambda>d. state_rank (dec_state d)]"
proof (cases "process_buffer E d")
  case (fields r d1 evs1)
  show ?thesis
  proof (cases "dec_state d")
    case Resync
    with assms show ?thesis
      by (cases "find_sync d")
        (auto simp: feed_step_def process_buffer_def dest: find_sync_progress)
  next
    case StartFrame
    with assms show ?thesis
      by (cases "skip_padding d")
        (auto simp: feed_step_def process_buffer_def dest!: skip_padding_progress)
  next
    case FrameType
    with assms show ?thesis
      by (cases "detect_frame_type d")
        (auto simp: feed_step_def process_buffer_def dest!: detect_frame_type_progress)
  next
    case ServerListState
    then have p: "process_server_list d = (r, d1, evs1)"
      using fields by (simp add: process_buffer_def)
    show ?thesis
      using assms fields process_server_list_progress [OF p]
      by (auto simp: feed_step_def recover_def Let_def split: sum.splits if_splits)
  next
    case BlockHeader
    then have p: "process_block_header E d = (r, d1, evs1)"
      using fields by (simp add: process_buffer_def)
    show ?thesis
      using assms fields process_block_header_progress [OF p]
      by (auto simp: feed_step_def recover_def Let_def split: sum.splits if_splits)
  next
    case BlockBody
    then have p: "process_block_body E d = (r, d1, evs1)"
      using fields by (simp add: process_buffer_def)
    show ?thesis
    proof (cases r)
      case (Inl err)
      with p have "err = InvalidFrameType" and "d1 = d"
        by (auto simp: process_block_body_def split: option.splits if_splits)
      with assms fields Inl show ?thesis
        by (auto simp: feed_step_def recover_def Let_def split: if_splits)
    next
      case (Inr b)
      with assms fields p have "process_block_body E d = (Inr True, d', evs)"
        by (simp add: feed_step_def)
      from process_block_body_progress [OF this BlockBody] show ?thesis by auto
    qed
  next
    case Validate
    with assms show ?thesis
      by (auto simp: feed_step_def process_buffer_def validate_and_emit_def recover_def Let_def
        split: option.splits if_splits)
  qed
qed

function feed_loop ::
    "qbt_ext \<Rightarrow> QbtProtocolDecoder \<Rightarrow> QbtProtocolDecoder \<times> QbtFrameEvent list" where
  "feed_loop E d =
     (case feed_step E d of
        (True, d', evs) \<Rightarrow> (let (d'', evs') = feed_loop E d' in (d'', evs @ evs'))
      | (False, d', evs) \<Rightarrow> (d', evs))"
  by pat_completeness auto
termination
  by (relation "inv_image (measures [\<lambda>d. length (dec_buffer d), \<lambda>d. state_rank (dec_state d)]) snd")
    (auto dest: feed_step_decreases [OF sym])

declare feed_loop.simps [simp del]

definition push_bytes :: "QbtProtocolDecoder \<Rightarrow> byte list \<Rightarrow> QbtProtocolDecoder" where
  "push_bytes d bs = d\<lparr>dec_buffer := dec_buffer d @ bs\<rparr>"

definition feed ::
    "qbt_ext \<Rightarrow> QbtProtocolDecoder \<Rightarrow> byte list \<Rightarrow> QbtProtocolDecoder \<times> QbtFrameEvent list" where
  "feed E d chunk = feed_loop E (push_bytes d (map xor_ff_byte chunk))"

definition reset :: "QbtProtocolDecoder \<Rightarrow> QbtProtocolDecoder" where
  "reset d = d\<lparr>dec_buffer := [], dec_pending := None, dec_state := Resync\<rparr>"

end
