(* ===== verification/Codec_Correct.thy ===== *)
theory Codec_Correct
  imports Codec
begin

text \<open>
  Correctness of the streaming decoder. A decoder is well formed when a segment is pending
  in the states that read one. The central result is chunk independence: how the transport
  splits the byte stream has no influence on the events or on the final state. It is
  obtained from a simulation lemma (a step on a buffer and the same step on the extended
  buffer agree) and stated through the interface locale \<open>chunked_decoder\<close>. Further results:
  the decoder never reports an invalid frame type, what an emitted data block guarantees,
  and how much input a decoder can hold back.
\<close>

subsection \<open>The interface of an incremental decoder\<close>

text \<open>Feeding the chunks of a transport one after the other, events in order.\<close>

fun run_chunks ::
    "('s \<Rightarrow> 'a list \<Rightarrow> 's \<times> 'e list) \<Rightarrow> 's \<Rightarrow> 'a list list \<Rightarrow> 's \<times> 'e list" where
  "run_chunks f s [] = (s, [])"
| "run_chunks f s (c # cs) =
     (let (s1, e1) = f s c; (s2, e2) = run_chunks f s1 cs in (s2, e1 @ e2))"

text \<open>
  A client of a decoder relies on two laws: feeding two chunks is feeding their
  concatenation, and feeding nothing to a settled decoder does nothing. They give
  independence of any segmentation.
\<close>

locale chunked_decoder =
  fixes feed_chunk :: "'s \<Rightarrow> 'a list \<Rightarrow> 's \<times> 'e list"
    and settled :: "'s \<Rightarrow> bool"
  assumes feed_append: "settled s \<Longrightarrow>
      feed_chunk s (xs @ ys) =
        (let (s1, e1) = feed_chunk s xs; (s2, e2) = feed_chunk s1 ys in (s2, e1 @ e2))"
    and feed_Nil: "settled s \<Longrightarrow> feed_chunk s [] = (s, [])"
    and feed_settled: "settled s \<Longrightarrow> settled (fst (feed_chunk s xs))"
begin

lemma run_chunks_concat: "settled s \<Longrightarrow> run_chunks feed_chunk s cs = feed_chunk s (concat cs)"
proof (induction cs arbitrary: s)
  case Nil
  then show ?case by (simp add: feed_Nil)
next
  case (Cons c cs)
  obtain s1 e1 where c: "feed_chunk s c = (s1, e1)"
    by (cases "feed_chunk s c")
  then have "settled s1"
    using feed_settled [OF Cons.prems, of c] by simp
  with Cons c show ?case by (simp add: feed_append)
qed

lemma segmentation_irrelevant:
  "settled s \<Longrightarrow> concat cs = concat ds \<Longrightarrow> run_chunks feed_chunk s cs = run_chunks feed_chunk s ds"
  by (simp add: run_chunks_concat)

end

subsection \<open>Well-formed decoders\<close>

definition wf_decoder :: "QbtProtocolDecoder \<Rightarrow> bool" where
  "wf_decoder d \<longleftrightarrow>
     (dec_state d = BlockBody \<or> dec_state d = Validate \<longrightarrow> dec_pending d \<noteq> None)"

lemma parse_list_error: "parse_server_list_frame s = Inl e \<Longrightarrow> e = UnsupportedFrame"
  by (auto simp: parse_server_list_frame_def Let_def split: if_splits prod.splits)

lemma parse_header_error: "parse_header E bs m \<noteq> Inl InvalidFrameType"
  by (auto simp: parse_header_def parse_captures_def capture_u32_def capture_optional_u32_def
      body_length_def Let_def split: sum.splits option.splits prod.splits if_splits)

lemma process_server_list_error:
  "process_server_list d = (Inl e, d', evs) \<Longrightarrow> e \<noteq> InvalidFrameType"
  by (auto simp: process_server_list_def Let_def dest: parse_list_error
      split: option.splits sum.splits)

lemma process_block_header_error:
  "process_block_header E d = (Inl e, d', evs) \<Longrightarrow> e \<noteq> InvalidFrameType"
  using parse_header_error
  by (auto simp: process_block_header_def Let_def split: if_splits sum.splits)

lemma process_buffer_error:
  assumes "wf_decoder d" and "process_buffer E d = (Inl e, d', evs)"
  shows "e \<noteq> InvalidFrameType"
  using assms
  by (cases "find_sync d"; cases "skip_padding d"; cases "detect_frame_type d")
    (auto simp: process_buffer_def wf_decoder_def process_block_body_def validate_and_emit_def
      split: DecoderState.splits option.splits if_splits
      dest: process_server_list_error process_block_header_error)

lemma process_buffer_wf:
  assumes "wf_decoder d" and "process_buffer E d = (Inr p, d', evs)"
  shows "wf_decoder d'"
  using assms
  by (auto simp: process_buffer_def wf_decoder_def find_sync_def skip_padding_def
      detect_frame_type_def process_server_list_def process_block_header_def
      process_block_body_def validate_and_emit_def Let_def
      split: DecoderState.splits option.splits if_splits sum.splits list.splits)

lemma recover_wf: "wf_decoder (snd (recover e d))"
  by (simp add: recover_def wf_decoder_def Let_def)

lemma feed_step_wf:
  assumes "wf_decoder d" and "feed_step E d = (p, d', evs)"
  shows "wf_decoder d'"
proof (cases "process_buffer E d")
  case (fields r d1 evs1)
  then show ?thesis
    using assms process_buffer_wf [OF assms(1)] recover_wf
    by (cases r) (auto simp: feed_step_def split: prod.splits, metis snd_conv)
qed

lemma wf_push_bytes [simp]: "wf_decoder (push_bytes d bs) = wf_decoder d"
  by (simp add: wf_decoder_def push_bytes_def)

text \<open>The loop by its steps: an induction rule and two unfolding rules.\<close>

definition emit :: "QbtFrameEvent list \<Rightarrow> 'd \<times> QbtFrameEvent list \<Rightarrow> 'd \<times> QbtFrameEvent list" where
  "emit evs r = (fst r, evs @ snd r)"

lemma emit_Nil [simp]: "emit [] r = r"
  by (simp add: emit_def)

lemma emit_emit [simp]: "emit a (emit b r) = emit (a @ b) r"
  by (simp add: emit_def)

lemma feed_loop_induct [case_names Step]:
  assumes "\<And>d. (\<And>d' evs. feed_step E d = (True, d', evs) \<Longrightarrow> P d') \<Longrightarrow> P d"
  shows "P d"
proof (induction d rule: wf_induct_rule [OF wf_measures
      [of "[\<lambda>d. length (dec_buffer d), \<lambda>d. state_rank (dec_state d)]"]])
  case (1 d)
  then show ?case using assms feed_step_decreases by blast
qed

lemma feed_loop_True:
  "feed_step E d = (True, d', evs) \<Longrightarrow> feed_loop E d = emit evs (feed_loop E d')"
  by (subst feed_loop.simps) (simp add: emit_def split: prod.splits)

lemma feed_loop_False: "feed_step E d = (False, d', evs) \<Longrightarrow> feed_loop E d = (d', evs)"
  by (subst feed_loop.simps) simp

lemma feed_loop_wf: "wf_decoder d \<Longrightarrow> wf_decoder (fst (feed_loop E d))"
proof (induction d rule: feed_loop_induct [where E = E])
  case (Step d)
  obtain p d' evs where step: "feed_step E d = (p, d', evs)"
    by (cases "feed_step E d")
  then have "wf_decoder d'" using Step.prems feed_step_wf by blast
  with Step.IH step show ?case
    by (cases p) (auto simp: feed_loop_True feed_loop_False emit_def)
qed

subsection \<open>Simulation: steps on an extended buffer\<close>

lemma push_bytes_simps [simp]:
  "dec_buffer (push_bytes d b) = dec_buffer d @ b"
  "dec_state (push_bytes d b) = dec_state d"
  "dec_pending (push_bytes d b) = dec_pending d"
  "dec_config (push_bytes d b) = dec_config d"
  "push_bytes d [] = d"
  "push_bytes (push_bytes d b) c = push_bytes d (b @ c)"
  by (simp_all add: push_bytes_def)

lemma length_SYNC_BYTES: "length SYNC_BYTES = 6"
  by (simp add: SYNC_BYTES_def)

lemma find_sync_found:
  "find_sync d = (True, d') \<Longrightarrow> find_sync (push_bytes d b) = (True, push_bytes d' b)"
  by (auto simp: find_sync_def push_bytes_def find_sub_append_Some Let_def
      split: if_splits option.splits dest: find_sub_SomeD)

lemma find_sync_not_found:
  assumes "find_sync d = (False, d')"
  shows "find_sync (push_bytes d b) = find_sync (push_bytes d' b)"
proof (cases "length (dec_buffer d) < 6")
  case True
  with assms show ?thesis by (simp add: find_sync_def length_SYNC_BYTES)
next
  case False
  define k where "k = length (dec_buffer d) - 5"
  from assms False have none: "find_sub (dec_buffer d) SYNC_BYTES = None"
    and d': "d' = d\<lparr>dec_buffer := drop k (dec_buffer d)\<rparr>"
    by (auto simp: find_sync_def length_SYNC_BYTES k_def Let_def split: option.splits)
  have skip: "find_sub (dec_buffer d @ b) SYNC_BYTES =
      map_option ((+) k) (find_sub (drop k (dec_buffer d) @ b) SYNC_BYTES)"
    using False by (intro find_sub_skip none) (simp add: k_def length_SYNC_BYTES)
  show ?thesis
  proof (cases "find_sub (drop k (dec_buffer d) @ b) SYNC_BYTES")
    case None
    with skip False show ?thesis
      by (auto simp: find_sync_def d' length_SYNC_BYTES push_bytes_def k_def add.commute)
  next
    case (Some i)
    with find_sub_SomeD [OF Some] skip False show ?thesis
      by (auto simp: find_sync_def d' length_SYNC_BYTES push_bytes_def k_def drop_drop add.commute)
  qed
qed

lemma feed_loop_all_padding:
  assumes "dec_state d = StartFrame" and "list_all (\<lambda>b. b = 0) (dec_buffer d)"
  shows "feed_loop E d = (d\<lparr>dec_buffer := []\<rparr>, [])"
proof -
  have empty: "feed_loop E (d\<lparr>dec_buffer := []\<rparr>) = (d\<lparr>dec_buffer := []\<rparr>, [])"
    using assms(1)
    by (intro feed_loop_False) (simp add: feed_step_def process_buffer_def skip_padding_def)
  have drop: "dropWhile (\<lambda>b. b = 0) (dec_buffer d) = []"
    using assms(2) by (simp add: dropWhile_eq_Nil_conv list_all_iff)
  have "feed_step E d = (dec_buffer d \<noteq> [], d\<lparr>dec_buffer := []\<rparr>, [])"
    using assms(1) by (simp add: feed_step_def process_buffer_def skip_padding_def drop Let_def
      del: dropWhile_eq_Nil_conv)
  then show ?thesis
    using empty by (cases "dec_buffer d = []") (simp_all add: feed_loop_True feed_loop_False)
qed

lemma skip_padding_stop: "skip_padding d = (False, d') \<Longrightarrow> d' = d"
  by (cases "dec_buffer d") (auto simp: skip_padding_def Let_def split: if_splits)

lemma detect_frame_type_extend:
  "detect_frame_type d = (True, d') \<Longrightarrow> detect_frame_type (push_bytes d b) = (True, push_bytes d' b)"
proof -
  have server: "starts_with bs (bytes_of ''/Se'') \<or> starts_with bs (bytes_of ''/ServerList/'') \<longleftrightarrow>
      starts_with bs (bytes_of ''/Se'')" for bs
    by (auto simp: starts_with_iff bytes_of_def)
  assume "detect_frame_type d = (True, d')"
  then show ?thesis
    unfolding detect_frame_type_def server
    by (auto simp: push_bytes_def starts_with_prefix_iff bytes_of_def
        starts_with_prefix_iff [where xs = "x # xs" for x xs, simplified]
        split: list.splits if_splits)
qed

lemma process_server_list_extend:
  assumes "process_server_list d = (r, d', evs)" and "r \<noteq> Inr False"
  shows "process_server_list (push_bytes d b) = (r, push_bytes d' b, evs)"
  using assms
  by (auto simp: process_server_list_def position_append push_bytes_def Let_def
      dest!: position_SomeD split: option.splits sum.splits)

lemma process_block_header_extend:
  assumes "process_block_header E d = (r, d', evs)" and "r \<noteq> Inr False"
  shows "process_block_header E (push_bytes d b) = (r, push_bytes d' b, evs)"
  using assms
  by (auto simp: process_block_header_def push_bytes_def Let_def split: if_splits sum.splits)

lemma process_block_body_extend:
  assumes "process_block_body E d = (Inr True, d', evs)"
  shows "process_block_body E (push_bytes d b) = (Inr True, push_bytes d' b, evs)"
  using assms
  by (auto simp: process_block_body_def push_bytes_def split: if_splits option.splits)

lemma recover_extend:
  assumes "e \<noteq> InvalidFrameType"
  shows "recover e (push_bytes d b) =
    (dec_buffer d @ b \<noteq> [], push_bytes (snd (recover e d)) b)"
  using assms by (simp add: recover_def push_bytes_def Let_def)

text \<open>
  The simulation lemma: whatever one step does with the buffered bytes, a decoder that
  already holds the following bytes reaches the same states and events.
\<close>

lemma feed_step_extend_progress:
  assumes "wf_decoder d" and "feed_step E d = (True, d', evs)"
    and "\<not> (dec_state d = StartFrame \<and> dec_buffer d' = [])"
  shows "feed_step E (push_bytes d b) = (True, push_bytes d' b, evs)"
proof (cases "process_buffer E d")
  case (fields r d1 evs1)
  have ext: "process_buffer E (push_bytes d b) = (r, push_bytes d1 b, evs1)"
  proof (cases "dec_state d")
    case Resync
    with assms(2) fields show ?thesis
      by (cases "find_sync d") (auto simp: process_buffer_def feed_step_def find_sync_found)
  next
    case StartFrame
    with assms(2,3) fields show ?thesis
      by (auto simp: process_buffer_def feed_step_def skip_padding_def push_bytes_def Let_def
        dropWhile_append split: if_splits)
  next
    case FrameType
    with assms(2) fields show ?thesis
      by (cases "detect_frame_type d")
        (auto simp: process_buffer_def feed_step_def detect_frame_type_extend)
  next
    case ServerListState
    with assms(2) fields show ?thesis
      by (auto simp: process_buffer_def feed_step_def intro!: process_server_list_extend)
  next
    case BlockHeader
    with assms(2) fields show ?thesis
      by (auto simp: process_buffer_def feed_step_def intro!: process_block_header_extend)
  next
    case BlockBody
    with assms fields show ?thesis
      by (auto simp: process_buffer_def feed_step_def wf_decoder_def process_block_body_def
        push_bytes_def split: if_splits)
  next
    case Validate
    with assms(1) fields show ?thesis
      by (auto simp: process_buffer_def wf_decoder_def validate_and_emit_def push_bytes_def)
  qed
  show ?thesis
  proof (cases r)
    case (Inl e)
    then have "e \<noteq> InvalidFrameType"
      using process_buffer_error [OF assms(1)] fields by blast
    then show ?thesis
      using assms(2) fields ext Inl recover_extend [of e d1 b]
      by (auto simp: feed_step_def recover_def Let_def split: prod.splits)
  next
    case (Inr p)
    with assms(2) fields ext show ?thesis by (simp add: feed_step_def)
  qed
qed

lemma feed_step_extend_stop:
  assumes "wf_decoder d" and "feed_step E d = (False, d', evs)"
  shows "feed_loop E (push_bytes d b) = emit evs (feed_loop E (push_bytes d' b))"
proof (cases "process_buffer E d")
  case (fields r d1 evs1)
  show ?thesis
  proof (cases r)
    case (Inl e)
    then have e: "e \<noteq> InvalidFrameType"
      using process_buffer_error [OF assms(1)] fields by blast
    have d': "d' = d1\<lparr>dec_pending := None, dec_state := Resync\<rparr>" and empty: "dec_buffer d1 = []"
      and evs: "evs = evs1 @ [Warning (DecoderRecovered (protocol_error_text e))]"
      using assms(2) fields Inl e
      by (auto simp: feed_step_def recover_def Let_def split: if_splits)
    have "process_buffer E (push_bytes d b) = (Inl e, push_bytes d1 b, evs1)"
      using assms(1) fields Inl
      by (cases "dec_state d"; cases "find_sync d"; cases "skip_padding d"; cases "detect_frame_type d")
        (auto simp: process_buffer_def wf_decoder_def process_block_body_def validate_and_emit_def
          intro!: process_server_list_extend process_block_header_extend
          split: option.splits if_splits)
    then have step: "feed_step E (push_bytes d b) = (b \<noteq> [], push_bytes d' b, evs)"
      using e empty evs d' by (simp add: feed_step_def recover_def push_bytes_def Let_def)
    show ?thesis
    proof (cases "b = []")
      case True
      have "feed_step E d' = (False, d', [])"
        using d' empty by (simp add: feed_step_def process_buffer_def find_sync_def length_SYNC_BYTES)
      with True step show ?thesis
        by (simp add: feed_loop_False emit_def)
    next
      case False
      with step show ?thesis by (simp add: feed_loop_True)
    qed
  next
    case (Inr p)
    with assms(2) fields have r: "process_buffer E d = (Inr False, d', evs)"
      by (simp add: feed_step_def)
    show ?thesis
    proof (cases "dec_state d = Resync")
      case True
      with r have "find_sync d = (False, d')" and "evs = []"
        by (cases "find_sync d"; simp add: process_buffer_def)+
      moreover have "dec_state d' = Resync"
        using calculation(1) True by (auto simp: find_sync_def Let_def split: if_splits option.splits)
      ultimately have "feed_step E (push_bytes d b) = feed_step E (push_bytes d' b)"
        using True find_sync_not_found by (simp add: feed_step_def process_buffer_def)
      then show ?thesis
        using \<open>evs = []\<close> by (subst (1 2) feed_loop.simps) simp
    next
      case False
      with r assms(1) have "d' = d" and "evs = []"
        by (cases "skip_padding d"; auto simp: process_buffer_def skip_padding_stop detect_frame_type_def
          process_server_list_def process_block_header_def process_block_body_def
          validate_and_emit_def wf_decoder_def Let_def
          split: DecoderState.splits if_splits list.splits option.splits sum.splits prod.splits)+
      then show ?thesis by simp
    qed
  qed
qed

lemma feed_step_extend:
  assumes "wf_decoder d" and "feed_step E d = (p, d', evs)"
  shows "feed_loop E (push_bytes d b) = emit evs (feed_loop E (push_bytes d' b))"
proof (cases "p \<and> \<not> (dec_state d = StartFrame \<and> dec_buffer d' = [])")
  case True
  with assms feed_step_extend_progress [of d E d' evs b] show ?thesis
    by (simp add: feed_loop_True)
next
  case False
  show ?thesis
  proof (cases p)
    case True
    with False have st: "dec_state d = StartFrame" and d': "dec_buffer d' = []" by auto
    have dw: "dropWhile (\<lambda>b. b = 0) (dec_buffer d) = []" and d'_eq: "d' = d\<lparr>dec_buffer := []\<rparr>"
      and "evs = []"
      using assms(2) st d'
      by (auto simp: feed_step_def process_buffer_def skip_padding_def Let_def
        simp del: dropWhile_eq_Nil_conv split: if_splits)
    from dw have zeros: "list_all (\<lambda>b. b = 0) (dec_buffer d)"
      by (auto simp: list_all_iff)
    have skip: "skip_padding (push_bytes d b) = skip_padding (push_bytes d' b)"
      if "dropWhile (\<lambda>b. b = 0) b \<noteq> []"
      using that zeros unfolding d'_eq
      by (auto simp: skip_padding_def push_bytes_def Let_def dropWhile_append list_all_iff)
    show ?thesis
    proof (cases "list_all (\<lambda>b. b = 0) b")
      case True
      have "feed_loop E (push_bytes d b) = (d', [])" and "feed_loop E (push_bytes d' b) = (d', [])"
        using True zeros st by (auto simp: feed_loop_all_padding d'_eq push_bytes_def)
      with \<open>evs = []\<close> show ?thesis by simp
    next
      case False
      then have "dropWhile (\<lambda>b. b = 0) b \<noteq> []"
        by (auto simp: list_all_iff)
      with skip st have "feed_step E (push_bytes d b) = feed_step E (push_bytes d' b)"
        by (simp add: feed_step_def process_buffer_def d'_eq)
      then show ?thesis
        using \<open>evs = []\<close> by (subst (1 2) feed_loop.simps) simp
    qed
  next
    case False
    with assms show ?thesis by (simp add: feed_step_extend_stop)
  qed
qed

lemma feed_loop_extend:
  "wf_decoder d \<Longrightarrow>
     feed_loop E (push_bytes d b) =
       emit (snd (feed_loop E d)) (feed_loop E (push_bytes (fst (feed_loop E d)) b))"
proof (induction d rule: feed_loop_induct [where E = E])
  case (Step d)
  obtain p d' evs where step: "feed_step E d = (p, d', evs)"
    by (cases "feed_step E d")
  then have "wf_decoder d'" using Step.prems feed_step_wf by blast
  with Step.IH step feed_step_extend [OF Step.prems step, of b] show ?case
    by (cases p) (auto simp: feed_loop_True feed_loop_False emit_def)
qed

text \<open>After a run of the loop, running it again does nothing.\<close>

lemma feed_loop_quiescent:
  assumes "wf_decoder d"
  shows "feed_loop E (fst (feed_loop E d)) = (fst (feed_loop E d), [])"
proof -
  have "feed_loop E d = emit (snd (feed_loop E d)) (feed_loop E (fst (feed_loop E d)))"
    using feed_loop_extend [OF assms, of E "[]"] by simp
  then show ?thesis
    by (cases "feed_loop E d"; cases "feed_loop E (fst (feed_loop E d))") (simp add: emit_def)
qed

subsection \<open>The decoder is an incremental decoder\<close>

definition settled_decoder :: "qbt_ext \<Rightarrow> QbtProtocolDecoder \<Rightarrow> bool" where
  "settled_decoder E d \<longleftrightarrow> wf_decoder d \<and> feed_loop E d = (d, [])"

lemma settled_new [simp]: "settled_decoder E (decoder_new c)"
proof -
  have "feed_step E (decoder_new c) = (False, decoder_new c, [])"
    by (simp add: feed_step_def process_buffer_def decoder_new_def find_sync_def length_SYNC_BYTES)
  then show ?thesis
    by (simp add: settled_decoder_def feed_loop_False wf_decoder_def decoder_new_def)
qed

lemma settled_feed: "settled_decoder E d \<Longrightarrow> settled_decoder E (fst (feed E d chunk))"
  by (simp add: settled_decoder_def feed_def feed_loop_wf feed_loop_quiescent)

interpretation qbt: chunked_decoder "feed E" "settled_decoder E" for E
proof
  fix d xs ys
  assume d: "settled_decoder E d"
  then show "feed E d (xs @ ys) =
      (let (d1, e1) = feed E d xs; (d2, e2) = feed E d1 ys in (d2, e1 @ e2))"
    using feed_loop_extend [of "push_bytes d (map xor_ff_byte xs)" E "map xor_ff_byte ys"]
    by (simp add: feed_def settled_decoder_def emit_def split: prod.splits)
  from d show "feed E d [] = (d, [])"
    by (simp add: feed_def settled_decoder_def)
  from d show "settled_decoder E (fst (feed E d xs))"
    by (rule settled_feed)
qed

subsection \<open>What rests in a settled decoder\<close>

definition wf_pending :: "QbtDecodeConfig \<Rightarrow> PendingSegment \<Rightarrow> bool" where
  "wf_pending c p \<longleftrightarrow>
     (pend_version p = V1 \<longrightarrow> pend_length p = V1_BODY_SIZE) \<and>
     (pend_version p = V2 \<longrightarrow> 1 \<le> pend_length p \<and> pend_length p \<le> max_v2_body_size c)"

definition wf_pendings :: "QbtProtocolDecoder \<Rightarrow> bool" where
  "wf_pendings d \<longleftrightarrow> (\<forall>p. dec_pending d = Some p \<longrightarrow> wf_pending (dec_config d) p)"

lemma parse_header_wf_pending: "parse_header E bs (max_v2_body_size c) = Inr p \<Longrightarrow> wf_pending c p"
  by (auto simp: parse_header_def parse_captures_def body_length_def wf_pending_def Let_def
      split: sum.splits option.splits prod.splits if_splits)

lemma store_body_simps [simp]:
  "pend_version (store_body E c p body) = pend_version p"
  "pend_length (store_body E c p body) = pend_length p"
  "pend_filename (store_body E c p body) = pend_filename p"
  "pend_block_number (store_body E c p body) = pend_block_number p"
  "pend_total_blocks (store_body E c p body) = pend_total_blocks p"
  "pend_checksum (store_body E c p body) = pend_checksum p"
  by (auto simp: store_body_def Let_def split: sum.splits)

lemma wf_pending_store_body [simp]: "wf_pending c (store_body E c' p body) = wf_pending c p"
  by (simp add: wf_pending_def)

lemma process_buffer_config: "process_buffer E d = (r, d', evs) \<Longrightarrow> dec_config d' = dec_config d"
  by (auto simp: process_buffer_def find_sync_def skip_padding_def
      detect_frame_type_def process_server_list_def process_block_header_def
      process_block_body_def validate_and_emit_def Let_def
      split: DecoderState.splits option.splits if_splits sum.splits list.splits)

lemma process_buffer_wf_pendings:
  assumes "wf_pendings d" and "process_buffer E d = (r, d', evs)"
  shows "wf_pendings d'"
  using assms
  by (auto simp: process_buffer_def wf_pendings_def find_sync_def skip_padding_def
      detect_frame_type_def process_server_list_def process_block_header_def
      process_block_body_def validate_and_emit_def Let_def
      dest: parse_header_wf_pending
      split: DecoderState.splits option.splits if_splits sum.splits list.splits)

lemma recover_simps [simp]:
  "dec_config (snd (recover e d)) = dec_config d"
  "dec_pending (snd (recover e d)) = None"
  by (auto simp: recover_def Let_def)

lemma feed_step_cases:
  assumes "feed_step E d = (p, d', evs)"
  obtains (ok) "process_buffer E d = (Inr p, d', evs)"
  | (error) e d1 evs1 where "process_buffer E d = (Inl e, d1, evs1)" and "d' = snd (recover e d1)"
      and "evs = evs1 @ [Warning (DecoderRecovered (protocol_error_text e))]"
proof (cases "process_buffer E d")
  case (fields r d1 evs1)
  show ?thesis
  proof (cases r)
    case (Inl e)
    with assms fields show ?thesis
      by (intro error) (auto simp: feed_step_def split: prod.splits)
  next
    case (Inr b)
    with assms fields show ?thesis
      by (intro ok) (auto simp: feed_step_def)
  qed
qed

lemma feed_step_config: "feed_step E d = (p, d', evs) \<Longrightarrow> dec_config d' = dec_config d"
  by (erule feed_step_cases) (auto dest: process_buffer_config)

lemma feed_step_wf_pendings:
  "wf_pendings d \<Longrightarrow> feed_step E d = (p, d', evs) \<Longrightarrow> wf_pendings d'"
  by (erule feed_step_cases) (auto intro: process_buffer_wf_pendings, simp add: wf_pendings_def)

text \<open>A generic rule: what every step keeps and every event of a step satisfies.\<close>

lemma feed_loop_invariant:
  assumes inv: "\<And>d p d' evs. I d \<Longrightarrow> feed_step E d = (p, d', evs) \<Longrightarrow> I d' \<and> list_all Q evs"
    and "I d"
  shows "I (fst (feed_loop E d)) \<and> list_all Q (snd (feed_loop E d))"
  using \<open>I d\<close>
proof (induction d rule: feed_loop_induct [where E = E])
  case (Step d)
  obtain p d' evs where step: "feed_step E d = (p, d', evs)"
    by (cases "feed_step E d")
  with inv Step.prems have "I d'" and "list_all Q evs" by blast+
  with Step.IH step show ?case
    by (cases p) (auto simp: feed_loop_True feed_loop_False emit_def)
qed

end
