(* ===== verification/Codec_Props.thy ===== *)
theory Codec_Props
  imports Codec_Correct "HOL-Library.Sublist"
begin

text \<open>
  The properties of the decoder that its callers rely on, each about the code's own entry
  points \<open>decoder_new\<close>, \<open>feed\<close> and \<open>reset\<close>: independence of the transport's
  segmentation, what every emitted data block guarantees, complete decoding of a data frame
  and of a server-list frame after arbitrary noise, and the bound on buffered input.
\<close>

subsection \<open>Guarantees of emitted events\<close>

text \<open>
  The body of a block as the checksum sees it: a block of the second version is inflated first when the
  policy asks for it.
\<close>

definition raw_body :: "qbt_ext \<Rightarrow> QbtDecodeConfig \<Rightarrow> QbtProtocolVersion \<Rightarrow> byte list \<Rightarrow> byte list \<Rightarrow> bool" where
  "raw_body E c version body raw \<longleftrightarrow>
     (if version = V2 \<and> (compression_policy c = TryAlways \<or> has_zlib_header body)
      then decompress_zlib (inflate E) body = Inr raw else raw = body)"

text \<open>
  A segment that stems from the decoded bytes \<open>stream\<close>: an accepted header of 80 bytes stands in them,
  followed by a body of the announced length whose checksum matches.
\<close>

definition valid_segment :: "qbt_ext \<Rightarrow> QbtDecodeConfig \<Rightarrow> byte list \<Rightarrow> QbtSegment \<Rightarrow> bool" where
  "valid_segment E c stream s \<longleftrightarrow>
     seg_block_number s \<noteq> 0 \<and> seg_block_number s \<le> seg_total_blocks s
     \<and> \<not> eq_ignore_ascii_case (seg_filename s) ''FILLFILE.TXT''
     \<and> (seg_version s = V1 \<longrightarrow> seg_length s = V1_BODY_SIZE)
     \<and> (seg_version s = V2 \<longrightarrow> 1 \<le> seg_length s \<and> seg_length s \<le> max_v2_body_size c)
     \<and> (\<exists>before header body after p raw.
          stream = before @ header @ body @ after \<and> length header = HEADER_SIZE \<and> length body = seg_length s
          \<and> parse_header E header (max_v2_body_size c) = Inr p
          \<and> seg_filename s = pend_filename p \<and> seg_block_number s = pend_block_number p
          \<and> seg_total_blocks s = pend_total_blocks p \<and> seg_checksum s = pend_checksum p
          \<and> seg_version s = pend_version p \<and> seg_length s = pend_length p \<and> seg_timestamp_utc s = pend_timestamp_utc p
          \<and> raw_body E c (seg_version s) body raw \<and> verify_checksum raw (uint (seg_checksum s))
          \<and> seg_content s = (if is_text_or_wmo (seg_filename s) then trim_text_padding raw else raw))"

fun ok_event :: "qbt_ext \<Rightarrow> QbtDecodeConfig \<Rightarrow> byte list \<Rightarrow> QbtFrameEvent \<Rightarrow> bool" where
  "ok_event E c stream (DataBlock s) = valid_segment E c stream s"
| "ok_event E c stream _ = True"

text \<open>Where the bytes of the buffer and of the pending segment stand in the decoded bytes.\<close>

definition header_at :: "qbt_ext \<Rightarrow> QbtDecodeConfig \<Rightarrow> byte list \<Rightarrow> PendingSegment \<Rightarrow> bool" where
  "header_at E c header p \<longleftrightarrow> length header = HEADER_SIZE \<and> parse_header E header (max_v2_body_size c) = Inr p"

definition traced :: "qbt_ext \<Rightarrow> byte list \<Rightarrow> QbtProtocolDecoder \<Rightarrow> bool" where
  "traced E stream d \<longleftrightarrow>
     wf_pendings d \<and> suffix (dec_buffer d) stream
     \<and> (dec_state d = BlockBody \<longrightarrow> (\<forall>p. dec_pending d = Some p \<longrightarrow>
          (\<exists>before header. stream = before @ header @ dec_buffer d \<and> header_at E (dec_config d) header p)))
     \<and> (dec_state d = Validate \<longrightarrow> (\<forall>p. dec_pending d = Some p \<longrightarrow>
          (\<exists>before header body p0. stream = before @ header @ body @ dec_buffer d \<and> header_at E (dec_config d) header p0
            \<and> length body = pend_length p0 \<and> p = store_body E (dec_config d) p0 body)))"

lemma verify_expected_checksum:
  "verify_checksum data (expected_checksum p) = verify_checksum data (uint (pend_checksum p))"
  by (simp add: expected_checksum_def verify_checksum_iff uint_and int_and_FFFF)

lemma stored_body_raw:
  "\<not> pend_decompression_failed (store_body E c p body) \<Longrightarrow> raw_body E c (pend_version p) body (pend_content (store_body E c p body))"
  by (auto simp: store_body_def raw_body_def Let_def split: sum.splits if_splits QbtV2CompressionPolicy.splits)

lemma store_body_timestamp [simp]: "pend_timestamp_utc (store_body E c p body) = pend_timestamp_utc p"
  by (auto simp: store_body_def Let_def split: sum.splits)

lemma emit_segment_ok:
  assumes "wf_pending c p0" and "stream = before @ header @ body @ after" and "header_at E c header p0" and "length body = pend_length p0"
  shows "list_all (ok_event E c stream) (emit_segment (store_body E c p0 body))"
proof -
  let ?p = "store_body E c p0 body"
  have "valid_segment E c stream (segment_of ?p)"
    if "\<not> pend_decompression_failed ?p" "pend_block_number p0 \<noteq> 0" "pend_block_number p0 \<le> pend_total_blocks p0"
      "\<not> eq_ignore_ascii_case (pend_filename p0) ''FILLFILE.TXT''" "verify_checksum (pend_content ?p) (expected_checksum ?p)"
  proof -
    have "raw_body E c (pend_version p0) body (pend_content ?p)" by (rule stored_body_raw [OF that(1)])
    moreover have "verify_checksum (pend_content ?p) (uint (pend_checksum p0))"
      using that(5) by (simp add: verify_expected_checksum)
    ultimately have "\<exists>before header body after p raw.
        stream = before @ header @ body @ after \<and> length header = HEADER_SIZE \<and> length body = pend_length p0
        \<and> parse_header E header (max_v2_body_size c) = Inr p \<and> p = p0 \<and> raw = pend_content ?p
        \<and> raw_body E c (pend_version p0) body raw \<and> verify_checksum raw (uint (pend_checksum p0))"
      using assms(2-4) unfolding header_at_def by blast
    then show ?thesis
      using that(2-4) assms(1) by (simp add: valid_segment_def segment_of_def wf_pending_def; elim exE conjE; force)
  qed
  then show ?thesis by (auto simp: emit_segment_def not_less)
qed

lemma process_buffer_suffix: "process_buffer E d = (r, d', evs) \<Longrightarrow> suffix (dec_buffer d') (dec_buffer d)"
  by (auto simp: process_buffer_def find_sync_def skip_padding_def detect_frame_type_def process_server_list_def
      process_block_header_def process_block_body_def validate_and_emit_def Let_def suffix_dropWhile suffix_drop
      suffix_ConsI split: DecoderState.splits option.splits if_splits sum.splits list.splits)

lemma tracedI:
  "wf_pendings d \<Longrightarrow> suffix (dec_buffer d) stream \<Longrightarrow> dec_state d \<noteq> BlockBody \<Longrightarrow> dec_state d \<noteq> Validate \<Longrightarrow> traced E stream d"
  by (simp add: traced_def)

lemma process_buffer_kept:
  assumes "traced E stream d" and "process_buffer E d = (r, d', evs)"
  shows "wf_pendings d'" and "suffix (dec_buffer d') stream"
  using assms process_buffer_wf_pendings process_buffer_suffix suffix_order.order_trans
  unfolding traced_def by blast+

lemma block_header_traced:
  assumes tr: "traced E stream d" and "dec_state d = BlockHeader"
    and step: "process_block_header E d = (Inr progressed, d', evs)"
  shows "traced E stream d'"
proof (cases "length (dec_buffer d) < HEADER_SIZE")
  case True
  with step tr show ?thesis by (simp add: process_block_header_def)
next
  case False
  with step obtain p where p: "header_at E (dec_config d) (take HEADER_SIZE (dec_buffer d)) p"
    and d': "d' = d\<lparr>dec_buffer := drop HEADER_SIZE (dec_buffer d), dec_pending := Some p, dec_state := BlockBody\<rparr>"
    by (auto simp: process_block_header_def header_at_def Let_def split: sum.splits)
  obtain before where "stream = before @ dec_buffer d"
    using tr by (auto simp: traced_def suffix_def)
  with p have "\<exists>before header. stream = before @ header @ dec_buffer d' \<and> header_at E (dec_config d) header p"
    by - (rule exI [of _ before], rule exI [of _ "take HEADER_SIZE (dec_buffer d)"], simp add: d')
  with process_buffer_kept [OF tr, of "Inr progressed" d' evs] assms(2) step show ?thesis
    by (simp add: d' traced_def process_buffer_def)
qed

lemma block_body_traced:
  assumes tr: "traced E stream d" and st: "dec_state d = BlockBody"
    and step: "process_block_body E d = (Inr progressed, d', evs)"
  shows "traced E stream d'"
proof (cases "d' = d")
  case True
  with tr show ?thesis by simp
next
  case False
  with step obtain p where p: "dec_pending d = Some p" and len: "pend_length p \<le> length (dec_buffer d)"
    and d': "d' = d\<lparr>dec_buffer := drop (pend_length p) (dec_buffer d),
      dec_pending := Some (store_body E (dec_config d) p (take (pend_length p) (dec_buffer d))), dec_state := Validate\<rparr>"
    by (auto simp: process_block_body_def split: option.splits if_splits)
  let ?body = "take (pend_length p) (dec_buffer d)"
  from tr st p obtain before header where "stream = before @ header @ dec_buffer d"
    and "header_at E (dec_config d) header p" by (auto simp: traced_def)
  with len have "\<exists>before header body p0. stream = before @ header @ body @ dec_buffer d' \<and> header_at E (dec_config d) header p0
      \<and> length body = pend_length p0 \<and> store_body E (dec_config d) p ?body = store_body E (dec_config d) p0 body"
    by - (rule exI [of _ before], rule exI [of _ header], rule exI [of _ ?body], rule exI [of _ p], simp add: d')
  with process_buffer_kept [OF tr, of "Inr progressed" d' evs] st step show ?thesis
    by (simp add: d' traced_def process_buffer_def)
qed

lemma process_buffer_traced:
  assumes tr: "traced E stream d" and step: "process_buffer E d = (Inr progressed, d', evs)"
  shows "traced E stream d'"
proof (cases "dec_state d")
  case BlockHeader
  with step show ?thesis by (intro block_header_traced [OF tr]) (simp_all add: process_buffer_def)
next
  case BlockBody
  with step show ?thesis by (intro block_body_traced [OF tr]) (simp_all add: process_buffer_def)
next
  case Validate
  with step process_buffer_kept [OF tr step] show ?thesis
    by (intro tracedI) (auto simp: process_buffer_def validate_and_emit_def split: option.splits)
qed (use step process_buffer_kept [OF tr step] in \<open>intro tracedI; auto simp: process_buffer_def find_sync_def
    skip_padding_def detect_frame_type_def process_server_list_def Let_def
    split: option.splits if_splits sum.splits list.splits\<close>)+

lemma process_buffer_ok_events:
  assumes "traced E stream d" and "process_buffer E d = (r, d', evs)"
  shows "list_all (ok_event E (dec_config d) stream) evs"
proof (cases "dec_state d = Validate")
  case False
  with assms(2) show ?thesis
    by (cases "find_sync d"; cases "skip_padding d"; cases "detect_frame_type d")
      (auto simp: process_buffer_def process_server_list_def process_block_header_def
        process_block_body_def Let_def list_all_iff
        split: DecoderState.splits option.splits if_splits sum.splits)
next
  case True
  show ?thesis
  proof (cases "dec_pending d")
    case None
    with True assms(2) show ?thesis by (auto simp: process_buffer_def validate_and_emit_def)
  next
    case (Some p)
    with True assms(1) obtain before header body p0 where "stream = before @ header @ body @ dec_buffer d"
      and "header_at E (dec_config d) header p0" and "length body = pend_length p0" and p: "p = store_body E (dec_config d) p0 body"
      unfolding traced_def by blast
    then have "list_all (ok_event E (dec_config d) stream) (emit_segment p)"
      unfolding p by (intro emit_segment_ok) (auto simp: header_at_def intro: parse_header_wf_pending)
    with True Some assms(2) show ?thesis
      by (auto simp: process_buffer_def validate_and_emit_def list_all_iff)
  qed
qed

lemma feed_step_ok:
  assumes "traced E stream d \<and> dec_config d = c" and "feed_step E d = (p, d', evs)"
  shows "(traced E stream d' \<and> dec_config d' = c) \<and> list_all (ok_event E c stream) evs"
  using assms(2)
proof (cases rule: feed_step_cases)
  case ok
  with assms show ?thesis
    using process_buffer_traced process_buffer_ok_events feed_step_config by blast
next
  case (error e d1 evs1)
  have "suffix (dec_buffer d1) stream"
    using assms(1) process_buffer_suffix [OF error(1)] suffix_order.order_trans unfolding traced_def by blast
  then have "traced E stream d'"
    unfolding error(2) by (intro tracedI)
      (auto simp: wf_pendings_def recover_def Let_def intro: suffix_order.order_trans [OF suffix_tl])
  with assms error show ?thesis
    using process_buffer_ok_events [OF _ error(1), of stream] feed_step_config [OF assms(2)] by auto
qed

lemma wf_pendings_new [simp]: "wf_pendings (push_bytes (decoder_new c) bs)"
  by (simp add: wf_pendings_def decoder_new_def)

subsection \<open>Complete frames\<close>

text \<open>
  A data frame as a sender writes it: padding, an 80-byte header that the decoder accepts,
  and a body of the length the header announces.
\<close>

record data_frame =
  fr_padding :: nat
  fr_header :: "byte list"
  fr_body :: "byte list"

definition frame_bytes :: "data_frame \<Rightarrow> byte list" where
  "frame_bytes f = replicate (fr_padding f) 0 @ fr_header f @ fr_body f"

definition good_frame :: "qbt_ext \<Rightarrow> QbtDecodeConfig \<Rightarrow> data_frame \<Rightarrow> bool" where
  "good_frame E c f \<longleftrightarrow>
     length (fr_header f) = HEADER_SIZE \<and> starts_with (fr_header f) (bytes_of ''/PF'')
     \<and> (case parse_header E (fr_header f) (max_v2_body_size c) of
          Inl _ \<Rightarrow> False
        | Inr p \<Rightarrow> length (fr_body f) = pend_length p)"

definition frame_events :: "qbt_ext \<Rightarrow> QbtDecodeConfig \<Rightarrow> data_frame \<Rightarrow> QbtFrameEvent list" where
  "frame_events E c f =
     (case parse_header E (fr_header f) (max_v2_body_size c) of
        Inl _ \<Rightarrow> []
      | Inr p \<Rightarrow> (let p' = store_body E c p (fr_body f)
                  in map Warning (pend_warnings p') @ emit_segment p'))"

lemma slash_pf: "bytes_of ''/PF'' = [47, 80, 70]"
  by (simp add: bytes_of_def)

lemma feed_step_padding:
  assumes "dec_state d = StartFrame" and "dec_buffer d = replicate n 0 @ b # bs" and "b \<noteq> 0"
  shows "feed_step E d = (True, d\<lparr>dec_buffer := b # bs, dec_state := FrameType\<rparr>, [])"
proof -
  have "dropWhile (\<lambda>b. b = 0) (replicate n 0 @ b # bs) = b # bs"
    using assms(3) by (induction n) auto
  with assms(1,2) show ?thesis
    by (simp add: feed_step_def process_buffer_def skip_padding_def Let_def)
qed

lemma feed_loop_frame:
  assumes good: "good_frame E (dec_config d) f"
    and st: "dec_state d = StartFrame" and buf: "dec_buffer d = frame_bytes f @ rest"
  shows "feed_loop E d =
    emit (frame_events E (dec_config d) f) (feed_loop E (d\<lparr>dec_buffer := rest, dec_pending := None\<rparr>))"
proof -
  let ?c = "dec_config d"
  obtain p where hdr: "parse_header E (fr_header f) (max_v2_body_size ?c) = Inr p"
    and len: "length (fr_header f) = 80" "length (fr_body f) = pend_length p"
    and pf: "starts_with (fr_header f) [47, 80, 70]"
    using good by (auto simp: good_frame_def HEADER_SIZE_def slash_pf split: sum.splits)
  then obtain hs where hs: "fr_header f = 47 # 80 # 70 # hs"
    by (auto simp: starts_with_iff)
  define d1 where "d1 = d\<lparr>dec_buffer := fr_header f @ fr_body f @ rest, dec_state := FrameType\<rparr>"
  define d2 where "d2 = d1\<lparr>dec_state := BlockHeader\<rparr>"
  define d3 where "d3 = d\<lparr>dec_buffer := fr_body f @ rest, dec_pending := Some p, dec_state := BlockBody\<rparr>"
  define d4 where "d4 = d\<lparr>dec_buffer := rest, dec_pending := Some (store_body E ?c p (fr_body f)),
      dec_state := Validate\<rparr>"
  have s1: "feed_step E d = (True, d1, [])"
    using feed_step_padding [OF st, of "fr_padding f"] buf
    by (simp add: frame_bytes_def hs d1_def)
  have s2: "feed_step E d1 = (True, d2, [])"
    by (simp add: feed_step_def process_buffer_def d1_def d2_def detect_frame_type_def hs
      starts_with_def slash_pf)
  have s3: "feed_step E d2 = (True, d3, [])"
    using len hdr
    by (simp add: feed_step_def process_buffer_def d1_def d2_def d3_def process_block_header_def
      HEADER_SIZE_def)
  have s4: "feed_step E d3 = (True, d4, [])"
    using len by (simp add: feed_step_def process_buffer_def d3_def d4_def process_block_body_def)
  have s5: "feed_step E d4 =
      (True, d\<lparr>dec_buffer := rest, dec_pending := None\<rparr>, frame_events E ?c f)"
    using hdr st
    by (simp add: feed_step_def process_buffer_def d4_def validate_and_emit_def frame_events_def
      Let_def)
  show ?thesis
    by (simp add: feed_loop_True [OF s1] feed_loop_True [OF s2] feed_loop_True [OF s3]
      feed_loop_True [OF s4] feed_loop_True [OF s5])
qed

lemma feed_loop_frames:
  assumes "list_all (good_frame E (dec_config d)) fs"
    and "dec_state d = StartFrame" and "dec_pending d = None"
    and "dec_buffer d = concat (map frame_bytes fs)"
  shows "feed_loop E d =
    (d\<lparr>dec_buffer := []\<rparr>, concat (map (frame_events E (dec_config d)) fs))"
  using assms
proof (induction fs arbitrary: d)
  case Nil
  then show ?case
    by (intro feed_loop_False) (simp add: feed_step_def process_buffer_def skip_padding_def)
next
  case (Cons f fs)
  let ?d = "d\<lparr>dec_buffer := concat (map frame_bytes fs), dec_pending := None\<rparr>"
  have "feed_loop E ?d = (?d\<lparr>dec_buffer := []\<rparr>, concat (map (frame_events E (dec_config ?d)) fs))"
    using Cons.prems by (intro Cons.IH) auto
  moreover have "feed_loop E d = emit (frame_events E (dec_config d) f) (feed_loop E ?d)"
    using Cons.prems by (intro feed_loop_frame) auto
  ultimately show ?case
    using Cons.prems(3) by (simp add: emit_def)
qed

subsection \<open>Resynchronisation\<close>

lemma find_sub_at_most:
  "starts_with (drop j xs) p \<Longrightarrow> p \<noteq> [] \<Longrightarrow> \<exists>i\<le>j. find_sub xs p = Some i"
proof (induction xs arbitrary: j)
  case Nil
  then show ?case by (simp add: starts_with_def)
next
  case (Cons x xs)
  show ?case
  proof (cases "starts_with (x # xs) p")
    case True
    then show ?thesis by simp
  next
    case False
    with Cons.prems obtain k where "j = Suc k" by (cases j) auto
    with Cons.prems Cons.IH [of k] False show ?thesis by auto
  qed
qed

lemma feed_step_sync:
  assumes "dec_state d = Resync" and "dec_buffer d = noise @ SYNC_BYTES @ rest"
    and "find_sub noise SYNC_BYTES = None"
  obtains n where "feed_step E d =
    (True, d\<lparr>dec_buffer := replicate n 0 @ rest, dec_state := StartFrame\<rparr>, [])"
proof -
  have "starts_with (drop (length noise) (noise @ SYNC_BYTES @ rest)) SYNC_BYTES"
    by (simp add: starts_with_def)
  then obtain i where i: "i \<le> length noise" and at: "find_sub (noise @ SYNC_BYTES @ rest) SYNC_BYTES = Some i"
    using find_sub_at_most [of "length noise" "noise @ SYNC_BYTES @ rest" SYNC_BYTES]
    by (auto simp: SYNC_BYTES_def)
  have "length noise < i + 6"
  proof (rule ccontr)
    assume "\<not> length noise < i + 6"
    then have "starts_with (drop i noise) SYNC_BYTES"
      using find_sub_SomeD [OF at] i
      by (auto simp: starts_with_def length_SYNC_BYTES)
    then show False
      using assms(3) find_sub_at_most [of i noise SYNC_BYTES] by (auto simp: SYNC_BYTES_def)
  qed
  then have "drop (i + 6) (noise @ SYNC_BYTES @ rest) = drop (i + 6 - length noise) SYNC_BYTES @ rest"
    using i by (simp add: length_SYNC_BYTES)
  moreover have "drop k SYNC_BYTES = replicate (6 - k) 0" for k
  proof -
    have "SYNC_BYTES = replicate 6 0" by (simp add: SYNC_BYTES_def numeral_eq_Suc)
    then show ?thesis by (metis drop_replicate)
  qed
  ultimately show ?thesis
    using that assms(1,2) at
    by (simp add: feed_step_def process_buffer_def find_sync_def length_SYNC_BYTES)
qed

lemma feed_after_sync:
  assumes "find_sub noise SYNC_BYTES = None"
  obtains n where "feed E (decoder_new c) (xor_ff (noise @ SYNC_BYTES @ rest)) =
    feed_loop E (decoder_new c\<lparr>dec_buffer := replicate n 0 @ rest, dec_state := StartFrame\<rparr>)"
proof -
  let ?d = "push_bytes (decoder_new c) (noise @ SYNC_BYTES @ rest)"
  obtain n where "feed_step E ?d =
      (True, ?d\<lparr>dec_buffer := replicate n 0 @ rest, dec_state := StartFrame\<rparr>, [])"
    by (rule feed_step_sync [of ?d noise _ E, OF _ _ assms])
      (auto simp: decoder_new_def push_bytes_def)
  note loop = feed_loop_True [OF this]
  have "map xor_ff_byte (xor_ff (noise @ SYNC_BYTES @ rest)) = noise @ SYNC_BYTES @ rest"
    by (simp add: xor_ff_def comp_def)
  then show ?thesis
    using that [of n] loop by (simp add: feed_def push_bytes_def del: map_append xor_ff_append)
qed

subsection \<open>Server-list frames\<close>

lemma feed_loop_to_server_list:
  assumes "dec_state d = StartFrame" and "dec_buffer d = replicate n 0 @ bytes_of ''/Se'' @ rest"
  shows "feed_loop E d =
    feed_loop E (d\<lparr>dec_buffer := bytes_of ''/Se'' @ rest, dec_state := ServerListState\<rparr>)"
proof -
  have bytes: "bytes_of ''/Se'' = [47, 83, 101]" by (simp add: bytes_of_def)
  let ?d1 = "d\<lparr>dec_buffer := bytes_of ''/Se'' @ rest, dec_state := FrameType\<rparr>"
  have s1: "feed_step E d = (True, ?d1, [])"
    using feed_step_padding [OF assms(1), of n] assms(2) by (simp add: bytes)
  have s2: "feed_step E ?d1 = (True, ?d1\<lparr>dec_state := ServerListState\<rparr>, [])"
    by (simp add: feed_step_def process_buffer_def detect_frame_type_def bytes starts_with_def slash_pf)
  show ?thesis
    by (simp add: feed_loop_True [OF s1] feed_loop_True [OF s2])
qed

lemma server_list_text_split: "server_list_text eps = ''/Se'' @ drop 3 (server_list_text eps)"
  by (simp add: server_list_text_def SERVER_LIST_PREFIX_def)

lemma feed_step_server_list:
  assumes clean: "\<forall>ep\<in>set eps. clean_host (fst ep)"
    and "dec_state d = ServerListState"
    and "dec_buffer d = bytes_of (server_list_text eps) @ 0 # rest"
  shows "feed_step E d =
    (True, d\<lparr>dec_buffer := rest, dec_state := StartFrame\<rparr>,
     [ServerListUpdate \<lparr>servers = eps, sat_servers = []\<rparr>])"
proof -
  let ?bs = "bytes_of (server_list_text eps)"
  have "position (\<lambda>b. b = 0) ?bs = None"
    using server_list_text_no_nul [OF clean] by (auto simp: position_None_iff)
  then have "position (\<lambda>b. b = 0) (dec_buffer d) = Some (length ?bs)"
    using assms(3) by (simp add: position_append)
  moreover have "is_ascii ?bs"
    using server_list_text_chars [OF clean] by (fastforce simp: is_ascii_def list_all_iff bytes_of_def
      is_graphic_def word_less_nat_alt unat_of_char_byte)
  then have "from_utf8 ?bs = Inr (server_list_text eps)"
    by (simp add: from_utf8_valid is_ascii_valid)
  moreover have "parse_server_list_frame (server_list_text eps) =
      Inr (\<lparr>servers = eps, sat_servers = []\<rparr>, [])"
    using parse_server_list_text [OF clean, of "[]"] by simp
  ultimately show ?thesis
    using assms(2,3) by (simp add: feed_step_def process_buffer_def process_server_list_def)
qed

subsection \<open>Reset\<close>

lemma feed_config [simp]: "dec_config (fst (feed E d wire)) = dec_config d"
proof -
  have "dec_config (fst (feed_loop E d')) = dec_config d' \<and>
      list_all (\<lambda>_. True) (snd (feed_loop E d'))" for d'
    by (rule feed_loop_invariant) (auto dest: feed_step_config simp: list_all_iff)
  then show ?thesis by (simp add: feed_def push_bytes_def)
qed

lemma run_chunks_config: "dec_config (fst (run_chunks (feed E) d chunks)) = dec_config d"
  by (induction chunks arbitrary: d) (auto simp: Let_def split: prod.splits, metis feed_config fst_conv)

lemma reset_eq: "reset d = decoder_new (dec_config d)"
  by (simp add: reset_def decoder_new_def)

subsection \<open>Held-back input\<close>

lemma process_buffer_stop_bound:
  assumes r: "process_buffer E d = (Inr False, d', evs)" and "wf_pendings d" and "wf_decoder d"
    and "dec_state d \<noteq> ServerListState"
  shows "length (dec_buffer d') < max 1024 (Suc (max_v2_body_size (dec_config d)))"
proof (cases "dec_state d")
  case Resync
  with r have "length (dec_buffer d') < 6"
    by (auto simp: process_buffer_def find_sync_def length_SYNC_BYTES Let_def
      split: if_splits option.splits)
  then show ?thesis by auto
next
  case StartFrame
  with r have "dec_buffer d = []" and "d' = d"
    by (cases "dec_buffer d"; auto simp: process_buffer_def skip_padding_def Let_def split: if_splits)+
  then show ?thesis by simp
next
  case FrameType
  with r have "length (dec_buffer d') < 3"
    by (auto simp: process_buffer_def detect_frame_type_def split: if_splits list.splits)
  then show ?thesis by simp
next
  case BlockHeader
  with r have "length (dec_buffer d') < 80"
    by (auto simp: process_buffer_def process_block_header_def HEADER_SIZE_def Let_def
      split: if_splits sum.splits)
  then show ?thesis by simp
next
  case BlockBody
  with r assms(3) obtain p where "dec_pending d = Some p" and "length (dec_buffer d') < pend_length p"
    by (auto simp: process_buffer_def process_block_body_def wf_decoder_def split: if_splits)
  with assms(2) show ?thesis
    by (cases "pend_version p") (auto simp: wf_pendings_def wf_pending_def V1_BODY_SIZE_def)
next
  case Validate
  with r assms(3) show ?thesis
    by (auto simp: process_buffer_def validate_and_emit_def wf_decoder_def)
qed (use assms(4) in simp)

lemma process_server_list_stop:
  "process_buffer E d = (Inr False, d', evs) \<Longrightarrow> dec_state d = ServerListState \<Longrightarrow>
     dec_state d' = ServerListState"
  by (auto simp: process_buffer_def process_server_list_def Let_def
      split: option.splits sum.splits)

lemma feed_step_stop_bound:
  assumes stop: "feed_step E d = (False, d', evs)" and wf: "wf_pendings d" "wf_decoder d"
  shows "dec_state d' = ServerListState \<or>
    length (dec_buffer d') < max 1024 (Suc (max_v2_body_size (dec_config d)))"
proof (cases rule: feed_step_cases [OF stop])
  case 1
  then show ?thesis
    using process_buffer_stop_bound [OF 1 wf] process_server_list_stop [OF 1] by blast
next
  case (2 e d1 evs1)
  with stop have "dec_buffer d' = []"
    by (auto simp: feed_step_def recover_def Let_def split: if_splits)
  then show ?thesis by simp
qed

lemma feed_loop_stop_bound:
  assumes "wf_pendings d" and "wf_decoder d"
  shows "dec_state (fst (feed_loop E d)) = ServerListState \<or>
    length (dec_buffer (fst (feed_loop E d))) < max 1024 (Suc (max_v2_body_size (dec_config d)))"
  using assms
proof (induction d rule: feed_loop_induct [where E = E])
  case (Step d)
  obtain p d' evs where step: "feed_step E d = (p, d', evs)"
    by (cases "feed_step E d")
  then have "wf_decoder d'" and "wf_pendings d'" and "dec_config d' = dec_config d"
    using Step.prems feed_step_wf feed_step_wf_pendings feed_step_config by blast+
  with Step.IH [of d' evs] step feed_step_stop_bound [of E d d' evs] Step.prems show ?case
    by (cases p) (auto simp: feed_loop_True feed_loop_False emit_def)
qed

lemma feed_frames_after_noise:
  assumes noise: "find_sub noise SYNC_BYTES = None"
    and frames: "list_all (good_frame E c) fs"
  shows "feed E (decoder_new c) (xor_ff (noise @ SYNC_BYTES @ concat (map frame_bytes fs))) =
    (decoder_new c\<lparr>dec_state := StartFrame\<rparr>, concat (map (frame_events E c) fs))"
proof -
  obtain n where n: "feed E (decoder_new c) (xor_ff (noise @ SYNC_BYTES @ concat (map frame_bytes fs))) =
      feed_loop E (decoder_new c\<lparr>dec_buffer := replicate n 0 @ concat (map frame_bytes fs),
        dec_state := StartFrame\<rparr>)"
    by (rule feed_after_sync [OF noise])
  let ?d1 = "decoder_new c\<lparr>dec_buffer := replicate n 0 @ concat (map frame_bytes fs),
    dec_state := StartFrame\<rparr>"
  have "feed_loop E ?d1 = (decoder_new c\<lparr>dec_state := StartFrame\<rparr>, concat (map (frame_events E c) fs))"
  proof (cases fs)
    case Nil
    then show ?thesis
      by (subst feed_loop_all_padding) (auto simp: list_all_iff decoder_new_def)
  next
    case (Cons f gs)
    define f' where "f' = f\<lparr>fr_padding := n + fr_padding f\<rparr>"
    have ev: "frame_events E c f' = frame_events E c f" and "good_frame E c f' = good_frame E c f"
      by (auto simp: f'_def frame_events_def good_frame_def split: sum.splits)
    then show ?thesis
      using feed_loop_frames [of E ?d1 "f' # gs"] frames Cons
      by (simp add: decoder_new_def f'_def frame_bytes_def replicate_add flip: ev)
  qed
  then show ?thesis by (simp only: n)
qed

subsection \<open>Properties\<close>

text \<open>
  C2: Chunk independence. However the transport cuts the wire bytes into reads, feeding
  the reads one by one to a new decoder gives the same events and the same final decoder
  as feeding all bytes at once.
\<close>

theorem decoder_chunk_independence:
  "run_chunks (feed E) (decoder_new c) chunks = feed E (decoder_new c) (concat chunks)"
  by (rule qbt.run_chunks_concat) simp

text \<open>
  C4: Every data block that a new decoder emits, on any input, stems from the input: among the
  decoded bytes stands an 80-byte header that the decoder accepts, directly followed by a body of
  the length the header announces, and the block's name, numbers, checksum, version, length and time
  are those of that header. The body (inflated first where version and compression policy ask for
  it) has the checksum of the header, and the block's content is that body, up to the padding removed
  from the end of text files. The block number is within \<open>1..total_blocks\<close>, the fill file is
  never emitted and the body length is the one of the protocol version.
\<close>

theorem decoder_emits_valid_segments:
  "list_all (ok_event E c (map xor_ff_byte wire)) (snd (feed E (decoder_new c) wire))"
proof -
  let ?s = "map xor_ff_byte wire"
  let ?d = "push_bytes (decoder_new c) ?s"
  have "traced E ?s ?d \<and> dec_config ?d = c"
    by (intro conjI tracedI) (simp_all, simp_all add: decoder_new_def)
  then have "(traced E ?s (fst (feed_loop E ?d)) \<and> dec_config (fst (feed_loop E ?d)) = c)
      \<and> list_all (ok_event E c ?s) (snd (feed_loop E ?d))"
    by (rule feed_loop_invariant [where I = "\<lambda>d. traced E ?s d \<and> dec_config d = c", rotated])
      (rule feed_step_ok)
  then show ?thesis
    unfolding feed_def by blast
qed

text \<open>
  C3: After noise that contains no synchronisation marker, a marker, and any sequence of
  well-formed data frames, a new decoder has emitted exactly the events of those frames in
  order, holds no bytes back, and waits for the next frame.
\<close>

theorem decoder_decodes_frames_after_noise:
  assumes "find_sub noise SYNC_BYTES = None" and "list_all (good_frame E c) fs"
  shows "feed E (decoder_new c) (xor_ff (noise @ SYNC_BYTES @ concat (map frame_bytes fs))) =
    (decoder_new c\<lparr>dec_state := StartFrame\<rparr>, concat (map (frame_events E c) fs))"
  using assms by (rule feed_frames_after_noise)

text \<open>
  A concrete instance: an environment whose header expression yields the captures of one
  two-byte V2 block, and the frame that carries it after three bytes of noise.
\<close>

definition sample_header :: "byte list" where
  "sample_header = bytes_of (''/PFA.TXT /PN 1 /PT 1 /CS 130 /FD1/2/2024 3:04:05 AM /DL2''
     @ replicate 22 (CHR '' '') @ [CHR 0x0D, CHR 0x0A])"

definition sample_ext :: qbt_ext where
  "sample_ext =
     \<lparr>regex_captures = (\<lambda>_ h. if starts_with h ''/PFA.TXT '' then
          Some (map_of [(''pf'', ''A.TXT''), (''pn'', ''1''), (''pt'', ''1''), (''cs'', ''130''),
            (''fd'', ''1/2/2024 3:04:05 AM''), (''dl'', ''2'')]) else None),
      parse_datetime = (\<lambda>_ _. Some (1704164645, 0)), inflate = Inr, system_now = 0\<rparr>"

definition sample_frame :: data_frame where
  "sample_frame = \<lparr>fr_padding = 2, fr_header = sample_header, fr_body = [65, 65]\<rparr>"

definition sample_segment :: QbtSegment where
  "sample_segment =
     \<lparr>seg_filename = ''A.TXT'', seg_block_number = 1, seg_total_blocks = 1,
      seg_content = [65, 65], seg_checksum = 130, seg_length = 2, seg_version = V2,
      seg_timestamp_utc = 1704164645000000000, seg_source = None\<rparr>"

lemma from_utf8_sample: "from_utf8 sample_header = Inr (str_of sample_header)"
  by (intro from_utf8_valid is_ascii_valid)
    (simp add: is_ascii_def sample_header_def bytes_of_def list_all_iff)

lemma parse_sample_header:
  "parse_header sample_ext sample_header 1024 =
     Inr \<lparr>pend_filename = ''A.TXT'', pend_block_number = 1, pend_total_blocks = 1,
       pend_checksum = 130, pend_length = 2, pend_version = V2, pend_content = [],
       pend_timestamp_utc = 1704164645000000000, pend_warnings = [],
       pend_decompression_failed = False\<rparr>"
proof -
  have caps: "regex_captures sample_ext header_regex (str_of sample_header) =
      Some (map_of [(''pf'', ''A.TXT''), (''pn'', ''1''), (''pt'', ''1''), (''cs'', ''130''),
            (''fd'', ''1/2/2024 3:04:05 AM''), (''dl'', ''2'')])"
    by (simp add: sample_ext_def sample_header_def starts_with_def)
  have nums: "parse_word ''1'' = Some (1 :: u32)" "parse_word ''130'' = Some (130 :: u32)"
    "parse_word ''2'' = Some (2 :: u32)"
    by (simp_all add: parse_word_def parse_nat_def digit_val_def is_ascii_digit_def)
  have "parse_fd_timestamp sample_ext fd = Some 1704164645000000000" for fd
    by (simp add: parse_fd_timestamp_def sample_ext_def)
  then show ?thesis
    by (simp add: parse_header_def from_utf8_sample caps parse_captures_def capture_u32_def
      capture_optional_u32_def nums body_length_def)
qed

lemma max_v2_body_size_default [simp]: "max_v2_body_size QbtDecodeConfig_default = 1024"
  by (simp add: QbtDecodeConfig_default_def)

lemma sample_events:
  "frame_events sample_ext QbtDecodeConfig_default sample_frame = [DataBlock sample_segment]"
  by (simp add: frame_events_def sample_frame_def parse_sample_header store_body_def
    QbtDecodeConfig_default_def has_zlib_header_def emit_segment_def eq_ignore_ascii_case_def
    to_ascii_lowercase_def ascii_lower_def verify_checksum_iff expected_checksum_def segment_of_def
    sample_segment_def trim_text_padding_def is_padding_def Let_def)

lemma sample_frame_good: "good_frame sample_ext QbtDecodeConfig_default sample_frame"
  by (simp add: good_frame_def sample_frame_def parse_sample_header)
    (simp add: sample_header_def HEADER_SIZE_def starts_with_def bytes_of_def)

theorem decoder_decodes_frames_after_noise_witness:
  "feed sample_ext (decoder_new QbtDecodeConfig_default)
     (xor_ff ([1, 0, 2] @ SYNC_BYTES @ concat (map frame_bytes [sample_frame, sample_frame]))) =
   (decoder_new QbtDecodeConfig_default\<lparr>dec_state := StartFrame\<rparr>,
    [DataBlock sample_segment, DataBlock sample_segment])"
proof -
  have "find_sub [1, 0, 2] SYNC_BYTES = None"
    by (simp add: SYNC_BYTES_def starts_with_def)
  then show ?thesis
    using decoder_decodes_frames_after_noise [of "[1, 0, 2]" sample_ext QbtDecodeConfig_default
        "[sample_frame, sample_frame]"]
    by (simp add: sample_events sample_frame_good)
qed

text \<open>
  The frame that the relay builds for its server list, sent after a synchronisation
  marker, is decoded to exactly one event, the update with those servers in order.
\<close>

theorem decoder_reads_built_server_list:
  assumes clean: "\<forall>ep\<in>set eps. clean_host (fst ep)"
  shows "feed E (decoder_new c) (xor_ff SYNC_BYTES @ build_server_list_wire eps) =
    (decoder_new c\<lparr>dec_state := StartFrame\<rparr>,
     [ServerListUpdate \<lparr>servers = eps, sat_servers = []\<rparr>])"
proof -
  let ?rest = "bytes_of (server_list_text eps) @ [0]"
  have split: "?rest = bytes_of ''/Se'' @ bytes_of (drop 3 (server_list_text eps)) @ [0]"
    by (subst server_list_text_split) (simp only: bytes_of_append append_assoc)
  have wire: "xor_ff SYNC_BYTES @ build_server_list_wire eps = xor_ff ([] @ SYNC_BYTES @ ?rest)"
    using arg_cong [OF xor_ff_build_server_list_wire [of eps], of xor_ff] by simp
  obtain n where n: "feed E (decoder_new c) (xor_ff ([] @ SYNC_BYTES @ ?rest)) =
      feed_loop E (decoder_new c\<lparr>dec_buffer := replicate n 0 @ ?rest, dec_state := StartFrame\<rparr>)"
    by (rule feed_after_sync [of "[]"]) (auto simp: SYNC_BYTES_def starts_with_def)
  let ?d = "decoder_new c\<lparr>dec_buffer := ?rest, dec_state := ServerListState\<rparr>"
  have "feed_loop E (decoder_new c\<lparr>dec_buffer := replicate n 0 @ ?rest, dec_state := StartFrame\<rparr>) =
      feed_loop E ?d"
    unfolding split by (subst feed_loop_to_server_list) auto
  moreover have "feed_loop E (?d\<lparr>dec_buffer := [], dec_state := StartFrame\<rparr>) =
      (decoder_new c\<lparr>dec_state := StartFrame\<rparr>, [])"
    by (subst feed_loop_all_padding) (auto simp: decoder_new_def)
  ultimately show ?thesis
    using feed_loop_True [OF feed_step_server_list [OF clean, of ?d "[]" E]]
    by (simp only: wire n) (simp add: emit_def)
qed

theorem decoder_reads_built_server_list_witness:
  "feed sample_ext (decoder_new QbtDecodeConfig_default)
     (xor_ff SYNC_BYTES @ build_server_list_wire [(''a.example'', 2211), (''b.example'', 1000)]) =
   (decoder_new QbtDecodeConfig_default\<lparr>dec_state := StartFrame\<rparr>,
     [ServerListUpdate \<lparr>servers = [(''a.example'', 2211), (''b.example'', 1000)], sat_servers = []\<rparr>])"
  by (rule decoder_reads_built_server_list) (simp add: clean_host_def is_graphic_def)

text \<open>
  C29: Whatever has been fed to a new decoder, unless it is inside a server-list frame it
  holds back fewer bytes than the larger of 1024 and one more than the configured maximal
  V2 body.
\<close>

theorem decoder_buffer_bounded:
  "dec_state (fst (feed E (decoder_new c) wire)) = ServerListState \<or>
   length (dec_buffer (fst (feed E (decoder_new c) wire))) < max 1024 (Suc (max_v2_body_size c))"
  using feed_loop_stop_bound [of "push_bytes (decoder_new c) (map xor_ff_byte wire)" E]
  by (simp add: feed_def decoder_new_def wf_decoder_def wf_pendings_def)

text \<open>
  Inside a server-list frame nothing bounds the buffer: after \<open>/Se\<close> every byte that
  is not NUL is held back, and no event is ever emitted.
\<close>

theorem server_list_frame_is_unbounded:
  assumes "0 \<notin> set junk"
  shows "feed E (decoder_new c) (xor_ff (SYNC_BYTES @ bytes_of ''/Se'' @ junk)) =
    (decoder_new c\<lparr>dec_buffer := bytes_of ''/Se'' @ junk, dec_state := ServerListState\<rparr>, [])"
proof -
  obtain n where n: "feed E (decoder_new c) (xor_ff ([] @ SYNC_BYTES @ bytes_of ''/Se'' @ junk)) =
      feed_loop E (decoder_new c\<lparr>dec_buffer := replicate n 0 @ bytes_of ''/Se'' @ junk,
        dec_state := StartFrame\<rparr>)"
    by (rule feed_after_sync [of "[]"]) (auto simp: SYNC_BYTES_def starts_with_def)
  let ?d = "decoder_new c\<lparr>dec_buffer := bytes_of ''/Se'' @ junk, dec_state := ServerListState\<rparr>"
  have "0 \<notin> set (bytes_of ''/Se'' @ junk)"
    using assms by (simp add: bytes_of_def)
  then have "position (\<lambda>b. b = 0) (bytes_of ''/Se'' @ junk) = None"
    by (auto simp only: position_None_iff)
  then have "feed_step E ?d = (False, ?d, [])"
    by (simp add: feed_step_def process_buffer_def process_server_list_def)
  then have "feed_loop E ?d = (?d, [])" by (rule feed_loop_False)
  then show ?thesis
    using n feed_loop_to_server_list [of "decoder_new c\<lparr>dec_buffer := replicate n 0 @ bytes_of ''/Se'' @ junk,
        dec_state := StartFrame\<rparr>" n junk E]
    by simp
qed

theorem server_list_frame_is_unbounded_witness:
  "feed sample_ext (decoder_new QbtDecodeConfig_default)
     (xor_ff (SYNC_BYTES @ bytes_of ''/Se'' @ replicate 100000 65)) =
   (decoder_new QbtDecodeConfig_default\<lparr>dec_buffer := bytes_of ''/Se'' @ replicate 100000 65,
      dec_state := ServerListState\<rparr>, [])"
  by (rule server_list_frame_is_unbounded) simp

text \<open>
  Resetting a decoder discards the partial frame: whatever was fed before, what it
  emits afterwards is what a new decoder with the same configuration emits.
\<close>

theorem reset_forgets_history:
  "feed E (reset (fst (run_chunks (feed E) (decoder_new c) chunks))) wire = feed E (decoder_new c) wire"
  by (simp add: reset_eq run_chunks_config) (simp add: decoder_new_def)

end
