(* ===== verification/Collections.thy ===== *)
theory Collections
  imports Prelude
begin

text \<open>
  The standard-library collections that several components keep their state in.

  \<open>BTreeMap\<close> is an association list in ascending key order: iterating the list is
  iterating the map. \<open>HashMap\<close> is an association list with distinct keys; its list order
  stands for the unspecified iteration order, which the definitions receive as an argument
  where the order can matter. The locale \<open>keyed_store\<close> is the contract of both, in terms of
  the function that a store represents; its lemmas on repeated insertion are proved once and
  used through the interpretations \<open>btree\<close> and \<open>hash\<close>.
\<close>

subsection \<open>The contract\<close>

locale keyed_store =
  fixes wf :: "('k \<times> 'v) list \<Rightarrow> bool"
    and ins :: "'k \<Rightarrow> 'v \<Rightarrow> ('k \<times> 'v) list \<Rightarrow> ('k \<times> 'v) list"
    and del :: "'k \<Rightarrow> ('k \<times> 'v) list \<Rightarrow> ('k \<times> 'v) list"
  assumes wf_Nil: "wf []"
    and wf_distinct: "wf m \<Longrightarrow> distinct (map fst m)"
    and wf_ins: "wf m \<Longrightarrow> wf (ins k v m)"
    and wf_del: "wf m \<Longrightarrow> wf (del k m)"
    and map_of_ins: "wf m \<Longrightarrow> map_of (ins k v m) = (map_of m)(k \<mapsto> v)"
    and map_of_del: "wf m \<Longrightarrow> map_of (del k m) = (map_of m)(k := None)"
begin

lemma keys_ins: "wf m \<Longrightarrow> set (map fst (ins k v m)) = insert k (set (map fst m))"
  using map_of_ins [of m k v] by (metis dom_fun_upd dom_map_of_conv_image_fst list.set_map option.distinct(1))

lemma keys_del: "wf m \<Longrightarrow> set (map fst (del k m)) = set (map fst m) - {k}"
  using map_of_del [of m k] by (metis dom_fun_upd dom_map_of_conv_image_fst list.set_map)

lemma entries_ins: "wf m \<Longrightarrow> set (ins k v m) = insert (k, v) {e \<in> set m. fst e \<noteq> k}"
proof -
  assume wf: "wf m"
  have mem: "(a, b) \<in> set (ins k v m) \<longleftrightarrow> ((map_of m)(k \<mapsto> v)) a = Some b" for a b
    using wf wf_ins wf_distinct map_of_ins by (metis map_of_eq_Some_iff)
  have "(a, b) \<in> set m \<longleftrightarrow> map_of m a = Some b" for a b
    using wf wf_distinct by (metis map_of_eq_Some_iff)
  then show ?thesis using mem by (auto split: if_splits)
qed

lemma entries_del: "wf m \<Longrightarrow> set (del k m) = {e \<in> set m. fst e \<noteq> k}"
proof -
  assume wf: "wf m"
  have mem: "(a, b) \<in> set (del k m) \<longleftrightarrow> ((map_of m)(k := None)) a = Some b" for a b
    using wf wf_del wf_distinct map_of_del by (metis map_of_eq_Some_iff)
  have "(a, b) \<in> set m \<longleftrightarrow> map_of m a = Some b" for a b
    using wf wf_distinct by (metis map_of_eq_Some_iff)
  then show ?thesis using mem by (auto split: if_splits)
qed

lemma length_card: "wf m \<Longrightarrow> length m = card (set (map fst m))"
  by (metis distinct_card length_map wf_distinct)

lemma wf_fold: "wf m \<Longrightarrow> wf (fold (\<lambda>x. ins (f x) (g x)) xs m)"
  by (induction xs arbitrary: m) (auto intro: wf_ins)

lemma map_of_fold:
  "wf m \<Longrightarrow> map_of (fold (\<lambda>x. ins (f x) (g x)) xs m) = map_of m ++ map_of (rev (map (\<lambda>x. (f x, g x)) xs))"
  by (induction xs arbitrary: m) (auto simp: wf_ins map_of_ins map_add_upd_left
      map_add_def fun_eq_iff split: option.splits)

lemma keys_fold:
  "wf m \<Longrightarrow> set (map fst (fold (\<lambda>x. ins (f x) (g x)) xs m)) = set (map fst m) \<union> f ` set xs"
proof (induction xs arbitrary: m)
  case (Cons x xs)
  then show ?case using keys_ins [of m "f x" "g x"] by (auto simp: wf_ins)
qed simp

end

subsection \<open>BTreeMap\<close>

fun btree_insert :: "'k::linorder \<Rightarrow> 'v \<Rightarrow> ('k \<times> 'v) list \<Rightarrow> ('k \<times> 'v) list" where
  "btree_insert k v [] = [(k, v)]"
| "btree_insert k v ((k', v') # m) =
     (if k < k' then (k, v) # (k', v') # m
      else if k = k' then (k, v) # m
      else (k', v') # btree_insert k v m)"

definition btree_remove :: "'k \<Rightarrow> ('k \<times> 'v) list \<Rightarrow> ('k \<times> 'v) list" where
  "btree_remove k m = filter (\<lambda>e. fst e \<noteq> k) m"

definition btree_wf :: "('k::linorder \<times> 'v) list \<Rightarrow> bool" where
  "btree_wf m \<longleftrightarrow> sorted_wrt (<) (map fst m)"

lemma btree_insert_keys: "fst ` set (btree_insert k v m) = insert k (fst ` set m)"
  by (induction k v m rule: btree_insert.induct) auto

lemma btree_wf_insert: "btree_wf m \<Longrightarrow> btree_wf (btree_insert k v m)"
proof (induction k v m rule: btree_insert.induct)
  case (2 k v k' v' m)
  have "\<forall>x\<in>fst ` set (btree_insert k v m). k' < x" if "k' < k"
    using 2 that by (auto simp: btree_insert_keys btree_wf_def)
  then show ?case
    using 2 by (auto simp: btree_wf_def not_less)
qed (simp add: btree_wf_def)

lemma map_of_btree_insert: "btree_wf m \<Longrightarrow> map_of (btree_insert k v m) = (map_of m)(k \<mapsto> v)"
  by (induction k v m rule: btree_insert.induct) (auto simp: btree_wf_def fun_eq_iff)

lemma sorted_wrt_less_distinct: "sorted_wrt (<) (xs :: 'a::linorder list) \<Longrightarrow> distinct xs"
  by (simp add: strict_sorted_iff)

lemma sorted_wrt_map_filter: "sorted_wrt R (map f xs) \<Longrightarrow> sorted_wrt R (map f (filter P xs))"
  by (induction xs) auto

lemma map_of_filter_key: "map_of (filter (\<lambda>e. fst e \<noteq> k) m) = (map_of m)(k := None)"
  by (induction m) (auto simp: fun_eq_iff)

interpretation btree: keyed_store btree_wf btree_insert btree_remove
proof unfold_locales
  show "distinct (map fst m)" if "btree_wf m" for m :: "('a \<times> 'b) list"
    using that by (simp add: btree_wf_def sorted_wrt_less_distinct)
  show "btree_wf (btree_remove k m)" if "btree_wf m" for k and m :: "('a \<times> 'b) list"
    using that by (simp add: btree_wf_def btree_remove_def sorted_wrt_map_filter)
  show "map_of (btree_remove k m) = (map_of m)(k := None)" for k and m :: "('a \<times> 'b) list"
    by (simp add: btree_remove_def map_of_filter_key)
qed (auto simp: btree_wf_def [of "[]"] btree_wf_insert map_of_btree_insert)

lemma btree_unique: "btree_wf m \<Longrightarrow> btree_wf m' \<Longrightarrow> set m = set m' \<Longrightarrow> m = m'"
  by (rule map_sorted_distinct_set_unique [where f = fst])
    (auto simp: btree_wf_def strict_sorted_iff distinct_map)

subsection \<open>HashMap\<close>

fun hash_insert :: "'k \<Rightarrow> 'v \<Rightarrow> ('k \<times> 'v) list \<Rightarrow> ('k \<times> 'v) list" where
  "hash_insert k v [] = [(k, v)]"
| "hash_insert k v ((k', v') # m) =
     (if k = k' then (k, v) # m else (k', v') # hash_insert k v m)"

definition hash_remove :: "'k \<Rightarrow> ('k \<times> 'v) list \<Rightarrow> ('k \<times> 'v) list" where
  "hash_remove k m = filter (\<lambda>e. fst e \<noteq> k) m"

definition hash_wf :: "('k \<times> 'v) list \<Rightarrow> bool" where
  "hash_wf m \<longleftrightarrow> distinct (map fst m)"

lemma hash_insert_keys: "fst ` set (hash_insert k v m) = insert k (fst ` set m)"
  by (induction k v m rule: hash_insert.induct) auto

lemma hash_wf_insert: "hash_wf m \<Longrightarrow> hash_wf (hash_insert k v m)"
proof (induction k v m rule: hash_insert.induct)
  case (2 k v k' v' m)
  then show ?case
    using hash_insert_keys [of k v m] by (auto simp: hash_wf_def image_iff)
qed (simp add: hash_wf_def)

lemma map_of_hash_insert: "map_of (hash_insert k v m) = (map_of m)(k \<mapsto> v)"
  by (induction k v m rule: hash_insert.induct) (auto simp: fun_eq_iff)

lemma hash_wf_filter: "hash_wf m \<Longrightarrow> hash_wf (filter P m)"
  by (simp add: hash_wf_def distinct_map_filter)

interpretation hash: keyed_store hash_wf hash_insert hash_remove
proof unfold_locales
  show "hash_wf (hash_remove k m)" if "hash_wf m" for k and m :: "('a \<times> 'b) list"
    using that by (simp add: hash_remove_def hash_wf_filter)
  show "map_of (hash_remove k m) = (map_of m)(k := None)" for k and m :: "('a \<times> 'b) list"
    by (simp add: hash_remove_def map_of_filter_key)
  show "distinct (map fst m)" if "hash_wf m" for m :: "('a \<times> 'b) list"
    using that by (simp add: hash_wf_def)
qed (auto simp: hash_wf_def [of "[]"] hash_wf_insert map_of_hash_insert)

lemma hash_remove_keys: "fst ` set (hash_remove k m) = fst ` set m - {k}"
  by (auto simp: hash_remove_def image_iff)

end
