(* ===== verification/Assembler.thy ===== *)
theory Assembler
  imports Collections Wire_Model
begin

text \<open>
  The file assembler (\<open>file/assembler.rs\<close>): segments of in-flight files are kept per file
  key until every block has arrived, then the file is emitted and its key remembered.

  An \<open>Instant\<close> and a \<open>Duration\<close> are nanosecond counts (\<open>nat\<close>): \<open>duration_since\<close>
  saturates at zero, as subtraction on \<open>nat\<close> does. \<open>Instant::now()\<close> is the argument
  \<open>now\<close> of \<open>push\<close>. The record \<open>asm_ext\<close> holds what the standard library leaves
  unspecified or keeps in tables: the iteration order of the hash map, and lowercasing of
  text that is not ASCII.
\<close>

type_synonym instant = nat
type_synonym duration = nat

subsection \<open>State\<close>

definition DEFAULT_MAX_INFLIGHT_FILES :: usize where
  "DEFAULT_MAX_INFLIGHT_FILES = 256"

definition DEFAULT_INFLIGHT_TTL_SECS :: nat where
  "DEFAULT_INFLIGHT_TTL_SECS = 90"

definition from_secs :: "nat \<Rightarrow> duration" where
  "from_secs s = s * 1000000000"

definition from_millis :: "nat \<Rightarrow> duration" where
  "from_millis ms = ms * 1000000"

record QbtCompletedFile =
  file_filename :: string
  file_data :: "byte list"
  file_timestamp_utc :: system_time

record InflightFile =
  inf_total_blocks :: u32
  inf_parts :: "(u32 \<times> QbtSegment) list"
  inf_last_seen :: instant

record QbtFileAssembler =
  by_key :: "(string \<times> InflightFile) list"
  completed_recent :: "string list"
  completed_index :: "string set"
  duplicate_cache_size :: usize
  max_inflight_files :: usize
  inflight_ttl :: duration

record asm_ext =
  hash_rank :: "(string \<times> InflightFile) list \<Rightarrow> string \<Rightarrow> nat"
  unicode_lowercase :: "string \<Rightarrow> string"

subsection \<open>Operations\<close>

definition with_limits :: "usize \<Rightarrow> usize \<Rightarrow> duration \<Rightarrow> QbtFileAssembler" where
  "with_limits cache inflight ttl =
     \<lparr>by_key = [], completed_recent = [], completed_index = {},
      duplicate_cache_size = max cache 1,
      max_inflight_files = max inflight 1,
      inflight_ttl = max ttl (from_millis 1)\<rparr>"

definition assembler_new :: "usize \<Rightarrow> QbtFileAssembler" where
  "assembler_new cache =
     with_limits cache DEFAULT_MAX_INFLIGHT_FILES (from_secs DEFAULT_INFLIGHT_TTL_SECS)"

text \<open>\<open>str::to_lowercase\<close>: on ASCII text it agrees with the ASCII mapping.\<close>

definition to_lowercase :: "asm_ext \<Rightarrow> string \<Rightarrow> string" where
  "to_lowercase X s =
     (if list_all (\<lambda>c. (of_char c :: nat) < 128) s then to_ascii_lowercase s
      else unicode_lowercase X s)"

definition file_key :: "asm_ext \<Rightarrow> QbtSegment \<Rightarrow> string" where
  "file_key X s =
     (let t = seg_timestamp_utc s;
          ts = (if 0 \<le> t
                then show_nat (nat t div 1000000000) @ ''.''
                     @ pad_left 9 (CHR ''0'') (show_nat (nat t mod 1000000000))
                else ''0.000000000'')
      in to_lowercase X (seg_filename s) @ ''_'' @ ts)"

text \<open>The \<open>while\<close> loop that drops the oldest completed keys.\<close>

function trim_completed ::
    "usize \<Rightarrow> string list \<Rightarrow> string set \<Rightarrow> string list \<times> string set" where
  "trim_completed cache recent index =
     (if length recent > cache then
        (case recent of
           old # rest \<Rightarrow> trim_completed cache rest (index - {old})
         | [] \<Rightarrow> (recent, index))
      else (recent, index))"
  by pat_completeness auto
termination
  by (relation "measure (\<lambda>(cache, recent, index). length recent)") auto

declare trim_completed.simps [simp del]

definition remember_completed :: "string \<Rightarrow> QbtFileAssembler \<Rightarrow> QbtFileAssembler" where
  "remember_completed key a =
     (if key \<in> completed_index a then a
      else
        let (recent, index) =
          trim_completed (duplicate_cache_size a) (completed_recent a @ [key])
            (insert key (completed_index a))
        in a\<lparr>completed_recent := recent, completed_index := index\<rparr>)"

definition evict_stale_inflight :: "instant \<Rightarrow> QbtFileAssembler \<Rightarrow> QbtFileAssembler" where
  "evict_stale_inflight now a =
     a\<lparr>by_key := filter (\<lambda>(_, fl). now - inf_last_seen fl \<le> inflight_ttl a) (by_key a)\<rparr>"

text \<open>\<open>min_by_key\<close> returns the first of several minimal entries.\<close>

fun min_by_last_seen :: "(string \<times> InflightFile) list \<Rightarrow> (string \<times> InflightFile) option" where
  "min_by_last_seen [] = None"
| "min_by_last_seen (e # es) =
     (case min_by_last_seen es of
        None \<Rightarrow> Some e
      | Some m \<Rightarrow> Some (if inf_last_seen (snd e) \<le> inf_last_seen (snd m) then e else m))"

lemma min_by_last_seen_mem: "min_by_last_seen es = Some e \<Longrightarrow> e \<in> set es"
  by (induction es arbitrary: e) (auto split: option.splits if_splits)

text \<open>Iterating the hash map visits its entries in the order of an unspecified rank.\<close>

definition hash_iter :: "asm_ext \<Rightarrow> (string \<times> InflightFile) list \<Rightarrow> (string \<times> InflightFile) list" where
  "hash_iter X es = sort_key (\<lambda>e. hash_rank X es (fst e)) es"

lemma set_hash_iter [simp]: "set (hash_iter X es) = set es"
  by (simp add: hash_iter_def)

text \<open>The eviction loop on the entries.\<close>

function evict_oldest ::
    "asm_ext \<Rightarrow> usize \<Rightarrow> (string \<times> InflightFile) list \<Rightarrow> (string \<times> InflightFile) list" where
  "evict_oldest X min_capacity es =
     (if length es \<ge> min_capacity then
        (case min_by_last_seen (hash_iter X es) of
           None \<Rightarrow> es
         | Some (oldest_key, _) \<Rightarrow> evict_oldest X min_capacity (hash_remove oldest_key es))
      else es)"
  by pat_completeness auto
termination
proof (relation "measure (\<lambda>(X, n, es). length es)", simp, clarsimp simp: hash_remove_def)
  fix X and es :: "(string \<times> InflightFile) list" and k fl
  assume "min_by_last_seen (hash_iter X es) = Some (k, fl)"
  then have "(k, fl) \<in> set es" by (auto dest: min_by_last_seen_mem)
  then show "length (filter (\<lambda>e. fst e \<noteq> k) es) < length es"
    by (intro length_filter_less [of "(k, fl)"]) auto
qed

declare evict_oldest.simps [simp del]

definition evict_overflow_inflight :: "asm_ext \<Rightarrow> usize \<Rightarrow> QbtFileAssembler \<Rightarrow> QbtFileAssembler" where
  "evict_overflow_inflight X min_capacity a =
     a\<lparr>by_key := evict_oldest X min_capacity (by_key a)\<rparr>"

definition skip_segment :: "QbtSegment \<Rightarrow> bool" where
  "skip_segment s \<longleftrightarrow>
     eq_ignore_ascii_case (seg_filename s) ''FILLFILE.TXT''
     \<or> seg_total_blocks s = 0 \<or> seg_block_number s = 0 \<or> seg_block_number s > seg_total_blocks s"

text \<open>Eviction of stale entries, and of the oldest ones when a new key needs room.\<close>

definition make_room :: "asm_ext \<Rightarrow> instant \<Rightarrow> string \<Rightarrow> QbtFileAssembler \<Rightarrow> QbtFileAssembler" where
  "make_room X now key a =
     (let a1 = evict_stale_inflight now a in
      if key \<notin> fst ` set (by_key a1)
      then evict_overflow_inflight X (max_inflight_files a1) a1 else a1)"

text \<open>The entry of the segment's file after the segment has been stored.\<close>

definition store_part :: "instant \<Rightarrow> string \<Rightarrow> QbtSegment \<Rightarrow> QbtFileAssembler \<Rightarrow> InflightFile" where
  "store_part now key s a =
     (let entry = (case map_of (by_key a) key of
                     Some e \<Rightarrow> e
                   | None \<Rightarrow> \<lparr>inf_total_blocks = seg_total_blocks s, inf_parts = [], inf_last_seen = now\<rparr>)
      in entry\<lparr>inf_total_blocks := seg_total_blocks s, inf_last_seen := now,
               inf_parts := btree_insert (seg_block_number s) s (inf_parts entry)\<rparr>)"

definition push ::
    "asm_ext \<Rightarrow> instant \<Rightarrow> QbtSegment \<Rightarrow> QbtFileAssembler \<Rightarrow>
     (QbtReceiverError + QbtCompletedFile option) \<times> QbtFileAssembler" where
  "push X now s a =
     (if skip_segment s then (Inr None, a)
      else
        let key = file_key X s in
        if key \<in> completed_index a then (Inr None, a)
        else
          let a1 = make_room X now key a;
              entry = store_part now key s a1;
              a2 = a1\<lparr>by_key := hash_insert key entry (by_key a1)\<rparr>
          in if (of_nat (length (inf_parts entry)) :: u32) \<noteq> seg_total_blocks s then (Inr None, a2)
             else
               (case inf_parts entry of
                  [] \<Rightarrow> (Inr None, a2)
                | (_, first) # _ \<Rightarrow>
                    (Inr (Some \<lparr>file_filename = seg_filename first,
                                file_data = concat (map (\<lambda>p. seg_content (snd p)) (inf_parts entry)),
                                file_timestamp_utc = seg_timestamp_utc first\<rparr>),
                     remember_completed key (a2\<lparr>by_key := hash_remove key (by_key a2)\<rparr>))))"

definition clear :: "QbtFileAssembler \<Rightarrow> QbtFileAssembler" where
  "clear a = a\<lparr>by_key := [], completed_recent := [], completed_index := {}\<rparr>"

text \<open>A run of pushes, each with its time, and the result of each.\<close>

fun push_all ::
    "asm_ext \<Rightarrow> (instant \<times> QbtSegment) list \<Rightarrow> QbtFileAssembler \<Rightarrow>
     (QbtReceiverError + QbtCompletedFile option) list \<times> QbtFileAssembler" where
  "push_all X [] a = ([], a)"
| "push_all X ((now, s) # es) a =
     (let (r, a1) = push X now s a; (rs, a2) = push_all X es a1 in (r # rs, a2))"

end
