(* ===== verification/Assembler_Correct.thy ===== *)
theory Assembler_Correct
  imports Assembler
begin

text \<open>
  The invariant of the file assembler, that every operation keeps it, and what its callers
  rely on: bounded state, complete files in block order whatever the arrival order and
  interleaving, nothing but complete files, and suppression of duplicates.
\<close>

subsection \<open>Eviction and duplicate cache\<close>

lemma min_by_last_seen_None [simp]: "min_by_last_seen es = None \<longleftrightarrow> es = []"
  by (cases es) (auto split: option.splits)

lemma hash_iter_Nil [simp]: "hash_iter X es = [] \<longleftrightarrow> es = []"
  by (metis set_hash_iter set_empty)

lemma hash_iter_of_Nil [simp]: "hash_iter X [] = []"
  by simp

lemma evict_oldest_below: "length es < n \<Longrightarrow> evict_oldest X n es = es"
  by (simp add: evict_oldest.simps)

lemma evict_oldest_filter: "\<exists>P. evict_oldest X n es = filter P es"
proof (induction X n es rule: evict_oldest.induct)
  case (1 X n es)
  show ?case
  proof (cases "length es \<ge> n \<and> min_by_last_seen (hash_iter X es) \<noteq> None")
    case True
    then obtain k fl where m: "min_by_last_seen (hash_iter X es) = Some (k, fl)"
      by (metis not_None_eq prod.collapse)
    with True 1 obtain P where P: "evict_oldest X n (hash_remove k es) = filter P (hash_remove k es)"
      by blast
    have "evict_oldest X n es = evict_oldest X n (hash_remove k es)"
      using True m by (subst evict_oldest.simps) simp
    then show ?thesis unfolding P by (auto simp: hash_remove_def)
  next
    case False
    then have "evict_oldest X n es = es"
      by (subst evict_oldest.simps) (auto split: option.splits)
    then show ?thesis by (auto intro: exI [of _ "\<lambda>_. True"])
  qed
qed

lemma evict_oldest_length: "0 < n \<Longrightarrow> length (evict_oldest X n es) < n"
proof (induction X n es rule: evict_oldest.induct)
  case (1 X n es)
  then show ?case
    by (subst evict_oldest.simps) (auto split: option.splits)
qed

lemma trim_completed_eq:
  "trim_completed cache recent index =
     (drop (length recent - cache) recent, index - set (take (length recent - cache) recent))"
proof (induction cache recent index rule: trim_completed.induct)
  case (1 cache recent index)
  then show ?case
    by (subst trim_completed.simps) (auto simp: Suc_diff_le split: list.splits)
qed

subsection \<open>Invariant\<close>

definition wf_inflight :: "asm_ext \<Rightarrow> string \<Rightarrow> InflightFile \<Rightarrow> bool" where
  "wf_inflight X key fl \<longleftrightarrow>
     btree_wf (inf_parts fl) \<and>
     (\<forall>(n, s)\<in>set (inf_parts fl). n = seg_block_number s \<and> \<not> skip_segment s \<and> file_key X s = key)"

definition wf_assembler :: "asm_ext \<Rightarrow> QbtFileAssembler \<Rightarrow> bool" where
  "wf_assembler X a \<longleftrightarrow>
     hash_wf (by_key a) \<and> (\<forall>(k, fl)\<in>set (by_key a). wf_inflight X k fl)
     \<and> length (by_key a) \<le> max_inflight_files a \<and> 0 < max_inflight_files a
     \<and> distinct (completed_recent a) \<and> completed_index a = set (completed_recent a)
     \<and> length (completed_recent a) \<le> duplicate_cache_size a \<and> 0 < duplicate_cache_size a
     \<and> fst ` set (by_key a) \<inter> completed_index a = {}"

lemma wf_with_limits: "wf_assembler X (with_limits c m t)"
  by (auto simp: wf_assembler_def with_limits_def hash.wf_Nil max_def)

lemma wf_assembler_new: "wf_assembler X (assembler_new c)"
  by (simp add: assembler_new_def wf_with_limits)

lemma wf_clear: "wf_assembler X a \<Longrightarrow> wf_assembler X (clear a)"
  by (simp add: wf_assembler_def clear_def hash.wf_Nil)

lemma make_room_filter:
  obtains P where "make_room X now key a = a\<lparr>by_key := filter P (by_key a)\<rparr>"
proof -
  let ?f = "\<lambda>(_ :: string, fl). now - inf_last_seen fl \<le> inflight_ttl a"
  obtain Q where Q: "evict_oldest X (max_inflight_files a) (filter ?f (by_key a)) = filter Q (filter ?f (by_key a))"
    using evict_oldest_filter by blast
  show ?thesis
  proof (cases "key \<in> fst ` set (filter ?f (by_key a))")
    case True
    then show ?thesis
      by (intro that [of ?f]) (auto simp: make_room_def evict_stale_inflight_def Let_def)
  next
    case False
    then have "make_room X now key a = a\<lparr>by_key := filter Q (filter ?f (by_key a))\<rparr>"
      by (auto simp: make_room_def evict_stale_inflight_def evict_overflow_inflight_def Let_def Q
        simp del: filter_filter)
    then show ?thesis by (intro that [of "\<lambda>x. Q x \<and> ?f x"]) (simp add: conj_commute)
  qed
qed

lemma make_room_length:
  assumes "wf_assembler X a" and "key \<notin> fst ` set (by_key (make_room X now key a))"
  shows "length (by_key (make_room X now key a)) < max_inflight_files a"
proof -
  define live where "live = a\<lparr>by_key := filter (\<lambda>(_, fl). now - inf_last_seen fl \<le> inflight_ttl a) (by_key a)\<rparr>"
  have room: "make_room X now key a =
      (if key \<notin> fst ` set (by_key live) then evict_overflow_inflight X (max_inflight_files a) live else live)"
    by (simp add: make_room_def evict_stale_inflight_def Let_def live_def)
  then have "key \<notin> fst ` set (by_key live)" using assms(2) by (metis (full_types))
  then show ?thesis
    using assms(1) by (simp add: room evict_overflow_inflight_def wf_assembler_def evict_oldest_length)
qed

lemma wf_make_room: "wf_assembler X a \<Longrightarrow> wf_assembler X (make_room X now key a)"
proof -
  assume wf: "wf_assembler X a"
  obtain P where "make_room X now key a = a\<lparr>by_key := filter P (by_key a)\<rparr>"
    by (rule make_room_filter)
  moreover have "length (filter P (by_key a)) \<le> max_inflight_files a"
    using wf length_filter_le [of P "by_key a"] by (simp add: wf_assembler_def del: length_filter_le)
  ultimately show ?thesis
    using wf by (auto simp: wf_assembler_def hash_wf_filter)
qed

lemma wf_store_part:
  assumes "wf_assembler X a" and "\<not> skip_segment s"
  shows "wf_inflight X (file_key X s) (store_part now (file_key X s) s a)"
proof -
  define ps where "ps = (case map_of (by_key a) (file_key X s) of Some e \<Rightarrow> inf_parts e | None \<Rightarrow> [])"
  have "btree_wf ps \<and> (\<forall>(n, p)\<in>set ps. n = seg_block_number p \<and> \<not> skip_segment p \<and> file_key X p = file_key X s)"
    using assms(1)
    by (auto simp: ps_def wf_assembler_def wf_inflight_def btree.wf_Nil dest!: map_of_SomeD
      split: option.splits)
  moreover have "inf_parts (store_part now (file_key X s) s a) = btree_insert (seg_block_number s) s ps"
    by (simp add: store_part_def ps_def Let_def split: option.splits)
  ultimately show ?thesis
    using assms(2) by (auto simp: wf_inflight_def btree.wf_ins btree.entries_ins)
qed

lemma wf_insert_entry:
  assumes wf: "wf_assembler X a" and new: "k \<notin> completed_index a" "wf_inflight X k e"
    and len: "k \<notin> fst ` set (by_key a) \<Longrightarrow> length (by_key a) < max_inflight_files a"
  shows "wf_assembler X (a\<lparr>by_key := hash_insert k e (by_key a)\<rparr>)"
proof -
  have h: "hash_wf (by_key a)" using wf by (simp add: wf_assembler_def)
  have "length (hash_insert k e (by_key a)) = card (insert k (fst ` set (by_key a)))"
    using hash.length_card [OF hash.wf_ins [OF h]] hash_insert_keys [of k e "by_key a"] by simp
  then have "length (hash_insert k e (by_key a)) \<le> max_inflight_files a"
    using len wf hash.length_card [OF h] by (auto simp: wf_assembler_def card_insert_if)
  then show ?thesis
    using assms h by (auto simp: wf_assembler_def hash.wf_ins hash.entries_ins)
qed

lemma wf_remember_completed:
  assumes wf: "wf_assembler X a" and fresh: "k \<notin> fst ` set (by_key a)" "k \<notin> completed_index a"
  shows "wf_assembler X (remember_completed k a)"
proof -
  define r where "r = completed_recent a @ [k]"
  define n where "n = length r - duplicate_cache_size a"
  have d: "distinct r" and i: "insert k (completed_index a) = set r"
    using wf fresh by (auto simp: wf_assembler_def r_def)
  have "set r = set (take n r) \<union> set (drop n r)"
    by (metis append_take_drop_id set_append)
  moreover have "set (take n r) \<inter> set (drop n r) = {}"
    using d by (metis append_take_drop_id distinct_append)
  ultimately have "set r - set (take n r) = set (drop n r)" by blast
  then have "remember_completed k a = a\<lparr>completed_recent := drop n r, completed_index := set (drop n r)\<rparr>"
    using fresh by (simp add: remember_completed_def trim_completed_eq i flip: r_def n_def)
  moreover have "distinct (drop n r)" "length (drop n r) \<le> duplicate_cache_size a"
    using d by (auto simp: n_def)
  moreover have "set (drop n r) \<subseteq> insert k (completed_index a)"
    unfolding i by (rule set_drop_subset)
  then have "fst ` set (by_key a) \<inter> set (drop n r) = {}"
    using wf fresh(1) unfolding wf_assembler_def by blast
  ultimately show ?thesis
    using wf by (simp add: wf_assembler_def)
qed

lemma file_key_notin_removed: "k \<notin> fst ` set (hash_remove k m)"
  by (auto simp: hash_remove_def)

lemma wf_remove_entry: "wf_assembler X a \<Longrightarrow> wf_assembler X (a\<lparr>by_key := hash_remove k (by_key a)\<rparr>)"
proof -
  assume wf: "wf_assembler X a"
  have "length (hash_remove k (by_key a)) \<le> max_inflight_files a"
    using wf length_filter_le [of "\<lambda>e. fst e \<noteq> k" "by_key a"]
    by (simp add: wf_assembler_def hash_remove_def del: length_filter_le)
  then show ?thesis
    using wf by (auto simp: wf_assembler_def hash.wf_del hash_remove_def hash_wf_filter)
qed

subsection \<open>One push\<close>

definition parts_of :: "QbtFileAssembler \<Rightarrow> string \<Rightarrow> (u32 \<times> QbtSegment) list" where
  "parts_of a k = (case map_of (by_key a) k of Some fl \<Rightarrow> inf_parts fl | None \<Rightarrow> [])"

lemma inf_parts_store_part [simp]:
  "inf_parts (store_part now k s a) = btree_insert (seg_block_number s) s (parts_of a k)"
  by (simp add: store_part_def parts_of_def Let_def split: option.splits)

lemma inf_last_seen_store_part [simp]: "inf_last_seen (store_part now k s a) = now"
  by (simp add: store_part_def Let_def)

lemma btree_insert_not_Nil [simp]: "btree_insert k v m \<noteq> []"
  by (cases m) (auto split: if_splits)

definition file_of :: "(u32 \<times> QbtSegment) list \<Rightarrow> QbtCompletedFile" where
  "file_of ps =
     \<lparr>file_filename = seg_filename (snd (hd ps)),
      file_data = concat (map (\<lambda>p. seg_content (snd p)) ps),
      file_timestamp_utc = seg_timestamp_utc (snd (hd ps))\<rparr>"

lemma push_cases:
  fixes X now s a
  defines "k \<equiv> file_key X s"
  defines "a1 \<equiv> make_room X now k a"
  defines "ps \<equiv> btree_insert (seg_block_number s) s (parts_of a1 k)"
  obtains (ignored) "skip_segment s \<or> k \<in> completed_index a" "push X now s a = (Inr None, a)"
  | (stored) "\<not> skip_segment s" "k \<notin> completed_index a" "of_nat (length ps) \<noteq> seg_total_blocks s"
      "push X now s a = (Inr None, a1\<lparr>by_key := hash_insert k (store_part now k s a1) (by_key a1)\<rparr>)"
  | (completed) "\<not> skip_segment s" "k \<notin> completed_index a" "of_nat (length ps) = seg_total_blocks s"
      "push X now s a = (Inr (Some (file_of ps)),
         remember_completed k (a1\<lparr>by_key := hash_remove k (hash_insert k (store_part now k s a1) (by_key a1))\<rparr>))"
proof (cases "skip_segment s \<or> k \<in> completed_index a")
  case True
  then show ?thesis by (intro ignored) (auto simp: push_def k_def)
next
  case active: False
  show ?thesis
  proof (cases "of_nat (length ps) = seg_total_blocks s")
    case True
    obtain b f rest where ps: "ps = (b, f) # rest"
      by (metis btree_insert_not_Nil neq_Nil_conv prod.collapse ps_def)
    with True active show ?thesis
      by (intro completed)
        (simp_all add: push_def Let_def file_of_def flip: k_def a1_def ps_def)
  next
    case False
    with active show ?thesis
      by (intro stored) (simp_all add: push_def Let_def flip: k_def a1_def ps_def)
  qed
qed

lemma make_room_fields [simp]:
  "completed_index (make_room X now k a) = completed_index a"
  "completed_recent (make_room X now k a) = completed_recent a"
  "max_inflight_files (make_room X now k a) = max_inflight_files a"
  "duplicate_cache_size (make_room X now k a) = duplicate_cache_size a"
  "inflight_ttl (make_room X now k a) = inflight_ttl a"
  by (simp_all add: make_room_def evict_stale_inflight_def evict_overflow_inflight_def Let_def)

lemma wf_push_stored:
  assumes "wf_assembler X a" and "\<not> skip_segment s" and "file_key X s \<notin> completed_index a"
    and "a1 = make_room X now (file_key X s) a"
  shows "wf_assembler X (a1\<lparr>by_key := hash_insert (file_key X s) (store_part now (file_key X s) s a1) (by_key a1)\<rparr>)"
  using assms make_room_length [OF assms(1), of "file_key X s" now]
  by (intro wf_insert_entry wf_store_part) (auto intro: wf_make_room)

lemma wf_push: "wf_assembler X a \<Longrightarrow> wf_assembler X (snd (push X now s a))"
proof (cases rule: push_cases [of s X a now])
  case ignored
  then show "wf_assembler X a \<Longrightarrow> ?thesis" by simp
next
  case stored
  then show "wf_assembler X a \<Longrightarrow> ?thesis" by (simp add: wf_push_stored)
next
  case completed
  assume "wf_assembler X a"
  from wf_remove_entry [OF wf_push_stored [OF this completed(1,2) refl], of "file_key X s"]
  show ?thesis
    using completed by (simp add: wf_remember_completed file_key_notin_removed)
qed

lemma wf_push_all: "wf_assembler X a \<Longrightarrow> wf_assembler X (snd (push_all X es a))"
  by (induction X es a rule: push_all.induct) (auto simp: Let_def split: prod.splits, metis snd_conv wf_push)

lemma remember_completed_fields [simp]:
  "by_key (remember_completed k a) = by_key a"
  "max_inflight_files (remember_completed k a) = max_inflight_files a"
  "duplicate_cache_size (remember_completed k a) = duplicate_cache_size a"
  "inflight_ttl (remember_completed k a) = inflight_ttl a"
  by (simp_all add: remember_completed_def Let_def split: prod.splits)

lemma push_limits [simp]:
  "max_inflight_files (snd (push X now s a)) = max_inflight_files a"
  "duplicate_cache_size (snd (push X now s a)) = duplicate_cache_size a"
  "inflight_ttl (snd (push X now s a)) = inflight_ttl a"
  by (cases rule: push_cases [of s X a now]; simp)+

lemma remember_completed_index:
  "completed_index (remember_completed k a) \<subseteq> insert k (completed_index a)"
  by (auto simp: remember_completed_def trim_completed_eq)

subsection \<open>Non-interference of files\<close>

text \<open>
  A calm period for the file \<open>k\<close>: all pushes happen within \<open>ttl\<close> of \<open>tmin\<close> and all keys
  that occur fit into the in-flight limit, so nothing evicts the parts of \<open>k\<close>.
\<close>

definition in_window :: "QbtFileAssembler \<Rightarrow> instant \<Rightarrow> instant \<Rightarrow> bool" where
  "in_window a tmin t \<longleftrightarrow> tmin \<le> t \<and> t \<le> tmin + inflight_ttl a"

definition calm :: "asm_ext \<Rightarrow> string set \<Rightarrow> instant \<Rightarrow> string \<Rightarrow> QbtFileAssembler \<Rightarrow> bool" where
  "calm X K tmin k a \<longleftrightarrow>
     wf_assembler X a \<and> finite K \<and> card K \<le> max_inflight_files a \<and> fst ` set (by_key a) \<subseteq> K
     \<and> (\<forall>fl. map_of (by_key a) k = Some fl \<longrightarrow> in_window a tmin (inf_last_seen fl))"

lemma map_of_filter_keep:
  assumes "\<And>v. map_of m k = Some v \<Longrightarrow> P (k, v)" and "distinct (map fst m)"
  shows "map_of (filter P m) k = map_of m k"
  using assms
proof (induction m)
  case (Cons e m)
  have "map_of (filter P m) k = map_of m k"
    using Cons.prems by (intro Cons.IH) (auto simp: image_iff dest: map_of_SomeD split: if_splits)
  with Cons.prems show ?case
    by (cases e) (auto simp: map_of_eq_None_iff)
qed simp

lemma make_room_keeps:
  assumes calm: "calm X K tmin k a" and now: "in_window a tmin now" and key: "key \<in> K"
  shows "map_of (by_key (make_room X now key a)) k = map_of (by_key a) k"
proof -
  define live where "live = filter (\<lambda>(_, fl). now - inf_last_seen fl \<le> inflight_ttl a) (by_key a)"
  have h: "hash_wf (by_key a)" using calm by (simp add: calm_def wf_assembler_def)
  have "map_of live k = map_of (by_key a) k"
    unfolding live_def using calm now h
    by (intro map_of_filter_keep) (auto simp: calm_def in_window_def hash_wf_def)
  moreover have "evict_oldest X (max_inflight_files a) live = live" if "key \<notin> fst ` set live"
  proof -
    have "fst ` set live \<subseteq> K - {key}"
      using that calm by (auto simp: live_def calm_def)
    then have "card (fst ` set live) < card K"
      using calm key by (metis calm_def card_Diff1_less card_mono finite_Diff order_le_less_trans)
    then have "length live < max_inflight_files a"
      using calm hash.length_card [of live] h by (simp add: calm_def live_def hash_wf_filter)
    then show ?thesis by (rule evict_oldest_below)
  qed
  ultimately show ?thesis
    by (simp add: make_room_def Let_def evict_stale_inflight_def evict_overflow_inflight_def flip: live_def)
qed

lemma make_room_keys: "fst ` set (by_key (make_room X now key a)) \<subseteq> fst ` set (by_key a)"
  by (rule make_room_filter [of X now key a]) auto

lemma push_by_key:
  "fst ` set (by_key (snd (push X now s a))) \<subseteq> insert (file_key X s) (fst ` set (by_key a))"
proof (cases rule: push_cases [of s X a now])
  case ignored
  then show ?thesis by auto
qed (use make_room_keys [of X now "file_key X s" a] in \<open>simp add: hash_insert_keys hash_remove_keys; blast\<close>)+

lemma calm_keys:
  "calm X K tmin k a \<Longrightarrow> file_key X s \<in> K \<Longrightarrow> fst ` set (by_key (snd (push X now s a))) \<subseteq> K"
  by (rule subset_trans [OF push_by_key]) (simp add: calm_def)

lemma push_other_file:
  assumes calm: "calm X K tmin k a" and now: "in_window a tmin now" and key: "file_key X s \<in> K"
    and other: "file_key X s \<noteq> k"
  shows "map_of (by_key (snd (push X now s a))) k = map_of (by_key a) k"
proof -
  have keep: "map_of (by_key (make_room X now (file_key X s) a)) k = map_of (by_key a) k"
    by (rule make_room_keeps [OF calm now key])
  have del: "map_of (hash_remove (file_key X s) m) k = map_of m k" for m :: "(string \<times> InflightFile) list"
    using other by (simp add: hash_remove_def map_of_filter_key)
  show ?thesis
    using other by (cases rule: push_cases [of s X a now]) (simp_all add: keep del map_of_hash_insert)
qed

lemma push_completed_index:
  "completed_index (snd (push X now s a)) \<subseteq> insert (file_key X s) (completed_index a)"
  using remember_completed_index by (cases rule: push_cases [of s X a now]) fastforce+

lemma in_window_push [simp]: "in_window (snd (push X now s a)) = in_window a"
  by (simp add: fun_eq_iff in_window_def)

lemma calm_push_other:
  assumes "calm X K tmin k a" and "in_window a tmin now" and "file_key X s \<in> K" and "file_key X s \<noteq> k"
  shows "calm X K tmin k (snd (push X now s a))"
  using assms(1) calm_keys [OF assms(1,3)] push_other_file [OF assms]
  by (simp add: calm_def wf_push)

text \<open>One push of a block of the file itself.\<close>

lemma push_own_file:
  assumes calm: "calm X K tmin k a" and now: "in_window a tmin now"
    and s: "file_key X s = k" "\<not> skip_segment s" and k: "k \<in> K" "k \<notin> completed_index a"
  defines "ps \<equiv> btree_insert (seg_block_number s) s (parts_of a k)"
  shows "of_nat (length ps) \<noteq> seg_total_blocks s \<Longrightarrow>
      fst (push X now s a) = Inr None \<and> parts_of (snd (push X now s a)) k = ps
      \<and> calm X K tmin k (snd (push X now s a)) \<and> k \<notin> completed_index (snd (push X now s a))"
    and "of_nat (length ps) = seg_total_blocks s \<Longrightarrow> fst (push X now s a) = Inr (Some (file_of ps))"
proof -
  let ?a1 = "make_room X now k a"
  have "map_of (by_key ?a1) k = map_of (by_key a) k"
    by (rule make_room_keeps [OF calm now k(1)])
  then have parts: "parts_of ?a1 k = parts_of a k" by (simp add: parts_of_def)
  show "fst (push X now s a) = Inr (Some (file_of ps))" if "of_nat (length ps) = seg_total_blocks s"
    using s k(2) that by (cases rule: push_cases [of s X a now]) (auto simp: parts ps_def)
  assume len: "of_nat (length ps) \<noteq> seg_total_blocks s"
  then have p: "push X now s a = (Inr None, ?a1\<lparr>by_key := hash_insert k (store_part now k s ?a1) (by_key ?a1)\<rparr>)"
    using s k(2) by (cases rule: push_cases [of s X a now]) (auto simp: parts ps_def)
  have "parts_of (snd (push X now s a)) k = ps"
    by (simp add: p parts_of_def [of "_\<lparr>by_key := _\<rparr>"] map_of_hash_insert parts ps_def)
  moreover have "calm X K tmin k (snd (push X now s a))"
    using calm now calm_keys [OF calm, of s now] wf_push [of X a now s] k s
    by (simp add: calm_def p map_of_hash_insert in_window_def)
  ultimately show "fst (push X now s a) = Inr None \<and> parts_of (snd (push X now s a)) k = ps
      \<and> calm X K tmin k (snd (push X now s a)) \<and> k \<notin> completed_index (snd (push X now s a))"
    using k(2) by (simp add: p)
qed

subsection \<open>Complete files in any order\<close>

definition results_for ::
    "asm_ext \<Rightarrow> string \<Rightarrow> (instant \<times> QbtSegment) list \<Rightarrow> QbtFileAssembler \<Rightarrow>
     (QbtReceiverError + QbtCompletedFile option) list" where
  "results_for X k es a =
     map fst (filter (\<lambda>(r, e). file_key X (snd e) = k) (zip (fst (push_all X es a)) es))"

lemma results_for_simps [simp]:
  "results_for X k [] a = []"
  "results_for X k ((now, s) # es) a =
     (if file_key X s = k then [fst (push X now s a)] else []) @ results_for X k es (snd (push X now s a))"
  by (auto simp: results_for_def split: prod.splits)

text \<open>The blocks \<open>1..n\<close> of one file, as a family indexed by block number.\<close>

definition file_blocks :: "asm_ext \<Rightarrow> string \<Rightarrow> nat \<Rightarrow> (nat \<Rightarrow> QbtSegment) \<Rightarrow> bool" where
  "file_blocks X k n blk \<longleftrightarrow>
     0 < n \<and> n < 2 ^ 32 \<and>
     list_all (\<lambda>i. seg_block_number (blk i) = of_nat i \<and> seg_total_blocks (blk i) = of_nat n
       \<and> file_key X (blk i) = k
       \<and> \<not> eq_ignore_ascii_case (seg_filename (blk i)) ''FILLFILE.TXT'') [1..<Suc n]"

abbreviation numbered :: "(nat \<Rightarrow> QbtSegment) \<Rightarrow> nat set \<Rightarrow> (u32 \<times> QbtSegment) set" where
  "numbered blk I \<equiv> (\<lambda>i. (of_nat i, blk i)) ` I"

lemma unat_of_nat_u32: "i < 2 ^ 32 \<Longrightarrow> unat (of_nat i :: u32) = i"
  by (simp add: unsigned_of_nat take_bit_nat_eq_self)

lemma of_nat_u32_eq: "i < 2 ^ 32 \<Longrightarrow> j < 2 ^ 32 \<Longrightarrow> (of_nat i :: u32) = of_nat j \<longleftrightarrow> i = j"
  by (metis unat_of_nat_u32)

lemma file_blocksD:
  assumes "file_blocks X k n blk" and "i \<in> {1..n}"
  shows "seg_block_number (blk i) = of_nat i" "seg_total_blocks (blk i) = of_nat n"
    "file_key X (blk i) = k" "\<not> skip_segment (blk i)"
proof -
  have i: "0 < i" "i \<le> n" "n < 2 ^ 32" and mem: "i \<in> set [1..<Suc n]"
    using assms by (auto simp: file_blocks_def)
  show *: "seg_block_number (blk i) = of_nat i" "seg_total_blocks (blk i) = of_nat n"
    "file_key X (blk i) = k"
    using assms(1) mem unfolding file_blocks_def list_all_iff by blast+
  have nz: "(of_nat i :: u32) \<noteq> 0" "(of_nat n :: u32) \<noteq> 0"
    using i of_nat_u32_eq [of i 0] of_nat_u32_eq [of n 0] by auto
  have "unat (of_nat i :: u32) = i" "unat (of_nat n :: u32) = n"
    using i by (simp_all add: unat_of_nat_u32)
  then have "\<not> (of_nat n :: u32) < of_nat i"
    using i by (simp add: word_less_nat_alt)
  moreover have "\<not> eq_ignore_ascii_case (seg_filename (blk i)) ''FILLFILE.TXT''"
    using assms(1) mem unfolding file_blocks_def list_all_iff by blast
  ultimately show "\<not> skip_segment (blk i)"
    using * nz by (simp add: skip_segment_def)
qed

lemma inj_numbered: "n < 2 ^ 32 \<Longrightarrow> I \<subseteq> {1..n} \<Longrightarrow> inj_on (\<lambda>i. (of_nat i :: u32)) I"
  by (rule inj_onI) (metis (no_types, lifting) atLeastAtMost_iff of_nat_u32_eq order_le_less_trans subsetD)

lemma btree_numbered_eq:
  assumes "btree_wf ps" and "set ps = numbered blk {1..n}" and "n < 2 ^ 32"
  shows "ps = map (\<lambda>i. (of_nat i, blk i)) [1..<Suc n]"
proof (rule btree_unique [OF assms(1)])
  have "sorted_wrt (<) [1..<Suc n]" by (rule sorted_wrt_upt)
  then have "sorted_wrt (\<lambda>i j. (of_nat i :: u32) < of_nat j) [1..<Suc n]"
    by (rule sorted_wrt_mono_rel [rotated])
      (use assms(3) in \<open>auto simp: word_less_nat_alt unat_of_nat_u32\<close>)
  then have "sorted_wrt (<) (map (\<lambda>i. (of_nat i :: u32)) [1..<Suc n])"
    by (simp only: sorted_wrt_map)
  then show "btree_wf (map (\<lambda>i. (of_nat i :: u32, blk i)) [1..<Suc n])"
    by (simp add: btree_wf_def comp_def)
  show "set ps = set (map (\<lambda>i. (of_nat i, blk i)) [1..<Suc n])"
    by (simp add: assms(2) atLeastLessThanSuc_atLeastAtMost del: upt_Suc)
qed

lemma parts_of_wf: "wf_assembler X a \<Longrightarrow> btree_wf (parts_of a k)"
  by (auto simp: parts_of_def wf_assembler_def wf_inflight_def btree.wf_Nil dest!: map_of_SomeD
      split: option.splits)

lemma btree_insert_numbered:
  assumes "n < 2 ^ 32" "insert i I \<subseteq> {1..n}" "i \<notin> I" "btree_wf ps" "set ps = numbered blk I"
  shows "set (btree_insert (of_nat i) (blk i) ps) = numbered blk (insert i I)"
    and "length (btree_insert (of_nat i) (blk i) ps) = Suc (card I)"
proof -
  let ?ps = "btree_insert (of_nat i) (blk i) ps"
  have inj: "inj_on (\<lambda>i. (of_nat i :: u32)) (insert i I)"
    by (rule inj_numbered [OF assms(1,2)])
  then have "\<forall>e\<in>set ps. fst e \<noteq> of_nat i"
    using assms(3,5) by (auto simp: inj_on_def)
  then show set: "set ?ps = numbered blk (insert i I)"
    using assms(5) by (auto simp: btree.entries_ins [OF assms(4)])
  have "length ?ps = card (fst ` numbered blk (insert i I))"
    using btree.length_card [OF btree.wf_ins [OF assms(4)]] by (simp only: set list.set_map)
  also have "\<dots> = card (insert i I)"
    using card_image [OF inj] by (simp add: image_image)
  also have "\<dots> = Suc (card I)"
    using assms(2,3) finite_subset [of I "{1..n}"] by simp
  finally show "length ?ps = Suc (card I)" .
qed

lemma push_block:
  assumes blocks: "file_blocks X k n blk" and calm: "calm X K tmin k a" and now: "in_window a tmin now"
    and k: "k \<in> K" "k \<notin> completed_index a" and parts: "set (parts_of a k) = numbered blk I"
    and I: "insert i I \<subseteq> {1..n}" and i: "i \<notin> I"
  shows "insert i I = {1..n} \<Longrightarrow>
      fst (push X now (blk i) a) = Inr (Some (file_of (map (\<lambda>i. (of_nat i, blk i)) [1..<Suc n])))"
    and "insert i I \<noteq> {1..n} \<Longrightarrow>
      fst (push X now (blk i) a) = Inr None \<and> calm X K tmin k (snd (push X now (blk i) a))
      \<and> set (parts_of (snd (push X now (blk i) a)) k) = numbered blk (insert i I)
      \<and> k \<notin> completed_index (snd (push X now (blk i) a))"
proof -
  have n: "n < 2 ^ 32" using blocks by (simp add: file_blocks_def)
  have wf: "btree_wf (parts_of a k)"
    using calm parts_of_wf unfolding calm_def by blast
  define ps where "ps = btree_insert (of_nat i) (blk i) (parts_of a k)"
  note ps_set = btree_insert_numbered(1) [OF n I i wf parts, folded ps_def]
    and ps_len = btree_insert_numbered(2) [OF n I i wf parts, folded ps_def]
  have "i \<in> {1..n}" using I by blast
  note bi = file_blocksD [OF blocks this]
  note own = push_own_file [OF calm now bi(3,4) k, unfolded bi(1,2), folded ps_def]
  have card: "Suc (card I) = card (insert i I)"
    using I i finite_subset [of I "{1..n}"] by simp
  show "fst (push X now (blk i) a) = Inr (Some (file_of (map (\<lambda>i. (of_nat i, blk i)) [1..<Suc n])))"
    if "insert i I = {1..n}"
  proof -
    have "ps = map (\<lambda>i. (of_nat i, blk i)) [1..<Suc n]"
      using btree_numbered_eq [OF _ _ n, of ps blk] ps_set that wf by (simp add: ps_def btree.wf_ins)
    then show ?thesis
      using own(2) ps_len card that by simp
  qed
  assume "insert i I \<noteq> {1..n}"
  with I have "insert i I \<subset> {1..n}" by blast
  then have "card (insert i I) < n"
    using psubset_card_mono [of "{1..n}" "insert i I"] by simp
  then have "(of_nat (length ps) :: u32) \<noteq> of_nat n"
    using n ps_len card of_nat_u32_eq [of "Suc (card I)" n] by simp
  then show "fst (push X now (blk i) a) = Inr None \<and> calm X K tmin k (snd (push X now (blk i) a))
      \<and> set (parts_of (snd (push X now (blk i) a)) k) = numbered blk (insert i I)
      \<and> k \<notin> completed_index (snd (push X now (blk i) a))"
    using own(1) ps_set by simp
qed

lemma results_for_none: "filter (\<lambda>s. file_key X s = k) (map snd es) = [] \<Longrightarrow> results_for X k es a = []"
  by (induction es arbitrary: a) (auto split: if_splits)

lemma results_for_blocks:
  assumes blocks: "file_blocks X k n blk"
    and "calm X K tmin k a" and "k \<notin> completed_index a" and k: "k \<in> K"
    and "list_all (\<lambda>(now, s). in_window a tmin now \<and> file_key X s \<in> K) es"
    and "filter (\<lambda>s. file_key X s = k) (map snd es) = map blk is"
    and "distinct is" and "I \<inter> set is = {}" and "I \<union> set is = {1..n}" and "is \<noteq> []"
    and "set (parts_of a k) = numbered blk I"
  shows "results_for X k es a = replicate (length is - 1) (Inr None)
    @ [Inr (Some (file_of (map (\<lambda>i. (of_nat i, blk i)) [1..<Suc n])))]"
  using assms(2,3,5-)
proof (induction es arbitrary: a "is" I)
  case Nil
  then show ?case by simp
next
  case (Cons e es)
  obtain now s where e: "e = (now, s)" by (cases e)
  let ?a' = "snd (push X now s a)"
  have window: "in_window a tmin now" and key: "file_key X s \<in> K"
    and rest: "list_all (\<lambda>(now, s). in_window ?a' tmin now \<and> file_key X s \<in> K) es"
    using Cons.prems(3) by (auto simp: e)
  show ?case
  proof (cases "file_key X s = k")
    case False
    have "parts_of ?a' k = parts_of a k"
      using push_other_file [OF Cons.prems(1) window key False] by (simp add: parts_of_def)
    moreover have "calm X K tmin k ?a'" by (rule calm_push_other [OF Cons.prems(1) window key False])
    moreover have "k \<notin> completed_index ?a'"
      using Cons.prems(2) push_completed_index [of X now s a] False by blast
    ultimately show ?thesis
      using Cons.IH [OF _ _ rest, of "is" I] Cons.prems(4-) False by (simp add: e)
  next
    case True
    with Cons.prems(4) obtain i js where "is": "is = i # js" and s: "s = blk i"
      and tail: "filter (\<lambda>s. file_key X s = k) (map snd es) = map blk js"
      by (auto simp: e)
    have i: "i \<notin> I" and I: "insert i I \<subseteq> {1..n}" and js: "set js = {1..n} - insert i I"
      using Cons.prems(5-7) by (auto simp: "is")
    from js I have last: "insert i I = {1..n} \<longleftrightarrow> js = []"
      by (metis Diff_cancel Diff_eq_empty_iff set_empty subset_antisym)
    note push = push_block [OF blocks Cons.prems(1) window k Cons.prems(2,9) I i, folded s]
    show ?thesis
    proof (cases "js = []")
      case True
      then show ?thesis
        using push(1) last tail \<open>file_key X s = k\<close> by (simp add: e "is" results_for_none)
    next
      case False
      then show ?thesis
        using push(2) last Cons.IH [OF _ _ rest tail, of "insert i I"] Cons.prems(5-7) \<open>file_key X s = k\<close>
        by (cases js) (simp_all add: e "is" insert_commute del: upt_Suc)
    qed
  qed
qed

lemma results_for_file:
  assumes "file_blocks X k n blk"
    and "wf_assembler X a" and "k \<notin> completed_index a" and "k \<notin> fst ` set (by_key a)"
    and "card (insert k (fst ` set (by_key a) \<union> file_key X ` snd ` set es)) \<le> max_inflight_files a"
    and "list_all (\<lambda>(now, s). in_window a tmin now) es"
    and "filter (\<lambda>s. file_key X s = k) (map snd es) = map blk nums"
    and "distinct nums" and "set nums = {1..n}"
  shows "results_for X k es a = replicate (n - 1) (Inr None)
    @ [Inr (Some \<lparr>file_filename = seg_filename (blk 1),
                  file_data = concat (map (\<lambda>i. seg_content (blk i)) [1..<Suc n]),
                  file_timestamp_utc = seg_timestamp_utc (blk 1)\<rparr>)]"
proof -
  let ?K = "insert k (fst ` set (by_key a) \<union> file_key X ` snd ` set es)"
  have n: "0 < n" using assms(1) by (simp add: file_blocks_def)
  have absent: "map_of (by_key a) k = None"
    using assms(4) by (simp add: map_of_eq_None_iff)
  then have "calm X ?K tmin k a"
    using assms(2,5) by (auto simp: calm_def)
  moreover have "list_all (\<lambda>(now, s). in_window a tmin now \<and> file_key X s \<in> ?K) es"
    using assms(6) by (force simp: list_all_iff)
  moreover have "set (parts_of a k) = numbered blk {}"
    using absent by (simp add: parts_of_def)
  moreover have "length nums = n"
    using assms(8,9) by (metis card_atLeastAtMost diff_Suc_1 distinct_card)
  moreover have "nums \<noteq> []" using assms(9) n by auto
  ultimately have "results_for X k es a = replicate (n - 1) (Inr None)
      @ [Inr (Some (file_of (map (\<lambda>i. (of_nat i, blk i)) [1..<Suc n])))]"
    using results_for_blocks [OF assms(1) _ assms(3), of ?K tmin es nums "{}"] assms(7-9) by simp
  moreover have "hd (map (\<lambda>i. (of_nat i :: u32, blk i)) [1..<Suc n]) = (1, blk 1)"
    using n by (simp add: upt_conv_Cons del: upt_Suc)
  ultimately show ?thesis
    by (simp add: file_of_def comp_def del: upt_Suc)
qed

subsection \<open>Only complete files\<close>

text \<open>The results of a run together with the segment whose push gave them.\<close>

definition outcomes ::
    "asm_ext \<Rightarrow> (instant \<times> QbtSegment) list \<Rightarrow> QbtFileAssembler \<Rightarrow>
     ((QbtReceiverError + QbtCompletedFile option) \<times> QbtSegment) list" where
  "outcomes X es a = zip (fst (push_all X es a)) (map snd es)"

lemma outcomes_simps [simp]:
  "outcomes X [] a = []"
  "outcomes X ((now, s) # es) a = (fst (push X now s a), s) # outcomes X es (snd (push X now s a))"
  by (auto simp: outcomes_def split: prod.splits)

definition parts_from :: "QbtSegment set \<Rightarrow> QbtFileAssembler \<Rightarrow> bool" where
  "parts_from S a \<longleftrightarrow> (\<forall>k. snd ` set (parts_of a k) \<subseteq> S)"

lemma parts_of_make_room:
  assumes "wf_assembler X a"
  shows "set (parts_of (make_room X now key a) k) \<subseteq> set (parts_of a k)"
proof -
  obtain P where P: "make_room X now key a = a\<lparr>by_key := filter P (by_key a)\<rparr>"
    by (rule make_room_filter)
  have d: "distinct (map fst (by_key a))"
    using assms by (simp add: wf_assembler_def hash_wf_def)
  have "map_of (filter P (by_key a)) k = Some fl \<Longrightarrow> map_of (by_key a) k = Some fl" for fl
    using d by (metis filter_is_subset map_of_SomeD map_of_eq_Some_iff subsetD)
  then show ?thesis
    by (cases "map_of (filter P (by_key a)) k") (simp_all add: P parts_of_def)
qed

lemma parts_of_update:
  "parts_of (a\<lparr>by_key := hash_insert k fl m\<rparr>) k' = (if k' = k then inf_parts fl else parts_of (a\<lparr>by_key := m\<rparr>) k')"
  "parts_of (a\<lparr>by_key := hash_remove k m\<rparr>) k' = (if k' = k then [] else parts_of (a\<lparr>by_key := m\<rparr>) k')"
  "parts_of (a\<lparr>by_key := by_key a\<rparr>) k' = parts_of a k'"
  "parts_of (remember_completed k a) k' = parts_of a k'"
  by (simp_all add: parts_of_def map_of_hash_insert hash_remove_def map_of_filter_key)

lemma push_parts_of:
  assumes wf: "wf_assembler X a"
  shows "set (parts_of (snd (push X now s a)) k) \<subseteq> insert (seg_block_number s, s) (set (parts_of a k))"
proof -
  have room: "set (parts_of (make_room X now (file_key X s) a) k') \<subseteq> set (parts_of a k')" for k'
    by (rule parts_of_make_room [OF wf])
  have ins: "set (btree_insert (seg_block_number s) s (parts_of (make_room X now (file_key X s) a) k'))
      \<subseteq> insert (seg_block_number s, s) (set (parts_of a k'))" for k'
    using room [of k'] by (auto simp: btree.entries_ins [OF parts_of_wf [OF wf_make_room [OF wf]]])
  show ?thesis
    using room [of k] ins [of k] by (cases rule: push_cases [of s X a now]) (auto simp: parts_of_update)
qed

lemma parts_from_push:
  "wf_assembler X a \<Longrightarrow> parts_from S a \<Longrightarrow> s \<in> S \<Longrightarrow> parts_from S (snd (push X now s a))"
  using push_parts_of [of X a now s] unfolding parts_from_def by fastforce

text \<open>A file is complete for the segment that completed it when it consists of the blocks
  \<open>1..total\<close> of the same file, each received before.\<close>

definition complete_file :: "asm_ext \<Rightarrow> QbtSegment set \<Rightarrow> QbtSegment \<Rightarrow> QbtCompletedFile \<Rightarrow> bool" where
  "complete_file X S s f \<longleftrightarrow>
     (\<exists>blk. let n = unat (seg_total_blocks s) in
        (\<forall>i. 1 \<le> i \<and> i \<le> n \<longrightarrow> blk i \<in> S \<and> seg_block_number (blk i) = of_nat i \<and> file_key X (blk i) = file_key X s)
        \<and> f = file_of (map (\<lambda>i. (of_nat i, blk i)) [1..<Suc n]))"

definition same_totals :: "asm_ext \<Rightarrow> QbtSegment set \<Rightarrow> bool" where
  "same_totals X S \<longleftrightarrow>
     (\<forall>s\<in>S. \<forall>s'\<in>S. file_key X s = file_key X s' \<longrightarrow> seg_total_blocks s = seg_total_blocks s')"

lemma full_parts:
  fixes ps :: "(u32 \<times> QbtSegment) list"
  assumes wf: "btree_wf ps" and keys: "fst ` set ps \<subseteq> {b. b \<noteq> 0 \<and> b \<le> t}"
    and len: "of_nat (length ps) = (t :: u32)"
  shows "ps = map (\<lambda>i. (of_nat i, the (map_of ps (of_nat i)))) [1..<Suc (unat t)]"
    and "fst ` set ps = {b. b \<noteq> 0 \<and> b \<le> t}"
proof -
  let ?B = "{b :: u32. b \<noteq> 0 \<and> b \<le> t}"
  have B: "?B = of_nat ` {1..unat t}"
  proof
    show "?B \<subseteq> of_nat ` {1..unat t}"
    proof
      fix b :: u32 assume b: "b \<in> ?B"
      then have "unat b \<in> {1..unat t}" by (simp add: word_le_nat_alt Suc_le_eq unat_gt_0)
      moreover have "b = of_nat (unat b)" by simp
      ultimately show "b \<in> of_nat ` {1..unat t}" by blast
    qed
    show "of_nat ` {1..unat t} \<subseteq> ?B"
    proof (clarsimp, intro conjI)
      fix i assume i: "Suc 0 \<le> i" "i \<le> unat t"
      then have "i < 2 ^ 32" using unsigned_less [of t, where ?'a = nat] by simp
      then have "unat (of_nat i :: u32) = i" by (rule unat_of_nat_u32)
      then show "(of_nat i :: u32) \<noteq> 0" "(of_nat i :: u32) \<le> t"
        using i by (auto simp: word_le_nat_alt)
    qed
  qed
  have "unat t < 2 ^ 32" using unsigned_less [of t, where ?'a = nat] by simp
  then have cB: "card ?B = unat t"
    unfolding B using card_image [OF inj_numbered [of "unat t" "{1..unat t}"]] by simp
  have "length ps = card (fst ` set ps)"
    using btree.length_card [OF wf] by simp
  moreover have fin: "finite ?B" unfolding B by simp
  then have "card (fst ` set ps) \<le> unat t"
    using card_mono [OF fin keys] by (simp only: cB)
  ultimately have "length ps = unat t"
    using len \<open>unat t < 2 ^ 32\<close> unat_of_nat_u32 [of "length ps"] by simp
  then show full: "fst ` set ps = ?B"
    using card_subset_eq [OF fin keys] cB \<open>length ps = card (fst ` set ps)\<close> by simp
  have d: "distinct (map fst ps)" by (rule btree.wf_distinct [OF wf])
  show "ps = map (\<lambda>i. (of_nat i, the (map_of ps (of_nat i)))) [1..<Suc (unat t)]"
  proof (rule btree_numbered_eq [OF wf _ \<open>unat t < 2 ^ 32\<close>])
    have "set ps = (\<lambda>b. (b, the (map_of ps b))) ` (fst ` set ps)"
      using d by (force simp: image_iff)
    then show "set ps = numbered (\<lambda>i. the (map_of ps (of_nat i))) {1..unat t}"
      unfolding full B by (simp add: image_image)
  qed
qed

lemma push_complete_file:
  assumes wf: "wf_assembler X a" and origin: "parts_from S a" and s: "s \<in> S" and totals: "same_totals X S"
    and res: "fst (push X now s a) = Inr (Some f)"
  shows "complete_file X S s f"
proof -
  let ?k = "file_key X s" and ?t = "seg_total_blocks s"
  let ?a1 = "make_room X now ?k a"
  define ps where "ps = btree_insert (seg_block_number s) s (parts_of ?a1 ?k)"
  have active: "\<not> skip_segment s" and len: "of_nat (length ps) = ?t" and f: "f = file_of ps"
    using res by (cases rule: push_cases [of s X a now]; simp add: ps_def)+
  have fl: "wf_inflight X ?k (store_part now ?k s ?a1)"
    by (rule wf_store_part [OF wf_make_room [OF wf] active])
  then have wfp: "btree_wf ps" and part: "\<And>b p. (b, p) \<in> set ps \<Longrightarrow>
      b = seg_block_number p \<and> \<not> skip_segment p \<and> file_key X p = ?k"
    by (auto simp: wf_inflight_def ps_def)
  have inS: "p \<in> S" if "(b, p) \<in> set ps" for b p
  proof -
    have "p = s \<or> (b, p) \<in> set (parts_of ?a1 ?k)"
      using that by (auto simp: ps_def btree.entries_ins [OF parts_of_wf [OF wf_make_room [OF wf]]])
    moreover have "snd ` set (parts_of a ?k) \<subseteq> S" using origin by (simp add: parts_from_def)
    ultimately show ?thesis
      using parts_of_make_room [OF wf, of now ?k ?k] s by (metis image_subset_iff snd_conv subsetD)
  qed
  have "b \<noteq> 0 \<and> b \<le> ?t" if "(b, p) \<in> set ps" for b p
  proof -
    have "seg_total_blocks p = ?t"
      using totals part [OF that] inS [OF that] s unfolding same_totals_def by blast
    then show ?thesis using part [OF that] by (simp add: skip_segment_def not_less)
  qed
  then have keys: "fst ` set ps \<subseteq> {b. b \<noteq> 0 \<and> b \<le> ?t}" by auto
  define blk where "blk i = the (map_of ps (of_nat i))" for i :: nat
  have full: "ps = map (\<lambda>i. (of_nat i, blk i)) [1..<Suc (unat ?t)]"
    using full_parts(1) [OF wfp keys len] by (simp only: blk_def)
  have "blk i \<in> S \<and> seg_block_number (blk i) = of_nat i \<and> file_key X (blk i) = ?k"
    if "1 \<le> i" "i \<le> unat ?t" for i
  proof -
    have "(of_nat i, blk i) \<in> set ps"
      by (subst full) (use that in \<open>auto simp del: upt_Suc\<close>)
    then show ?thesis using part inS by metis
  qed
  then show ?thesis
    unfolding complete_file_def Let_def f using full by (intro exI [of _ blk] conjI) auto
qed

lemma outcomes_complete:
  assumes "wf_assembler X a" and "parts_from S a" and "same_totals X S" and "snd ` set es \<subseteq> S"
    and "(Inr (Some f), s) \<in> set (outcomes X es a)"
  shows "complete_file X S s f"
  using assms
proof (induction es arbitrary: a)
  case (Cons e es)
  obtain now s' where e: "e = (now, s')" by (cases e)
  have a': "wf_assembler X (snd (push X now s' a))" "parts_from S (snd (push X now s' a))"
    using Cons.prems by (auto simp: e wf_push parts_from_push)
  from Cons.prems(5) consider "fst (push X now s' a) = Inr (Some f)" "s = s'"
    | "(Inr (Some f), s) \<in> set (outcomes X es (snd (push X now s' a)))"
    by (auto simp: e)
  then show ?case
  proof cases
    case 1
    then show ?thesis
      using Cons.prems push_complete_file [of X a S s' now f] by (simp add: e)
  next
    case 2
    then show ?thesis using Cons.IH [OF a'] Cons.prems(3,4) by (simp add: e)
  qed
qed simp

subsection \<open>Duplicate suppression\<close>

definition completed_keys :: "asm_ext \<Rightarrow> (instant \<times> QbtSegment) list \<Rightarrow> QbtFileAssembler \<Rightarrow> string list" where
  "completed_keys X es a =
     map (\<lambda>(r, s). file_key X s) (filter (\<lambda>(r, s). r \<noteq> Inr None) (outcomes X es a))"

definition spaced :: "nat \<Rightarrow> 'a list \<Rightarrow> bool" where
  "spaced d xs \<longleftrightarrow> (\<forall>i j. i < j \<and> j < length xs \<and> xs ! i = xs ! j \<longrightarrow> d < j - i)"

lemma spaced_snoc:
  assumes "spaced d xs" and "x \<notin> set (drop (length xs - d) xs)"
  shows "spaced d (xs @ [x])"
proof (unfold spaced_def, intro allI impI, elim conjE)
  fix i j assume ij: "i < j" "j < length (xs @ [x])" "(xs @ [x]) ! i = (xs @ [x]) ! j"
  show "d < j - i"
  proof (cases "j = length xs")
    case True
    show ?thesis
    proof (rule ccontr)
      assume "\<not> d < j - i"
      then have "length xs - d \<le> i" using True by simp
      then have "drop (length xs - d) xs ! (i - (length xs - d)) = x"
        using ij True by (simp add: nth_append)
      then have "x \<in> set (drop (length xs - d) xs)"
        using ij True \<open>length xs - d \<le> i\<close> by (metis diff_less_mono length_drop nth_mem diff_le_self order.trans length_append_singleton less_SucE le_neq_implies_less less_irrefl)
      with assms(2) show False ..
    qed
  next
    case False
    then show ?thesis using ij assms(1) by (auto simp: spaced_def nth_append)
  qed
qed

lemma remember_completed_recent:
  "k \<notin> completed_index a \<Longrightarrow> completed_recent (remember_completed k a) =
     (let r = completed_recent a @ [k] in drop (length r - duplicate_cache_size a) r)"
  by (simp add: remember_completed_def trim_completed_eq Let_def)

lemma push_completion:
  assumes "wf_assembler X a"
  shows "fst (push X now s a) = Inr None \<and> completed_recent (snd (push X now s a)) = completed_recent a
    \<or> fst (push X now s a) \<noteq> Inr None \<and> file_key X s \<notin> set (completed_recent a)
      \<and> completed_recent (snd (push X now s a)) =
         (let r = completed_recent a @ [file_key X s] in drop (length r - duplicate_cache_size a) r)"
  using assms
  by (cases rule: push_cases [of s X a now]) (auto simp: remember_completed_recent wf_assembler_def)

lemma drop_window:
  "(let r = drop (length h - d) h @ [x] in drop (length r - d) r) = drop (length (h @ [x]) - d) (h @ [x])"
proof (cases "length h < d")
  case False
  then obtain n where n: "length h = d + n" by (metis le_Suc_ex not_less)
  then show ?thesis by (simp add: Let_def)
qed (simp add: Let_def)

lemma completed_keys_spaced:
  assumes "wf_assembler X a" and "spaced (duplicate_cache_size a) hist"
    and "completed_recent a = drop (length hist - duplicate_cache_size a) hist"
  shows "spaced (duplicate_cache_size a) (hist @ completed_keys X es a)"
  using assms
proof (induction es arbitrary: a hist)
  case (Cons e es)
  obtain now s where e: "e = (now, s)" by (cases e)
  let ?a' = "snd (push X now s a)" and ?d = "duplicate_cache_size a"
  have wf': "wf_assembler X ?a'" using Cons.prems(1) by (rule wf_push)
  from push_completion [OF Cons.prems(1), of now s] show ?case
  proof (elim disjE conjE)
    assume "fst (push X now s a) = Inr None" "completed_recent ?a' = completed_recent a"
    then show ?thesis
      using Cons.IH [OF wf', of hist] Cons.prems by (simp add: e completed_keys_def)
  next
    assume r: "fst (push X now s a) \<noteq> Inr None" and new: "file_key X s \<notin> set (completed_recent a)"
      and rec: "completed_recent ?a' = (let r = completed_recent a @ [file_key X s] in drop (length r - ?d) r)"
    have "spaced ?d (hist @ [file_key X s])"
      using new Cons.prems(2,3) by (intro spaced_snoc) auto
    moreover have "completed_recent ?a' = drop (length (hist @ [file_key X s]) - ?d) (hist @ [file_key X s])"
      by (simp only: rec Cons.prems(3) drop_window)
    ultimately show ?thesis
      using Cons.IH [OF wf', of "hist @ [file_key X s]"] r by (simp add: e completed_keys_def)
  qed
qed (simp add: completed_keys_def)

subsection \<open>Properties\<close>

text \<open>
  C5: A file that is neither in flight nor among the recently completed ones and whose blocks are
  each pushed once is emitted exactly when its last block arrives, in whatever order they arrive and
  with blocks of other files between them, provided that all pushes fall into one TTL window and that
  the files in flight together with all files pushed are at most \<open>max_inflight_files\<close>, so that nothing
  is evicted: the pushes before return nothing, and the file has the name and timestamp of block 1 and
  the contents of blocks 1 to n in order.
\<close>

theorem assembler_completes_in_any_order:
  assumes "file_blocks X k n blk"
    and "wf_assembler X a" and "k \<notin> completed_index a" and "k \<notin> fst ` set (by_key a)"
    and "card (insert k (fst ` set (by_key a) \<union> file_key X ` snd ` set es)) \<le> max_inflight_files a"
    and "list_all (\<lambda>(now, s). in_window a tmin now) es"
    and "filter (\<lambda>s. file_key X s = k) (map snd es) = map blk nums"
    and "distinct nums" and "set nums = {1..n}"
  shows "results_for X k es a = replicate (n - 1) (Inr None)
    @ [Inr (Some \<lparr>file_filename = seg_filename (blk 1),
                  file_data = concat (map (\<lambda>i. seg_content (blk i)) [1..<Suc n]),
                  file_timestamp_utc = seg_timestamp_utc (blk 1)\<rparr>)]"
  using assms by (rule results_for_file)

definition sample_block :: "nat \<Rightarrow> u32 \<Rightarrow> QbtSegment" where
  "sample_block i t =
     \<lparr>seg_filename = ''A.ZIS'', seg_block_number = of_nat i, seg_total_blocks = t,
      seg_content = [of_nat i, 255], seg_checksum = 0, seg_length = 2, seg_version = V2,
      seg_timestamp_utc = 0, seg_source = None\<rparr>"

definition sample_asm_ext :: asm_ext where
  "sample_asm_ext = \<lparr>hash_rank = (\<lambda>_ k. length k), unicode_lowercase = id\<rparr>"

lemma sample_block_key:
  "file_key sample_asm_ext (sample_block i t) = ''a.zis_0.000000000''"
proof -
  have "replicate 8 (CHR ''0'') = ''00000000''" by (simp add: numeral_eq_Suc)
  then show ?thesis
    by (simp add: file_key_def sample_block_def to_lowercase_def to_ascii_lowercase_def ascii_lower_def
      is_ascii_uppercase_def show_nat.simps pad_left_def char_of_def bit_0)
qed

lemma assembler_new_simps [simp]:
  "by_key (assembler_new c) = []" "completed_index (assembler_new c) = {}"
  "max_inflight_files (assembler_new c) = 256" "inflight_ttl (assembler_new c) = 90000000000"
  by (simp_all add: assembler_new_def with_limits_def DEFAULT_MAX_INFLIGHT_FILES_def
    DEFAULT_INFLIGHT_TTL_SECS_def from_secs_def from_millis_def)

theorem assembler_completes_in_any_order_witness:
  "results_for sample_asm_ext ''a.zis_0.000000000''
     [(5, sample_block 3 3), (9, sample_block 1 3), (7, sample_block 2 3)] (assembler_new 8) =
   [Inr None, Inr None,
    Inr (Some \<lparr>file_filename = ''A.ZIS'', file_data = [1, 255, 2, 255, 3, 255],
      file_timestamp_utc = 0\<rparr>)]"
proof -
  have blocks: "file_blocks sample_asm_ext ''a.zis_0.000000000'' 3 (\<lambda>i. sample_block i 3)"
    by (auto simp: file_blocks_def list_all_iff sample_block_key)
      (simp_all add: sample_block_def eq_ignore_ascii_case_def to_ascii_lowercase_def ascii_lower_def)
  let ?es = "[(5, sample_block 3 3), (9, sample_block 1 3), (7, sample_block 2 3)]"
  have "results_for sample_asm_ext ''a.zis_0.000000000'' ?es (assembler_new 8) =
      replicate (3 - 1) (Inr None)
      @ [Inr (Some \<lparr>file_filename = seg_filename (sample_block 1 3),
           file_data = concat (map (\<lambda>i. seg_content (sample_block i 3)) [1..<Suc 3]),
           file_timestamp_utc = seg_timestamp_utc (sample_block 1 3)\<rparr>)]"
  proof (rule assembler_completes_in_any_order [OF blocks wf_assembler_new, where tmin = 0 and nums = "[3, 1, 2]"])
    show "set [3, 1, 2] = {1..3 :: nat}" by auto
  qed (simp_all add: sample_block_key in_window_def)
  then show ?thesis
    by (simp add: numeral_2_eq_2 sample_block_def upt_rec)
qed

text \<open>
  C6: From a new assembler, provided that all pushed segments of one file agree on its number of
  blocks (\<open>same_totals\<close>), every emitted file consists of the blocks \<open>1..total\<close> of that file, all of
  them pushed before, in order. Without that condition the assembler may complete a file early
  (\<open>changed_total_completes_early\<close>).
\<close>

theorem assembler_emits_only_complete_files:
  assumes "same_totals X (snd ` set es)"
    and "(Inr (Some f), s) \<in> set (outcomes X es (with_limits cache limit ttl))"
  shows "complete_file X (snd ` set es) s f"
proof (rule outcomes_complete [OF wf_with_limits _ assms(1) subset_refl assms(2)])
  show "parts_from (snd ` set es) (with_limits cache limit ttl)"
    by (simp add: parts_from_def parts_of_def with_limits_def)
qed

lemma sample_block_active: "i \<noteq> 0 \<Longrightarrow> i \<le> 3 \<Longrightarrow> of_nat i \<le> t \<Longrightarrow> \<not> skip_segment (sample_block i t)"
  using of_nat_u32_eq [of i 0]
  by (auto simp: skip_segment_def sample_block_def eq_ignore_ascii_case_def
      to_ascii_lowercase_def ascii_lower_def not_less)

lemmas sample_push = push_def sample_block_key make_room_def evict_stale_inflight_def
  evict_overflow_inflight_def evict_oldest_below store_part_def with_limits_def Let_def

theorem assembler_emits_only_complete_files_witness:
  "complete_file sample_asm_ext {sample_block 2 2, sample_block 1 2} (sample_block 1 2)
     \<lparr>file_filename = ''A.ZIS'', file_data = [1, 255, 2, 255], file_timestamp_utc = 0\<rparr>"
proof -
  let ?es = "[(0 :: instant, sample_block 2 2), (0, sample_block 1 2)]"
  have active: "\<not> skip_segment (sample_block 2 2)" "\<not> skip_segment (sample_block 1 2)"
    using sample_block_active [of 2 2] sample_block_active [of 1 2] by auto
  have "same_totals sample_asm_ext (snd ` set ?es)"
    by (auto simp: same_totals_def sample_block_def)
  moreover have "fst (push_all sample_asm_ext ?es (with_limits 8 4 90)) = [Inr None,
      Inr (Some \<lparr>file_filename = ''A.ZIS'', file_data = [1, 255, 2, 255], file_timestamp_utc = 0\<rparr>)]"
    using active by (simp add: sample_push) (simp add: sample_block_def)
  ultimately have "complete_file sample_asm_ext (snd ` set ?es) (sample_block 1 2)
      \<lparr>file_filename = ''A.ZIS'', file_data = [1, 255, 2, 255], file_timestamp_utc = 0\<rparr>"
    by (intro assembler_emits_only_complete_files [where cache = 8 and limit = 4 and ttl = 90])
      (simp_all add: outcomes_def del: push_all.simps)
  then show ?thesis by simp
qed

text \<open>
  C7: In any run of a new assembler, between two completions of the same file there are at
  least \<open>duplicate_cache_size\<close> completions of other files.
\<close>

theorem assembler_suppresses_duplicates:
  "spaced (max cache 1) (completed_keys X es (with_limits cache limit ttl))"
proof -
  have "duplicate_cache_size (with_limits cache limit ttl) = max cache 1"
    by (simp add: with_limits_def)
  then show ?thesis
    using completed_keys_spaced [OF wf_with_limits, of cache limit ttl "[]" X es]
    by (simp add: spaced_def) (simp add: with_limits_def)
qed

text \<open>
  C8: Whatever is pushed, the assembler holds at most \<open>max_inflight_files\<close> incomplete files
  and remembers at most \<open>duplicate_cache_size\<close> completed ones.
\<close>

theorem assembler_state_bounded:
  "let a = snd (push_all X es (with_limits cache limit ttl)) in
     length (by_key a) \<le> max limit 1 \<and> length (completed_recent a) \<le> max cache 1
     \<and> completed_index a = set (completed_recent a)"
proof -
  let ?a = "snd (push_all X es (with_limits cache limit ttl))"
  have "max_inflight_files (snd (push_all X es a)) = max_inflight_files a
      \<and> duplicate_cache_size (snd (push_all X es a)) = duplicate_cache_size a" for a
    by (induction X es a rule: push_all.induct)
      (auto simp: Let_def split: prod.splits, (metis push_limits snd_conv)+)
  moreover have "wf_assembler X ?a" by (rule wf_push_all [OF wf_with_limits])
  ultimately show ?thesis
    by (simp add: wf_assembler_def Let_def) (simp add: with_limits_def)
qed

text \<open>
  When segments of one file disagree on its number of blocks, an incomplete file is
  emitted: block 3 of 3 followed by block 1 of 2 completes a file of blocks 1 and 3.
\<close>

theorem changed_total_completes_early:
  "fst (push_all sample_asm_ext [(0, sample_block 3 3), (0, sample_block 1 2)] (assembler_new 8)) =
     [Inr None,
      Inr (Some \<lparr>file_filename = ''A.ZIS'', file_data = [1, 255, 3, 255], file_timestamp_utc = 0\<rparr>)]"
proof -
  have "\<not> skip_segment (sample_block 3 3)" "\<not> skip_segment (sample_block 1 2)"
    using sample_block_active [of 3 3] sample_block_active [of 1 2] by auto
  then show ?thesis
    by (simp add: sample_push assembler_new_def DEFAULT_MAX_INFLIGHT_FILES_def)
      (simp add: sample_block_def)
qed

end
