(* ===== verification/Connection_Policy.thy ===== *)
theory Connection_Policy
  imports Assembler
begin

text \<open>
  The connection policy of the receiver: endpoint rotation and bounded backoff
  (\<open>client/reconnect.rs\<close>) and the watchdog (\<open>client/watchdog.rs\<close>). Times are the
  nanosecond counts of \<open>Assembler\<close>; \<open>Instant::now()\<close> is an argument. The watchdog's atomic
  counter wraps, as \<open>fetch_add\<close> does. An index out of range panics, which the datatype
  \<open>outcome\<close> makes a value.

  The lemmas show that rotation never panics and visits the endpoints in order for ever, the
  arithmetic of the backoff, and what the watchdog decides after any history of signals.
\<close>

datatype 'a outcome = Panicked | Done 'a

subsection \<open>client/reconnect.rs\<close>

record EndpointRotator =
  rot_endpoints :: "endpoint list"
  rot_index :: usize

definition rotator_new :: "endpoint list \<Rightarrow> EndpointRotator" where
  "rotator_new eps = \<lparr>rot_endpoints = eps, rot_index = 0\<rparr>"

definition rotator_reset :: "EndpointRotator \<Rightarrow> EndpointRotator" where
  "rotator_reset r = r\<lparr>rot_index := 0\<rparr>"

definition rotator_next :: "EndpointRotator \<Rightarrow> (endpoint option \<times> EndpointRotator) outcome" where
  "rotator_next r =
     (if rot_endpoints r = [] then Done (None, r)
      else if rot_index r \<ge> length (rot_endpoints r) then Panicked
      else
        let out = rot_endpoints r ! rot_index r
        in Done (Some out, r\<lparr>rot_index := (rot_index r + 1) mod length (rot_endpoints r)\<rparr>))"

definition next_backoff_secs :: "u64 \<Rightarrow> u32 \<Rightarrow> u64" where
  "next_backoff_secs base failures =
     (let capped = min failures 6;
          factor = push_bit (unat capped) (1 :: u64)
      in min (sat_mul (max base 1) factor) 60)"

subsection \<open>client/watchdog.rs\<close>

record Watchdog =
  wd_timeout :: duration
  wd_max_exceptions :: u32
  wd_exception_count :: u32
  wd_last_data :: instant

definition watchdog_new :: "u64 \<Rightarrow> u32 \<Rightarrow> instant \<Rightarrow> Watchdog" where
  "watchdog_new timeout_secs max_exceptions now =
     \<lparr>wd_timeout = from_secs (unat (max timeout_secs 1)), wd_max_exceptions = max_exceptions,
      wd_exception_count = 0, wd_last_data = now\<rparr>"

definition should_close_at :: "Watchdog \<Rightarrow> instant \<Rightarrow> bool" where
  "should_close_at w now =
     (if wd_exception_count w > wd_max_exceptions w then True
      else now - wd_last_data w > wd_timeout w)"

definition on_data_received :: "instant \<Rightarrow> Watchdog \<Rightarrow> Watchdog" where
  "on_data_received now w = w\<lparr>wd_exception_count := 0, wd_last_data := now\<rparr>"

definition on_exception :: "Watchdog \<Rightarrow> Watchdog" where
  "on_exception w = w\<lparr>wd_exception_count := wd_exception_count w + 1\<rparr>"

subsection \<open>Rotation\<close>

text \<open>The results of \<open>n\<close> calls of \<open>next\<close>.\<close>

fun take_endpoints :: "nat \<Rightarrow> EndpointRotator \<Rightarrow> endpoint option list outcome" where
  "take_endpoints 0 r = Done []"
| "take_endpoints (Suc n) r =
     (case rotator_next r of
        Panicked \<Rightarrow> Panicked
      | Done (e, r') \<Rightarrow>
          (case take_endpoints n r' of Panicked \<Rightarrow> Panicked | Done es \<Rightarrow> Done (e # es)))"

lemma take_endpoints_from:
  assumes "rot_index r < length (rot_endpoints r)"
  shows "take_endpoints n r =
    Done (map (\<lambda>i. Some (rot_endpoints r ! ((rot_index r + i) mod length (rot_endpoints r)))) [0..<n])"
  using assms
proof (induction n arbitrary: r)
  case (Suc n)
  let ?eps = "rot_endpoints r" and ?i = "rot_index r"
  let ?r' = "r\<lparr>rot_index := (?i + 1) mod length ?eps\<rparr>"
  have ne: "?eps \<noteq> []" using Suc.prems by auto
  then have "take_endpoints n ?r' =
      Done (map (\<lambda>i. Some (?eps ! ((?i + Suc i) mod length ?eps))) [0..<n])"
    using Suc.IH [of ?r'] by (simp add: mod_simps)
  moreover have "[0..<Suc n] = 0 # map Suc [0..<n]"
    by (simp add: map_Suc_upt upt_conv_Cons del: upt_Suc)
  ultimately show ?case
    using Suc.prems ne by (simp add: rotator_next_def comp_def not_le del: upt_Suc)
qed simp

text \<open>
  Rotation never panics: on a non-empty list the calls of \<open>next\<close> return the endpoints in
  order, over and over.
\<close>

theorem rotator_cycles:
  "take_endpoints n (rotator_new eps) =
     Done (if eps = [] then replicate n None
           else map (\<lambda>i. Some (eps ! (i mod length eps))) [0..<n])"
proof (cases "eps = []")
  case True
  have "take_endpoints n (rotator_new []) = Done (replicate n None)"
    by (induction n) (simp_all add: rotator_next_def rotator_new_def)
  with True show ?thesis by simp
next
  case False
  then show ?thesis
    using take_endpoints_from [of "rotator_new eps" n] by (simp add: rotator_new_def)
qed

subsection \<open>Backoff\<close>

lemma unat_push_bit_one: "k < 64 \<Longrightarrow> unat (push_bit k (1 :: u64)) = 2 ^ k"
proof -
  assume k: "k < 64"
  have "push_bit k (1 :: u64) = of_nat (2 ^ k)" by (simp add: push_bit_eq_mult)
  then show ?thesis
    using k by (simp only: unsigned_of_nat) (simp add: take_bit_nat_eq_self)
qed

lemma unat_min_word: "unat (min a b) = min (unat a) (unat b)" for a b :: "'a::len word"
  by (simp add: min_def word_le_nat_alt)

lemma unat_max_word: "unat (max a b) = max (unat a) (unat b)" for a b :: "'a::len word"
  by (simp add: max_def word_le_nat_alt)

text \<open>
  The reconnect delay is \<open>max base 1\<close> doubled once per failure, at most six times, and
  never more than 60 seconds; a product beyond 64 bits saturates before the cap applies.
\<close>

theorem next_backoff_secs_value:
  "unat (next_backoff_secs base failures) =
     min 60 (max 1 (unat base) * 2 ^ min 6 (unat failures))"
proof -
  have "unat (push_bit (unat (min failures 6)) (1 :: u64)) = 2 ^ min 6 (unat failures)"
    by (subst unat_push_bit_one) (simp_all add: unat_min_word min.commute)
  then show ?thesis
    by (simp add: next_backoff_secs_def Let_def unat_min_word unat_max_word unat_sat_mul
      max.commute min.commute) (simp add: min_def)
qed

subsection \<open>Watchdog\<close>

datatype health_signal = DataAt instant | ExceptionSignal

fun observe :: "health_signal \<Rightarrow> Watchdog \<Rightarrow> Watchdog" where
  "observe (DataAt now) w = on_data_received now w"
| "observe ExceptionSignal w = on_exception w"

text \<open>What a history of signals amounts to: the exceptions since the last data, and its time.\<close>

fun streak :: "health_signal list \<Rightarrow> nat \<times> instant \<Rightarrow> nat \<times> instant" where
  "streak [] (n, t) = (n, t)"
| "streak (DataAt now # sigs) (n, t) = streak sigs (0, now)"
| "streak (ExceptionSignal # sigs) (n, t) = streak sigs (Suc n, t)"

lemma observe_streak:
  assumes "wd_exception_count w = of_nat n" and "wd_last_data w = t" and "n + length sigs < 2 ^ 32"
    and "streak sigs (n, t) = (n', t')"
  shows "fold observe sigs w = w\<lparr>wd_exception_count := of_nat n', wd_last_data := t'\<rparr> \<and> n' < 2 ^ 32"
  using assms
proof (induction sigs arbitrary: w n t)
  case Nil
  then show ?case by simp
next
  case (Cons sig sigs)
  show ?case
  proof (cases sig)
    case (DataAt now)
    with Cons.prems Cons.IH [of "on_data_received now w" 0 now] show ?thesis
      by (simp add: on_data_received_def)
  next
    case ExceptionSignal
    with Cons.prems Cons.IH [of "on_exception w" "Suc n" t] show ?thesis
      by (simp add: on_exception_def add.commute)
  qed
qed

text \<open>
  After any history of fewer than \<open>2 ^ 32\<close> health signals, the watchdog asks to close
  exactly when the exceptions since the last received data exceed the configured maximum, or
  more than the timeout (at least one second) has passed since then.
\<close>

theorem watchdog_decides_on_streak:
  assumes "length sigs < 2 ^ 32" and "streak sigs (0, start) = (n, seen)"
  shows "should_close_at (fold observe sigs (watchdog_new timeout_secs max_exceptions start)) now
    \<longleftrightarrow> unat max_exceptions < n \<or> max 1 (unat timeout_secs) * 1000000000 < now - seen"
proof -
  let ?w = "watchdog_new timeout_secs max_exceptions start"
  have "fold observe sigs ?w = ?w\<lparr>wd_exception_count := of_nat n, wd_last_data := seen\<rparr> \<and> n < 2 ^ 32"
    using assms by (intro observe_streak) (simp_all add: watchdog_new_def)
  moreover from this have "unat (of_nat n :: u32) = n"
    by (simp add: unsigned_of_nat take_bit_nat_eq_self)
  ultimately show ?thesis
    by (auto simp: should_close_at_def watchdog_new_def word_less_nat_alt unat_max_word from_secs_def
      max.commute)
qed

theorem watchdog_decides_on_streak_witness:
  "should_close_at (fold observe [ExceptionSignal, DataAt 7, ExceptionSignal, ExceptionSignal]
     (watchdog_new 20 1 3)) 9
   \<longleftrightarrow> unat (1 :: u32) < 2 \<or> max 1 (unat (20 :: u64)) * 1000000000 < 9 - (7 :: nat)"
  by (rule watchdog_decides_on_streak) simp_all

end
