(* ===== verification/Server_List_Manager.thy ===== *)
theory Server_List_Manager
  imports Connection_Policy
    "HOL-Library.Multiset" "HOL-Library.Char_ord" "HOL-Library.List_Lexorder" "HOL-Library.Product_Lexorder"
begin

text \<open>
  The server-list manager of the receiver (\<open>client/server_list_manager.rs\<close>): the current
  list, two rotating queues of available endpoints in shuffled order, and persistence.
  Endpoints are ordered as Rust orders \<open>(String, u16)\<close>: bytewise, then by port.

  The record \<open>slm_ext\<close> holds what is outside the crate: JSON encoding (\<open>serde_json\<close>), path
  syntax, the faults of file operations and what a failed write leaves behind. The disk is a map from paths to contents that
  the operations return updated. The value of \<open>entropy_seed()\<close>, which hashes the clock and
  the process id with a random key, is an argument of each call.
\<close>

subsection \<open>State\<close>

record PersistedServerList =
  per_servers :: "endpoint list"
  per_sat_servers :: "endpoint list"
  per_version :: string

datatype file_op = ReadOp string | CreateDirOp string | WriteOp string | RenameOp string string

type_synonym disk = "string \<rightharpoonup> byte list"

record slm_ext =
  json_from_slice :: "byte list \<Rightarrow> string + PersistedServerList"
  json_to_vec_pretty :: "PersistedServerList \<Rightarrow> string + byte list"
  io_fault :: "file_op \<Rightarrow> string option"
  partial_write :: "byte list \<Rightarrow> byte list option"
  path_parent :: "string \<Rightarrow> string option"
  path_with_extension :: "string \<Rightarrow> string \<Rightarrow> string"

record ServerListManager =
  slm_path :: "string option"
  slm_current :: QbtServerList
  primary_available :: "endpoint list"
  satellite_available :: "endpoint list"
  shuffle_nonce :: u64

subsection \<open>Shuffling\<close>

definition sort_dedup_endpoints :: "endpoint list \<Rightarrow> endpoint list" where
  "sort_dedup_endpoints eps = remdups_adj (sort eps)"

definition xorshift :: "u64 \<Rightarrow> u64" where
  "xorshift s =
     (let s = s XOR push_bit 13 s;
          s = s XOR drop_bit 7 s
      in s XOR push_bit 17 s)"

definition swap_list :: "nat \<Rightarrow> nat \<Rightarrow> 'a list \<Rightarrow> 'a list" where
  "swap_list i j xs = xs[i := xs ! j, j := xs ! i]"

text \<open>The loop over \<open>(1..len).rev()\<close>: \<open>idx\<close> counts down to 1.\<close>

fun shuffle_loop :: "nat \<Rightarrow> u64 \<Rightarrow> 'a list \<Rightarrow> 'a list" where
  "shuffle_loop 0 state xs = xs"
| "shuffle_loop (Suc n) state xs =
     (let idx = Suc n;
          state' = xorshift state;
          swap_idx = unat state' mod (idx + 1)
      in shuffle_loop n state' (swap_list idx swap_idx xs))"

definition shuffle_endpoints :: "u64 \<Rightarrow> endpoint list \<Rightarrow> u64 \<times> endpoint list" where
  "shuffle_endpoints nonce eps =
     (if length eps < 2 then (nonce, eps)
      else
        let nonce' = nonce + 0x9E3779B97F4A7C15;
            state = nonce' XOR of_nat (length eps)
        in (nonce', shuffle_loop (length eps - 1) state eps))"

subsection \<open>Operations\<close>

definition rebuild_available :: "u64 \<Rightarrow> ServerListManager \<Rightarrow> ServerListManager" where
  "rebuild_available entropy m =
     (let primary = sort_dedup_endpoints (servers (slm_current m));
          satellite = sort_dedup_endpoints (sat_servers (slm_current m));
          nonce = shuffle_nonce m XOR entropy;
          (nonce1, primary') = shuffle_endpoints nonce primary;
          (nonce2, satellite') = shuffle_endpoints nonce1 satellite
      in m\<lparr>shuffle_nonce := nonce2, primary_available := primary', satellite_available := satellite'\<rparr>)"

definition slm_new :: "u64 \<Rightarrow> u64 \<Rightarrow> string option \<Rightarrow> endpoint list \<Rightarrow> ServerListManager" where
  "slm_new entropy1 entropy2 path default_servers =
     rebuild_available entropy2
       \<lparr>slm_path = path, slm_current = \<lparr>servers = default_servers, sat_servers = []\<rparr>,
        primary_available = [], satellite_available = [], shuffle_nonce = entropy1\<rparr>"

definition slm_load ::
    "slm_ext \<Rightarrow> u64 \<Rightarrow> disk \<Rightarrow> ServerListManager \<Rightarrow> (QbtReceiverError + unit) \<times> ServerListManager" where
  "slm_load X entropy dsk m =
     (case slm_path m of
        None \<Rightarrow> (Inr (), m)
      | Some path \<Rightarrow>
          (case dsk path of
             None \<Rightarrow> (Inr (), m)
           | Some bytes \<Rightarrow>
               (case io_fault X (ReadOp path) of
                  Some e \<Rightarrow> (Inl (Io e), m)
                | None \<Rightarrow>
                    (case json_from_slice X bytes of
                       Inl e \<Rightarrow> (Inl (Lifecycle e), m)
                     | Inr persisted \<Rightarrow>
                         if per_servers persisted \<noteq> [] \<or> per_sat_servers persisted \<noteq> []
                         then (Inr (), rebuild_available entropy
                                 (m\<lparr>slm_current := \<lparr>servers = per_servers persisted,
                                                    sat_servers = per_sat_servers persisted\<rparr>\<rparr>))
                         else (Inr (), m)))))"

definition create_parent :: "slm_ext \<Rightarrow> string \<Rightarrow> string option" where
  "create_parent X path =
     (case path_parent X path of None \<Rightarrow> None | Some parent \<Rightarrow> io_fault X (CreateDirOp parent))"

definition save_atomic ::
    "slm_ext \<Rightarrow> string \<Rightarrow> QbtServerList \<Rightarrow> disk \<Rightarrow> (QbtReceiverError + unit) \<times> disk" where
  "save_atomic X path sl dsk =
     (let persisted = \<lparr>per_servers = servers sl, per_sat_servers = sat_servers sl, per_version = ''1.0''\<rparr> in
      case json_to_vec_pretty X persisted of
        Inl e \<Rightarrow> (Inl (Lifecycle (''failed to serialize server list: '' @ e)), dsk)
      | Inr data \<Rightarrow>
          (case create_parent X path of
             Some e \<Rightarrow> (Inl (Io e), dsk)
           | None \<Rightarrow>
               (let tmp = path_with_extension X path ''json.tmp'' in
                case io_fault X (WriteOp tmp) of
                  Some e \<Rightarrow> (Inl (Io e), dsk(tmp := partial_write X data))
                | None \<Rightarrow>
                    (let dsk1 = dsk(tmp \<mapsto> data) in
                     case io_fault X (RenameOp tmp path) of
                       Some e \<Rightarrow> (Inl (Io e), dsk1)
                     | None \<Rightarrow> (Inr (), (dsk1(tmp := None))(path \<mapsto> data))))))"

definition slm_save ::
    "slm_ext \<Rightarrow> disk \<Rightarrow> ServerListManager \<Rightarrow> (QbtReceiverError + unit) \<times> disk" where
  "slm_save X dsk m =
     (case slm_path m of
        None \<Rightarrow> (Inr (), dsk)
      | Some path \<Rightarrow> save_atomic X path (slm_current m) dsk)"

definition apply_server_list ::
    "slm_ext \<Rightarrow> u64 \<Rightarrow> QbtServerList \<Rightarrow> disk \<times> ServerListManager \<Rightarrow>
     (QbtReceiverError + unit) \<times> disk \<times> ServerListManager" where
  "apply_server_list X entropy sl s =
     (let (dsk, m) = s in
      if servers sl = [] \<and> sat_servers sl = []
      then (Inl (Lifecycle ''server list update contained no valid endpoints''), dsk, m)
      else
        let m' = rebuild_available entropy (m\<lparr>slm_current := sl\<rparr>);
            (r, dsk') = slm_save X dsk m'
        in (r, dsk', m'))"

definition next_endpoint :: "ServerListManager \<Rightarrow> endpoint option \<times> ServerListManager" where
  "next_endpoint m =
     (case primary_available m of
        ep # rest \<Rightarrow> (Some ep, m\<lparr>primary_available := rest @ [ep]\<rparr>)
      | [] \<Rightarrow>
          (case satellite_available m of
             [] \<Rightarrow> (None, m)
           | ep # rest \<Rightarrow> (Some ep, m\<lparr>satellite_available := rest @ [ep]\<rparr>)))"

definition mark_bad_endpoint :: "endpoint \<Rightarrow> ServerListManager \<Rightarrow> ServerListManager" where
  "mark_bad_endpoint ep m =
     m\<lparr>primary_available := filter (\<lambda>c. c \<noteq> ep) (primary_available m),
       satellite_available := filter (\<lambda>c. c \<noteq> ep) (satellite_available m)\<rparr>"

subsection \<open>Lemmas\<close>

lemma mset_swap_list: "i < length xs \<Longrightarrow> j < length xs \<Longrightarrow> mset (swap_list i j xs) = mset xs"
  by (simp add: swap_list_def mset_swap)

lemma length_swap_list [simp]: "length (swap_list i j xs) = length xs"
  by (simp add: swap_list_def)

lemma mset_shuffle_loop: "n < length xs \<Longrightarrow> mset (shuffle_loop n state xs) = mset xs"
proof (induction n arbitrary: state xs)
  case (Suc n)
  have "unat (xorshift state) mod (Suc n + 1) < length xs"
    using Suc.prems by (metis Suc_eq_plus1 Suc_leI mod_less_divisor order_less_le_trans zero_less_Suc)
  then show ?case
    using Suc by (simp add: Let_def mset_swap_list)
qed simp

lemma mset_shuffle_endpoints: "mset (snd (shuffle_endpoints nonce eps)) = mset eps"
  by (auto simp: shuffle_endpoints_def Let_def intro!: mset_shuffle_loop)

lemma sorted_remdups_adj_distinct: "sorted (xs :: 'a::linorder list) \<Longrightarrow> distinct (remdups_adj xs)"
  by (induction xs rule: remdups_adj.induct) (auto simp: antisym)

lemma sort_dedup_endpoints_spec:
  "set (sort_dedup_endpoints eps) = set eps" "distinct (sort_dedup_endpoints eps)"
proof -
  show "set (sort_dedup_endpoints eps) = set eps"
    by (simp add: sort_dedup_endpoints_def)
  show "distinct (sort_dedup_endpoints eps)"
    by (simp add: sort_dedup_endpoints_def sorted_remdups_adj_distinct)
qed

lemma mset_sort_dedup: "mset (sort_dedup_endpoints eps) = mset_set (set eps)"
  by (metis mset_set_set sort_dedup_endpoints_spec)

lemma rebuild_available_permutes:
  "mset (primary_available (rebuild_available e m)) = mset_set (set (servers (slm_current m)))"
  "mset (satellite_available (rebuild_available e m)) = mset_set (set (sat_servers (slm_current m)))"
proof -
  let ?p = "shuffle_endpoints (shuffle_nonce m XOR e) (sort_dedup_endpoints (servers (slm_current m)))"
  have "primary_available (rebuild_available e m) = snd ?p"
    "satellite_available (rebuild_available e m) =
       snd (shuffle_endpoints (fst ?p) (sort_dedup_endpoints (sat_servers (slm_current m))))"
    by (simp_all add: rebuild_available_def Let_def split: prod.splits)
  then show "mset (primary_available (rebuild_available e m)) = mset_set (set (servers (slm_current m)))"
    "mset (satellite_available (rebuild_available e m)) = mset_set (set (sat_servers (slm_current m)))"
    by (simp_all add: mset_shuffle_endpoints mset_sort_dedup)
qed

text \<open>\<open>n\<close> requests for an endpoint.\<close>

fun serve :: "nat \<Rightarrow> ServerListManager \<Rightarrow> endpoint option list \<times> ServerListManager" where
  "serve 0 m = ([], m)"
| "serve (Suc n) m = (let (e, m1) = next_endpoint m; (es, m2) = serve n m1 in (e # es, m2))"

lemma serve_primary:
  "primary_available m = xs @ ys \<Longrightarrow>
     serve (length xs) m = (map Some xs, m\<lparr>primary_available := ys @ xs\<rparr>)"
proof (induction xs arbitrary: m ys)
  case (Cons x xs)
  let ?m1 = "m\<lparr>primary_available := xs @ ys @ [x]\<rparr>"
  have "serve (length xs) ?m1 = (map Some xs, ?m1\<lparr>primary_available := (ys @ [x]) @ xs\<rparr>)"
    by (rule Cons.IH) simp
  with Cons.prems show ?case by (simp add: next_endpoint_def)
qed simp

lemma mark_bad_all: "set (primary_available (fold mark_bad_endpoint bad m)) = set (primary_available m) - set bad
  \<and> set (satellite_available (fold mark_bad_endpoint bad m)) = set (satellite_available m) - set bad"
  by (induction bad arbitrary: m) (auto simp: mark_bad_endpoint_def)

lemma next_endpoint_None_iff:
  "fst (next_endpoint m) = None \<longleftrightarrow> primary_available m = [] \<and> satellite_available m = []"
  by (auto simp: next_endpoint_def split: list.splits)

subsection \<open>Properties\<close>

text \<open>
  One round of requests to a new manager returns every distinct configured server exactly
  once, in an order that depends on the entropy only, and leaves the manager as it was.
\<close>

theorem new_manager_serves_every_server:
  "let m = slm_new e1 e2 path default_servers;
       (eps, m') = serve (card (set default_servers)) m
   in mset eps = image_mset Some (mset_set (set default_servers)) \<and> m' = m"
proof -
  let ?m = "slm_new e1 e2 path default_servers"
  have p: "mset (primary_available ?m) = mset_set (set default_servers)"
    by (simp add: slm_new_def rebuild_available_permutes)
  then have "card (set default_servers) = length (primary_available ?m)"
    by (metis size_mset size_mset_set)
  then have "serve (card (set default_servers)) ?m = (map Some (primary_available ?m), ?m)"
    using serve_primary [of ?m "primary_available ?m" "[]"] by simp
  then show ?thesis by (simp add: Let_def flip: p)
qed

text \<open>
  Applying a received list replaces both queues by a permutation of its distinct
  endpoints, whether or not saving it succeeds; an empty list is refused and changes nothing.
\<close>

theorem apply_server_list_replaces_queues:
  "let (r, dsk', m') = apply_server_list X e sl (dsk, m) in
     if servers sl = [] \<and> sat_servers sl = []
     then r = Inl (Lifecycle ''server list update contained no valid endpoints'') \<and> dsk' = dsk \<and> m' = m
     else slm_current m' = sl
       \<and> mset (primary_available m') = mset_set (set (servers sl))
       \<and> mset (satellite_available m') = mset_set (set (sat_servers sl))"
proof -
  have "slm_current (rebuild_available e m1) = slm_current m1" for m1
    by (simp add: rebuild_available_def Let_def split: prod.splits)
  then show ?thesis
    by (auto simp: apply_server_list_def Let_def rebuild_available_permutes split: prod.splits)
qed

text \<open>
  C30: Saving is atomic: whatever file operation fails, the persisted file holds either what it
  held before or the complete encoding of the current list, and after success the latter.
\<close>

theorem save_is_atomic:
  assumes "path_with_extension X path ''json.tmp'' \<noteq> path"
    and "json_to_vec_pretty X \<lparr>per_servers = servers sl, per_sat_servers = sat_servers sl, per_version = ''1.0''\<rparr>
      = Inr data"
    and "save_atomic X path sl dsk = (r, dsk')"
  shows "(if r = Inr () then dsk' path = Some data else dsk' path = dsk path)
    \<and> (\<forall>p. p \<noteq> path \<longrightarrow> p \<noteq> path_with_extension X path ''json.tmp'' \<longrightarrow> dsk' p = dsk p)"
  using assms by (auto simp: save_atomic_def Let_def split: option.splits if_splits)

definition sample_persisted :: PersistedServerList where
  "sample_persisted = \<lparr>per_servers = [(''h'', 1)], per_sat_servers = [], per_version = ''1.0''\<rparr>"

definition sample_slm_ext :: slm_ext where
  "sample_slm_ext =
     \<lparr>json_from_slice = (\<lambda>bs. Inr sample_persisted),
      json_to_vec_pretty = (\<lambda>p. if p = sample_persisted then Inr (bytes_of ''h'') else Inl ''unsupported''),
      io_fault = (\<lambda>_. None), partial_write = (\<lambda>_. None),
      path_parent = (\<lambda>_. None), path_with_extension = (\<lambda>p e. p @ ''.'' @ e)\<rparr>"

definition sample_list :: QbtServerList where
  "sample_list = \<lparr>servers = [(''h'', 1)], sat_servers = []\<rparr>"

lemma sample_save:
  "save_atomic sample_slm_ext ''l'' sample_list (\<lambda>_. None) =
     (Inr (), ((\<lambda>_. None)(''l.json.tmp'' := None))(''l'' \<mapsto> bytes_of ''h''))"
  by (simp add: sample_slm_ext_def sample_list_def sample_persisted_def save_atomic_def create_parent_def)

theorem save_is_atomic_witness:
  "(if fst (save_atomic sample_slm_ext ''l'' sample_list (\<lambda>_. None)) = Inr ()
    then snd (save_atomic sample_slm_ext ''l'' sample_list (\<lambda>_. None)) ''l'' = Some (bytes_of ''h'')
    else snd (save_atomic sample_slm_ext ''l'' sample_list (\<lambda>_. None)) ''l'' = None)
   \<and> snd (save_atomic sample_slm_ext ''l'' sample_list (\<lambda>_. None)) ''other'' = None"
proof -
  have "(if fst (save_atomic sample_slm_ext ''l'' sample_list (\<lambda>_. None)) = Inr ()
      then snd (save_atomic sample_slm_ext ''l'' sample_list (\<lambda>_. None)) ''l'' = Some (bytes_of ''h'')
      else snd (save_atomic sample_slm_ext ''l'' sample_list (\<lambda>_. None)) ''l'' = None)
    \<and> (\<forall>p. p \<noteq> ''l'' \<longrightarrow> p \<noteq> path_with_extension sample_slm_ext ''l'' ''json.tmp'' \<longrightarrow>
      snd (save_atomic sample_slm_ext ''l'' sample_list (\<lambda>_. None)) p = None)"
    by (rule save_is_atomic [where dsk = "\<lambda>_. None" and sl = sample_list])
      (simp_all add: sample_slm_ext_def sample_list_def sample_persisted_def)
  moreover have "''other'' \<noteq> path_with_extension sample_slm_ext ''l'' ''json.tmp''"
    by (simp add: sample_slm_ext_def)
  ultimately show ?thesis by simp
qed

text \<open>
  A list that a manager has applied and saved is what a new manager with the same path
  finds when it loads.
\<close>

theorem save_load_roundtrip:
  assumes "slm_path m = Some path" and "slm_path m2 = Some path"
    and "\<And>p data. json_to_vec_pretty X p = Inr data \<Longrightarrow> json_from_slice X data = Inr p"
    and "io_fault X (ReadOp path) = None"
    and "apply_server_list X e sl (dsk, m) = (Inr (), dsk', m')"
  shows "fst (slm_load X e2 dsk' m2) = Inr () \<and> slm_current (snd (slm_load X e2 dsk' m2)) = sl"
proof -
  have cur: "slm_current (rebuild_available e m1) = slm_current m1"
    "slm_path (rebuild_available e m1) = slm_path m1" for e m1
    by (simp_all add: rebuild_available_def Let_def split: prod.splits)
  have ne: "servers sl \<noteq> [] \<or> sat_servers sl \<noteq> []" and save: "save_atomic X path sl dsk = (Inr (), dsk')"
    using assms(1,5)
    by (auto simp: apply_server_list_def slm_save_def cur Let_def split: if_splits prod.splits)
  then obtain data where data: "json_to_vec_pretty X
      \<lparr>per_servers = servers sl, per_sat_servers = sat_servers sl, per_version = ''1.0''\<rparr> = Inr data"
    and "dsk' path = Some data"
    by (auto simp: save_atomic_def Let_def split: sum.splits option.splits)
  with assms(2,4) assms(3) [OF data] ne show ?thesis
    by (simp add: slm_load_def cur)
qed

theorem save_load_roundtrip_witness:
  "let dsk = fst (snd (apply_server_list sample_slm_ext 3 sample_list (\<lambda>_. None, slm_new 1 2 (Some ''l'') [])));
       m2 = slm_new 7 8 (Some ''l'') []
   in fst (slm_load sample_slm_ext 5 dsk m2) = Inr ()
      \<and> slm_current (snd (slm_load sample_slm_ext 5 dsk m2)) = sample_list"
proof -
  let ?m = "slm_new 1 2 (Some ''l'') []"
  have path: "slm_path (rebuild_available e m) = slm_path m" "slm_current (rebuild_available e m) = slm_current m"
    for e m
    by (simp_all add: rebuild_available_def Let_def split: prod.splits)
  have "fst (apply_server_list sample_slm_ext 3 sample_list (\<lambda>_. None, ?m)) = Inr ()"
    using sample_save
    by (simp add: apply_server_list_def slm_save_def slm_new_def path Let_def sample_list_def)
  then obtain dsk' m' where "apply_server_list sample_slm_ext 3 sample_list (\<lambda>_. None, ?m) = (Inr (), dsk', m')"
    by (metis prod.collapse)
  moreover have "json_from_slice sample_slm_ext data = Inr p"
    if "json_to_vec_pretty sample_slm_ext p = Inr data" for p data
    using that by (auto simp: sample_slm_ext_def split: if_splits)
  ultimately show ?thesis
    using save_load_roundtrip [of ?m "''l''" "slm_new 7 8 (Some ''l'') []" sample_slm_ext 3 sample_list]
    by (simp add: path slm_new_def sample_slm_ext_def)
qed

text \<open>
  Once every available endpoint has been marked bad, requests for an endpoint find none,
  for ever: neither a request nor a further mark brings an endpoint back.
\<close>

theorem exhausted_manager_stays_exhausted:
  assumes "set (primary_available m) \<union> set (satellite_available m) \<subseteq> set bad"
  shows "let m' = fold mark_bad_endpoint bad m in
    next_endpoint m' = (None, m') \<and> serve n m' = (replicate n None, m')
    \<and> next_endpoint (mark_bad_endpoint ep m') = (None, m')"
proof -
  let ?m = "fold mark_bad_endpoint bad m"
  have e: "primary_available ?m = []" "satellite_available ?m = []"
    using mark_bad_all [of bad m] assms by (metis Diff_eq_empty_iff Un_subset_iff set_empty)+
  then have none: "next_endpoint ?m = (None, ?m)"
    by (simp add: next_endpoint_def)
  then have "serve n ?m = (replicate n None, ?m)"
    by (induction n) simp_all
  moreover have "mark_bad_endpoint ep ?m = ?m"
    using e by (cases ?m) (simp add: mark_bad_endpoint_def)
  ultimately show ?thesis using none by (simp add: Let_def)
qed

theorem exhausted_manager_stays_exhausted_witness:
  "let m' = fold mark_bad_endpoint [(''a'', 1), (''b'', 2)] (slm_new 1 2 None [(''a'', 1), (''b'', 2)]) in
    next_endpoint m' = (None, m') \<and> serve 4 m' = (replicate 4 None, m')
    \<and> next_endpoint (mark_bad_endpoint (''c'', 3) m') = (None, m')"
proof (rule exhausted_manager_stays_exhausted)
  let ?m = "slm_new 1 2 None [(''a'', 1), (''b'', 2)]"
  have "set (primary_available ?m) = {(''a'', 1), (''b'', 2)}" "set (satellite_available ?m) = {}"
    using arg_cong [OF rebuild_available_permutes(1), of set_mset] arg_cong [OF rebuild_available_permutes(2), of set_mset]
    by (simp_all add: slm_new_def flip: set_mset_mset)
  then show "set (primary_available ?m) \<union> set (satellite_available ?m) \<subseteq> set [(''a'', 1), (''b'', 2)]"
    by simp
qed

end
