(* ===== verification/Runtime_Support.thy ===== *)
theory Runtime_Support
  imports Connection_Policy "HOL-Library.Sublist"
begin

text \<open>
  Infrastructure shared by the receivers (\<open>runtime_support.rs\<close>): the lifecycle record of a
  receiver and the accounting of events that a full queue drops.

  The event queue is a \<open>tokio\<close> channel whose consumer runs concurrently, so whether a
  \<open>try_send\<close> succeeds is decided by the environment: the sender holds the answers, one per
  attempt, the number of attempts made and what has been delivered. The lemmas hold for every
  environment.
\<close>

subsection \<open>Sender\<close>

datatype TrySendError = Full | Closed

record 'e sender =
  snd_env :: "nat \<Rightarrow> TrySendError option"
  snd_attempts :: nat
  snd_delivered :: "'e list"

definition sender_new :: "(nat \<Rightarrow> TrySendError option) \<Rightarrow> 'e sender" where
  "sender_new env = \<lparr>snd_env = env, snd_attempts = 0, snd_delivered = []\<rparr>"

definition try_send :: "'e \<Rightarrow> 'e sender \<Rightarrow> TrySendError option \<times> 'e sender" where
  "try_send e s =
     (let r = snd_env s (snd_attempts s);
          s1 = s\<lparr>snd_attempts := snd_attempts s + 1\<rparr>
      in case r of
           None \<Rightarrow> (None, s1\<lparr>snd_delivered := snd_delivered s @ [e]\<rparr>)
         | Some err \<Rightarrow> (Some err, s1))"

subsection \<open>BackpressureTracker\<close>

record BackpressureTracker =
  bp_event_queue_drop_total :: u64
  bp_dropped_since_last_report :: u64

definition tracker_default :: BackpressureTracker where
  "tracker_default = \<lparr>bp_event_queue_drop_total = 0, bp_dropped_since_last_report = 0\<rparr>"

definition has_pending_report :: "BackpressureTracker \<Rightarrow> bool" where
  "has_pending_report t \<longleftrightarrow> bp_dropped_since_last_report t > 0"

definition clear_pending_report :: "BackpressureTracker \<Rightarrow> BackpressureTracker" where
  "clear_pending_report t = t\<lparr>bp_dropped_since_last_report := 0\<rparr>"

definition record_send_failure :: "TrySendError \<Rightarrow> BackpressureTracker \<Rightarrow> BackpressureTracker" where
  "record_send_failure err t =
     (if err = Full
      then t\<lparr>bp_event_queue_drop_total := sat_add (bp_event_queue_drop_total t) 1,
             bp_dropped_since_last_report := sat_add (bp_dropped_since_last_report t) 1\<rparr>
      else t)"

text \<open>
  The helper with its three closures: \<open>build_warning\<close>, and \<open>on_warning_sent\<close> and \<open>on_drop\<close>
  as transformers of the state \<open>'c\<close> that they capture.
\<close>

type_synonym ('c, 'e) bp_state = "BackpressureTracker \<times> 'c \<times> 'e sender"

definition try_send_with_backpressure_warning ::
    "(BackpressureTracker \<Rightarrow> 'ev) \<Rightarrow> ('c \<Rightarrow> 'c) \<Rightarrow> (BackpressureTracker \<Rightarrow> 'c \<Rightarrow> 'c) \<Rightarrow>
     'er + 'ev \<Rightarrow> ('c, 'er + 'ev) bp_state \<Rightarrow> ('c, 'er + 'ev) bp_state" where
  "try_send_with_backpressure_warning build_warning on_warning_sent on_drop event st =
     (let (t, c, s) = st;
          (t1, c1, s1) =
            (if has_pending_report t then
               (case try_send (Inr (build_warning t)) s of
                  (None, s') \<Rightarrow> (clear_pending_report t, on_warning_sent c, s')
                | (Some err, s') \<Rightarrow>
                    (let t' = record_send_failure err t in (t', on_drop t' c, s')))
             else (t, c, s))
      in case try_send event s1 of
           (None, s2) \<Rightarrow> (t1, c1, s2)
         | (Some err, s2) \<Rightarrow> (let t' = record_send_failure err t1 in (t', on_drop t' c1, s2)))"

subsection \<open>ReceiverRuntime\<close>

text \<open>
  The type parameters stand for the channel's receiver, the shutdown sender and the join
  handle. \<open>runtime_stop\<close> returns what it signals and awaits.
\<close>

record ('rx, 'tx, 'h) ReceiverRuntime =
  rt_running :: bool
  rt_event_rx :: "'rx option"
  rt_shutdown_tx :: "'tx option"
  rt_join_handle :: "'h option"

definition runtime_default :: "('rx, 'tx, 'h) ReceiverRuntime" where
  "runtime_default =
     \<lparr>rt_running = False, rt_event_rx = None, rt_shutdown_tx = None, rt_join_handle = None\<rparr>"

definition is_running :: "('rx, 'tx, 'h) ReceiverRuntime \<Rightarrow> bool" where
  "is_running r = rt_running r"

definition runtime_install ::
    "'rx \<Rightarrow> 'tx \<Rightarrow> 'h \<Rightarrow> ('rx, 'tx, 'h) ReceiverRuntime \<Rightarrow> ('rx, 'tx, 'h) ReceiverRuntime" where
  "runtime_install rx tx h r =
     r\<lparr>rt_event_rx := Some rx, rt_shutdown_tx := Some tx, rt_join_handle := Some h, rt_running := True\<rparr>"

definition runtime_stop ::
    "('rx, 'tx, 'h) ReceiverRuntime \<Rightarrow> 'tx option \<times> 'h option \<times> ('rx, 'tx, 'h) ReceiverRuntime" where
  "runtime_stop r =
     (if \<not> rt_running r then (None, None, r)
      else
        let signalled = rt_shutdown_tx r;
            awaited = rt_join_handle r
        in (signalled, awaited,
            r\<lparr>rt_join_handle := None, rt_running := False, rt_shutdown_tx := None\<rparr>))"

definition take_events ::
    "'er \<Rightarrow> ('rx, 'tx, 'h) ReceiverRuntime \<Rightarrow> ('er + 'rx) \<times> ('rx, 'tx, 'h) ReceiverRuntime" where
  "take_events already_taken_error r =
     (case rt_event_rx r of
        None \<Rightarrow> (Inl already_taken_error, r)
      | Some rx \<Rightarrow> (Inr rx, r\<lparr>rt_event_rx := None\<rparr>))"

subsection \<open>Lifecycle as a state machine\<close>

inductive runtime_reachable :: "('rx, 'tx, 'h) ReceiverRuntime \<Rightarrow> bool" where
  initial: "runtime_reachable runtime_default"
| started: "runtime_reachable r \<Longrightarrow> \<not> is_running r \<Longrightarrow> runtime_reachable (runtime_install rx tx h r)"
| stopped: "runtime_reachable r \<Longrightarrow> runtime_reachable (snd (snd (runtime_stop r)))"
| taken: "runtime_reachable r \<Longrightarrow> runtime_reachable (snd (take_events () r))"

lemma runtime_reachable_inv:
  "runtime_reachable r \<Longrightarrow>
     (rt_running r \<longleftrightarrow> rt_shutdown_tx r \<noteq> None) \<and> (rt_running r \<longleftrightarrow> rt_join_handle r \<noteq> None)"
proof (induction rule: runtime_reachable.induct)
  case (stopped r)
  then show ?case by (auto simp: runtime_stop_def Let_def)
next
  case (taken r)
  then show ?case by (auto simp: take_events_def split: option.splits)
qed (auto simp: runtime_default_def runtime_install_def)

text \<open>
  In every state that starting, stopping and taking the event stream can reach, stopping
  a running receiver signals shutdown and awaits its task, and leaves it stopped; the stream
  of one start can be taken at most once.
\<close>

theorem stop_signals_and_joins:
  assumes "runtime_reachable r" and "is_running r"
  shows "(\<exists>tx h. rt_shutdown_tx r = Some tx \<and> rt_join_handle r = Some h
      \<and> runtime_stop r = (Some tx, Some h,
          r\<lparr>rt_join_handle := None, rt_running := False, rt_shutdown_tx := None\<rparr>))
    \<and> fst (take_events e (snd (take_events e' r))) = Inl e"
  using runtime_reachable_inv [OF assms(1)] assms(2)
  by (auto simp: is_running_def runtime_stop_def take_events_def split: option.splits)

theorem stop_signals_and_joins_witness:
  "let r = runtime_install (1 :: nat) (2 :: nat) (3 :: nat) runtime_default in
   (\<exists>tx h. rt_shutdown_tx r = Some tx \<and> rt_join_handle r = Some h
      \<and> runtime_stop r = (Some tx, Some h,
          r\<lparr>rt_join_handle := None, rt_running := False, rt_shutdown_tx := None\<rparr>))
    \<and> fst (take_events ''taken'' (snd (take_events ''taken'' r))) = Inl ''taken''"
  unfolding Let_def
  by (rule stop_signals_and_joins)
    (auto simp: is_running_def runtime_install_def runtime_default_def
      intro: runtime_reachable.started [OF runtime_reachable.initial, unfolded runtime_install_def
        runtime_default_def is_running_def, simplified])

subsection \<open>Accounting of dropped events\<close>

lemma unat_u64_max: "(w :: u64) \<noteq> - 1 \<Longrightarrow> unat w < 2 ^ 64 - 1"
proof -
  assume "w \<noteq> - 1"
  then have "unat w \<noteq> unat (- 1 :: u64)" by (simp add: word_unat_eq_iff)
  moreover have "unat (- 1 :: u64) = 2 ^ 64 - 1"
    by (simp add: unsigned_minus_1_eq_mask mask_eq_exp_minus_1)
  moreover have "unat w < 2 ^ 64" using unsigned_less [of w, where ?'a = nat] by simp
  ultimately show ?thesis by linarith
qed

text \<open>
  The events the queue really refused because it was full, counted from its answers and not from the
  program's own counters, and the agreement of a tracker's 64-bit total with them.
\<close>

definition queue_drops :: "'e sender \<Rightarrow> nat" where
  "queue_drops s = length (filter (\<lambda>i. snd_env s i = Some Full) [0..<snd_attempts s])"

definition drops_counted :: "BackpressureTracker \<Rightarrow> 'e sender \<Rightarrow> bool" where
  "drops_counted t s \<longleftrightarrow> unat (bp_event_queue_drop_total t) = min (queue_drops s) (2 ^ 64 - 1)"

lemma try_send_queue_drops:
  "try_send e s = (r, s') \<Longrightarrow> queue_drops s' = queue_drops s + (if r = Some Full then 1 else 0)"
  by (auto simp: try_send_def queue_drops_def Let_def split: option.splits)

lemma drops_counted_failure:
  "drops_counted t s \<Longrightarrow> try_send e s = (Some err, s') \<Longrightarrow> drops_counted (record_send_failure err t) s'"
  by (auto simp: drops_counted_def record_send_failure_def try_send_queue_drops unat_sat_add)

lemma drops_counted_sent:
  "drops_counted t s \<Longrightarrow> try_send e s = (None, s') \<Longrightarrow> drops_counted t s' \<and> drops_counted (clear_pending_report t) s'"
  by (auto simp: drops_counted_def clear_pending_report_def try_send_queue_drops)

lemma drops_counted_send:
  assumes "drops_counted t s" and "try_send_with_backpressure_warning b w d event (t, c, s) = (t', c', s')"
  shows "drops_counted t' s'"
  using assms
  by (auto simp: try_send_with_backpressure_warning_def Let_def drops_counted_failure
      dest: drops_counted_sent drops_counted_failure split: if_splits option.splits prod.splits)

text \<open>
  What a receiver relies on when it reports drops: the warning it builds carries the drops
  since the last report. \<open>reported\<close> reads that number from a delivered event.
\<close>

locale drop_reporting =
  fixes build_warning :: "BackpressureTracker \<Rightarrow> 'ev"
    and on_warning_sent :: "'c \<Rightarrow> 'c"
    and on_drop :: "BackpressureTracker \<Rightarrow> 'c \<Rightarrow> 'c"
    and reported :: "'er + 'ev \<Rightarrow> nat option"
  assumes reported_warning: "reported (Inr (build_warning t)) = Some (unat (bp_dropped_since_last_report t))"
begin

abbreviation send :: "'er + 'ev \<Rightarrow> ('c, 'er + 'ev) bp_state \<Rightarrow> ('c, 'er + 'ev) bp_state" where
  "send \<equiv> try_send_with_backpressure_warning build_warning on_warning_sent on_drop"

definition reports :: "('er + 'ev) list \<Rightarrow> nat" where
  "reports evs = sum_list (List.map_filter reported evs)"

text \<open>
  The books balance: unless the total counter has saturated, every drop is reported or
  pending.
\<close>

definition balanced :: "BackpressureTracker \<Rightarrow> ('er + 'ev) list \<Rightarrow> bool" where
  "balanced t delivered \<longleftrightarrow>
     bp_event_queue_drop_total t = - 1
     \<or> reports delivered + unat (bp_dropped_since_last_report t) = unat (bp_event_queue_drop_total t)"

lemma reports_append [simp]: "reports (xs @ ys) = reports xs + reports ys"
  by (simp add: reports_def map_filter_def)

lemma reports_single: "reports [e] = (case reported e of None \<Rightarrow> 0 | Some n \<Rightarrow> n)"
  by (simp add: reports_def map_filter_def split: option.splits)

lemma balanced_failure:
  assumes "balanced t ds"
  shows "balanced (record_send_failure err t) ds"
proof (cases "bp_event_queue_drop_total t = - 1")
  case True
  then show ?thesis
    by (simp add: balanced_def record_send_failure_def sat_add_def unsigned_minus_1_eq_mask mask_eq_exp_minus_1)
next
  case False
  then have "unat (bp_event_queue_drop_total t) < 2 ^ 64 - 1"
    using unat_u64_max by blast
  with False assms show ?thesis
    by (auto simp: balanced_def record_send_failure_def unat_sat_add)
qed

lemma balanced_sent: "balanced t ds \<Longrightarrow> reported e = None \<Longrightarrow> balanced t (ds @ [e])"
  by (simp add: balanced_def reports_single)

lemma balanced_reported: "balanced t ds \<Longrightarrow> balanced (clear_pending_report t) (ds @ [Inr (build_warning t)])"
  by (auto simp: balanced_def reports_single reported_warning clear_pending_report_def)

lemma try_send_cases:
  obtains (sent) s' where "try_send e s = (None, s')" "snd_delivered s' = snd_delivered s @ [e]"
  | (failed) err s' where "try_send e s = (Some err, s')" "snd_delivered s' = snd_delivered s"
  by (cases "snd_env s (snd_attempts s)") (auto simp: try_send_def Let_def)

lemma balanced_send:
  assumes bal: "balanced t (snd_delivered s)" and ev: "reported event = None"
    and res: "send event (t, c, s) = (t', c', s')"
  shows "balanced t' (snd_delivered s')"
proof -
  have final: "balanced t' (snd_delivered s')"
    if b: "balanced t1 (snd_delivered s1)" and "(case try_send event s1 of (None, s2) \<Rightarrow> (t1, c1, s2)
      | (Some err, s2) \<Rightarrow> (let t' = record_send_failure err t1 in (t', on_drop t' c1, s2))) = (t', c', s')"
    for t1 c1 s1
  proof (cases rule: try_send_cases [of event s1])
    case (sent s')
    then show ?thesis using that balanced_sent [OF b ev] by auto
  next
    case (failed err s')
    then show ?thesis using that balanced_failure [OF b] by (auto simp: Let_def)
  qed
  show ?thesis
  proof (cases "has_pending_report t")
    case False
    then show ?thesis
      using final [OF bal] res by (simp add: try_send_with_backpressure_warning_def)
  next
    case True
    show ?thesis
    proof (cases rule: try_send_cases [of "Inr (build_warning t)" s])
      case (sent s1)
      have "balanced (clear_pending_report t) (snd_delivered s1)"
        using balanced_reported [OF bal] sent(2) by simp
      from final [OF this] sent True res show ?thesis
        by (simp add: try_send_with_backpressure_warning_def)
    next
      case (failed err s1)
      have "balanced (record_send_failure err t) (snd_delivered s1)"
        using balanced_failure [OF bal] failed(2) by simp
      from final [OF this] failed True res show ?thesis
        by (simp add: try_send_with_backpressure_warning_def Let_def)
    qed
  qed
qed

text \<open>What reaches the consumer, reports aside, is a subsequence of what was sent.\<close>

lemma send_delivers_subseq:
  assumes "reported event = None"
  shows "\<exists>d. filter (\<lambda>e. reported e = None) (snd_delivered (snd (snd (send event st)))) =
      filter (\<lambda>e. reported e = None) (snd_delivered (snd (snd st))) @ d \<and> (d = [] \<or> d = [event])"
proof -
  obtain t c s where st: "st = (t, c, s)" by (cases st)
  show ?thesis
    by (cases rule: try_send_cases [of "Inr (build_warning t)" s])
      (auto simp: st try_send_with_backpressure_warning_def try_send_def [of event] Let_def assms
        reported_warning split: option.splits prod.splits)
qed

lemma send_all_delivers_subseq:
  assumes "\<forall>e\<in>set evs. reported e = None"
  shows "\<exists>d. filter (\<lambda>e. reported e = None) (snd_delivered (snd (snd (fold send evs st)))) =
      filter (\<lambda>e. reported e = None) (snd_delivered (snd (snd st))) @ d \<and> subseq d evs"
  using assms
proof (induction evs arbitrary: st)
  case (Cons e evs)
  then obtain d1 where d1: "filter (\<lambda>e. reported e = None) (snd_delivered (snd (snd (send e st)))) =
      filter (\<lambda>e. reported e = None) (snd_delivered (snd (snd st))) @ d1" "d1 = [] \<or> d1 = [e]"
    using send_delivers_subseq [of e st] by auto
  from Cons obtain d2 where "filter (\<lambda>e. reported e = None) (snd_delivered (snd (snd (fold send evs (send e st))))) =
      filter (\<lambda>e. reported e = None) (snd_delivered (snd (snd (send e st)))) @ d2" "subseq d2 evs"
    by (metis list.set_intros(2))
  with d1 show ?case by (intro exI [of _ "d1 @ d2"]) auto
qed simp

end

end
