(* ===== verification/Receiver.thy ===== *)
theory Receiver
  imports Codec_Props Server_List_Manager Runtime_Support
begin

text \<open>
  The receiver runtime (\<open>client/mod.rs\<close>): telemetry, event dispatch, one connected session
  as a step function over what its \<open>select!\<close> observes, and the connection loop.

  The environment of the loop is explicit: the outcome of every connection attempt, the reads,
  ticks and write results of every session, and the answers of the event queue. Handlers are
  functions from an event to a result. \<open>QbtProtocolDecoder::feed\<close> never returns an error,
  so the arm of the read loop for a failing decoder has no counterpart.
\<close>

subsection \<open>Telemetry and events\<close>

definition EVENT_CHANNEL_CAPACITY :: usize where
  "EVENT_CHANNEL_CAPACITY = 1024"

definition TELEMETRY_EMIT_INTERVAL_SECS :: u64 where
  "TELEMETRY_EMIT_INTERVAL_SECS = 5"

definition MAX_CONNECT_TIMEOUT_SECS :: u64 where
  "MAX_CONNECT_TIMEOUT_SECS = 5"

record QbtReceiverTelemetrySnapshot =
  connection_attempts_total :: u64
  connection_success_total :: u64
  connection_fail_total :: u64
  disconnect_total :: u64
  watchdog_timeouts_total :: u64
  watchdog_exception_events_total :: u64
  auth_logon_sent_total :: u64
  bytes_in_total :: u64
  frame_events_total :: u64
  data_blocks_emitted_total :: u64
  server_list_updates_total :: u64
  checksum_mismatch_total :: u64
  decompression_failed_total :: u64
  decoder_recovery_events_total :: u64
  handler_failures_total :: u64
  backpressure_warning_emitted_total :: u64
  event_queue_drop_total :: u64
  telemetry_events_emitted_total :: u64

definition telemetry_default :: QbtReceiverTelemetrySnapshot where
  "telemetry_default =
     \<lparr>connection_attempts_total = 0, connection_success_total = 0, connection_fail_total = 0,
      disconnect_total = 0, watchdog_timeouts_total = 0, watchdog_exception_events_total = 0,
      auth_logon_sent_total = 0, bytes_in_total = 0, frame_events_total = 0,
      data_blocks_emitted_total = 0, server_list_updates_total = 0, checksum_mismatch_total = 0,
      decompression_failed_total = 0, decoder_recovery_events_total = 0, handler_failures_total = 0,
      backpressure_warning_emitted_total = 0, event_queue_drop_total = 0,
      telemetry_events_emitted_total = 0\<rparr>"

record RuntimeTelemetry =
  tel_snapshot :: QbtReceiverTelemetrySnapshot
  tel_backpressure :: BackpressureTracker

datatype QbtReceiverEvent =
    Frame QbtFrameEvent
  | Connected string
  | Disconnected
  | Telemetry QbtReceiverTelemetrySnapshot

type_synonym receiver_item = "QbtReceiverError + QbtReceiverEvent"
type_synonym handler = "QbtFrameEvent \<Rightarrow> QbtReceiverError + unit"

text \<open>
  The mutable state that the loop and its sessions share. \<open>rx_entropy\<close> are the values of
  \<open>entropy_seed()\<close> in the order of the calls, \<open>rx_sink\<close> the published telemetry.
\<close>

record receiver_state =
  rx_sender :: "receiver_item sender"
  rx_telemetry :: RuntimeTelemetry
  rx_sink :: QbtReceiverTelemetrySnapshot
  rx_server_list :: ServerListManager
  rx_disk :: disk
  rx_entropy :: "nat \<Rightarrow> u64"
  rx_draws :: nat

definition update_telemetry_sink :: "receiver_state \<Rightarrow> receiver_state" where
  "update_telemetry_sink st = st\<lparr>rx_sink := tel_snapshot (rx_telemetry st)\<rparr>"

definition on_snapshot ::
    "(QbtReceiverTelemetrySnapshot \<Rightarrow> QbtReceiverTelemetrySnapshot) \<Rightarrow> receiver_state \<Rightarrow> receiver_state" where
  "on_snapshot f st =
     st\<lparr>rx_telemetry := (rx_telemetry st)\<lparr>tel_snapshot := f (tel_snapshot (rx_telemetry st))\<rparr>\<rparr>"

subsection \<open>Sending events\<close>

definition build_drop_warning :: "u64 \<Rightarrow> BackpressureTracker \<Rightarrow> QbtReceiverEvent" where
  "build_drop_warning decoder_recovery_events t =
     Frame (Warning (BackpressureDrop (bp_dropped_since_last_report t) (bp_event_queue_drop_total t)
       decoder_recovery_events))"

definition count_warning_sent :: "QbtReceiverTelemetrySnapshot \<Rightarrow> QbtReceiverTelemetrySnapshot" where
  "count_warning_sent sn =
     sn\<lparr>backpressure_warning_emitted_total := sat_add (backpressure_warning_emitted_total sn) 1\<rparr>"

definition copy_drop_total ::
    "BackpressureTracker \<Rightarrow> QbtReceiverTelemetrySnapshot \<Rightarrow> QbtReceiverTelemetrySnapshot" where
  "copy_drop_total t sn = sn\<lparr>event_queue_drop_total := bp_event_queue_drop_total t\<rparr>"

definition try_send_event :: "receiver_item \<Rightarrow> receiver_state \<Rightarrow> receiver_state" where
  "try_send_event event st =
     (let tel = rx_telemetry st;
          (t, sn, s) =
            try_send_with_backpressure_warning
              (build_drop_warning (decoder_recovery_events_total (tel_snapshot tel)))
              count_warning_sent copy_drop_total event
              (tel_backpressure tel, tel_snapshot tel, rx_sender st)
      in st\<lparr>rx_telemetry := \<lparr>tel_snapshot = sn, tel_backpressure = t\<rparr>, rx_sender := s\<rparr>)"

fun run_handlers :: "handler list \<Rightarrow> QbtFrameEvent \<Rightarrow> receiver_state \<Rightarrow> receiver_state" where
  "run_handlers [] event st = st"
| "run_handlers (h # hs) event st =
     (case h event of
        Inr _ \<Rightarrow> run_handlers hs event st
      | Inl err \<Rightarrow>
          (let st1 = on_snapshot (\<lambda>sn. sn\<lparr>handler_failures_total := sat_add (handler_failures_total sn) 1\<rparr>) st;
               warning = Warning (HandlerError (receiver_error_text err))
           in run_handlers hs event (try_send_event (Inr (Frame warning)) st1)))"

fun dispatch_events :: "handler list \<Rightarrow> QbtFrameEvent list \<Rightarrow> receiver_state \<Rightarrow> receiver_state" where
  "dispatch_events hs [] st = st"
| "dispatch_events hs (event # events) st =
     dispatch_events hs events (try_send_event (Inr (Frame event)) (run_handlers hs event st))"

subsection \<open>Counting\<close>

fun is_decoder_recovered :: "QbtFrameEvent \<Rightarrow> bool" where
  "is_decoder_recovered (Warning (DecoderRecovered _)) = True"
| "is_decoder_recovered _ = False"

fun is_data_block :: "QbtFrameEvent \<Rightarrow> bool" where
  "is_data_block (DataBlock _) = True"
| "is_data_block _ = False"

fun is_server_list_update :: "QbtFrameEvent \<Rightarrow> bool" where
  "is_server_list_update (ServerListUpdate _) = True"
| "is_server_list_update _ = False"

fun is_checksum_mismatch :: "QbtFrameEvent \<Rightarrow> bool" where
  "is_checksum_mismatch (Warning (ChecksumMismatch _ _)) = True"
| "is_checksum_mismatch _ = False"

fun is_decompression_failed :: "QbtFrameEvent \<Rightarrow> bool" where
  "is_decompression_failed (Warning (DecompressionFailed _ _ _)) = True"
| "is_decompression_failed _ = False"

definition count_decoder_recoveries :: "QbtFrameEvent list \<Rightarrow> usize" where
  "count_decoder_recoveries events = length (filter is_decoder_recovered events)"

definition count_data_blocks :: "QbtFrameEvent list \<Rightarrow> usize" where
  "count_data_blocks events = length (filter is_data_block events)"

definition count_server_list_updates :: "QbtFrameEvent list \<Rightarrow> usize" where
  "count_server_list_updates events = length (filter is_server_list_update events)"

definition count_checksum_mismatches :: "QbtFrameEvent list \<Rightarrow> usize" where
  "count_checksum_mismatches events = length (filter is_checksum_mismatch events)"

definition count_decompression_failures :: "QbtFrameEvent list \<Rightarrow> usize" where
  "count_decompression_failures events = length (filter is_decompression_failed events)"

definition count_frame_events ::
    "QbtFrameEvent list \<Rightarrow> QbtReceiverTelemetrySnapshot \<Rightarrow> QbtReceiverTelemetrySnapshot" where
  "count_frame_events events sn =
     sn\<lparr>decoder_recovery_events_total :=
          sat_add (decoder_recovery_events_total sn) (of_nat (count_decoder_recoveries events)),
        frame_events_total := sat_add (frame_events_total sn) (of_nat (length events)),
        data_blocks_emitted_total :=
          sat_add (data_blocks_emitted_total sn) (of_nat (count_data_blocks events)),
        server_list_updates_total :=
          sat_add (server_list_updates_total sn) (of_nat (count_server_list_updates events)),
        checksum_mismatch_total :=
          sat_add (checksum_mismatch_total sn) (of_nat (count_checksum_mismatches events)),
        decompression_failed_total :=
          sat_add (decompression_failed_total sn) (of_nat (count_decompression_failures events))\<rparr>"

subsection \<open>A connected session\<close>

text \<open>What one round of the session's \<open>select!\<close> observes.\<close>

datatype session_input =
    ShutdownSeen
  | AuthTick "string option"
  | TelemetryTick
  | ReadData instant "byte list"
  | ReadFailed string
  | ReadElapsed instant

record session_state =
  ses_decoder :: QbtProtocolDecoder
  ses_watchdog :: Watchdog

text \<open>The result of a session, once it has one.\<close>

type_synonym session_result = "(QbtReceiverError + unit) option"

definition apply_update :: "slm_ext \<Rightarrow> QbtServerList \<Rightarrow> receiver_state \<Rightarrow> receiver_state" where
  "apply_update X sl st =
     (let (r, dsk, m) = apply_server_list X (rx_entropy st (rx_draws st)) sl (rx_disk st, rx_server_list st);
          st1 = st\<lparr>rx_disk := dsk, rx_server_list := m, rx_draws := rx_draws st + 1\<rparr>
      in case r of Inr _ \<Rightarrow> st1 | Inl err \<Rightarrow> try_send_event (Inl err) st1)"

fun apply_updates :: "slm_ext \<Rightarrow> QbtReceiverConfig \<Rightarrow> QbtFrameEvent list \<Rightarrow> receiver_state \<Rightarrow> receiver_state" where
  "apply_updates X cfg [] st = st"
| "apply_updates X cfg (event # events) st =
     apply_updates X cfg events
       (case event of
          ServerListUpdate sl \<Rightarrow> if cfg_follow_server_list_updates cfg then apply_update X sl st else st
        | _ \<Rightarrow> st)"

definition read_data ::
    "qbt_ext \<Rightarrow> slm_ext \<Rightarrow> QbtReceiverConfig \<Rightarrow> handler list \<Rightarrow> instant \<Rightarrow> byte list \<Rightarrow>
     session_state \<times> receiver_state \<Rightarrow> session_state \<times> receiver_state" where
  "read_data E X cfg hs now chunk s =
     (let (ses, st) = s;
          watchdog = on_data_received now (ses_watchdog ses);
          st1 = on_snapshot (\<lambda>sn. sn\<lparr>bytes_in_total := sat_add (bytes_in_total sn) (of_nat (length chunk))\<rparr>) st;
          (decoder, events) = feed E (ses_decoder ses) chunk;
          st2 = on_snapshot (count_frame_events events) st1;
          st3 = apply_updates X cfg events st2;
          st4 = dispatch_events hs events st3
      in (\<lparr>ses_decoder = decoder, ses_watchdog = watchdog\<rparr>, update_telemetry_sink st4))"

definition count_logon :: "receiver_state \<Rightarrow> receiver_state" where
  "count_logon st =
     update_telemetry_sink
       (on_snapshot (\<lambda>sn. sn\<lparr>auth_logon_sent_total := sat_add (auth_logon_sent_total sn) 1\<rparr>) st)"

definition session_step ::
    "qbt_ext \<Rightarrow> slm_ext \<Rightarrow> QbtReceiverConfig \<Rightarrow> handler list \<Rightarrow> session_input \<Rightarrow>
     session_state \<times> receiver_state \<Rightarrow> session_result \<times> session_state \<times> receiver_state" where
  "session_step E X cfg hs inp s =
     (let (ses, st) = s in
      case inp of
        ShutdownSeen \<Rightarrow> (Some (Inr ()), ses, st)
      | AuthTick (Some e) \<Rightarrow> (Some (Inl (Io e)), ses, st)
      | AuthTick None \<Rightarrow> (None, ses, count_logon st)
      | TelemetryTick \<Rightarrow>
          (let st1 = on_snapshot (\<lambda>sn. sn\<lparr>telemetry_events_emitted_total :=
                       sat_add (telemetry_events_emitted_total sn) 1\<rparr>) st
           in (None, ses, update_telemetry_sink
                (try_send_event (Inr (Telemetry (tel_snapshot (rx_telemetry st1)))) st1)))
      | ReadData now chunk \<Rightarrow>
          if chunk = [] then (Some (Inr ()), ses, st)
          else (None, read_data E X cfg hs now chunk (ses, st))
      | ReadFailed e \<Rightarrow>
          (Some (Inl (Io e)), ses\<lparr>ses_watchdog := on_exception (ses_watchdog ses)\<rparr>,
           update_telemetry_sink
             (on_snapshot (\<lambda>sn. sn\<lparr>watchdog_exception_events_total :=
                sat_add (watchdog_exception_events_total sn) 1\<rparr>) st))
      | ReadElapsed now \<Rightarrow>
          if should_close_at (ses_watchdog ses) now
          then (Some (Inl (Lifecycle ''watchdog timeout'')), ses,
                update_telemetry_sink
                  (on_snapshot (\<lambda>sn. sn\<lparr>watchdog_timeouts_total :=
                     sat_add (watchdog_timeouts_total sn) 1\<rparr>) st))
          else (None, ses, st))"

fun session_loop ::
    "qbt_ext \<Rightarrow> slm_ext \<Rightarrow> QbtReceiverConfig \<Rightarrow> handler list \<Rightarrow> session_input list \<Rightarrow>
     session_state \<times> receiver_state \<Rightarrow> session_result \<times> session_state \<times> receiver_state" where
  "session_loop E X cfg hs [] s = (None, s)"
| "session_loop E X cfg hs (inp # inps) s =
     (case session_step E X cfg hs inp s of
        (Some r, s') \<Rightarrow> (Some r, s')
      | (None, s') \<Rightarrow> session_loop E X cfg hs inps s')"

definition session_new :: "QbtReceiverConfig \<Rightarrow> instant \<Rightarrow> session_state" where
  "session_new cfg start =
     \<lparr>ses_decoder = decoder_new (cfg_decode cfg),
      ses_watchdog = watchdog_new (cfg_watchdog_timeout_secs cfg) (cfg_max_exceptions cfg) start\<rparr>"

text \<open>
  \<open>initial_write\<close> is the error of writing the first logon message, if any. A session whose
  inputs end before it returns has no result yet.
\<close>

definition run_connected_session ::
    "qbt_ext \<Rightarrow> slm_ext \<Rightarrow> QbtReceiverConfig \<Rightarrow> handler list \<Rightarrow> instant \<Rightarrow> string option \<Rightarrow>
     session_input list \<Rightarrow> receiver_state \<Rightarrow> session_result \<times> receiver_state" where
  "run_connected_session E X cfg hs start initial_write inps st =
     (case initial_write of
        Some e \<Rightarrow> (Some (Inl (Io e)), st)
      | None \<Rightarrow>
          (let (r, ses, st') = session_loop E X cfg hs inps (session_new cfg start, count_logon st)
           in (r, st')))"

subsection \<open>The connection loop\<close>

record session_env =
  env_start :: instant
  env_initial_write :: "string option"
  env_inputs :: "session_input list"
  env_shutdown_after :: bool

text \<open>The outcome of connecting to an endpoint within a timeout in seconds.\<close>

type_synonym connect_env = "endpoint \<Rightarrow> u64 \<Rightarrow> string + session_env"

definition connect_timeout :: "QbtReceiverConfig \<Rightarrow> u64" where
  "connect_timeout cfg = max 1 (min (cfg_connection_timeout_secs cfg) MAX_CONNECT_TIMEOUT_SECS)"

definition endpoint_label :: "string \<Rightarrow> u16 \<Rightarrow> string" where
  "endpoint_label host port = host @ '':'' @ show_nat (unat port)"

definition mark_bad :: "QbtReceiverConfig \<Rightarrow> endpoint \<Rightarrow> receiver_state \<Rightarrow> receiver_state" where
  "mark_bad cfg ep st =
     (if cfg_follow_server_list_updates cfg
      then st\<lparr>rx_server_list := mark_bad_endpoint ep (rx_server_list st)\<rparr> else st)"

definition count_attempt :: "receiver_state \<Rightarrow> receiver_state" where
  "count_attempt st =
     update_telemetry_sink
       (on_snapshot (\<lambda>sn. sn\<lparr>connection_attempts_total := sat_add (connection_attempts_total sn) 1\<rparr>) st)"

text \<open>The arm for an established connection; \<open>None\<close> while the session is still running.\<close>

definition connected_attempt ::
    "qbt_ext \<Rightarrow> slm_ext \<Rightarrow> QbtReceiverConfig \<Rightarrow> handler list \<Rightarrow> endpoint \<Rightarrow> session_env \<Rightarrow>
     receiver_state \<Rightarrow> receiver_state option" where
  "connected_attempt E X cfg hs ep se st =
     (let st1 = on_snapshot (\<lambda>sn. sn\<lparr>connection_success_total := sat_add (connection_success_total sn) 1\<rparr>) st;
          st2 = update_telemetry_sink
                  (try_send_event (Inr (Connected (endpoint_label (fst ep) (snd ep)))) st1)
      in case run_connected_session E X cfg hs (env_start se) (env_initial_write se) (env_inputs se) st2 of
           (None, _) \<Rightarrow> None
         | (Some run, st3) \<Rightarrow>
             (let st4 = (case run of Inl err \<Rightarrow> try_send_event (Inl err) st3 | Inr _ \<Rightarrow> st3);
                  st5 = (if \<not> env_shutdown_after se then mark_bad cfg ep st4 else st4);
                  st6 = on_snapshot (\<lambda>sn. sn\<lparr>disconnect_total := sat_add (disconnect_total sn) 1\<rparr>) st5
              in Some (update_telemetry_sink (try_send_event (Inr Disconnected) st6))))"

definition failed_attempt :: "QbtReceiverConfig \<Rightarrow> endpoint \<Rightarrow> string \<Rightarrow> receiver_state \<Rightarrow> receiver_state" where
  "failed_attempt cfg ep err st =
     (let st1 = on_snapshot (\<lambda>sn. sn\<lparr>connection_fail_total := sat_add (connection_fail_total sn) 1\<rparr>) st;
          st2 = mark_bad cfg ep st1
      in update_telemetry_sink (try_send_event (Inl (Io err)) st2))"

definition loop_step ::
    "qbt_ext \<Rightarrow> slm_ext \<Rightarrow> QbtReceiverConfig \<Rightarrow> handler list \<Rightarrow> connect_env \<Rightarrow>
     receiver_state \<Rightarrow> receiver_state option" where
  "loop_step E X cfg hs connect st =
     (let st1 = count_attempt st in
      case next_endpoint (rx_server_list st1) of
        (None, m) \<Rightarrow>
          Some (update_telemetry_sink
            (try_send_event (Inl (Lifecycle ''no servers configured'')) (st1\<lparr>rx_server_list := m\<rparr>)))
      | (Some ep, m) \<Rightarrow>
          (let st2 = st1\<lparr>rx_server_list := m\<rparr> in
           case connect ep (connect_timeout cfg) of
             Inr se \<Rightarrow> connected_attempt E X cfg hs ep se st2
           | Inl err \<Rightarrow> Some (failed_attempt cfg ep err st2)))"

text \<open>
  The loop over the connection attempts until shutdown, which the end of the list stands for.
\<close>

fun connection_loop ::
    "qbt_ext \<Rightarrow> slm_ext \<Rightarrow> QbtReceiverConfig \<Rightarrow> handler list \<Rightarrow> connect_env list \<Rightarrow>
     receiver_state \<Rightarrow> receiver_state option" where
  "connection_loop E X cfg hs [] st = Some st"
| "connection_loop E X cfg hs (c # cs) st =
     (case loop_step E X cfg hs c st of
        None \<Rightarrow> None
      | Some st' \<Rightarrow> connection_loop E X cfg hs cs st')"

definition receiver_initial ::
    "QbtReceiverConfig \<Rightarrow> receiver_item sender \<Rightarrow> QbtReceiverTelemetrySnapshot \<Rightarrow> disk \<Rightarrow>
     (nat \<Rightarrow> u64) \<Rightarrow> receiver_state" where
  "receiver_initial cfg s sink dsk ent =
     \<lparr>rx_sender = s,
      rx_telemetry = \<lparr>tel_snapshot = telemetry_default, tel_backpressure = tracker_default\<rparr>,
      rx_sink = sink,
      rx_server_list = slm_new (ent 0) (ent 1) (cfg_server_list_path cfg) (cfg_servers cfg),
      rx_disk = dsk, rx_entropy = ent, rx_draws = 2\<rparr>"

definition load_list :: "slm_ext \<Rightarrow> QbtReceiverConfig \<Rightarrow> receiver_state \<Rightarrow> receiver_state" where
  "load_list X cfg st =
     (if cfg_follow_server_list_updates cfg then
        (let (r, m) = slm_load X (rx_entropy st (rx_draws st)) (rx_disk st) (rx_server_list st);
             st1 = st\<lparr>rx_server_list := m, rx_draws := rx_draws st + 1\<rparr>
         in case r of Inl err \<Rightarrow> try_send_event (Inl err) st1 | Inr _ \<Rightarrow> st1)
      else st)"

definition run_connection_loop ::
    "qbt_ext \<Rightarrow> slm_ext \<Rightarrow> QbtReceiverConfig \<Rightarrow> handler list \<Rightarrow> connect_env list \<Rightarrow>
     receiver_item sender \<Rightarrow> QbtReceiverTelemetrySnapshot \<Rightarrow> disk \<Rightarrow> (nat \<Rightarrow> u64) \<Rightarrow>
     receiver_state option" where
  "run_connection_loop E X cfg hs attempts s sink dsk ent =
     map_option update_telemetry_sink
       (connection_loop E X cfg hs attempts (load_list X cfg (receiver_initial cfg s sink dsk ent)))"

subsection \<open>The receiver object\<close>

text \<open>The runtime's type parameters are the event queue, the shutdown flag and the task.\<close>

record 'r QbtReceiver =
  rcv_config :: QbtReceiverConfig
  rcv_runtime :: 'r
  rcv_handlers :: "handler list"
  rcv_telemetry :: QbtReceiverTelemetrySnapshot

definition receiver_build ::
    "QbtReceiverConfig \<Rightarrow> QbtReceiverError + ('rx, 'tx, 'h) ReceiverRuntime QbtReceiver" where
  "receiver_build cfg =
     (case receiver_config_validate cfg of
        Inl e \<Rightarrow> Inl (Config e)
      | Inr _ \<Rightarrow>
          Inr \<lparr>rcv_config = cfg, rcv_runtime = runtime_default, rcv_handlers = [],
               rcv_telemetry = telemetry_default\<rparr>)"

definition subscribe :: "handler \<Rightarrow> 'r QbtReceiver \<Rightarrow> 'r QbtReceiver" where
  "subscribe h r = r\<lparr>rcv_handlers := rcv_handlers r @ [h]\<rparr>"

definition receiver_start ::
    "'rx \<Rightarrow> 'tx \<Rightarrow> 'h \<Rightarrow> ('rx, 'tx, 'h) ReceiverRuntime QbtReceiver \<Rightarrow>
     (QbtReceiverError + unit) \<times> ('rx, 'tx, 'h) ReceiverRuntime QbtReceiver" where
  "receiver_start rx tx h r =
     (if is_running (rcv_runtime r) then (Inl (Lifecycle ''client already running''), r)
      else (Inr (), r\<lparr>rcv_runtime := runtime_install rx tx h (rcv_runtime r)\<rparr>))"

definition receiver_stop ::
    "('rx, 'tx, 'h) ReceiverRuntime QbtReceiver \<Rightarrow>
     (QbtReceiverError + unit) \<times> ('rx, 'tx, 'h) ReceiverRuntime QbtReceiver" where
  "receiver_stop r = (Inr (), r\<lparr>rcv_runtime := snd (snd (runtime_stop (rcv_runtime r)))\<rparr>)"

definition receiver_events ::
    "('rx, 'tx, 'h) ReceiverRuntime QbtReceiver \<Rightarrow>
     (QbtReceiverError + 'rx) \<times> ('rx, 'tx, 'h) ReceiverRuntime QbtReceiver" where
  "receiver_events r =
     (let (res, rt) = take_events (Lifecycle ''event stream already taken'') (rcv_runtime r)
      in (res, r\<lparr>rcv_runtime := rt\<rparr>))"

end
