(* ===== verification/Receiver_Correct.thy ===== *)
theory Receiver_Correct
  imports Receiver
begin

text \<open>
  What the receiver's users rely on: no drop of the event queue goes unreported, the counters
  of the connection loop agree with each other and with the published telemetry, a session
  hands on exactly what the decoder makes of the bytes it read, and what happens when every
  endpoint has been marked bad.
\<close>

subsection \<open>The decoder never emits a backpressure report\<close>

fun plain_warning :: "QbtProtocolWarning \<Rightarrow> bool" where
  "plain_warning (BackpressureDrop _ _ _) = False"
| "plain_warning _ = True"

fun plain_event :: "QbtFrameEvent \<Rightarrow> bool" where
  "plain_event (Warning w) = plain_warning w"
| "plain_event _ = True"

definition plain_decoder :: "QbtProtocolDecoder \<Rightarrow> bool" where
  "plain_decoder d \<longleftrightarrow> (\<forall>p. dec_pending d = Some p \<longrightarrow> list_all plain_warning (pend_warnings p))"

lemma plain_map_warning: "list_all plain_warning ws \<Longrightarrow> list_all plain_event (map Warning ws)"
  by (simp add: list_all_iff)

lemma classify_entries_plain: "list_all plain_warning (snd (classify_entries es))"
  by (induction es) (auto split: option.splits prod.splits)

lemma parse_list_entries_plain: "parse_list_entries s c = (eps, ws) \<Longrightarrow> list_all plain_warning ws"
  using classify_entries_plain unfolding parse_list_entries_def by (metis snd_conv)

lemma parse_server_list_frame_plain:
  "parse_server_list_frame s = Inr (sl, ws) \<Longrightarrow> list_all plain_warning ws"
  by (auto simp: parse_server_list_frame_def Let_def dest!: parse_list_entries_plain
      split: if_splits option.splits prod.splits)

lemma parse_header_plain: "parse_header E h n = Inr p \<Longrightarrow> list_all plain_warning (pend_warnings p)"
  by (auto simp: parse_header_def parse_captures_def Let_def
      split: sum.splits option.splits prod.splits)

lemma store_body_plain:
  "list_all plain_warning (pend_warnings p) \<Longrightarrow> list_all plain_warning (pend_warnings (store_body E c p b))"
  by (auto simp: store_body_def Let_def split: sum.splits QbtV2CompressionPolicy.splits)

lemma emit_segment_plain: "list_all plain_event (emit_segment p)"
  by (simp add: emit_segment_def)

lemma process_buffer_plain:
  assumes "plain_decoder d" and "process_buffer E d = (r, d', evs)"
  shows "plain_decoder d' \<and> list_all plain_event evs"
proof (cases "dec_state d")
  case Resync
  with assms show ?thesis
    by (auto simp: process_buffer_def find_sync_def plain_decoder_def Let_def split: if_splits option.splits)
next
  case StartFrame
  with assms show ?thesis
    by (auto simp: process_buffer_def skip_padding_def plain_decoder_def Let_def split: if_splits)
next
  case FrameType
  with assms show ?thesis
    by (auto simp: process_buffer_def detect_frame_type_def plain_decoder_def split: if_splits list.splits)
next
  case ServerListState
  with assms show ?thesis
    by (auto simp: process_buffer_def process_server_list_def plain_decoder_def Let_def
      intro!: plain_map_warning dest: parse_server_list_frame_plain split: option.splits sum.splits)
next
  case BlockHeader
  with assms show ?thesis
    by (auto simp: process_buffer_def process_block_header_def plain_decoder_def Let_def
      dest: parse_header_plain split: if_splits sum.splits)
next
  case BlockBody
  with assms show ?thesis
    by (auto simp: process_buffer_def process_block_body_def plain_decoder_def store_body_plain
      split: if_splits option.splits)
next
  case Validate
  with assms show ?thesis
    by (auto simp: process_buffer_def validate_and_emit_def plain_decoder_def emit_segment_plain
      intro!: plain_map_warning split: option.splits)
qed

lemma feed_step_plain:
  assumes "plain_decoder d" and "feed_step E d = (p, d', evs)"
  shows "plain_decoder d' \<and> list_all plain_event evs"
proof (cases rule: feed_step_cases [OF assms(2)])
  case 1
  then show ?thesis using process_buffer_plain [OF assms(1)] by blast
next
  case (2 e d1 evs1)
  with process_buffer_plain [OF assms(1)] assms(2) show ?thesis
    by (auto simp: feed_step_def recover_def plain_decoder_def Let_def split: if_splits)
qed

lemma feed_plain:
  assumes "plain_decoder d"
  shows "plain_decoder (fst (feed E d c)) \<and> list_all plain_event (snd (feed E d c))"
  unfolding feed_def
  by (rule feed_loop_invariant [where I = plain_decoder, OF feed_step_plain])
    (use assms in \<open>auto simp: plain_decoder_def push_bytes_def\<close>)

subsection \<open>Accounting of dropped events\<close>

fun reported_drops :: "receiver_item \<Rightarrow> nat option" where
  "reported_drops (Inr (Frame (Warning (BackpressureDrop d _ _)))) = Some (unat d)"
| "reported_drops _ = None"

interpretation qbt_bp: drop_reporting "build_drop_warning r" count_warning_sent copy_drop_total reported_drops
  for r
  by unfold_locales (simp add: build_drop_warning_def)

definition drops_reported :: "receiver_item list \<Rightarrow> nat" where
  "drops_reported items = sum_list (List.map_filter reported_drops items)"

definition accounted :: "receiver_state \<Rightarrow> bool" where
  "accounted st \<longleftrightarrow>
     (let t = tel_backpressure (rx_telemetry st) in
      (bp_event_queue_drop_total t = - 1 \<or>
       drops_reported (snd_delivered (rx_sender st)) + unat (bp_dropped_since_last_report t)
         = unat (bp_event_queue_drop_total t))
      \<and> event_queue_drop_total (tel_snapshot (rx_telemetry st)) = bp_event_queue_drop_total t
      \<and> drops_counted t (rx_sender st))"

lemma accounted_iff:
  "accounted st \<longleftrightarrow>
     qbt_bp.balanced (tel_backpressure (rx_telemetry st)) (snd_delivered (rx_sender st))
     \<and> event_queue_drop_total (tel_snapshot (rx_telemetry st))
        = bp_event_queue_drop_total (tel_backpressure (rx_telemetry st))
     \<and> drops_counted (tel_backpressure (rx_telemetry st)) (rx_sender st)"
  by (simp add: accounted_def qbt_bp.balanced_def drops_reported_def qbt_bp.reports_def Let_def)

lemma send_drop_total:
  assumes "try_send_with_backpressure_warning b count_warning_sent copy_drop_total e (t, sn, s) = (t', sn', s')"
    and "event_queue_drop_total sn = bp_event_queue_drop_total t"
  shows "event_queue_drop_total sn' = bp_event_queue_drop_total t'"
  using assms
  by (auto simp: try_send_with_backpressure_warning_def count_warning_sent_def copy_drop_total_def
      clear_pending_report_def Let_def split: if_splits option.splits prod.splits)

lemma accounted_send:
  assumes "accounted st" and "reported_drops e = None"
  shows "accounted (try_send_event e st)"
proof -
  let ?tel = "rx_telemetry st"
  let ?b = "build_drop_warning (decoder_recovery_events_total (tel_snapshot ?tel))"
  obtain t sn s where res: "try_send_with_backpressure_warning ?b count_warning_sent copy_drop_total e
      (tel_backpressure ?tel, tel_snapshot ?tel, rx_sender st) = (t, sn, s)"
    by (cases "try_send_with_backpressure_warning ?b count_warning_sent copy_drop_total e
      (tel_backpressure ?tel, tel_snapshot ?tel, rx_sender st)")
  then show ?thesis
    using assms qbt_bp.balanced_send [OF _ assms(2) res] send_drop_total [OF res] drops_counted_send [OF _ res]
    by (simp add: accounted_iff try_send_event_def)
qed

lemma accounted_on_snapshot:
  "(\<And>sn. event_queue_drop_total (f sn) = event_queue_drop_total sn) \<Longrightarrow>
     accounted (on_snapshot f st) = accounted st"
  by (simp add: accounted_def on_snapshot_def)

lemma accounted_other [simp]:
  "accounted (update_telemetry_sink st) = accounted st"
  "accounted (st\<lparr>rx_server_list := m\<rparr>) = accounted st"
  "accounted (st\<lparr>rx_disk := dsk\<rparr>) = accounted st"
  "accounted (st\<lparr>rx_draws := n\<rparr>) = accounted st"
  by (simp_all add: accounted_def update_telemetry_sink_def)

lemma accounted_handlers: "accounted st \<Longrightarrow> accounted (run_handlers hs ev st)"
  by (induction hs arbitrary: st)
    (auto simp: Let_def accounted_on_snapshot accounted_send split: sum.splits)

lemma plain_not_reported: "plain_event ev \<Longrightarrow> reported_drops (Inr (Frame ev)) = None"
  by (cases "Inr (Frame ev) :: receiver_item" rule: reported_drops.cases) auto

lemma accounted_dispatch:
  "accounted st \<Longrightarrow> list_all plain_event evs \<Longrightarrow> accounted (dispatch_events hs evs st)"
  by (induction evs arbitrary: st) (auto simp: accounted_send accounted_handlers plain_not_reported)

lemma accounted_apply_update: "accounted st \<Longrightarrow> accounted (apply_update X sl st)"
  by (auto simp: apply_update_def Let_def accounted_send split: sum.splits prod.splits)

lemma accounted_apply_updates: "accounted st \<Longrightarrow> accounted (apply_updates X cfg evs st)"
  by (induction evs arbitrary: st) (auto simp: accounted_apply_update split: QbtFrameEvent.splits)

lemma accounted_session_step:
  assumes "plain_decoder (ses_decoder ses)" and "accounted st"
    and "session_step E X cfg hs inp (ses, st) = (r, ses', st')"
  shows "plain_decoder (ses_decoder ses') \<and> accounted st'"
proof (cases inp)
  case (ReadData now chunk)
  have "plain_decoder (fst (feed E (ses_decoder ses) chunk))"
    "list_all plain_event (snd (feed E (ses_decoder ses) chunk))"
    using feed_plain [OF assms(1)] by blast+
  with assms ReadData show ?thesis
    by (auto simp: session_step_def read_data_def Let_def accounted_on_snapshot count_frame_events_def
      intro!: accounted_dispatch accounted_apply_updates split: if_splits prod.splits)
qed (use assms in \<open>auto simp: session_step_def count_logon_def accounted_on_snapshot Let_def
      intro!: accounted_send split: if_splits option.splits\<close>)

lemma accounted_session_loop:
  assumes "plain_decoder (ses_decoder ses)" and "accounted st"
    and "session_loop E X cfg hs inps (ses, st) = (r, ses', st')"
  shows "accounted st'"
  using assms
proof (induction inps arbitrary: ses st)
  case (Cons inp inps)
  obtain r1 ses1 st1 where step: "session_step E X cfg hs inp (ses, st) = (r1, ses1, st1)"
    by (cases "session_step E X cfg hs inp (ses, st)")
  from accounted_session_step [OF Cons.prems(1,2) step] Cons step show ?case
    by (auto split: option.splits)
qed simp

lemma plain_decoder_new: "plain_decoder (ses_decoder (session_new cfg start))"
  by (simp add: plain_decoder_def session_new_def decoder_new_def)

lemma accounted_session:
  assumes "accounted st" and "run_connected_session E X cfg hs start w inps st = (r, st')"
  shows "accounted st'"
proof (cases w)
  case None
  have "accounted (count_logon st)"
    using assms(1) by (simp add: count_logon_def accounted_on_snapshot)
  with assms(2) None show ?thesis
    by (auto simp: run_connected_session_def dest: accounted_session_loop [OF plain_decoder_new]
      split: prod.splits)
qed (use assms in \<open>simp add: run_connected_session_def\<close>)

lemma accounted_loop_step:
  assumes "accounted st" and "loop_step E X cfg hs c st = Some st'"
  shows "accounted st'"
  using assms
  by (auto simp: loop_step_def connected_attempt_def failed_attempt_def count_attempt_def mark_bad_def
      accounted_on_snapshot Let_def intro!: accounted_send dest!: accounted_session [rotated]
      split: prod.splits option.splits sum.splits if_splits)

lemma accounted_loop:
  "accounted st \<Longrightarrow> connection_loop E X cfg hs cs st = Some st' \<Longrightarrow> accounted st'"
  by (induction E X cfg hs cs st rule: connection_loop.induct)
    (auto dest: accounted_loop_step split: option.splits)

lemma accounted_load:
  "accounted (load_list X cfg (receiver_initial cfg (sender_new env) sink dsk ent))"
proof -
  have "accounted (receiver_initial cfg (sender_new env) sink dsk ent)"
    by (simp add: accounted_def receiver_initial_def sender_new_def tracker_default_def
      telemetry_default_def drops_reported_def drops_counted_def queue_drops_def map_filter_def)
  then show ?thesis
    by (auto simp: load_list_def Let_def accounted_send split: prod.splits sum.splits)
qed

subsection \<open>Connection counters\<close>

text \<open>The part of the telemetry that only the connection loop changes.\<close>

definition conn_counts :: "receiver_state \<Rightarrow> u64 \<times> u64 \<times> u64 \<times> u64" where
  "conn_counts st =
     (let sn = tel_snapshot (rx_telemetry st)
      in (connection_attempts_total sn, connection_success_total sn, connection_fail_total sn,
          disconnect_total sn))"

lemma send_conn_counts [simp]: "conn_counts (try_send_event e st) = conn_counts st"
  by (auto simp: conn_counts_def try_send_event_def try_send_with_backpressure_warning_def
      count_warning_sent_def copy_drop_total_def Let_def split: prod.splits option.splits)

lemma other_conn_counts [simp]:
  "conn_counts (update_telemetry_sink st) = conn_counts st"
  "conn_counts (st\<lparr>rx_server_list := m\<rparr>) = conn_counts st"
  "conn_counts (st\<lparr>rx_disk := dsk\<rparr>) = conn_counts st"
  "conn_counts (st\<lparr>rx_draws := n\<rparr>) = conn_counts st"
  by (simp_all add: conn_counts_def update_telemetry_sink_def)

lemma snapshot_conn_counts:
  assumes "\<And>sn. connection_attempts_total (f sn) = connection_attempts_total sn
    \<and> connection_success_total (f sn) = connection_success_total sn
    \<and> connection_fail_total (f sn) = connection_fail_total sn
    \<and> disconnect_total (f sn) = disconnect_total sn"
  shows "conn_counts (on_snapshot f st) = conn_counts st"
  using assms by (simp add: conn_counts_def on_snapshot_def Let_def)

lemma handlers_conn_counts [simp]: "conn_counts (run_handlers hs ev st) = conn_counts st"
  by (induction hs arbitrary: st) (auto simp: Let_def snapshot_conn_counts split: sum.splits)

lemma dispatch_conn_counts [simp]: "conn_counts (dispatch_events hs evs st) = conn_counts st"
  by (induction evs arbitrary: st) auto

lemma updates_conn_counts [simp]: "conn_counts (apply_updates X cfg evs st) = conn_counts st"
proof (induction evs arbitrary: st)
  case (Cons ev evs)
  have "conn_counts (apply_update X sl s) = conn_counts s" for sl s
    by (simp add: apply_update_def Let_def split: prod.splits sum.splits)
  with Cons show ?case by (simp split: QbtFrameEvent.splits)
qed simp

lemma session_step_conn_counts:
  "session_step E X cfg hs inp (ses, st) = (r, ses', st') \<Longrightarrow> conn_counts st' = conn_counts st"
  by (cases inp) (auto simp: session_step_def read_data_def count_logon_def snapshot_conn_counts
      count_frame_events_def Let_def split: if_splits option.splits prod.splits)

lemma session_loop_conn_counts:
  "session_loop E X cfg hs inps (ses, st) = (r, ses', st') \<Longrightarrow> conn_counts st' = conn_counts st"
proof (induction inps arbitrary: ses st)
  case (Cons inp inps)
  obtain r1 ses1 st1 where step: "session_step E X cfg hs inp (ses, st) = (r1, ses1, st1)"
    by (cases "session_step E X cfg hs inp (ses, st)")
  from session_step_conn_counts [OF step] Cons step show ?case
    by (auto split: option.splits)
qed simp

lemma session_conn_counts:
  "run_connected_session E X cfg hs start w inps st = (r, st') \<Longrightarrow> conn_counts st' = conn_counts st"
  by (auto simp: run_connected_session_def count_logon_def snapshot_conn_counts
      dest!: session_loop_conn_counts split: option.splits prod.splits)

lemma mark_bad_conn_counts [simp]: "conn_counts (mark_bad cfg ep st) = conn_counts st"
  by (simp add: mark_bad_def)

lemma bump_conn_counts:
  "conn_counts (on_snapshot (\<lambda>sn. sn\<lparr>connection_success_total := sat_add (connection_success_total sn) 1\<rparr>) st) =
     (case conn_counts st of (a, s, f, d) \<Rightarrow> (a, sat_add s 1, f, d))"
  "conn_counts (on_snapshot (\<lambda>sn. sn\<lparr>connection_fail_total := sat_add (connection_fail_total sn) 1\<rparr>) st) =
     (case conn_counts st of (a, s, f, d) \<Rightarrow> (a, s, sat_add f 1, d))"
  "conn_counts (on_snapshot (\<lambda>sn. sn\<lparr>disconnect_total := sat_add (disconnect_total sn) 1\<rparr>) st) =
     (case conn_counts st of (a, s, f, d) \<Rightarrow> (a, s, f, sat_add d 1))"
  "conn_counts (count_attempt st) =
     (case conn_counts st of (a, s, f, d) \<Rightarrow> (sat_add a 1, s, f, d))"
  by (simp_all add: conn_counts_def on_snapshot_def count_attempt_def update_telemetry_sink_def Let_def)

lemma loop_step_conn_counts:
  assumes "loop_step E X cfg hs c st = Some st'" and "conn_counts st = (a, s, f, d)"
  shows "conn_counts st' \<in> {(sat_add a 1, s, f, d), (sat_add a 1, sat_add s 1, f, sat_add d 1),
    (sat_add a 1, s, sat_add f 1, d)}"
  using assms
  by (auto simp: loop_step_def connected_attempt_def failed_attempt_def bump_conn_counts Let_def
      dest!: session_conn_counts split: prod.splits option.splits sum.splits if_splits)

definition counts_agree :: "u64 \<times> u64 \<times> u64 \<times> u64 \<Rightarrow> bool" where
  "counts_agree c \<longleftrightarrow>
     (let (a, s, f, d) = c in d = s \<and> (a = - 1 \<or> unat s + unat f \<le> unat a))"

lemma counts_agree_step:
  assumes "counts_agree (a, s, f, d)"
    and "c \<in> {(sat_add a 1, s, f, d), (sat_add a 1, sat_add s 1, f, sat_add d 1), (sat_add a 1, s, sat_add f 1, d)}"
  shows "counts_agree c"
proof (cases "a = - 1")
  case True
  then have "sat_add a 1 = - 1"
    by (simp add: sat_add_def unsigned_minus_1_eq_mask mask_eq_exp_minus_1)
  with assms show ?thesis by (auto simp: counts_agree_def)
next
  case False
  then have "unat (sat_add a 1) = unat a + 1"
    using unat_u64_max [OF False] by (simp add: unat_sat_add)
  moreover have "unat (sat_add s 1) \<le> unat s + 1" "unat (sat_add f 1) \<le> unat f + 1"
    by (simp_all add: unat_sat_add)
  ultimately show ?thesis
    using assms False by (auto simp: counts_agree_def)
qed

lemma counts_agree_loop:
  "counts_agree (conn_counts st) \<Longrightarrow> connection_loop E X cfg hs cs st = Some st' \<Longrightarrow>
     counts_agree (conn_counts st')"
proof (induction cs arbitrary: st)
  case (Cons c cs)
  then obtain st1 where st1: "loop_step E X cfg hs c st = Some st1"
    and rest: "connection_loop E X cfg hs cs st1 = Some st'"
    by (auto split: option.splits)
  have "counts_agree (conn_counts st1)"
    using counts_agree_step [OF _ loop_step_conn_counts [OF st1]] Cons.prems(1)
    by (metis prod_cases4)
  then show ?case using Cons.IH rest by blast
qed simp

subsection \<open>A session hands on what the decoder emits\<close>

fun frame_of :: "receiver_item \<Rightarrow> QbtFrameEvent option" where
  "frame_of (Inr (Frame ev)) = Some ev"
| "frame_of _ = None"

definition frames :: "receiver_state \<Rightarrow> QbtFrameEvent list" where
  "frames st = List.map_filter frame_of (snd_delivered (rx_sender st))"

text \<open>Nothing is pending and the queue never fills up.\<close>

definition flowing :: "receiver_state \<Rightarrow> bool" where
  "flowing st \<longleftrightarrow>
     (\<forall>n. snd_env (rx_sender st) n = None)
     \<and> bp_dropped_since_last_report (tel_backpressure (rx_telemetry st)) = 0"

lemma send_flowing:
  assumes "flowing st"
  shows "flowing (try_send_event e st)"
    "frames (try_send_event e st) = frames st @ (case frame_of e of None \<Rightarrow> [] | Some ev \<Rightarrow> [ev])"
  using assms
  by (auto simp: flowing_def frames_def try_send_event_def try_send_with_backpressure_warning_def
      has_pending_report_def try_send_def map_filter_def Let_def split: option.splits)

lemma other_flowing [simp]:
  "flowing (update_telemetry_sink st) = flowing st" "frames (update_telemetry_sink st) = frames st"
  "flowing (st\<lparr>rx_server_list := m\<rparr>) = flowing st" "frames (st\<lparr>rx_server_list := m\<rparr>) = frames st"
  "flowing (st\<lparr>rx_disk := dsk\<rparr>) = flowing st" "frames (st\<lparr>rx_disk := dsk\<rparr>) = frames st"
  "flowing (st\<lparr>rx_draws := n\<rparr>) = flowing st" "frames (st\<lparr>rx_draws := n\<rparr>) = frames st"
  "flowing (on_snapshot f st) = flowing st" "frames (on_snapshot f st) = frames st"
  by (simp_all add: flowing_def frames_def update_telemetry_sink_def on_snapshot_def)

lemma handlers_idle:
  "\<forall>h\<in>set hs. \<forall>ev. h ev = Inr () \<Longrightarrow> run_handlers hs ev st = st"
  by (induction hs) auto

lemma dispatch_flowing:
  assumes "\<forall>h\<in>set hs. \<forall>ev. h ev = Inr ()" and "flowing st"
  shows "flowing (dispatch_events hs evs st) \<and> frames (dispatch_events hs evs st) = frames st @ evs"
  using assms(2)
  by (induction evs arbitrary: st) (auto simp: handlers_idle [OF assms(1)] send_flowing)

lemma update_flowing:
  "flowing st \<Longrightarrow> flowing (apply_update X sl st) \<and> frames (apply_update X sl st) = frames st"
  by (auto simp: apply_update_def Let_def send_flowing split: prod.splits sum.splits)

lemma updates_flowing:
  "flowing st \<Longrightarrow> flowing (apply_updates X cfg evs st) \<and> frames (apply_updates X cfg evs st) = frames st"
proof (induction evs arbitrary: st)
  case (Cons ev evs)
  let ?st = "case ev of ServerListUpdate sl \<Rightarrow> if cfg_follow_server_list_updates cfg then apply_update X sl st else st
      | _ \<Rightarrow> st"
  have "flowing ?st \<and> frames ?st = frames st"
    using update_flowing [OF Cons.prems] Cons.prems by (auto split: QbtFrameEvent.splits)
  with Cons.IH [of ?st] show ?case by simp
qed simp

fun undisturbed :: "session_input \<Rightarrow> bool" where
  "undisturbed (AuthTick None) = True"
| "undisturbed TelemetryTick = True"
| "undisturbed (ReadData _ chunk) = (chunk \<noteq> [])"
| "undisturbed _ = False"

fun chunk_of :: "session_input \<Rightarrow> byte list option" where
  "chunk_of (ReadData _ chunk) = Some chunk"
| "chunk_of _ = None"

lemma read_data_flowing:
  assumes hs: "\<forall>h\<in>set hs. \<forall>ev. h ev = Inr ()" and flow: "flowing st"
    and res: "read_data E X cfg hs now chunk (ses, st) = (ses', st')"
  shows "flowing st' \<and> ses_decoder ses' = fst (feed E (ses_decoder ses) chunk)
    \<and> frames st' = frames st @ snd (feed E (ses_decoder ses) chunk)"
proof -
  let ?evs = "snd (feed E (ses_decoder ses) chunk)"
  let ?st2 = "on_snapshot (count_frame_events ?evs)
    (on_snapshot (\<lambda>sn. sn\<lparr>bytes_in_total := sat_add (bytes_in_total sn) (of_nat (length chunk))\<rparr>) st)"
  have "flowing (apply_updates X cfg ?evs ?st2)" "frames (apply_updates X cfg ?evs ?st2) = frames st"
    using updates_flowing [of ?st2 X cfg ?evs] flow by simp_all
  with dispatch_flowing [OF hs, of "apply_updates X cfg ?evs ?st2" ?evs] res show ?thesis
    by (auto simp: read_data_def Let_def split: prod.splits)
qed

lemma session_step_flowing:
  assumes "\<forall>h\<in>set hs. \<forall>ev. h ev = Inr ()" and "flowing st" and "undisturbed inp"
    and "session_step E X cfg hs inp (ses, st) = (r, ses', st')"
  shows "r = None \<and> flowing st' \<and>
    (case chunk_of inp of
       None \<Rightarrow> ses_decoder ses' = ses_decoder ses \<and> frames st' = frames st
     | Some chunk \<Rightarrow> ses_decoder ses' = fst (feed E (ses_decoder ses) chunk)
         \<and> frames st' = frames st @ snd (feed E (ses_decoder ses) chunk))"
proof (cases inp)
  case (ReadData now chunk)
  with assms show ?thesis
    using read_data_flowing [OF assms(1,2)] by (auto simp: session_step_def)
next
  case (AuthTick w)
  with assms show ?thesis
    by (cases w) (auto simp: session_step_def count_logon_def)
qed (use assms in \<open>auto simp: session_step_def Let_def send_flowing\<close>)

lemma session_loop_flowing:
  assumes hs: "\<forall>h\<in>set hs. \<forall>ev. h ev = Inr ()"
    and "flowing st" and "list_all undisturbed inps"
    and "session_loop E X cfg hs inps (ses, st) = (r, ses', st')"
  shows "r = None \<and> flowing st' \<and> ses_decoder ses' = fst (run_chunks (feed E) (ses_decoder ses) (List.map_filter chunk_of inps))
    \<and> frames st' = frames st @ snd (run_chunks (feed E) (ses_decoder ses) (List.map_filter chunk_of inps))"
  using assms(2-)
proof (induction inps arbitrary: ses st)
  case Nil
  then show ?case by (simp add: map_filter_def)
next
  case (Cons inp inps)
  obtain r1 ses1 st1 where step: "session_step E X cfg hs inp (ses, st) = (r1, ses1, st1)"
    by (cases "session_step E X cfg hs inp (ses, st)")
  note s = session_step_flowing [OF hs Cons.prems(1) _ step]
  have r1: "r1 = None" and flow: "flowing st1" using s Cons.prems(2) by auto
  have rest: "session_loop E X cfg hs inps (ses1, st1) = (r, ses', st')"
    using Cons.prems(3) step r1 by simp
  show ?case
    using Cons.IH [OF flow _ rest] s Cons.prems(2)
    by (cases "chunk_of inp") (auto simp: map_filter_simps split: prod.splits)
qed

lemma session_stream:
  assumes "\<forall>h\<in>set hs. \<forall>ev. h ev = Inr ()" and "flowing st" and "list_all undisturbed inps"
  shows "let (r, st') = run_connected_session E X cfg hs start None inps st in
    r = None \<and> frames st' = frames st @
      snd (feed E (decoder_new (cfg_decode cfg)) (concat (List.map_filter chunk_of inps)))"
proof -
  obtain r ses' st' where loop:
    "session_loop E X cfg hs inps (session_new cfg start, count_logon st) = (r, ses', st')"
    by (cases "session_loop E X cfg hs inps (session_new cfg start, count_logon st)")
  have "flowing (count_logon st)" "frames (count_logon st) = frames st"
    using assms(2) by (simp_all add: count_logon_def)
  then have "r = None \<and> frames st' = frames st @
      snd (run_chunks (feed E) (decoder_new (cfg_decode cfg)) (List.map_filter chunk_of inps))"
    using session_loop_flowing [OF assms(1) _ assms(3) loop] by (simp add: session_new_def)
  moreover have "run_chunks (feed E) (decoder_new (cfg_decode cfg)) cs =
      feed E (decoder_new (cfg_decode cfg)) (concat cs)" for cs
    by (rule qbt.run_chunks_concat) simp
  ultimately show ?thesis
    using loop by (simp add: run_connected_session_def)
qed

subsection \<open>Exhausted endpoints\<close>

definition available :: "receiver_state \<Rightarrow> endpoint set" where
  "available st = set (primary_available (rx_server_list st)) \<union> set (satellite_available (rx_server_list st))"

lemma available_other [simp]:
  "available (try_send_event e st) = available st"
  "available (update_telemetry_sink st) = available st"
  "available (on_snapshot f st) = available st"
  "available (count_attempt st) = available st"
  by (simp_all add: available_def try_send_event_def update_telemetry_sink_def on_snapshot_def
    count_attempt_def Let_def split: prod.splits)

lemma count_attempt_server_list [simp]: "rx_server_list (count_attempt st) = rx_server_list st"
  by (simp add: count_attempt_def update_telemetry_sink_def on_snapshot_def)

lemma next_endpoint_available:
  assumes "next_endpoint m = (r, m')"
  shows "set (primary_available m') = set (primary_available m)"
    "set (satellite_available m') = set (satellite_available m)"
    "case r of None \<Rightarrow> set (primary_available m) \<union> set (satellite_available m) = {}
     | Some ep \<Rightarrow> ep \<in> set (primary_available m) \<union> set (satellite_available m)"
  using assms by (auto simp: next_endpoint_def split: list.splits)

lemma loop_step_exhausted:
  assumes "available st = {}"
  shows "\<exists>st'. loop_step E X cfg hs c st = Some st' \<and> available st' = {}
    \<and> fst (snd (conn_counts st')) = fst (snd (conn_counts st))"
proof -
  have "next_endpoint (rx_server_list (count_attempt st)) = (None, rx_server_list st)"
    using assms by (simp add: available_def next_endpoint_def count_attempt_def update_telemetry_sink_def
      on_snapshot_def)
  then show ?thesis
    using assms bump_conn_counts(4) [of st]
    by (auto simp: loop_step_def Let_def split: prod.splits) (simp add: available_def count_attempt_def
      update_telemetry_sink_def on_snapshot_def)
qed

lemma loop_step_failing:
  assumes "cfg_follow_server_list_updates cfg" and "\<forall>ep t. \<exists>e. c ep t = Inl e"
  shows "\<exists>st'. loop_step E X cfg hs c st = Some st'
    \<and> card (available st') = card (available st) - 1
    \<and> fst (snd (conn_counts st')) = fst (snd (conn_counts st))"
proof -
  let ?st1 = "count_attempt st"
  obtain r m where n: "next_endpoint (rx_server_list st) = (r, m)"
    by (cases "next_endpoint (rx_server_list st)")
  note av = next_endpoint_available [OF n]
  show ?thesis
  proof (cases r)
    case None
    then have "available st = {}" using av(3) by (auto simp: available_def)
    then show ?thesis
      using loop_step_exhausted [of st E X cfg hs c] by auto
  next
    case (Some ep)
    obtain e where e: "c ep (connect_timeout cfg) = Inl e" using assms(2) by blast
    let ?st' = "failed_attempt cfg ep e (?st1\<lparr>rx_server_list := m\<rparr>)"
    have "loop_step E X cfg hs c st = Some ?st'"
      using n e Some by (simp add: loop_step_def)
    moreover have "available ?st' = available st - {ep}"
      using assms(1) av(1,2)
      by (auto simp: failed_attempt_def mark_bad_def mark_bad_endpoint_def on_snapshot_def
        available_def [of "_\<lparr>rx_server_list := _\<rparr>"] available_def [of st])
    moreover have "ep \<in> available st" using av(3) Some by (auto simp: available_def)
    moreover have "fst (snd (conn_counts ?st')) = fst (snd (conn_counts st))"
      by (simp add: failed_attempt_def bump_conn_counts split: prod.splits)
    moreover have "finite (available st)" by (simp add: available_def)
    ultimately show ?thesis by auto
  qed
qed

lemma loop_failing:
  assumes "cfg_follow_server_list_updates cfg" and "\<forall>c\<in>set cs. \<forall>ep t. \<exists>e. c ep t = Inl e"
  shows "\<exists>st'. connection_loop E X cfg hs cs st = Some st'
    \<and> card (available st') = card (available st) - length cs
    \<and> fst (snd (conn_counts st')) = fst (snd (conn_counts st))"
  using assms(2)
proof (induction cs arbitrary: st)
  case (Cons c cs)
  then obtain st1 where "loop_step E X cfg hs c st = Some st1"
    "card (available st1) = card (available st) - 1" "fst (snd (conn_counts st1)) = fst (snd (conn_counts st))"
    using loop_step_failing [OF assms(1), of c E X hs st] by auto
  with Cons.IH [of st1] Cons.prems show ?case by fastforce
qed simp

lemma loop_exhausted:
  "available st = {} \<Longrightarrow> \<exists>st'. connection_loop E X cfg hs cs st = Some st' \<and> available st' = {}
     \<and> fst (snd (conn_counts st')) = fst (snd (conn_counts st))"
proof (induction cs arbitrary: st)
  case (Cons c cs)
  obtain st1 where "loop_step E X cfg hs c st = Some st1" "available st1 = {}"
    "fst (snd (conn_counts st1)) = fst (snd (conn_counts st))"
    using loop_step_exhausted [OF Cons.prems] by blast
  with Cons.IH [of st1] show ?case by auto
qed simp

lemma connection_loop_append:
  "connection_loop E X cfg hs (cs @ cs') st =
     (case connection_loop E X cfg hs cs st of
        None \<Rightarrow> None | Some st' \<Rightarrow> connection_loop E X cfg hs cs' st')"
  by (induction cs arbitrary: st) (auto split: option.splits)

subsection \<open>Properties\<close>

text \<open>
  C11: Whatever the network, the handlers and the consumer of the event queue do, at every end
  of the connection loop the drop total is the number of send attempts that the queue refused because
  it was full (up to the 64-bit maximum, where the counter saturates); each of those drops has been
  reported in exactly one delivered backpressure warning or is still pending (unless the total has
  saturated), and the published telemetry shows the total.
\<close>

theorem receiver_reports_every_drop:
  assumes "run_connection_loop E X cfg hs attempts (sender_new env) sink dsk ent = Some st"
  shows "let t = tel_backpressure (rx_telemetry st) in
    unat (bp_event_queue_drop_total t) = min (queue_drops (rx_sender st)) (2 ^ 64 - 1)
    \<and> (bp_event_queue_drop_total t = - 1 \<or>
     drops_reported (snd_delivered (rx_sender st)) + unat (bp_dropped_since_last_report t)
       = unat (bp_event_queue_drop_total t))
    \<and> event_queue_drop_total (rx_sink st) = bp_event_queue_drop_total t"
proof -
  obtain st1 where "connection_loop E X cfg hs attempts
      (load_list X cfg (receiver_initial cfg (sender_new env) sink dsk ent)) = Some st1"
    and st: "st = update_telemetry_sink st1"
    using assms by (auto simp: run_connection_loop_def)
  then have "accounted st1" using accounted_loop [OF accounted_load] by blast
  then show ?thesis
    by (auto simp: st accounted_def drops_counted_def update_telemetry_sink_def Let_def)
qed

definition sample_receiver_config :: QbtReceiverConfig where
  "sample_receiver_config =
     \<lparr>cfg_email = ''a@b'', cfg_servers = [(''h'', 1)], cfg_server_list_path = None,
      cfg_follow_server_list_updates = True, cfg_reconnect_delay_secs = 1,
      cfg_connection_timeout_secs = 9, cfg_watchdog_timeout_secs = 20, cfg_max_exceptions = 3,
      cfg_decode = QbtDecodeConfig_default\<rparr>"

definition refusing :: connect_env where
  "refusing ep t = Inl ''refused''"

lemma sample_run:
  "\<exists>st. run_connection_loop sample_ext sample_slm_ext sample_receiver_config [] (replicate n refusing) s
     sink dsk ent = Some st"
proof -
  have "cfg_follow_server_list_updates sample_receiver_config" by (simp add: sample_receiver_config_def)
  from loop_failing [OF this, of "replicate n refusing" sample_ext sample_slm_ext "[]"
      "load_list sample_slm_ext sample_receiver_config (receiver_initial sample_receiver_config s sink dsk ent)"]
  show ?thesis by (auto simp: run_connection_loop_def refusing_def)
qed

theorem receiver_reports_every_drop_witness:
  "\<exists>st. run_connection_loop sample_ext sample_slm_ext sample_receiver_config [] (replicate 2 refusing)
      (sender_new (\<lambda>n. if n = 0 then Some Full else None)) telemetry_default (\<lambda>_. None) (\<lambda>_. 7) = Some st
   \<and> (let t = tel_backpressure (rx_telemetry st) in
    unat (bp_event_queue_drop_total t) = min (queue_drops (rx_sender st)) (2 ^ 64 - 1)
    \<and> (bp_event_queue_drop_total t = - 1 \<or>
     drops_reported (snd_delivered (rx_sender st)) + unat (bp_dropped_since_last_report t)
       = unat (bp_event_queue_drop_total t))
    \<and> event_queue_drop_total (rx_sink st) = bp_event_queue_drop_total t)"
proof -
  let ?run = "run_connection_loop sample_ext sample_slm_ext sample_receiver_config [] (replicate 2 refusing)
      (sender_new (\<lambda>n. if n = 0 then Some Full else None)) telemetry_default (\<lambda>_. None) (\<lambda>_. 7)"
  obtain st where "?run = Some st"
    using sample_run by blast
  then show ?thesis using receiver_reports_every_drop by blast
qed

text \<open>
  Whenever the connection loop is between attempts, every successful connection has been
  matched by a disconnection, and successes and failures together do not exceed the attempts
  (unless the attempt counter has saturated).
\<close>

theorem connection_counters_agree:
  assumes "run_connection_loop E X cfg hs attempts s sink dsk ent = Some st"
  shows "let sn = rx_sink st in disconnect_total sn = connection_success_total sn
    \<and> (connection_attempts_total sn = - 1 \<or>
       unat (connection_success_total sn) + unat (connection_fail_total sn) \<le> unat (connection_attempts_total sn))"
proof -
  let ?st0 = "load_list X cfg (receiver_initial cfg s sink dsk ent)"
  obtain st1 where run: "connection_loop E X cfg hs attempts ?st0 = Some st1"
    and st: "st = update_telemetry_sink st1"
    using assms by (auto simp: run_connection_loop_def)
  have "conn_counts ?st0 = (0, 0, 0, 0)"
    by (auto simp: load_list_def Let_def split: prod.splits sum.splits)
      (simp_all add: conn_counts_def receiver_initial_def telemetry_default_def)
  then have "counts_agree (conn_counts st1)"
    using counts_agree_loop [OF _ run] by (simp add: counts_agree_def)
  then show ?thesis
    by (simp add: st update_telemetry_sink_def counts_agree_def conn_counts_def Let_def)
qed

theorem connection_counters_agree_witness:
  "\<exists>st. run_connection_loop sample_ext sample_slm_ext sample_receiver_config [] (replicate 1 refusing)
      (sender_new (\<lambda>_. None)) telemetry_default (\<lambda>_. None) (\<lambda>_. 7) = Some st
   \<and> (let sn = rx_sink st in disconnect_total sn = connection_success_total sn
    \<and> (connection_attempts_total sn = - 1 \<or>
       unat (connection_success_total sn) + unat (connection_fail_total sn) \<le> unat (connection_attempts_total sn)))"
proof -
  let ?run = "run_connection_loop sample_ext sample_slm_ext sample_receiver_config [] (replicate 1 refusing)
      (sender_new (\<lambda>_. None)) telemetry_default (\<lambda>_. None) (\<lambda>_. 7)"
  obtain st where "?run = Some st"
    using sample_run by blast
  then show ?thesis using connection_counters_agree by blast
qed

text \<open>
  C9: While the queue accepts every event, no handler fails and the connection lasts, the
  frame events a session delivers are exactly what the decoder makes of the concatenation of
  all bytes read, however the reads cut them and whatever ticks come in between.
\<close>

theorem session_delivers_decoded_stream:
  assumes "\<forall>h\<in>set hs. \<forall>ev. h ev = Inr ()" and "flowing st" and "list_all undisturbed inps"
  shows "let (r, st') = run_connected_session E X cfg hs start None inps st in
    r = None \<and> frames st' = frames st @
      snd (feed E (decoder_new (cfg_decode cfg)) (concat (List.map_filter chunk_of inps)))"
  using assms by (rule session_stream)

theorem session_delivers_decoded_stream_witness:
  "let st0 = receiver_initial sample_receiver_config (sender_new (\<lambda>_. None)) telemetry_default (\<lambda>_. None) (\<lambda>_. 7);
       (r, st') = run_connected_session sample_ext sample_slm_ext sample_receiver_config [\<lambda>_. Inr ()] 5 None
         [ReadData 6 [255], TelemetryTick, ReadData 7 [1, 2], AuthTick None] st0
   in r = None \<and> frames st' = frames st0 @
      snd (feed sample_ext (decoder_new (cfg_decode sample_receiver_config))
        (concat (List.map_filter chunk_of
           [ReadData 6 [255], TelemetryTick, ReadData 7 [1, 2], AuthTick None])))"
  unfolding Let_def [where ?s = "receiver_initial _ _ _ _ _"]
  by (rule session_delivers_decoded_stream)
    (simp_all add: flowing_def receiver_initial_def sender_new_def tracker_default_def)

text \<open>
  When the receiver follows server-list updates and has no persisted list, once as many
  attempts have failed as there are distinct configured servers it never connects again: no
  later attempt succeeds, whatever the servers then answer.
\<close>

theorem follow_mode_gives_up:
  assumes "cfg_follow_server_list_updates cfg" and "cfg_server_list_path cfg = None"
    and "\<forall>c\<in>set failing. \<forall>ep t. \<exists>e. c ep t = Inl e"
    and "card (set (cfg_servers cfg)) \<le> length failing"
  shows "\<exists>st. run_connection_loop E X cfg hs (failing @ later) s sink dsk ent = Some st
    \<and> connection_success_total (rx_sink st) = 0"
proof -
  let ?st0 = "load_list X cfg (receiver_initial cfg s sink dsk ent)"
  have path: "slm_path (slm_new a b p d) = p" for a b p d
    by (simp add: slm_new_def rebuild_available_def Let_def split: prod.splits)
  have st0: "rx_server_list ?st0 = slm_new (ent 0) (ent 1) None (cfg_servers cfg)"
    "fst (snd (conn_counts ?st0)) = 0"
    using assms(1,2)
    by (simp_all add: load_list_def receiver_initial_def slm_load_def path conn_counts_def telemetry_default_def)
  let ?m = "slm_new (ent 0) (ent 1) None (cfg_servers cfg)"
  have "set (primary_available ?m) = set (cfg_servers cfg)" "set (satellite_available ?m) = {}"
    using arg_cong [OF rebuild_available_permutes(1), of set_mset]
      arg_cong [OF rebuild_available_permutes(2), of set_mset]
    by (simp_all add: slm_new_def flip: set_mset_mset)
  then have "available ?st0 = set (cfg_servers cfg)" by (simp add: available_def st0)
  then obtain st1 where st1: "connection_loop E X cfg hs failing ?st0 = Some st1"
    "card (available st1) = 0" "fst (snd (conn_counts st1)) = 0"
    using loop_failing [OF assms(1,3), of E X hs ?st0] assms(4) st0(2) by auto
  then have "available st1 = {}" by (simp add: available_def)
  then obtain st2 where "connection_loop E X cfg hs later st1 = Some st2" "fst (snd (conn_counts st2)) = 0"
    using loop_exhausted [of st1 E X cfg hs later] st1(3) by auto
  with st1(1) show ?thesis
    by (simp add: run_connection_loop_def connection_loop_append conn_counts_def update_telemetry_sink_def Let_def)
qed

theorem follow_mode_gives_up_witness:
  "\<exists>st. run_connection_loop sample_ext sample_slm_ext sample_receiver_config []
      ([refusing] @ [\<lambda>_ _. Inr \<lparr>env_start = 0, env_initial_write = None, env_inputs = [ShutdownSeen],
         env_shutdown_after = False\<rparr>])
      (sender_new (\<lambda>_. None)) telemetry_default (\<lambda>_. None) (\<lambda>_. 7) = Some st
    \<and> connection_success_total (rx_sink st) = 0"
  by (rule follow_mode_gives_up) (simp_all add: sample_receiver_config_def refusing_def)

end
