(* ===== verification/Relay.thy ===== *)
theory Relay
  imports Server_List Connection_Policy Collections Complex_Main
begin

text \<open>
  The relay (\<open>relay/mod.rs\<close>, \<open>relay/auth.rs\<close>, \<open>relay/state.rs\<close>, \<open>relay/runtime.rs\<close>): it
  reads one upstream server and passes the bytes on to authenticated downstream clients.

  The tasks of the runtime share the state \<open>QbtRelayState\<close>; here each loop iteration of a
  task is one function, and \<open>relay_step\<close> lets any of them happen next, so a list of
  \<open>relay_event\<close>s is an interleaving. Sockets, timers and the broadcast channel are the
  events' arguments. Atomic counters wrap (\<open>u64\<close> words). An \<open>f64\<close> is a rational; rounding of
  the two \<open>f64\<close> operations used is the parameter \<open>f64_round\<close>.
\<close>

record f64_ops =
  f64_round :: "rat \<Rightarrow> rat"

subsection \<open>relay/mod.rs\<close>

record QbtRelayConfig =
  rc_email :: string
  rc_upstream_servers :: "endpoint list"
  rc_bind_addr :: string
  rc_max_clients :: usize
  rc_auth_timeout :: duration
  rc_client_buffer_bytes :: usize
  rc_reconnect_delay :: duration
  rc_connect_timeout :: duration
  rc_quality_window_secs :: usize
  rc_quality_pause_threshold :: rat
  rc_metrics_log_interval :: duration

datatype QbtRelayError = RelayConfig string | RelayIo string | TaskJoin string

definition relay_config_normalized :: "QbtRelayConfig \<Rightarrow> QbtRelayConfig" where
  "relay_config_normalized c =
     c\<lparr>rc_max_clients := max (rc_max_clients c) 1,
       rc_auth_timeout := max (rc_auth_timeout c) (from_secs 1),
       rc_client_buffer_bytes := max (rc_client_buffer_bytes c) 1,
       rc_reconnect_delay := max (rc_reconnect_delay c) (from_secs 1),
       rc_connect_timeout := max (rc_connect_timeout c) (from_secs 1),
       rc_quality_window_secs := max (rc_quality_window_secs c) 1,
       rc_quality_pause_threshold := max 0 (min 1 (rc_quality_pause_threshold c)),
       rc_metrics_log_interval := max (rc_metrics_log_interval c) (from_secs 1)\<rparr>"

definition relay_config_validate :: "QbtRelayConfig \<Rightarrow> QbtRelayError + unit" where
  "relay_config_validate c =
     (if trim (rc_email c) = [] then Inl (RelayConfig ''email must not be empty'')
      else if rc_upstream_servers c = [] then Inl (RelayConfig ''at least one upstream server is required'')
      else Inr ())"

subsection \<open>relay/auth.rs\<close>

record AuthParser =
  decoded_text :: "byte list"

definition auth_parser_default :: AuthParser where
  "auth_parser_default = \<lparr>decoded_text = []\<rparr>"

text \<open>
  The trailing 8192 bytes of the text; \<open>split_off\<close> panics when the cut is not a character
  boundary.
\<close>

definition keep_trailing :: "byte list \<Rightarrow> byte list outcome" where
  "keep_trailing text =
     (if length text > 8192
      then (if is_char_boundary text (length text - 8192)
            then Done (drop (length text - 8192) text) else Panicked)
      else Done text)"

definition extract_logon :: "byte list \<Rightarrow> string option \<times> byte list" where
  "extract_logon text =
     (case find_sub text (bytes_of LOGON_PREFIX) of
        None \<Rightarrow> (None, text)
      | Some start \<Rightarrow>
          (let after_prefix = start + length LOGON_PREFIX in
           case find_sub (drop after_prefix text) (bytes_of LOGON_SUFFIX) of
             None \<Rightarrow> (None, text)
           | Some suffix_rel \<Rightarrow>
               (let suffix = after_prefix + suffix_rel;
                    stop = suffix + length LOGON_SUFFIX;
                    message = str_of (drop start (take stop text))
                in (map_option auth_email (parse_logon_message message), drop stop text))))"

definition auth_consume :: "byte list \<Rightarrow> AuthParser \<Rightarrow> (string option \<times> AuthParser) outcome" where
  "auth_consume wire p =
     (case keep_trailing (decoded_text p @ from_utf8_lossy (map xor_ff_byte wire)) of
        Panicked \<Rightarrow> Panicked
      | Done text \<Rightarrow> (let (found, rest) = extract_logon text in Done (found, p\<lparr>decoded_text := rest\<rparr>)))"

subsection \<open>relay/state.rs\<close>

record Metrics =
  upstream_connection_attempts :: u64
  upstream_connection_success :: u64
  upstream_connection_fail :: u64
  upstream_disconnect :: u64
  downstream_connections_accepted :: u64
  downstream_connections_rejected :: u64
  downstream_disconnect_auth_timeout :: u64
  downstream_disconnect_slow_client :: u64
  downstream_disconnect_lagged :: u64
  downstream_active_clients :: u64
  bytes_in :: u64
  bytes_attempted :: u64
  bytes_forwarded :: u64
  bytes_dropped :: u64
  forwarding_paused :: bool
  forwarding_pause_events :: u64
  rolling_quality_milli :: u64

definition metrics_default :: Metrics where
  "metrics_default =
     \<lparr>upstream_connection_attempts = 0, upstream_connection_success = 0,
      upstream_connection_fail = 0, upstream_disconnect = 0, downstream_connections_accepted = 0,
      downstream_connections_rejected = 0, downstream_disconnect_auth_timeout = 0,
      downstream_disconnect_slow_client = 0, downstream_disconnect_lagged = 0,
      downstream_active_clients = 0, bytes_in = 0, bytes_attempted = 0, bytes_forwarded = 0,
      bytes_dropped = 0, forwarding_paused = False, forwarding_pause_events = 0,
      rolling_quality_milli = 0\<rparr>"

record QbtRelayClientMeta =
  meta_email :: string
  meta_peer :: string
  meta_connected_at_unix_secs :: u64
  meta_last_auth_unix_secs :: u64

record QualityBucket =
  attempted :: u64
  forwarded :: u64

definition bucket_default :: QualityBucket where
  "bucket_default = \<lparr>attempted = 0, forwarded = 0\<rparr>"

record QualityWindow =
  buckets :: "QualityBucket list"
  qw_index :: usize

definition quality_window_new :: "usize \<Rightarrow> QualityWindow" where
  "quality_window_new n = \<lparr>buckets = replicate (max n 1) bucket_default, qw_index = 0\<rparr>"

definition rotate_window :: "QualityWindow \<Rightarrow> QualityWindow" where
  "rotate_window w =
     (let i = (qw_index w + 1) mod length (buckets w)
      in w\<lparr>qw_index := i, buckets := (buckets w)[i := bucket_default]\<rparr>)"

definition window_add_attempted :: "u64 \<Rightarrow> QualityWindow \<Rightarrow> QualityWindow" where
  "window_add_attempted n w =
     w\<lparr>buckets := (buckets w)[qw_index w :=
         (buckets w ! qw_index w)\<lparr>attempted := sat_add (attempted (buckets w ! qw_index w)) n\<rparr>]\<rparr>"

definition window_add_forwarded :: "u64 \<Rightarrow> QualityWindow \<Rightarrow> QualityWindow" where
  "window_add_forwarded n w =
     w\<lparr>buckets := (buckets w)[qw_index w :=
         (buckets w ! qw_index w)\<lparr>forwarded := sat_add (forwarded (buckets w ! qw_index w)) n\<rparr>]\<rparr>"

definition window_totals :: "QualityWindow \<Rightarrow> u64 \<times> u64" where
  "window_totals w =
     (foldl (\<lambda>sum b. sat_add sum (attempted b)) 0 (buckets w),
      foldl (\<lambda>sum b. sat_add sum (forwarded b)) 0 (buckets w))"

definition f64_of_u64 :: "f64_ops \<Rightarrow> u64 \<Rightarrow> rat" where
  "f64_of_u64 X n = f64_round X (of_nat (unat n))"

definition window_ratio :: "f64_ops \<Rightarrow> QualityWindow \<Rightarrow> rat" where
  "window_ratio X w =
     (let (att, fwd) = window_totals w
      in if att = 0 then 1 else f64_round X (f64_of_u64 X fwd / f64_of_u64 X att))"

record QbtRelayState =
  metrics :: Metrics
  clients :: "(u64 \<times> QbtRelayClientMeta) list"
  next_client_id :: u64
  quality_window :: QualityWindow
  latest_server_list_wire :: "byte list"

definition from_upstream_servers :: "endpoint list \<Rightarrow> usize \<Rightarrow> QbtRelayState" where
  "from_upstream_servers eps quality_window_secs =
     \<lparr>metrics = metrics_default, clients = [], next_client_id = 1,
      quality_window = quality_window_new quality_window_secs,
      latest_server_list_wire = build_server_list_wire eps\<rparr>"

definition relay_state_new :: "QbtRelayConfig \<Rightarrow> QbtRelayState" where
  "relay_state_new c = from_upstream_servers (rc_upstream_servers c) (rc_quality_window_secs c)"

text \<open>The counters are copied unchanged into a snapshot; they are kept together here.\<close>

record QbtRelayMetricsSnapshot =
  snap_metrics :: Metrics
  snap_rolling_quality :: rat
  snap_active_users :: "QbtRelayClientMeta list"

definition metrics_snapshot :: "f64_ops \<Rightarrow> QbtRelayState \<Rightarrow> QbtRelayMetricsSnapshot" where
  "metrics_snapshot X s =
     \<lparr>snap_metrics = metrics s,
      snap_rolling_quality = f64_round X (f64_of_u64 X (rolling_quality_milli (metrics s)) / 1000),
      snap_active_users = map snd (clients s)\<rparr>"

record QbtRelayHealthSnapshot =
  health_status :: string
  health_forwarding_paused :: bool
  health_active_clients :: u64

definition health_snapshot :: "QbtRelayState \<Rightarrow> QbtRelayHealthSnapshot" where
  "health_snapshot s =
     \<lparr>health_status = ''ok'', health_forwarding_paused = forwarding_paused (metrics s),
      health_active_clients = downstream_active_clients (metrics s)\<rparr>"

definition on_metrics :: "(Metrics \<Rightarrow> Metrics) \<Rightarrow> QbtRelayState \<Rightarrow> QbtRelayState" where
  "on_metrics f s = s\<lparr>metrics := f (metrics s)\<rparr>"

definition add_attempted :: "u64 \<Rightarrow> QbtRelayState \<Rightarrow> QbtRelayState" where
  "add_attempted n s =
     (on_metrics (\<lambda>m. m\<lparr>bytes_attempted := bytes_attempted m + n\<rparr>) s)
       \<lparr>quality_window := window_add_attempted n (quality_window s)\<rparr>"

definition add_forwarded :: "u64 \<Rightarrow> QbtRelayState \<Rightarrow> QbtRelayState" where
  "add_forwarded n s =
     (on_metrics (\<lambda>m. m\<lparr>bytes_forwarded := bytes_forwarded m + n\<rparr>) s)
       \<lparr>quality_window := window_add_forwarded n (quality_window s)\<rparr>"

definition set_latest_server_list_wire :: "byte list \<Rightarrow> QbtRelayState \<Rightarrow> QbtRelayState" where
  "set_latest_server_list_wire bs s = s\<lparr>latest_server_list_wire := bs\<rparr>"

subsection \<open>relay/runtime.rs: upstream\<close>

definition INITIAL_AUTH_TIMEOUT_SECS :: nat where
  "INITIAL_AUTH_TIMEOUT_SECS = 30"

definition CLIENT_WRITER_QUEUE_CAPACITY :: usize where
  "CLIENT_WRITER_QUEUE_CAPACITY = 1024"

definition QUALITY_RESUME_THRESHOLD :: rat where
  "QUALITY_RESUME_THRESHOLD = 97 / 100"

text \<open>Local variables of the upstream loop, and whether it is inside its read loop.\<close>

record upstream_task =
  up_server_index :: usize
  up_scanner :: QbtServerListWireScanner
  up_connected :: bool

definition upstream_initial :: upstream_task where
  "upstream_initial = \<lparr>up_server_index = 0, up_scanner = scanner_default, up_connected = False\<rparr>"

definition count_upstream_disconnect :: "QbtRelayState \<Rightarrow> QbtRelayState" where
  "count_upstream_disconnect = on_metrics (\<lambda>m. m\<lparr>upstream_disconnect := upstream_disconnect m + 1\<rparr>)"

text \<open>The endpoint of the next attempt; an empty server list would divide by zero.\<close>

definition upstream_endpoint :: "QbtRelayConfig \<Rightarrow> upstream_task \<Rightarrow> endpoint outcome" where
  "upstream_endpoint c u =
     (if rc_upstream_servers c = [] then Panicked
      else Done (rc_upstream_servers c ! (up_server_index u mod length (rc_upstream_servers c))))"

text \<open>
  One attempt: \<open>established\<close> tells whether the connection was established, \<open>auth_written\<close>
  whether the first logon message was written.
\<close>

definition upstream_attempt ::
    "QbtRelayConfig \<Rightarrow> bool \<Rightarrow> bool \<Rightarrow> upstream_task \<times> QbtRelayState \<Rightarrow> upstream_task \<times> QbtRelayState" where
  "upstream_attempt c established auth_written us =
     (let (u, s) = us;
          u1 = u\<lparr>up_server_index := (up_server_index u + 1) mod length (rc_upstream_servers c)\<rparr>;
          s1 = on_metrics (\<lambda>m. m\<lparr>upstream_connection_attempts := upstream_connection_attempts m + 1\<rparr>) s
      in if \<not> established
         then (u1, on_metrics (\<lambda>m. m\<lparr>upstream_connection_fail := upstream_connection_fail m + 1\<rparr>) s1)
         else
           let s2 = on_metrics (\<lambda>m. m\<lparr>upstream_connection_success := upstream_connection_success m + 1\<rparr>) s1
           in if auth_written then (u1\<lparr>up_connected := True\<rparr>, s2)
              else (u1, count_upstream_disconnect s2))"

text \<open>A read of the connected upstream socket; \<open>None\<close> is a read error.\<close>

definition upstream_read ::
    "byte list option \<Rightarrow> upstream_task \<times> QbtRelayState \<Rightarrow> upstream_task \<times> QbtRelayState" where
  "upstream_read r us =
     (let (u, s) = us in
      case r of
        None \<Rightarrow> (u\<lparr>up_connected := False\<rparr>, count_upstream_disconnect s)
      | Some bs \<Rightarrow>
          if bs = [] then (u\<lparr>up_connected := False\<rparr>, count_upstream_disconnect s)
          else
            let s1 = on_metrics (\<lambda>m. m\<lparr>bytes_in := bytes_in m + of_nat (length bs)\<rparr>) s;
                (scanner, found) = observe_wire_chunk (up_scanner u) bs;
                s2 = (case found of Some w \<Rightarrow> set_latest_server_list_wire w s1 | None \<Rightarrow> s1)
            in (u\<lparr>up_scanner := scanner\<rparr>, s2))"

definition upstream_reauth ::
    "bool \<Rightarrow> upstream_task \<times> QbtRelayState \<Rightarrow> upstream_task \<times> QbtRelayState" where
  "upstream_reauth written us =
     (if written then us
      else (fst us\<lparr>up_connected := False\<rparr>, count_upstream_disconnect (snd us)))"

subsection \<open>relay/runtime.rs: downstream clients\<close>

datatype session_phase = Serving | Draining | Dead

text \<open>
  Local variables of one client session and its writer: the semaphore's free permits, the
  writer's queue, the chunk being written and whether the writer still runs. A session that has left its loop waits for
  its writer (\<open>Draining\<close>); one that panicked never cleans up (\<open>Dead\<close>).
\<close>

record client_session =
  cs_id :: u64
  cs_peer :: string
  cs_parser :: AuthParser
  cs_connected_at :: instant
  cs_last_auth :: instant
  cs_email :: string
  cs_authenticated :: bool
  cs_permits :: usize
  cs_queue :: "byte list list"
  cs_writing :: "byte list option"
  cs_writer_alive :: bool
  cs_phase :: session_phase

definition session_initial :: "QbtRelayConfig \<Rightarrow> u64 \<Rightarrow> string \<Rightarrow> instant \<Rightarrow> client_session" where
  "session_initial c cid peer now =
     \<lparr>cs_id = cid, cs_peer = peer, cs_parser = auth_parser_default, cs_connected_at = now,
      cs_last_auth = now, cs_email = [], cs_authenticated = False,
      cs_permits = rc_client_buffer_bytes c, cs_queue = [], cs_writing = None,
      cs_writer_alive = True, cs_phase = Serving\<rparr>"

text \<open>
  The accept loop's iteration for one accepted socket: over capacity the client only gets the
  server list (second component), else a session starts.
\<close>

definition accept_client ::
    "QbtRelayConfig \<Rightarrow> string \<Rightarrow> instant \<Rightarrow> QbtRelayState \<Rightarrow>
     QbtRelayState \<times> byte list option \<times> client_session option" where
  "accept_client c peer now s =
     (if downstream_active_clients (metrics s) < of_nat (rc_max_clients c) then
        (let s1 = on_metrics (\<lambda>m. m\<lparr>downstream_active_clients := downstream_active_clients m + 1\<rparr>) s;
             s2 = on_metrics (\<lambda>m. m\<lparr>downstream_connections_accepted := downstream_connections_accepted m + 1\<rparr>) s1;
             cid = next_client_id s2
         in (s2\<lparr>next_client_id := cid + 1\<rparr>, None, Some (session_initial c cid peer now)))
      else
        (on_metrics (\<lambda>m. m\<lparr>downstream_connections_rejected := downstream_connections_rejected m + 1\<rparr>) s,
         Some (latest_server_list_wire s), None))"

text \<open>What one round of a client session's \<open>select!\<close> observes.\<close>

datatype client_input =
    ClientShutdown
  | ClientRead "byte list"
  | ClientReadError
  | ClientReadTimeout
  | ClientChunk "byte list"
  | ClientLagged
  | ClientChannelClosed

definition client_leave :: "client_session \<Rightarrow> client_session" where
  "client_leave cs = cs\<lparr>cs_phase := Draining\<rparr>"

definition count_auth_timeout :: "QbtRelayState \<Rightarrow> QbtRelayState" where
  "count_auth_timeout =
     on_metrics (\<lambda>m. m\<lparr>downstream_disconnect_auth_timeout := downstream_disconnect_auth_timeout m + 1\<rparr>)"

definition auth_expired :: "QbtRelayConfig \<Rightarrow> instant \<Rightarrow> client_session \<Rightarrow> bool" where
  "auth_expired c now cs \<longleftrightarrow>
     (\<not> cs_authenticated cs \<and> now - cs_connected_at cs \<ge> from_secs INITIAL_AUTH_TIMEOUT_SECS)
     \<or> (cs_authenticated cs \<and> now - cs_last_auth cs \<ge> rc_auth_timeout c)"

definition client_read ::
    "instant \<Rightarrow> u64 \<Rightarrow> byte list \<Rightarrow> client_session \<times> QbtRelayState \<Rightarrow> client_session \<times> QbtRelayState" where
  "client_read now unix_secs bs x =
     (let (cs, s) = x in
      case auth_consume bs (cs_parser cs) of
        Panicked \<Rightarrow> (cs\<lparr>cs_phase := Dead\<rparr>, s)
      | Done (None, p) \<Rightarrow> (cs\<lparr>cs_parser := p\<rparr>, s)
      | Done (Some found, p) \<Rightarrow>
          (cs\<lparr>cs_parser := p, cs_email := found, cs_last_auth := now, cs_authenticated := True\<rparr>,
           s\<lparr>clients := hash_insert (cs_id cs)
               \<lparr>meta_email = found, meta_peer = cs_peer cs, meta_connected_at_unix_secs = unix_secs,
                meta_last_auth_unix_secs = unix_secs\<rparr> (clients s)\<rparr>))"

definition drop_slow_client :: "u64 \<Rightarrow> QbtRelayState \<Rightarrow> QbtRelayState" where
  "drop_slow_client n =
     on_metrics (\<lambda>m. m\<lparr>downstream_disconnect_slow_client := downstream_disconnect_slow_client m + 1,
                       bytes_dropped := bytes_dropped m + n\<rparr>)"

text \<open>The permits that a queued chunk holds: its length as a \<open>u32\<close>.\<close>

definition permits_of :: "byte list \<Rightarrow> usize" where
  "permits_of chunk = unat (of_nat (length chunk) :: u32)"

definition client_chunk ::
    "byte list \<Rightarrow> client_session \<times> QbtRelayState \<Rightarrow> client_session \<times> QbtRelayState" where
  "client_chunk chunk x =
     (let (cs, s) = x in
      if forwarding_paused (metrics s) then (cs, s)
      else
        let len = of_nat (length chunk);
            s1 = add_attempted len s;
            wanted = permits_of chunk
        in if cs_permits cs < wanted then (client_leave cs, drop_slow_client len s1)
           else if \<not> cs_writer_alive cs then (client_leave cs, s1)
           else if length (cs_queue cs) \<ge> CLIENT_WRITER_QUEUE_CAPACITY
             then (client_leave cs, drop_slow_client len s1)
           else (cs\<lparr>cs_permits := cs_permits cs - wanted, cs_queue := cs_queue cs @ [chunk]\<rparr>, s1))"

text \<open>One iteration of the session loop; the receive arm is only enabled for an
  authenticated client.\<close>

definition client_step ::
    "QbtRelayConfig \<Rightarrow> instant \<Rightarrow> u64 \<Rightarrow> client_input \<Rightarrow> client_session \<times> QbtRelayState \<Rightarrow>
     client_session \<times> QbtRelayState" where
  "client_step c now unix_secs inp x =
     (let (cs, s) = x in
      if auth_expired c now cs then (client_leave cs, count_auth_timeout s)
      else
        (case inp of
           ClientShutdown \<Rightarrow> (client_leave cs, s)
         | ClientRead bs \<Rightarrow> if bs = [] then (client_leave cs, s) else client_read now unix_secs bs (cs, s)
         | ClientReadError \<Rightarrow> (client_leave cs, s)
         | ClientReadTimeout \<Rightarrow> (cs, s)
         | ClientChunk chunk \<Rightarrow> if cs_authenticated cs then client_chunk chunk (cs, s) else (cs, s)
         | ClientLagged \<Rightarrow>
             if cs_authenticated cs
             then (client_leave cs,
                   on_metrics (\<lambda>m. m\<lparr>downstream_disconnect_lagged := downstream_disconnect_lagged m + 1\<rparr>) s)
             else (cs, s)
         | ClientChannelClosed \<Rightarrow> if cs_authenticated cs then (client_leave cs, s) else (cs, s)))"

text \<open>
  One iteration of the writer in two steps: it takes a chunk from the queue, then the socket
  takes it or fails. A failure ends the writer and drops what is queued.
\<close>

definition writer_recv :: "client_session \<times> QbtRelayState \<Rightarrow> client_session \<times> QbtRelayState" where
  "writer_recv x =
     (let (cs, s) = x in
      case (cs_writing cs, cs_queue cs) of
        (None, chunk # rest) \<Rightarrow> (cs\<lparr>cs_queue := rest, cs_writing := Some chunk\<rparr>, s)
      | _ \<Rightarrow> (cs, s))"

definition writer_write ::
    "bool \<Rightarrow> client_session \<times> QbtRelayState \<Rightarrow> client_session \<times> QbtRelayState" where
  "writer_write written x =
     (let (cs, s) = x in
      case cs_writing cs of
        None \<Rightarrow> (cs, s)
      | Some chunk \<Rightarrow>
          (let len = of_nat (length chunk) in
           if written
           then (cs\<lparr>cs_writing := None, cs_permits := cs_permits cs + permits_of chunk\<rparr>, add_forwarded len s)
           else (cs\<lparr>cs_writing := None, cs_queue := [], cs_writer_alive := False,
                    cs_permits := cs_permits cs + permits_of chunk + sum_list (map permits_of (cs_queue cs))\<rparr>,
                 on_metrics (\<lambda>m. m\<lparr>bytes_dropped := bytes_dropped m + len\<rparr>) s)))"

definition client_cleanup :: "client_session \<Rightarrow> QbtRelayState \<Rightarrow> QbtRelayState" where
  "client_cleanup cs s =
     on_metrics (\<lambda>m. m\<lparr>downstream_active_clients := downstream_active_clients m - 1\<rparr>)
       (s\<lparr>clients := hash_remove (cs_id cs) (clients s)\<rparr>)"

subsection \<open>relay/runtime.rs: quality monitor\<close>

definition f64_round_to_u64 :: "rat \<Rightarrow> u64" where
  "f64_round_to_u64 x = of_int (min (max \<lfloor>x + 1 / 2\<rfloor> 0) (2 ^ 64 - 1))"

definition quality_tick :: "f64_ops \<Rightarrow> QbtRelayConfig \<Rightarrow> QbtRelayState \<Rightarrow> QbtRelayState" where
  "quality_tick X c s =
     (let w = rotate_window (quality_window s);
          ratio = window_ratio X w;
          milli = f64_round_to_u64 (f64_round X (ratio * 1000));
          s1 = on_metrics (\<lambda>m. m\<lparr>rolling_quality_milli := milli\<rparr>) (s\<lparr>quality_window := w\<rparr>);
          currently_paused = forwarding_paused (metrics s1)
      in if \<not> currently_paused \<and> ratio < rc_quality_pause_threshold c
         then on_metrics (\<lambda>m. m\<lparr>forwarding_paused := True,
                               forwarding_pause_events := forwarding_pause_events m + 1\<rparr>) s1
         else if currently_paused \<and> ratio \<ge> QUALITY_RESUME_THRESHOLD
         then on_metrics (\<lambda>m. m\<lparr>forwarding_paused := False\<rparr>) s1
         else s1)"

subsection \<open>The tasks together\<close>

record relay =
  rly_state :: QbtRelayState
  rly_upstream :: upstream_task
  rly_sessions :: "client_session list"

definition relay_start :: "QbtRelayConfig \<Rightarrow> relay" where
  "relay_start c =
     \<lparr>rly_state = relay_state_new c, rly_upstream = upstream_initial, rly_sessions = []\<rparr>"

datatype relay_event =
    UpstreamAttempt bool bool
  | UpstreamRead "byte list option"
  | UpstreamReauth bool
  | Accept string instant
  | Client nat instant u64 client_input
  | WriterRecv nat
  | WriterWrite nat bool
  | Cleanup nat
  | QualityTick

text \<open>
  An event that its task cannot take in its present phase leaves the relay unchanged. A
  session cleans up once its writer has finished.
\<close>

definition on_session ::
    "nat \<Rightarrow> (client_session \<Rightarrow> bool) \<Rightarrow>
     (client_session \<times> QbtRelayState \<Rightarrow> client_session \<times> QbtRelayState) \<Rightarrow> relay \<Rightarrow> relay" where
  "on_session i enabled f r =
     (if i < length (rly_sessions r) \<and> enabled (rly_sessions r ! i) then
        (let (cs, s) = f (rly_sessions r ! i, rly_state r)
         in r\<lparr>rly_sessions := (rly_sessions r)[i := cs], rly_state := s\<rparr>)
      else r)"

definition writer_finished :: "client_session \<Rightarrow> bool" where
  "writer_finished cs \<longleftrightarrow> cs_queue cs = [] \<and> cs_writing cs = None"

definition on_upstream ::
    "(upstream_task \<times> QbtRelayState \<Rightarrow> upstream_task \<times> QbtRelayState) \<Rightarrow> relay \<Rightarrow> relay" where
  "on_upstream f r = (let (u, s) = f (rly_upstream r, rly_state r) in r\<lparr>rly_upstream := u, rly_state := s\<rparr>)"

fun relay_step :: "f64_ops \<Rightarrow> QbtRelayConfig \<Rightarrow> relay_event \<Rightarrow> relay \<Rightarrow> relay" where
  "relay_step X c (UpstreamAttempt established auth_written) r =
     (if up_connected (rly_upstream r) then r else on_upstream (upstream_attempt c established auth_written) r)"
| "relay_step X c (UpstreamRead bs) r =
     (if up_connected (rly_upstream r) then on_upstream (upstream_read bs) r else r)"
| "relay_step X c (UpstreamReauth written) r =
     (if up_connected (rly_upstream r) then on_upstream (upstream_reauth written) r else r)"
| "relay_step X c (Accept peer now) r =
     (let (s, _, cs) = accept_client c peer now (rly_state r)
      in r\<lparr>rly_state := s,
           rly_sessions := rly_sessions r @ (case cs of Some x \<Rightarrow> [x] | None \<Rightarrow> [])\<rparr>)"
| "relay_step X c (Client i now unix_secs inp) r =
     on_session i (\<lambda>cs. cs_phase cs = Serving) (client_step c now unix_secs inp) r"
| "relay_step X c (WriterRecv i) r = on_session i cs_writer_alive writer_recv r"
| "relay_step X c (WriterWrite i written) r = on_session i cs_writer_alive (writer_write written) r"
| "relay_step X c (Cleanup i) r =
     (if i < length (rly_sessions r) \<and> cs_phase (rly_sessions r ! i) = Draining
          \<and> writer_finished (rly_sessions r ! i)
      then r\<lparr>rly_state := client_cleanup (rly_sessions r ! i) (rly_state r),
             rly_sessions := take i (rly_sessions r) @ drop (Suc i) (rly_sessions r)\<rparr>
      else r)"
| "relay_step X c QualityTick r = r\<lparr>rly_state := quality_tick X c (rly_state r)\<rparr>"

definition relay_run :: "f64_ops \<Rightarrow> QbtRelayConfig \<Rightarrow> relay_event list \<Rightarrow> relay" where
  "relay_run X c evs = fold (relay_step X c) evs (relay_start c)"

end
