(* ===== verification/Relay_Correct.thy ===== *)
theory Relay_Correct
  imports Relay
begin

text \<open>
  Properties of the relay over every interleaving of its tasks: the client limit, what an
  unauthenticated client can see, the bounds of a client's buffer, the byte accounting and the
  registry of authenticated users; then the sliding quality window and the logon parser.
\<close>

subsection \<open>Sessions\<close>

definition queued :: "client_session \<Rightarrow> byte list list" where
  "queued cs = (case cs_writing cs of None \<Rightarrow> [] | Some chunk \<Rightarrow> [chunk]) @ cs_queue cs"

definition session_ok :: "QbtRelayConfig \<Rightarrow> client_session \<Rightarrow> bool" where
  "session_ok c cs \<longleftrightarrow>
     (queued cs \<noteq> [] \<longrightarrow> cs_authenticated cs)
     \<and> cs_permits cs + sum_list (map permits_of (queued cs)) = rc_client_buffer_bytes c
     \<and> length (cs_queue cs) \<le> CLIENT_WRITER_QUEUE_CAPACITY
     \<and> (\<not> cs_writer_alive cs \<longrightarrow> queued cs = [])"

lemma session_ok_initial: "session_ok c (session_initial c cid peer now)"
  by (simp add: session_ok_def session_initial_def queued_def)

lemma session_ok_phase [simp]: "session_ok c (cs\<lparr>cs_phase := p\<rparr>) = session_ok c cs"
  by (simp add: session_ok_def queued_def)

lemma session_ok_leave [simp]: "session_ok c (client_leave cs) = session_ok c cs"
  by (simp add: client_leave_def)

lemma client_step_ok:
  assumes "session_ok c cs" and "client_step c now u inp (cs, s) = (cs', s')"
  shows "session_ok c cs'"
proof -
  have "session_ok c (fst (client_read now u bs (cs, s)))" for bs
    using assms(1) by (auto simp: client_read_def session_ok_def queued_def split: outcome.splits option.splits)
  moreover have "session_ok c (fst (client_chunk chunk (cs, s)))" if "cs_authenticated cs" for chunk
    using assms(1) that
    by (auto simp: client_chunk_def Let_def session_ok_def queued_def client_leave_def not_le)
  ultimately show ?thesis
    using assms by (auto simp: client_step_def split: client_input.splits if_splits) (metis fst_conv)+
qed

lemma writer_recv_ok: "session_ok c cs \<Longrightarrow> session_ok c (fst (writer_recv (cs, s)))"
  by (auto simp: writer_recv_def session_ok_def queued_def split: option.splits list.splits)

lemma writer_write_ok: "session_ok c cs \<Longrightarrow> session_ok c (fst (writer_write w (cs, s)))"
  by (auto simp: writer_write_def session_ok_def queued_def Let_def split: option.splits)

definition sessions_ok :: "QbtRelayConfig \<Rightarrow> relay \<Rightarrow> bool" where
  "sessions_ok c r \<longleftrightarrow> list_all (session_ok c) (rly_sessions r)"

lemma on_session_sessions_ok:
  assumes "sessions_ok c r"
    and "\<And>cs s. session_ok c cs \<Longrightarrow> enabled cs \<Longrightarrow> session_ok c (fst (f (cs, s)))"
  shows "sessions_ok c (on_session i enabled f r)"
  using assms
  by (auto simp: sessions_ok_def on_session_def list_all_iff split: prod.splits
      dest!: set_update_subset_insert [THEN subsetD]) (metis fst_conv nth_mem)

lemma relay_step_sessions_ok: "sessions_ok c r \<Longrightarrow> sessions_ok c (relay_step X c ev r)"
proof (induction X c ev r rule: relay_step.induct)
  case (4 X c peer now r)
  then show ?case
    by (auto simp: sessions_ok_def accept_client_def Let_def session_ok_initial)
next
  case (5 X c i now u inp r)
  then show ?case
    by (auto intro!: on_session_sessions_ok) (metis client_step_ok prod.collapse)
next
  case (8 X c i r)
  then show ?case
    by (auto simp: sessions_ok_def list_all_iff dest: in_set_takeD in_set_dropD)
qed (auto simp: writer_recv_ok writer_write_ok on_upstream_def sessions_ok_def
      intro!: on_session_sessions_ok [unfolded sessions_ok_def] split: prod.splits)

text \<open>Invariants of a run by induction over its events.\<close>

lemma relay_run_induct:
  assumes "P (relay_start c)" and "\<And>ev r. P r \<Longrightarrow> P (relay_step X c ev r)"
  shows "P (relay_run X c evs)"
proof -
  have "P r \<Longrightarrow> P (fold (relay_step X c) evs r)" for r
    by (induction evs arbitrary: r) (auto intro: assms(2))
  then show ?thesis using assms(1) by (simp add: relay_run_def)
qed

subsection \<open>Client limit\<close>

lemma active_simps [simp]:
  "downstream_active_clients (metrics (add_attempted n s)) = downstream_active_clients (metrics s)"
  "downstream_active_clients (metrics (add_forwarded n s)) = downstream_active_clients (metrics s)"
  "downstream_active_clients (metrics (drop_slow_client n s)) = downstream_active_clients (metrics s)"
  "downstream_active_clients (metrics (count_auth_timeout s)) = downstream_active_clients (metrics s)"
  "downstream_active_clients (metrics (count_upstream_disconnect s)) = downstream_active_clients (metrics s)"
  "downstream_active_clients (metrics (set_latest_server_list_wire w s)) = downstream_active_clients (metrics s)"
  "downstream_active_clients (metrics (quality_tick X c s)) = downstream_active_clients (metrics s)"
  by (simp_all add: add_attempted_def add_forwarded_def drop_slow_client_def count_auth_timeout_def
    count_upstream_disconnect_def set_latest_server_list_wire_def quality_tick_def on_metrics_def Let_def)

lemma active_steps [simp]:
  "downstream_active_clients (metrics (snd (client_step c now u inp (cs, s)))) = downstream_active_clients (metrics s)"
  "downstream_active_clients (metrics (snd (writer_recv (cs, s)))) = downstream_active_clients (metrics s)"
  "downstream_active_clients (metrics (snd (writer_write w (cs, s)))) = downstream_active_clients (metrics s)"
  by (auto simp: client_step_def client_read_def client_chunk_def writer_recv_def writer_write_def Let_def
      on_metrics_def split: client_input.splits outcome.splits option.splits list.splits prod.splits)

lemma active_upstream [simp]:
  "downstream_active_clients (metrics (snd (upstream_attempt c b1 b2 us))) = downstream_active_clients (metrics (snd us))"
  "downstream_active_clients (metrics (snd (upstream_read bs us))) = downstream_active_clients (metrics (snd us))"
  "downstream_active_clients (metrics (snd (upstream_reauth b us))) = downstream_active_clients (metrics (snd us))"
  by (auto simp: upstream_attempt_def upstream_read_def upstream_reauth_def Let_def on_metrics_def
      split: option.splits prod.splits)

definition within_limit :: "QbtRelayConfig \<Rightarrow> relay \<Rightarrow> bool" where
  "within_limit c r \<longleftrightarrow>
     unat (downstream_active_clients (metrics (rly_state r))) = length (rly_sessions r)
     \<and> length (rly_sessions r) \<le> rc_max_clients c"

lemma on_session_within_limit:
  assumes "within_limit c r"
    and "\<And>cs s. downstream_active_clients (metrics (snd (f (cs, s)))) = downstream_active_clients (metrics s)"
  shows "within_limit c (on_session i enabled f r)"
  using assms by (auto simp: within_limit_def on_session_def split: prod.splits) (metis snd_conv)

lemma on_upstream_within_limit:
  assumes "within_limit c r"
    and "\<And>us. downstream_active_clients (metrics (snd (f us))) = downstream_active_clients (metrics (snd us))"
  shows "within_limit c (on_upstream f r)"
  using assms by (auto simp: within_limit_def on_upstream_def split: prod.splits) (metis snd_conv)+

lemma accept_within_limit:
  assumes "within_limit c r"
  shows "within_limit c (relay_step X c (Accept peer now) r)"
proof (cases "downstream_active_clients (metrics (rly_state r)) < of_nat (rc_max_clients c)")
  case True
  let ?a = "downstream_active_clients (metrics (rly_state r))"
  have lt: "unat ?a < unat (of_nat (rc_max_clients c) :: u64)"
    using True by (simp add: word_less_nat_alt)
  then have "unat ?a + 1 < 2 ^ 64"
    using unsigned_less [of "of_nat (rc_max_clients c) :: u64", where ?'a = nat] by simp
  then have "unat (?a + 1) = unat ?a + 1"
    by (simp add: unat_word_ariths)
  moreover have "unat (of_nat (rc_max_clients c) :: u64) \<le> rc_max_clients c"
    by (simp add: unsigned_of_nat take_bit_nat_less_eq_self)
  then have "unat ?a < rc_max_clients c" using lt by linarith
  ultimately show ?thesis
    using assms True by (simp add: within_limit_def accept_client_def on_metrics_def Let_def)
qed (use assms in \<open>simp add: within_limit_def accept_client_def on_metrics_def\<close>)

lemma cleanup_within_limit:
  assumes "within_limit c r"
  shows "within_limit c (relay_step X c (Cleanup i) r)"
proof (cases "i < length (rly_sessions r)")
  case True
  let ?a = "downstream_active_clients (metrics (rly_state r))"
  have "?a \<noteq> 0" using assms True by (auto simp: within_limit_def)
  then have "unat (?a - 1) = unat ?a - 1"
    by (simp add: unat_minus_one)
  with assms True show ?thesis
    by (auto simp: within_limit_def client_cleanup_def on_metrics_def)
qed (use assms in simp)

lemma relay_step_within_limit: "within_limit c r \<Longrightarrow> within_limit c (relay_step X c ev r)"
proof (cases ev)
  case (Accept peer now)
  assume "within_limit c r"
  then show ?thesis unfolding Accept by (rule accept_within_limit)
next
  case (Cleanup i)
  assume "within_limit c r"
  then show ?thesis unfolding Cleanup by (rule cleanup_within_limit)
qed (auto intro!: on_session_within_limit on_upstream_within_limit, simp add: within_limit_def)

subsection \<open>Byte accounting\<close>

definition chunk_bytes :: "byte list list \<Rightarrow> u64" where
  "chunk_bytes cs = (\<Sum>chunk\<leftarrow>cs. of_nat (length chunk))"

definition queued_bytes :: "relay \<Rightarrow> u64" where
  "queued_bytes r = (\<Sum>cs\<leftarrow>rly_sessions r. chunk_bytes (queued cs))"

text \<open>
  Bytes that one event loses without counting them as dropped: the chunks behind a failed
  write, and a chunk offered to a writer that has ended.
\<close>

fun lost_bytes :: "QbtRelayConfig \<Rightarrow> relay_event \<Rightarrow> relay \<Rightarrow> u64" where
  "lost_bytes c (WriterWrite i written) r =
     (if i < length (rly_sessions r) \<and> cs_writer_alive (rly_sessions r ! i) \<and> \<not> written
         \<and> cs_writing (rly_sessions r ! i) \<noteq> None
      then chunk_bytes (cs_queue (rly_sessions r ! i)) else 0)"
| "lost_bytes c (Client i now u (ClientChunk chunk)) r =
     (if i < length (rly_sessions r) \<and> cs_phase (rly_sessions r ! i) = Serving
         \<and> \<not> auth_expired c now (rly_sessions r ! i) \<and> cs_authenticated (rly_sessions r ! i)
         \<and> \<not> forwarding_paused (metrics (rly_state r)) \<and> permits_of chunk \<le> cs_permits (rly_sessions r ! i)
         \<and> \<not> cs_writer_alive (rly_sessions r ! i)
      then of_nat (length chunk) else 0)"
| "lost_bytes c _ r = 0"

fun lost_in_run :: "f64_ops \<Rightarrow> QbtRelayConfig \<Rightarrow> relay_event list \<Rightarrow> relay \<Rightarrow> u64" where
  "lost_in_run X c [] r = 0"
| "lost_in_run X c (ev # evs) r = lost_bytes c ev r + lost_in_run X c evs (relay_step X c ev r)"

definition byte_balance :: "relay \<Rightarrow> u64" where
  "byte_balance r =
     bytes_attempted (metrics (rly_state r)) - bytes_forwarded (metrics (rly_state r))
     - bytes_dropped (metrics (rly_state r)) - queued_bytes r"

lemma chunk_bytes_simps [simp]:
  "chunk_bytes [] = 0" "chunk_bytes (x # xs) = of_nat (length x) + chunk_bytes xs"
  "chunk_bytes (xs @ ys) = chunk_bytes xs + chunk_bytes ys"
  by (simp_all add: chunk_bytes_def)

lemma queued_bytes_update:
  "i < length (rly_sessions r) \<Longrightarrow>
     queued_bytes (r\<lparr>rly_sessions := (rly_sessions r)[i := cs], rly_state := s\<rparr>) =
     queued_bytes r - chunk_bytes (queued (rly_sessions r ! i)) + chunk_bytes (queued cs)"
proof -
  have "(\<Sum>x\<leftarrow>xs[i := cs]. chunk_bytes (queued x)) =
      (\<Sum>x\<leftarrow>xs. chunk_bytes (queued x)) - chunk_bytes (queued (xs ! i)) + chunk_bytes (queued cs)"
    if "i < length xs" for xs
    using that by (induction xs arbitrary: i) (auto simp: less_Suc_eq_0_disj algebra_simps)
  then show "i < length (rly_sessions r) \<Longrightarrow> ?thesis" by (simp add: queued_bytes_def)
qed

lemma queued_bytes_remove:
  assumes "i < length (rly_sessions r)" and "queued (rly_sessions r ! i) = []"
  shows "queued_bytes (r\<lparr>rly_state := s, rly_sessions := take i (rly_sessions r) @ drop (Suc i) (rly_sessions r)\<rparr>) =
     queued_bytes r"
proof -
  have "rly_sessions r = take i (rly_sessions r) @ rly_sessions r ! i # drop (Suc i) (rly_sessions r)"
    using assms(1) by (simp add: id_take_nth_drop)
  then have "queued_bytes r = (\<Sum>x\<leftarrow>take i (rly_sessions r) @ rly_sessions r ! i # drop (Suc i) (rly_sessions r). chunk_bytes (queued x))"
    by (simp add: queued_bytes_def)
  then show ?thesis using assms(2) by (simp add: queued_bytes_def)
qed

definition flow_balance :: "QbtRelayState \<Rightarrow> u64" where
  "flow_balance s =
     bytes_attempted (metrics s) - bytes_forwarded (metrics s) - bytes_dropped (metrics s)"

definition session_balance :: "client_session \<times> QbtRelayState \<Rightarrow> u64" where
  "session_balance x = flow_balance (snd x) - chunk_bytes (queued (fst x))"

lemma byte_balance_eq: "byte_balance r = flow_balance (rly_state r) - queued_bytes r"
  by (simp add: byte_balance_def flow_balance_def)

lemma flow_balance_simps [simp]:
  "flow_balance (add_attempted n s) = flow_balance s + n"
  "flow_balance (add_forwarded n s) = flow_balance s - n"
  "flow_balance (drop_slow_client n s) = flow_balance s - n"
  "flow_balance (count_auth_timeout s) = flow_balance s"
  "flow_balance (count_upstream_disconnect s) = flow_balance s"
  "flow_balance (set_latest_server_list_wire w s) = flow_balance s"
  "flow_balance (quality_tick X c s) = flow_balance s"
  "flow_balance (s\<lparr>clients := cl\<rparr>) = flow_balance s"
  by (simp_all add: flow_balance_def add_attempted_def add_forwarded_def drop_slow_client_def
    count_auth_timeout_def count_upstream_disconnect_def set_latest_server_list_wire_def
    quality_tick_def on_metrics_def Let_def)

lemma flow_balance_upstream [simp]:
  "flow_balance (snd (upstream_attempt c b1 b2 us)) = flow_balance (snd us)"
  "flow_balance (snd (upstream_read bs us)) = flow_balance (snd us)"
  "flow_balance (snd (upstream_reauth b us)) = flow_balance (snd us)"
  by (auto simp: upstream_attempt_def upstream_read_def upstream_reauth_def Let_def
      split: option.splits prod.splits) (simp_all add: flow_balance_def on_metrics_def count_upstream_disconnect_def)

lemma queued_leave [simp]: "queued (client_leave cs) = queued cs" "queued (cs\<lparr>cs_phase := p\<rparr>) = queued cs"
  by (simp_all add: queued_def client_leave_def)

lemma client_read_balance: "session_balance (client_read now u bs (cs, s)) = session_balance (cs, s)"
  by (auto simp: session_balance_def client_read_def queued_def split: outcome.splits option.splits)

lemma client_chunk_balance:
  "session_balance (client_chunk chunk (cs, s)) = session_balance (cs, s)
     + (if \<not> forwarding_paused (metrics s) \<and> permits_of chunk \<le> cs_permits cs \<and> \<not> cs_writer_alive cs
        then of_nat (length chunk) else 0)"
  by (auto simp: session_balance_def client_chunk_def Let_def not_less) (simp_all add: queued_def algebra_simps)

lemma client_step_balance:
  "session_balance (client_step c now u inp (cs, s)) = session_balance (cs, s)
     + (case inp of
          ClientChunk chunk \<Rightarrow>
            if \<not> auth_expired c now cs \<and> cs_authenticated cs \<and> \<not> forwarding_paused (metrics s)
               \<and> permits_of chunk \<le> cs_permits cs \<and> \<not> cs_writer_alive cs
            then of_nat (length chunk) else 0
        | _ \<Rightarrow> 0)"
  by (auto simp: client_step_def client_read_balance client_chunk_balance split: client_input.splits)
    (auto simp: session_balance_def flow_balance_def on_metrics_def count_auth_timeout_def)

lemma writer_recv_balance: "session_balance (writer_recv (cs, s)) = session_balance (cs, s)"
  by (auto simp: session_balance_def writer_recv_def queued_def split: option.splits list.splits)

lemma writer_write_balance:
  "session_balance (writer_write w (cs, s)) = session_balance (cs, s)
     + (if \<not> w \<and> cs_writing cs \<noteq> None then chunk_bytes (cs_queue cs) else 0)"
  by (auto simp: session_balance_def writer_write_def queued_def Let_def split: option.splits)
    (simp_all add: flow_balance_def on_metrics_def)

lemma on_session_balance:
  assumes "\<And>cs s. session_balance (f (cs, s)) = session_balance (cs, s) + lost cs s"
  shows "byte_balance (on_session i enabled f r) = byte_balance r
    + (if i < length (rly_sessions r) \<and> enabled (rly_sessions r ! i)
       then lost (rly_sessions r ! i) (rly_state r) else 0)"
proof (cases "i < length (rly_sessions r) \<and> enabled (rly_sessions r ! i)")
  case True
  obtain cs s where f: "f (rly_sessions r ! i, rly_state r) = (cs, s)"
    by (cases "f (rly_sessions r ! i, rly_state r)")
  from assms [of "rly_sessions r ! i" "rly_state r"] True show ?thesis
    by (simp add: on_session_def f byte_balance_eq queued_bytes_update session_balance_def algebra_simps)
qed (auto simp: on_session_def)

lemma on_upstream_balance:
  "(\<And>us. flow_balance (snd (f us)) = flow_balance (snd us)) \<Longrightarrow> byte_balance (on_upstream f r) = byte_balance r"
  by (auto simp: on_upstream_def byte_balance_eq queued_bytes_def split: prod.splits) (metis snd_conv)

lemma cleanup_balance: "byte_balance (relay_step X c (Cleanup i) r) = byte_balance r"
proof -
  have "flow_balance (client_cleanup cs s) = flow_balance s" for cs s
    by (simp add: client_cleanup_def flow_balance_def on_metrics_def)
  moreover have "queued cs = []" if "writer_finished cs" for cs
    using that by (simp add: writer_finished_def queued_def)
  ultimately show ?thesis
    by (simp add: byte_balance_eq queued_bytes_remove)
qed

lemma accept_balance: "byte_balance (relay_step X c (Accept peer now) r) = byte_balance r"
  by (auto simp: byte_balance_eq accept_client_def Let_def queued_bytes_def session_initial_def queued_def
      flow_balance_def on_metrics_def)

lemma relay_step_balance: "byte_balance (relay_step X c ev r) = byte_balance r + lost_bytes c ev r"
proof (cases ev)
  case (Client i now u inp)
  then show ?thesis
    by (cases inp) (simp_all add: on_session_balance [OF client_step_balance])
next
  case (Accept peer now)
  then show ?thesis using accept_balance by simp
next
  case (Cleanup i)
  then show ?thesis using cleanup_balance by simp
next
  case QualityTick
  then show ?thesis by (simp add: byte_balance_eq queued_bytes_def)
qed (auto simp: on_session_balance [OF writer_write_balance] on_upstream_balance
      on_session_balance [OF writer_recv_balance [THEN trans, OF add_0_right [symmetric]]])

lemma run_balance: "byte_balance (fold (relay_step X c) evs r) = byte_balance r + lost_in_run X c evs r"
  by (induction evs arbitrary: r) (simp_all add: relay_step_balance)

subsection \<open>Registry of authenticated users\<close>

definition registry_ok :: "nat \<Rightarrow> relay \<Rightarrow> bool" where
  "registry_ok n r \<longleftrightarrow>
     hash_wf (clients (rly_state r))
     \<and> fst ` set (clients (rly_state r)) = set (map cs_id (filter cs_authenticated (rly_sessions r)))
     \<and> distinct (map cs_id (rly_sessions r))
     \<and> (\<forall>cs\<in>set (rly_sessions r). unat (cs_id cs) < unat (next_client_id (rly_state r)))
     \<and> unat (next_client_id (rly_state r)) \<le> Suc n"

lemma registry_ok_mono: "registry_ok n r \<Longrightarrow> registry_ok (Suc n) r"
  by (auto simp: registry_ok_def)

lemma registry_ok_state:
  assumes "registry_ok n r" and "clients s = clients (rly_state r)" and "next_client_id s = next_client_id (rly_state r)"
    and "map (\<lambda>cs. (cs_id cs, cs_authenticated cs)) ss = map (\<lambda>cs. (cs_id cs, cs_authenticated cs)) (rly_sessions r)"
  shows "registry_ok n (r\<lparr>rly_sessions := ss, rly_state := s\<rparr>)"
proof -
  have ids: "map cs_id ss = map cs_id (rly_sessions r)"
    using arg_cong [OF assms(4), of "map fst"] by (simp add: comp_def)
  have pairs: "map cs_id (filter cs_authenticated xs) = map fst (filter snd (map (\<lambda>cs. (cs_id cs, cs_authenticated cs)) xs))"
    for xs
    by (induction xs) auto
  have "map cs_id (filter cs_authenticated ss) = map cs_id (filter cs_authenticated (rly_sessions r))"
    unfolding pairs by (simp only: assms(4))
  moreover have lt: "(\<forall>cs\<in>set xs. unat (cs_id cs) < k) \<longleftrightarrow> (\<forall>i\<in>set (map cs_id xs). unat i < k)" for xs k
    by simp
  have "(\<forall>cs\<in>set ss. unat (cs_id cs) < k) \<longleftrightarrow> (\<forall>cs\<in>set (rly_sessions r). unat (cs_id cs) < k)" for k
    unfolding lt by (simp only: ids)
  ultimately show ?thesis
    using assms(1-3) ids by (simp only: registry_ok_def) simp
qed

lemma authenticate_session_ids:
  assumes "distinct (map cs_id ss)" and "i < length ss" and "cs_id cs' = cs_id (ss ! i)" and "cs_authenticated cs'"
  shows "set (map cs_id (filter cs_authenticated (ss[i := cs']))) =
    insert (cs_id (ss ! i)) (set (map cs_id (filter cs_authenticated ss)))"
  using assms
proof (induction ss arbitrary: i)
  case (Cons x ss)
  then show ?case by (cases i) auto
qed simp

lemma registry_ok_on_session:
  assumes reg: "registry_ok n r"
    and f: "\<And>cs s cs' s'. f (cs, s) = (cs', s') \<Longrightarrow> cs_id cs' = cs_id cs \<and> next_client_id s' = next_client_id s
      \<and> (cs_authenticated cs' = cs_authenticated cs \<and> clients s' = clients s
        \<or> cs_authenticated cs' \<and> (\<exists>m. clients s' = hash_insert (cs_id cs) m (clients s)))"
  shows "registry_ok n (on_session i enabled f r)"
proof (cases "i < length (rly_sessions r) \<and> enabled (rly_sessions r ! i)")
  case True
  let ?ss = "rly_sessions r" and ?cs = "rly_sessions r ! i"
  obtain cs' s' where res: "f (?cs, rly_state r) = (cs', s')" by (cases "f (?cs, rly_state r)")
  note f' = f [OF res]
  have run: "on_session i enabled f r = r\<lparr>rly_sessions := ?ss[i := cs'], rly_state := s'\<rparr>"
    using True res by (simp add: on_session_def)
  consider "cs_authenticated cs' = cs_authenticated ?cs" "clients s' = clients (rly_state r)"
    | m where "cs_authenticated cs'" "clients s' = hash_insert (cs_id ?cs) m (clients (rly_state r))"
    using f' by blast
  then show ?thesis
  proof cases
    case 1
    have "map (\<lambda>cs. (cs_id cs, cs_authenticated cs)) (?ss[i := cs']) = map (\<lambda>cs. (cs_id cs, cs_authenticated cs)) ?ss"
      using True f' 1(1) by (simp add: map_update list_update_same_conv)
    then show ?thesis
      unfolding run using f' 1(2) by (intro registry_ok_state [OF reg]) auto
  next
    case 2
    have ids: "map cs_id (?ss[i := cs']) = map cs_id ?ss"
      using True f' by (simp add: map_update list_update_same_conv)
    have "set (map cs_id (filter cs_authenticated (?ss[i := cs']))) =
        insert (cs_id ?cs) (set (map cs_id (filter cs_authenticated ?ss)))"
      using True f' 2(1) reg by (intro authenticate_session_ids) (auto simp: registry_ok_def)
    moreover have "unat (cs_id cs) < unat (next_client_id (rly_state r))" if "cs \<in> set (?ss[i := cs'])" for cs
      using that reg True f' set_update_subset_insert [of ?ss i cs']
      by (auto simp: registry_ok_def)
    ultimately show ?thesis
      using reg f' 2(2) ids unfolding run
      by (auto simp: registry_ok_def hash_wf_insert hash_insert_keys simp del: map_update)
  qed
qed (use reg in \<open>auto simp: on_session_def\<close>)

lemma client_step_id: "client_step c now u inp (cs, s) = (cs', s') \<Longrightarrow> cs_id cs' = cs_id cs"
  by (auto simp: client_step_def client_leave_def client_read_def client_chunk_def Let_def
      split: client_input.splits if_splits outcome.splits option.splits prod.splits)

lemma client_step_registry:
  assumes "client_step c now u inp (cs, s) = (cs', s')"
  shows "next_client_id s' = next_client_id s"
    and "(cs_authenticated cs' = cs_authenticated cs \<and> clients s' = clients s)
      \<or> (cs_authenticated cs' \<and> (\<exists>m. clients s' = hash_insert (cs_id cs) m (clients s)))"
  using assms
  by (auto simp: client_step_def client_leave_def client_read_def client_chunk_def Let_def on_metrics_def
      count_auth_timeout_def drop_slow_client_def add_attempted_def
      split: client_input.splits if_splits outcome.splits option.splits prod.splits)

lemma writer_registry:
  "writer_recv (cs, s) = (cs', s') \<Longrightarrow> cs_id cs' = cs_id cs \<and> next_client_id s' = next_client_id s
     \<and> cs_authenticated cs' = cs_authenticated cs \<and> clients s' = clients s"
  "writer_write w (cs, s) = (cs', s') \<Longrightarrow> cs_id cs' = cs_id cs \<and> next_client_id s' = next_client_id s
     \<and> cs_authenticated cs' = cs_authenticated cs \<and> clients s' = clients s"
  by (auto simp: writer_recv_def writer_write_def Let_def on_metrics_def add_forwarded_def
      split: option.splits list.splits if_splits)

lemma registry_ok_upstream:
  assumes "registry_ok n r" and "\<And>us. clients (snd (f us)) = clients (snd us) \<and> next_client_id (snd (f us)) = next_client_id (snd us)"
  shows "registry_ok n (on_upstream f r)"
proof -
  obtain u s where f: "f (rly_upstream r, rly_state r) = (u, s)" by (cases "f (rly_upstream r, rly_state r)")
  from assms(2) [of "(rly_upstream r, rly_state r)"] assms(1) show ?thesis
    by (simp add: on_upstream_def f registry_ok_def)
qed

lemma upstream_registry:
  "clients (snd (upstream_attempt c b1 b2 us)) = clients (snd us)
     \<and> next_client_id (snd (upstream_attempt c b1 b2 us)) = next_client_id (snd us)"
  "clients (snd (upstream_read bs us)) = clients (snd us)
     \<and> next_client_id (snd (upstream_read bs us)) = next_client_id (snd us)"
  "clients (snd (upstream_reauth b us)) = clients (snd us)
     \<and> next_client_id (snd (upstream_reauth b us)) = next_client_id (snd us)"
  by (auto simp: upstream_attempt_def upstream_read_def upstream_reauth_def Let_def on_metrics_def
      count_upstream_disconnect_def set_latest_server_list_wire_def split: option.splits prod.splits)

lemma registry_ok_accept:
  assumes reg: "registry_ok n r" and n: "Suc n < 2 ^ 64 - 1"
  shows "registry_ok (Suc n) (relay_step X c (Accept peer now) r)"
proof -
  let ?id = "next_client_id (rly_state r)"
  have "unat ?id + 1 < 2 ^ 64" using reg n by (simp add: registry_ok_def)
  then have suc: "unat (?id + 1) = Suc (unat ?id)" by (simp add: unat_word_ariths)
  have "cs_id cs \<noteq> ?id" if "cs \<in> set (rly_sessions r)" for cs
    using reg that by (auto simp: registry_ok_def)
  then show ?thesis
    using reg suc
    by (auto simp: registry_ok_def accept_client_def Let_def on_metrics_def session_initial_def less_Suc_eq)
qed

lemma registry_ok_cleanup:
  assumes reg: "registry_ok n r"
  shows "registry_ok n (relay_step X c (Cleanup i) r)"
proof (cases "i < length (rly_sessions r)")
  case True
  define cs where "cs = rly_sessions r ! i"
  define xs where "xs = take i (rly_sessions r)"
  define ys where "ys = drop (Suc i) (rly_sessions r)"
  have split: "rly_sessions r = xs @ cs # ys"
    using True by (simp add: xs_def ys_def cs_def id_take_nth_drop)
  have fresh: "cs_id cs \<notin> cs_id ` set xs \<union> cs_id ` set ys" and dist: "distinct (map cs_id (xs @ ys))"
    using reg by (auto simp: registry_ok_def split)
  have "set (map cs_id (filter cs_authenticated (xs @ ys))) =
      set (map cs_id (filter cs_authenticated (xs @ cs # ys))) - {cs_id cs}"
    using fresh by auto
  then have "registry_ok n (r\<lparr>rly_state := client_cleanup cs (rly_state r), rly_sessions := xs @ ys\<rparr>)"
    using reg dist unfolding registry_ok_def split
    by (simp add: client_cleanup_def on_metrics_def hash.wf_del hash_remove_keys)
  then show ?thesis using reg by (simp flip: cs_def xs_def ys_def)
qed (use reg in simp)

lemma relay_step_registry:
  assumes "registry_ok n r" and "Suc n < 2 ^ 64 - 1"
  shows "registry_ok (Suc n) (relay_step X c ev r)"
proof (cases ev)
  case (Accept peer now)
  then show ?thesis using registry_ok_accept [OF assms] by simp
next
  case (Cleanup i)
  then show ?thesis using registry_ok_cleanup [OF assms(1), THEN registry_ok_mono] by simp
next
  case QualityTick
  have "clients (quality_tick X c s) = clients s" "next_client_id (quality_tick X c s) = next_client_id s" for s
    by (simp_all add: quality_tick_def on_metrics_def Let_def)
  with QualityTick registry_ok_mono [OF assms(1)] show ?thesis by (simp add: registry_ok_def)
next
  case (Client i now u inp)
  have "registry_ok n (on_session i (\<lambda>cs. cs_phase cs = Serving) (client_step c now u inp) r)"
    by (rule registry_ok_on_session [OF assms(1)]) (intro conjI client_step_id client_step_registry)
  then show ?thesis unfolding Client by (simp add: registry_ok_mono)
next
  case (WriterRecv i)
  have "registry_ok n (on_session i cs_writer_alive writer_recv r)"
    by (rule registry_ok_on_session [OF assms(1)]) (drule writer_registry(1), blast)
  then show ?thesis unfolding WriterRecv by (simp add: registry_ok_mono)
next
  case (WriterWrite i w)
  have "registry_ok n (on_session i cs_writer_alive (writer_write w) r)"
    by (rule registry_ok_on_session [OF assms(1)]) (drule writer_registry(2), blast)
  then show ?thesis unfolding WriterWrite by (simp add: registry_ok_mono)
qed (use upstream_registry in \<open>auto intro!: registry_ok_mono [OF registry_ok_upstream [OF assms(1)]]
      registry_ok_mono [OF assms(1)]\<close>)

lemma relay_run_registry:
  assumes "length evs < 2 ^ 64 - 2"
  shows "registry_ok (length evs) (relay_run X c evs)"
proof -
  have "registry_ok n r \<Longrightarrow> n + length evs < 2 ^ 64 - 2 \<Longrightarrow> registry_ok (n + length evs) (fold (relay_step X c) evs r)"
    for n r
  proof (induction evs arbitrary: n r)
    case (Cons ev evs)
    have "registry_ok (Suc n) (relay_step X c ev r)"
      using Cons.prems by (intro relay_step_registry) auto
    from Cons.IH [OF this] Cons.prems show ?case by simp
  qed simp
  moreover have "registry_ok 0 (relay_start c)"
    by (simp add: registry_ok_def relay_start_def relay_state_new_def from_upstream_servers_def hash.wf_Nil)
  ultimately show ?thesis using assms by (metis add_0 relay_run_def)
qed

end
