(* ===== verification/Relay_Props.thy ===== *)
theory Relay_Props
  imports Relay_Correct
begin

text \<open>
  The relay's properties: first the ones over every interleaving, then the quality window as
  a refinement of a list of the last periods, and the logon parser.
\<close>

subsection \<open>The quality window as a list of recent periods\<close>

datatype window_op = Rotate | Attempt u64 | Forward u64

fun window_do :: "window_op \<Rightarrow> QualityWindow \<Rightarrow> QualityWindow" where
  "window_do Rotate w = rotate_window w"
| "window_do (Attempt n) w = window_add_attempted n w"
| "window_do (Forward n) w = window_add_forwarded n w"

text \<open>The specification: the newest period first, a rotation forgets the oldest.\<close>

fun recent_do :: "window_op \<Rightarrow> QualityBucket list \<Rightarrow> QualityBucket list" where
  "recent_do Rotate bs = bucket_default # butlast bs"
| "recent_do (Attempt n) (b # bs) = b\<lparr>attempted := sat_add (attempted b) n\<rparr> # bs"
| "recent_do (Forward n) (b # bs) = b\<lparr>forwarded := sat_add (forwarded b) n\<rparr> # bs"
| "recent_do _ [] = []"

text \<open>Reading the ring backwards from its index gives the newest period first.\<close>

definition recent :: "QualityWindow \<Rightarrow> QualityBucket list" where
  "recent w = rev (take (Suc (qw_index w)) (buckets w)) @ rev (drop (Suc (qw_index w)) (buckets w))"

definition window_wf :: "QualityWindow \<Rightarrow> bool" where
  "window_wf w \<longleftrightarrow> qw_index w < length (buckets w)"

lemma window_split:
  assumes "window_wf w"
  obtains xs b ys where "buckets w = xs @ b # ys" "length xs = qw_index w"
    "recent w = b # rev xs @ rev ys"
proof -
  let ?i = "qw_index w"
  have "buckets w = take ?i (buckets w) @ buckets w ! ?i # drop (Suc ?i) (buckets w)"
    using assms by (simp add: window_wf_def id_take_nth_drop)
  moreover have "length (take ?i (buckets w)) = ?i" using assms by (simp add: window_wf_def)
  moreover have "recent w = buckets w ! ?i # rev (take ?i (buckets w)) @ rev (drop (Suc ?i) (buckets w))"
    using assms by (simp add: recent_def window_wf_def take_Suc_conv_app_nth)
  ultimately show ?thesis using that by blast
qed

lemma rotate_recent:
  assumes "window_wf w"
  shows "window_wf (rotate_window w) \<and> recent (rotate_window w) = bucket_default # butlast (recent w)"
proof -
  obtain xs b ys where w: "buckets w = xs @ b # ys" "length xs = qw_index w" "recent w = b # rev xs @ rev ys"
    by (rule window_split [OF assms])
  show ?thesis
  proof (cases ys)
    case Nil
    then have "(qw_index w + 1) mod length (buckets w) = 0" using w by simp
    then have "rotate_window w = w\<lparr>qw_index := 0, buckets := (xs @ [b])[0 := bucket_default]\<rparr>"
      using w Nil by (simp add: rotate_window_def)
    then show ?thesis
      using w Nil by (cases xs) (auto simp: window_wf_def recent_def butlast_append)
  next
    case (Cons y ys')
    then have "(qw_index w + 1) mod length (buckets w) = Suc (length xs)" using w by simp
    then have "rotate_window w = w\<lparr>qw_index := Suc (length xs), buckets := xs @ b # bucket_default # ys'\<rparr>"
      using w Cons by (simp add: rotate_window_def list_update_append)
    then show ?thesis
      using w Cons by (simp add: window_wf_def recent_def butlast_append)
  qed
qed

lemma add_recent:
  assumes "window_wf w"
  shows "window_wf (window_add_attempted n w) \<and> recent (window_add_attempted n w) = recent_do (Attempt n) (recent w)"
    and "window_wf (window_add_forwarded n w) \<and> recent (window_add_forwarded n w) = recent_do (Forward n) (recent w)"
proof -
  obtain xs b ys where w: "buckets w = xs @ b # ys" "length xs = qw_index w" "recent w = b # rev xs @ rev ys"
    by (rule window_split [OF assms])
  then have "(xs @ b # ys) ! qw_index w = b" "(xs @ b # ys)[qw_index w := b'] = xs @ b' # ys" for b'
    by (auto simp: nth_append list_update_append)
  with w show "window_wf (window_add_attempted n w) \<and> recent (window_add_attempted n w) = recent_do (Attempt n) (recent w)"
    "window_wf (window_add_forwarded n w) \<and> recent (window_add_forwarded n w) = recent_do (Forward n) (recent w)"
    by (auto simp: window_wf_def window_add_attempted_def window_add_forwarded_def recent_def)
qed

lemma window_do_recent:
  "window_wf w \<Longrightarrow> window_wf (window_do op w) \<and> recent (window_do op w) = recent_do op (recent w)"
  using rotate_recent add_recent by (cases op) auto

lemma window_run_recent:
  "window_wf w \<Longrightarrow> window_wf (fold window_do ops w) \<and> recent (fold window_do ops w) = fold recent_do ops (recent w)"
  by (induction ops arbitrary: w) (simp_all add: window_do_recent)

lemma unat_sat_sum:
  "unat (foldl (\<lambda>sum b. sat_add sum (f b)) (a :: u64) bs) = min (unat a + (\<Sum>b\<leftarrow>bs. unat (f b))) (2 ^ 64 - 1)"
proof (induction bs arbitrary: a)
  case Nil
  have "unat a < 2 ^ 64" using unsigned_less [of a, where ?'a = nat] by simp
  then show ?case by simp
next
  case (Cons b bs)
  then show ?case by (simp add: unat_sat_add min_def)
qed

lemma sum_recent: "window_wf w \<Longrightarrow> (\<Sum>b\<leftarrow>recent w. (f b :: nat)) = (\<Sum>b\<leftarrow>buckets w. f b)"
proof -
  assume "window_wf w"
  have "(\<Sum>b\<leftarrow>buckets w. f b) = (\<Sum>b\<leftarrow>take k (buckets w) @ drop k (buckets w). f b)" for k
    by simp
  also have "\<dots> k = (\<Sum>b\<leftarrow>take k (buckets w). f b) + (\<Sum>b\<leftarrow>drop k (buckets w). f b)" for k
    by (simp del: append_take_drop_id)
  finally show ?thesis
    by (simp add: recent_def rev_map [symmetric] sum_list_rev)
qed

subsection \<open>The logon parser\<close>

text \<open>The results of a sequence of reads.\<close>

fun consume_all :: "byte list list \<Rightarrow> AuthParser \<Rightarrow> (string option list \<times> AuthParser) outcome" where
  "consume_all [] p = Done ([], p)"
| "consume_all (c # cs) p =
     (case auth_consume c p of
        Panicked \<Rightarrow> Panicked
      | Done (r, p') \<Rightarrow>
          (case consume_all cs p' of Panicked \<Rightarrow> Panicked | Done (rs, p'') \<Rightarrow> Done (r # rs, p'')))"

definition logon_bytes :: "string \<Rightarrow> byte list" where
  "logon_bytes email = bytes_of (build_logon_message email)"

lemma logon_bytes_eq: "logon_bytes email = bytes_of LOGON_PREFIX @ bytes_of email @ bytes_of LOGON_SUFFIX"
  by (simp add: logon_bytes_def build_logon_message_def)

lemma suffix_hd: "bytes_of LOGON_SUFFIX \<noteq> []" "hd (bytes_of LOGON_SUFFIX) = of_char (CHR ''|'')"
  by (simp_all add: LOGON_SUFFIX_def bytes_of_def)

lemma bar_not_in_bytes: "CHR ''|'' \<notin> set s \<Longrightarrow> of_char (CHR ''|'') \<notin> set (bytes_of s)"
proof
  assume "CHR ''|'' \<notin> set s" and "(of_char (CHR ''|'') :: byte) \<in> set (bytes_of s)"
  then obtain c where "c \<in> set s" "(of_char c :: byte) = of_char (CHR ''|'')"
    by (auto simp: bytes_of_def)
  then have "(of_char c :: nat) = of_char (CHR ''|'')"
    by (metis unat_of_char_byte)
  then have "c = CHR ''|''" by (simp only: of_char_eq_iff)
  with \<open>c \<in> set s\<close> \<open>CHR ''|'' \<notin> set s\<close> show False by simp
qed

lemma find_sub_at_end: "p \<noteq> [] \<Longrightarrow> hd p \<notin> set xs \<Longrightarrow> find_sub (xs @ p) p = Some (length xs)"
proof (induction xs)
  case Nil
  then show ?case by (simp add: find_sub_at_front starts_with_def)
next
  case (Cons x xs)
  have "\<not> starts_with (x # xs @ p) p"
    using Cons.prems by (cases p) (auto simp: starts_with_def)
  then show ?case using Cons by simp
qed

lemma find_sub_not_yet:
  assumes "p \<noteq> []" and "hd p \<notin> set xs" and "k < length xs + length p"
  shows "find_sub (take k (xs @ p)) p = None"
proof (rule ccontr)
  assume "find_sub (take k (xs @ p)) p \<noteq> None"
  then obtain i where "find_sub (take k (xs @ p)) p = Some i" by auto
  from find_sub_SomeD [OF this] have i: "i + length p \<le> length (take k (xs @ p))"
    and sw: "starts_with (drop i (take k (xs @ p))) p" by auto
  have lt: "i < length xs" using i assms(3) by simp
  obtain ys where "drop i (take k (xs @ p)) = p @ ys" using sw by (auto simp: starts_with_iff)
  moreover have "i < length (take k (xs @ p))" using i assms(1) by (cases p) auto
  ultimately have "take k (xs @ p) ! i = hd p"
    using assms(1) by (metis hd_append2 hd_drop_conv_nth)
  moreover have "i < k" using \<open>i < length (take k (xs @ p))\<close> by simp
  then have "take k (xs @ p) ! i = xs ! i" using lt by (simp only: nth_take nth_append if_True)
  ultimately have "xs ! i = hd p" by simp
  with lt assms(2) show False by (metis nth_mem)
qed

lemma extract_logon_partial:
  assumes "CHR ''|'' \<notin> set email" and "k < length (logon_bytes email)"
  shows "extract_logon (take k (logon_bytes email)) = (None, take k (logon_bytes email))"
proof (cases "k < length LOGON_PREFIX")
  case True
  then have "find_sub (take k (logon_bytes email)) (bytes_of LOGON_PREFIX) = None"
    using find_sub_SomeD [of "take k (logon_bytes email)" "bytes_of LOGON_PREFIX"]
    by (cases "find_sub (take k (logon_bytes email)) (bytes_of LOGON_PREFIX)") fastforce+
  then show ?thesis by (simp add: extract_logon_def)
next
  case False
  let ?P = "bytes_of LOGON_PREFIX" and ?e = "bytes_of email" and ?S = "bytes_of LOGON_SUFFIX"
  let ?m = "k - length LOGON_PREFIX"
  have t: "take k (logon_bytes email) = ?P @ take ?m (?e @ ?S)"
    using False by (simp add: logon_bytes_eq)
  have "find_sub (take ?m (?e @ ?S)) ?S = None"
    using assms suffix_hd bar_not_in_bytes [OF assms(1)]
    by (intro find_sub_not_yet) (auto simp: logon_bytes_eq LOGON_SUFFIX_def)
  then show ?thesis
    unfolding t by (simp add: extract_logon_def find_sub_at_front Let_def)
qed

lemma extract_logon_full:
  assumes "CHR ''|'' \<notin> set email" and "trim email \<noteq> []"
  shows "extract_logon (logon_bytes email) = (Some (trim email), [])"
proof -
  let ?P = "bytes_of LOGON_PREFIX" and ?e = "bytes_of email" and ?S = "bytes_of LOGON_SUFFIX"
  have P: "find_sub (logon_bytes email) ?P = Some 0"
    by (simp add: logon_bytes_eq find_sub_at_front)
  have rest: "drop (length LOGON_PREFIX) (logon_bytes email) = ?e @ ?S"
    by (simp add: logon_bytes_eq)
  have S: "find_sub (?e @ ?S) ?S = Some (length email)"
    using find_sub_at_end [OF suffix_hd(1), of ?e] suffix_hd(2) bar_not_in_bytes [OF assms(1)] by simp
  have len: "length LOGON_PREFIX + length email + length LOGON_SUFFIX = length (logon_bytes email)"
    by (simp add: logon_bytes_eq)
  have "parse_logon_message (str_of (logon_bytes email)) = Some \<lparr>auth_email = trim email\<rparr>"
    using assms(2) by (simp add: logon_bytes_def parse_logon_build)
  then show ?thesis
    using P rest S len by (simp add: extract_logon_def)
qed

lemma auth_consume_ascii:
  assumes "is_ascii (map xor_ff_byte c)" and "length (decoded_text p) + length c \<le> 8192"
  shows "auth_consume c p =
    (let (found, rest) = extract_logon (decoded_text p @ map xor_ff_byte c) in Done (found, p\<lparr>decoded_text := rest\<rparr>))"
  using assms by (simp add: auth_consume_def keep_trailing_def from_utf8_lossy_valid is_ascii_valid)

lemma consume_all_logon:
  assumes "CHR ''|'' \<notin> set email" and "trim email \<noteq> []" and "is_ascii (logon_bytes email)"
    and "length (logon_bytes email) \<le> 8192"
    and "decoded_text p @ map xor_ff_byte (concat cs) = logon_bytes email" and "cs \<noteq> []" and "last cs \<noteq> []"
  shows "consume_all cs p = Done (replicate (length cs - 1) None @ [Some (trim email)], p\<lparr>decoded_text := []\<rparr>)"
  using assms(5-)
proof (induction cs arbitrary: p)
  case (Cons c cs)
  have asc: "is_ascii (map xor_ff_byte c)"
    using assms(3) Cons.prems(1) by (auto simp: is_ascii_def list_all_iff simp flip: Cons.prems(1))
  have len: "length (decoded_text p) + length c \<le> 8192"
    using assms(4) arg_cong [OF Cons.prems(1), of length] by simp
  note consume = auth_consume_ascii [OF asc len]
  show ?case
  proof (cases "cs = []")
    case True
    then show ?thesis
      using Cons.prems(1) consume extract_logon_full [OF assms(1,2)] by simp
  next
    case False
    have "concat cs \<noteq> []" using False Cons.prems(3) last_in_set [OF False] by (auto split: if_splits)
    define t where "t = decoded_text p @ map xor_ff_byte c"
    have t: "t @ map xor_ff_byte (concat cs) = logon_bytes email"
      using Cons.prems(1) by (simp add: t_def)
    then have "take (length t) (logon_bytes email) = t" "length t < length (logon_bytes email)"
      using \<open>concat cs \<noteq> []\<close> by (simp_all flip: t)
    then have "extract_logon t = (None, t)"
      using extract_logon_partial [OF assms(1), of "length t"] by simp
    then have "auth_consume c p = Done (None, p\<lparr>decoded_text := t\<rparr>)"
      using consume by (simp add: t_def)
    moreover have "consume_all cs (p\<lparr>decoded_text := t\<rparr>) =
        Done (replicate (length cs - 1) None @ [Some (trim email)], p\<lparr>decoded_text := []\<rparr>)"
      using Cons.IH [of "p\<lparr>decoded_text := t\<rparr>"] t False Cons.prems(3) by simp
    ultimately show ?thesis
      using False by (cases cs) simp_all
  qed
qed simp

lemma xor_158: "xor_ff_byte 158 = 97"
  by (simp add: xor_ff_byte_def)

lemma is_ascii_replicate: "is_ascii (replicate n 97)"
  by (simp add: is_ascii_def list_all_iff)

lemma extract_logon_noise:
  "extract_logon (replacement_character @ replicate n 97) = (None, replacement_character @ replicate n 97)"
proof -
  have "hd (bytes_of LOGON_PREFIX) \<notin> set (replacement_character @ replicate n 97)" "bytes_of LOGON_PREFIX \<noteq> []"
    by (auto simp: LOGON_PREFIX_def bytes_of_def replacement_character_def)
  then have "find_sub (replacement_character @ replicate n 97) (bytes_of LOGON_PREFIX) = None"
    by (intro find_sub_None_hd)
  then show ?thesis by (simp add: extract_logon_def)
qed

lemma length_replacement [simp]: "length replacement_character = 3"
  by (simp add: replacement_character_def)

lemma consume_noise:
  assumes "decoded_text p = replacement_character @ replicate m 97" and "m + n \<le> 8189"
  shows "auth_consume (replicate n 158) p = Done (None, p\<lparr>decoded_text := replacement_character @ replicate (m + n) 97\<rparr>)"
proof -
  have "auth_consume (replicate n 158) p =
      (let (found, rest) = extract_logon (decoded_text p @ map xor_ff_byte (replicate n 158))
       in Done (found, p\<lparr>decoded_text := rest\<rparr>))"
    using assms by (intro auth_consume_ascii) (simp_all add: xor_158 is_ascii_replicate)
  then show ?thesis
    using extract_logon_noise [of "m + n"] by (simp add: assms(1) xor_158 replicate_add)
qed

lemma consume_noise_panics:
  assumes "decoded_text p = replacement_character @ replicate m 97" and "m + n = 8190"
  shows "auth_consume (replicate n 158) p = Panicked"
proof -
  have lossy: "from_utf8_lossy (replicate n 97) = replicate n 97"
    by (simp add: from_utf8_lossy_valid is_ascii_valid is_ascii_replicate)
  have whole: "decoded_text p @ from_utf8_lossy (map xor_ff_byte (replicate n 158)) =
      replacement_character @ replicate 8190 97"
    using assms by (simp add: xor_158 lossy flip: replicate_add)
  have "\<not> is_char_boundary (replacement_character @ replicate 8190 97) 1"
    by (simp add: is_char_boundary_def replacement_character_def is_cont_def)
  then show ?thesis
    unfolding auth_consume_def whole by (simp add: keep_trailing_def)
qed

lemma lossy_bad_byte: "from_utf8_lossy [255] = replacement_character"
proof -
  have "utf8_char [255 :: byte] = Inl (Some 1)"
    by (simp add: utf8_char_width_def)
  then show ?thesis by (subst from_utf8_lossy.simps) (simp add: from_utf8_lossy.simps [of "[]"])
qed

subsection \<open>Pausing and dead sessions\<close>

definition pause_view :: "QbtRelayState \<Rightarrow> nat \<times> bool" where
  "pause_view s = (length (buckets (quality_window s)), forwarding_paused (metrics s))"

lemma pause_view_simps [simp]:
  "pause_view (add_attempted n s) = pause_view s"
  "pause_view (add_forwarded n s) = pause_view s"
  "pause_view (drop_slow_client n s) = pause_view s"
  "pause_view (count_auth_timeout s) = pause_view s"
  "pause_view (count_upstream_disconnect s) = pause_view s"
  "pause_view (set_latest_server_list_wire w s) = pause_view s"
  "pause_view (s\<lparr>clients := cl\<rparr>) = pause_view s"
  "pause_view (client_cleanup cs s) = pause_view s"
  by (simp_all add: pause_view_def add_attempted_def add_forwarded_def drop_slow_client_def
    count_auth_timeout_def count_upstream_disconnect_def set_latest_server_list_wire_def
    client_cleanup_def on_metrics_def window_add_attempted_def window_add_forwarded_def)

lemma pause_view_metrics:
  "(\<And>m. forwarding_paused (f m) = forwarding_paused m) \<Longrightarrow> pause_view (on_metrics f s) = pause_view s"
  by (simp add: pause_view_def on_metrics_def)

lemma pause_view_steps [simp]:
  "pause_view (snd (client_step c now u inp (cs, s))) = pause_view s"
  "pause_view (snd (writer_recv (cs, s))) = pause_view s"
  "pause_view (snd (writer_write w (cs, s))) = pause_view s"
  by (auto simp: client_step_def client_read_def client_chunk_def writer_recv_def writer_write_def Let_def
      pause_view_metrics split: client_input.splits outcome.splits option.splits list.splits prod.splits)

lemma pause_view_upstream [simp]:
  "pause_view (snd (upstream_attempt c b1 b2 us)) = pause_view (snd us)"
  "pause_view (snd (upstream_read bs us)) = pause_view (snd us)"
  "pause_view (snd (upstream_reauth b us)) = pause_view (snd us)"
  by (auto simp: upstream_attempt_def upstream_read_def upstream_reauth_def Let_def pause_view_metrics
      split: option.splits prod.splits)

lemma on_session_view:
  "(\<And>cs s. obs (snd (f (cs, s))) = obs s) \<Longrightarrow> obs (rly_state (on_session i enabled f r)) = obs (rly_state r)"
  by (auto simp: on_session_def split: prod.splits) (metis snd_conv)

lemma on_upstream_view:
  "(\<And>us. obs (snd (f us)) = obs (snd us)) \<Longrightarrow> obs (rly_state (on_upstream f r)) = obs (rly_state r)"
  by (auto simp: on_upstream_def split: prod.splits) (metis snd_conv)

lemma quality_tick_single:
  assumes "pause_view s = (1, False)" and "rc_quality_pause_threshold c \<le> 1"
  shows "pause_view (quality_tick X c s) = (1, False)"
proof -
  obtain b where b: "buckets (quality_window s) = [b]"
    using assms(1) by (auto simp: pause_view_def length_Suc_conv)
  then have "buckets (rotate_window (quality_window s)) = [bucket_default]"
    by (simp add: rotate_window_def)
  then have "window_ratio X (rotate_window (quality_window s)) = 1"
    by (simp add: window_ratio_def window_totals_def bucket_default_def sat_add_def)
  then show ?thesis
    using assms b by (simp add: quality_tick_def pause_view_def on_metrics_def Let_def rotate_window_def)
qed

lemma relay_step_single_period:
  assumes "pause_view (rly_state r) = (1, False)" and "rc_quality_pause_threshold c \<le> 1"
  shows "pause_view (rly_state (relay_step X c ev r)) = (1, False)"
proof (cases ev)
  case (Accept peer now)
  with assms(1) show ?thesis
    by (auto simp: accept_client_def Let_def pause_view_def on_metrics_def)
next
  case QualityTick
  then show ?thesis using quality_tick_single [OF assms] by simp
qed (use assms(1) in \<open>simp_all add: on_session_view [of pause_view] on_upstream_view [of pause_view]\<close>)

definition dead_sessions :: "relay \<Rightarrow> nat" where
  "dead_sessions r = length (filter (\<lambda>cs. cs_phase cs = Dead) (rly_sessions r))"

lemma dead_update:
  assumes "i < length xs" and "cs_phase (xs ! i) = Dead \<Longrightarrow> cs_phase y = Dead"
  shows "length (filter (\<lambda>cs. cs_phase cs = Dead) xs) \<le> length (filter (\<lambda>cs. cs_phase cs = Dead) (xs[i := y]))"
  using assms
proof (induction xs arbitrary: i)
  case (Cons x xs)
  then show ?case by (cases i) auto
qed simp

lemma on_session_dead:
  assumes "\<And>cs s. enabled cs \<Longrightarrow> cs_phase cs = Dead \<Longrightarrow> cs_phase (fst (f (cs, s))) = Dead"
  shows "dead_sessions r \<le> dead_sessions (on_session i enabled f r)"
  using assms by (auto simp: on_session_def dead_sessions_def split: prod.splits intro!: dead_update) (metis fst_conv)

lemma writer_phase:
  "cs_phase (fst (writer_recv (cs, s))) = cs_phase cs" "cs_phase (fst (writer_write w (cs, s))) = cs_phase cs"
  by (auto simp: writer_recv_def writer_write_def Let_def split: option.splits list.splits)

lemma relay_step_dead: "dead_sessions r \<le> dead_sessions (relay_step X c ev r)"
proof (cases ev)
  case (Cleanup i)
  show ?thesis
  proof (cases "i < length (rly_sessions r) \<and> cs_phase (rly_sessions r ! i) = Draining")
    case True
    have "rly_sessions r = take i (rly_sessions r) @ rly_sessions r ! i # drop (Suc i) (rly_sessions r)"
      using True by (simp add: id_take_nth_drop)
    then have "dead_sessions r = length (filter (\<lambda>cs. cs_phase cs = Dead)
        (take i (rly_sessions r) @ rly_sessions r ! i # drop (Suc i) (rly_sessions r)))"
      by (simp add: dead_sessions_def)
    with True Cleanup show ?thesis by (simp add: dead_sessions_def)
  qed (use Cleanup in auto)
next
  case (Accept peer now)
  then show ?thesis by (simp add: dead_sessions_def split: prod.splits)
next
  case (Client i now u inp)
  then show ?thesis by (auto intro!: on_session_dead)
next
  case (WriterRecv i)
  then show ?thesis by (simp add: on_session_dead writer_phase)
next
  case (WriterWrite i w)
  then show ?thesis by (simp add: on_session_dead writer_phase)
qed (simp_all add: on_upstream_def dead_sessions_def split: prod.splits)

subsection \<open>Properties\<close>

text \<open>
  C21: In every interleaving, the number of downstream sessions equals the published number of
  active clients and never exceeds the configured maximum.
\<close>

theorem relay_respects_client_limit:
  "unat (downstream_active_clients (metrics (rly_state (relay_run X c evs)))) = length (rly_sessions (relay_run X c evs))
   \<and> length (rly_sessions (relay_run X c evs)) \<le> rc_max_clients c"
proof -
  have "within_limit c (relay_start c)"
    by (simp add: within_limit_def relay_start_def relay_state_new_def from_upstream_servers_def metrics_default_def)
  then have "within_limit c (relay_run X c evs)"
    by (rule relay_run_induct [where P = "within_limit c"]) (rule relay_step_within_limit)
  then show ?thesis by (simp add: within_limit_def)
qed

text \<open>
  C20: In every interleaving, only a client that has authenticated ever has data queued or
  being written to it, its queued chunks hold at most \<open>client_buffer_bytes\<close> permits, and its
  queue has at most 1024 entries.
\<close>

theorem relay_serves_only_authenticated_clients:
  "list_all (\<lambda>cs. (cs_authenticated cs \<or> queued cs = [])
      \<and> sum_list (map permits_of (queued cs)) \<le> rc_client_buffer_bytes c
      \<and> length (cs_queue cs) \<le> 1024)
   (rly_sessions (relay_run X c evs))"
proof -
  have "sessions_ok c (relay_run X c evs)"
    by (rule relay_run_induct [where P = "sessions_ok c"])
      (simp_all add: relay_step_sessions_ok, simp add: sessions_ok_def relay_start_def)
  then show ?thesis
    by (auto simp: sessions_ok_def session_ok_def CLIENT_WRITER_QUEUE_CAPACITY_def list_all_iff)
qed

text \<open>
  C22: In every interleaving, the bytes attempted are exactly the bytes forwarded, dropped,
  still queued, or lost behind a failed writer (which no counter records), modulo the 64-bit
  wrap of the counters.
\<close>

theorem relay_accounts_for_every_byte:
  "bytes_attempted (metrics (rly_state (relay_run X c evs))) =
     bytes_forwarded (metrics (rly_state (relay_run X c evs)))
     + bytes_dropped (metrics (rly_state (relay_run X c evs)))
     + queued_bytes (relay_run X c evs) + lost_in_run X c evs (relay_start c)"
proof -
  have "byte_balance (relay_start c) = 0"
    by (simp add: byte_balance_def relay_start_def relay_state_new_def from_upstream_servers_def
      metrics_default_def queued_bytes_def)
  then have "byte_balance (relay_run X c evs) = lost_in_run X c evs (relay_start c)"
    by (simp add: relay_run_def run_balance)
  then show ?thesis by (simp add: byte_balance_def algebra_simps)
qed

text \<open>
  In every interleaving of fewer than \<open>2 ^ 64 - 2\<close> events, the registry of connected users
  holds exactly the ids of the sessions that have authenticated and not yet ended, and session
  ids are unique.
\<close>

theorem relay_registry_is_exact:
  assumes "length evs < 2 ^ 64 - 2"
  shows "fst ` set (clients (rly_state (relay_run X c evs))) =
      set (map cs_id (filter cs_authenticated (rly_sessions (relay_run X c evs))))
    \<and> distinct (map cs_id (rly_sessions (relay_run X c evs)))"
  using relay_run_registry [OF assms] by (simp add: registry_ok_def)

definition sample_relay_config :: QbtRelayConfig where
  "sample_relay_config =
     \<lparr>rc_email = ''a@b'', rc_upstream_servers = [(''h'', 1)], rc_bind_addr = ''127.0.0.1:0'',
      rc_max_clients = 2, rc_auth_timeout = from_secs 720, rc_client_buffer_bytes = 100,
      rc_reconnect_delay = from_secs 5, rc_connect_timeout = from_secs 5,
      rc_quality_window_secs = 1, rc_quality_pause_threshold = 1 / 2,
      rc_metrics_log_interval = from_secs 60\<rparr>"

definition exact_f64 :: f64_ops where
  "exact_f64 = \<lparr>f64_round = id\<rparr>"

theorem relay_registry_is_exact_witness:
  "let r = relay_run exact_f64 sample_relay_config [Accept ''peer'' 0, Accept ''peer'' 1, QualityTick] in
   fst ` set (clients (rly_state r)) = set (map cs_id (filter cs_authenticated (rly_sessions r)))
   \<and> distinct (map cs_id (rly_sessions r))"
  unfolding Let_def by (rule relay_registry_is_exact) simp

text \<open>
  C23: The ring of buckets behaves as a list of the most recent periods: after any operations
  its buckets, read backwards from the index, are those of the list specification, and the
  totals used for the ratio are the saturated sums over them.
\<close>

theorem quality_window_refines_recent_periods:
  "let w = fold window_do ops (quality_window_new n);
       bs = fold recent_do ops (replicate (max n 1) bucket_default)
   in recent w = bs
      \<and> unat (fst (window_totals w)) = min (\<Sum>b\<leftarrow>bs. unat (attempted b)) (2 ^ 64 - 1)
      \<and> unat (snd (window_totals w)) = min (\<Sum>b\<leftarrow>bs. unat (forwarded b)) (2 ^ 64 - 1)"
proof -
  let ?w0 = "quality_window_new n"
  have wf0: "window_wf ?w0" by (simp add: window_wf_def quality_window_new_def)
  have "recent ?w0 = replicate (max n 1) bucket_default"
    by (cases "max n 1") (simp_all add: recent_def quality_window_new_def)
  then have "window_wf (fold window_do ops ?w0)"
    and r: "recent (fold window_do ops ?w0) = fold recent_do ops (replicate (max n 1) bucket_default)"
    using window_run_recent [OF wf0] by auto
  then show ?thesis
    by (simp add: Let_def window_totals_def unat_sat_sum flip: sum_recent r)
qed

text \<open>
  With a quality window of one period (or none) forwarding is never paused, whatever is
  lost: the monitor clears the only bucket right before it reads the ratio.
\<close>

theorem single_period_window_never_pauses:
  assumes "rc_quality_window_secs c \<le> 1" and "rc_quality_pause_threshold c \<le> 1"
  shows "\<not> forwarding_paused (metrics (rly_state (relay_run X c evs)))"
proof -
  have "pause_view (rly_state (relay_start c)) = (1, False)"
    using assms(1) by (simp add: pause_view_def relay_start_def relay_state_new_def from_upstream_servers_def
      metrics_default_def quality_window_new_def max_def)
  then have "pause_view (rly_state (relay_run X c evs)) = (1, False)"
    by (rule relay_run_induct [where P = "\<lambda>r. pause_view (rly_state r) = (1, False)"])
      (rule relay_step_single_period [OF _ assms(2)])
  then show ?thesis by (simp add: pause_view_def)
qed

theorem single_period_window_never_pauses_witness:
  "\<not> forwarding_paused (metrics (rly_state (relay_run exact_f64 sample_relay_config
     [Accept ''peer'' 0, QualityTick, QualityTick])))"
  by (rule single_period_window_never_pauses) (simp_all add: sample_relay_config_def)

lemma sat_add_zero: "sat_add 0 a = a" "sat_add a 0 = a"
  using unsigned_less [of a, where ?'a = nat] by (simp_all add: sat_add_def)

text \<open>
  The ratio is documented to lie between 0 and 1, but bytes forwarded after their attempt
  has left the window push it above 1, here to 11.
\<close>

theorem quality_ratio_can_exceed_one:
  "window_ratio exact_f64
     (fold window_do [Attempt 100, Rotate, Attempt 10, Forward 110, Rotate] (quality_window_new 2)) = 11"
proof -
  have "window_totals (fold window_do [Attempt 100, Rotate, Attempt 10, Forward 110, Rotate] (quality_window_new 2))
      = (10, 110)"
    by (simp add: quality_window_new_def numeral_2_eq_2 rotate_window_def window_add_attempted_def
      window_add_forwarded_def bucket_default_def window_totals_def sat_add_zero)
  then show ?thesis by (simp add: window_ratio_def f64_of_u64_def exact_f64_def)
qed

text \<open>
  A logon message of at most 8192 ASCII bytes is recognised however its bytes are cut into
  reads: every read before the last returns nothing, the last one the trimmed address, and
  nothing is left in the parser.
\<close>

theorem logon_recognised_in_any_chunking:
  assumes "CHR ''|'' \<notin> set email" and "trim email \<noteq> []"
    and "is_ascii (bytes_of (build_logon_message email))" and "length (build_logon_message email) \<le> 8192"
    and "concat reads = xor_ff (bytes_of (build_logon_message email))" and "reads \<noteq> []" and "last reads \<noteq> []"
  shows "consume_all reads auth_parser_default =
    Done (replicate (length reads - 1) None @ [Some (trim email)], auth_parser_default)"
proof -
  have "map xor_ff_byte (concat reads) = logon_bytes email"
    by (simp add: assms(5) logon_bytes_def xor_ff_def comp_def)
  then have "consume_all reads auth_parser_default =
      Done (replicate (length reads - 1) None @ [Some (trim email)], auth_parser_default\<lparr>decoded_text := []\<rparr>)"
    using assms by (intro consume_all_logon) (simp_all add: logon_bytes_def auth_parser_default_def)
  then show ?thesis by (simp add: auth_parser_default_def)
qed

lemma trim_sample: "trim ''u@h'' = ''u@h''"
  by (rule trim_graphic) (auto simp: is_graphic_def)

theorem logon_recognised_in_any_chunking_witness:
  "consume_all [xor_ff (bytes_of (take 9 (build_logon_message ''u@h''))),
       xor_ff (bytes_of (drop 9 (build_logon_message ''u@h'')))] auth_parser_default =
   Done (replicate (length [xor_ff (bytes_of (take 9 (build_logon_message ''u@h''))),
       xor_ff (bytes_of (drop 9 (build_logon_message ''u@h'')))] - 1) None @ [Some (trim ''u@h'')],
     auth_parser_default)"
proof (rule logon_recognised_in_any_chunking)
  show "is_ascii (bytes_of (build_logon_message ''u@h''))"
    by (simp add: is_ascii_def build_logon_message_def LOGON_PREFIX_def LOGON_SUFFIX_def bytes_of_def)
  show "concat [xor_ff (bytes_of (take 9 (build_logon_message ''u@h''))),
      xor_ff (bytes_of (drop 9 (build_logon_message ''u@h'')))] = xor_ff (bytes_of (build_logon_message ''u@h''))"
    by (simp flip: xor_ff_append bytes_of_append)
  show "last [xor_ff (bytes_of (take 9 (build_logon_message ''u@h''))),
      xor_ff (bytes_of (drop 9 (build_logon_message ''u@h'')))] \<noteq> []"
    by (simp add: build_logon_message_def LOGON_PREFIX_def xor_ff_def bytes_of_def)
qed (simp_all add: trim_sample build_logon_message_def LOGON_PREFIX_def LOGON_SUFFIX_def)

text \<open>
  Noise can crash a client session: after one byte that is not UTF-8, the read that makes
  the text 8193 bytes long cuts it inside the replacement character and panics.
\<close>

theorem logon_parser_panics_on_noise:
  "consume_all ([0] # replicate 3 (replicate 2048 158) @ [replicate 2046 158]) auth_parser_default = Panicked"
proof -
  have "auth_consume [0] auth_parser_default = Done (None, \<lparr>decoded_text = replacement_character @ replicate 0 97\<rparr>)"
    using extract_logon_noise [of 0]
    by (simp add: auth_consume_def auth_parser_default_def xor_ff_byte_def lossy_bad_byte keep_trailing_def)
  then show ?thesis
    using consume_noise [of "\<lparr>decoded_text = replacement_character @ replicate 0 97\<rparr>" 0 2048]
      consume_noise [of "\<lparr>decoded_text = replacement_character @ replicate 2048 97\<rparr>" 2048 2048]
      consume_noise [of "\<lparr>decoded_text = replacement_character @ replicate 4096 97\<rparr>" 4096 2048]
      consume_noise_panics [of "\<lparr>decoded_text = replacement_character @ replicate 6144 97\<rparr>" 6144 2046]
    by (simp add: numeral_3_eq_3)
qed

text \<open>
  A session that has panicked holds its slot for ever: in every continuation the number of
  dead sessions does not decrease, and they all count as active clients.
\<close>

theorem dead_sessions_keep_their_slots:
  "dead_sessions (relay_run X c evs) \<le> dead_sessions (relay_run X c (evs @ later))
   \<and> dead_sessions (relay_run X c (evs @ later)) \<le> unat (downstream_active_clients (metrics (rly_state (relay_run X c (evs @ later)))))"
proof -
  have "dead_sessions r \<le> dead_sessions (fold (relay_step X c) later r)" for r
  proof (induction later arbitrary: r)
    case (Cons ev later)
    then show ?case using relay_step_dead [of r X c ev] le_trans by fastforce
  qed simp
  moreover have "within_limit c (relay_run X c (evs @ later))"
    by (rule relay_run_induct [where P = "within_limit c"])
      (simp_all add: relay_step_within_limit, simp add: within_limit_def relay_start_def
        relay_state_new_def from_upstream_servers_def metrics_default_def)
  ultimately show ?thesis
    by (simp add: relay_run_def within_limit_def dead_sessions_def)
qed

end
