(* ===== verification/Wxwire_Model.thy ===== *)
theory Wxwire_Model
  imports Wire_Model
begin

text \<open>
  The data of the Weather Wire receiver (\<open>wxwire_receiver/error.rs\<close>, \<open>model.rs\<close>,
  \<open>config.rs\<close>): error types with their \<open>Display\<close> texts, products, warnings, frame events,
  and the configuration with its validation. Constructors and fields carry a \<open>Wx\<close> prefix
  because the QBT receiver has variants of the same names.
\<close>

subsection \<open>error.rs\<close>

datatype WxWireConfigError =
    WxEmptyUsername
  | WxEmptyPassword
  | WxZeroIdleTimeout
  | WxZeroEventChannelCapacity
  | WxZeroInboundChannelCapacity
  | WxZeroTelemetryEmitInterval
  | WxZeroConnectTimeout

fun wx_config_error_text :: "WxWireConfigError \<Rightarrow> string" where
  "wx_config_error_text WxEmptyUsername = ''username must not be empty''"
| "wx_config_error_text WxEmptyPassword = ''password must not be empty''"
| "wx_config_error_text WxZeroIdleTimeout = ''idle_timeout_secs must be >= 1''"
| "wx_config_error_text WxZeroEventChannelCapacity = ''event_channel_capacity must be >= 1''"
| "wx_config_error_text WxZeroInboundChannelCapacity = ''inbound_channel_capacity must be >= 1''"
| "wx_config_error_text WxZeroTelemetryEmitInterval = ''telemetry_emit_interval_secs must be >= 1''"
| "wx_config_error_text WxZeroConnectTimeout = ''connect_timeout_secs must be >= 1''"

datatype WxWireDecodeError =
    WxInvalidXml string
  | WxNotMessageStanza
  | WxMissingPayload
  | WxEmptyPayload

fun wx_decode_error_text :: "WxWireDecodeError \<Rightarrow> string" where
  "wx_decode_error_text (WxInvalidXml e) = ''invalid xml stanza: '' @ e"
| "wx_decode_error_text WxNotMessageStanza = ''not an xmpp <message/> stanza''"
| "wx_decode_error_text WxMissingPayload = ''missing nwws-oi payload''"
| "wx_decode_error_text WxEmptyPayload = ''weather wire payload is empty''"

datatype WxWireLifecycleError =
    WxAlreadyRunning
  | WxNotRunning
  | WxIngressQueueFull
  | WxIngressQueueClosed
  | WxEventStreamTaken
  | WxInternal string

fun wx_lifecycle_error_text :: "WxWireLifecycleError \<Rightarrow> string" where
  "wx_lifecycle_error_text WxAlreadyRunning = ''weather wire client already running''"
| "wx_lifecycle_error_text WxNotRunning = ''weather wire client not running''"
| "wx_lifecycle_error_text WxIngressQueueFull = ''weather wire ingress queue full''"
| "wx_lifecycle_error_text WxIngressQueueClosed = ''weather wire ingress queue closed''"
| "wx_lifecycle_error_text WxEventStreamTaken = ''weather wire event stream already taken''"
| "wx_lifecycle_error_text (WxInternal m) = m"

datatype WxWireTransportError =
    WxConnectTimeoutOverflow
  | WxConnectTimeout
  | WxTcpConnect string
  | WxInvalidRoomJid string
  | WxMissingStartTls
  | WxStartTlsRejected
  | WxMissingSaslMechanisms
  | WxAuthenticationFailed string
  | WxMissingResourceBinding
  | WxUnexpectedBindResponse string
  | WxResourceBindFailed string
  | WxStreamManagementEnableFailed string
  | WxJoinConfirmationTimeout
  | WxJoinRejected string
  | WxClientNotConnected
  | WxReadTimeout
  | WxReadTimeoutWaiting string
  | WxReadFailed string
  | WxStreamEnded
  | WxWriteFailed string
  | WxSocketNotAvailable
  | WxInvalidTlsServerName
  | WxTlsHandshakeTimeout
  | WxTlsHandshakeFailed string
  | WxBufferOverflow string
  | WxInvalidJoinPresence string

fun wx_transport_error_text :: "WxWireTransportError \<Rightarrow> string" where
  "wx_transport_error_text WxConnectTimeoutOverflow = ''xmpp connect timeout overflow''"
| "wx_transport_error_text WxConnectTimeout = ''xmpp connect timeout''"
| "wx_transport_error_text (WxTcpConnect e) = ''failed to connect tcp socket: '' @ e"
| "wx_transport_error_text (WxInvalidRoomJid e) = ''invalid room jid: '' @ e"
| "wx_transport_error_text WxMissingStartTls = ''server does not advertise STARTTLS''"
| "wx_transport_error_text WxStartTlsRejected = ''server did not proceed with STARTTLS''"
| "wx_transport_error_text WxMissingSaslMechanisms = ''server does not advertise SASL mechanisms''"
| "wx_transport_error_text (WxAuthenticationFailed e) = ''xmpp authentication failed: '' @ e"
| "wx_transport_error_text WxMissingResourceBinding = ''server does not advertise resource binding''"
| "wx_transport_error_text (WxUnexpectedBindResponse e) = ''unexpected bind response: '' @ e"
| "wx_transport_error_text (WxResourceBindFailed e) = ''resource bind failed: '' @ e"
| "wx_transport_error_text (WxStreamManagementEnableFailed e) =
     ''xmpp stream management enable failed: '' @ e"
| "wx_transport_error_text WxJoinConfirmationTimeout = ''xmpp join confirmation timeout''"
| "wx_transport_error_text (WxJoinRejected e) = ''xmpp room join rejected: '' @ e"
| "wx_transport_error_text WxClientNotConnected = ''xmpp client not connected''"
| "wx_transport_error_text WxReadTimeout = ''xmpp read timeout''"
| "wx_transport_error_text (WxReadTimeoutWaiting t) = ''xmpp read timeout while waiting for '' @ t"
| "wx_transport_error_text (WxReadFailed e) = ''xmpp read failed: '' @ e"
| "wx_transport_error_text WxStreamEnded = ''xmpp stream ended''"
| "wx_transport_error_text (WxWriteFailed e) = ''xmpp write failed: '' @ e"
| "wx_transport_error_text WxSocketNotAvailable = ''xmpp socket not available''"
| "wx_transport_error_text WxInvalidTlsServerName = ''invalid tls server name''"
| "wx_transport_error_text WxTlsHandshakeTimeout = ''tls handshake timeout''"
| "wx_transport_error_text (WxTlsHandshakeFailed e) = ''tls handshake failed: '' @ e"
| "wx_transport_error_text (WxBufferOverflow m) = m"
| "wx_transport_error_text (WxInvalidJoinPresence e) = ''invalid join presence stanza: '' @ e"

datatype WxWireReceiverError =
    WxConfig WxWireConfigError
  | WxDecode WxWireDecodeError
  | WxLifecycle WxWireLifecycleError
  | WxTransport WxWireTransportError

fun wx_receiver_error_text :: "WxWireReceiverError \<Rightarrow> string" where
  "wx_receiver_error_text (WxConfig e) = wx_config_error_text e"
| "wx_receiver_error_text (WxDecode e) = wx_decode_error_text e"
| "wx_receiver_error_text (WxLifecycle e) = wx_lifecycle_error_text e"
| "wx_receiver_error_text (WxTransport e) = wx_transport_error_text e"

subsection \<open>model.rs\<close>

record WxWireReceiverFile =
  wx_filename :: string
  wx_data :: "byte list"
  wx_subject :: string
  wx_id :: string
  wx_issue_utc :: system_time
  wx_ttaaii :: string
  wx_cccc :: string
  wx_awipsid :: string
  wx_delay_stamp_utc :: "system_time option"

datatype WxWireReceiverWarning =
    WxMissingNwwsNamespace
  | WxEmptyBody
  | WxTimestampParseFallback string
  | WxDecoderRecovered string
  | WxHandlerError string
  | WxBackpressureDrop u64 u64
  | WxTransportError string

datatype WxWireReceiverFrameEvent = WxFile WxWireReceiverFile | WxWarning WxWireReceiverWarning

subsection \<open>config.rs\<close>

definition WXWIRE_PRIMARY_HOST :: string where
  "WXWIRE_PRIMARY_HOST = ''nwws-oi.weather.gov''"

definition WXWIRE_PORT :: u16 where
  "WXWIRE_PORT = 5222"

definition WXWIRE_ROOM :: string where
  "WXWIRE_ROOM = ''nwws@conference.nwws-oi.weather.gov''"

record WxWireReceiverConfig =
  wxc_username :: string
  wxc_password :: string
  wxc_idle_timeout_secs :: u64
  wxc_event_channel_capacity :: usize
  wxc_inbound_channel_capacity :: usize
  wxc_telemetry_emit_interval_secs :: u64
  wxc_connect_timeout_secs :: u64

definition WxWireReceiverConfig_default :: WxWireReceiverConfig where
  "WxWireReceiverConfig_default =
     \<lparr>wxc_username = [], wxc_password = [], wxc_idle_timeout_secs = 90,
      wxc_event_channel_capacity = 1024, wxc_inbound_channel_capacity = 512,
      wxc_telemetry_emit_interval_secs = 5, wxc_connect_timeout_secs = 10\<rparr>"

definition wx_config_validate :: "WxWireReceiverConfig \<Rightarrow> WxWireReceiverError + unit" where
  "wx_config_validate c =
     (if trim (wxc_username c) = [] then Inl (WxConfig WxEmptyUsername)
      else if trim (wxc_password c) = [] then Inl (WxConfig WxEmptyPassword)
      else if wxc_idle_timeout_secs c = 0 then Inl (WxConfig WxZeroIdleTimeout)
      else if wxc_event_channel_capacity c = 0 then Inl (WxConfig WxZeroEventChannelCapacity)
      else if wxc_inbound_channel_capacity c = 0 then Inl (WxConfig WxZeroInboundChannelCapacity)
      else if wxc_telemetry_emit_interval_secs c = 0 then Inl (WxConfig WxZeroTelemetryEmitInterval)
      else if wxc_connect_timeout_secs c = 0 then Inl (WxConfig WxZeroConnectTimeout)
      else Inr ())"

text \<open>What a receiver that was built can rely on.\<close>

lemma wx_config_valid:
  "wx_config_validate c = Inr () \<longleftrightarrow>
     trim (wxc_username c) \<noteq> [] \<and> trim (wxc_password c) \<noteq> [] \<and> wxc_idle_timeout_secs c \<noteq> 0
     \<and> wxc_event_channel_capacity c \<noteq> 0 \<and> wxc_inbound_channel_capacity c \<noteq> 0
     \<and> wxc_telemetry_emit_interval_secs c \<noteq> 0 \<and> wxc_connect_timeout_secs c \<noteq> 0"
  by (simp add: wx_config_validate_def)

end
