(* ===== verification/Wxwire_Codec.thy ===== *)
theory Wxwire_Codec
  imports Wxwire_Model
begin

text \<open>
  The Weather Wire stanza decoder (\<open>wxwire_receiver/codec.rs\<close>). XML elements and XMPP messages
  are values of third-party libraries (\<open>minidom\<close>, \<open>xmpp_parsers\<close>), so the model takes their
  accessors and parsers, and the RFC 3339 parser, as the parameters of \<open>wx_ext\<close>; the clock is
  an argument.
\<close>

subsection \<open>Parameters\<close>

record ('el, 'msg) wx_ext =
  el_parse :: "string \<Rightarrow> string + 'el"
  el_name :: "'el \<Rightarrow> string"
  el_ns :: "'el \<Rightarrow> string"
  el_attr :: "'el \<Rightarrow> string \<Rightarrow> string option"
  el_text :: "'el \<Rightarrow> string"
  msg_of_element :: "'el \<Rightarrow> 'msg option"
  msg_best_body :: "'msg \<Rightarrow> string option"
  msg_best_subject :: "'msg \<Rightarrow> string option"
  msg_payloads :: "'msg \<Rightarrow> 'el list"
  delay_stamp :: "'el \<Rightarrow> (int \<times> nat) option"
  rfc3339_parse :: "string \<Rightarrow> (int \<times> nat) option"

subsection \<open>Elements\<close>

definition CLIENT_NS :: string where
  "CLIENT_NS = ''jabber:client''"

definition add_default_client_ns_on_root :: "string \<Rightarrow> string" where
  "add_default_client_ns_on_root xml =
     (case position ((=) CHR ''<'') xml of
        None \<Rightarrow> xml
      | Some open_start \<Rightarrow>
          (case position ((=) CHR ''>'') (drop open_start xml) of
             None \<Rightarrow> xml
           | Some open_end_rel \<Rightarrow>
               (let open_end = open_start + open_end_rel;
                    open_tag = take (Suc open_end_rel) (drop open_start xml)
                in if starts_with open_tag ''</'' \<or> starts_with open_tag ''<?'' \<or> starts_with open_tag ''<!''
                   then xml
                   else if str_contains open_tag ''xmlns='' \<or> str_contains open_tag ''xmlns:'' then xml
                   else
                     let insert_at = (if ends_with open_tag ''/>'' then open_end - 1 else open_end)
                     in take insert_at xml @ '' xmlns='' @ [CHR 0x27] @ CLIENT_NS @ [CHR 0x27]
                        @ drop insert_at xml)))"

definition parse_message_element :: "('el, 'msg) wx_ext \<Rightarrow> string \<Rightarrow> string + 'el" where
  "parse_message_element X stanza =
     (case el_parse X stanza of
        Inr element \<Rightarrow> Inr element
      | Inl _ \<Rightarrow> el_parse X (add_default_client_ns_on_root stanza))"

subsection \<open>Time stamps\<close>

definition chrono_to_system_time :: "int \<Rightarrow> nat \<Rightarrow> system_time option" where
  "chrono_to_system_time seconds nanos =
     (if seconds \<ge> 0 then Some (seconds * 10 ^ 9 + int nanos)
      else Some (- (\<bar>seconds\<bar> * 10 ^ 9 + int nanos)))"

definition parse_rfc3339_to_system_time :: "('el, 'msg) wx_ext \<Rightarrow> string \<Rightarrow> system_time option" where
  "parse_rfc3339_to_system_time X raw =
     (case rfc3339_parse X raw of
        None \<Rightarrow> None
      | Some (seconds, nanos) \<Rightarrow> chrono_to_system_time seconds nanos)"

definition parse_timestamp_or_now ::
    "('el, 'msg) wx_ext \<Rightarrow> system_time \<Rightarrow> string \<Rightarrow> system_time \<times> WxWireReceiverWarning option" where
  "parse_timestamp_or_now X now raw =
     (case parse_rfc3339_to_system_time X raw of
        Some ts \<Rightarrow> (ts, None)
      | None \<Rightarrow> (now, if raw = [] then None else Some (WxTimestampParseFallback raw)))"

subsection \<open>Products\<close>

definition build_filename :: "string \<Rightarrow> string \<Rightarrow> string \<Rightarrow> string \<Rightarrow> system_time \<Rightarrow> string" where
  "build_filename awipsid ttaaii cccc ident issue_utc =
     (if awipsid \<noteq> [] \<and> awipsid \<noteq> ''NONE'' then awipsid @ ''.TXT''
      else if ttaaii \<noteq> [] \<and> cccc \<noteq> [] then ttaaii @ ''_'' @ cccc @ ''.TXT''
      else if ident \<noteq> [] then ident @ ''.TXT''
      else
        let secs = (if issue_utc \<ge> 0 then nat (issue_utc div 10 ^ 9) else 0)
        in ''wxwire_'' @ show_nat secs @ ''.TXT'')"

definition convert_to_noaaport :: "string \<Rightarrow> string" where
  "convert_to_noaaport txt =
     (let noaaport = CHR 0x01 # replace_all [CHR 0x0A, CHR 0x0A] [CHR 0x0D, CHR 0x0D, CHR 0x0A] txt;
          noaaport1 = (if \<not> ends_with noaaport [CHR 0x0A]
                       then noaaport @ [CHR 0x0D, CHR 0x0D, CHR 0x0A] else noaaport)
      in noaaport1 @ [CHR 0x03])"

record ParsedMessage =
  parsed_file :: WxWireReceiverFile
  parsed_warning :: "WxWireReceiverWarning option"

text \<open>\<open>attr(name).unwrap_or_default().trim()\<close>.\<close>

definition trimmed_attr :: "('el, 'msg) wx_ext \<Rightarrow> 'el \<Rightarrow> string \<Rightarrow> string" where
  "trimmed_attr X el name = trim (case el_attr X el name of None \<Rightarrow> [] | Some v \<Rightarrow> v)"

definition awips_attr :: "('el, 'msg) wx_ext \<Rightarrow> 'el \<Rightarrow> string" where
  "awips_attr X el =
     (case el_attr X el ''awipsid'' of
        None \<Rightarrow> ''NONE''
      | Some v \<Rightarrow> if trim v = [] then ''NONE'' else trim v)"

definition message_subject :: "('el, 'msg) wx_ext \<Rightarrow> 'msg \<Rightarrow> string" where
  "message_subject X message =
     (case msg_best_body X message of
        Some body \<Rightarrow> body
      | None \<Rightarrow> (case msg_best_subject X message of Some s \<Rightarrow> s | None \<Rightarrow> []))"

definition is_nwws_payload :: "('el, 'msg) wx_ext \<Rightarrow> 'el \<Rightarrow> bool" where
  "is_nwws_payload X payload \<longleftrightarrow> el_name X payload = ''x'' \<and> el_ns X payload = ''nwws-oi''"

fun find_delay :: "('el, 'msg) wx_ext \<Rightarrow> 'el list \<Rightarrow> system_time option" where
  "find_delay X [] = None"
| "find_delay X (payload # payloads) =
     (case (if el_name X payload \<noteq> ''delay'' \<or> el_ns X payload \<noteq> ''urn:xmpp:delay'' then None
            else case delay_stamp X payload of
                   None \<Rightarrow> None
                 | Some (seconds, nanos) \<Rightarrow> chrono_to_system_time seconds nanos) of
        Some ts \<Rightarrow> Some ts
      | None \<Rightarrow> find_delay X payloads)"

definition parse_message_to_file ::
    "('el, 'msg) wx_ext \<Rightarrow> system_time \<Rightarrow> 'msg \<Rightarrow> WxWireReceiverError + ParsedMessage" where
  "parse_message_to_file X now message =
     (case find (is_nwws_payload X) (msg_payloads X message) of
        None \<Rightarrow> Inl (WxDecode WxMissingPayload)
      | Some x_payload \<Rightarrow>
          (let body = trim (el_text X x_payload)
           in if body = [] then Inl (WxDecode WxEmptyPayload)
              else
                let ident = trimmed_attr X x_payload ''id'';
                    issue_raw = trimmed_attr X x_payload ''issue'';
                    ttaaii = trimmed_attr X x_payload ''ttaaii'';
                    cccc = trimmed_attr X x_payload ''cccc'';
                    awipsid = awips_attr X x_payload;
                    (issue_utc, warning) = parse_timestamp_or_now X now issue_raw
                in Inr \<lparr>parsed_file =
                          \<lparr>wx_filename = build_filename awipsid ttaaii cccc ident issue_utc,
                           wx_data = bytes_of (convert_to_noaaport body),
                           wx_subject = message_subject X message, wx_id = ident,
                           wx_issue_utc = issue_utc, wx_ttaaii = ttaaii, wx_cccc = cccc,
                           wx_awipsid = awipsid,
                           wx_delay_stamp_utc = find_delay X (msg_payloads X message)\<rparr>,
                        parsed_warning = warning\<rparr>))"

subsection \<open>The decoder\<close>

text \<open>The decoder has no state: \<open>reset\<close> does nothing.\<close>

fun recovered_warning :: "WxWireDecodeError \<Rightarrow> WxWireReceiverWarning" where
  "recovered_warning WxMissingPayload = WxMissingNwwsNamespace"
| "recovered_warning WxEmptyPayload = WxEmptyBody"
| "recovered_warning other = WxDecoderRecovered (wx_decode_error_text other)"

definition wx_feed_message ::
    "('el, 'msg) wx_ext \<Rightarrow> system_time \<Rightarrow> 'msg \<Rightarrow> WxWireReceiverError + WxWireReceiverFrameEvent list" where
  "wx_feed_message X now message =
     (case parse_message_to_file X now message of
        Inr parsed \<Rightarrow>
          Inr ((case parsed_warning parsed of None \<Rightarrow> [] | Some w \<Rightarrow> [WxWarning w])
               @ [WxFile (parsed_file parsed)])
      | Inl (WxDecode decode_err) \<Rightarrow> Inr [WxWarning (recovered_warning decode_err)]
      | Inl err \<Rightarrow> Inl err)"

definition wx_feed ::
    "('el, 'msg) wx_ext \<Rightarrow> system_time \<Rightarrow> string \<Rightarrow> WxWireReceiverError + WxWireReceiverFrameEvent list" where
  "wx_feed X now stanza =
     (case parse_message_element X (trim stanza) of
        Inl err \<Rightarrow> Inl (WxDecode (WxInvalidXml err))
      | Inr elem \<Rightarrow>
          (case msg_of_element X elem of
             None \<Rightarrow> Inl (WxDecode WxNotMessageStanza)
           | Some message \<Rightarrow> wx_feed_message X now message))"

end
