(* ===== verification/Wxwire_Transport.thy ===== *)
theory Wxwire_Transport
  imports Wxwire_Codec Assembler
begin

text \<open>
  The XMPP transport of the Weather Wire receiver (\<open>wxwire_receiver/transport.rs\<close>): splitting
  the byte stream into top-level elements, the connection handshake up to joining the room, and
  the loop that delivers room messages.

  What the operating system does is explicit: the outcomes of reads, writes and clock readings
  are functions of their number, so that every environment is covered. An operation that never
  returns (a server that sends for ever, a panic) has the value \<open>None\<close>. The XML reader is a
  parameter: for a text, the events it reports with the position after each, and the error it
  ends with, if any.
\<close>

subsection \<open>Parameters\<close>

datatype xml_event =
    XStart "byte list"
  | XEmpty "byte list"
  | XEnd
  | XText "byte list"
  | XOther

type_synonym xml_reader = "string \<Rightarrow> (xml_event \<times> usize) list \<times> string option"

record xmpp_ext =
  xml_events :: xml_reader
  jid_parse :: "string \<Rightarrow> string + string"
  base64_encode :: "string \<Rightarrow> string"

datatype XmppSocket = Plain | Tls

datatype read_outcome = RdBytes "byte list" | RdFailed string | RdTimedOut

text \<open>\<open>io_sent\<close> logs every write with the kind of socket it went to, failed ones included.\<close>

record xmpp_io =
  io_reads :: "nat \<Rightarrow> duration \<Rightarrow> read_outcome"
  io_read_no :: nat
  io_writes :: "nat \<Rightarrow> string option"
  io_write_no :: nat
  io_clock :: "nat \<Rightarrow> instant"
  io_clock_no :: nat
  io_unix_secs :: "nat \<Rightarrow> nat"
  io_unix_no :: nat
  io_sent :: "(XmppSocket \<times> string) list"

definition io_read :: "duration \<Rightarrow> xmpp_io \<Rightarrow> read_outcome \<times> xmpp_io" where
  "io_read t w = (io_reads w (io_read_no w) t, w\<lparr>io_read_no := io_read_no w + 1\<rparr>)"

definition io_write :: "XmppSocket \<Rightarrow> string \<Rightarrow> xmpp_io \<Rightarrow> string option \<times> xmpp_io" where
  "io_write sk xml w =
     (io_writes w (io_write_no w),
      w\<lparr>io_write_no := io_write_no w + 1, io_sent := io_sent w @ [(sk, xml)]\<rparr>)"

definition io_now :: "xmpp_io \<Rightarrow> instant \<times> xmpp_io" where
  "io_now w = (io_clock w (io_clock_no w), w\<lparr>io_clock_no := io_clock_no w + 1\<rparr>)"

subsection \<open>Top-level elements\<close>

definition MAX_READ_BUFFER_BYTES :: usize where
  "MAX_READ_BUFFER_BYTES = 1024 * 1024"

definition append_with_read_limit :: "string \<Rightarrow> string \<Rightarrow> string \<Rightarrow> (WxWireReceiverError + unit) \<times> string" where
  "append_with_read_limit read_buf chunk overflow_message =
     (if length read_buf + length chunk > MAX_READ_BUFFER_BYTES
      then (Inl (WxTransport (WxBufferOverflow overflow_message)), [])
      else (Inr (), read_buf @ chunk))"

definition is_ascii_whitespace :: "byte \<Rightarrow> bool" where
  "is_ascii_whitespace b \<longleftrightarrow> b = 9 \<or> b = 10 \<or> b = 12 \<or> b = 13 \<or> b = 32"

datatype scan_result = Popped string string | Stuck string | Rescan string | ScanPanic

text \<open>
  After a reader error the buffer is cut at the next \<open><\<close>; the slice at \<open>recover_from\<close> panics
  off a character boundary.
\<close>

definition recover_buffer :: "string \<Rightarrow> usize \<Rightarrow> scan_result" where
  "recover_buffer buf start =
     (let recover_from = start + 1
      in if recover_from < length buf then
           (if \<not> is_char_boundary (bytes_of buf) recover_from then ScanPanic
            else case position ((=) CHR ''<'') (drop recover_from buf) of
                   Some offset \<Rightarrow> Stuck (drop (recover_from + offset) buf)
                 | None \<Rightarrow> Stuck [])
         else Stuck [])"

text \<open>
  Removing a part of the buffer and cutting an element out of it panic off a character boundary, past
  the end of the buffer and, for the element, when it would end before it begins.
\<close>

definition drain_to :: "string \<Rightarrow> usize \<Rightarrow> (string \<Rightarrow> scan_result) \<Rightarrow> scan_result" where
  "drain_to buf fin continue =
     (if is_char_boundary (bytes_of buf) fin then continue (drop fin buf) else ScanPanic)"

definition pop_element :: "string \<Rightarrow> usize \<Rightarrow> usize \<Rightarrow> scan_result" where
  "pop_element buf root fin =
     (if root \<le> fin \<and> is_char_boundary (bytes_of buf) root \<and> is_char_boundary (bytes_of buf) fin
      then drain_to buf fin (Popped (take (fin - root) (drop root buf))) else ScanPanic)"

fun scan_events ::
    "string \<Rightarrow> string option \<Rightarrow> (xml_event \<times> usize) list \<Rightarrow> usize \<Rightarrow> usize option \<Rightarrow> usize \<Rightarrow> scan_result" where
  "scan_events buf failure [] depth root_start start =
     (case failure of
        None \<Rightarrow> Stuck buf
      | Some err \<Rightarrow> if str_contains err ''Unexpected EOF'' then Stuck buf else recover_buffer buf start)"
| "scan_events buf failure ((XStart name, fin) # evs) depth root_start start =
     (if \<not> valid_utf8 name then drain_to buf fin Stuck
      else if depth = 0 \<and> str_of name = ''stream:stream'' then drain_to buf fin Rescan
      else scan_events buf failure evs (depth + 1) (if depth = 0 then Some start else root_start) fin)"
| "scan_events buf failure ((XEmpty name, fin) # evs) depth root_start start =
     (if \<not> valid_utf8 name then drain_to buf fin Stuck
      else if depth = 0 \<and> str_of name = ''stream:stream'' then drain_to buf fin Rescan
      else if depth = 0 then pop_element buf start fin
      else scan_events buf failure evs depth root_start fin)"
| "scan_events buf failure ((XEnd, fin) # evs) depth root_start start =
     (if depth > 0 then
        (if depth - 1 = 0 then
           (case root_start of
              Some root \<Rightarrow> pop_element buf root fin
            | None \<Rightarrow> scan_events buf failure evs (depth - 1) None fin)
         else scan_events buf failure evs (depth - 1) root_start fin)
      else drain_to buf fin Stuck)"
| "scan_events buf failure ((XText txt, fin) # evs) depth root_start start =
     (if depth = 0 \<and> \<not> list_all is_ascii_whitespace txt then drain_to buf fin Rescan
      else scan_events buf failure evs depth root_start fin)"
| "scan_events buf failure ((XOther, fin) # evs) depth root_start start =
     scan_events buf failure evs depth root_start fin"

definition scan_buffer :: "xml_reader \<Rightarrow> string \<Rightarrow> scan_result" where
  "scan_buffer R buf = (let (evs, failure) = R buf in scan_events buf failure evs 0 None 0)"

partial_function (option) pop_next_top_level_element ::
    "xml_reader \<Rightarrow> string \<Rightarrow> (string option \<times> string) option" where
  "pop_next_top_level_element R buf =
     (if buf = [] then Some (None, buf)
      else case scan_buffer R buf of
             Popped stanza rest \<Rightarrow> Some (Some stanza, rest)
           | Stuck rest \<Rightarrow> Some (None, rest)
           | Rescan rest \<Rightarrow> pop_next_top_level_element R rest
           | ScanPanic \<Rightarrow> None)"

declare pop_next_top_level_element.simps [code]

fun first_tag_name :: "(xml_event \<times> usize) list \<Rightarrow> string option" where
  "first_tag_name [] = None"
| "first_tag_name ((XStart name, _) # evs) = (if valid_utf8 name then Some (str_of name) else None)"
| "first_tag_name ((XEmpty name, _) # evs) = (if valid_utf8 name then Some (str_of name) else None)"
| "first_tag_name ((XEnd, _) # evs) = None"
| "first_tag_name ((XText _, _) # evs) = first_tag_name evs"
| "first_tag_name ((XOther, _) # evs) = first_tag_name evs"

definition stanza_root_tag_name :: "xml_reader \<Rightarrow> string \<Rightarrow> string option" where
  "stanza_root_tag_name R stanza = first_tag_name (fst (R stanza))"

definition is_supported_top_level_stanza :: "xml_reader \<Rightarrow> string \<Rightarrow> bool" where
  "is_supported_top_level_stanza R stanza \<longleftrightarrow>
     stanza_root_tag_name R stanza \<in> Some ` {''message'', ''presence'', ''iq'', ''r'', ''a''}"

definition add_default_client_ns :: "string \<Rightarrow> string" where
  "add_default_client_ns xml =
     (case position ((=) CHR ''<'') xml of
        None \<Rightarrow> xml
      | Some open_start \<Rightarrow>
          (case position ((=) CHR ''>'') (drop open_start xml) of
             None \<Rightarrow> xml
           | Some open_end_rel \<Rightarrow>
               (let open_end = open_start + open_end_rel;
                    open_tag = take (Suc open_end_rel) (drop open_start xml)
                in if starts_with open_tag ''</'' \<or> starts_with open_tag ''<?'' \<or> starts_with open_tag ''<!''
                   then xml
                   else if str_contains open_tag ''xmlns='' \<or> str_contains open_tag ''xmlns:'' then xml
                   else
                     let insert_at = (if ends_with open_tag ''/>'' then open_end - 1 else open_end)
                     in take insert_at xml @ '' xmlns='' @ [CHR 0x27] @ CLIENT_NS @ [CHR 0x27]
                        @ drop insert_at xml)))"

definition parse_element_with_default_ns :: "('el, 'msg) wx_ext \<Rightarrow> string \<Rightarrow> string + 'el" where
  "parse_element_with_default_ns X xml =
     (case el_parse X xml of
        Inr element \<Rightarrow> Inr element
      | Inl _ \<Rightarrow> el_parse X (add_default_client_ns xml))"

definition is_room_join_presence ::
    "('el, 'msg) wx_ext \<Rightarrow> string \<Rightarrow> string \<Rightarrow> string \<Rightarrow> WxWireReceiverError + bool" where
  "is_room_join_presence X stanza room_bare nick =
     (case parse_element_with_default_ns X stanza of
        Inl err \<Rightarrow> Inl (WxTransport (WxInvalidJoinPresence err))
      | Inr element \<Rightarrow>
          Inr (if el_name X element \<noteq> ''presence'' then False
               else if el_attr X element ''type'' = Some ''error''
                    \<or> el_attr X element ''type'' = Some ''unavailable'' then False
               else case el_attr X element ''from'' of
                      None \<Rightarrow> False
                    | Some from \<Rightarrow>
                        (case split_once (CHR ''/'') from of
                           None \<Rightarrow> False
                         | Some (bare, resource) \<Rightarrow> bare = room_bare \<and> resource = nick)))"

subsection \<open>The handshake session\<close>

record XmppSession =
  xs_host :: string
  xs_socket :: "XmppSocket option"
  xs_read_buf :: string
  xs_io :: xmpp_io

type_synonym 'a handshake = "XmppSession \<Rightarrow> ((WxWireReceiverError + 'a) \<times> XmppSession) option"

definition hbind :: "'a handshake \<Rightarrow> ('a \<Rightarrow> 'b handshake) \<Rightarrow> 'b handshake" where
  "hbind f g s =
     (case f s of
        None \<Rightarrow> None
      | Some (Inl e, s') \<Rightarrow> Some (Inl e, s')
      | Some (Inr x, s') \<Rightarrow> g x s')"

definition hreturn :: "'a \<Rightarrow> 'a handshake" where
  "hreturn x s = Some (Inr x, s)"

definition hrequire :: "bool \<Rightarrow> WxWireTransportError \<Rightarrow> unit handshake" where
  "hrequire ok e s = Some (if ok then Inr () else Inl (WxTransport e), s)"

definition session_send_raw :: "string \<Rightarrow> unit handshake" where
  "session_send_raw xml s =
     (case xs_socket s of
        None \<Rightarrow> Some (Inl (WxTransport WxSocketNotAvailable), s)
      | Some sk \<Rightarrow>
          (let (r, w) = io_write sk xml (xs_io s)
           in Some (case r of None \<Rightarrow> Inr () | Some err \<Rightarrow> Inl (WxTransport (WxWriteFailed err)),
                    s\<lparr>xs_io := w\<rparr>)))"

definition stream_header :: "string \<Rightarrow> string" where
  "stream_header host =
     ''<?xml version='1.0' encoding='utf-8'?><stream:stream xmlns='jabber:client' xmlns:stream='http://etherx.jabber.org/streams' to=''
     @ [CHR 0x27] @ host @ [CHR 0x27] @ '' version='1.0'>''"

definition open_stream :: "unit handshake" where
  "open_stream s = session_send_raw (stream_header (xs_host s)) s"

text \<open>\<open>outcome\<close> is what the TLS connector answers: \<open>None\<close> for an established connection.\<close>

definition upgrade_tls :: "WxWireTransportError option \<Rightarrow> unit handshake" where
  "upgrade_tls outcome s =
     (case xs_socket s of
        None \<Rightarrow> Some (Inl (WxTransport WxSocketNotAvailable), s)
      | Some Tls \<Rightarrow> Some (Inr (), s)
      | Some Plain \<Rightarrow>
          (case outcome of
             Some e \<Rightarrow> Some (Inl (WxTransport e), s\<lparr>xs_socket := None\<rparr>)
           | None \<Rightarrow> Some (Inr (), s\<lparr>xs_socket := Some Tls, xs_read_buf := []\<rparr>)))"

definition session_read_more :: "duration \<Rightarrow> unit handshake" where
  "session_read_more timeout s =
     (case xs_socket s of
        None \<Rightarrow> Some (Inl (WxTransport WxSocketNotAvailable), s)
      | Some _ \<Rightarrow>
          (let (r, w) = io_read timeout (xs_io s); s1 = s\<lparr>xs_io := w\<rparr>
           in case r of
                RdTimedOut \<Rightarrow> Some (Inl (WxTransport WxReadTimeout), s1)
              | RdFailed err \<Rightarrow> Some (Inl (WxTransport (WxReadFailed err)), s1)
              | RdBytes bs \<Rightarrow>
                  if bs = [] then Some (Inl (WxTransport WxStreamEnded), s1)
                  else
                    let (res, buf) = append_with_read_limit (xs_read_buf s1) (str_of (from_utf8_lossy bs))
                                       ''xmpp handshake read buffer exceeded limit''
                    in Some (res, s1\<lparr>xs_read_buf := buf\<rparr>)))"

definition attach_handshake_timeout_context :: "WxWireReceiverError \<Rightarrow> string \<Rightarrow> WxWireReceiverError" where
  "attach_handshake_timeout_context err waiting_for =
     (if err = WxTransport WxReadTimeout then WxTransport (WxReadTimeoutWaiting waiting_for) else err)"

definition has_tag :: "xml_reader \<Rightarrow> string list \<Rightarrow> string \<Rightarrow> bool" where
  "has_tag R tags elem \<longleftrightarrow> (\<exists>tag \<in> set tags. stanza_root_tag_name R elem = Some tag)"

partial_function (option) wait_for_any_tag ::
    "xml_reader \<Rightarrow> string list \<Rightarrow> duration \<Rightarrow> string handshake" where
  "wait_for_any_tag R tags timeout s =
     (case pop_next_top_level_element R (xs_read_buf s) of
        None \<Rightarrow> None
      | Some (Some elem, rest) \<Rightarrow>
          (let s1 = s\<lparr>xs_read_buf := rest\<rparr>
           in if has_tag R tags elem then Some (Inr elem, s1) else wait_for_any_tag R tags timeout s1)
      | Some (None, rest) \<Rightarrow>
          (case session_read_more timeout (s\<lparr>xs_read_buf := rest\<rparr>) of
             None \<Rightarrow> None
           | Some (Inl err, s2) \<Rightarrow>
               Some (Inl (attach_handshake_timeout_context err (join '' or '' tags)), s2)
           | Some (Inr _, s2) \<Rightarrow> wait_for_any_tag R tags timeout s2))"

declare wait_for_any_tag.simps [code]

definition remaining_connect_timeout :: "instant \<Rightarrow> duration handshake" where
  "remaining_connect_timeout deadline s =
     (let (now, w) = io_now (xs_io s)
      in Some (if now \<le> deadline then Inr (deadline - now) else Inl (WxTransport WxConnectTimeout),
               s\<lparr>xs_io := w\<rparr>))"

text \<open>\<open>wait_for_tag\<close> with the time that is left.\<close>

definition wait_until :: "xml_reader \<Rightarrow> string list \<Rightarrow> instant \<Rightarrow> string handshake" where
  "wait_until R tags deadline =
     hbind (remaining_connect_timeout deadline) (wait_for_any_tag R tags)"

definition open_stream_until :: "instant \<Rightarrow> unit handshake" where
  "open_stream_until deadline = hbind (remaining_connect_timeout deadline) (\<lambda>_. open_stream)"

definition chrono_like_suffix :: "string handshake" where
  "chrono_like_suffix s =
     (let w = xs_io s
      in Some (Inr (show_nat (io_unix_secs w (io_unix_no w))),
               s\<lparr>xs_io := w\<lparr>io_unix_no := io_unix_no w + 1\<rparr>\<rparr>))"

subsection \<open>XmppWxWireTransport::connect\<close>

definition SM3_NS :: string where
  "SM3_NS = ''urn:xmpp:sm:3''"

definition STARTTLS_REQUEST :: string where
  "STARTTLS_REQUEST = ''<starttls xmlns='urn:ietf:params:xml:ns:xmpp-tls'/>''"

definition negotiate_tls :: "xmpp_ext \<Rightarrow> WxWireTransportError option \<Rightarrow> instant \<Rightarrow> unit handshake" where
  "negotiate_tls K outcome deadline =
     hbind (open_stream_until deadline) (\<lambda>_.
     hbind (wait_until (xml_events K) [''stream:features''] deadline) (\<lambda>features.
     hbind (hrequire (str_contains features ''urn:ietf:params:xml:ns:xmpp-tls'') WxMissingStartTls) (\<lambda>_.
     hbind (session_send_raw STARTTLS_REQUEST) (\<lambda>_.
     hbind (wait_until (xml_events K) [''proceed''] deadline) (\<lambda>proceed.
     hbind (hrequire (str_contains proceed ''urn:ietf:params:xml:ns:xmpp-tls'') WxStartTlsRejected) (\<lambda>_.
     hbind (remaining_connect_timeout deadline) (\<lambda>_. upgrade_tls outcome)))))))"

definition auth_request :: "xmpp_ext \<Rightarrow> string \<Rightarrow> string \<Rightarrow> string" where
  "auth_request K username password =
     ''<auth xmlns='urn:ietf:params:xml:ns:xmpp-sasl' mechanism='PLAIN'>''
     @ base64_encode K ([CHR 0x00] @ username @ [CHR 0x00] @ password) @ ''</auth>''"

definition authenticate :: "xmpp_ext \<Rightarrow> string \<Rightarrow> string \<Rightarrow> instant \<Rightarrow> unit handshake" where
  "authenticate K username password deadline =
     hbind (open_stream_until deadline) (\<lambda>_.
     hbind (wait_until (xml_events K) [''stream:features''] deadline) (\<lambda>sasl_features.
     hbind (hrequire (str_contains sasl_features ''urn:ietf:params:xml:ns:xmpp-sasl'') WxMissingSaslMechanisms) (\<lambda>_.
     hbind (session_send_raw (auth_request K username password)) (\<lambda>_.
     hbind (wait_until (xml_events K) [''success'', ''failure''] deadline) (\<lambda>sasl_reply.
     hrequire (\<not> str_contains sasl_reply ''<failure'') (WxAuthenticationFailed sasl_reply))))))"

definition quoted_attr :: "char \<Rightarrow> string \<Rightarrow> string \<Rightarrow> string" where
  "quoted_attr q name value = name @ ''='' @ [q] @ value @ [q]"

definition mentions_attr :: "string \<Rightarrow> string \<Rightarrow> string \<Rightarrow> bool" where
  "mentions_attr stanza name value \<longleftrightarrow>
     str_contains stanza (quoted_attr (CHR 0x27) name value)
     \<or> str_contains stanza (quoted_attr (CHR 0x22) name value)"

definition bind_request :: "string \<Rightarrow> string" where
  "bind_request bind_id =
     ''<iq type='set' id='' @ [CHR 0x27] @ bind_id
     @ [CHR 0x27] @ ''><bind xmlns='urn:ietf:params:xml:ns:xmpp-bind'/></iq>''"

text \<open>Returns the features that the server advertises after authentication.\<close>

definition bind_resource :: "xmpp_ext \<Rightarrow> instant \<Rightarrow> string handshake" where
  "bind_resource K deadline =
     hbind (open_stream_until deadline) (\<lambda>_.
     hbind (wait_until (xml_events K) [''stream:features''] deadline) (\<lambda>post_auth_features.
     hbind (hrequire (str_contains post_auth_features ''urn:ietf:params:xml:ns:xmpp-bind'') WxMissingResourceBinding) (\<lambda>_.
     hbind chrono_like_suffix (\<lambda>suffix.
     hbind (session_send_raw (bind_request (''bb-bind-'' @ suffix))) (\<lambda>_.
     hbind (wait_until (xml_events K) [''iq''] deadline) (\<lambda>bind_result.
     hbind (hrequire (mentions_attr bind_result ''id'' (''bb-bind-'' @ suffix)) (WxUnexpectedBindResponse bind_result)) (\<lambda>_.
     hbind (hrequire (mentions_attr bind_result ''type'' ''result'') (WxResourceBindFailed bind_result)) (\<lambda>_.
     hreturn post_auth_features))))))))"

definition enable_stream_management :: "xmpp_ext \<Rightarrow> string \<Rightarrow> instant \<Rightarrow> bool handshake" where
  "enable_stream_management K post_auth_features deadline =
     (if str_contains post_auth_features SM3_NS then
        hbind (session_send_raw ''<enable xmlns='urn:xmpp:sm:3' resume='true'/>'') (\<lambda>_.
        hbind (wait_until (xml_events K) [''enabled'', ''failed''] deadline) (\<lambda>sm_reply.
        hbind (hrequire (\<not> str_contains sm_reply ''<failed'') (WxStreamManagementEnableFailed sm_reply)) (\<lambda>_.
        hreturn True)))
      else hreturn False)"

definition join_request :: "string \<Rightarrow> string" where
  "join_request nick =
     ''<presence to='' @ [CHR 0x27] @ WXWIRE_ROOM @ ''/'' @ nick @ [CHR 0x27]
     @ ''><x xmlns='http://jabber.org/protocol/muc'><history maxstanzas='25'/></x></presence>''"

partial_function (option) wait_for_join ::
    "('el, 'msg) wx_ext \<Rightarrow> xmpp_ext \<Rightarrow> string \<Rightarrow> string \<Rightarrow> instant \<Rightarrow> string handshake" where
  "wait_for_join X K room_bare nick deadline s =
     (case wait_until (xml_events K) [''presence''] deadline s of
        None \<Rightarrow> None
      | Some (Inl e, s1) \<Rightarrow> Some (Inl e, s1)
      | Some (Inr stanza, s1) \<Rightarrow>
          (case is_room_join_presence X stanza room_bare nick of
             Inl e \<Rightarrow> Some (Inl e, s1)
           | Inr joined \<Rightarrow>
               if joined then Some (Inr stanza, s1) else wait_for_join X K room_bare nick deadline s1))"

declare wait_for_join.simps [code]

text \<open>
  The enclosing timer expires at the same deadline as the reads it encloses; \<open>outer_first\<close> tells
  whether it is the one that fires when a read times out.
\<close>

definition join_timeout :: "bool \<Rightarrow> WxWireReceiverError \<Rightarrow> WxWireReceiverError" where
  "join_timeout outer_first e =
     (case e of
        WxTransport (WxReadTimeoutWaiting _) \<Rightarrow>
          if outer_first then WxTransport WxJoinConfirmationTimeout else e
      | _ \<Rightarrow> e)"

definition join_confirmation ::
    "('el, 'msg) wx_ext \<Rightarrow> xmpp_ext \<Rightarrow> bool \<Rightarrow> string \<Rightarrow> string \<Rightarrow> instant \<Rightarrow> string handshake" where
  "join_confirmation X K outer_first room_bare nick deadline s =
     (case wait_for_join X K room_bare nick deadline s of
        None \<Rightarrow> None
      | Some (Inl e, s1) \<Rightarrow> Some (Inl (join_timeout outer_first e), s1)
      | Some (Inr stanza, s1) \<Rightarrow> Some (Inr stanza, s1))"

definition join_room ::
    "('el, 'msg) wx_ext \<Rightarrow> xmpp_ext \<Rightarrow> bool \<Rightarrow> string \<Rightarrow> instant \<Rightarrow> unit handshake" where
  "join_room X K outer_first room_bare deadline =
     hbind chrono_like_suffix (\<lambda>suffix.
     hbind (session_send_raw (join_request (''bb'' @ suffix))) (\<lambda>_.
     hbind (remaining_connect_timeout deadline) (\<lambda>_.
     hbind (join_confirmation X K outer_first room_bare (''bb'' @ suffix) deadline) (\<lambda>join_confirm.
     hrequire (\<not> mentions_attr join_confirm ''type'' ''error'') (WxJoinRejected join_confirm)))))"

record XmppWxWireTransport =
  tr_socket :: "XmppSocket option"
  tr_room_bare :: string
  tr_label :: string
  tr_read_buf :: string
  tr_sm_enabled :: bool
  tr_sm_handled_stanzas :: u64
  tr_last_heartbeat :: instant
  tr_io :: xmpp_io

definition session_steps ::
    "('el, 'msg) wx_ext \<Rightarrow> xmpp_ext \<Rightarrow> WxWireTransportError option \<Rightarrow> bool \<Rightarrow> string \<Rightarrow> string \<Rightarrow>
     string \<Rightarrow> instant \<Rightarrow> bool handshake" where
  "session_steps X K tls_outcome outer_first username password room_bare deadline =
     hbind (negotiate_tls K tls_outcome deadline) (\<lambda>_.
     hbind (authenticate K username password deadline) (\<lambda>_.
     hbind (bind_resource K deadline) (\<lambda>post_auth_features.
     hbind (enable_stream_management K post_auth_features deadline) (\<lambda>sm_enabled.
     hbind (join_room X K outer_first room_bare deadline) (\<lambda>_.
     hreturn sm_enabled)))))"

text \<open>An \<open>Instant\<close> counts seconds in an \<open>i64\<close>.\<close>

definition checked_instant_add :: "instant \<Rightarrow> duration \<Rightarrow> instant option" where
  "checked_instant_add now d = (if (now + d) div 10 ^ 9 < 2 ^ 63 then Some (now + d) else None)"

text \<open>
  What the network decides about one connection attempt: how the TCP connection and the TLS
  handshake end (\<open>None\<close> for success), and which join timer fires first.
\<close>

record connect_outcome =
  co_tcp :: "WxWireTransportError option"
  co_tls :: "WxWireTransportError option"
  co_outer_first :: bool

text \<open>An attempt ends with a transport, or with an error and the io log so far.\<close>

definition xmpp_connect ::
    "('el, 'msg) wx_ext \<Rightarrow> xmpp_ext \<Rightarrow> connect_outcome \<Rightarrow> string \<Rightarrow> string \<Rightarrow> string \<Rightarrow> duration \<Rightarrow>
     xmpp_io \<Rightarrow> (WxWireReceiverError \<times> xmpp_io + XmppWxWireTransport) option" where
  "xmpp_connect X K co endpoint_host username password connect_timeout w =
     (let (now, w0) = io_now w in
      case checked_instant_add now connect_timeout of
        None \<Rightarrow> Some (Inl (WxTransport WxConnectTimeoutOverflow, w0))
      | Some deadline \<Rightarrow>
          (let (now1, w1) = io_now w0 in
           if deadline < now1 then Some (Inl (WxTransport WxConnectTimeout, w1))
           else case co_tcp co of
                  Some e \<Rightarrow> Some (Inl (WxTransport e, w1))
                | None \<Rightarrow>
                    (case jid_parse K WXWIRE_ROOM of
                       Inl err \<Rightarrow> Some (Inl (WxTransport (WxInvalidRoomJid err), w1))
                     | Inr room_bare \<Rightarrow>
                         (case session_steps X K (co_tls co) (co_outer_first co) username password room_bare deadline
                                 \<lparr>xs_host = endpoint_host, xs_socket = Some Plain, xs_read_buf = [], xs_io = w1\<rparr> of
                            None \<Rightarrow> None
                          | Some (Inl e, s) \<Rightarrow> Some (Inl (e, xs_io s))
                          | Some (Inr sm_enabled, s) \<Rightarrow>
                              (let (now2, w2) = io_now (xs_io s)
                               in Some (Inr \<lparr>tr_socket = xs_socket s, tr_room_bare = room_bare,
                                             tr_label = endpoint_host @ '':'' @ show_nat (unat WXWIRE_PORT)
                                               @ '' room='' @ WXWIRE_ROOM,
                                             tr_read_buf = xs_read_buf s, tr_sm_enabled = sm_enabled,
                                             tr_sm_handled_stanzas = 0, tr_last_heartbeat = now2,
                                             tr_io = w2\<rparr>))))))"

subsection \<open>Delivering room messages\<close>

definition HEARTBEAT_INTERVAL :: duration where
  "HEARTBEAT_INTERVAL = from_secs 20"

definition transport_send_raw ::
    "string \<Rightarrow> XmppWxWireTransport \<Rightarrow> (WxWireReceiverError + unit) \<times> XmppWxWireTransport" where
  "transport_send_raw xml tr =
     (case tr_socket tr of
        None \<Rightarrow> (Inl (WxTransport WxClientNotConnected), tr)
      | Some sk \<Rightarrow>
          (let (r, w) = io_write sk xml (tr_io tr)
           in (case r of None \<Rightarrow> Inr () | Some err \<Rightarrow> Inl (WxTransport (WxWriteFailed err)),
               tr\<lparr>tr_io := w\<rparr>)))"

definition transport_read_more ::
    "duration \<Rightarrow> XmppWxWireTransport \<Rightarrow> (WxWireReceiverError + unit) \<times> XmppWxWireTransport" where
  "transport_read_more timeout tr =
     (case tr_socket tr of
        None \<Rightarrow> (Inl (WxTransport WxClientNotConnected), tr)
      | Some _ \<Rightarrow>
          (let (r, w) = io_read timeout (tr_io tr); tr1 = tr\<lparr>tr_io := w\<rparr>
           in case r of
                RdTimedOut \<Rightarrow> (Inl (WxTransport WxReadTimeout), tr1)
              | RdFailed err \<Rightarrow> (Inl (WxTransport (WxReadFailed err)), tr1)
              | RdBytes bs \<Rightarrow>
                  if bs = [] then (Inl (WxTransport WxStreamEnded), tr1)
                  else
                    let (res, buf) = append_with_read_limit (tr_read_buf tr1) (str_of (from_utf8_lossy bs))
                                       ''xmpp read buffer exceeded limit''
                    in (res, tr1\<lparr>tr_read_buf := buf\<rparr>)))"

definition maybe_send_heartbeat ::
    "XmppWxWireTransport \<Rightarrow> (WxWireReceiverError + unit) \<times> XmppWxWireTransport" where
  "maybe_send_heartbeat tr =
     (if \<not> tr_sm_enabled tr then (Inr (), tr)
      else
        let (now, w) = io_now (tr_io tr); tr1 = tr\<lparr>tr_io := w\<rparr>
        in if now - tr_last_heartbeat tr1 < HEARTBEAT_INTERVAL then (Inr (), tr1)
           else case transport_send_raw ''<r xmlns='urn:xmpp:sm:3'/>'' tr1 of
                  (Inl e, tr2) \<Rightarrow> (Inl e, tr2)
                | (Inr _, tr2) \<Rightarrow>
                    (let (now', w') = io_now (tr_io tr2)
                     in (Inr (), tr2\<lparr>tr_last_heartbeat := now', tr_io := w'\<rparr>)))"

definition ack_stanza :: "u64 \<Rightarrow> string" where
  "ack_stanza h =
     ''<a xmlns='' @ [CHR 0x27] @ SM3_NS @ [CHR 0x27] @ '' h='' @ [CHR 0x27] @ show_nat (unat h)
     @ [CHR 0x27] @ ''/>''"

definition from_room :: "('el, 'msg) wx_ext \<Rightarrow> string \<Rightarrow> 'el \<Rightarrow> bool" where
  "from_room X room_bare element =
     (case el_attr X element ''from'' of
        None \<Rightarrow> False
      | Some from \<Rightarrow>
          (case split_once (CHR ''/'') from of None \<Rightarrow> False | Some (bare, _) \<Rightarrow> bare = room_bare))"

text \<open>One popped element: \<open>None\<close> when the loop goes on.\<close>

definition process_stanza ::
    "('el, 'msg) wx_ext \<Rightarrow> xmpp_ext \<Rightarrow> string \<Rightarrow> XmppWxWireTransport \<Rightarrow>
     (WxWireReceiverError + string) option \<times> XmppWxWireTransport" where
  "process_stanza X K stanza tr =
     (if \<not> is_supported_top_level_stanza (xml_events K) stanza then (None, tr)
      else case parse_element_with_default_ns X stanza of
             Inl _ \<Rightarrow> (None, tr)
           | Inr element \<Rightarrow>
               if el_name X element = ''r'' \<and> el_ns X element = SM3_NS then
                 (case transport_send_raw (ack_stanza (tr_sm_handled_stanzas tr)) tr of
                    (Inl e, tr1) \<Rightarrow> (Some (Inl e), tr1)
                  | (Inr _, tr1) \<Rightarrow> (None, tr1))
               else if el_name X element = ''a'' \<and> el_ns X element = SM3_NS then (None, tr)
               else
                 let tr1 = (if el_name X element \<in> {''message'', ''presence'', ''iq''}
                            then tr\<lparr>tr_sm_handled_stanzas := sat_add (tr_sm_handled_stanzas tr) 1\<rparr> else tr)
                 in if el_name X element \<noteq> ''message'' then (None, tr1)
                    else if el_attr X element ''type'' \<noteq> Some ''groupchat'' then (None, tr1)
                    else if \<not> from_room X (tr_room_bare tr1) element then (None, tr1)
                    else (Some (Inr stanza), tr1))"

partial_function (option) next_stanza ::
    "('el, 'msg) wx_ext \<Rightarrow> xmpp_ext \<Rightarrow> XmppWxWireTransport \<Rightarrow>
     ((WxWireReceiverError + string) \<times> XmppWxWireTransport) option" where
  "next_stanza X K tr =
     (case pop_next_top_level_element (xml_events K) (tr_read_buf tr) of
        None \<Rightarrow> None
      | Some (Some stanza, rest) \<Rightarrow>
          (case process_stanza X K stanza (tr\<lparr>tr_read_buf := rest\<rparr>) of
             (Some r, tr1) \<Rightarrow> Some (r, tr1)
           | (None, tr1) \<Rightarrow> next_stanza X K tr1)
      | Some (None, rest) \<Rightarrow>
          (case maybe_send_heartbeat (tr\<lparr>tr_read_buf := rest\<rparr>) of
             (Inl e, tr1) \<Rightarrow> Some (Inl e, tr1)
           | (Inr _, tr1) \<Rightarrow>
               (case transport_read_more (from_secs 5) tr1 of
                  (Inl e, tr2) \<Rightarrow> Some (Inl e, tr2)
                | (Inr _, tr2) \<Rightarrow> next_stanza X K tr2)))"

declare next_stanza.simps [code]

definition transport_disconnect :: "XmppWxWireTransport \<Rightarrow> XmppWxWireTransport" where
  "transport_disconnect tr =
     (case tr_socket tr of
        None \<Rightarrow> tr
      | Some sk \<Rightarrow> tr\<lparr>tr_socket := None, tr_io := snd (io_write sk ''</stream:stream>'' (tr_io tr))\<rparr>)"

end
