(* ===== verification/Wxwire_Transport_Correct.thy ===== *)
theory Wxwire_Transport_Correct
  imports Wxwire_Transport
begin

text \<open>
  Correctness of the XMPP transport: splitting the stream into elements terminates and loses
  nothing between an element and the rest, the handshake sends the credentials over TLS only,
  only messages of the room are delivered, and the read buffer stays within its limit.
\<close>

subsection \<open>Splitting\<close>

text \<open>
  Whatever the reader reports, what the scan returns are parts of the buffer: an element directly before
  the rest, or a rest.
\<close>

fun scan_split :: "string \<Rightarrow> scan_result \<Rightarrow> bool" where
  "scan_split buf (Popped stanza rest) \<longleftrightarrow> (\<exists>pre. buf = pre @ stanza @ rest)"
| "scan_split buf (Stuck rest) \<longleftrightarrow> (\<exists>pre. buf = pre @ rest)"
| "scan_split buf (Rescan rest) \<longleftrightarrow> (\<exists>pre. buf = pre @ rest)"
| "scan_split buf ScanPanic \<longleftrightarrow> True"

lemma drop_split: "\<exists>pre. buf = pre @ drop n buf"
  by (metis append_take_drop_id)

lemma slice_split:
  assumes "i \<le> j"
  shows "\<exists>pre. buf = pre @ take (j - i) (drop i buf) @ drop j buf"
proof -
  have "drop i buf = take (j - i) (drop i buf) @ drop j buf"
    using append_take_drop_id [of "j - i" "drop i buf"] assms by simp
  then show ?thesis by (metis append_take_drop_id)
qed

lemma scan_parts_split [simp]:
  "scan_split buf (drain_to buf fin Stuck)" "scan_split buf (drain_to buf fin Rescan)"
  "scan_split buf (pop_element buf root fin)" "scan_split buf (recover_buffer buf start)"
  by (auto simp: drain_to_def pop_element_def recover_buffer_def Let_def drop_split slice_split split: option.splits)

lemma scan_events_split: "scan_split buf (scan_events buf failure evs depth root start)"
  by (induction buf failure evs depth root start rule: scan_events.induct) (auto split: option.splits)

lemma pop_split:
  assumes "pop_next_top_level_element R buf = Some (r, rest)"
  shows "\<exists>pre. buf = pre @ (case r of Some stanza \<Rightarrow> stanza | None \<Rightarrow> []) @ rest"
proof -
  have "\<exists>pre. buf = pre @ (case fst (r, rest) of Some stanza \<Rightarrow> stanza | None \<Rightarrow> []) @ snd (r, rest)"
  proof (rule pop_next_top_level_element.raw_induct [where P = "\<lambda>R buf y. \<exists>pre. buf = pre @ (case fst y of
        Some stanza \<Rightarrow> stanza | None \<Rightarrow> []) @ snd y", OF _ assms], goal_cases)
    case (1 pop R buf y)
    have split: "scan_split buf (scan_buffer R buf)"
      by (auto simp: scan_buffer_def scan_events_split split: prod.splits)
    show ?case
    proof (cases "scan_buffer R buf")
      case (Rescan rest)
      with split obtain pre where pre: "buf = pre @ rest" by auto
      show ?thesis
      proof (cases "buf = []")
        case False
        with 1(2) Rescan have "pop R rest = Some y" by simp
        from 1(1) [OF this] pre show ?thesis by (metis append.assoc)
      qed (use 1(2) in auto)
    qed (use 1 split in \<open>auto split: if_splits\<close>)
  qed
  then show ?thesis by simp
qed

lemma pop_shorter: "pop_next_top_level_element R buf = Some (r, rest) \<Longrightarrow> length rest \<le> length buf"
  by (auto dest!: pop_split split: option.splits)

text \<open>
  What the splitting relies on to return: the positions that the reader reports increase and stay within
  the text.
\<close>

definition reader_ok :: "xml_reader \<Rightarrow> bool" where
  "reader_ok R \<longleftrightarrow>
     (\<forall>buf. sorted_wrt (<) (0 # map snd (fst (R buf))) \<and> list_all (\<lambda>p. p \<le> length buf) (map snd (fst (R buf))))"





text \<open>
  The content of an element as the reader reports it: \<open>nesting d evs\<close> is the depth after the events,
  starting at depth \<open>d\<close> inside the element, as long as the element is not closed.
\<close>

fun nesting :: "nat \<Rightarrow> (xml_event \<times> usize) list \<Rightarrow> nat option" where
  "nesting d [] = Some d"
| "nesting d ((XStart name, _) # evs) = (if valid_utf8 name then nesting (d + 1) evs else None)"
| "nesting d ((XEmpty name, _) # evs) = (if valid_utf8 name then nesting d evs else None)"
| "nesting d ((XEnd, _) # evs) = (if d > 1 then nesting (d - 1) evs else None)"
| "nesting d ((XText _, _) # evs) = nesting d evs"
| "nesting d ((XOther, _) # evs) = nesting d evs"


definition position_after :: "usize \<Rightarrow> (xml_event \<times> usize) list \<Rightarrow> usize" where
  "position_after start evs = last (start # map snd evs)"

lemma position_after_simps [simp]:
  "position_after start [] = start"
  "position_after start (e # evs) = position_after (snd e) evs"
  by (simp_all add: position_after_def)



lemma nesting_pos: "nesting d evs = Some d' \<Longrightarrow> 0 < d \<Longrightarrow> 0 < d'"
  by (induction d evs rule: nesting.induct) (auto split: if_splits)






subsection \<open>Handshake steps\<close>

text \<open>
  A step is quiet when it neither writes nor changes the socket. \<open>hspec P f Q\<close> says that from a
  session with \<open>P\<close>, \<open>f\<close> ends with \<open>Q\<close> when it succeeds, and that the clear-text log is fine
  (\<open>clear_ok\<close>) however it ends.
\<close>

definition hview :: "XmppSession \<Rightarrow> string \<times> XmppSocket option \<times> (XmppSocket \<times> string) list" where
  "hview s = (xs_host s, xs_socket s, io_sent (xs_io s))"

definition quiet :: "'a handshake \<Rightarrow> bool" where
  "quiet f \<longleftrightarrow> (\<forall>s r s'. f s = Some (r, s') \<longrightarrow> hview s' = hview s)"

definition clear_ok :: "string \<Rightarrow> xmpp_io \<Rightarrow> bool" where
  "clear_ok host w \<longleftrightarrow>
     (\<forall>xml. (Plain, xml) \<in> set (io_sent w) \<longrightarrow> xml = stream_header host \<or> xml = STARTTLS_REQUEST)"

definition hspec :: "string \<Rightarrow> (XmppSession \<Rightarrow> bool) \<Rightarrow> 'a handshake \<Rightarrow> (XmppSession \<Rightarrow> bool) \<Rightarrow> bool" where
  "hspec host P f Q \<longleftrightarrow> (\<forall>s r s'. P s \<longrightarrow> f s = Some (r, s') \<longrightarrow>
     clear_ok host (xs_io s') \<and> (\<forall>x. r = Inr x \<longrightarrow> Q s'))"

definition in_clear :: "string \<Rightarrow> XmppSession \<Rightarrow> bool" where
  "in_clear host s \<longleftrightarrow> xs_host s = host \<and> clear_ok host (xs_io s)"

definition secured :: "string \<Rightarrow> XmppSession \<Rightarrow> bool" where
  "secured host s \<longleftrightarrow> in_clear host s \<and> xs_socket s = Some Tls"

lemma quietI: "(\<And>s r s'. f s = Some (r, s') \<Longrightarrow> hview s' = hview s) \<Longrightarrow> quiet f"
  by (auto simp: quiet_def)

lemma quietD: "quiet f \<Longrightarrow> f s = Some (r, s') \<Longrightarrow> hview s' = hview s"
  by (auto simp: quiet_def)

lemma hview_read_buf [simp]: "hview (s\<lparr>xs_read_buf := b\<rparr>) = hview s"
  by (simp add: hview_def)

lemma hbind_cases:
  assumes "hbind f g s = Some (r, s')"
  obtains (failed) e where "f s = Some (Inl e, s')" "r = Inl e"
  | (went_on) x s1 where "f s = Some (Inr x, s1)" "g x s1 = Some (r, s')"
  using assms by (auto simp: hbind_def split: option.splits sum.splits prod.splits)

lemma quiet_bind [intro]:
  assumes "quiet f" and "\<And>x. quiet (g x)"
  shows "quiet (hbind f g)"
proof (rule quietI)
  fix s r s'
  assume "hbind f g s = Some (r, s')"
  then show "hview s' = hview s"
  proof (cases rule: hbind_cases)
    case (went_on x s1)
    then show ?thesis using quietD [OF assms(1)] quietD [OF assms(2)] by metis
  qed (use assms(1) quietD in metis)
qed

lemma quiet_basic [intro, simp]:
  "quiet (hreturn x)" "quiet (hrequire ok e)" "quiet (remaining_connect_timeout deadline)"
  "quiet chrono_like_suffix" "quiet (session_read_more timeout)"
  by (rule quietI; auto simp: hreturn_def hrequire_def remaining_connect_timeout_def io_now_def Let_def
      chrono_like_suffix_def session_read_more_def io_read_def hview_def
      split: option.splits read_outcome.splits if_splits prod.splits)+

lemma wait_for_any_tag_view:
  assumes "wait_for_any_tag R tags timeout s = Some y"
  shows "hview (snd y) = hview s"
proof (rule wait_for_any_tag.raw_induct [where P = "\<lambda>R tags timeout s y. hview (snd y) = hview s",
      OF _ assms], goal_cases)
  case (1 wait R tags timeout s y)
  obtain popped rest where pop: "pop_next_top_level_element R (xs_read_buf s) = Some (popped, rest)"
    using 1 by (cases "pop_next_top_level_element R (xs_read_buf s)") auto
  show ?case
  proof (cases popped)
    case (Some elem)
    then show ?thesis using 1 pop by (auto simp: Let_def split: if_splits)
  next
    case None
    obtain res s2 where more: "session_read_more timeout (s\<lparr>xs_read_buf := rest\<rparr>) = Some (res, s2)"
      using 1 pop None by (cases "session_read_more timeout (s\<lparr>xs_read_buf := rest\<rparr>)") auto
    then have "hview s2 = hview s" using quietD [OF quiet_basic(5)] by fastforce
    then show ?thesis using 1 pop None more by (cases res) auto
  qed
qed

lemma quiet_wait [intro, simp]: "quiet (wait_for_any_tag R tags timeout)"
  by (rule quietI) (use wait_for_any_tag_view in fastforce)

lemma quiet_wait_until [intro, simp]: "quiet (wait_until R tags deadline)"
  by (auto simp: wait_until_def)

lemma wait_for_join_view:
  assumes "wait_for_join X K room nick deadline s = Some y"
  shows "hview (snd y) = hview s"
proof (rule wait_for_join.raw_induct [where P = "\<lambda>X K room nick deadline s y. hview (snd y) = hview s",
      OF _ assms], goal_cases)
  case (1 wait X K room nick deadline s y)
  obtain res s1 where w: "wait_until (xml_events K) [''presence''] deadline s = Some (res, s1)"
    using 1 by (cases "wait_until (xml_events K) [''presence''] deadline s") auto
  then have "hview s1 = hview s" using quietD [OF quiet_wait_until] by fastforce
  then show ?case using 1 w by (cases res) (auto split: sum.splits if_splits)
qed

lemma quiet_join [intro, simp]: "quiet (wait_for_join X K room nick deadline)"
  by (rule quietI) (use wait_for_join_view in fastforce)

lemma quiet_confirmation [intro, simp]: "quiet (join_confirmation X K outer room nick deadline)"
  by (rule quietI) (auto simp: join_confirmation_def split: option.splits sum.splits
      dest: quietD [OF quiet_join])

lemma hspec_bind:
  assumes "hspec host P f Q" and "\<And>x. hspec host Q (g x) S"
  shows "hspec host P (hbind f g) S"
  unfolding hspec_def
proof (intro allI impI)
  fix s r s'
  assume "P s" and "hbind f g s = Some (r, s')"
  from this(2) show "clear_ok host (xs_io s') \<and> (\<forall>x. r = Inr x \<longrightarrow> S s')"
  proof (cases rule: hbind_cases)
    case (failed e)
    then show ?thesis using assms(1) \<open>P s\<close> by (auto simp: hspec_def)
  next
    case (went_on x s1)
    then have "Q s1" using assms(1) \<open>P s\<close> by (auto simp: hspec_def)
    then show ?thesis using assms(2) [of x] went_on by (auto simp: hspec_def)
  qed
qed

lemma hspec_quiet:
  assumes "quiet f"
  shows "hspec host (in_clear host) f (in_clear host)" "hspec host (secured host) f (secured host)"
  using quietD [OF assms]
  by (auto simp: hspec_def in_clear_def secured_def clear_ok_def hview_def)

lemma hspec_send_secured: "hspec host (secured host) (session_send_raw xml) (secured host)"
  by (auto simp: hspec_def secured_def in_clear_def clear_ok_def session_send_raw_def io_write_def Let_def
      split: option.splits)

lemma hspec_send_clear: "hspec host (in_clear host) (session_send_raw STARTTLS_REQUEST) (in_clear host)"
  by (auto simp: hspec_def in_clear_def clear_ok_def session_send_raw_def io_write_def Let_def
      split: option.splits)

lemma hspec_open:
  "hspec host (in_clear host) open_stream (in_clear host)" "hspec host (secured host) open_stream (secured host)"
  by (auto simp: hspec_def open_stream_def secured_def in_clear_def clear_ok_def session_send_raw_def
      io_write_def Let_def split: option.splits)

lemma hspec_upgrade: "hspec host (in_clear host) (upgrade_tls outcome) (secured host)"
  by (auto simp: hspec_def upgrade_tls_def secured_def in_clear_def split: option.splits XmppSocket.splits)

lemma hspec_open_until:
  "hspec host (in_clear host) (open_stream_until deadline) (in_clear host)"
  "hspec host (secured host) (open_stream_until deadline) (secured host)"
  unfolding open_stream_until_def
  by (rule hspec_bind, rule hspec_quiet, simp, rule hspec_open)+

lemmas hspec_steps = hspec_bind hspec_open_until hspec_upgrade hspec_send_clear hspec_send_secured
  hspec_quiet [OF quiet_basic(1)] hspec_quiet [OF quiet_basic(2)] hspec_quiet [OF quiet_basic(3)]
  hspec_quiet [OF quiet_basic(4)] hspec_quiet [OF quiet_wait_until] hspec_quiet [OF quiet_confirmation]

lemma hspec_negotiate: "hspec host (in_clear host) (negotiate_tls K outcome deadline) (secured host)"
  unfolding negotiate_tls_def by (rule hspec_steps)+

lemma hspec_authenticate: "hspec host (secured host) (authenticate K user pass deadline) (secured host)"
  unfolding authenticate_def by (rule hspec_steps)+

lemma hspec_bind_resource: "hspec host (secured host) (bind_resource K deadline) (secured host)"
  unfolding bind_resource_def by (rule hspec_steps)+

lemma hspec_stream_management:
  "hspec host (secured host) (enable_stream_management K features deadline) (secured host)"
  unfolding enable_stream_management_def by (cases "str_contains features SM3_NS") (simp, (rule hspec_steps)+)+

lemma hspec_join: "hspec host (secured host) (join_room X K outer room deadline) (secured host)"
  unfolding join_room_def by (rule hspec_steps)+

lemma hspec_session:
  "hspec host (in_clear host) (session_steps X K outcome outer user pass room deadline) (secured host)"
  unfolding session_steps_def
  by (rule hspec_steps hspec_negotiate hspec_authenticate hspec_bind_resource hspec_stream_management hspec_join)+

lemma hspecD:
  assumes "hspec host P f Q" and "f s = Some (r, s')" and "P s"
  shows "clear_ok host (xs_io s')" and "r = Inr x \<Longrightarrow> Q s'"
  using assms by (auto simp: hspec_def)

fun connect_log :: "WxWireReceiverError \<times> xmpp_io + XmppWxWireTransport \<Rightarrow> (XmppSocket \<times> string) list" where
  "connect_log (Inl (e, w)) = io_sent w"
| "connect_log (Inr tr) = io_sent (tr_io tr)"

lemma io_now_sent [simp]: "io_sent (snd (io_now w)) = io_sent w"
  by (simp add: io_now_def)

lemma xmpp_connect_cases:
  assumes "xmpp_connect X K co host username password timeout w = Some r"
  obtains (early) "connect_log r = io_sent w" "\<And>tr. r \<noteq> Inr tr"
  | (handshake) w1 room deadline res s where "io_sent w1 = io_sent w"
      "session_steps X K (co_tls co) (co_outer_first co) username password room deadline
         \<lparr>xs_host = host, xs_socket = Some Plain, xs_read_buf = [], xs_io = w1\<rparr> = Some (res, s)"
      "connect_log r = io_sent (xs_io s)"
      "\<And>tr. r = Inr tr \<Longrightarrow> (\<exists>x. res = Inr x) \<and> tr_socket tr = xs_socket s \<and> tr_read_buf tr = xs_read_buf s"
  using assms
  by (auto simp: xmpp_connect_def Let_def case_prod_beta split: option.splits sum.splits if_splits)
    (metis io_now_sent)+

subsection \<open>Delivery\<close>

text \<open>What the receiver takes for a product: a group-chat message sent from the room.\<close>

definition room_message :: "('el, 'msg) wx_ext \<Rightarrow> string \<Rightarrow> string \<Rightarrow> bool" where
  "room_message X room_bare stanza \<longleftrightarrow>
     (case parse_element_with_default_ns X stanza of
        Inl _ \<Rightarrow> False
      | Inr element \<Rightarrow>
          el_name X element = ''message'' \<and> el_attr X element ''type'' = Some ''groupchat''
          \<and> from_room X room_bare element)"

definition buffer_ok :: "string \<Rightarrow> bool" where
  "buffer_ok buf \<longleftrightarrow> length buf \<le> MAX_READ_BUFFER_BYTES"

lemma append_limit_ok:
  "append_with_read_limit buf chunk m = (r, buf') \<Longrightarrow> buffer_ok buf'"
  by (auto simp: append_with_read_limit_def buffer_ok_def split: if_splits)

lemma transport_send_view:
  assumes "transport_send_raw xml tr = (r, tr')"
  shows "tr_room_bare tr' = tr_room_bare tr" "tr_read_buf tr' = tr_read_buf tr"
  using assms by (auto simp: transport_send_raw_def Let_def split: option.splits prod.splits)

lemma heartbeat_view:
  assumes "maybe_send_heartbeat tr = (r, tr')"
  shows "tr_room_bare tr' = tr_room_bare tr" "tr_read_buf tr' = tr_read_buf tr"
  using assms
  by (auto simp: maybe_send_heartbeat_def Let_def dest: transport_send_view
      split: sum.splits prod.splits if_splits)

lemma process_stanza_view:
  assumes "process_stanza X K stanza tr = (r, tr')"
  shows "tr_room_bare tr' = tr_room_bare tr" "tr_read_buf tr' = tr_read_buf tr"
  using assms
  by (auto simp: process_stanza_def Let_def dest: transport_send_view split: sum.splits prod.splits if_splits)

lemma process_stanza_delivers:
  "process_stanza X K stanza tr = (Some (Inr found), tr') \<Longrightarrow>
     found = stanza \<and> room_message X (tr_room_bare tr) stanza"
  by (auto simp: process_stanza_def room_message_def Let_def split: sum.splits prod.splits if_splits)

lemma transport_read_view:
  "tr_room_bare (snd (transport_read_more timeout tr)) = tr_room_bare tr"
  "buffer_ok (tr_read_buf tr) \<Longrightarrow> buffer_ok (tr_read_buf (snd (transport_read_more timeout tr)))"
  by (auto simp: transport_read_more_def Let_def io_read_def dest: append_limit_ok
      split: option.splits read_outcome.splits prod.splits)

text \<open>One iteration of the loop: it delivers, fails, or goes on with a transport like this one.\<close>

definition next_stanza_inv :: "('el, 'msg) wx_ext \<Rightarrow> xmpp_ext \<Rightarrow> XmppWxWireTransport \<Rightarrow>
    (WxWireReceiverError + string) \<times> XmppWxWireTransport \<Rightarrow> bool" where
  "next_stanza_inv X K tr y \<longleftrightarrow>
     tr_room_bare (snd y) = tr_room_bare tr
     \<and> (\<forall>stanza. fst y = Inr stanza \<longrightarrow> room_message X (tr_room_bare tr) stanza)
     \<and> (buffer_ok (tr_read_buf tr) \<longrightarrow> buffer_ok (tr_read_buf (snd y)))"

lemma next_stanza_inv_trans:
  "next_stanza_inv X K tr1 y \<Longrightarrow> tr_room_bare tr1 = tr_room_bare tr \<Longrightarrow>
     (buffer_ok (tr_read_buf tr) \<Longrightarrow> buffer_ok (tr_read_buf tr1)) \<Longrightarrow>
     next_stanza_inv X K tr y"
  by (simp add: next_stanza_inv_def)

lemma next_stanza_keeps_inv:
  assumes "next_stanza X K tr = Some y"
  shows "next_stanza_inv X K tr y"
proof (rule next_stanza.raw_induct [where P = next_stanza_inv, OF _ assms], goal_cases)
  case (1 continue X K tr y)
  obtain popped rest where pop: "pop_next_top_level_element (xml_events K) (tr_read_buf tr) = Some (popped, rest)"
    using 1 by (cases "pop_next_top_level_element (xml_events K) (tr_read_buf tr)") auto
  let ?tr = "tr\<lparr>tr_read_buf := rest\<rparr>"
  have rest: "buffer_ok rest" if "buffer_ok (tr_read_buf tr)"
    using pop_shorter [OF pop] that by (simp add: buffer_ok_def)
  show ?case
  proof (cases popped)
    case (Some stanza)
    obtain res tr1 where proc: "process_stanza X K stanza ?tr = (res, tr1)" by fastforce
    have "tr_room_bare tr1 = tr_room_bare tr" "tr_read_buf tr1 = rest"
      using process_stanza_view [OF proc] by auto
    then show ?thesis
      using 1(2) pop Some proc rest process_stanza_delivers [of X K stanza ?tr]
        next_stanza_inv_trans [OF 1(1)]
      by (cases res) (auto simp: next_stanza_inv_def)
  next
    case None
    obtain hb tr1 where beat: "maybe_send_heartbeat ?tr = (hb, tr1)" by fastforce
    obtain rd tr2 where more: "transport_read_more (from_secs 5) tr1 = (rd, tr2)" by fastforce
    have tr1: "tr_room_bare tr1 = tr_room_bare tr" "tr_read_buf tr1 = rest"
      using heartbeat_view [OF beat] by auto
    have tr2: "tr_room_bare tr2 = tr_room_bare tr" "buffer_ok rest \<Longrightarrow> buffer_ok (tr_read_buf tr2)"
      using transport_read_view(1) [of "from_secs 5" tr1] transport_read_view(2) [of tr1 "from_secs 5"] more tr1 by auto
    show ?thesis
      using 1(2) pop None beat more tr1 tr2 rest next_stanza_inv_trans [OF 1(1)]
      by (cases hb; cases rd) (auto simp: next_stanza_inv_def)
  qed
qed

subsection \<open>Bounded buffer\<close>

text \<open>The handshake keeps the buffer within its limit, too.\<close>

definition bounded :: "'a handshake \<Rightarrow> bool" where
  "bounded f \<longleftrightarrow> (\<forall>s r s'. buffer_ok (xs_read_buf s) \<longrightarrow> f s = Some (r, s') \<longrightarrow> buffer_ok (xs_read_buf s'))"

lemma boundedD: "bounded f \<Longrightarrow> f s = Some (r, s') \<Longrightarrow> buffer_ok (xs_read_buf s) \<Longrightarrow> buffer_ok (xs_read_buf s')"
  by (auto simp: bounded_def)

lemma bounded_bind [intro]:
  assumes "bounded f" and "\<And>x. bounded (g x)"
  shows "bounded (hbind f g)"
  unfolding bounded_def
proof (intro allI impI)
  fix s r s'
  assume "buffer_ok (xs_read_buf s)" and "hbind f g s = Some (r, s')"
  from this(2,1) show "buffer_ok (xs_read_buf s')"
  proof (cases rule: hbind_cases)
    case (went_on x s1)
    then show ?thesis
      using boundedD [OF assms(1) went_on(1)] boundedD [OF assms(2) went_on(2)] \<open>buffer_ok (xs_read_buf s)\<close> by blast
  qed (use boundedD [OF assms(1)] in blast)
qed

lemma bounded_read [intro, simp]: "bounded (session_read_more timeout)"
  by (auto simp: bounded_def session_read_more_def io_read_def Let_def dest: append_limit_ok
      split: option.splits read_outcome.splits if_splits prod.splits)

lemma bounded_basic [intro, simp]:
  "bounded (hreturn x)" "bounded (hrequire ok e)" "bounded (remaining_connect_timeout deadline)"
  "bounded chrono_like_suffix" "bounded (session_send_raw xml)" "bounded open_stream" "bounded (upgrade_tls outcome)"
  by (auto simp: bounded_def hreturn_def hrequire_def remaining_connect_timeout_def io_now_def Let_def
      chrono_like_suffix_def session_send_raw_def open_stream_def upgrade_tls_def buffer_ok_def
      split: option.splits prod.splits XmppSocket.splits)

lemma bounded_wait [intro]: "bounded (wait_for_any_tag R tags timeout)"
  unfolding bounded_def
proof (intro allI impI)
  fix s r s'
  assume "buffer_ok (xs_read_buf s)" and w: "wait_for_any_tag R tags timeout s = Some (r, s')"
  have "buffer_ok (xs_read_buf s) \<longrightarrow> buffer_ok (xs_read_buf (snd (r, s')))"
  proof (rule wait_for_any_tag.raw_induct [where P = "\<lambda>R tags timeout s y.
        buffer_ok (xs_read_buf s) \<longrightarrow> buffer_ok (xs_read_buf (snd y))", OF _ w], intro impI, goal_cases)
    case (1 wait R tags timeout s y)
    obtain popped rest where pop: "pop_next_top_level_element R (xs_read_buf s) = Some (popped, rest)"
      using 1 by (cases "pop_next_top_level_element R (xs_read_buf s)") auto
    have rest: "buffer_ok rest"
      using pop_shorter [OF pop] 1(3) by (simp add: buffer_ok_def)
    show ?case
    proof (cases popped)
      case (Some elem)
      then show ?thesis using 1 pop rest by (auto simp: Let_def split: if_splits)
    next
      case None
      obtain res s2 where more: "session_read_more timeout (s\<lparr>xs_read_buf := rest\<rparr>) = Some (res, s2)"
        using 1 pop None by (cases "session_read_more timeout (s\<lparr>xs_read_buf := rest\<rparr>)") auto
      then have "buffer_ok (xs_read_buf s2)"
        using boundedD [OF bounded_read] rest by fastforce
      then show ?thesis using 1 pop None more by (cases res) auto
    qed
  qed
  then show "buffer_ok (xs_read_buf s')" using \<open>buffer_ok (xs_read_buf s)\<close> by simp
qed

lemma bounded_join: "bounded (wait_for_join X K room nick deadline)"
  unfolding bounded_def
proof (intro allI impI)
  fix s r s'
  assume "buffer_ok (xs_read_buf s)" and w: "wait_for_join X K room nick deadline s = Some (r, s')"
  have until: "bounded (wait_until (xml_events K) tags deadline)" for K tags deadline
    by (auto simp: wait_until_def)
  have "buffer_ok (xs_read_buf s) \<longrightarrow> buffer_ok (xs_read_buf (snd (r, s')))"
  proof (rule wait_for_join.raw_induct [where P = "\<lambda>X K room nick deadline s y.
        buffer_ok (xs_read_buf s) \<longrightarrow> buffer_ok (xs_read_buf (snd y))", OF _ w],
      intro impI, goal_cases)
    case (1 wait X K room nick deadline s y)
    obtain res s1 where w: "wait_until (xml_events K) [''presence''] deadline s = Some (res, s1)"
      using 1 by (cases "wait_until (xml_events K) [''presence''] deadline s") auto
    then have "buffer_ok (xs_read_buf s1)" using boundedD [OF until w 1(3)] by simp
    then show ?case using 1 w by (cases res) (auto split: sum.splits if_splits)
  qed
  then show "buffer_ok (xs_read_buf s')" using \<open>buffer_ok (xs_read_buf s)\<close> by simp
qed

lemma bounded_confirmation:
  "bounded (join_confirmation X K outer room nick deadline)"
  using bounded_join [of X K room nick deadline]
  by (fastforce simp: bounded_def join_confirmation_def split: option.splits sum.splits prod.splits)

lemma bounded_session:
  "bounded (session_steps X K outcome outer user pass room deadline)"
proof -
  have until: "bounded (wait_until (xml_events K) tags deadline)" for tags
    by (auto simp: wait_until_def)
  show ?thesis
    unfolding session_steps_def negotiate_tls_def authenticate_def bind_resource_def
      enable_stream_management_def join_room_def open_stream_until_def
    by (auto intro!: bounded_bind until bounded_confirmation)
qed

text \<open>The states of a transport: connected, then asked for stanzas, perhaps disconnected.\<close>

inductive transport_reachable :: "('el, 'msg) wx_ext \<Rightarrow> xmpp_ext \<Rightarrow> XmppWxWireTransport \<Rightarrow> bool" for X K where
  connected: "xmpp_connect X K co host username password timeout w = Some (Inr tr) \<Longrightarrow> transport_reachable X K tr"
| received: "transport_reachable X K tr \<Longrightarrow> next_stanza X K tr = Some (r, tr') \<Longrightarrow> transport_reachable X K tr'"
| disconnected: "transport_reachable X K tr \<Longrightarrow> transport_reachable X K (transport_disconnect tr)"

subsection \<open>A sample server\<close>

text \<open>
  A reader that takes the whole buffer for one empty element, XML elements that are their own
  text, and a server that answers each step of the handshake with one read.
\<close>

definition sample_tag :: "string \<Rightarrow> string" where
  "sample_tag b = takeWhile (\<lambda>c. c \<noteq> CHR '' '' \<and> c \<noteq> CHR ''/'' \<and> c \<noteq> CHR ''>'') (tl b)"

definition whole_reader :: xml_reader where
  "whole_reader b = (if b = [] then ([], None) else ([(XEmpty (bytes_of (sample_tag b)), length b)], None))"

definition sample_xmpp_ext :: xmpp_ext where
  "sample_xmpp_ext = \<lparr>xml_events = whole_reader, jid_parse = Inr, base64_encode = id\<rparr>"

definition sample_wx_ext :: "(string, unit) wx_ext" where
  "sample_wx_ext =
     \<lparr>el_parse = Inr, el_name = sample_tag, el_ns = (\<lambda>_. []),
      el_attr = (\<lambda>el n. if n = ''from'' then Some (WXWIRE_ROOM @ ''/bb7'')
                        else if n = ''type'' \<and> sample_tag el = ''message'' then Some ''groupchat'' else None),
      el_text = id, msg_of_element = (\<lambda>_. None), msg_best_body = (\<lambda>_. None),
      msg_best_subject = (\<lambda>_. None), msg_payloads = (\<lambda>_. []), delay_stamp = (\<lambda>_. None),
      rfc3339_parse = (\<lambda>_. None)\<rparr>"

definition sample_replies :: "string list" where
  "sample_replies =
     [''<stream:features urn:ietf:params:xml:ns:xmpp-tls/>'',
      ''<proceed urn:ietf:params:xml:ns:xmpp-tls/>'',
      ''<stream:features urn:ietf:params:xml:ns:xmpp-sasl/>'',
      ''<success/>'',
      ''<stream:features urn:ietf:params:xml:ns:xmpp-bind/>'',
      ''<iq id='bb-bind-7' type='result'/>'',
      ''<presence/>'', ''<message/>'']"

definition sample_io :: xmpp_io where
  "sample_io =
     \<lparr>io_reads = (\<lambda>i _. if i < length sample_replies then RdBytes (bytes_of (sample_replies ! i)) else RdTimedOut),
      io_read_no = 0, io_writes = (\<lambda>_. None), io_write_no = 0, io_clock = (\<lambda>_. 0), io_clock_no = 0,
      io_unix_secs = (\<lambda>_. 7), io_unix_no = 0, io_sent = []\<rparr>"

definition sample_outcome :: connect_outcome where
  "sample_outcome = \<lparr>co_tcp = None, co_tls = None, co_outer_first = False\<rparr>"

lemma pop_Nil [simp]: "pop_next_top_level_element R [] = Some (None, [])"
  by (subst pop_next_top_level_element.simps) simp

definition plain_element :: "string \<Rightarrow> bool" where
  "plain_element b \<longleftrightarrow> b \<noteq> [] \<and> is_ascii (bytes_of b) \<and> length b \<le> 100 \<and> sample_tag b \<noteq> ''stream:stream''"

lemma is_ascii_tag: "is_ascii (bytes_of b) \<Longrightarrow> is_ascii (bytes_of (sample_tag b))"
  by (cases b) (auto simp: is_ascii_def bytes_of_def sample_tag_def list_all_iff dest!: set_takeWhileD)

lemma pop_whole:
  assumes "plain_element b"
  shows "pop_next_top_level_element whole_reader b = Some (Some b, [])"
  using assms is_ascii_valid [OF is_ascii_tag [of b]]
  by (subst pop_next_top_level_element.simps) (simp add: plain_element_def scan_buffer_def whole_reader_def pop_element_def drain_to_def is_char_boundary_def)

lemma root_whole: "plain_element b \<Longrightarrow> stanza_root_tag_name whole_reader b = Some (sample_tag b)"
  using is_ascii_valid [OF is_ascii_tag [of b]]
  by (simp add: plain_element_def stanza_root_tag_name_def whole_reader_def)

lemma wait_whole:
  assumes "plain_element b" and "sample_tag b \<in> set tags"
    and "io_reads (xs_io s) (io_read_no (xs_io s)) t = RdBytes (bytes_of b)"
    and "xs_read_buf s = []" and "xs_socket s = Some sk"
  shows "wait_for_any_tag whole_reader tags t s =
    Some (Inr b, s\<lparr>xs_io := (xs_io s)\<lparr>io_read_no := io_read_no (xs_io s) + 1\<rparr>\<rparr>)"
proof -
  let ?s = "s\<lparr>xs_read_buf := b, xs_io := (xs_io s)\<lparr>io_read_no := io_read_no (xs_io s) + 1\<rparr>\<rparr>"
  have "session_read_more t s = Some (Inr (), ?s)"
    using assms is_ascii_valid [of "bytes_of b"]
    by (simp add: session_read_more_def io_read_def plain_element_def append_with_read_limit_def
        MAX_READ_BUFFER_BYTES_def from_utf8_lossy_valid)
  moreover have "wait_for_any_tag whole_reader tags t ?s = Some (Inr b, ?s\<lparr>xs_read_buf := []\<rparr>)"
    using assms(1,2) by (subst wait_for_any_tag.simps) (simp add: pop_whole has_tag_def root_whole)
  ultimately show ?thesis using assms(4) by (subst wait_for_any_tag.simps) (cases s, simp)
qed

lemma sample_length: "length sample_replies = Suc (Suc (Suc (Suc (Suc (Suc (Suc (Suc 0)))))))"
  by (simp add: sample_replies_def)

lemma sample_plain: "list_all plain_element sample_replies"
  by (simp add: sample_replies_def plain_element_def is_ascii_def bytes_of_def sample_tag_def)

lemma sample_contains:
  "str_contains (sample_replies ! 0) ''urn:ietf:params:xml:ns:xmpp-tls''"
  "str_contains (sample_replies ! (Suc 0)) ''urn:ietf:params:xml:ns:xmpp-tls''"
  "str_contains (sample_replies ! (Suc (Suc 0))) ''urn:ietf:params:xml:ns:xmpp-sasl''"
  "\<not> str_contains (sample_replies ! (Suc (Suc (Suc 0)))) ''<failure''"
  "str_contains (sample_replies ! (Suc (Suc (Suc (Suc 0))))) ''urn:ietf:params:xml:ns:xmpp-bind''"
  "\<not> str_contains (sample_replies ! (Suc (Suc (Suc (Suc 0))))) SM3_NS"
  by (simp_all add: sample_replies_def str_contains_def starts_with_def SM3_NS_def)

lemma sample_mentions:
  "mentions_attr (sample_replies ! (Suc (Suc (Suc (Suc (Suc 0)))))) ''id'' ''bb-bind-7''"
  "mentions_attr (sample_replies ! (Suc (Suc (Suc (Suc (Suc 0)))))) ''type'' ''result''"
  "\<not> mentions_attr (sample_replies ! (Suc (Suc (Suc (Suc (Suc (Suc 0))))))) ''type'' ''error''"
  by (simp_all add: sample_replies_def str_contains_def starts_with_def mentions_attr_def quoted_attr_def)

lemma sample_tags:
  "sample_tag (sample_replies ! 0) = ''stream:features''" "sample_tag (sample_replies ! (Suc 0)) = ''proceed''"
  "sample_tag (sample_replies ! (Suc (Suc 0))) = ''stream:features''" "sample_tag (sample_replies ! (Suc (Suc (Suc 0)))) = ''success''"
  "sample_tag (sample_replies ! (Suc (Suc (Suc (Suc 0))))) = ''stream:features''" "sample_tag (sample_replies ! (Suc (Suc (Suc (Suc (Suc 0)))))) = ''iq''"
  "sample_tag (sample_replies ! (Suc (Suc (Suc (Suc (Suc (Suc 0))))))) = ''presence''" "sample_tag (sample_replies ! (Suc (Suc (Suc (Suc (Suc (Suc (Suc 0)))))))) = ''message''"
  by (simp_all add: sample_replies_def sample_tag_def)

lemma wait_sample:
  assumes "io_reads (xs_io s) = io_reads sample_io" and "io_read_no (xs_io s) < 8"
    and "sample_tag (sample_replies ! io_read_no (xs_io s)) \<in> set tags"
    and "xs_read_buf s = []" and "xs_socket s = Some sk"
  shows "wait_for_any_tag whole_reader tags t s =
    Some (Inr (sample_replies ! io_read_no (xs_io s)), s\<lparr>xs_io := (xs_io s)\<lparr>io_read_no := io_read_no (xs_io s) + 1\<rparr>\<rparr>)"
proof -
  have "length sample_replies = 8" by (simp add: sample_replies_def)
  then show ?thesis
    using assms sample_plain by (intro wait_whole) (auto simp: list_all_length sample_io_def)
qed

lemma sample_join: "is_room_join_presence sample_wx_ext (sample_replies ! (Suc (Suc (Suc (Suc (Suc (Suc 0))))))) WXWIRE_ROOM ''bb7'' = Inr True"
  by (simp add: is_room_join_presence_def parse_element_with_default_ns_def sample_wx_ext_def sample_tags
      split_once_def WXWIRE_ROOM_def)

lemma show_7: "show_nat 7 = ''7''"
  by code_simp

lemma sample_connects:
  "\<exists>tr. xmpp_connect sample_wx_ext sample_xmpp_ext sample_outcome ''h'' ''u'' ''p'' (from_secs 5) sample_io = Some (Inr tr)"
  unfolding xmpp_connect_def
  by (simp add: sample_xmpp_ext_def sample_outcome_def checked_instant_add_def from_secs_def io_now_def
     session_steps_def negotiate_tls_def authenticate_def bind_resource_def enable_stream_management_def join_room_def
     hbind_def hrequire_def hreturn_def remaining_connect_timeout_def open_stream_until_def open_stream_def wait_until_def
     session_send_raw_def io_write_def upgrade_tls_def chrono_like_suffix_def sample_contains sample_mentions sample_tags
     wait_sample join_confirmation_def wait_for_join.simps [of _ _ _ _ 5000000000] sample_join sample_io_def show_7)

definition sample_transport :: XmppWxWireTransport where
  "sample_transport =
     \<lparr>tr_socket = Some Tls, tr_room_bare = WXWIRE_ROOM, tr_label = ''h'', tr_read_buf = [],
      tr_sm_enabled = False, tr_sm_handled_stanzas = 0, tr_last_heartbeat = 0,
      tr_io = sample_io\<lparr>io_read_no := Suc (Suc (Suc (Suc (Suc (Suc (Suc 0))))))\<rparr>\<rparr>"

lemma sample_next:
  "\<exists>tr'. next_stanza sample_wx_ext sample_xmpp_ext sample_transport = Some (Inr ''<message/>'', tr')"
proof -
  let ?tr = "sample_transport\<lparr>tr_read_buf := ''<message/>'', tr_io := sample_io\<lparr>io_read_no := 8\<rparr>\<rparr>"
  have msg: "sample_replies ! Suc (Suc (Suc (Suc (Suc (Suc (Suc 0)))))) = ''<message/>''"
    by (simp add: sample_replies_def)
  then have plain: "plain_element ''<message/>''"
    using sample_plain by (simp add: sample_replies_def)
  have "transport_read_more (from_secs 5) (sample_transport\<lparr>tr_read_buf := []\<rparr>) = (Inr (), ?tr)"
    using plain is_ascii_valid [of "bytes_of ''<message/>''"]
    by (simp add: transport_read_more_def sample_transport_def sample_io_def io_read_def msg plain_element_def
        append_with_read_limit_def MAX_READ_BUFFER_BYTES_def from_utf8_lossy_valid sample_length)
  moreover have "next_stanza sample_wx_ext sample_xmpp_ext ?tr = Some (Inr ''<message/>'',
      ?tr\<lparr>tr_read_buf := [], tr_sm_handled_stanzas := sat_add 0 1\<rparr>)"
    using pop_whole [OF plain] root_whole [OF plain]
    by (subst next_stanza.simps)
      (simp add: sample_xmpp_ext_def process_stanza_def is_supported_top_level_stanza_def sample_transport_def
        parse_element_with_default_ns_def sample_wx_ext_def sample_tag_def from_room_def split_once_def WXWIRE_ROOM_def)
  moreover have "tr_read_buf sample_transport = []" "\<not> tr_sm_enabled sample_transport"
    by (simp_all add: sample_transport_def)
  ultimately show ?thesis
    by (subst next_stanza.simps) (simp add: maybe_send_heartbeat_def)
qed

subsection \<open>Properties\<close>

text \<open>
  C12: Whatever the server and the network do, a connection attempt writes nothing in clear text
  but the stream header and the request to start TLS (so neither user name nor password), and a
  transport that it returns uses TLS.
\<close>

theorem credentials_only_over_tls:
  assumes "io_sent w = []" and "xmpp_connect X K co host username password timeout w = Some r"
  shows "(\<forall>xml. (Plain, xml) \<in> set (connect_log r) \<longrightarrow> xml = stream_header host \<or> xml = STARTTLS_REQUEST)
    \<and> (\<forall>tr. r = Inr tr \<longrightarrow> tr_socket tr = Some Tls)"
using assms(2)
proof (cases rule: xmpp_connect_cases)
  case early
  then show ?thesis using assms(1) by auto
next
  case (handshake w1 room deadline res s)
  have "in_clear host \<lparr>xs_host = host, xs_socket = Some Plain, xs_read_buf = [], xs_io = w1\<rparr>"
    using handshake(1) assms(1) by (simp add: in_clear_def clear_ok_def)
  then have "clear_ok host (xs_io s)" and "\<And>x. res = Inr x \<Longrightarrow> secured host s"
    using hspecD [OF hspec_session handshake(2)] by blast+
  then show ?thesis using handshake(3,4) by (fastforce simp: clear_ok_def secured_def)
qed

theorem credentials_only_over_tls_witness:
  "\<exists>tr. xmpp_connect sample_wx_ext sample_xmpp_ext sample_outcome ''h'' ''u'' ''p'' (from_secs 5) sample_io = Some (Inr tr)
     \<and> tr_socket tr = Some Tls"
proof -
  obtain tr where tr: "xmpp_connect sample_wx_ext sample_xmpp_ext sample_outcome ''h'' ''u'' ''p'' (from_secs 5)
      sample_io = Some (Inr tr)"
    using sample_connects by blast
  moreover have "io_sent sample_io = []" by (simp add: sample_io_def)
  ultimately show ?thesis using credentials_only_over_tls [OF _ tr] by blast
qed

text \<open>
  C25: What the transport hands to the decoder is a group-chat message whose sender is an
  occupant of the joined room, and the room does not change.
\<close>

theorem only_room_messages_delivered:
  assumes "next_stanza X K tr = Some (Inr stanza, tr')"
  shows "room_message X (tr_room_bare tr) stanza \<and> tr_room_bare tr' = tr_room_bare tr"
  using next_stanza_keeps_inv [OF assms] by (simp add: next_stanza_inv_def)

theorem only_room_messages_delivered_witness:
  "\<exists>tr'. next_stanza sample_wx_ext sample_xmpp_ext sample_transport = Some (Inr ''<message/>'', tr')
     \<and> room_message sample_wx_ext WXWIRE_ROOM ''<message/>''"
proof -
  obtain tr' where run: "next_stanza sample_wx_ext sample_xmpp_ext sample_transport = Some (Inr ''<message/>'', tr')"
    using sample_next by blast
  have "tr_room_bare sample_transport = WXWIRE_ROOM" by (simp add: sample_transport_def)
  then show ?thesis using only_room_messages_delivered [OF run] run by auto
qed

text \<open>
  In every state that connecting, receiving and disconnecting can reach, the read buffer
  holds at most one mebibyte.
\<close>

theorem read_buffer_bounded:
  assumes "transport_reachable X K tr"
  shows "length (tr_read_buf tr) \<le> 1048576"
proof -
  have "buffer_ok (tr_read_buf tr)"
    using assms
  proof (induction rule: transport_reachable.induct)
    case (connected co host username password timeout w tr)
    then show ?case
    proof (cases rule: xmpp_connect_cases)
      case (handshake w1 room deadline res s)
      then show ?thesis
        using boundedD [OF bounded_session handshake(2)] by (simp add: buffer_ok_def)
    qed blast
  next
    case (received tr r tr')
    then show ?case using next_stanza_keeps_inv [OF received(2)] by (simp add: next_stanza_inv_def)
  next
    case (disconnected tr)
    then show ?case by (simp add: transport_disconnect_def split: option.splits)
  qed
  then show ?thesis by (simp add: buffer_ok_def MAX_READ_BUFFER_BYTES_def)
qed

lemma whole_reader_ok: "reader_ok whole_reader"
  by (simp add: reader_ok_def whole_reader_def)

theorem read_buffer_bounded_witness:
  "\<exists>tr. transport_reachable sample_wx_ext sample_xmpp_ext tr \<and> length (tr_read_buf tr) \<le> 1048576"
proof -
  obtain tr where "transport_reachable sample_wx_ext sample_xmpp_ext tr"
    using sample_connects transport_reachable.connected by blast
  then show ?thesis using read_buffer_bounded by blast
qed




text \<open>
  A character whose bytes arrive in two reads is not decoded: each half becomes a
  replacement character in the buffer.
\<close>

theorem split_character_is_corrupted:
  "tr_read_buf (snd (transport_read_more t (snd (transport_read_more t
     (sample_transport\<lparr>tr_io := sample_io\<lparr>io_reads := (\<lambda>i _. RdBytes ([[0xC3], [0xA9]] ! i))\<rparr>\<rparr>)))))
   = str_of (replacement_character @ replacement_character)"
proof -
  have "from_utf8_lossy [0xC3] = replacement_character" "from_utf8_lossy [0xA9] = replacement_character"
    by code_simp+
  then show ?thesis
    by (simp add: transport_read_more_def sample_transport_def sample_io_def io_read_def
        append_with_read_limit_def MAX_READ_BUFFER_BYTES_def) (simp add: replacement_character_def)
qed

text \<open>
  A presence of type \<open>error\<close>, by which a room rejects a join, is never taken as the confirmation
  that is then examined for a rejection: the handshake waits until its time is up.
\<close>

theorem rejected_join_is_not_confirmed:
  "parse_element_with_default_ns X stanza = Inr element \<Longrightarrow> el_attr X element ''type'' = Some ''error'' \<Longrightarrow>
     is_room_join_presence X stanza room_bare nick = Inr False"
  by (simp add: is_room_join_presence_def)

end
