(* ===== verification/Wxwire_Client.thy ===== *)
theory Wxwire_Client
  imports Wxwire_Transport Runtime_Support
begin

text \<open>
  The Weather Wire receiver runtime (\<open>wxwire_receiver/client.rs\<close>): telemetry, event dispatch,
  the reconnecting main loop as a step function over what each iteration observes, and the
  receiver object with its raw-stanza ingress. The transport is the one the factory returns:
  the loop sees of it only a label and the outcomes of \<open>next_stanza\<close>, which are part of the
  explicit environment of a round.
\<close>

subsection \<open>Telemetry and events\<close>

definition RECONNECT_BACKOFF_INITIAL :: duration where
  "RECONNECT_BACKOFF_INITIAL = from_secs 1"

definition RECONNECT_BACKOFF_MAX :: duration where
  "RECONNECT_BACKOFF_MAX = from_secs 30"

record WxWireReceiverTelemetrySnapshot =
  wxt_starts_total :: u64
  wxt_stops_total :: u64
  wxt_decoded_messages_total :: u64
  wxt_files_emitted_total :: u64
  wxt_warning_events_total :: u64
  wxt_handler_failures_total :: u64
  wxt_event_queue_drop_total :: u64
  wxt_backpressure_warning_emitted_total :: u64
  wxt_idle_reconnects_total :: u64
  wxt_reconnect_attempts_total :: u64
  wxt_connect_attempts_total :: u64
  wxt_telemetry_events_emitted_total :: u64

definition wx_telemetry_default :: WxWireReceiverTelemetrySnapshot where
  "wx_telemetry_default =
     \<lparr>wxt_starts_total = 0, wxt_stops_total = 0, wxt_decoded_messages_total = 0,
      wxt_files_emitted_total = 0, wxt_warning_events_total = 0, wxt_handler_failures_total = 0,
      wxt_event_queue_drop_total = 0, wxt_backpressure_warning_emitted_total = 0,
      wxt_idle_reconnects_total = 0, wxt_reconnect_attempts_total = 0,
      wxt_connect_attempts_total = 0, wxt_telemetry_events_emitted_total = 0\<rparr>"

datatype WxWireReceiverEvent =
    WxFrame WxWireReceiverFrameEvent
  | WxConnected string
  | WxDisconnected
  | WxTelemetry WxWireReceiverTelemetrySnapshot

type_synonym wx_item = "WxWireReceiverError + WxWireReceiverEvent"
type_synonym wx_handler = "WxWireReceiverFrameEvent \<Rightarrow> WxWireReceiverError + unit"

text \<open>
  The local variables of the loop: the channel, the telemetry, what is published of it, the
  label of the transport while one is connected, the time of the last message and the backoff.
\<close>

record wx_state =
  wxs_sender :: "wx_item sender"
  wxs_snapshot :: WxWireReceiverTelemetrySnapshot
  wxs_backpressure :: BackpressureTracker
  wxs_sink :: WxWireReceiverTelemetrySnapshot
  wxs_transport :: "string option"
  wxs_last_message_time :: instant
  wxs_reconnect_backoff :: duration

definition wx_update_telemetry_sink :: "wx_state \<Rightarrow> wx_state" where
  "wx_update_telemetry_sink st = st\<lparr>wxs_sink := wxs_snapshot st\<rparr>"

definition wx_on_snapshot ::
    "(WxWireReceiverTelemetrySnapshot \<Rightarrow> WxWireReceiverTelemetrySnapshot) \<Rightarrow> wx_state \<Rightarrow> wx_state" where
  "wx_on_snapshot f st = st\<lparr>wxs_snapshot := f (wxs_snapshot st)\<rparr>"

definition wx_build_drop_warning :: "BackpressureTracker \<Rightarrow> WxWireReceiverEvent" where
  "wx_build_drop_warning t =
     WxFrame (WxWarning (WxBackpressureDrop (bp_dropped_since_last_report t) (bp_event_queue_drop_total t)))"

definition wx_count_warning_sent :: "WxWireReceiverTelemetrySnapshot \<Rightarrow> WxWireReceiverTelemetrySnapshot" where
  "wx_count_warning_sent sn =
     sn\<lparr>wxt_warning_events_total := sat_add (wxt_warning_events_total sn) 1,
        wxt_backpressure_warning_emitted_total := sat_add (wxt_backpressure_warning_emitted_total sn) 1\<rparr>"

definition wx_copy_drop_total ::
    "BackpressureTracker \<Rightarrow> WxWireReceiverTelemetrySnapshot \<Rightarrow> WxWireReceiverTelemetrySnapshot" where
  "wx_copy_drop_total t sn = sn\<lparr>wxt_event_queue_drop_total := bp_event_queue_drop_total t\<rparr>"

definition wx_try_send_event :: "wx_item \<Rightarrow> wx_state \<Rightarrow> wx_state" where
  "wx_try_send_event event st =
     (let (t, sn, s) =
        try_send_with_backpressure_warning wx_build_drop_warning wx_count_warning_sent wx_copy_drop_total
          event (wxs_backpressure st, wxs_snapshot st, wxs_sender st)
      in st\<lparr>wxs_backpressure := t, wxs_snapshot := sn, wxs_sender := s\<rparr>)"

subsection \<open>Dispatch\<close>

definition wx_count_frame :: "WxWireReceiverFrameEvent \<Rightarrow> WxWireReceiverTelemetrySnapshot \<Rightarrow> WxWireReceiverTelemetrySnapshot" where
  "wx_count_frame ev sn =
     (case ev of
        WxFile _ \<Rightarrow> sn\<lparr>wxt_files_emitted_total := sat_add (wxt_files_emitted_total sn) 1\<rparr>
      | WxWarning _ \<Rightarrow> sn\<lparr>wxt_warning_events_total := sat_add (wxt_warning_events_total sn) 1\<rparr>)"

fun wx_run_handlers :: "wx_handler list \<Rightarrow> WxWireReceiverFrameEvent \<Rightarrow> wx_state \<Rightarrow> wx_state" where
  "wx_run_handlers [] ev st = st"
| "wx_run_handlers (h # hs) ev st =
     (case h ev of
        Inr _ \<Rightarrow> wx_run_handlers hs ev st
      | Inl err \<Rightarrow>
          (let st1 = wx_on_snapshot (\<lambda>sn. sn\<lparr>wxt_handler_failures_total := sat_add (wxt_handler_failures_total sn) 1\<rparr>) st;
               warning = WxWarning (WxHandlerError (wx_receiver_error_text err));
               st2 = wx_on_snapshot (\<lambda>sn. sn\<lparr>wxt_warning_events_total := sat_add (wxt_warning_events_total sn) 1\<rparr>) st1
           in wx_run_handlers hs ev (wx_try_send_event (Inr (WxFrame warning)) st2)))"

fun dispatch_frame_events :: "wx_handler list \<Rightarrow> WxWireReceiverFrameEvent list \<Rightarrow> wx_state \<Rightarrow> wx_state" where
  "dispatch_frame_events hs [] st = st"
| "dispatch_frame_events hs (ev # evs) st =
     dispatch_frame_events hs evs
       (wx_try_send_event (Inr (WxFrame ev)) (wx_run_handlers hs ev (wx_on_snapshot (wx_count_frame ev) st)))"

subsection \<open>The main loop\<close>

text \<open>What the \<open>select!\<close> of one iteration observes, with the readings of the clocks.\<close>

datatype wx_input =
    WxShutdownSeen
  | WxTelemetryTick
  | WxIngress instant system_time "string option"
  | WxStanza instant system_time string
  | WxTransportFailed WxWireReceiverError
  | WxElapsed instant

text \<open>
  The environment of one iteration: whether shutdown is already requested, how connecting ends
  if there is no transport, when, what the \<open>select!\<close> observes, and whether shutdown interrupts a
  backoff.
\<close>

record wx_round =
  rnd_shutdown :: bool
  rnd_connect :: "WxWireReceiverError + string"
  rnd_connected_at :: instant
  rnd_input :: wx_input
  rnd_backoff_interrupted :: bool

datatype NextAction = Stay | Shutdown | Reconnect

definition wx_stop :: "wx_state \<Rightarrow> wx_state" where
  "wx_stop st = wx_update_telemetry_sink (wx_try_send_event (Inr WxDisconnected) st)"

definition count_stop :: "wx_state \<Rightarrow> wx_state" where
  "count_stop = wx_on_snapshot (\<lambda>sn. sn\<lparr>wxt_stops_total := sat_add (wxt_stops_total sn) 1\<rparr>)"

definition count_reconnect :: "wx_state \<Rightarrow> wx_state" where
  "count_reconnect =
     wx_on_snapshot (\<lambda>sn. sn\<lparr>wxt_reconnect_attempts_total := sat_add (wxt_reconnect_attempts_total sn) 1\<rparr>)"

definition back_off :: "bool \<Rightarrow> wx_state \<Rightarrow> wx_state" where
  "back_off interrupted st =
     (if interrupted then st
      else st\<lparr>wxs_reconnect_backoff := min (wxs_reconnect_backoff st * 2) RECONNECT_BACKOFF_MAX\<rparr>)"

definition warn_transport :: "wx_handler list \<Rightarrow> string \<Rightarrow> wx_state \<Rightarrow> wx_state" where
  "warn_transport hs message st =
     wx_update_telemetry_sink (dispatch_frame_events hs [WxWarning (WxTransportError message)] st)"

definition connect_single_endpoint :: "wx_state \<Rightarrow> wx_state" where
  "connect_single_endpoint =
     wx_on_snapshot (\<lambda>sn. sn\<lparr>wxt_connect_attempts_total := sat_add (wxt_connect_attempts_total sn) 1\<rparr>)"

definition decode_stanza ::
    "('el, 'msg) wx_ext \<Rightarrow> wx_handler list \<Rightarrow> instant \<Rightarrow> system_time \<Rightarrow> string \<Rightarrow> wx_state \<Rightarrow> wx_state" where
  "decode_stanza X hs now now_utc raw st =
     (let st1 = st\<lparr>wxs_last_message_time := now\<rparr>
      in case wx_feed X now_utc raw of
           Inr frame_events \<Rightarrow>
             wx_update_telemetry_sink (dispatch_frame_events hs frame_events
               (wx_on_snapshot (\<lambda>sn. sn\<lparr>wxt_decoded_messages_total := sat_add (wxt_decoded_messages_total sn) 1\<rparr>) st1))
         | Inl err \<Rightarrow>
             wx_update_telemetry_sink (dispatch_frame_events hs
               [WxWarning (WxDecoderRecovered (wx_receiver_error_text err))] st1))"

definition select_step ::
    "('el, 'msg) wx_ext \<Rightarrow> WxWireReceiverConfig \<Rightarrow> wx_handler list \<Rightarrow> wx_input \<Rightarrow> wx_state \<Rightarrow> NextAction \<times> wx_state" where
  "select_step X cfg hs inp st =
     (case inp of
        WxShutdownSeen \<Rightarrow> (Shutdown, count_stop st)
      | WxTelemetryTick \<Rightarrow>
          (let st1 = wx_on_snapshot (\<lambda>sn. sn\<lparr>wxt_telemetry_events_emitted_total :=
                       sat_add (wxt_telemetry_events_emitted_total sn) 1\<rparr>) st
           in (Stay, wx_update_telemetry_sink (wx_try_send_event (Inr (WxTelemetry (wxs_snapshot st1))) st1)))
      | WxIngress now now_utc None \<Rightarrow> (Stay, st)
      | WxIngress now now_utc (Some raw) \<Rightarrow> (Stay, decode_stanza X hs now now_utc raw st)
      | WxStanza now now_utc stanza \<Rightarrow> (Stay, decode_stanza X hs now now_utc stanza st)
      | WxTransportFailed err \<Rightarrow> (Reconnect, warn_transport hs (wx_receiver_error_text err) st)
      | WxElapsed now \<Rightarrow>
          if now - wxs_last_message_time st \<ge> from_secs (unat (wxc_idle_timeout_secs cfg)) then
            (Stay, (warn_transport hs
               (''no accepted room message for '' @ show_nat (unat (wxc_idle_timeout_secs cfg)) @ ''s'') st)
               \<lparr>wxs_last_message_time := now\<rparr>)
          else (Stay, st))"

text \<open>One iteration with a connected transport; \<open>True\<close> when the loop returns.\<close>

definition connected_round ::
    "('el, 'msg) wx_ext \<Rightarrow> WxWireReceiverConfig \<Rightarrow> wx_handler list \<Rightarrow> wx_round \<Rightarrow> wx_state \<Rightarrow> bool \<times> wx_state" where
  "connected_round X cfg hs rnd st =
     (case select_step X cfg hs (rnd_input rnd) st of
        (Stay, st1) \<Rightarrow> (False, st1)
      | (Shutdown, st1) \<Rightarrow> (True, wx_stop (st1\<lparr>wxs_transport := None\<rparr>))
      | (Reconnect, st1) \<Rightarrow>
          (False, back_off (rnd_backoff_interrupted rnd)
             (wx_stop (count_reconnect (st1\<lparr>wxs_transport := None\<rparr>)))))"

definition weather_wire_step ::
    "('el, 'msg) wx_ext \<Rightarrow> WxWireReceiverConfig \<Rightarrow> wx_handler list \<Rightarrow> wx_round \<Rightarrow> wx_state \<Rightarrow> bool \<times> wx_state" where
  "weather_wire_step X cfg hs rnd st =
     (if rnd_shutdown rnd then (True, wx_stop ((count_stop st)\<lparr>wxs_transport := None\<rparr>))
      else if wxs_transport st = None then
        (let st1 = connect_single_endpoint st
         in case rnd_connect rnd of
              Inr label \<Rightarrow>
                connected_round X cfg hs rnd
                  ((wx_update_telemetry_sink (wx_try_send_event (Inr (WxConnected label))
                      (st1\<lparr>wxs_reconnect_backoff := RECONNECT_BACKOFF_INITIAL,
                           wxs_last_message_time := rnd_connected_at rnd\<rparr>)))\<lparr>wxs_transport := Some label\<rparr>)
            | Inl err \<Rightarrow>
                (False, back_off (rnd_backoff_interrupted rnd)
                   (count_reconnect (warn_transport hs (wx_receiver_error_text err) st1))))
      else connected_round X cfg hs rnd st)"

fun weather_wire_loop ::
    "('el, 'msg) wx_ext \<Rightarrow> WxWireReceiverConfig \<Rightarrow> wx_handler list \<Rightarrow> wx_round list \<Rightarrow> wx_state \<Rightarrow> bool \<times> wx_state" where
  "weather_wire_loop X cfg hs [] st = (False, st)"
| "weather_wire_loop X cfg hs (rnd # rnds) st =
     (case weather_wire_step X cfg hs rnd st of
        (True, st1) \<Rightarrow> (True, st1)
      | (False, st1) \<Rightarrow> weather_wire_loop X cfg hs rnds st1)"

definition wx_initial :: "wx_item sender \<Rightarrow> WxWireReceiverTelemetrySnapshot \<Rightarrow> instant \<Rightarrow> wx_state" where
  "wx_initial s sink start =
     \<lparr>wxs_sender = s,
      wxs_snapshot = wx_telemetry_default\<lparr>wxt_starts_total := sat_add 0 1\<rparr>,
      wxs_backpressure = tracker_default, wxs_sink = sink, wxs_transport = None,
      wxs_last_message_time = start, wxs_reconnect_backoff = RECONNECT_BACKOFF_INITIAL\<rparr>"

text \<open>
  The task of the receiver: \<open>shutdown_at_start\<close> tells whether shutdown was requested before the
  first telemetry tick, \<open>rounds\<close> what the iterations observe. The flag of the result tells
  whether the task has returned.
\<close>

definition run_weather_wire_loop ::
    "('el, 'msg) wx_ext \<Rightarrow> WxWireReceiverConfig \<Rightarrow> wx_handler list \<Rightarrow> bool \<Rightarrow> instant \<Rightarrow> wx_round list \<Rightarrow>
     wx_item sender \<Rightarrow> WxWireReceiverTelemetrySnapshot \<Rightarrow> bool \<times> wx_state" where
  "run_weather_wire_loop X cfg hs shutdown_at_start start rounds s sink =
     (let st = wx_initial s sink start
      in if shutdown_at_start then (True, wx_stop (count_stop st))
         else weather_wire_loop X cfg hs rounds st)"

subsection \<open>The receiver object\<close>

text \<open>The ingress channel is \<open>'i\<close>; \<open>try_ingress\<close> is its \<open>try_send\<close>.\<close>

record ('r, 'i) WxWireReceiver =
  wxr_config :: WxWireReceiverConfig
  wxr_runtime :: 'r
  wxr_ingress_tx :: "'i option"
  wxr_handlers :: "wx_handler list"
  wxr_telemetry :: WxWireReceiverTelemetrySnapshot

definition wx_build ::
    "WxWireReceiverConfig \<Rightarrow> WxWireReceiverError + (('rx, 'tx, 'h) ReceiverRuntime, 'i) WxWireReceiver" where
  "wx_build cfg =
     (case wx_config_validate cfg of
        Inl e \<Rightarrow> Inl e
      | Inr _ \<Rightarrow>
          Inr \<lparr>wxr_config = cfg, wxr_runtime = runtime_default, wxr_ingress_tx = None, wxr_handlers = [],
               wxr_telemetry = wx_telemetry_default\<rparr>)"

definition wx_subscribe :: "wx_handler \<Rightarrow> ('r, 'i) WxWireReceiver \<Rightarrow> ('r, 'i) WxWireReceiver" where
  "wx_subscribe h r = r\<lparr>wxr_handlers := wxr_handlers r @ [h]\<rparr>"

definition submit_raw_stanza ::
    "('i \<Rightarrow> string \<Rightarrow> TrySendError option) \<Rightarrow> string \<Rightarrow> ('r, 'i) WxWireReceiver \<Rightarrow> WxWireReceiverError + unit" where
  "submit_raw_stanza try_ingress stanza r =
     (case wxr_ingress_tx r of
        None \<Rightarrow> Inl (WxLifecycle WxNotRunning)
      | Some tx \<Rightarrow>
          (case try_ingress tx stanza of
             None \<Rightarrow> Inr ()
           | Some Full \<Rightarrow> Inl (WxLifecycle WxIngressQueueFull)
           | Some Closed \<Rightarrow> Inl (WxLifecycle WxIngressQueueClosed)))"

definition wx_start ::
    "'rx \<Rightarrow> 'tx \<Rightarrow> 'h \<Rightarrow> 'i \<Rightarrow> (('rx, 'tx, 'h) ReceiverRuntime, 'i) WxWireReceiver \<Rightarrow>
     (WxWireReceiverError + unit) \<times> (('rx, 'tx, 'h) ReceiverRuntime, 'i) WxWireReceiver" where
  "wx_start rx tx h ingress r =
     (if is_running (wxr_runtime r) then (Inl (WxLifecycle WxAlreadyRunning), r)
      else (Inr (), r\<lparr>wxr_runtime := runtime_install rx tx h (wxr_runtime r), wxr_ingress_tx := Some ingress\<rparr>))"

definition wx_stop_receiver ::
    "(('rx, 'tx, 'h) ReceiverRuntime, 'i) WxWireReceiver \<Rightarrow>
     (WxWireReceiverError + unit) \<times> (('rx, 'tx, 'h) ReceiverRuntime, 'i) WxWireReceiver" where
  "wx_stop_receiver r =
     (Inr (), r\<lparr>wxr_runtime := snd (snd (runtime_stop (wxr_runtime r))), wxr_ingress_tx := None\<rparr>)"

definition wx_events ::
    "(('rx, 'tx, 'h) ReceiverRuntime, 'i) WxWireReceiver \<Rightarrow>
     (WxWireReceiverError + 'rx) \<times> (('rx, 'tx, 'h) ReceiverRuntime, 'i) WxWireReceiver" where
  "wx_events r =
     (let (res, rt) = take_events (WxLifecycle WxEventStreamTaken) (wxr_runtime r)
      in (res, r\<lparr>wxr_runtime := rt\<rparr>))"

end
