(* ===== verification/Wxwire_Client_Correct.thy ===== *)
theory Wxwire_Client_Correct
  imports Wxwire_Client "HOL-Library.Sublist"
begin

text \<open>
  What the users of the Weather Wire receiver rely on: no drop of the event queue goes
  unreported, connection events come in pairs, the reconnect delay doubles up to its maximum,
  and the decoded stanzas are delivered in order.
\<close>

subsection \<open>Accounting of dropped events\<close>

fun plain_wx_event :: "WxWireReceiverFrameEvent \<Rightarrow> bool" where
  "plain_wx_event (WxWarning (WxBackpressureDrop _ _)) = False"
| "plain_wx_event _ = True"

lemma recovered_plain: "plain_wx_event (WxWarning (recovered_warning e))"
  by (cases e) auto

lemma wx_feed_plain: "wx_feed X now s = Inr evs \<Longrightarrow> list_all plain_wx_event evs"
  by (auto simp: wx_feed_def wx_feed_message_def parse_message_to_file_def parse_timestamp_or_now_def
      recovered_plain Let_def
      split: sum.splits option.splits if_splits prod.splits WxWireReceiverError.splits)

fun reported_wx :: "wx_item \<Rightarrow> nat option" where
  "reported_wx (Inr (WxFrame (WxWarning (WxBackpressureDrop d _)))) = Some (unat d)"
| "reported_wx _ = None"

interpretation wx_bp: drop_reporting wx_build_drop_warning wx_count_warning_sent wx_copy_drop_total reported_wx
  by unfold_locales (simp add: wx_build_drop_warning_def)

definition wx_drops_reported :: "wx_item list \<Rightarrow> nat" where
  "wx_drops_reported items = sum_list (List.map_filter reported_wx items)"

definition wx_accounted :: "wx_state \<Rightarrow> bool" where
  "wx_accounted st \<longleftrightarrow>
     (let t = wxs_backpressure st in
      (bp_event_queue_drop_total t = - 1 \<or>
       wx_drops_reported (snd_delivered (wxs_sender st)) + unat (bp_dropped_since_last_report t)
         = unat (bp_event_queue_drop_total t))
      \<and> wxt_event_queue_drop_total (wxs_snapshot st) = bp_event_queue_drop_total t
      \<and> drops_counted t (wxs_sender st))"

lemma wx_accounted_iff:
  "wx_accounted st \<longleftrightarrow>
     wx_bp.balanced (wxs_backpressure st) (snd_delivered (wxs_sender st))
     \<and> wxt_event_queue_drop_total (wxs_snapshot st) = bp_event_queue_drop_total (wxs_backpressure st)
     \<and> drops_counted (wxs_backpressure st) (wxs_sender st)"
  by (simp add: wx_accounted_def wx_bp.balanced_def wx_drops_reported_def wx_bp.reports_def Let_def)

lemma wx_send_drop_total:
  assumes "try_send_with_backpressure_warning wx_build_drop_warning wx_count_warning_sent wx_copy_drop_total e
      (t, sn, s) = (t', sn', s')"
    and "wxt_event_queue_drop_total sn = bp_event_queue_drop_total t"
  shows "wxt_event_queue_drop_total sn' = bp_event_queue_drop_total t'"
  using assms
  by (auto simp: try_send_with_backpressure_warning_def wx_count_warning_sent_def wx_copy_drop_total_def
      clear_pending_report_def Let_def split: if_splits option.splits prod.splits)

lemma wx_accounted_send:
  assumes "wx_accounted st" and "reported_wx e = None"
  shows "wx_accounted (wx_try_send_event e st)"
proof -
  obtain t sn s where res: "try_send_with_backpressure_warning wx_build_drop_warning wx_count_warning_sent
      wx_copy_drop_total e (wxs_backpressure st, wxs_snapshot st, wxs_sender st) = (t, sn, s)"
    by (cases "try_send_with_backpressure_warning wx_build_drop_warning wx_count_warning_sent
      wx_copy_drop_total e (wxs_backpressure st, wxs_snapshot st, wxs_sender st)")
  then show ?thesis
    using assms wx_bp.balanced_send [OF _ assms(2) res] wx_send_drop_total [OF res] drops_counted_send [OF _ res]
    by (simp add: wx_accounted_iff wx_try_send_event_def)
qed

lemma wx_accounted_snapshot:
  "(\<And>sn. wxt_event_queue_drop_total (f sn) = wxt_event_queue_drop_total sn) \<Longrightarrow>
     wx_accounted (wx_on_snapshot f st) = wx_accounted st"
  by (simp add: wx_accounted_def wx_on_snapshot_def)

lemma wx_accounted_other [simp]:
  "wx_accounted (wx_update_telemetry_sink st) = wx_accounted st"
  "wx_accounted (st\<lparr>wxs_transport := x\<rparr>) = wx_accounted st"
  "wx_accounted (st\<lparr>wxs_last_message_time := n\<rparr>) = wx_accounted st"
  "wx_accounted (st\<lparr>wxs_reconnect_backoff := d\<rparr>) = wx_accounted st"
  "wx_accounted (back_off b st) = wx_accounted st"
  by (simp_all add: wx_accounted_def wx_update_telemetry_sink_def back_off_def)

lemma count_frame_drop_total [simp]:
  "wxt_event_queue_drop_total (wx_count_frame ev sn) = wxt_event_queue_drop_total sn"
  by (simp add: wx_count_frame_def split: WxWireReceiverFrameEvent.splits)

lemma wx_accounted_handlers: "wx_accounted st \<Longrightarrow> wx_accounted (wx_run_handlers hs ev st)"
  by (induction hs arbitrary: st)
    (auto simp: Let_def wx_accounted_snapshot wx_accounted_send split: sum.splits)

lemma plain_wx_not_reported: "plain_wx_event ev \<Longrightarrow> reported_wx (Inr (WxFrame ev)) = None"
  by (cases "Inr (WxFrame ev) :: wx_item" rule: reported_wx.cases) auto

lemma wx_accounted_dispatch:
  "wx_accounted st \<Longrightarrow> list_all plain_wx_event evs \<Longrightarrow> wx_accounted (dispatch_frame_events hs evs st)"
  by (induction evs arbitrary: st)
    (auto simp: wx_accounted_send wx_accounted_handlers plain_wx_not_reported wx_accounted_snapshot)

lemma wx_accounted_steps:
  assumes "wx_accounted st"
  shows "wx_accounted (wx_stop st)" "wx_accounted (count_stop st)" "wx_accounted (count_reconnect st)"
    "wx_accounted (connect_single_endpoint st)" "wx_accounted (warn_transport hs m st)"
    "wx_accounted (decode_stanza X hs now now_utc raw st)"
proof -
  show "wx_accounted (decode_stanza X hs now now_utc raw st)"
    using assms
    by (auto simp: decode_stanza_def Let_def wx_accounted_snapshot dest: wx_feed_plain
        intro!: wx_accounted_dispatch wx_accounted_send wx_accounted_handlers split: sum.splits)
qed (use assms in \<open>auto simp: wx_stop_def count_stop_def count_reconnect_def connect_single_endpoint_def
      warn_transport_def wx_accounted_snapshot intro!: wx_accounted_send wx_accounted_dispatch wx_accounted_handlers\<close>)

lemma wx_accounted_select:
  "wx_accounted st \<Longrightarrow> wx_accounted (snd (select_step X cfg hs inp st))"
  by (auto simp: select_step_def Let_def wx_accounted_snapshot
      intro!: wx_accounted_steps wx_accounted_send split: wx_input.splits option.splits)

lemma wx_accounted_connected:
  assumes "wx_accounted st"
  shows "wx_accounted (snd (connected_round X cfg hs rnd st))"
  using wx_accounted_select [OF assms, of X cfg hs "rnd_input rnd"]
  by (auto simp: connected_round_def intro!: wx_accounted_steps split: prod.splits NextAction.splits)

lemma wx_accounted_step:
  "wx_accounted st \<Longrightarrow> wx_accounted (snd (weather_wire_step X cfg hs rnd st))"
  by (auto simp: weather_wire_step_def Let_def
      intro!: wx_accounted_steps wx_accounted_connected wx_accounted_send split: sum.splits)

lemma wx_accounted_loop:
  "wx_accounted st \<Longrightarrow> wx_accounted (snd (weather_wire_loop X cfg hs rnds st))"
proof (induction rnds arbitrary: st)
  case (Cons rnd rnds)
  show ?case
    using wx_accounted_step [OF Cons.prems, of X cfg hs rnd] Cons.IH
    by (auto split: prod.splits bool.splits)
qed simp

subsection \<open>An accepting queue\<close>

definition accepting :: "wx_state \<Rightarrow> bool" where
  "accepting st \<longleftrightarrow> snd_env (wxs_sender st) = (\<lambda>_. None) \<and> \<not> has_pending_report (wxs_backpressure st)"

definition delivered :: "wx_state \<Rightarrow> wx_item list" where
  "delivered st = snd_delivered (wxs_sender st)"

lemma accepting_send [simp]:
  assumes "accepting st"
  shows "accepting (wx_try_send_event e st)" "delivered (wx_try_send_event e st) = delivered st @ [e]"
  using assms
  by (auto simp: accepting_def delivered_def wx_try_send_event_def try_send_with_backpressure_warning_def
      try_send_def Let_def)

lemma send_keeps [simp]:
  "wxs_transport (wx_try_send_event e st) = wxs_transport st"
  "wxs_reconnect_backoff (wx_try_send_event e st) = wxs_reconnect_backoff st"
  by (simp_all add: wx_try_send_event_def split: prod.splits)

lemma snapshot_keeps [simp]:
  "accepting (wx_on_snapshot f st) = accepting st" "delivered (wx_on_snapshot f st) = delivered st"
  "wxs_transport (wx_on_snapshot f st) = wxs_transport st"
  "wxs_reconnect_backoff (wx_on_snapshot f st) = wxs_reconnect_backoff st"
  by (simp_all add: accepting_def delivered_def wx_on_snapshot_def)

lemma update_keeps [simp]:
  "accepting (wx_update_telemetry_sink st) = accepting st" "delivered (wx_update_telemetry_sink st) = delivered st"
  "wxs_transport (wx_update_telemetry_sink st) = wxs_transport st"
  "wxs_reconnect_backoff (wx_update_telemetry_sink st) = wxs_reconnect_backoff st"
  "accepting (st\<lparr>wxs_transport := x\<rparr>) = accepting st" "delivered (st\<lparr>wxs_transport := x\<rparr>) = delivered st"
  "accepting (st\<lparr>wxs_last_message_time := n\<rparr>) = accepting st"
  "delivered (st\<lparr>wxs_last_message_time := n\<rparr>) = delivered st"
  "accepting (st\<lparr>wxs_reconnect_backoff := d\<rparr>) = accepting st"
  "delivered (st\<lparr>wxs_reconnect_backoff := d\<rparr>) = delivered st"
  by (simp_all add: accepting_def delivered_def wx_update_telemetry_sink_def)

subsection \<open>Connection events\<close>

text \<open>
  Whether the events seen so far leave the link up: \<open>None\<close> when a link that is up comes up
  again or one that is down goes down.
\<close>

fun link_state :: "bool \<Rightarrow> wx_item list \<Rightarrow> bool option" where
  "link_state up [] = Some up"
| "link_state up (Inr (WxConnected _) # es) = (if up then None else link_state True es)"
| "link_state up (Inr WxDisconnected # es) = (if up then link_state False es else None)"
| "link_state up (_ # es) = link_state up es"

lemma link_state_append:
  "link_state up (xs @ ys) = (case link_state up xs of None \<Rightarrow> None | Some up' \<Rightarrow> link_state up' ys)"
  by (induction up xs rule: link_state.induct) auto

definition linked :: "wx_state \<Rightarrow> bool" where
  "linked st \<longleftrightarrow> accepting st \<and> link_state False (delivered st) = Some (wxs_transport st \<noteq> None)"

definition unlinked :: "wx_state \<Rightarrow> bool" where
  "unlinked st \<longleftrightarrow>
     link_state False (delivered st) = Some False
     \<or> (\<exists>items. delivered st = items @ [Inr WxDisconnected] \<and> link_state False items = Some False)"

lemma linked_frame [simp]: "linked st \<Longrightarrow> linked (wx_try_send_event (Inr (WxFrame ev)) st)"
  "linked st \<Longrightarrow> linked (wx_try_send_event (Inr (WxTelemetry sn)) st)"
  by (simp_all add: linked_def link_state_append)

lemma linked_keeps [simp]:
  "linked (wx_on_snapshot f st) = linked st" "linked (wx_update_telemetry_sink st) = linked st"
  "linked (st\<lparr>wxs_last_message_time := n\<rparr>) = linked st"
  "linked (st\<lparr>wxs_reconnect_backoff := d\<rparr>) = linked st"
  "linked (back_off b st) = linked st"
  by (simp_all add: linked_def back_off_def)

lemma linked_handlers: "linked st \<Longrightarrow> linked (wx_run_handlers hs ev st)"
  by (induction hs arbitrary: st) (auto simp: Let_def split: sum.splits)

lemma linked_dispatch: "linked st \<Longrightarrow> linked (dispatch_frame_events hs evs st)"
  by (induction evs arbitrary: st) (simp_all add: linked_handlers)

lemma linked_steps [simp]:
  "linked (count_stop st) = linked st" "linked (count_reconnect st) = linked st"
  "linked (connect_single_endpoint st) = linked st"
  "linked st \<Longrightarrow> linked (warn_transport hs m st)"
  "linked st \<Longrightarrow> linked (decode_stanza X hs now now_utc raw st)"
  by (simp_all add: count_stop_def count_reconnect_def connect_single_endpoint_def warn_transport_def
      decode_stanza_def Let_def linked_dispatch linked_handlers split: sum.splits)

lemma transport_handlers [simp]: "wxs_transport (wx_run_handlers hs ev st) = wxs_transport st"
  by (induction hs arbitrary: st) (auto simp: Let_def split: sum.splits)

lemma transport_dispatch [simp]: "wxs_transport (dispatch_frame_events hs evs st) = wxs_transport st"
  by (induction evs arbitrary: st) simp_all

lemma transport_steps [simp]:
  "wxs_transport (count_stop st) = wxs_transport st" "wxs_transport (count_reconnect st) = wxs_transport st"
  "wxs_transport (connect_single_endpoint st) = wxs_transport st"
  "wxs_transport (warn_transport hs m st) = wxs_transport st"
  "wxs_transport (decode_stanza X hs now now_utc raw st) = wxs_transport st"
  by (simp_all add: count_stop_def count_reconnect_def connect_single_endpoint_def warn_transport_def
      decode_stanza_def Let_def split: sum.splits)

lemma linked_select:
  "linked st \<Longrightarrow> linked (snd (select_step X cfg hs inp st))
     \<and> wxs_transport (snd (select_step X cfg hs inp st)) = wxs_transport st"
  by (auto simp: select_step_def Let_def split: wx_input.splits option.splits)

lemma stop_up:
  "linked st \<Longrightarrow> wxs_transport st \<noteq> None \<Longrightarrow> linked (wx_stop (count_reconnect (st\<lparr>wxs_transport := None\<rparr>)))"
  by (auto simp: linked_def wx_stop_def count_reconnect_def link_state_append)

lemma stop_unlinked_same: "linked st \<Longrightarrow> unlinked (wx_stop st)"
  by (cases "wxs_transport st") (auto simp: linked_def unlinked_def wx_stop_def link_state_append)

lemma stop_unlinked: "linked st \<Longrightarrow> unlinked (wx_stop (st\<lparr>wxs_transport := x\<rparr>))"
  by (cases "wxs_transport st") (auto simp: linked_def unlinked_def wx_stop_def link_state_append)

definition linked_result :: "bool \<times> wx_state \<Rightarrow> bool" where
  "linked_result r \<longleftrightarrow> (if fst r then unlinked (snd r) else linked (snd r))"

lemma linked_result_simps [simp]:
  "linked_result (True, st) = unlinked st" "linked_result (False, st) = linked st"
  by (simp_all add: linked_result_def)

lemma linked_connected_round:
  assumes "linked st" and "wxs_transport st \<noteq> None"
  shows "linked_result (connected_round X cfg hs rnd st)"
proof -
  obtain action st1 where sel: "select_step X cfg hs (rnd_input rnd) st = (action, st1)" by fastforce
  then have "linked st1" "wxs_transport st1 \<noteq> None"
    using linked_select [OF assms(1), of X cfg hs "rnd_input rnd"] assms(2) by auto
  then show ?thesis
    using sel stop_up [of st1] stop_unlinked [of st1 None]
    by (cases action) (auto simp: linked_result_def connected_round_def)
qed

lemma linked_step:
  assumes "linked st"
  shows "linked_result (weather_wire_step X cfg hs rnd st)"
proof (cases "wxs_transport st")
  case None
  have up: "linked ((wx_update_telemetry_sink (wx_try_send_event (Inr (WxConnected label))
      ((connect_single_endpoint st)\<lparr>wxs_reconnect_backoff := d, wxs_last_message_time := n\<rparr>)))
      \<lparr>wxs_transport := Some label\<rparr>)" for label d n
    using assms None by (simp add: linked_def connect_single_endpoint_def link_state_append)
  show ?thesis
    using assms None stop_unlinked [of "count_stop st" None]
    by (auto simp: weather_wire_step_def Let_def intro!: linked_connected_round up split: sum.splits)
next
  case (Some label)
  then show ?thesis
    using assms linked_connected_round [of st X cfg hs rnd] stop_unlinked [of "count_stop st" None]
    by (auto simp: weather_wire_step_def)
qed

lemma linked_loop: "linked st \<Longrightarrow> linked_result (weather_wire_loop X cfg hs rnds st)"
proof (induction rnds arbitrary: st)
  case Nil
  then show ?case by (simp add: linked_result_def)
next
  case (Cons rnd rnds)
  obtain fin st1 where step: "weather_wire_step X cfg hs rnd st = (fin, st1)" by fastforce
  then show ?case
    using linked_step [OF Cons.prems, of X cfg hs rnd] Cons.IH by (cases fin) (auto simp: linked_result_def)
qed

subsection \<open>Backoff\<close>

definition failing_round :: "wx_round \<Rightarrow> bool" where
  "failing_round rnd \<longleftrightarrow>
     \<not> rnd_shutdown rnd \<and> \<not> rnd_backoff_interrupted rnd \<and> (\<exists>err. rnd_connect rnd = Inl err)"

lemma backoff_handlers [simp]: "wxs_reconnect_backoff (wx_run_handlers hs ev st) = wxs_reconnect_backoff st"
  by (induction hs arbitrary: st) (auto simp: Let_def split: sum.splits)

lemma backoff_dispatch [simp]:
  "wxs_reconnect_backoff (dispatch_frame_events hs evs st) = wxs_reconnect_backoff st"
  by (induction evs arbitrary: st) simp_all

lemma failing_step:
  assumes "failing_round rnd" and "wxs_transport st = None"
  obtains st' where "weather_wire_step X cfg hs rnd st = (False, st')" "wxs_transport st' = None"
    "wxs_reconnect_backoff st' = min (2 * wxs_reconnect_backoff st) RECONNECT_BACKOFF_MAX"
  using assms
  by (auto simp: failing_round_def weather_wire_step_def Let_def back_off_def count_reconnect_def
      warn_transport_def connect_single_endpoint_def mult.commute)

lemma failing_loop:
  assumes "list_all failing_round rnds" and "wxs_transport st = None"
    and "wxs_reconnect_backoff st \<le> RECONNECT_BACKOFF_MAX"
  shows "\<exists>st'. weather_wire_loop X cfg hs rnds st = (False, st')
    \<and> wxs_reconnect_backoff st' = min (2 ^ length rnds * wxs_reconnect_backoff st) RECONNECT_BACKOFF_MAX"
  using assms
proof (induction rnds arbitrary: st)
  case (Cons rnd rnds)
  obtain st1 where step: "weather_wire_step X cfg hs rnd st = (False, st1)" "wxs_transport st1 = None"
    "wxs_reconnect_backoff st1 = min (2 * wxs_reconnect_backoff st) RECONNECT_BACKOFF_MAX"
    using Cons.prems failing_step [of rnd st X cfg hs] by auto
  have double: "min (2 ^ n * min (2 * b) m) m = min (2 ^ Suc n * b) m" for n b m :: nat
  proof (cases "2 * b \<le> m")
    case False
    have "1 * m \<le> 2 ^ n * m" "1 * (2 * b) \<le> 2 ^ n * (2 * b)" by (rule mult_le_mono; simp)+
    then have "min (2 ^ n * m) m = m" "min (2 ^ n * (2 * b)) m = m"
      using False by (intro min_absorb2, linarith)+
    then show ?thesis using False by (simp add: min_absorb2 mult_ac)
  qed (simp add: mult_ac)
  from Cons.IH [of st1] Cons.prems step show ?case by (auto simp: double)
qed auto

subsection \<open>Decoded stanzas\<close>

definition decoded :: "('el, 'msg) wx_ext \<Rightarrow> system_time \<times> string \<Rightarrow> WxWireReceiverFrameEvent list" where
  "decoded X st =
     (case wx_feed X (fst st) (snd st) of
        Inr evs \<Rightarrow> evs
      | Inl err \<Rightarrow> [WxWarning (WxDecoderRecovered (wx_receiver_error_text err))])"

text \<open>
  The stanzas that a run receives, with the time of each: none after a shutdown, none in a round that
  fails to connect. The flag tells whether a transport is connected.
\<close>

fun input_stanzas :: "wx_input \<Rightarrow> (system_time \<times> string) list" where
  "input_stanzas (WxStanza _ now_utc stanza) = [(now_utc, stanza)]"
| "input_stanzas (WxIngress _ now_utc (Some stanza)) = [(now_utc, stanza)]"
| "input_stanzas _ = []"

fun received_stanzas :: "bool \<Rightarrow> wx_round list \<Rightarrow> (system_time \<times> string) list" where
  "received_stanzas connected [] = []"
| "received_stanzas connected (rnd # rnds) =
     (if rnd_shutdown rnd then []
      else if \<not> connected \<and> isl (rnd_connect rnd) then received_stanzas False rnds
      else input_stanzas (rnd_input rnd)
        @ (case rnd_input rnd of
             WxShutdownSeen \<Rightarrow> []
           | WxTransportFailed _ \<Rightarrow> received_stanzas False rnds
           | _ \<Rightarrow> received_stanzas True rnds))"

text \<open>
  What stems from a stanza among the delivered items: every frame event but the warnings about handlers,
  the transport and the queue.
\<close>

fun from_stanza :: "wx_item \<Rightarrow> bool" where
  "from_stanza (Inr (WxFrame (WxFile _))) = True"
| "from_stanza (Inr (WxFrame (WxWarning w))) =
     (case w of WxHandlerError _ \<Rightarrow> False | WxBackpressureDrop _ _ \<Rightarrow> False | WxTransportError _ \<Rightarrow> False | _ \<Rightarrow> True)"
| "from_stanza _ = False"

abbreviation frames :: "WxWireReceiverFrameEvent list \<Rightarrow> wx_item list" where
  "frames evs \<equiv> map (\<lambda>ev. Inr (WxFrame ev)) evs"

text \<open>
  \<open>adds items st st'\<close>: of the items that stem from stanzas, \<open>st'\<close> has delivered besides those
  of \<open>st\<close> some of \<open>items\<close> in order, and all of them when the queue accepts everything.
\<close>

definition adds :: "wx_item list \<Rightarrow> wx_state \<Rightarrow> wx_state \<Rightarrow> bool" where
  "adds items st st' \<longleftrightarrow>
     snd_env (wxs_sender st') = snd_env (wxs_sender st)
     \<and> (\<exists>d. filter from_stanza (delivered st') = filter from_stanza (delivered st) @ d \<and> subseq d items
          \<and> (snd_env (wxs_sender st) = (\<lambda>_. None) \<longrightarrow> d = items))"

lemma adds_trans: "adds xs st st1 \<Longrightarrow> adds ys st1 st2 \<Longrightarrow> adds (xs @ ys) st st2"
  unfolding adds_def by (metis append.assoc list_emb_append_mono)

lemma adds_none_trans: "adds xs st st1 \<Longrightarrow> adds [] st1 st2 \<Longrightarrow> adds xs st st2"
  using adds_trans [of xs st st1 "[]" st2] by simp

lemma adds_then: "adds [] st st1 \<Longrightarrow> adds xs st1 st2 \<Longrightarrow> adds xs st st2"
  using adds_trans [of "[]" st st1 xs st2] by simp

lemma adds_same: "wxs_sender st' = wxs_sender st \<Longrightarrow> adds [] st st'"
  by (simp add: adds_def delivered_def)

lemma adds_send: "adds (if from_stanza e then [e] else []) st (wx_try_send_event e st)"
proof -
  have "\<not> from_stanza (Inr (wx_build_drop_warning t))" for t
    by (simp add: wx_build_drop_warning_def)
  then show ?thesis
    by (auto simp: adds_def delivered_def wx_try_send_event_def try_send_with_backpressure_warning_def try_send_def
        Let_def split: option.splits prod.splits)
qed

lemma adds_handlers: "adds [] st (wx_run_handlers hs ev st)"
proof (induction hs arbitrary: st)
  case (Cons h hs)
  show ?case
  proof (cases "h ev")
    case (Inl err)
    let ?st = "wx_on_snapshot (\<lambda>sn. sn\<lparr>wxt_warning_events_total := sat_add (wxt_warning_events_total sn) 1\<rparr>)
        (wx_on_snapshot (\<lambda>sn. sn\<lparr>wxt_handler_failures_total := sat_add (wxt_handler_failures_total sn) 1\<rparr>) st)"
    let ?e = "Inr (WxFrame (WxWarning (WxHandlerError (wx_receiver_error_text err))))"
    have "adds [] st ?st" by (rule adds_same) (simp add: wx_on_snapshot_def)
    moreover have "adds [] ?st (wx_try_send_event ?e ?st)" using adds_send [of ?e ?st] by simp
    ultimately show ?thesis using adds_then [OF _ adds_then [OF _ Cons.IH [of "wx_try_send_event ?e ?st"]]] Inl by (simp add: Let_def)
  qed (use Cons in simp)
qed (rule adds_same, simp)

lemma adds_dispatch: "adds (filter from_stanza (frames evs)) st (dispatch_frame_events hs evs st)"
proof (induction evs arbitrary: st)
  case (Cons ev evs)
  let ?st = "wx_run_handlers hs ev (wx_on_snapshot (wx_count_frame ev) st)"
  have "adds [] st (wx_on_snapshot (wx_count_frame ev) st)" by (rule adds_same) (simp add: wx_on_snapshot_def)
  then have "adds [] st ?st" by (rule adds_then) (rule adds_handlers)
  from adds_then [OF this adds_send [of "Inr (WxFrame ev)"]] Cons.IH
  have "adds ((if from_stanza (Inr (WxFrame ev)) then [Inr (WxFrame ev)] else []) @ filter from_stanza (frames evs)) st
      (dispatch_frame_events hs evs (wx_try_send_event (Inr (WxFrame ev)) ?st))"
    by (rule adds_trans)
  then show ?case by (simp split: if_splits)
qed (simp add: adds_same)

lemma recovered_from_stanza: "from_stanza (Inr (WxFrame (WxWarning (recovered_warning e))))"
  by (cases e) auto

lemma decoded_from_stanza: "filter from_stanza (frames (decoded X s)) = frames (decoded X s)"
proof -
  have "list_all from_stanza (frames evs)" if "wx_feed X now raw = Inr evs" for now raw evs
    using that
    by (auto simp: wx_feed_def wx_feed_message_def parse_message_to_file_def parse_timestamp_or_now_def
        recovered_from_stanza Let_def
        split: sum.splits option.splits if_splits prod.splits WxWireReceiverError.splits)
  then show ?thesis
    by (auto simp: decoded_def list_all_iff filter_id_conv split: sum.splits)
qed

lemma adds_update: "adds xs st st' \<Longrightarrow> adds xs st (wx_update_telemetry_sink st')"
  by (simp add: adds_def delivered_def wx_update_telemetry_sink_def)

lemma adds_decode: "adds (frames (decoded X (now_utc, raw))) st (decode_stanza X hs now now_utc raw st)"
proof -
  have "adds (frames (decoded X (now_utc, raw))) st' (dispatch_frame_events hs (decoded X (now_utc, raw)) st')" for st'
    using adds_dispatch [of "decoded X (now_utc, raw)" st' hs] by (simp only: decoded_from_stanza)
  then have "adds (frames (decoded X (now_utc, raw))) st
      (wx_update_telemetry_sink (dispatch_frame_events hs (decoded X (now_utc, raw)) st'))"
    if "wxs_sender st' = wxs_sender st" for st'
    using that adds_then [OF adds_same] adds_update by metis
  then show ?thesis
    by (auto simp: decode_stanza_def decoded_def Let_def wx_on_snapshot_def simp del: dispatch_frame_events.simps
        split: sum.splits)
qed

lemma adds_warn: "adds [] st (warn_transport hs m st)"
  using adds_dispatch [of "[WxWarning (WxTransportError m)]" st hs]
  by (simp add: warn_transport_def adds_update del: dispatch_frame_events.simps)

lemma adds_other_send: "\<not> from_stanza e \<Longrightarrow> adds [] st (wx_try_send_event e st)"
  using adds_send [of e st] by simp

lemma adds_stop: "adds xs st st1 \<Longrightarrow> wxs_sender st2 = wxs_sender st1 \<Longrightarrow> adds xs st (wx_stop st2)"
  unfolding wx_stop_def
  by (intro adds_update adds_none_trans [OF _ adds_other_send]) (simp_all add: adds_def delivered_def)

abbreviation stanza_frames :: "('el, 'msg) wx_ext \<Rightarrow> (system_time \<times> string) list \<Rightarrow> wx_item list" where
  "stanza_frames X stanzas \<equiv> frames (concat (map (decoded X) stanzas))"

lemma adds_tick:
  "wxs_sender st1 = wxs_sender st \<Longrightarrow> adds [] st (wx_update_telemetry_sink (wx_try_send_event (Inr (WxTelemetry t)) st1))"
  by (intro adds_update adds_then [OF adds_same adds_other_send]) simp_all

lemma adds_select:
  assumes "select_step X cfg hs inp st = (act, st1)"
  shows "adds (stanza_frames X (input_stanzas inp)) st st1"
proof (cases inp)
  case (WxIngress now now_utc raw)
  then show ?thesis
    using assms by (cases raw) (auto simp: select_step_def adds_decode adds_same)
next
  case (WxElapsed now)
  have "adds [] st ((warn_transport hs m st)\<lparr>wxs_last_message_time := now\<rparr>)" for m
    by (rule adds_none_trans [OF adds_warn adds_same]) simp
  then show ?thesis using assms WxElapsed by (auto simp: select_step_def adds_same split: if_splits)
next
  case WxTelemetryTick
  then show ?thesis using assms by (auto simp: select_step_def Let_def wx_on_snapshot_def adds_tick)
next
  case WxShutdownSeen
  then show ?thesis using assms by (auto simp: select_step_def count_stop_def wx_on_snapshot_def adds_same)
qed (use assms in \<open>auto simp: select_step_def adds_decode adds_warn\<close>)

lemma select_transport [simp]:
  "select_step X cfg hs inp st = (act, st1) \<Longrightarrow> wxs_transport st1 = wxs_transport st"
  by (auto simp: select_step_def Let_def split: wx_input.splits option.splits if_splits)

lemma select_action:
  "select_step X cfg hs inp st = (act, st1) \<Longrightarrow>
     act = (case inp of WxShutdownSeen \<Rightarrow> Shutdown | WxTransportFailed _ \<Rightarrow> Reconnect | _ \<Rightarrow> Stay)"
  by (auto simp: select_step_def Let_def split: wx_input.splits option.splits if_splits)

lemma back_off_keeps [simp]:
  "wxs_sender (back_off i st) = wxs_sender st" "wxs_transport (back_off i st) = wxs_transport st"
  by (simp_all add: back_off_def)

lemma adds_connected:
  assumes "connected_round X cfg hs rnd st = (fin, st1)"
  shows "adds (stanza_frames X (input_stanzas (rnd_input rnd))) st st1"
proof -
  obtain act st0 where sel: "select_step X cfg hs (rnd_input rnd) st = (act, st0)" by fastforce
  have stop: "adds (stanza_frames X (input_stanzas (rnd_input rnd))) st (wx_stop st2)"
    if "wxs_sender st2 = wxs_sender st0" for st2
    using adds_stop [OF adds_select [OF sel] that] .
  show ?thesis
  proof (cases act)
    case Stay
    with assms adds_select [OF sel] show ?thesis by (simp add: connected_round_def sel)
  next
    case Shutdown
    with assms stop [of "st0\<lparr>wxs_transport := None\<rparr>"] show ?thesis by (simp add: connected_round_def sel)
  next
    case Reconnect
    let ?st2 = "wx_stop (count_reconnect (st0\<lparr>wxs_transport := None\<rparr>))"
    have "adds (stanza_frames X (input_stanzas (rnd_input rnd))) st ?st2"
      by (rule stop) (simp add: count_reconnect_def wx_on_snapshot_def)
    then have "adds (stanza_frames X (input_stanzas (rnd_input rnd))) st (back_off (rnd_backoff_interrupted rnd) ?st2)"
      by (rule adds_none_trans) (simp add: adds_same)
    with assms Reconnect show ?thesis by (simp add: connected_round_def sel)
  qed
qed

lemma connected_round_ends:
  assumes "connected_round X cfg hs rnd st = (fin, st1)" and "wxs_transport st \<noteq> None"
  shows "fin \<longleftrightarrow> rnd_input rnd = WxShutdownSeen"
    and "\<not> fin \<Longrightarrow> wxs_transport st1 = None \<longleftrightarrow> (\<exists>e. rnd_input rnd = WxTransportFailed e)"
proof -
  obtain act st0 where sel: "select_step X cfg hs (rnd_input rnd) st = (act, st0)" by fastforce
  show "fin \<longleftrightarrow> rnd_input rnd = WxShutdownSeen"
    and "\<not> fin \<Longrightarrow> wxs_transport st1 = None \<longleftrightarrow> (\<exists>e. rnd_input rnd = WxTransportFailed e)"
    using assms select_action [OF sel] select_transport [OF sel]
    by (auto simp: connected_round_def sel wx_stop_def split: wx_input.splits)
qed

lemma adds_loop:
  "weather_wire_loop X cfg hs rnds st = (fin, st') \<Longrightarrow>
     adds (stanza_frames X (received_stanzas (wxs_transport st \<noteq> None) rnds)) st st'"
proof (induction rnds arbitrary: st)
  case Nil
  then show ?case by (auto intro: adds_same)
next
  case (Cons rnd rnds)
  have connected: ?case
    if up: "\<not> rnd_shutdown rnd" "wxs_transport st \<noteq> None \<or> \<not> isl (rnd_connect rnd)"
      and st1: "adds [] st st1" "wxs_transport st1 \<noteq> None"
      and step: "weather_wire_step X cfg hs rnd st = connected_round X cfg hs rnd st1" for st1
  proof -
    obtain fin1 st2 where con: "connected_round X cfg hs rnd st1 = (fin1, st2)" by fastforce
    have now: "adds (stanza_frames X (input_stanzas (rnd_input rnd))) st st2"
      by (rule adds_then [OF st1(1) adds_connected [OF con]])
    note ends = connected_round_ends [OF con st1(2)]
    show ?thesis
    proof (cases fin1)
      case True
      then show ?thesis using Cons.prems now ends(1) up by (auto simp: step con)
    next
      case False
      then have "adds (stanza_frames X (received_stanzas (wxs_transport st2 \<noteq> None) rnds)) st2 st'"
        using Cons step con by auto
      from adds_trans [OF now this] show ?thesis
        using False ends up by (auto split: wx_input.splits)
    qed
  qed
  show ?case
  proof (cases "rnd_shutdown rnd")
    case True
    have "adds [] st (wx_stop ((count_stop st)\<lparr>wxs_transport := None\<rparr>))"
      by (rule adds_stop [OF adds_same [OF refl]]) (simp add: count_stop_def wx_on_snapshot_def)
    with True Cons.prems show ?thesis by (auto simp: weather_wire_step_def)
  next
    case False
    show ?thesis
    proof (cases "wxs_transport st = None \<and> isl (rnd_connect rnd)")
      case down: True
      then obtain err where err: "rnd_connect rnd = Inl err" by (auto simp: isl_def)
      let ?st1 = "back_off (rnd_backoff_interrupted rnd)
        (count_reconnect (warn_transport hs (wx_receiver_error_text err) (connect_single_endpoint st)))"
      have "adds [] (connect_single_endpoint st) ?st1"
        by (rule adds_none_trans [OF adds_warn adds_same]) (simp add: count_reconnect_def wx_on_snapshot_def)
      then have "adds [] st ?st1"
        by (rule adds_then [rotated]) (rule adds_same, simp add: connect_single_endpoint_def wx_on_snapshot_def)
      moreover have "adds (stanza_frames X (received_stanzas False rnds)) ?st1 st'"
        using Cons.IH [of ?st1] Cons.prems down err False by (simp add: weather_wire_step_def Let_def)
      ultimately show ?thesis using down err False by (simp add: adds_then)
    next
      case up: False
      show ?thesis
      proof (cases "wxs_transport st")
        case None
        with up obtain label where label: "rnd_connect rnd = Inr label" by (cases "rnd_connect rnd") auto
        let ?st0 = "(connect_single_endpoint st)\<lparr>wxs_reconnect_backoff := RECONNECT_BACKOFF_INITIAL,
            wxs_last_message_time := rnd_connected_at rnd\<rparr>"
        let ?st1 = "(wx_update_telemetry_sink (wx_try_send_event (Inr (WxConnected label)) ?st0))\<lparr>wxs_transport := Some label\<rparr>"
        have "adds [] st ?st0"
          by (rule adds_same) (simp add: connect_single_endpoint_def wx_on_snapshot_def)
        moreover have "adds [] ?st0 ?st1"
          by (rule adds_none_trans [OF adds_update [OF adds_other_send] adds_same]) simp_all
        ultimately have "adds [] st ?st1" by (rule adds_then)
        from connected [OF False _ this] show ?thesis
          using None label False by (simp add: weather_wire_step_def Let_def)
      next
        case (Some label)
        then show ?thesis
          using False by (intro connected [OF False _ adds_same [OF refl]]) (simp_all add: weather_wire_step_def)
      qed
    qed
  qed
qed

subsection \<open>Properties\<close>

text \<open>
  Whatever the network, the handlers and the consumer of the queue do, at every point of the
  run the events dropped so far are those that delivered warnings report plus those pending,
  and the telemetry shows their number (until the counter saturates).
\<close>

theorem wx_receiver_reports_every_drop:
  "wx_accounted (snd (run_weather_wire_loop X cfg hs shutdown_at_start start rounds (sender_new env) sink))"
proof -
  have "wx_accounted (wx_initial (sender_new env) sink start)"
    by (simp add: wx_accounted_def wx_initial_def sender_new_def tracker_default_def wx_telemetry_default_def
        wx_drops_reported_def drops_counted_def queue_drops_def map_filter_def)
  then show ?thesis
    by (auto simp: run_weather_wire_loop_def Let_def intro!: wx_accounted_steps wx_accounted_loop)
qed

text \<open>
  While the queue accepts every event, \<open>Connected\<close> and \<open>Disconnected\<close> alternate: as long as
  the task runs, the last of them tells whether a transport is connected, and after it has
  returned the link is down, with at most one further \<open>Disconnected\<close> as the very last event.
\<close>

theorem wx_connection_events_alternate:
  "case run_weather_wire_loop X cfg hs shutdown_at_start start rounds (sender_new (\<lambda>_. None)) sink of
     (False, st) \<Rightarrow> link_state False (delivered st) = Some (wxs_transport st \<noteq> None)
   | (True, st) \<Rightarrow> link_state False (delivered st) = Some False
       \<or> (\<exists>items. delivered st = items @ [Inr WxDisconnected] \<and> link_state False items = Some False)"
proof -
  let ?st = "wx_initial (sender_new (\<lambda>_. None)) sink start"
  have "linked ?st"
    by (simp add: linked_def accepting_def delivered_def wx_initial_def sender_new_def tracker_default_def
        has_pending_report_def)
  then have "linked_result (run_weather_wire_loop X cfg hs shutdown_at_start start rounds (sender_new (\<lambda>_. None)) sink)"
    using stop_unlinked_same [of "count_stop ?st"] linked_loop
    by (auto simp: run_weather_wire_loop_def Let_def)
  then show ?thesis by (auto simp: linked_result_def linked_def unlinked_def split: prod.splits bool.splits)
qed

text \<open>
  After \<open>n\<close> connection attempts that all failed, the task is still running and waits
  \<open>2 ^ n\<close> seconds before the next one, but never more than 30.
\<close>

theorem wx_backoff_doubles:
  assumes "list_all failing_round rounds"
  shows "\<exists>st. run_weather_wire_loop X cfg hs False start rounds s sink = (False, st)
    \<and> wxs_reconnect_backoff st = from_secs (min (2 ^ length rounds) 30)"
proof -
  have "min (2 ^ n * 1000000000) 30000000000 = min (2 ^ n) 30 * (1000000000 :: nat)" for n
    by (simp add: min_def)
  then show ?thesis
    using failing_loop [OF assms, of "wx_initial s sink start" X cfg hs]
    by (auto simp: run_weather_wire_loop_def wx_initial_def RECONNECT_BACKOFF_INITIAL_def
        RECONNECT_BACKOFF_MAX_def from_secs_def)
qed

definition sample_decoder :: "(unit, unit) wx_ext" where
  "sample_decoder =
     \<lparr>el_parse = (\<lambda>_. Inr ()), el_name = (\<lambda>_. ''x''), el_ns = (\<lambda>_. ''nwws-oi''), el_attr = (\<lambda>_ _. None),
      el_text = (\<lambda>_. []), msg_of_element = (\<lambda>_. Some ()), msg_best_body = (\<lambda>_. None),
      msg_best_subject = (\<lambda>_. None), msg_payloads = (\<lambda>_. []), delay_stamp = (\<lambda>_. None),
      rfc3339_parse = (\<lambda>_. None)\<rparr>"

definition sample_failing_round :: wx_round where
  "sample_failing_round =
     \<lparr>rnd_shutdown = False, rnd_connect = Inl (WxTransport WxConnectTimeout), rnd_connected_at = 0,
      rnd_input = WxTelemetryTick, rnd_backoff_interrupted = False\<rparr>"

theorem wx_backoff_doubles_witness:
  "\<exists>st. run_weather_wire_loop sample_decoder WxWireReceiverConfig_default [] False 0
      (replicate 3 sample_failing_round) (sender_new (\<lambda>_. None)) wx_telemetry_default = (False, st)
    \<and> wxs_reconnect_backoff st = from_secs 8"
proof -
  have "list_all failing_round (replicate 3 sample_failing_round)"
    by (simp add: sample_failing_round_def failing_round_def list_all_iff)
  from wx_backoff_doubles [OF this] show ?thesis by simp
qed

text \<open>
  C26: Over any run of the receiver, with telemetry ticks, idle periods, lost connections, failing
  attempts to connect and failing handlers in between, the frame events that are delivered, apart from
  warnings about handlers, the transport and the queue, are what the decoder makes of the stanzas
  received while connected (from the transport or submitted), up to the shutdown: a file or warnings
  for each, in order. No other such event is delivered whatever the queue refuses, and none is missing
  when it accepts every event.
\<close>

theorem wx_delivers_decoded_stanzas:
  assumes "run_weather_wire_loop X cfg hs False start rounds (sender_new env) sink = (fin, st)"
  shows "subseq (filter from_stanza (delivered st))
      (map (\<lambda>ev. Inr (WxFrame ev)) (concat (map (decoded X) (received_stanzas False rounds))))
    \<and> (env = (\<lambda>_. None) \<longrightarrow> filter from_stanza (delivered st) =
      map (\<lambda>ev. Inr (WxFrame ev)) (concat (map (decoded X) (received_stanzas False rounds))))"
proof -
  let ?st = "wx_initial (sender_new env) sink start"
  have "adds (stanza_frames X (received_stanzas (wxs_transport ?st \<noteq> None) rounds)) ?st st"
    using assms by (intro adds_loop [of X cfg hs rounds ?st fin st]) (simp add: run_weather_wire_loop_def)
  then show ?thesis
    by (auto simp: adds_def delivered_def wx_initial_def sender_new_def)
qed

definition sample_rounds :: "wx_round list" where
  "sample_rounds =
     [sample_failing_round, sample_failing_round\<lparr>rnd_connect := Inr ''t''\<rparr>,
      sample_failing_round\<lparr>rnd_input := WxStanza 1 2 ''<x/>''\<rparr>,
      sample_failing_round\<lparr>rnd_input := WxTransportFailed (WxTransport WxConnectTimeout)\<rparr>,
      sample_failing_round\<lparr>rnd_connect := Inr ''t'', rnd_input := WxIngress 3 4 (Some ''<y/>'')\<rparr>]"

theorem wx_delivers_decoded_stanzas_witness:
  "\<exists>fin st. run_weather_wire_loop sample_decoder WxWireReceiverConfig_default [\<lambda>_. Inl (WxTransport WxConnectTimeout)]
       False 0 sample_rounds (sender_new (\<lambda>_. None)) wx_telemetry_default = (fin, st)
     \<and> filter from_stanza (delivered st) = replicate 2 (Inr (WxFrame (WxWarning WxMissingNwwsNamespace)))"
proof -
  obtain fin st where run: "run_weather_wire_loop sample_decoder WxWireReceiverConfig_default
      [\<lambda>_. Inl (WxTransport WxConnectTimeout)] False 0 sample_rounds (sender_new (\<lambda>_. None)) wx_telemetry_default = (fin, st)"
    by fastforce
  have "received_stanzas False sample_rounds = [(2, ''<x/>''), (4, ''<y/>'')]"
    by (simp add: sample_rounds_def sample_failing_round_def)
  moreover have "decoded sample_decoder s = [WxWarning WxMissingNwwsNamespace]" for s
    by (simp add: decoded_def sample_decoder_def wx_feed_def parse_message_element_def
        wx_feed_message_def parse_message_to_file_def)
  ultimately have "filter from_stanza (delivered st) = replicate 2 (Inr (WxFrame (WxWarning WxMissingNwwsNamespace)))"
    using wx_delivers_decoded_stanzas [OF run] by (simp add: numeral_2_eq_2)
  with run show ?thesis by blast
qed

end
