(* ===== verification/Wxwire_Codec_Correct.thy ===== *)
theory Wxwire_Codec_Correct
  imports Wxwire_Codec
begin

text \<open>
  What a decoded Weather Wire product guarantees: the framing of its data, from which the text
  of the payload can be read back, its file name, and the time stamps.
\<close>

subsection \<open>Trimming\<close>

lemma trim_last: "trim s \<noteq> [] \<Longrightarrow> last (trim s) \<noteq> CHR 0x0A"
proof
  assume ne: "trim s \<noteq> []" and nl: "last (trim s) = CHR 0x0A"
  have "[CHR 0x0A] \<in> set (map rev unicode_white_space)"
    by (simp add: unicode_white_space_def char_of_def bit_0)
  then have "\<not> starts_with (rev (trim s)) [CHR 0x0A]"
    unfolding trim_def trim_end_def using trim_seqs_done by fastforce
  moreover have "rev (trim s) = CHR 0x0A # tl (rev (trim s))"
    using ne nl by (metis hd_rev list.collapse rev_is_Nil_conv)
  ultimately show False by (metis append_Cons append_Nil starts_with_iff)
qed

subsection \<open>Line ends\<close>

abbreviation LFLF :: string where
  "LFLF \<equiv> [CHR 0x0A, CHR 0x0A]"

abbreviation CRCRLF :: string where
  "CRCRLF \<equiv> [CHR 0x0D, CHR 0x0D, CHR 0x0A]"

lemma replace_all_last:
  "xs \<noteq> [] \<Longrightarrow> last xs \<noteq> CHR 0x0A \<Longrightarrow>
     replace_all LFLF CRCRLF xs \<noteq> [] \<and> last (replace_all LFLF CRCRLF xs) = last xs"
proof (induction LFLF CRCRLF xs rule: replace_all.induct)
  case (2 x xs)
  show ?case
  proof (cases "starts_with (x # xs) LFLF")
    case True
    then obtain ys where "xs = CHR 0x0A # ys" "x = CHR 0x0A" by (auto simp: starts_with_iff)
    with 2 True show ?thesis by (cases ys) auto
  next
    case False
    with 2 show ?thesis by (cases xs) auto
  qed
qed simp

lemma noaaport_framing:
  assumes "body \<noteq> []" and "last body \<noteq> CHR 0x0A"
  shows "convert_to_noaaport body =
    [CHR 0x01] @ replace_all LFLF CRCRLF body @ CRCRLF @ [CHR 0x03]"
proof -
  let ?r = "replace_all LFLF CRCRLF body"
  have r: "?r \<noteq> []" "last ?r \<noteq> CHR 0x0A"
    using replace_all_last [OF assms] assms(2) by auto
  then have "hd (rev (CHR 0x01 # ?r)) \<noteq> CHR 0x0A" by (simp add: hd_rev)
  then have "\<not> ends_with (CHR 0x01 # ?r) [CHR 0x0A]"
    unfolding ends_with_def starts_with_iff by fastforce
  then show ?thesis by (simp add: convert_to_noaaport_def)
qed

text \<open>Reading the line ends back.\<close>

lemma replace_all_back_Cons:
  assumes "\<not> starts_with (x # xs) CRCRLF"
  shows "replace_all CRCRLF LFLF (x # xs) = x # replace_all CRCRLF LFLF xs"
  using assms by simp

lemma replace_all_inverse:
  "CHR 0x0D \<notin> set body \<Longrightarrow>
     replace_all CRCRLF LFLF (replace_all LFLF CRCRLF body @ tl_end) = body @ replace_all CRCRLF LFLF tl_end"
proof (induction LFLF CRCRLF body rule: replace_all.induct)
  case (2 x xs)
  show ?case
  proof (cases "starts_with (x # xs) LFLF")
    case True
    then obtain ys where ys: "xs = CHR 0x0A # ys" and x: "x = CHR 0x0A" by (auto simp: starts_with_iff)
    from 2 True show ?thesis by (simp add: ys x starts_with_def)
  next
    case False
    have "x \<noteq> CHR 0x0D" using "2.prems" by auto
    then have "\<not> starts_with (x # zs) CRCRLF" for zs by (auto simp: starts_with_iff)
    with 2 False show ?thesis by (simp del: replace_all.simps(2) add: replace_all.simps(2) [of LFLF] replace_all_back_Cons)
  qed
qed simp

subsection \<open>Decoded files\<close>

lemma wx_feed_cases:
  assumes "wx_feed X now stanza = Inr evs"
  obtains (recovered) w where "evs = [WxWarning w]"
  | (decoded) elem message parsed where "parse_message_element X (trim stanza) = Inr elem"
      "msg_of_element X elem = Some message" "parse_message_to_file X now message = Inr parsed"
      "evs = (case parsed_warning parsed of None \<Rightarrow> [] | Some w \<Rightarrow> [WxWarning w]) @ [WxFile (parsed_file parsed)]"
  using assms
  by (auto simp: wx_feed_def wx_feed_message_def split: sum.splits option.splits WxWireReceiverError.splits)

lemma parse_message_payload:
  assumes "parse_message_to_file X now message = Inr parsed"
  obtains payload where "payload \<in> set (msg_payloads X message)" "is_nwws_payload X payload"
    "trim (el_text X payload) \<noteq> []"
    "wx_data (parsed_file parsed) = bytes_of (convert_to_noaaport (trim (el_text X payload)))"
    "ends_with (wx_filename (parsed_file parsed)) ''.TXT''"
proof -
  have ext: "ends_with (build_filename a t c i u) ''.TXT''" for a t c i u
    by (simp add: build_filename_def Let_def ends_with_def starts_with_def)
  obtain payload where "find (is_nwws_payload X) (msg_payloads X message) = Some payload"
    using assms by (auto simp: parse_message_to_file_def split: option.splits)
  moreover from this have "payload \<in> set (msg_payloads X message)" "is_nwws_payload X payload"
    by (auto simp: find_Some_iff)
  ultimately show ?thesis
    using assms by (intro that [of payload])
      (auto simp: parse_message_to_file_def Let_def ext split: if_splits prod.splits)
qed

subsection \<open>Properties\<close>

text \<open>
  C27: The decoder returns one or two events. When one is a file, it is the last, its name ends
  in \<open>.TXT\<close>, and its data is the trimmed text of an NWWS-OI payload of the stanza between the
  NOAAPort start and end characters, with its blank lines converted and a line end added.
\<close>

theorem decoded_products_are_framed:
  assumes "wx_feed X now stanza = Inr evs" and "WxFile f \<in> set evs"
  shows "\<exists>elem message payload.
    parse_message_element X (trim stanza) = Inr elem \<and> msg_of_element X elem = Some message
    \<and> payload \<in> set (msg_payloads X message) \<and> is_nwws_payload X payload
    \<and> trim (el_text X payload) \<noteq> []
    \<and> wx_data f = bytes_of ([CHR 0x01] @ replace_all LFLF CRCRLF (trim (el_text X payload)) @ CRCRLF @ [CHR 0x03])
    \<and> ends_with (wx_filename f) ''.TXT'' \<and> last evs = WxFile f \<and> length evs \<le> 2"
  using assms(1)
proof (cases rule: wx_feed_cases)
  case (decoded elem message parsed)
  obtain payload where p: "payload \<in> set (msg_payloads X message)" "is_nwws_payload X payload"
    "trim (el_text X payload) \<noteq> []"
    "wx_data (parsed_file parsed) = bytes_of (convert_to_noaaport (trim (el_text X payload)))"
    "ends_with (wx_filename (parsed_file parsed)) ''.TXT''"
    by (rule parse_message_payload [OF decoded(3)])
  moreover have "f = parsed_file parsed"
    using assms(2) decoded(4) by (auto split: option.splits)
  ultimately show ?thesis
    using decoded noaaport_framing [OF p(3) trim_last [OF p(3)]]
    by (intro exI [of _ elem] exI [of _ message] exI [of _ payload]) (simp split: option.splits)
qed (use assms(2) in simp)

definition sample_product_ext :: "(unit, unit) wx_ext" where
  "sample_product_ext =
     \<lparr>el_parse = (\<lambda>_. Inr ()), el_name = (\<lambda>_. ''x''), el_ns = (\<lambda>_. ''nwws-oi''),
      el_attr = (\<lambda>_ a. if a = ''awipsid'' then Some ''AFDOKX'' else None),
      el_text = (\<lambda>_. ''ab''), msg_of_element = (\<lambda>_. Some ()), msg_best_body = (\<lambda>_. Some ''S''),
      msg_best_subject = (\<lambda>_. None), msg_payloads = (\<lambda>_. [()]), delay_stamp = (\<lambda>_. None),
      rfc3339_parse = (\<lambda>_. None)\<rparr>"

definition sample_product :: WxWireReceiverFile where
  "sample_product =
     \<lparr>wx_filename = ''AFDOKX.TXT'', wx_data = bytes_of (CHR 0x01 # ''ab'' @ CRCRLF @ [CHR 0x03]),
      wx_subject = ''S'', wx_id = [], wx_issue_utc = 7, wx_ttaaii = [], wx_cccc = [],
      wx_awipsid = ''AFDOKX'', wx_delay_stamp_utc = None\<rparr>"

lemma sample_product_decoded: "wx_feed sample_product_ext 7 ''<x/>'' = Inr [WxFile sample_product]"
proof -
  have "trim ''ab'' = ''ab''" "trim ''AFDOKX'' = ''AFDOKX''"
    by (rule trim_graphic; simp add: is_graphic_def)+
  then show ?thesis
    by (simp add: wx_feed_def parse_message_element_def wx_feed_message_def parse_message_to_file_def
        sample_product_ext_def is_nwws_payload_def trimmed_attr_def awips_attr_def message_subject_def
        parse_timestamp_or_now_def parse_rfc3339_to_system_time_def build_filename_def convert_to_noaaport_def
        sample_product_def ends_with_def starts_with_def)
qed

theorem decoded_products_are_framed_witness:
  "\<exists>elem message payload.
    parse_message_element sample_product_ext (trim ''<x/>'') = Inr elem
    \<and> msg_of_element sample_product_ext elem = Some message
    \<and> payload \<in> set (msg_payloads sample_product_ext message) \<and> is_nwws_payload sample_product_ext payload
    \<and> trim (el_text sample_product_ext payload) \<noteq> []
    \<and> wx_data sample_product = bytes_of ([CHR 0x01]
        @ replace_all LFLF CRCRLF (trim (el_text sample_product_ext payload)) @ CRCRLF @ [CHR 0x03])
    \<and> ends_with (wx_filename sample_product) ''.TXT'' \<and> last [WxFile sample_product] = WxFile sample_product
    \<and> length [WxFile sample_product] \<le> 2"
  by (rule decoded_products_are_framed [OF sample_product_decoded]) simp

text \<open>
  The NOAAPort form loses nothing: for a product text without carriage returns, taking the
  frame off and converting the line ends back gives the text followed by one blank line.
\<close>

theorem noaaport_roundtrip:
  assumes "body \<noteq> []" and "last body \<noteq> CHR 0x0A" and "CHR 0x0D \<notin> set body"
  shows "replace_all CRCRLF LFLF (butlast (tl (convert_to_noaaport body))) = body @ LFLF"
proof -
  have "butlast (tl (convert_to_noaaport body)) = replace_all LFLF CRCRLF body @ CRCRLF"
    by (simp add: noaaport_framing [OF assms(1,2)] butlast_append)
  then show ?thesis
    using replace_all_inverse [OF assms(3), of CRCRLF] by (simp add: starts_with_def)
qed

theorem noaaport_roundtrip_witness:
  "replace_all CRCRLF LFLF (butlast (tl (convert_to_noaaport (''line1'' @ LFLF @ ''line2'')))) =
     ''line1'' @ LFLF @ ''line2'' @ LFLF"
  using noaaport_roundtrip [of "''line1'' @ LFLF @ ''line2''"] by simp

text \<open>
  The conversion of a time stamp is exact for whole seconds and from the epoch on, and for no
  other time stamp: before the epoch it subtracts the nanoseconds that it should add.
\<close>

theorem time_stamp_before_epoch:
  "chrono_to_system_time seconds nanos = Some (seconds * 10 ^ 9 + int nanos) \<longleftrightarrow> 0 \<le> seconds \<or> nanos = 0"
  by (auto simp: chrono_to_system_time_def)

end
