(* ===== verification/Ingest.thy ===== *)
theory Ingest
  imports Receiver Assembler Wxwire_Client
begin

text \<open>
  The unified ingest receiver (\<open>ingest/model.rs\<close>, \<open>qbt_adapter.rs\<close>, \<open>wxwire_adapter.rs\<close>,
  \<open>receiver.rs\<close>): both receivers behind one lifecycle and one stream of events, with the QBT
  segments assembled into products on the way. A stream of events is the list of its items;
  each item of the QBT stream carries the time at which it is pulled.
\<close>

subsection \<open>model.rs\<close>

datatype ProductOrigin =
    OriginQbt
  | OriginWxWire string string "system_time option"

record ReceivedProduct =
  prod_filename :: string
  prod_data :: "byte list"
  prod_source_timestamp_utc :: system_time
  prod_origin :: ProductOrigin

datatype IngestTelemetry =
    TelemetryQbt QbtReceiverTelemetrySnapshot
  | TelemetryWxWire WxWireReceiverTelemetrySnapshot

datatype IngestWarning = WarningQbt QbtProtocolWarning | WarningWxWire WxWireReceiverWarning

datatype IngestEvent =
    Product ReceivedProduct
  | IngestConnected string
  | IngestDisconnected
  | IngestTelemetry IngestTelemetry
  | IngestWarning IngestWarning

datatype IngestError = ErrorQbt QbtReceiverError | ErrorWxWire WxWireReceiverError

fun ingest_error_text :: "IngestError \<Rightarrow> string" where
  "ingest_error_text (ErrorQbt e) = ''QBT receiver error: '' @ receiver_error_text e"
| "ingest_error_text (ErrorWxWire e) = ''Weather Wire receiver error: '' @ wx_receiver_error_text e"

definition product_of_qbt :: "QbtCompletedFile \<Rightarrow> ReceivedProduct" where
  "product_of_qbt f =
     \<lparr>prod_filename = file_filename f, prod_data = file_data f,
      prod_source_timestamp_utc = file_timestamp_utc f, prod_origin = OriginQbt\<rparr>"

definition product_of_wxwire :: "WxWireReceiverFile \<Rightarrow> ReceivedProduct" where
  "product_of_wxwire f =
     \<lparr>prod_filename = wx_filename f, prod_data = wx_data f, prod_source_timestamp_utc = wx_issue_utc f,
      prod_origin = OriginWxWire (wx_id f) (wx_subject f) (wx_delay_stamp_utc f)\<rparr>"

subsection \<open>qbt_adapter.rs\<close>

definition DEFAULT_DUPLICATE_CACHE_SIZE :: usize where
  "DEFAULT_DUPLICATE_CACHE_SIZE = 100"

type_synonym ingest_item = "IngestError + IngestEvent"

definition map_qbt_frame_event ::
    "asm_ext \<Rightarrow> instant \<Rightarrow> QbtFrameEvent \<Rightarrow> QbtFileAssembler \<Rightarrow> ingest_item option \<times> QbtFileAssembler" where
  "map_qbt_frame_event A now frame assembler =
     (case frame of
        DataBlock segment \<Rightarrow>
          (case push A now segment assembler of
             (Inr (Some file), assembler') \<Rightarrow> (Some (Inr (Product (product_of_qbt file))), assembler')
           | (Inr None, assembler') \<Rightarrow> (None, assembler')
           | (Inl err, assembler') \<Rightarrow> (Some (Inl (ErrorQbt err)), assembler'))
      | Warning warning \<Rightarrow> (Some (Inr (IngestWarning (WarningQbt warning))), assembler)
      | ServerListUpdate _ \<Rightarrow> (None, assembler))"

definition map_qbt_event ::
    "asm_ext \<Rightarrow> instant \<Rightarrow> receiver_item \<Rightarrow> QbtFileAssembler \<Rightarrow> ingest_item option \<times> QbtFileAssembler" where
  "map_qbt_event A now item assembler =
     (case item of
        Inr (Connected endpoint) \<Rightarrow> (Some (Inr (IngestConnected endpoint)), assembler)
      | Inr Disconnected \<Rightarrow> (Some (Inr IngestDisconnected), assembler)
      | Inr (Telemetry snapshot) \<Rightarrow> (Some (Inr (IngestTelemetry (TelemetryQbt snapshot))), assembler)
      | Inr (Frame frame) \<Rightarrow> map_qbt_frame_event A now frame assembler
      | Inl err \<Rightarrow> (Some (Inl (ErrorQbt err)), assembler))"

text \<open>\<open>scan\<close> over the assembler followed by \<open>filter_map\<close>.\<close>

fun scan_qbt_events ::
    "asm_ext \<Rightarrow> (instant \<times> receiver_item) list \<Rightarrow> QbtFileAssembler \<Rightarrow> ingest_item list \<times> QbtFileAssembler" where
  "scan_qbt_events A [] assembler = ([], assembler)"
| "scan_qbt_events A ((now, item) # items) assembler =
     (let (out, assembler1) = map_qbt_event A now item assembler;
          (outs, assembler2) = scan_qbt_events A items assembler1
      in ((case out of Some x \<Rightarrow> x # outs | None \<Rightarrow> outs), assembler2))"

definition adapt_qbt_events :: "asm_ext \<Rightarrow> (instant \<times> receiver_item) list \<Rightarrow> ingest_item list" where
  "adapt_qbt_events A items =
     fst (scan_qbt_events A items (assembler_new DEFAULT_DUPLICATE_CACHE_SIZE))"

subsection \<open>wxwire_adapter.rs\<close>

definition map_wxwire_frame_event :: "WxWireReceiverFrameEvent \<Rightarrow> ingest_item option" where
  "map_wxwire_frame_event frame =
     (case frame of
        WxFile file \<Rightarrow> Some (Inr (Product (product_of_wxwire file)))
      | WxWarning warning \<Rightarrow> Some (Inr (IngestWarning (WarningWxWire warning))))"

definition map_wxwire_event :: "wx_item \<Rightarrow> ingest_item option" where
  "map_wxwire_event item =
     (case item of
        Inr (WxConnected endpoint) \<Rightarrow> Some (Inr (IngestConnected endpoint))
      | Inr WxDisconnected \<Rightarrow> Some (Inr IngestDisconnected)
      | Inr (WxTelemetry snapshot) \<Rightarrow> Some (Inr (IngestTelemetry (TelemetryWxWire snapshot)))
      | Inr (WxFrame frame) \<Rightarrow> map_wxwire_frame_event frame
      | Inl err \<Rightarrow> Some (Inl (ErrorWxWire err)))"

definition adapt_wxwire_events :: "wx_item list \<Rightarrow> ingest_item list" where
  "adapt_wxwire_events items = List.map_filter map_wxwire_event items"

subsection \<open>receiver.rs\<close>

datatype IngestConfig = ConfigQbt QbtReceiverConfig | ConfigWxWire WxWireReceiverConfig

datatype ('q, 'w) IngestReceiver = InnerQbt 'q | InnerWxWire 'w

type_synonym ('rx, 'tx, 'h, 'i) ingest_receiver =
  "(('rx, 'tx, 'h) ReceiverRuntime QbtReceiver, (('rx, 'tx, 'h) ReceiverRuntime, 'i) WxWireReceiver) IngestReceiver"

definition ingest_build :: "IngestConfig \<Rightarrow> IngestError + ('rx, 'tx, 'h, 'i) ingest_receiver" where
  "ingest_build config =
     (case config of
        ConfigQbt c \<Rightarrow>
          (case receiver_build c of Inl e \<Rightarrow> Inl (ErrorQbt e) | Inr r \<Rightarrow> Inr (InnerQbt r))
      | ConfigWxWire c \<Rightarrow>
          (case wx_build c of Inl e \<Rightarrow> Inl (ErrorWxWire e) | Inr r \<Rightarrow> Inr (InnerWxWire r)))"

definition lift_inner ::
    "('e \<Rightarrow> IngestError) \<Rightarrow> ('q \<Rightarrow> 'r) \<Rightarrow> ('e + 'a) \<times> 'q \<Rightarrow> (IngestError + 'a) \<times> 'r" where
  "lift_inner err wrap x =
     ((case fst x of Inl e \<Rightarrow> Inl (err e) | Inr a \<Rightarrow> Inr a), wrap (snd x))"

definition ingest_start ::
    "'rx \<Rightarrow> 'tx \<Rightarrow> 'h \<Rightarrow> 'i \<Rightarrow> ('rx, 'tx, 'h, 'i) ingest_receiver \<Rightarrow>
     (IngestError + unit) \<times> ('rx, 'tx, 'h, 'i) ingest_receiver" where
  "ingest_start rx tx h ingress r =
     (case r of
        InnerQbt q \<Rightarrow> lift_inner ErrorQbt InnerQbt (receiver_start rx tx h q)
      | InnerWxWire w \<Rightarrow> lift_inner ErrorWxWire InnerWxWire (wx_start rx tx h ingress w))"

text \<open>The result names the queue and the adapter that the returned stream applies to it.\<close>

definition ingest_events ::
    "('rx, 'tx, 'h, 'i) ingest_receiver \<Rightarrow> (IngestError + 'rx) \<times> ('rx, 'tx, 'h, 'i) ingest_receiver" where
  "ingest_events r =
     (case r of
        InnerQbt q \<Rightarrow> lift_inner ErrorQbt InnerQbt (receiver_events q)
      | InnerWxWire w \<Rightarrow> lift_inner ErrorWxWire InnerWxWire (wx_events w))"

definition ingest_stop ::
    "('rx, 'tx, 'h, 'i) ingest_receiver \<Rightarrow> (IngestError + unit) \<times> ('rx, 'tx, 'h, 'i) ingest_receiver" where
  "ingest_stop r =
     (case r of
        InnerQbt q \<Rightarrow> lift_inner ErrorQbt InnerQbt (receiver_stop q)
      | InnerWxWire w \<Rightarrow> lift_inner ErrorWxWire InnerWxWire (wx_stop_receiver w))"

end
