(* ===== verification/Ingest_Correct.thy ===== *)
theory Ingest_Correct
  imports Ingest Codec_Props Assembler_Correct Receiver_Correct Wxwire_Codec_Correct
begin

text \<open>
  What the unified event stream promises: the products of the QBT side are the files that the
  assembler completes, every other event is handed on in order, and a file sent in data frames
  over the wire arrives as one product.
\<close>

subsection \<open>Views of the streams\<close>

fun product_of_item :: "ingest_item \<Rightarrow> ReceivedProduct option" where
  "product_of_item (Inr (Product p)) = Some p"
| "product_of_item _ = None"

definition products :: "ingest_item list \<Rightarrow> ReceivedProduct list" where
  "products items = List.map_filter product_of_item items"

definition others :: "ingest_item list \<Rightarrow> ingest_item list" where
  "others items = filter (\<lambda>i. product_of_item i = None) items"

fun block_of :: "instant \<times> receiver_item \<Rightarrow> (instant \<times> QbtSegment) option" where
  "block_of (now, Inr (Frame (DataBlock s))) = Some (now, s)"
| "block_of _ = None"

definition blocks_of :: "(instant \<times> receiver_item) list \<Rightarrow> (instant \<times> QbtSegment) list" where
  "blocks_of items = List.map_filter block_of items"

fun completed_of :: "QbtReceiverError + QbtCompletedFile option \<Rightarrow> QbtCompletedFile option" where
  "completed_of (Inr r) = r"
| "completed_of (Inl _) = None"

definition completed_files ::
    "asm_ext \<Rightarrow> (instant \<times> QbtSegment) list \<Rightarrow> QbtFileAssembler \<Rightarrow> QbtCompletedFile list" where
  "completed_files A es a = List.map_filter completed_of (fst (push_all A es a))"

text \<open>What becomes of an event that carries no data block.\<close>

fun passed_on :: "receiver_item \<Rightarrow> ingest_item option" where
  "passed_on (Inr (Connected endpoint)) = Some (Inr (IngestConnected endpoint))"
| "passed_on (Inr Disconnected) = Some (Inr IngestDisconnected)"
| "passed_on (Inr (Telemetry snapshot)) = Some (Inr (IngestTelemetry (TelemetryQbt snapshot)))"
| "passed_on (Inr (Frame (Warning w))) = Some (Inr (IngestWarning (WarningQbt w)))"
| "passed_on (Inr (Frame (DataBlock _))) = None"
| "passed_on (Inr (Frame (ServerListUpdate _))) = None"
| "passed_on (Inl err) = Some (Inl (ErrorQbt err))"

lemma view_simps [simp]:
  "products [] = []" "others [] = []" "blocks_of [] = []"
  "products (Inr (Product p) # items) = p # products items"
  "others (Inr (Product p) # items) = others items"
  "product_of_item i = None \<Longrightarrow> products (i # items) = products items"
  "product_of_item i = None \<Longrightarrow> others (i # items) = i # others items"
  by (simp_all add: products_def others_def blocks_of_def map_filter_def)

lemma blocks_of_Cons [simp]:
  "blocks_of (e # es) = (case block_of e of None \<Rightarrow> blocks_of es | Some b \<Rightarrow> b # blocks_of es)"
  by (simp add: blocks_of_def map_filter_simps split: option.splits)

lemma completed_files_simps [simp]:
  "completed_files A [] a = []"
  "completed_files A ((now, s) # es) a =
     (case completed_of (fst (push A now s a)) of None \<Rightarrow> [] | Some f \<Rightarrow> [f])
     @ completed_files A es (snd (push A now s a))"
  by (auto simp: completed_files_def map_filter_def split: prod.splits option.splits)

subsection \<open>The adapter is the assembler\<close>

lemma push_ok: "fst (push A now s a) \<noteq> Inl e"
  by (cases rule: push_cases [of s A a now]) auto

lemma map_qbt_event_block:
  "map_qbt_event A now (Inr (Frame (DataBlock s))) a =
     (map_option (\<lambda>f. Inr (Product (product_of_qbt f))) (completed_of (fst (push A now s a))),
      snd (push A now s a))"
  using push_ok [of A now s a]
  by (cases "push A now s a")
    (auto simp: map_qbt_event_def map_qbt_frame_event_def split: sum.splits option.splits)

lemma map_qbt_event_other:
  "block_of (now, item) = None \<Longrightarrow> map_qbt_event A now item a = (passed_on item, a)"
  by (cases item rule: passed_on.cases) (auto simp: map_qbt_event_def map_qbt_frame_event_def)

lemma passed_on_no_product: "passed_on item = Some i \<Longrightarrow> product_of_item i = None"
  by (cases item rule: passed_on.cases) auto

lemma scan_qbt_events_views:
  "products (fst (scan_qbt_events A items a)) = map product_of_qbt (completed_files A (blocks_of items) a)
   \<and> others (fst (scan_qbt_events A items a)) = List.map_filter passed_on (map snd items)"
proof (induction items arbitrary: a)
  case Nil
  then show ?case by (simp add: map_filter_def)
next
  case (Cons e items)
  obtain now item where e: "e = (now, item)" by (cases e)
  show ?case
  proof (cases "block_of (now, item)")
    case None
    then show ?thesis
      using Cons.IH [of a] passed_on_no_product [of item]
      by (auto simp: e map_qbt_event_other Let_def map_filter_simps split: prod.splits option.splits)
  next
    case (Some b)
    then obtain s where "item = Inr (Frame (DataBlock s))"
      by (cases "(now, item)" rule: block_of.cases) auto
    then show ?thesis
      using Cons.IH [of "snd (push A now s a)"]
      by (auto simp: e map_qbt_event_block Let_def map_filter_simps split: prod.splits option.splits)
  qed
qed

subsection \<open>Completed files and their keys\<close>

text \<open>The key of a file, from the name and time that its product carries.\<close>

definition key_of :: "asm_ext \<Rightarrow> string \<Rightarrow> system_time \<Rightarrow> string" where
  "key_of A name t =
     file_key A \<lparr>seg_filename = name, seg_block_number = 0, seg_total_blocks = 0, seg_content = [],
       seg_checksum = 0, seg_length = 0, seg_version = V1, seg_timestamp_utc = t, seg_source = None\<rparr>"

lemma file_key_key_of: "file_key A s = key_of A (seg_filename s) (seg_timestamp_utc s)"
  by (simp add: key_of_def file_key_def)

abbreviation completed_key :: "asm_ext \<Rightarrow> QbtCompletedFile \<Rightarrow> string" where
  "completed_key A f \<equiv> key_of A (file_filename f) (file_timestamp_utc f)"

lemma push_completed_key:
  assumes wf: "wf_assembler A a" and res: "fst (push A now s a) = Inr (Some f)"
  shows "completed_key A f = file_key A s"
proof -
  let ?k = "file_key A s"
  let ?a1 = "make_room A now ?k a"
  define ps where "ps = btree_insert (seg_block_number s) s (parts_of ?a1 ?k)"
  have active: "\<not> skip_segment s" and f: "f = file_of ps"
    using res by (cases rule: push_cases [of s A a now]; simp add: ps_def)+
  have "wf_inflight A ?k (store_part now ?k s ?a1)"
    by (rule wf_store_part [OF wf_make_room [OF wf] active])
  moreover have "hd ps \<in> set ps" by (simp add: ps_def)
  ultimately have "file_key A (snd (hd ps)) = ?k"
    by (auto simp: wf_inflight_def ps_def [symmetric])
  then show ?thesis by (simp add: f file_of_def flip: file_key_key_of)
qed

lemma completed_files_of_key:
  "wf_assembler A a \<Longrightarrow>
     filter (\<lambda>f. completed_key A f = k) (completed_files A es a) = List.map_filter completed_of (results_for A k es a)"
proof (induction es arbitrary: a)
  case Nil
  then show ?case by (simp add: map_filter_def)
next
  case (Cons e es)
  obtain now s where e: "e = (now, s)" by (cases e)
  have IH: "filter (\<lambda>f. completed_key A f = k) (completed_files A es (snd (push A now s a))) =
      List.map_filter completed_of (results_for A k es (snd (push A now s a)))"
    by (rule Cons.IH [OF wf_push [OF Cons.prems]])
  show ?case
  proof (cases "completed_of (fst (push A now s a))")
    case None
    then show ?thesis using IH by (simp add: e map_filter_def)
  next
    case (Some f)
    then have "fst (push A now s a) = Inr (Some f)"
      by (cases "fst (push A now s a)") auto
    from push_completed_key [OF Cons.prems this] show ?thesis
      using IH Some by (simp add: e map_filter_def)
  qed
qed

lemma map_filter_last: "List.map_filter completed_of (replicate n (Inr None) @ [Inr (Some f)]) = [f]"
  by (simp add: map_filter_def)

lemma adapter_completes_file:
  assumes "file_blocks A k n blk"
    and "card (file_key A ` snd ` set (blocks_of items)) \<le> 256"
    and "list_all (\<lambda>(now, _). tmin \<le> now \<and> now \<le> tmin + 90000000000) (blocks_of items)"
    and "filter (\<lambda>s. file_key A s = k) (map snd (blocks_of items)) = map blk nums"
    and "distinct nums" and "set nums = {1..n}"
  shows "filter (\<lambda>p. key_of A (prod_filename p) (prod_source_timestamp_utc p) = k)
      (products (adapt_qbt_events A items)) =
    [\<lparr>prod_filename = seg_filename (blk 1), prod_data = concat (map (\<lambda>i. seg_content (blk i)) [1..<Suc n]),
      prod_source_timestamp_utc = seg_timestamp_utc (blk 1), prod_origin = OriginQbt\<rparr>]"
proof -
  let ?a = "assembler_new DEFAULT_DUPLICATE_CACHE_SIZE" and ?es = "blocks_of items"
  have wf: "wf_assembler A ?a" by (rule wf_assembler_new)
  have "k \<in> set (map (file_key A) (filter (\<lambda>s. file_key A s = k) (map snd ?es)))"
  proof -
    have "0 < n" using assms(1) by (simp add: file_blocks_def)
    then have one: "1 \<in> {1..n}" by simp
    then have "blk 1 \<in> set (map blk nums)" using assms(6) by auto
    then show ?thesis
      unfolding assms(4) using file_blocksD(3) [OF assms(1) one] by force
  qed
  then have "insert k (file_key A ` snd ` set ?es) = file_key A ` snd ` set ?es" by auto
  then have "results_for A k ?es ?a = replicate (n - 1) (Inr None)
    @ [Inr (Some \<lparr>file_filename = seg_filename (blk 1),
                  file_data = concat (map (\<lambda>i. seg_content (blk i)) [1..<Suc n]),
                  file_timestamp_utc = seg_timestamp_utc (blk 1)\<rparr>)]"
    using assms wf
    by (intro results_for_file [where tmin = tmin and nums = nums]) (auto simp: in_window_def)
  then have "filter (\<lambda>f. completed_key A f = k) (completed_files A ?es ?a) =
    [\<lparr>file_filename = seg_filename (blk 1), file_data = concat (map (\<lambda>i. seg_content (blk i)) [1..<Suc n]),
      file_timestamp_utc = seg_timestamp_utc (blk 1)\<rparr>]"
    by (simp only: completed_files_of_key [OF wf] map_filter_last)
  moreover have "products (adapt_qbt_events A items) = map product_of_qbt (completed_files A ?es ?a)"
    by (simp add: adapt_qbt_events_def scan_qbt_events_views)
  ultimately show ?thesis
    by (simp add: filter_map comp_def product_of_qbt_def del: upt_Suc)
qed

subsection \<open>From the session to the adapter\<close>

fun segment_in :: "QbtFrameEvent \<Rightarrow> QbtSegment option" where
  "segment_in (DataBlock s) = Some s"
| "segment_in _ = None"

definition segments :: "QbtFrameEvent list \<Rightarrow> QbtSegment list" where
  "segments evs = List.map_filter segment_in evs"

lemma segments_of_items:
  "map snd (blocks_of items) = segments (List.map_filter frame_of (map snd items))"
proof (induction items)
  case Nil
  then show ?case by (simp add: segments_def map_filter_def)
next
  case (Cons e items)
  then show ?case
    by (cases e rule: block_of.cases) (simp_all add: segments_def map_filter_simps)
qed

lemma blocks_of_subset: "fst ` set (blocks_of items) \<subseteq> fst ` set items"
proof (induction items)
  case (Cons e items)
  then show ?case by (cases e rule: block_of.cases) auto
qed simp

subsection \<open>Properties\<close>

text \<open>
  C10: The QBT side of the unified stream refines the file assembler: its products are exactly
  the files that a new assembler with a duplicate cache of 100 completes from the data blocks
  of the stream, in that order. Server-list updates are dropped, and every other event is handed
  on, in order and unchanged.
\<close>

theorem qbt_adapter_refines_assembler:
  "products (adapt_qbt_events A items) =
     map product_of_qbt (completed_files A (blocks_of items) (assembler_new 100))
   \<and> others (adapt_qbt_events A items) = List.map_filter passed_on (map snd items)"
  by (simp add: adapt_qbt_events_def scan_qbt_events_views DEFAULT_DUPLICATE_CACHE_SIZE_def)

end
