(* ===== verification/Text_Support.thy ===== *)
theory Text_Support
  imports Collections Utf8 "HOL-Library.Char_ord" "HOL-Library.List_Lexorder"
begin

text \<open>
  What the parsers of text products share (\<open>emwin-parser\<close>): parse issues (\<open>issue.rs\<close>), marker
  scanning (\<open>body/support.rs\<close>), the resolution of partial time stamps (\<open>time.rs\<close>), and the string
  operations of the core library that they use. Calendar arithmetic is done by the \<open>chrono\<close>
  library, whose functions are the parameters of \<open>chrono_ext\<close>; a \<open>DateTime<Utc>\<close> is its number of
  nanoseconds since the epoch and a \<open>NaiveDate\<close> its day number.
\<close>

subsection \<open>Core-library operations on text\<close>

text \<open>\<open>str::lines\<close>: the last line may lack its line end, and only then keeps a carriage return.\<close>

function str_lines :: "string \<Rightarrow> string list" where
  "str_lines s =
     (if s = [] then []
      else case split_once (CHR 0x0A) s of
             None \<Rightarrow> [s]
           | Some (line, rest) \<Rightarrow>
               (case strip_suffix [CHR 0x0D] line of None \<Rightarrow> line | Some l \<Rightarrow> l) # str_lines rest)"
  by pat_completeness auto
termination
proof (relation "measure length", simp)
  fix s :: string and p line rest
  assume s: "s \<noteq> []" and "split_once (CHR 0x0A) s = Some p" and "(line, rest) = p"
  then obtain i where "rest = drop (Suc i) s" by (auto simp: split_once_def)
  with s show "(rest, s) \<in> measure length" by simp
qed

declare str_lines.simps [simp del]

text \<open>The white-space character at the front, and text without its white space.\<close>

definition white_front :: "string \<Rightarrow> string option" where
  "white_front s = find (\<lambda>w. w \<noteq> [] \<and> starts_with s w) unicode_white_space"

lemma white_front_length: "white_front s = Some w \<Longrightarrow> 0 < length w \<and> length w \<le> length s"
  by (auto simp: white_front_def find_Some_iff starts_with_iff)

function remove_white :: "string \<Rightarrow> string" where
  "remove_white [] = []"
| "remove_white (c # cs) =
     (case white_front (c # cs) of
        Some w \<Rightarrow> remove_white (drop (length w) (c # cs))
      | None \<Rightarrow> c # remove_white cs)"
  by pat_completeness auto
termination
  by (relation "measure length") (auto dest: white_front_length)

text \<open>\<open>split_whitespace().next()\<close> of text without leading white space.\<close>

fun first_word :: "string \<Rightarrow> string" where
  "first_word [] = []"
| "first_word (c # cs) = (if white_front (c # cs) = None then c # first_word cs else [])"

text \<open>\<open>[T]::windows\<close>.\<close>

definition windows :: "nat \<Rightarrow> 'a list \<Rightarrow> 'a list list" where
  "windows n xs = map (\<lambda>i. take n (drop i xs)) [0..<Suc (length xs) - n]"

text \<open>\<open>split\<close> at each character of a set.\<close>

fun split_any :: "('a \<Rightarrow> bool) \<Rightarrow> 'a list \<Rightarrow> 'a list list" where
  "split_any P [] = [[]]"
| "split_any P (x # xs) =
     (if P x then [] # split_any P xs
      else (case split_any P xs of [] \<Rightarrow> [[x]] | y # ys \<Rightarrow> (x # y) # ys))"

subsection \<open>issue.rs\<close>

record ProductParseIssue =
  issue_kind :: string
  issue_code :: string
  issue_message :: string
  issue_line :: "string option"

definition parse_issue :: "string \<Rightarrow> string \<Rightarrow> string \<Rightarrow> string option \<Rightarrow> ProductParseIssue" where
  "parse_issue kind code message line =
     \<lparr>issue_kind = kind, issue_code = code, issue_message = message, issue_line = line\<rparr>"

text \<open>Collecting the results of a parser over its candidates.\<close>

fun partition_results :: "('e + 'a) list \<Rightarrow> 'a list \<times> 'e list" where
  "partition_results [] = ([], [])"
| "partition_results (r # rs) =
     (let (xs, es) = partition_results rs
      in case r of Inr x \<Rightarrow> (x # xs, es) | Inl e \<Rightarrow> (xs, e # es))"

subsection \<open>support.rs\<close>

definition ascii_find_case_insensitive :: "string \<Rightarrow> string \<Rightarrow> usize option" where
  "ascii_find_case_insensitive haystack needle =
     (if needle = [] then Some 0
      else if length needle > length haystack then None
      else position (\<lambda>window. eq_ignore_ascii_case window needle) (windows (length needle) haystack))"

fun scan_slash_delimited_candidates :: "(string \<Rightarrow> bool) \<Rightarrow> string \<Rightarrow> string list" where
  "scan_slash_delimited_candidates P [] = []"
| "scan_slash_delimited_candidates P (c # rest) =
     (if c \<noteq> CHR ''/'' then scan_slash_delimited_candidates P rest
      else case position ((=) (CHR ''/'')) rest of
             None \<Rightarrow> scan_slash_delimited_candidates P rest
           | Some i \<Rightarrow>
               (let candidate = c # take (Suc i) rest
                in (if P candidate then [candidate] else []) @ scan_slash_delimited_candidates P rest))"

subsection \<open>time.rs\<close>

type_synonym datetime = int
type_synonym day_number = int

record chrono_ext =
  dt_year :: "datetime \<Rightarrow> int"
  dt_month :: "datetime \<Rightarrow> nat"
  dt_date :: "datetime \<Rightarrow> day_number"
  from_ymd_opt :: "int \<Rightarrow> nat \<Rightarrow> nat \<Rightarrow> day_number option"
  add_days :: "day_number \<Rightarrow> int \<Rightarrow> day_number option"
  from_hms_opt :: "nat \<Rightarrow> nat \<Rightarrow> nat \<Rightarrow> nat option"
  parse_naive :: "string \<Rightarrow> string \<Rightarrow> datetime option"

definition NANOS :: int where
  "NANOS = 1000000000"

text \<open>\<open>Utc.from_utc_datetime(&date.and_time(time))\<close>.\<close>

definition utc_of :: "day_number \<Rightarrow> nat \<Rightarrow> datetime" where
  "utc_of date time = (date * 86400 + int time) * NANOS"

text \<open>\<open>signed_duration_since(reference).num_seconds().abs()\<close>: whole seconds, rounded towards zero.\<close>

definition seconds_apart :: "datetime \<Rightarrow> datetime \<Rightarrow> int" where
  "seconds_apart candidate reference = \<bar>candidate - reference\<bar> div NANOS"

definition surrounding_months :: "int \<Rightarrow> nat \<Rightarrow> (int \<times> nat) list" where
  "surrounding_months year month =
     [if month = 1 then (year - 1, 12) else (year, month - 1),
      (year, month),
      if month = 12 then (year + 1, 1) else (year, month + 1)]"

definition build_candidate :: "chrono_ext \<Rightarrow> int \<Rightarrow> nat \<Rightarrow> nat \<Rightarrow> nat \<Rightarrow> nat \<Rightarrow> datetime option" where
  "build_candidate C year month day hour minute =
     (case from_ymd_opt C year month day of
        None \<Rightarrow> None
      | Some date \<Rightarrow>
          (case from_hms_opt C hour minute 0 of
             None \<Rightarrow> None
           | Some time \<Rightarrow> Some (utc_of date time)))"

definition candidate_datetimes :: "chrono_ext \<Rightarrow> datetime \<Rightarrow> nat \<Rightarrow> nat \<Rightarrow> nat \<Rightarrow> datetime list option" where
  "candidate_datetimes C reference day hour minute =
     (if day = 0 \<or> day > 31 \<or> hour > 23 \<or> minute > 59 then None
      else
        let candidates = List.map_filter (\<lambda>(year, month). build_candidate C year month day hour minute)
              (surrounding_months (dt_year C reference) (dt_month C reference))
        in if candidates = [] then None else Some candidates)"

text \<open>\<open>Iterator::min_by_key\<close>: the first of the minimal elements.\<close>

fun min_by_key :: "('a \<Rightarrow> 'b::linorder) \<Rightarrow> 'a list \<Rightarrow> 'a option" where
  "min_by_key f [] = None"
| "min_by_key f (x # xs) =
     (case min_by_key f xs of
        None \<Rightarrow> Some x
      | Some y \<Rightarrow> if f x \<le> f y then Some x else Some y)"

definition resolve_day_time_nearest :: "chrono_ext \<Rightarrow> datetime \<Rightarrow> nat \<Rightarrow> nat \<Rightarrow> nat \<Rightarrow> datetime option" where
  "resolve_day_time_nearest C reference day hour minute =
     (case candidate_datetimes C reference day hour minute of
        None \<Rightarrow> None
      | Some candidates \<Rightarrow> min_by_key (\<lambda>candidate. seconds_apart candidate reference) candidates)"

fun clock_candidates :: "chrono_ext \<Rightarrow> day_number \<Rightarrow> nat \<Rightarrow> int list \<Rightarrow> datetime list option" where
  "clock_candidates C base_date time [] = Some []"
| "clock_candidates C base_date time (day_offset # offsets) =
     (case add_days C base_date day_offset of
        None \<Rightarrow> None
      | Some date \<Rightarrow> map_option ((#) (utc_of date time)) (clock_candidates C base_date time offsets))"

definition resolve_clock_time_nearest :: "chrono_ext \<Rightarrow> datetime \<Rightarrow> nat \<Rightarrow> nat \<Rightarrow> datetime option" where
  "resolve_clock_time_nearest C reference hour minute =
     (if hour > 23 \<or> minute > 59 then None
      else case from_hms_opt C hour minute 0 of
             None \<Rightarrow> None
           | Some time \<Rightarrow>
               (case clock_candidates C (dt_date C reference) time [- 1, 0, 1] of
                  None \<Rightarrow> None
                | Some candidates \<Rightarrow> min_by_key (\<lambda>candidate. seconds_apart candidate reference) candidates))"

definition resolve_day_time_not_before :: "chrono_ext \<Rightarrow> datetime \<Rightarrow> nat \<Rightarrow> nat \<Rightarrow> nat \<Rightarrow> datetime option" where
  "resolve_day_time_not_before C reference day hour minute =
     (case candidate_datetimes C reference day hour minute of
        None \<Rightarrow> None
      | Some candidates \<Rightarrow>
          (case min_by_key id (filter (\<lambda>candidate. candidate \<ge> reference) candidates) of
             Some t \<Rightarrow> Some t
           | None \<Rightarrow> min_by_key uminus candidates))"

end
