(* ===== verification/Vtec.thy ===== *)
theory Vtec
  imports Text_Support
begin

text \<open>
  Event codes of text products: VTEC (\<open>body/vtec.rs\<close>) and its hydrologic extension HVTEC
  (\<open>body/hvtec.rs\<close>). Both are dot-separated fields between slashes. The hydrologic locations are
  looked up in a generated table, whose lookup function is a parameter.
\<close>

subsection \<open>vtec.rs\<close>

record VtecCode =
  vtec_status :: char
  vtec_status_desc :: "string option"
  vtec_action :: string
  vtec_action_desc :: "string option"
  vtec_office :: string
  vtec_phenomena :: string
  vtec_phenomena_desc :: "string option"
  vtec_significance :: char
  vtec_significance_desc :: "string option"
  vtec_etn :: u32
  vtec_begin :: "datetime option"
  vtec_end :: "datetime option"

definition vtec_phenomena_description :: "string \<Rightarrow> string option" where
  "vtec_phenomena_description code = map_of
     [(''AF'', ''Ashfall''), (''AS'', ''Air Stagnation''), (''AV'', ''Avalanche''),
      (''BH'', ''Beach Hazard''), (''BS'', ''Blowing Snow''), (''BW'', ''Brisk Wind''),
      (''BZ'', ''Blizzard''), (''CF'', ''Coastal Flood''), (''CW'', ''Cold Weather''),
      (''DF'', ''Debris Flow''), (''DS'', ''Dust Storm''), (''DU'', ''Blowing Dust''),
      (''EC'', ''Extreme Cold''), (''EH'', ''Excessive Heat''), (''EW'', ''Extreme Wind''),
      (''FA'', ''Areal Flood''), (''FF'', ''Flash Flood''), (''FG'', ''Dense Fog''),
      (''FL'', ''Flood''), (''FR'', ''Frost''), (''FW'', ''Fire Weather''), (''FZ'', ''Freeze''),
      (''GL'', ''Gale''), (''HF'', ''Hurricane Force Wind''), (''HI'', ''Inland Hurricane Wind''),
      (''HS'', ''Heavy Snow''), (''HT'', ''Heat''), (''HU'', ''Hurricane''),
      (''HW'', ''High Wind''), (''HY'', ''Hydrologic''), (''HZ'', ''Hard Freeze''),
      (''IP'', ''Sleet''), (''IS'', ''Ice Storm''), (''LB'', ''Lake Effect Snow and Blowing Snow''),
      (''LE'', ''Lake Effect Snow''), (''LO'', ''Low Water''), (''LS'', ''Lakeshore Flood''),
      (''LW'', ''Lake Wind''), (''MA'', ''Marine''), (''MF'', ''Marine Dense Fog''),
      (''MH'', ''Marine Ashfall''), (''MS'', ''Marine Dense Smoke''),
      (''RB'', ''Small Craft for Rough Bar''), (''RP'', ''Rip Currents''),
      (''SB'', ''Snow And Blowing Snow''), (''SC'', ''Small Craft''), (''SE'', ''Hazardous Seas''),
      (''SI'', ''Small Craft for Winds''), (''SM'', ''Smoke''), (''SN'', ''Snow''),
      (''SQ'', ''Snow Squall''), (''SR'', ''Storm''), (''SS'', ''Storm Surge''),
      (''SU'', ''High Surf''), (''SV'', ''Severe Thunderstorm''),
      (''SW'', ''Small Craft for Hazardous Seas''), (''TI'', ''Inland Tropical Storm Wind''),
      (''TO'', ''Tornado''), (''TR'', ''Tropical Storm''), (''TS'', ''Tsunami''),
      (''TY'', ''Typhoon''), (''UP'', ''Freezing Spray''), (''WC'', ''Wind Chill''),
      (''WI'', ''Wind''), (''WS'', ''Winter Storm''), (''WW'', ''Winter Weather''),
      (''XH'', ''Extreme Heat''), (''ZF'', ''Freezing Fog''), (''ZR'', ''Freezing Rain'')] code"

definition vtec_action_description :: "string \<Rightarrow> string option" where
  "vtec_action_description code = map_of
     [(''NEW'', ''New''), (''CON'', ''Continued''), (''EXT'', ''Changed in Time''),
      (''EXA'', ''Changed in Area''), (''EXB'', ''Changed in Time and Area''),
      (''CAN'', ''Cancelled''), (''UPG'', ''Upgraded''), (''EXP'', ''Expired''),
      (''COR'', ''Corrected''), (''ROU'', ''Routine'')] code"

definition vtec_status_description :: "char \<Rightarrow> string option" where
  "vtec_status_description code = map_of
     [(CHR ''O'', ''Operational''), (CHR ''T'', ''Test''), (CHR ''E'', ''Experimental''),
      (CHR ''X'', ''Experimental VTEC'')] code"

definition vtec_significance_description :: "char \<Rightarrow> string option" where
  "vtec_significance_description code = map_of
     [(CHR ''W'', ''Warning''), (CHR ''A'', ''Watch''), (CHR ''Y'', ''Advisory''),
      (CHR ''S'', ''Statement''), (CHR ''O'', ''Outlook''), (CHR ''N'', ''Synopsis''),
      (CHR ''F'', ''Forecast'')] code"

definition is_vtec_candidate :: "string \<Rightarrow> bool" where
  "is_vtec_candidate candidate \<longleftrightarrow>
     (case candidate of
        _ # b # c # _ \<Rightarrow> is_ascii_uppercase b \<and> c = CHR ''.''
      | _ \<Rightarrow> False)"

definition find_vtec_candidates :: "string \<Rightarrow> string list" where
  "find_vtec_candidates text = scan_slash_delimited_candidates is_vtec_candidate text"

definition vtec_invalid_format_issue :: "string \<Rightarrow> ProductParseIssue" where
  "vtec_invalid_format_issue raw =
     parse_issue ''vtec_parse'' ''invalid_vtec_format''
       (''could not parse VTEC code: `'' @ raw @ ''`'') (Some raw)"

definition vtec_invalid_etn_issue :: "string \<Rightarrow> ProductParseIssue" where
  "vtec_invalid_etn_issue raw =
     parse_issue ''vtec_parse'' ''invalid_vtec_etn''
       (''could not parse VTEC ETN from code: `'' @ raw @ ''`'') (Some raw)"

definition VTEC_TIME_FORMAT :: string where
  "VTEC_TIME_FORMAT = ''%y%m%dT%H%MZ''"

definition UNSPECIFIED_TIME :: string where
  "UNSPECIFIED_TIME = ''000000T0000Z''"

definition parse_vtec_time :: "chrono_ext \<Rightarrow> string \<Rightarrow> datetime option" where
  "parse_vtec_time C time_str =
     (if length time_str \<noteq> 12 then None else parse_naive C VTEC_TIME_FORMAT time_str)"

definition parse_vtec_time_or_unspecified ::
    "chrono_ext \<Rightarrow> string \<Rightarrow> string \<Rightarrow> string \<Rightarrow> ProductParseIssue + datetime option" where
  "parse_vtec_time_or_unspecified C token code raw =
     (if token = UNSPECIFIED_TIME then Inr None
      else case parse_vtec_time C token of
             None \<Rightarrow>
               Inl (parse_issue ''vtec_parse'' code
                 (''could not parse VTEC '' @ (if code = ''invalid_vtec_begin_time'' then ''begin time'' else ''end time'')
                  @ '' from code: `'' @ raw @ ''`'') (Some raw))
           | Some parsed \<Rightarrow> Inr (if dt_year C parsed < 1971 then None else Some parsed))"

text \<open>\<open>strip_prefix('/')\<close> followed by \<open>strip_suffix('/')\<close>.\<close>

definition between_slashes :: "string \<Rightarrow> string option" where
  "between_slashes raw =
     (case strip_prefix ''/'' raw of None \<Rightarrow> None | Some value \<Rightarrow> strip_suffix ''/'' value)"

text \<open>\<open>chars().next()\<close> of a field of one byte.\<close>

definition single_char :: "string \<Rightarrow> char option" where
  "single_char field = (case field of [c] \<Rightarrow> Some c | _ \<Rightarrow> None)"

definition parse_vtec_candidate :: "chrono_ext \<Rightarrow> string \<Rightarrow> ProductParseIssue + VtecCode" where
  "parse_vtec_candidate C raw =
     (case between_slashes raw of
        None \<Rightarrow> Inl (vtec_invalid_format_issue raw)
      | Some inner \<Rightarrow>
          (case split_on (CHR ''.'') inner of
             [f0, action, office, phenomena, f4, f5, f6] \<Rightarrow>
               (case single_char f0 of
                  None \<Rightarrow> Inl (vtec_invalid_format_issue raw)
                | Some status \<Rightarrow>
                    (case single_char f4 of
                       None \<Rightarrow> Inl (vtec_invalid_format_issue raw)
                     | Some significance \<Rightarrow>
                         (case parse_word f5 of
                            None \<Rightarrow> Inl (vtec_invalid_etn_issue raw)
                          | Some etn \<Rightarrow>
                              (case split_once (CHR ''-'') f6 of
                                 None \<Rightarrow> Inl (vtec_invalid_format_issue raw)
                               | Some (begin_raw, end_raw) \<Rightarrow>
                                   (case parse_vtec_time_or_unspecified C begin_raw ''invalid_vtec_begin_time'' raw of
                                      Inl issue \<Rightarrow> Inl issue
                                    | Inr begin_time \<Rightarrow>
                                        (case parse_vtec_time_or_unspecified C end_raw ''invalid_vtec_end_time'' raw of
                                           Inl issue \<Rightarrow> Inl issue
                                         | Inr end_time \<Rightarrow>
                                             Inr \<lparr>vtec_status = status, vtec_status_desc = vtec_status_description status,
                                                  vtec_action = action, vtec_action_desc = vtec_action_description action,
                                                  vtec_office = office, vtec_phenomena = phenomena,
                                                  vtec_phenomena_desc = vtec_phenomena_description phenomena,
                                                  vtec_significance = significance,
                                                  vtec_significance_desc = vtec_significance_description significance,
                                                  vtec_etn = etn, vtec_begin = begin_time, vtec_end = end_time\<rparr>))))))
           | _ \<Rightarrow> Inl (vtec_invalid_format_issue raw)))"

definition parse_vtec_codes_with_issues :: "chrono_ext \<Rightarrow> string \<Rightarrow> VtecCode list \<times> ProductParseIssue list" where
  "parse_vtec_codes_with_issues C text = partition_results (map (parse_vtec_candidate C) (find_vtec_candidates text))"

definition parse_vtec_codes :: "chrono_ext \<Rightarrow> string \<Rightarrow> VtecCode list" where
  "parse_vtec_codes C text = fst (parse_vtec_codes_with_issues C text)"

subsection \<open>hvtec.rs\<close>

datatype HvtecSeverity = SeverityNone | SeverityMinor | SeverityModerate | SeverityMajor | SeverityUnknown

definition severity_from_str :: "string \<Rightarrow> HvtecSeverity" where
  "severity_from_str s =
     (if s = ''N'' \<or> s = ''0'' then SeverityNone
      else if s = ''1'' then SeverityMinor
      else if s = ''2'' then SeverityModerate
      else if s = ''3'' then SeverityMajor
      else SeverityUnknown)"

datatype HvtecCause =
    ExcessiveRainfall | Snowmelt | RainAndSnowmelt | DamFailure | GlacierOutburst | IceJam
  | RainSnowmeltIceJam | UpstreamFloodingStormSurge | UpstreamFloodingTidalEffects
  | ElevatedUpstreamFlowTidalEffects | WindTidalEffects | UpstreamDamRelease | MultipleCauses
  | OtherEffects | CauseUnknown | CauseOther

definition cause_from_str :: "string \<Rightarrow> HvtecCause" where
  "cause_from_str s =
     (case map_of
        [(''ER'', ExcessiveRainfall), (''SM'', Snowmelt), (''RS'', RainAndSnowmelt), (''DM'', DamFailure),
         (''GO'', GlacierOutburst), (''IJ'', IceJam), (''IC'', RainSnowmeltIceJam),
         (''FS'', UpstreamFloodingStormSurge), (''FT'', UpstreamFloodingTidalEffects),
         (''ET'', ElevatedUpstreamFlowTidalEffects), (''WT'', WindTidalEffects), (''DR'', UpstreamDamRelease),
         (''MC'', MultipleCauses), (''OT'', OtherEffects), (''UU'', CauseUnknown)] s of
        Some cause \<Rightarrow> cause
      | None \<Rightarrow> CauseOther)"

datatype HvtecRecord = NoRecord | NearRecord | NotApplicable | Unavailable | RecordUnknown

definition record_from_str :: "string \<Rightarrow> HvtecRecord" where
  "record_from_str s =
     (if s = ''NO'' then NoRecord
      else if s = ''NR'' then NearRecord
      else if s = ''OO'' then NotApplicable
      else if s = ''UU'' then Unavailable
      else RecordUnknown)"

record 'loc HvtecCode =
  hv_nwslid :: string
  hv_location :: "'loc option"
  hv_severity :: HvtecSeverity
  hv_cause :: HvtecCause
  hv_begin :: "datetime option"
  hv_crest :: "datetime option"
  hv_end :: "datetime option"
  hv_record :: HvtecRecord

definition is_valid_nwslid :: "string \<Rightarrow> bool" where
  "is_valid_nwslid field \<longleftrightarrow> length field = 5 \<and> list_all is_ascii_alphanumeric field"

definition is_structurally_hvtec_candidate :: "string \<Rightarrow> bool" where
  "is_structurally_hvtec_candidate candidate \<longleftrightarrow>
     (case between_slashes candidate of
        None \<Rightarrow> False
      | Some inner \<Rightarrow>
          (case split_on (CHR ''.'') inner of
             f0 # f1 # f2 # _ \<Rightarrow>
               is_valid_nwslid f0 \<and> f1 \<in> {''N'', ''0'', ''1'', ''2'', ''3'', ''U''}
               \<and> length f2 = 2 \<and> list_all is_ascii_uppercase f2
           | _ \<Rightarrow> False))"

definition find_hvtec_candidates :: "string \<Rightarrow> string list" where
  "find_hvtec_candidates text = scan_slash_delimited_candidates is_structurally_hvtec_candidate text"

definition hvtec_invalid_format_issue :: "string \<Rightarrow> ProductParseIssue" where
  "hvtec_invalid_format_issue raw =
     parse_issue ''hvtec_parse'' ''invalid_hvtec_format''
       (''could not parse HVTEC code: `'' @ raw @ ''`'') (Some raw)"

definition hvtec_invalid_time_issue :: "string \<Rightarrow> string \<Rightarrow> ProductParseIssue" where
  "hvtec_invalid_time_issue code raw =
     parse_issue ''hvtec_parse'' code
       (''could not parse HVTEC ''
        @ (if code = ''invalid_hvtec_begin_time'' then ''begin time''
           else if code = ''invalid_hvtec_crest_time'' then ''crest time'' else ''end time'')
        @ '' from code: `'' @ raw @ ''`'') (Some raw)"

definition parse_hvtec_time :: "chrono_ext \<Rightarrow> string \<Rightarrow> datetime option" where
  "parse_hvtec_time C time_str =
     (if length time_str \<noteq> 12 then None else parse_naive C VTEC_TIME_FORMAT time_str)"

definition parse_hvtec_optional_time :: "chrono_ext \<Rightarrow> string \<Rightarrow> datetime option option" where
  "parse_hvtec_optional_time C token =
     (if token = UNSPECIFIED_TIME then Some None else map_option Some (parse_hvtec_time C token))"

definition parse_hvtec_candidate ::
    "chrono_ext \<Rightarrow> (string \<Rightarrow> 'loc option) \<Rightarrow> string \<Rightarrow> ProductParseIssue + 'loc HvtecCode" where
  "parse_hvtec_candidate C nwslid_entry raw =
     (case between_slashes raw of
        None \<Rightarrow> Inl (hvtec_invalid_format_issue raw)
      | Some inner \<Rightarrow>
          (case split_on (CHR ''.'') inner of
             [nwslid, f1, f2, f3, f4, f5, f6] \<Rightarrow>
               (case parse_hvtec_optional_time C f3 of
                  None \<Rightarrow> Inl (hvtec_invalid_time_issue ''invalid_hvtec_begin_time'' raw)
                | Some begin_time \<Rightarrow>
                    (case parse_hvtec_optional_time C f4 of
                       None \<Rightarrow> Inl (hvtec_invalid_time_issue ''invalid_hvtec_crest_time'' raw)
                     | Some crest_time \<Rightarrow>
                         (case parse_hvtec_optional_time C f5 of
                            None \<Rightarrow> Inl (hvtec_invalid_time_issue ''invalid_hvtec_end_time'' raw)
                          | Some end_time \<Rightarrow>
                              Inr \<lparr>hv_nwslid = nwslid, hv_location = nwslid_entry nwslid,
                                   hv_severity = severity_from_str f1, hv_cause = cause_from_str f2,
                                   hv_begin = begin_time, hv_crest = crest_time, hv_end = end_time,
                                   hv_record = record_from_str f6\<rparr>)))
           | _ \<Rightarrow> Inl (hvtec_invalid_format_issue raw)))"

definition parse_hvtec_codes_with_issues ::
    "chrono_ext \<Rightarrow> (string \<Rightarrow> 'loc option) \<Rightarrow> string \<Rightarrow> 'loc HvtecCode list \<times> ProductParseIssue list" where
  "parse_hvtec_codes_with_issues C nwslid_entry text =
     partition_results (map (parse_hvtec_candidate C nwslid_entry) (find_hvtec_candidates text))"

definition parse_hvtec_codes :: "chrono_ext \<Rightarrow> (string \<Rightarrow> 'loc option) \<Rightarrow> string \<Rightarrow> 'loc HvtecCode list" where
  "parse_hvtec_codes C nwslid_entry text = fst (parse_hvtec_codes_with_issues C nwslid_entry text)"

end
