(* ===== verification/Text_Support_Correct.thy ===== *)
theory Text_Support_Correct
  imports Text_Support
begin

text \<open>
  Marker scanning finds exactly the pieces of text between consecutive slashes, and a partial
  time stamp is resolved to the instant that was meant: the nearest one within two weeks, or the
  next one within four. The Gregorian calendar is stated here as the reference that the calendar
  library is expected to follow.
\<close>

subsection \<open>Scanning between slashes\<close>

lemma split_on_position:
  "position ((=) d) xs = None \<Longrightarrow> split_on d xs = [xs]"
  "position ((=) d) xs = Some i \<Longrightarrow> split_on d xs = take i xs # split_on d (drop (Suc i) xs)"
proof -
  show "position ((=) d) xs = None \<Longrightarrow> split_on d xs = [xs]"
    by (rule split_on_notin) (auto simp: position_None_iff)
  assume at: "position ((=) d) xs = Some i"
  then have "d \<notin> set (take i xs)" "xs = take i xs @ d # drop (Suc i) xs"
    using position_SomeD [OF at] id_take_nth_drop [of i xs] by auto
  then show "split_on d xs = take i xs # split_on d (drop (Suc i) xs)"
    by (metis split_on_append)
qed

definition enclosed :: "string \<Rightarrow> string" where
  "enclosed s = CHR ''/'' # s @ ''/''"

text \<open>The pieces of a text that have a slash on both sides.\<close>

definition pieces :: "string \<Rightarrow> string list" where
  "pieces text = butlast (tl (split_on (CHR ''/'') text))"

lemma scan_slash_pieces:
  "scan_slash_delimited_candidates P text = filter P (map enclosed (pieces text))"
proof (induction P "text" rule: scan_slash_delimited_candidates.induct)
  case (1 P)
  then show ?case by (simp add: pieces_def)
next
  case (2 P c rest)
  show ?case
  proof (cases "c = CHR ''/''")
    case False
    obtain y ys where ys: "split_on (CHR ''/'') rest = y # ys"
      by (cases "split_on (CHR ''/'') rest") auto
    then have "pieces (c # rest) = pieces rest" using False by (simp add: pieces_def)
    with 2 False show ?thesis by simp
  next
    case True
    show ?thesis
    proof (cases "position ((=) (CHR ''/'')) rest")
      case None
      then show ?thesis
        using 2 True by (simp add: pieces_def split_on_position(1))
    next
      case (Some i)
      have "rest = take i rest @ CHR ''/'' # drop (Suc i) rest"
        using position_SomeD [OF Some] id_take_nth_drop [of i rest] by auto
      then have "take (Suc i) rest = take i rest @ ''/''"
        using position_SomeD [OF Some] by (simp add: take_Suc_conv_app_nth)
      moreover have "pieces (c # rest) = take i rest # pieces rest"
        using True by (simp add: pieces_def split_on_position(2) [OF Some])
      ultimately show ?thesis
        using 2 True Some by (simp add: enclosed_def)
    qed
  qed
qed

lemma pieces_no_slash: "s \<in> set (pieces text) \<Longrightarrow> CHR ''/'' \<notin> set s"
proof -
  have "\<forall>s\<in>set (split_on d xs). d \<notin> set s" for d :: char and xs
    by (induction d xs rule: split_on.induct) (auto split: list.splits)
  then show "s \<in> set (pieces text) \<Longrightarrow> CHR ''/'' \<notin> set s"
    unfolding pieces_def by (metis in_set_butlastD list.set_sel(2) list.sel(2) split_on_nonempty)
qed

text \<open>A text in which codes alternate with plain text.\<close>

fun alternate :: "string list \<Rightarrow> string list \<Rightarrow> string list" where
  "alternate (gap # gaps) (code # codes) = gap # code # alternate gaps codes"
| "alternate gaps codes = gaps"

definition interleave :: "string list \<Rightarrow> string list \<Rightarrow> string" where
  "interleave gaps codes = join ''/'' (alternate gaps codes)"

lemma set_alternate: "set (alternate gaps codes) \<subseteq> set gaps \<union> set codes"
  by (induction gaps codes rule: alternate.induct) auto

lemma alternate_nonempty: "gaps \<noteq> [] \<Longrightarrow> alternate gaps codes \<noteq> []"
  by (cases gaps; cases codes) auto

lemma filter_alternate:
  assumes "length gaps = Suc (length codes)" and "\<forall>g\<in>set gaps. \<not> Q g"
  shows "filter Q (butlast (tl (alternate gaps codes))) = filter Q codes"
  using assms
proof (induction gaps codes rule: alternate.induct)
  case (1 gap gaps code codes)
  obtain g rest where alt: "alternate gaps codes = g # rest" and "g \<in> set gaps"
    using "1.prems"(1) by (cases gaps; cases codes) auto
  then show ?case using 1 by auto
qed (auto simp: length_Suc_conv)

lemma scan_slash_interleave:
  assumes "length gaps = Suc (length codes)" and "\<forall>s\<in>set gaps \<union> set codes. CHR ''/'' \<notin> set s"
    and "\<forall>g\<in>set gaps. \<not> P (enclosed g)"
  shows "scan_slash_delimited_candidates P (interleave gaps codes) = filter P (map enclosed codes)"
proof -
  have "gaps \<noteq> []" using assms(1) by auto
  then have "split_on (CHR ''/'') (interleave gaps codes) = alternate gaps codes"
    unfolding interleave_def using set_alternate [of gaps codes] assms(2) alternate_nonempty
    by (intro split_on_join) auto
  then show ?thesis
    using filter_alternate [OF assms(1), of "\<lambda>s. P (enclosed s)"] assms(3)
    by (simp add: scan_slash_pieces pieces_def filter_map comp_def)
qed

text \<open>The parsers of both kinds of codes collect their results in the same way.\<close>

lemma partition_results_Inr [simp]: "partition_results (map (\<lambda>x. Inr (f x)) xs) = (map f xs, [])"
  by (induction xs) auto

lemma partition_results_conv:
  "partition_results rs = (List.map_filter (case_sum (\<lambda>_. None) Some) rs, List.map_filter (case_sum Some (\<lambda>_. None)) rs)"
  by (induction rs) (auto simp: map_filter_simps split: sum.splits)

text \<open>
  The contract of a code that is written between slashes: its wire form has no slash, is a
  candidate, and is parsed to its meaning.
\<close>

locale slash_code =
  fixes candidate :: "string \<Rightarrow> bool"
    and parse :: "string \<Rightarrow> ProductParseIssue + 'c"
    and wire :: "'w \<Rightarrow> string"
    and meaning :: "'w \<Rightarrow> 'c"
    and ok :: "'w \<Rightarrow> bool"
  assumes wire_no_slash: "ok w \<Longrightarrow> CHR ''/'' \<notin> set (wire w)"
    and wire_candidate: "ok w \<Longrightarrow> candidate (enclosed (wire w))"
    and parse_wire: "ok w \<Longrightarrow> parse (enclosed (wire w)) = Inr (meaning w)"
begin

definition parse_codes :: "string \<Rightarrow> 'c list \<times> ProductParseIssue list" where
  "parse_codes text = partition_results (map parse (scan_slash_delimited_candidates candidate text))"

text \<open>A text that alternates between plain text and codes of this or of another kind.\<close>

lemma parse_interleaved:
  assumes "length gaps = Suc (length xs)"
    and "\<forall>x\<in>set xs. case x of Inl w \<Rightarrow> ok w | Inr s \<Rightarrow> CHR ''/'' \<notin> set s \<and> \<not> candidate (enclosed s)"
    and "\<forall>g\<in>set gaps. CHR ''/'' \<notin> set g \<and> \<not> candidate (enclosed g)"
  shows "parse_codes (interleave gaps (map (case_sum wire id) xs)) =
    (map meaning (List.map_filter (case_sum Some (\<lambda>_. None)) xs), [])"
proof -
  let ?ws = "List.map_filter (case_sum Some (\<lambda>_. None)) xs"
  have "scan_slash_delimited_candidates candidate (interleave gaps (map (case_sum wire id) xs)) =
      filter candidate (map enclosed (map (case_sum wire id) xs))"
    using assms wire_no_slash by (intro scan_slash_interleave) (auto split: sum.splits)
  also have "\<dots> = map enclosed (map wire ?ws)"
    using assms(2) wire_candidate by (induction xs) (auto simp: map_filter_simps split: sum.splits)
  finally have scan: "scan_slash_delimited_candidates candidate (interleave gaps (map (case_sum wire id) xs)) =
      map enclosed (map wire ?ws)" .
  have "map parse (map enclosed (map wire ?ws)) = map (\<lambda>w. Inr (meaning w)) ?ws"
    using assms(2) parse_wire by (induction xs) (auto simp: map_filter_simps split: sum.splits)
  then show ?thesis
    unfolding parse_codes_def scan by (simp only: partition_results_Inr)
qed

lemma parse_codes_bound: "length (fst (parse_codes text)) + length (snd (parse_codes text)) \<le> length text"
proof -
  have "length (scan_slash_delimited_candidates candidate text) \<le> length text"
    by (induction "text") (auto simp: Let_def le_SucI split: option.splits)
  moreover have "length (fst (partition_results rs)) + length (snd (partition_results rs)) = length rs"
    for rs :: "(ProductParseIssue + 'c) list"
    by (induction rs) (auto split: prod.splits sum.splits)
  ultimately show ?thesis by (simp add: parse_codes_def)
qed

end

subsection \<open>Padded numbers\<close>

lemma digits_val_zeros: "digits_val 0 (replicate n (CHR ''0'') @ s) = digits_val 0 s"
  by (induction n) (auto simp: digit_val_def is_ascii_digit_def)

lemma parse_word_padded: "parse_word (pad_left k (CHR ''0'') (show_nat (unat w))) = Some (w :: 'a::len word)"
proof -
  let ?s = "pad_left k (CHR ''0'') (show_nat (unat w))"
  have "?s \<noteq> []" "hd ?s \<noteq> CHR ''+''"
    using show_nat_digits [of "hd (show_nat (unat w))" "unat w"]
    by (auto simp: pad_left_def is_ascii_digit_def hd_append)
  then have "parse_nat ?s = digits_val 0 ?s" by (cases ?s) (auto simp: parse_nat_def)
  also have "\<dots> = Some (unat w)" by (simp add: pad_left_def digits_val_zeros digits_val_show_nat)
  finally show ?thesis by (simp add: parse_word_def)
qed

lemma length_show_nat: "n < 10 ^ Suc k \<Longrightarrow> length (show_nat n) \<le> Suc k"
proof (induction k arbitrary: n)
  case 0
  then show ?case by (simp add: show_nat.simps)
next
  case (Suc k)
  have "n div 10 < 10 ^ Suc k" using Suc.prems by (simp add: div_less_iff_less_mult mult.commute)
  from Suc.IH [OF this] show ?case by (subst show_nat.simps) auto
qed

lemma pad_left_digits: "list_all is_ascii_digit (pad_left k (CHR ''0'') (show_nat n))"
  using show_nat_digits [of _ n] by (auto simp: list_all_iff pad_left_def is_ascii_digit_def)

lemma length_pad_left: "n < 10 ^ Suc k \<Longrightarrow> length (pad_left (Suc k) c (show_nat n)) = Suc k"
  using length_show_nat [of n k] by (simp add: pad_left_def)

subsection \<open>The Gregorian calendar\<close>

definition is_leap :: "int \<Rightarrow> bool" where
  "is_leap y \<longleftrightarrow> y mod 4 = 0 \<and> (y mod 100 \<noteq> 0 \<or> y mod 400 = 0)"

definition days_in_month :: "int \<Rightarrow> nat \<Rightarrow> int" where
  "days_in_month y m =
     (if m = 2 then (if is_leap y then 29 else 28) else if m \<in> {4, 6, 9, 11} then 30 else 31)"

definition year_start :: "int \<Rightarrow> int" where
  "year_start y = 365 * (y - 1) + (y - 1) div 4 - (y - 1) div 100 + (y - 1) div 400 - 719162"

definition month_start :: "int \<Rightarrow> nat \<Rightarrow> int" where
  "month_start y m = year_start y + sum_list (map (days_in_month y) [1..<m])"

definition valid_civil :: "int \<Rightarrow> nat \<Rightarrow> nat \<Rightarrow> bool" where
  "valid_civil y m d \<longleftrightarrow> 1 \<le> m \<and> m \<le> 12 \<and> 1 \<le> d \<and> int d \<le> days_in_month y m"

definition days_of_civil :: "int \<Rightarrow> nat \<Rightarrow> nat \<Rightarrow> int" where
  "days_of_civil y m d = month_start y m + int d - 1"

text \<open>The epoch, and a leap day.\<close>

lemma days_of_epoch: "days_of_civil 1970 1 1 = 0"
  by (simp add: days_of_civil_def month_start_def year_start_def)

lemma days_of_leap_day: "days_of_civil 2024 2 29 = 19782"
  by (simp add: days_of_civil_def month_start_def year_start_def days_in_month_def upt_rec)

lemma year_start_Suc: "year_start (y + 1) = year_start y + (if is_leap y then 366 else 365)"
proof -
  have step: "y div k = (y - 1) div k + (if y mod k = 0 then 1 else 0)" if k: "0 < k" for k :: int
  proof -
    have y: "y = k * (y div k) + y mod k" and r: "0 \<le> y mod k" "y mod k < k" using k by simp_all
    show ?thesis
    proof (cases "y mod k = 0")
      case True
      then have "y - 1 = k * (y div k - 1) + (k - 1)" using y by (simp add: algebra_simps)
      then have "(y - 1) div k = y div k - 1" using k by (intro int_div_pos_eq [where r = "k - 1"]) auto
      then show ?thesis using True by simp
    next
      case False
      then have "y - 1 = k * (y div k) + (y mod k - 1)" using y by simp
      then have "(y - 1) div k = y div k" using False r by (intro int_div_pos_eq [where r = "y mod k - 1"]) auto
      then show ?thesis using False by simp
    qed
  qed
  have carry: "A - B + C = a - b + c + (if P \<and> (\<not> Q \<or> R) then 1 else 0)"
    if "A = a + (if P then 1 else 0)" "B = b + (if Q then 1 else 0)" "C = c + (if R then 1 else 0)"
      "Q \<longrightarrow> P" "R \<longrightarrow> Q" for A B C a b c :: int and P Q R
    using that by (cases P; cases Q; cases R; simp)
  have "y mod 100 = 0 \<longrightarrow> y mod 4 = 0" using mod_mod_cancel [of 4 100 y] by auto
  moreover have "y mod 400 = 0 \<longrightarrow> y mod 100 = 0" using mod_mod_cancel [of 100 400 y] by auto
  ultimately have key: "y div 4 - y div 100 + y div 400 =
      (y - 1) div 4 - (y - 1) div 100 + (y - 1) div 400 + (if is_leap y then 1 else 0)"
    unfolding is_leap_def by (intro carry step) simp_all
  have "s' = s + (if L then 366 else 365)"
    if "s' = 365 * y + x' - 719162" "s = 365 * (y - 1) + x - 719162" "x' = x + (if L then 1 else 0)"
    for s s' x x' :: int and L using that by (cases L) simp_all
  from this [OF _ _ key] show ?thesis by (simp add: year_start_def)
qed

lemma days_in_month_bounds: "28 \<le> days_in_month y m" "days_in_month y m \<le> 31"
  by (simp_all add: days_in_month_def)

text \<open>Months counted from year 0: the months of a calendar page in a row.\<close>

definition page_start :: "int \<Rightarrow> int" where
  "page_start k = month_start (k div 12) (nat (k mod 12) + 1)"

definition page_length :: "int \<Rightarrow> int" where
  "page_length k = days_in_month (k div 12) (nat (k mod 12) + 1)"

definition page :: "int \<Rightarrow> nat \<Rightarrow> int" where
  "page y m = 12 * y + int m - 1"

lemma page_of:
  assumes "1 \<le> m" "m \<le> 12"
  shows "page y m div 12 = y" "nat (page y m mod 12) + 1 = m"
proof -
  have "page y m = 12 * y + (int m - 1)" by (simp add: page_def)
  then show "page y m div 12 = y"
    using assms by (intro int_div_pos_eq [where r = "int m - 1"]) auto
  have "page y m mod 12 = int m - 1"
    using assms by (simp add: page_def) presburger
  then show "nat (page y m mod 12) + 1 = m" using assms by simp
qed

lemma page_start_of: "1 \<le> m \<Longrightarrow> m \<le> 12 \<Longrightarrow> page_start (page y m) = month_start y m"
  by (simp only: page_start_def page_of)

lemma page_start_Suc: "page_start (k + 1) = page_start k + page_length k"
proof -
  define y m where "y = k div 12" and "m = nat (k mod 12) + 1"
  have m: "1 \<le> m" "m \<le> 12" by (auto simp: m_def nat_le_iff)
  have k: "k = page y m" by (simp add: page_def y_def m_def)
  have this_page: "page_start k = month_start y m" "page_length k = days_in_month y m"
    by (simp_all only: k page_start_of m page_length_def page_of [OF m])
  show ?thesis
  proof (cases "m = 12")
    case True
    then have "k + 1 = page (y + 1) 1" by (simp add: k page_def)
    then have "page_start (k + 1) = year_start (y + 1)"
      by (simp add: page_start_of month_start_def)
    then show ?thesis
      using True by (simp add: this_page year_start_Suc month_start_def days_in_month_def upt_rec)
  next
    case False
    then have "k + 1 = page y (Suc m)" by (simp add: k page_def)
    moreover have "month_start y (Suc m) = month_start y m + days_in_month y m"
      using m by (simp add: month_start_def)
    ultimately show ?thesis
      using False m by (simp add: page_start_of this_page)
  qed
qed

lemma page_start_gap:
  assumes "k < l"
  shows "page_start k + 28 \<le> page_start l"
proof -
  have len: "28 \<le> page_length k" for k by (simp add: page_length_def days_in_month_bounds)
  have "page_start k + 28 \<le> page_start (k + 1 + int n)" for n
  proof (induction n)
    case 0
    then show ?case using page_start_Suc [of k] len [of k] by simp
  next
    case (Suc n)
    then show ?case using page_start_Suc [of "k + 1 + int n"] len [of "k + 1 + int n"]
      by (simp add: algebra_simps)
  qed
  from this [of "nat (l - k - 1)"] show ?thesis using assms by simp
qed

subsection \<open>Resolving partial time stamps\<close>

abbreviation DAY :: int where
  "DAY \<equiv> 86400 * NANOS"

definition civil_instant :: "int \<Rightarrow> nat \<Rightarrow> nat \<Rightarrow> nat \<Rightarrow> nat \<Rightarrow> datetime" where
  "civil_instant y m d h mi = utc_of (days_of_civil y m d) (h * 3600 + mi * 60)"

text \<open>What the calendar library promises for the months around an instant.\<close>

definition calendar_at :: "chrono_ext \<Rightarrow> datetime \<Rightarrow> bool" where
  "calendar_at C t \<longleftrightarrow>
     (let y = dt_year C t; m = dt_month C t; k = page y m in
      1 \<le> m \<and> m \<le> 12 \<and> page_start k * DAY \<le> t \<and> t < page_start (k + 1) * DAY
      \<and> (\<forall>(y', m')\<in>set (surrounding_months y m). \<forall>d. from_ymd_opt C y' m' d =
           (if valid_civil y' m' d then Some (days_of_civil y' m' d) else None))
      \<and> (\<forall>h mi. h < 24 \<and> mi < 60 \<longrightarrow> from_hms_opt C h mi 0 = Some (h * 3600 + mi * 60)))"

lemma surrounding_pages:
  assumes "1 \<le> m" "m \<le> 12" "(y', m') \<in> set (surrounding_months y m)"
  shows "1 \<le> m' \<and> m' \<le> 12 \<and> \<bar>page y' m' - page y m\<bar> \<le> 1"
  using assms by (auto simp: surrounding_months_def page_def split: if_splits)

lemma surrounding_complete:
  assumes "1 \<le> m" "m \<le> 12" "1 \<le> m'" "m' \<le> 12" "\<bar>page y' m' - page y m\<bar> \<le> 1"
  shows "(y', m') \<in> set (surrounding_months y m)"
proof -
  have inj: "(y', m') = (y2, m2)" if "1 \<le> m2" "m2 \<le> 12" "page y' m' = page y2 m2" for y2 m2
    using that assms(3,4) page_of by (metis (no_types))
  let ?before = "if m = 1 then (y - 1, 12) else (y, m - 1)" and ?after = "if m = 12 then (y + 1, 1) else (y, m + 1)"
  have "page (fst ?before) (snd ?before) = page y m - 1" "1 \<le> snd ?before" "snd ?before \<le> 12"
    "page (fst ?after) (snd ?after) = page y m + 1" "1 \<le> snd ?after" "snd ?after \<le> 12"
    using assms(1,2) by (auto simp: page_def)
  then have "page y' m' = page y m - 1 \<Longrightarrow> (y', m') = ?before" "page y' m' = page y m \<Longrightarrow> (y', m') = (y, m)"
    "page y' m' = page y m + 1 \<Longrightarrow> (y', m') = ?after"
    using inj [of "snd ?before" "fst ?before"] inj [of m y] inj [of "snd ?after" "fst ?after"] assms(1,2)
    by (simp_all only: prod.collapse)
  moreover have "page y' m' = page y m - 1 \<or> page y' m' = page y m \<or> page y' m' = page y m + 1"
    using assms(5) by linarith
  ultimately show ?thesis unfolding surrounding_months_def by auto
qed

text \<open>The candidates are the instants with the given day and time in the three months.\<close>

lemma candidates_exact:
  assumes "calendar_at C ref" and "1 \<le> d" "d \<le> 31" "h < 24" "mi < 60"
  shows "set (List.map_filter (\<lambda>(year, month). build_candidate C year month d h mi)
      (surrounding_months (dt_year C ref) (dt_month C ref))) =
    {civil_instant y m d h mi | y m. (y, m) \<in> set (surrounding_months (dt_year C ref) (dt_month C ref)) \<and> valid_civil y m d}"
    (is "?L = ?R")
proof -
  have "build_candidate C y m d h mi = (if valid_civil y m d then Some (civil_instant y m d h mi) else None)"
    if "(y, m) \<in> set (surrounding_months (dt_year C ref) (dt_month C ref))" for y m
    using assms that by (auto simp: calendar_at_def Let_def build_candidate_def civil_instant_def)
  then show ?thesis
    by (fastforce simp: List.map_filter_def image_iff split: if_splits)
qed

lemma min_by_key_None: "min_by_key f xs = None \<longleftrightarrow> xs = []"
  by (cases xs) (auto split: option.splits)

lemma min_by_key_unique:
  assumes "t \<in> set xs" and "\<forall>x\<in>set xs. x \<noteq> t \<longrightarrow> f t < f x"
  shows "min_by_key f xs = Some t"
proof -
  have best: "min_by_key f xs = Some b \<Longrightarrow> b \<in> set xs \<and> (\<forall>x\<in>set xs. f b \<le> f x)" for b
  proof (induction xs arbitrary: b)
    case (Cons x xs)
    then show ?case
      by (cases "min_by_key f xs") (auto split: if_splits simp: min_by_key_None intro: order_trans)
  qed simp
  have "min_by_key f xs \<noteq> None" using assms(1) by (auto simp: min_by_key_None)
  then obtain b where b: "min_by_key f xs = Some b" by blast
  from best [OF b] assms have "b = t" by (metis leD)
  with b show ?thesis by simp
qed

lemma civil_instant_page:
  assumes "valid_civil y m d"
  shows "civil_instant y m d h mi = (page_start (page y m) + int d - 1) * DAY + int (h * 3600 + mi * 60) * NANOS"
  using assms
  by (simp add: civil_instant_def utc_of_def days_of_civil_def valid_civil_def page_start_of algebra_simps)

text \<open>The same day and time in two different months are at least 28 days apart.\<close>

lemma civil_instants_apart:
  assumes "valid_civil y m d" "valid_civil y' m' d" and "civil_instant y' m' d h mi \<noteq> civil_instant y m d h mi"
  shows "28 * DAY \<le> \<bar>civil_instant y' m' d h mi - civil_instant y m d h mi\<bar>"
proof -
  have diff: "civil_instant y' m' d h mi - civil_instant y m d h mi =
      (page_start (page y' m') - page_start (page y m)) * DAY"
    by (simp add: civil_instant_page assms algebra_simps)
  with assms(3) have "page y' m' \<noteq> page y m" by auto
  then have "28 \<le> \<bar>page_start (page y' m') - page_start (page y m)\<bar>"
    using page_start_gap [of "page y m" "page y' m'"] page_start_gap [of "page y' m'" "page y m"] by linarith
  then show ?thesis by (simp add: diff abs_mult NANOS_def)
qed

lemma civil_instant_bounds:
  assumes "valid_civil y m d" and "h < 24" "mi < 60"
  shows "page_start (page y m) * DAY \<le> civil_instant y m d h mi"
    and "civil_instant y m d h mi < page_start (page y m + 1) * DAY"
proof -
  have len: "page_start (page y m + 1) = page_start (page y m) + days_in_month y m"
    using assms(1) page_of [of m y] by (simp add: page_start_Suc page_length_def valid_civil_def)
  have secs: "0 \<le> int (h * 3600 + mi * 60)" "int (h * 3600 + mi * 60) < 86400"
    using assms(2,3) by linarith+
  show "page_start (page y m) * DAY \<le> civil_instant y m d h mi"
    using assms(1) secs by (simp add: civil_instant_page valid_civil_def NANOS_def)
  show "civil_instant y m d h mi < page_start (page y m + 1) * DAY"
    using assms(1) secs by (simp add: civil_instant_page len valid_civil_def NANOS_def)
qed

lemma near_instant_is_candidate:
  assumes cal: "calendar_at C ref" and v: "valid_civil y m d" "h < 24" "mi < 60"
    and near: "\<bar>civil_instant y m d h mi - ref\<bar> < 28 * DAY"
  obtains cs where "candidate_datetimes C ref d h mi = Some cs" "civil_instant y m d h mi \<in> set cs"
    "\<forall>c\<in>set cs. c \<noteq> civil_instant y m d h mi \<longrightarrow> 28 * DAY \<le> \<bar>c - civil_instant y m d h mi\<bar>"
proof -
  let ?y = "dt_year C ref" and ?m = "dt_month C ref" and ?t = "civil_instant y m d h mi"
  let ?k = "page ?y ?m" and ?l = "page y m"
  have D: "0 < DAY" by (simp add: NANOS_def)
  have m: "1 \<le> ?m" "?m \<le> 12" and k: "page_start ?k * DAY \<le> ref" "ref < page_start (?k + 1) * DAY"
    using cal by (auto simp: calendar_at_def Let_def)
  note b = civil_instant_bounds [OF v]
  have "page_start (?k - 1) * DAY < page_start (?l + 1) * DAY"
    using page_start_gap [of "?k - 1" ?k] k(1) b(2) near D by (simp add: NANOS_def)
  then have "?k - 1 < ?l + 1"
    using page_start_gap [of "?l + 1" "?k - 1"] D by (smt (verit) mult_less_cancel_right)
  moreover have "page_start ?l * DAY < page_start (?k + 2) * DAY"
    using page_start_gap [of "?k + 1" "?k + 2"] k(2) b(1) near D by (simp add: NANOS_def)
  then have "?l < ?k + 2"
    using page_start_gap [of "?k + 2" ?l] D by (smt (verit) mult_less_cancel_right)
  ultimately have mem: "(y, m) \<in> set (surrounding_months ?y ?m)"
    using m v(1) by (intro surrounding_complete) (auto simp: valid_civil_def)
  have d: "1 \<le> d" "d \<le> 31" using v(1) days_in_month_bounds(2) [of y m] by (auto simp: valid_civil_def)
  let ?cs = "List.map_filter (\<lambda>(year, month). build_candidate C year month d h mi) (surrounding_months ?y ?m)"
  note ex = candidates_exact [OF cal d v(2,3)]
  have "?t \<in> set ?cs" unfolding ex using mem v(1) by blast
  moreover from this have "candidate_datetimes C ref d h mi = Some ?cs"
    using d v(2,3) by (auto simp: candidate_datetimes_def Let_def)
  moreover have "\<forall>c\<in>set ?cs. c \<noteq> ?t \<longrightarrow> 28 * DAY \<le> \<bar>c - ?t\<bar>"
    unfolding ex using civil_instants_apart [OF v(1)] by blast
  ultimately show thesis using that by blast
qed

lemma day_time_not_before:
  assumes "calendar_at C ref" and "valid_civil y m d" "h < 24" "mi < 60"
    and after: "ref \<le> civil_instant y m d h mi" "civil_instant y m d h mi < ref + 28 * DAY"
  shows "resolve_day_time_not_before C ref d h mi = Some (civil_instant y m d h mi)"
proof -
  let ?t = "civil_instant y m d h mi"
  obtain cs where cs: "candidate_datetimes C ref d h mi = Some cs" "?t \<in> set cs"
    "\<forall>c\<in>set cs. c \<noteq> ?t \<longrightarrow> 28 * DAY \<le> \<bar>c - ?t\<bar>"
    using near_instant_is_candidate [OF assms(1-4)] after by (auto simp: NANOS_def)
  have "min_by_key id (filter (\<lambda>c. c \<ge> ref) cs) = Some ?t"
    using cs(2,3) after by (intro min_by_key_unique) fastforce+
  with cs(1) show ?thesis by (simp add: resolve_day_time_not_before_def)
qed

subsection \<open>Properties\<close>

text \<open>
  C19: A time stamp that gives only day, hour and minute is resolved to the instant that was meant,
  provided that it is less than 14 days away from the reference time.
\<close>

theorem day_time_nearest_recovers:
  assumes "calendar_at C ref" and "valid_civil y m d" "h < 24" "mi < 60"
    and near: "\<bar>civil_instant y m d h mi - ref\<bar> < 14 * DAY"
  shows "resolve_day_time_nearest C ref d h mi = Some (civil_instant y m d h mi)"
proof -
  let ?t = "civil_instant y m d h mi"
  obtain cs where cs: "candidate_datetimes C ref d h mi = Some cs" "?t \<in> set cs"
    "\<forall>c\<in>set cs. c \<noteq> ?t \<longrightarrow> 28 * DAY \<le> \<bar>c - ?t\<bar>"
    using near_instant_is_candidate [OF assms(1-4)] near by (auto simp: NANOS_def)
  have "seconds_apart ?t ref < 14 * 86400"
    using near by (simp add: seconds_apart_def NANOS_def)
  moreover have "14 * 86400 \<le> seconds_apart c ref" if "c \<in> set cs" "c \<noteq> ?t" for c
  proof -
    have "14 * DAY \<le> \<bar>c - ref\<bar>" using cs(3) that near by fastforce
    then have "14 * DAY div NANOS \<le> \<bar>c - ref\<bar> div NANOS" by (rule zdiv_mono1) (simp add: NANOS_def)
    then show ?thesis by (simp add: seconds_apart_def NANOS_def)
  qed
  ultimately have "min_by_key (\<lambda>c. seconds_apart c ref) cs = Some ?t"
    using cs(2) by (intro min_by_key_unique) fastforce+
  with cs(1) show ?thesis by (simp add: resolve_day_time_nearest_def)
qed

text \<open>
  An expiration time that gives only day, hour and minute is resolved to the instant that was
  meant, provided that it is not before the reference time and less than 28 days after it.
\<close>

theorem day_time_not_before_recovers:
  assumes "calendar_at C ref" and "valid_civil y m d" "h < 24" "mi < 60"
    and after: "ref \<le> civil_instant y m d h mi" "civil_instant y m d h mi < ref + 28 * DAY"
  shows "resolve_day_time_not_before C ref d h mi = Some (civil_instant y m d h mi)"
  using assms by (rule day_time_not_before)

definition sample_chrono :: chrono_ext where
  "sample_chrono =
     \<lparr>dt_year = (\<lambda>_. 2026), dt_month = (\<lambda>_. 3), dt_date = (\<lambda>t. t div DAY),
      from_ymd_opt = (\<lambda>y m d. if valid_civil y m d then Some (days_of_civil y m d) else None),
      add_days = (\<lambda>date n. Some (date + n)),
      from_hms_opt = (\<lambda>h mi s. if h < 24 \<and> mi < 60 \<and> s < 60 then Some (h * 3600 + mi * 60 + s) else None),
      parse_naive = (\<lambda>_ s. map_of [(''260301T1200Z'', civil_instant 2026 3 1 12 0),
        (''260301T1300Z'', civil_instant 2026 3 1 13 0)] s)\<rparr>"

lemma sample_calendar: "calendar_at sample_chrono (civil_instant 2026 3 2 0 10)"
proof -
  have "page_start (page 2026 3) = month_start 2026 3" "page_start (page 2026 3 + 1) = month_start 2026 4"
    using page_start_of [of 3 2026] page_start_of [of 4 2026] by (simp_all add: page_def)
  then show ?thesis
    by (auto simp: calendar_at_def sample_chrono_def Let_def civil_instant_def utc_of_def days_of_civil_def
      month_start_def days_in_month_def NANOS_def upt_rec)
qed

lemma sample_instants:
  "civil_instant 2026 2 27 23 50 = 1772236200000000000" "civil_instant 2026 3 2 0 10 = 1772410200000000000"
  "civil_instant 2026 3 28 6 0 = 1774677600000000000"
  by (simp_all add: civil_instant_def utc_of_def days_of_civil_def month_start_def year_start_def
    days_in_month_def is_leap_def NANOS_def upt_rec)

theorem day_time_nearest_recovers_witness:
  "resolve_day_time_nearest sample_chrono (civil_instant 2026 3 2 0 10) 27 23 50 =
     Some (civil_instant 2026 2 27 23 50)"
  by (rule day_time_nearest_recovers [OF sample_calendar])
    (simp_all add: valid_civil_def days_in_month_def sample_instants NANOS_def)

theorem day_time_not_before_recovers_witness:
  "resolve_day_time_not_before sample_chrono (civil_instant 2026 3 2 0 10) 28 6 0 =
     Some (civil_instant 2026 3 28 6 0)"
  by (rule day_time_not_before_recovers [OF sample_calendar])
    (simp_all add: valid_civil_def days_in_month_def sample_instants NANOS_def)

text \<open>
  The candidates are documented not to cross line boundaries, but the search for the closing
  slash passes over line ends.
\<close>

theorem candidates_cross_lines:
  "scan_slash_delimited_candidates (\<lambda>_. True) (''/A'' @ [CHR 0x0A] @ ''B/'') = [''/A'' @ [CHR 0x0A] @ ''B/'']"
  by simp

end
