(* ===== verification/Vtec_Correct.thy ===== *)
theory Vtec_Correct
  imports Vtec Text_Support_Correct
begin

text \<open>
  Both parsers of event codes recover exactly the codes of their kind from a text in which codes of
  both kinds alternate with plain text, as in the products of the National Weather Service.
\<close>

subsection \<open>Fields\<close>

text \<open>A field holds neither a separator nor a line break: a code stands on one line.\<close>

definition plain_field :: "string \<Rightarrow> bool" where
  "plain_field s \<longleftrightarrow> CHR ''.'' \<notin> set s \<and> CHR ''/'' \<notin> set s \<and> CHR 0x0D \<notin> set s \<and> CHR 0x0A \<notin> set s"

text \<open>A token that stands for a time, and the time it stands for.\<close>

definition time_token :: "chrono_ext \<Rightarrow> string \<Rightarrow> bool" where
  "time_token C s \<longleftrightarrow>
     plain_field s \<and> CHR ''-'' \<notin> set s
     \<and> (s = UNSPECIFIED_TIME \<or> length s = 12 \<and> parse_naive C VTEC_TIME_FORMAT s \<noteq> None)"

definition token_time :: "chrono_ext \<Rightarrow> string \<Rightarrow> datetime option" where
  "token_time C s = (if s = UNSPECIFIED_TIME then None else parse_naive C VTEC_TIME_FORMAT s)"

definition since_1971 :: "chrono_ext \<Rightarrow> datetime option \<Rightarrow> datetime option" where
  "since_1971 C t = (case t of Some t \<Rightarrow> if dt_year C t < 1971 then None else Some t | None \<Rightarrow> None)"

lemma parse_vtec_token:
  "time_token C s \<Longrightarrow> parse_vtec_time_or_unspecified C s code raw = Inr (since_1971 C (token_time C s))"
  by (auto simp: time_token_def token_time_def parse_vtec_time_or_unspecified_def parse_vtec_time_def since_1971_def)

lemma parse_hvtec_token: "time_token C s \<Longrightarrow> parse_hvtec_optional_time C s = Some (token_time C s)"
  by (auto simp: time_token_def token_time_def parse_hvtec_optional_time_def parse_hvtec_time_def)

lemma between_enclosed [simp]: "between_slashes (enclosed s) = Some s"
  using strip_prefix_append [of "''/''" "s @ ''/''"] by (simp add: between_slashes_def enclosed_def)

subsection \<open>VTEC codes on the wire\<close>

record vtec_wire =
  vw_status :: char
  vw_action :: string
  vw_office :: string
  vw_phenomena :: string
  vw_significance :: char
  vw_etn :: u32
  vw_begin :: string
  vw_end :: string

definition vtec_fields :: "vtec_wire \<Rightarrow> string list" where
  "vtec_fields w =
     [[vw_status w], vw_action w, vw_office w, vw_phenomena w, [vw_significance w],
      pad_left 4 (CHR ''0'') (show_nat (unat (vw_etn w))), vw_begin w @ ''-'' @ vw_end w]"

definition vtec_text :: "vtec_wire \<Rightarrow> string" where
  "vtec_text w = join ''.'' (vtec_fields w)"

definition vtec_ok :: "chrono_ext \<Rightarrow> vtec_wire \<Rightarrow> bool" where
  "vtec_ok C w \<longleftrightarrow>
     is_ascii_uppercase (vw_status w) \<and> plain_field (vw_action w) \<and> plain_field (vw_office w)
     \<and> plain_field (vw_phenomena w) \<and> plain_field [vw_significance w]
     \<and> time_token C (vw_begin w) \<and> time_token C (vw_end w)"

definition vtec_meaning :: "chrono_ext \<Rightarrow> vtec_wire \<Rightarrow> VtecCode" where
  "vtec_meaning C w =
     \<lparr>vtec_status = vw_status w, vtec_status_desc = vtec_status_description (vw_status w),
      vtec_action = vw_action w, vtec_action_desc = vtec_action_description (vw_action w),
      vtec_office = vw_office w, vtec_phenomena = vw_phenomena w,
      vtec_phenomena_desc = vtec_phenomena_description (vw_phenomena w),
      vtec_significance = vw_significance w,
      vtec_significance_desc = vtec_significance_description (vw_significance w),
      vtec_etn = vw_etn w, vtec_begin = since_1971 C (token_time C (vw_begin w)),
      vtec_end = since_1971 C (token_time C (vw_end w))\<rparr>"

lemma padded_plain: "plain_field (pad_left 4 (CHR ''0'') (show_nat n))"
  using show_nat_digits [of _ n] by (auto simp: plain_field_def pad_left_def is_ascii_digit_def dest: show_nat_digits)

lemma uppercase_plain: "is_ascii_uppercase c \<Longrightarrow> plain_field [c]"
  by (auto simp: plain_field_def is_ascii_uppercase_def)

lemma vtec_fields_plain: "vtec_ok C w \<Longrightarrow> \<forall>f\<in>set (vtec_fields w). plain_field f"
  by (auto simp: vtec_fields_def vtec_ok_def padded_plain uppercase_plain time_token_def)
    (auto simp: plain_field_def)

lemma split_fields: "fs \<noteq> [] \<Longrightarrow> \<forall>f\<in>set fs. plain_field f \<Longrightarrow> split_on (CHR ''.'') (join ''.'' fs) = fs"
  by (rule split_on_join) (auto simp: plain_field_def)

lemma join_no_slash: "\<forall>f\<in>set fs. plain_field f \<Longrightarrow> CHR ''/'' \<notin> set (join ''.'' fs)"
  by (induction "''.''" fs rule: join.induct) (auto simp: plain_field_def)

interpretation vtec: slash_code is_vtec_candidate "parse_vtec_candidate C" vtec_text "vtec_meaning C" "vtec_ok C"
  for C
proof
  fix w assume ok: "vtec_ok C w"
  note plain = vtec_fields_plain [OF ok]
  show "CHR ''/'' \<notin> set (vtec_text w)"
    unfolding vtec_text_def by (rule join_no_slash [OF plain])
  show "is_vtec_candidate (enclosed (vtec_text w))"
    using ok by (simp add: is_vtec_candidate_def enclosed_def vtec_text_def vtec_fields_def vtec_ok_def)
  have "split_on (CHR ''.'') (vtec_text w) = vtec_fields w"
    unfolding vtec_text_def by (rule split_fields [OF _ plain]) (simp add: vtec_fields_def)
  moreover have "split_once (CHR ''-'') (vw_begin w @ ''-'' @ vw_end w) = Some (vw_begin w, vw_end w)"
    using ok split_once_append [of "CHR ''-''" "vw_begin w" "vw_end w"] by (simp add: vtec_ok_def time_token_def)
  ultimately show "parse_vtec_candidate C (enclosed (vtec_text w)) = Inr (vtec_meaning C w)"
    using ok by (simp add: parse_vtec_candidate_def vtec_fields_def single_char_def parse_word_padded
        vtec_ok_def parse_vtec_token vtec_meaning_def)
qed

lemma parse_vtec_codes_conv: "parse_vtec_codes_with_issues C text = vtec.parse_codes C text"
  by (simp add: parse_vtec_codes_with_issues_def vtec.parse_codes_def find_vtec_candidates_def)

subsection \<open>HVTEC codes on the wire\<close>

record hvtec_wire =
  hw_nwslid :: string
  hw_severity :: string
  hw_cause :: string
  hw_begin :: string
  hw_crest :: string
  hw_end :: string
  hw_record :: string

definition hvtec_fields :: "hvtec_wire \<Rightarrow> string list" where
  "hvtec_fields w =
     [hw_nwslid w, hw_severity w, hw_cause w, hw_begin w, hw_crest w, hw_end w, hw_record w]"

definition hvtec_text :: "hvtec_wire \<Rightarrow> string" where
  "hvtec_text w = join ''.'' (hvtec_fields w)"

definition hvtec_ok :: "chrono_ext \<Rightarrow> hvtec_wire \<Rightarrow> bool" where
  "hvtec_ok C w \<longleftrightarrow>
     is_valid_nwslid (hw_nwslid w) \<and> hw_severity w \<in> {''N'', ''0'', ''1'', ''2'', ''3'', ''U''}
     \<and> length (hw_cause w) = 2 \<and> list_all is_ascii_uppercase (hw_cause w)
     \<and> time_token C (hw_begin w) \<and> time_token C (hw_crest w) \<and> time_token C (hw_end w)
     \<and> plain_field (hw_record w)"

definition hvtec_meaning :: "chrono_ext \<Rightarrow> (string \<Rightarrow> 'loc option) \<Rightarrow> hvtec_wire \<Rightarrow> 'loc HvtecCode" where
  "hvtec_meaning C nwslid_entry w =
     \<lparr>hv_nwslid = hw_nwslid w, hv_location = nwslid_entry (hw_nwslid w),
      hv_severity = severity_from_str (hw_severity w), hv_cause = cause_from_str (hw_cause w),
      hv_begin = token_time C (hw_begin w), hv_crest = token_time C (hw_crest w),
      hv_end = token_time C (hw_end w), hv_record = record_from_str (hw_record w)\<rparr>"

lemma alphanumeric_plain: "list_all is_ascii_alphanumeric s \<Longrightarrow> plain_field s"
  by (auto simp: plain_field_def list_all_iff is_ascii_alphanumeric_def is_ascii_alphabetic_def
      is_ascii_uppercase_def is_ascii_lowercase_def is_ascii_digit_def)

lemma hvtec_fields_plain: "hvtec_ok C w \<Longrightarrow> \<forall>f\<in>set (hvtec_fields w). plain_field f"
proof -
  assume ok: "hvtec_ok C w"
  have "plain_field (hw_severity w)" using ok by (auto simp: hvtec_ok_def plain_field_def)
  moreover have "list_all is_ascii_alphanumeric (hw_cause w)"
    using ok by (auto simp: hvtec_ok_def list_all_iff is_ascii_alphanumeric_def is_ascii_alphabetic_def)
  ultimately show ?thesis
    using ok by (simp add: hvtec_fields_def hvtec_ok_def is_valid_nwslid_def alphanumeric_plain time_token_def)
qed

interpretation hvtec: slash_code is_structurally_hvtec_candidate "parse_hvtec_candidate C L" hvtec_text
    "hvtec_meaning C L" "hvtec_ok C"
  for C L
proof
  fix w assume ok: "hvtec_ok C w"
  note plain = hvtec_fields_plain [OF ok]
  show "CHR ''/'' \<notin> set (hvtec_text w)"
    unfolding hvtec_text_def by (rule join_no_slash [OF plain])
  have split: "split_on (CHR ''.'') (hvtec_text w) = hvtec_fields w"
    unfolding hvtec_text_def by (rule split_fields [OF _ plain]) (simp add: hvtec_fields_def)
  then show "is_structurally_hvtec_candidate (enclosed (hvtec_text w))"
    using ok by (simp add: is_structurally_hvtec_candidate_def hvtec_fields_def hvtec_ok_def)
  show "parse_hvtec_candidate C L (enclosed (hvtec_text w)) = Inr (hvtec_meaning C L w)"
    using ok split by (simp add: parse_hvtec_candidate_def hvtec_fields_def hvtec_ok_def parse_hvtec_token
        hvtec_meaning_def)
qed

lemma parse_hvtec_codes_conv: "parse_hvtec_codes_with_issues C L text = hvtec.parse_codes C L text"
  by (simp add: parse_hvtec_codes_with_issues_def hvtec.parse_codes_def find_hvtec_candidates_def)

subsection \<open>Both kinds in one text\<close>

text \<open>No piece of text is a candidate for both parsers.\<close>

lemma candidates_disjoint: "is_vtec_candidate c \<Longrightarrow> \<not> is_structurally_hvtec_candidate c"
proof
  assume v: "is_vtec_candidate c" and h: "is_structurally_hvtec_candidate c"
  from v obtain a b rest where c: "c = a # b # CHR ''.'' # rest"
    by (auto simp: is_vtec_candidate_def split: list.splits)
  from h obtain inner where inner: "between_slashes c = Some inner"
    and head: "\<exists>f0 fs. split_on (CHR ''.'') inner = f0 # fs \<and> length f0 = 5"
    by (auto simp: is_structurally_hvtec_candidate_def is_valid_nwslid_def split: option.splits list.splits)
  obtain zs where "inner = b # CHR ''.'' # zs \<or> inner = [b]"
    using inner by (auto simp: c between_slashes_def strip_prefix_def strip_suffix_def starts_with_def
        split: if_splits option.splits) (cases rest; auto)+
  then show False
    using head by (cases "b = CHR ''.''") (auto split: list.splits)
qed

fun code_text :: "vtec_wire + hvtec_wire \<Rightarrow> string" where
  "code_text (Inl w) = vtec_text w"
| "code_text (Inr w) = hvtec_text w"

fun code_ok :: "chrono_ext \<Rightarrow> vtec_wire + hvtec_wire \<Rightarrow> bool" where
  "code_ok C (Inl w) = vtec_ok C w"
| "code_ok C (Inr w) = hvtec_ok C w"

definition plain_gap :: "string \<Rightarrow> bool" where
  "plain_gap g \<longleftrightarrow> CHR ''/'' \<notin> set g \<and> \<not> is_vtec_candidate (enclosed g)
     \<and> \<not> is_structurally_hvtec_candidate (enclosed g)"

subsection \<open>Properties\<close>

text \<open>
  C14: From a text in which VTEC and HVTEC codes, each on one line, alternate with text that holds
  no slash and is no code itself, each parser recovers exactly the codes of its kind, in order and
  with all their fields, and reports no issue.
\<close>

theorem event_codes_recovered:
  assumes "length gaps = Suc (length xs)" and "list_all (code_ok C) xs" and "list_all plain_gap gaps"
  shows "parse_vtec_codes_with_issues C (interleave gaps (map code_text xs)) =
      (map (vtec_meaning C) (List.map_filter (case_sum Some (\<lambda>_. None)) xs), [])
    \<and> parse_hvtec_codes_with_issues C L (interleave gaps (map code_text xs)) =
      (map (hvtec_meaning C L) (List.map_filter (case_sum (\<lambda>_. None) Some) xs), [])"
proof
  let ?v = "map (case_sum Inl (\<lambda>w. Inr (hvtec_text w))) xs"
  have wire: "map code_text xs = map (case_sum vtec_text id) ?v"
    by (induction xs) (auto split: sum.splits)
  have ok: "\<forall>x\<in>set ?v. case x of Inl w \<Rightarrow> vtec_ok C w
      | Inr s \<Rightarrow> CHR ''/'' \<notin> set s \<and> \<not> is_vtec_candidate (enclosed s)"
    using assms(2) hvtec.wire_no_slash hvtec.wire_candidate candidates_disjoint
    by (fastforce simp: list_all_iff split: sum.splits)
  have kept: "List.map_filter (case_sum Some (\<lambda>_. None)) ?v = List.map_filter (case_sum Some (\<lambda>_. None)) xs"
    by (induction xs) (auto simp: map_filter_simps split: sum.splits)
  show "parse_vtec_codes_with_issues C (interleave gaps (map code_text xs)) =
      (map (vtec_meaning C) (List.map_filter (case_sum Some (\<lambda>_. None)) xs), [])"
    unfolding parse_vtec_codes_conv wire kept [symmetric]
    using assms(1,3) by (intro vtec.parse_interleaved ok) (simp_all add: list_all_iff plain_gap_def)
next
  let ?h = "map (case_sum (\<lambda>w. Inr (vtec_text w)) Inl) xs"
  have wire: "map code_text xs = map (case_sum hvtec_text id) ?h"
    by (induction xs) (auto split: sum.splits)
  have ok: "\<forall>x\<in>set ?h. case x of Inl w \<Rightarrow> hvtec_ok C w
      | Inr s \<Rightarrow> CHR ''/'' \<notin> set s \<and> \<not> is_structurally_hvtec_candidate (enclosed s)"
    using assms(2) vtec.wire_no_slash vtec.wire_candidate candidates_disjoint
    by (fastforce simp: list_all_iff split: sum.splits)
  have kept: "List.map_filter (case_sum Some (\<lambda>_. None)) ?h = List.map_filter (case_sum (\<lambda>_. None) Some) xs"
    by (induction xs) (auto simp: map_filter_simps split: sum.splits)
  show "parse_hvtec_codes_with_issues C L (interleave gaps (map code_text xs)) =
      (map (hvtec_meaning C L) (List.map_filter (case_sum (\<lambda>_. None) Some) xs), [])"
    unfolding parse_hvtec_codes_conv wire kept [symmetric]
    using assms(1,3) by (intro hvtec.parse_interleaved ok) (simp_all add: list_all_iff plain_gap_def)
qed

definition sample_vtec :: vtec_wire where
  "sample_vtec =
     \<lparr>vw_status = CHR ''O'', vw_action = ''NEW'', vw_office = ''KDMX'', vw_phenomena = ''FL'',
      vw_significance = CHR ''W'', vw_etn = 23, vw_begin = ''260301T1200Z'', vw_end = UNSPECIFIED_TIME\<rparr>"

definition sample_hvtec :: hvtec_wire where
  "sample_hvtec =
     \<lparr>hw_nwslid = ''MSRM1'', hw_severity = ''3'', hw_cause = ''ER'', hw_begin = ''260301T1200Z'',
      hw_crest = ''260301T1300Z'', hw_end = UNSPECIFIED_TIME, hw_record = ''NO''\<rparr>"

lemmas sample_code_simps = sample_vtec_def sample_hvtec_def vtec_ok_def hvtec_ok_def time_token_def plain_field_def
  is_ascii_uppercase_def is_valid_nwslid_def is_ascii_alphanumeric_def is_ascii_alphabetic_def is_ascii_digit_def
  is_ascii_lowercase_def sample_chrono_def UNSPECIFIED_TIME_def

theorem event_codes_recovered_witness:
  "parse_vtec_codes_with_issues sample_chrono
      (interleave [''...'', [CHR 0x0A], '' until further notice''] (map code_text [Inl sample_vtec, Inr sample_hvtec])) =
     (map (vtec_meaning sample_chrono) (List.map_filter (case_sum Some (\<lambda>_. None)) [Inl sample_vtec, Inr sample_hvtec]), [])"
proof (rule event_codes_recovered [THEN conjunct1])
  show "list_all (code_ok sample_chrono) [Inl sample_vtec, Inr sample_hvtec]"
    by (simp add: sample_code_simps)
  show "list_all plain_gap [''...'', [CHR 0x0A], '' until further notice'']"
    by (simp add: plain_gap_def is_vtec_candidate_def is_structurally_hvtec_candidate_def enclosed_def
        between_slashes_def strip_prefix_def strip_suffix_def starts_with_def is_ascii_uppercase_def)
qed simp

end
