(* ===== verification/Catalog.thy ===== *)
theory Catalog
  imports Text_Support
begin

text \<open>
  Product metadata and location look-up (\<open>emwin-parser/src/data/mod.rs\<close>, \<open>graphics.rs\<close> and the
  hand-maintained overrides in \<open>generated_afos_routing.rs\<close>). The large generated catalogs are the
  parameters of \<open>catalogs\<close>, the regular expressions for file names those of \<open>graphics_ext\<close>, and the
  type variable stands for \<open>f64\<close>. The searches are proved to find exactly the entry with the
  normalized key, whenever a catalog is sorted as the generator writes it.
\<close>

subsection \<open>Core-library operations\<close>

text \<open>\<open>str::get\<close> for a range: nothing when an end is not on a character boundary.\<close>

definition str_get :: "string \<Rightarrow> nat \<Rightarrow> nat \<Rightarrow> string option" where
  "str_get s a b =
     (if a \<le> b \<and> is_char_boundary (bytes_of s) a \<and> is_char_boundary (bytes_of s) b
      then Some (take (b - a) (drop a s)) else None)"

text \<open>
  \<open>[T]::binary_search_by_key\<close>: the window of \<open>n\<close> elements from \<open>base\<close> is halved until one is left.
\<close>

function bisect :: "('a \<Rightarrow> 'k::linorder) \<Rightarrow> 'k \<Rightarrow> 'a list \<Rightarrow> nat \<Rightarrow> nat \<Rightarrow> nat" where
  "bisect f key xs base n =
     (if n \<le> 1 then base
      else
        let half = n div 2; mid = base + half
        in bisect f key xs (if f (xs ! mid) > key then base else mid) (n - half))"
  by pat_completeness auto
termination
  by (relation "measure (\<lambda>(f, key, xs, base, n). n)") auto

declare bisect.simps [simp del]

definition binary_search_by_key :: "('a \<Rightarrow> 'k::linorder) \<Rightarrow> 'k \<Rightarrow> 'a list \<Rightarrow> nat option" where
  "binary_search_by_key f key xs =
     (if xs = [] then None
      else
        let base = bisect f key xs 0 (length xs)
        in if f (xs ! base) = key then Some base else None)"

subsection \<open>Entries\<close>

datatype BodyExtractorId = VtecEvents | UgcExtractor | LatLonExtractor | TimeMotLocExtractor | WindHailExtractor

datatype BodyQcRuleId = UgcDuplicateCode

record BodyExtractionPlan =
  plan_extractors :: "BodyExtractorId list"
  plan_qc_rules :: "BodyQcRuleId list"

definition body_extraction_plan :: "BodyExtractorId list \<Rightarrow> BodyExtractionPlan" where
  "body_extraction_plan extractors =
     (let has_ugc = UgcExtractor \<in> set extractors;
          qc_rules = (if has_ugc then [UgcDuplicateCode] else [])
      in \<lparr>plan_extractors = extractors, plan_qc_rules = qc_rules\<rparr>)"

datatype TextProductRouting =
    RouteGeneric | RouteCli | RouteFd | RoutePirep | RouteSigmet | RouteLsr | RouteCwa | RouteWwp | RouteCf6
  | RouteDsm | RouteHml | RouteMos | RouteSaw | RouteSel | RouteMcd | RouteEro | RouteSpcOutlook

datatype TextProductBodyBehavior = BodyNever | BodyCatalog

record TextProductCatalogEntry =
  tp_pil :: string
  tp_wmo_prefix :: string
  tp_title :: string
  tp_routing :: TextProductRouting
  tp_body_behavior :: TextProductBodyBehavior
  tp_extractors :: "BodyExtractorId list"

record AfosRoutingOverride =
  ov_afos :: string
  ov_title :: "string option"
  ov_routing :: "TextProductRouting option"
  ov_body_behavior :: "TextProductBodyBehavior option"
  ov_extractors :: "BodyExtractorId list option"

record ResolvedTextProductPolicy =
  pol_pil :: string
  pol_wmo_prefix :: string
  pol_title :: string
  pol_routing :: TextProductRouting
  pol_body_behavior :: TextProductBodyBehavior
  pol_extractors :: "BodyExtractorId list"

record 'f NwslidEntry =
  nl_nwslid :: string
  nl_state_code :: string
  nl_stream_name :: string
  nl_proximity :: string
  nl_place_name :: string
  nl_latitude :: 'f
  nl_longitude :: 'f

record 'f UgcLocationEntry =
  ul_code :: string
  ul_name :: string
  ul_latitude :: 'f
  ul_longitude :: 'f

record WmoOfficeEntry =
  wo_code :: string
  wo_office_name :: string
  wo_city :: string
  wo_state :: string

record NonTextProductMeta =
  nt_family :: string
  nt_title :: string
  nt_container :: string
  nt_pil :: "string option"
  nt_wmo_prefix :: "string option"

record 'f catalogs =
  NWSLID_CATALOG :: "'f NwslidEntry list"
  UGC_COUNTY_CATALOG :: "'f UgcLocationEntry list"
  UGC_ZONE_CATALOG :: "'f UgcLocationEntry list"
  WMO_OFFICE_CATALOG :: "WmoOfficeEntry list"
  TEXT_PRODUCT_CATALOG :: "TextProductCatalogEntry list"

subsection \<open>Normalized keys\<close>

definition normalize_pil :: "string \<Rightarrow> string option" where
  "normalize_pil nnn =
     (let key = to_ascii_uppercase (trim nnn) in if length key = 3 then Some key else None)"

definition normalize_exact_afos :: "string \<Rightarrow> string option" where
  "normalize_exact_afos afos =
     (let key = to_ascii_uppercase (trim afos)
      in if 3 \<le> length key \<and> length key \<le> 6 \<and> list_all is_ascii_alphanumeric key then Some key else None)"

definition normalize_nwslid :: "string \<Rightarrow> string option" where
  "normalize_nwslid code =
     (let key = to_ascii_uppercase (trim code)
      in if length key = 5 \<and> list_all is_ascii_alphanumeric key then Some key else None)"

definition normalize_ugc :: "string \<Rightarrow> char \<Rightarrow> string option" where
  "normalize_ugc code expected_class =
     (let key = to_ascii_uppercase (trim code)
      in if length key = 6 \<and> is_ascii_uppercase (key ! 0) \<and> is_ascii_uppercase (key ! 1)
            \<and> key ! 2 = expected_class \<and> list_all is_ascii_digit (drop 3 key)
         then Some key else None)"

definition normalize_wmo_office :: "string \<Rightarrow> string option" where
  "normalize_wmo_office code =
     (let key = to_ascii_uppercase (trim code)
      in if length key = 3 \<and> list_all is_ascii_alphanumeric key then Some key
         else if length key = 4 \<and> list_all is_ascii_alphanumeric key then Some (drop 1 key)
         else None)"

subsection \<open>Look-up\<close>

text \<open>The shape that the look-ups share: search for the normalized key and take the entry.\<close>

definition search_entry :: "('a \<Rightarrow> string) \<Rightarrow> 'a list \<Rightarrow> string option \<Rightarrow> 'a option" where
  "search_entry f catalog key =
     (case key of
        None \<Rightarrow> None
      | Some k \<Rightarrow> map_option (\<lambda>i. catalog ! i) (binary_search_by_key f k catalog))"

definition nwslid_entry :: "'f catalogs \<Rightarrow> string \<Rightarrow> 'f NwslidEntry option" where
  "nwslid_entry D code = search_entry nl_nwslid (NWSLID_CATALOG D) (normalize_nwslid code)"

definition ugc_county_entry :: "'f catalogs \<Rightarrow> string \<Rightarrow> 'f UgcLocationEntry option" where
  "ugc_county_entry D code = search_entry ul_code (UGC_COUNTY_CATALOG D) (normalize_ugc code (CHR ''C''))"

definition ugc_zone_entry :: "'f catalogs \<Rightarrow> string \<Rightarrow> 'f UgcLocationEntry option" where
  "ugc_zone_entry D code = search_entry ul_code (UGC_ZONE_CATALOG D) (normalize_ugc code (CHR ''Z''))"

definition wmo_office_entry :: "'f catalogs \<Rightarrow> string \<Rightarrow> WmoOfficeEntry option" where
  "wmo_office_entry D code = search_entry wo_code (WMO_OFFICE_CATALOG D) (normalize_wmo_office code)"

definition text_product_catalog_entry :: "'f catalogs \<Rightarrow> string \<Rightarrow> TextProductCatalogEntry option" where
  "text_product_catalog_entry D nnn = search_entry tp_pil (TEXT_PRODUCT_CATALOG D) (normalize_pil nnn)"

definition pil_description :: "'f catalogs \<Rightarrow> string \<Rightarrow> string option" where
  "pil_description D nnn = map_option tp_title (text_product_catalog_entry D nnn)"

definition wmo_prefix_for_pil :: "'f catalogs \<Rightarrow> string \<Rightarrow> string option" where
  "wmo_prefix_for_pil D nnn = map_option tp_wmo_prefix (text_product_catalog_entry D nnn)"

definition AFOS_ROUTING_OVERRIDES :: "AfosRoutingOverride list" where
  "AFOS_ROUTING_OVERRIDES = map (\<lambda>(afos, title, routing).
       \<lparr>ov_afos = afos, ov_title = Some title, ov_routing = Some routing, ov_body_behavior = Some BodyNever,
        ov_extractors = None\<rparr>)
     [(''FFGMPD'', ''Mesoscale precipitation discussion'', RouteMcd),
      (''PFWF38'', ''Days 3-8 fire weather outlook points'', RouteSpcOutlook),
      (''PFWFD1'', ''Day 1 fire weather outlook points'', RouteSpcOutlook),
      (''PFWFD2'', ''Day 2 fire weather outlook points'', RouteSpcOutlook),
      (''RBG94E'', ''Day 1 excessive rainfall outlook'', RouteEro),
      (''RBG98E'', ''Day 2 excessive rainfall outlook'', RouteEro),
      (''RBG99E'', ''Day 3 excessive rainfall outlook'', RouteEro),
      (''SWOMCD'', ''Mesoscale discussion'', RouteMcd)]"

definition unwrap_or :: "'a option \<Rightarrow> 'a \<Rightarrow> 'a" where
  "unwrap_or x d = (case x of Some v \<Rightarrow> v | None \<Rightarrow> d)"

definition resolved_text_product_policy :: "'f catalogs \<Rightarrow> string \<Rightarrow> ResolvedTextProductPolicy option" where
  "resolved_text_product_policy D afos =
     (case Option.bind (str_get afos 0 3) normalize_pil of
        None \<Rightarrow> None
      | Some pil \<Rightarrow>
          (case text_product_catalog_entry D pil of
             None \<Rightarrow> None
           | Some base \<Rightarrow>
               (case normalize_exact_afos afos of
                  None \<Rightarrow> None
                | Some exact_afos \<Rightarrow>
                    let override_entry = map_option (\<lambda>i. AFOS_ROUTING_OVERRIDES ! i)
                          (binary_search_by_key ov_afos exact_afos AFOS_ROUTING_OVERRIDES);
                        body_behavior = unwrap_or (Option.bind override_entry ov_body_behavior) (tp_body_behavior base);
                        extractors = (if body_behavior = BodyNever then []
                          else unwrap_or (Option.bind override_entry ov_extractors) (tp_extractors base))
                    in Some \<lparr>pol_pil = tp_pil base, pol_wmo_prefix = tp_wmo_prefix base,
                             pol_title = unwrap_or (Option.bind override_entry ov_title) (tp_title base),
                             pol_routing = unwrap_or (Option.bind override_entry ov_routing) (tp_routing base),
                             pol_body_behavior = body_behavior, pol_extractors = extractors\<rparr>)))"

definition body_extraction_plan_for_entry :: "TextProductCatalogEntry \<Rightarrow> BodyExtractionPlan option" where
  "body_extraction_plan_for_entry entry =
     (case tp_body_behavior entry of
        BodyNever \<Rightarrow> None
      | BodyCatalog \<Rightarrow> Some (body_extraction_plan (tp_extractors entry)))"

subsection \<open>File names\<close>

definition is_name_character :: "char \<Rightarrow> bool" where
  "is_name_character c \<longleftrightarrow> is_ascii_alphanumeric c \<or> c = CHR ''.'' \<or> c = CHR ''_'' \<or> c = CHR ''-''"

definition canonical_name :: "string \<Rightarrow> string" where
  "canonical_name filename =
     (let base = trim (last (split_any (\<lambda>c. c = CHR ''/'' \<or> c = CHR 0x5C) filename))
      in case rsplit_once (CHR ''-'') base of
           None \<Rightarrow> base
         | Some (_, tail) \<Rightarrow>
             let candidate = trim tail
             in if CHR ''.'' \<in> set candidate \<and> candidate \<noteq> [] \<and> list_all is_name_character candidate
                then candidate else base)"

definition container_from_ext :: "string \<Rightarrow> string" where
  "container_from_ext ext = (if ext = ''ZIP'' then ''zip'' else ''raw'')"

definition container_from_filename :: "string \<Rightarrow> string" where
  "container_from_filename filename =
     container_from_ext (case rsplit_once (CHR ''.'') (canonical_name filename) of
       Some (_, ext) \<Rightarrow> to_ascii_uppercase ext
     | None \<Rightarrow> [])"

text \<open>Whether the radar pattern matches; the second group of the other two patterns, when they match.\<close>

record graphics_ext =
  radar_re :: "string \<Rightarrow> bool"
  goes_re :: "string \<Rightarrow> string option"
  imgmod_re :: "string \<Rightarrow> string option"

definition graphics_meta :: "string \<Rightarrow> string \<Rightarrow> string \<Rightarrow> NonTextProductMeta" where
  "graphics_meta family title container =
     \<lparr>nt_family = family, nt_title = title, nt_container = container, nt_pil = None, nt_wmo_prefix = None\<rparr>"

definition detect_graphics :: "graphics_ext \<Rightarrow> string \<Rightarrow> NonTextProductMeta option" where
  "detect_graphics G filename_upper =
     (if radar_re G filename_upper then Some (graphics_meta ''radar_graphic'' ''Radar graphic'' ''raw'')
      else case goes_re G filename_upper of
             Some ext \<Rightarrow> Some (graphics_meta ''goes_graphic'' ''GOES satellite graphic'' (container_from_ext ext))
           | None \<Rightarrow>
               (case imgmod_re G filename_upper of
                  Some ext \<Rightarrow> Some (graphics_meta ''nws_graphic'' ''NWS graphic product'' (container_from_ext ext))
                | None \<Rightarrow> None))"

definition classify_non_text_product :: "graphics_ext \<Rightarrow> string \<Rightarrow> NonTextProductMeta option" where
  "classify_non_text_product G filename = detect_graphics G (to_ascii_uppercase (canonical_name filename))"

subsection \<open>Searching is exact\<close>

abbreviation sorted_by :: "('a \<Rightarrow> 'k::linorder) \<Rightarrow> 'a list \<Rightarrow> bool" where
  "sorted_by f xs \<equiv> sorted_wrt (<) (map f xs)"

lemma sorted_by_less: "sorted_by f xs \<Longrightarrow> i < j \<Longrightarrow> j < length xs \<Longrightarrow> f (xs ! i) < f (xs ! j)"
  using sorted_wrt_nth_less [of "(<)" "map f xs" i j] by simp

lemma bisect_range: "0 < n \<Longrightarrow> base \<le> bisect f key xs base n \<and> bisect f key xs base n < base + n"
proof (induction f key xs base n rule: bisect.induct)
  case (1 f key xs base n)
  show ?case
  proof (cases "n \<le> 1")
    case True
    then show ?thesis using "1.prems" by (subst (1 2) bisect.simps) auto
  next
    case False
    then show ?thesis using "1.IH" [OF False refl refl] by (subst (1 2) bisect.simps) (auto simp: Let_def)
  qed
qed

lemma bisect_finds:
  "sorted_by f xs \<Longrightarrow> i < length xs \<Longrightarrow> base \<le> i \<Longrightarrow> i < base + n \<Longrightarrow> base + n \<le> length xs
    \<Longrightarrow> bisect f (f (xs ! i)) xs base n = i"
proof (induction f "f (xs ! i)" xs base n rule: bisect.induct)
  case (1 f xs base n)
  show ?case
  proof (cases "n \<le> 1")
    case True
    then show ?thesis using 1 by (subst bisect.simps) auto
  next
    case False
    let ?mid = "base + n div 2"
    have "?mid < length xs" using False "1.prems" by linarith
    then have "f (xs ! ?mid) > f (xs ! i) \<longleftrightarrow> i < ?mid"
      using sorted_by_less [OF "1.prems"(1), of i ?mid] sorted_by_less [OF "1.prems"(1), of ?mid i] "1.prems"(2)
      by (cases i ?mid rule: linorder_cases) (auto simp: order.asym)
    then show ?thesis
      using False "1.prems" "1.hyps" [OF False refl refl]
      by (subst bisect.simps) (auto simp: Let_def)
  qed
qed

lemma binary_search_exact:
  assumes "sorted_by f xs"
  shows "binary_search_by_key f key xs = Some i \<longleftrightarrow> i < length xs \<and> f (xs ! i) = key"
proof
  assume "binary_search_by_key f key xs = Some i"
  then show "i < length xs \<and> f (xs ! i) = key"
    using bisect_range [of "length xs" 0 f key xs]
    by (auto simp: binary_search_by_key_def Let_def split: if_splits)
next
  assume "i < length xs \<and> f (xs ! i) = key"
  then show "binary_search_by_key f key xs = Some i"
    using bisect_finds [OF assms, of i 0 "length xs"] by (auto simp: binary_search_by_key_def Let_def)
qed

lemma search_entry_exact:
  assumes "sorted_by f xs"
  shows "search_entry f xs (Some k) = Some e \<longleftrightarrow> e \<in> set xs \<and> f e = k"
proof -
  have "e \<in> set xs \<and> f e = k \<longleftrightarrow> (\<exists>i. i < length xs \<and> f (xs ! i) = k \<and> xs ! i = e)"
    by (auto simp: in_set_conv_nth)
  then show ?thesis
    using binary_search_exact [OF assms, of k] by (auto simp: search_entry_def)
qed

lemma search_entry_find:
  assumes "sorted_by f xs"
  shows "search_entry f xs key = Option.bind key (\<lambda>k. find (\<lambda>e. f e = k) xs)"
proof (cases key)
  case (Some k)
  have "distinct (map f xs)" using assms by (simp add: strict_sorted_iff)
  then have uniq: "e = e'" if "e \<in> set xs" "e' \<in> set xs" "f e = f e'" for e e'
    using that by (meson distinct_map inj_onD)
  show ?thesis
  proof (cases "find (\<lambda>e. f e = k) xs")
    case None
    then have "\<nexists>e. search_entry f xs (Some k) = Some e"
      unfolding search_entry_exact [OF assms] by (auto simp: find_None_iff)
    with Some None show ?thesis by simp
  next
    case (Some e)
    then have "e \<in> set xs \<and> f e = k" by (auto simp: find_Some_iff)
    with Some \<open>key = Some k\<close> show ?thesis by (simp add: search_entry_exact [OF assms])
  qed
qed (simp add: search_entry_def)

subsection \<open>Properties\<close>

definition catalogs_sorted :: "'f catalogs \<Rightarrow> bool" where
  "catalogs_sorted D \<longleftrightarrow>
     sorted_by nl_nwslid (NWSLID_CATALOG D) \<and> sorted_by ul_code (UGC_COUNTY_CATALOG D)
     \<and> sorted_by ul_code (UGC_ZONE_CATALOG D) \<and> sorted_by wo_code (WMO_OFFICE_CATALOG D)
     \<and> sorted_by tp_pil (TEXT_PRODUCT_CATALOG D)"

text \<open>
  Over sorted catalogs every look-up is a linear search for the entry with the normalized key.
\<close>

theorem catalog_lookups_exact:
  assumes "catalogs_sorted D"
  shows "nwslid_entry D code = Option.bind (normalize_nwslid code) (\<lambda>k. find (\<lambda>e. nl_nwslid e = k) (NWSLID_CATALOG D))
    \<and> ugc_county_entry D code =
        Option.bind (normalize_ugc code (CHR ''C'')) (\<lambda>k. find (\<lambda>e. ul_code e = k) (UGC_COUNTY_CATALOG D))
    \<and> ugc_zone_entry D code =
        Option.bind (normalize_ugc code (CHR ''Z'')) (\<lambda>k. find (\<lambda>e. ul_code e = k) (UGC_ZONE_CATALOG D))
    \<and> wmo_office_entry D code =
        Option.bind (normalize_wmo_office code) (\<lambda>k. find (\<lambda>e. wo_code e = k) (WMO_OFFICE_CATALOG D))
    \<and> text_product_catalog_entry D code =
        Option.bind (normalize_pil code) (\<lambda>k. find (\<lambda>e. tp_pil e = k) (TEXT_PRODUCT_CATALOG D))"
  using assms
  by (simp add: catalogs_sorted_def nwslid_entry_def ugc_county_entry_def ugc_zone_entry_def wmo_office_entry_def
      text_product_catalog_entry_def search_entry_find)

definition sample_catalogs :: "int catalogs" where
  "sample_catalogs =
     \<lparr>NWSLID_CATALOG = [], UGC_COUNTY_CATALOG =
        [\<lparr>ul_code = ''IAC001'', ul_name = ''Adair'', ul_latitude = 41, ul_longitude = - 94\<rparr>,
         \<lparr>ul_code = ''IAC003'', ul_name = ''Adams'', ul_latitude = 41, ul_longitude = - 95\<rparr>,
         \<lparr>ul_code = ''MNC049'', ul_name = ''Goodhue'', ul_latitude = 44, ul_longitude = - 93\<rparr>],
      UGC_ZONE_CATALOG = [], WMO_OFFICE_CATALOG = [], TEXT_PRODUCT_CATALOG = []\<rparr>"

theorem catalog_lookups_exact_witness:
  "ugc_county_entry sample_catalogs ''iac003'' =
     Some \<lparr>ul_code = ''IAC003'', ul_name = ''Adams'', ul_latitude = 41, ul_longitude = - 95\<rparr>"
proof -
  have "catalogs_sorted sample_catalogs"
    by (simp add: catalogs_sorted_def sample_catalogs_def less_list_code less_char_def)
  moreover have "normalize_ugc ''iac003'' (CHR ''C'') = Some ''IAC003''"
    by (simp add: normalize_ugc_def trim_graphic is_graphic_def to_ascii_uppercase_def ascii_upper_def
        is_ascii_lowercase_def is_ascii_uppercase_def is_ascii_digit_def char_of_def bit_0)
  ultimately show ?thesis
    using catalog_lookups_exact [of sample_catalogs "''iac003''"] by (simp add: sample_catalogs_def)
qed

text \<open>
  An AFOS identifier with an override is routed as the override says, whatever the catalog says,
  and its body is never extracted.
\<close>

theorem override_takes_precedence:
  assumes "ov \<in> set AFOS_ROUTING_OVERRIDES" and "text_product_catalog_entry D (take 3 (ov_afos ov)) = Some base"
  shows "\<exists>p. resolved_text_product_policy D (ov_afos ov) = Some p \<and> Some (pol_routing p) = ov_routing ov
    \<and> Some (pol_title p) = ov_title ov \<and> pol_pil p = tp_pil base \<and> pol_extractors p = []"
proof -
  have "sorted_by ov_afos AFOS_ROUTING_OVERRIDES"
    by (simp add: AFOS_ROUTING_OVERRIDES_def less_list_code less_char_def)
  moreover obtain i where i: "i < length AFOS_ROUTING_OVERRIDES" "AFOS_ROUTING_OVERRIDES ! i = ov"
    using assms(1) by (auto simp: in_set_conv_nth)
  ultimately have "binary_search_by_key ov_afos (ov_afos ov) AFOS_ROUTING_OVERRIDES = Some i"
    by (simp add: binary_search_exact)
  moreover have "str_get (ov_afos ov) 0 3 = Some (take 3 (ov_afos ov))"
    "normalize_pil (take 3 (ov_afos ov)) = Some (take 3 (ov_afos ov))"
    "normalize_exact_afos (ov_afos ov) = Some (ov_afos ov)"
    "ov_body_behavior ov = Some BodyNever" "ov_routing ov \<noteq> None" "ov_title ov \<noteq> None"
    using assms(1)
    by (auto simp: AFOS_ROUTING_OVERRIDES_def str_get_def is_char_boundary_def is_cont_def bytes_of_def
        normalize_pil_def normalize_exact_afos_def trim_graphic is_graphic_def to_ascii_uppercase_def ascii_upper_def
        is_ascii_lowercase_def is_ascii_alphanumeric_def is_ascii_alphabetic_def is_ascii_uppercase_def
        is_ascii_digit_def)
  ultimately show ?thesis
    using assms(2) i by (auto simp: resolved_text_product_policy_def Let_def unwrap_or_def)
qed

end
