(* ===== verification/Ugc.thy ===== *)
theory Ugc
  imports Catalog
begin

text \<open>
  Universal Geographic Codes (\<open>emwin-parser/src/body/ugc.rs\<close>): sections of county and zone codes with
  an expiration time, written over several lines and with shorthand for repeated prefixes and
  ranges. Slicing a string off a character boundary panics; a function that slices returns
  \<open>None\<close> for that, so that an \<open>Option\<close> of the code appears as an option inside an option.
\<close>

type_synonym 'a panics = "'a option"

text \<open>\<open>&s[a..b]\<close>.\<close>

definition str_slice :: "string \<Rightarrow> nat \<Rightarrow> nat \<Rightarrow> string panics" where
  "str_slice s a b = str_get s a b"

definition trim_end_matches :: "char \<Rightarrow> string \<Rightarrow> string" where
  "trim_end_matches c s = rev (dropWhile ((=) c) (rev s))"

text \<open>\<open>(condition).then_some(value)\<close>.\<close>

definition then_some :: "bool \<Rightarrow> 'a \<Rightarrow> 'a option" where
  "then_some b x = (if b then Some x else None)"

subsection \<open>Data\<close>

record 'f UgcArea =
  area_id :: u16
  area_name :: "string option"
  area_lat :: "'f option"
  area_lon :: "'f option"

type_synonym 'f area_map = "(string \<times> 'f UgcArea list) list"

record 'f UgcSection =
  counties :: "'f area_map"
  zones :: "'f area_map"
  fire_zones :: "'f area_map"
  marine_zones :: "'f area_map"
  expires :: datetime

datatype UgcClass = County | Zone | FireZone | Marine | UnknownClass

record UgcCode =
  ugc_state :: string
  geoclass :: UgcClass
  ugc_number :: u16

definition class_from_char :: "char \<Rightarrow> UgcClass" where
  "class_from_char c =
     (if c = CHR ''C'' then County else if c = CHR ''Z'' then Zone else if c = CHR ''F'' then FireZone
      else if c = CHR ''M'' then Marine else UnknownClass)"

fun class_as_char :: "UgcClass \<Rightarrow> char" where
  "class_as_char County = CHR ''C''"
| "class_as_char Zone = CHR ''Z''"
| "class_as_char FireZone = CHR ''F''"
| "class_as_char Marine = CHR ''M''"
| "class_as_char UnknownClass = CHR ''Z''"

subsection \<open>Grouping codes into a section\<close>

definition canonical_code :: "string \<Rightarrow> char \<Rightarrow> u16 \<Rightarrow> string" where
  "canonical_code state class_char number = state @ [class_char] @ pad_left 3 (CHR ''0'') (show_nat (unat number))"

definition build_area :: "UgcCode \<Rightarrow> (string \<Rightarrow> 'f UgcLocationEntry option) option \<Rightarrow> 'f UgcArea" where
  "build_area code look =
     (let canonical = canonical_code (ugc_state code) (class_as_char (geoclass code)) (ugc_number code);
          entry = Option.bind look (\<lambda>f. f canonical)
      in \<lparr>area_id = ugc_number code, area_name = map_option ul_name entry,
          area_lat = map_option ul_latitude entry, area_lon = map_option ul_longitude entry\<rparr>)"

definition is_marine_zone_state :: "string \<Rightarrow> bool" where
  "is_marine_zone_state state \<longleftrightarrow>
     state \<in> {''AM'', ''AN'', ''GM'', ''LC'', ''LE'', ''LH'', ''LM'', ''LO'', ''LS'', ''PH'', ''PK'', ''PM'', ''PS'',
       ''PZ'', ''SL''}"

text \<open>\<open>entry(state).or_insert_with(Vec::new).push(area)\<close>.\<close>

definition push_area :: "string \<Rightarrow> 'f UgcArea \<Rightarrow> 'f area_map \<Rightarrow> 'f area_map" where
  "push_area state area m =
     btree_insert state ((case map_of m state of Some areas \<Rightarrow> areas | None \<Rightarrow> []) @ [area]) m"

definition add_code :: "'f catalogs \<Rightarrow> UgcCode \<Rightarrow> 'f UgcSection \<Rightarrow> 'f UgcSection" where
  "add_code D code s =
     (case geoclass code of
        County \<Rightarrow>
          s\<lparr>counties := push_area (ugc_state code) (build_area code (Some (ugc_county_entry D))) (counties s)\<rparr>
      | FireZone \<Rightarrow> s\<lparr>fire_zones := push_area (ugc_state code) (build_area code None) (fire_zones s)\<rparr>
      | Marine \<Rightarrow> s\<lparr>marine_zones := push_area (ugc_state code) (build_area code None) (marine_zones s)\<rparr>
      | _ \<Rightarrow>
          if is_marine_zone_state (ugc_state code)
          then s\<lparr>marine_zones := push_area (ugc_state code) (build_area code (Some (ugc_zone_entry D))) (marine_zones s)\<rparr>
          else s\<lparr>zones := push_area (ugc_state code) (build_area code (Some (ugc_zone_entry D))) (zones s)\<rparr>)"

definition from_codes :: "'f catalogs \<Rightarrow> UgcCode list \<Rightarrow> datetime \<Rightarrow> 'f UgcSection" where
  "from_codes D codes expiry =
     fold (add_code D) codes
       \<lparr>counties = [], zones = [], fire_zones = [], marine_zones = [], expires = expiry\<rparr>"

subsection \<open>Finding candidates\<close>

definition iter_candidate_lines :: "string \<Rightarrow> string list" where
  "iter_candidate_lines text = map (trim_end_matches (CHR 0x0D)) (str_lines text)"

definition is_class_char :: "char \<Rightarrow> bool" where
  "is_class_char c \<longleftrightarrow> c = CHR ''C'' \<or> c = CHR ''Z'' \<or> c = CHR ''F'' \<or> c = CHR ''M''"

definition is_ugc_start :: "string \<Rightarrow> bool" where
  "is_ugc_start line =
     (case trim_start line of
        a # b # cls # d1 # d2 # d3 # rest \<Rightarrow>
          is_ascii_uppercase a \<and> is_ascii_uppercase b \<and> is_class_char cls
          \<and> is_ascii_digit d1 \<and> is_ascii_digit d2 \<and> is_ascii_digit d3
          \<and> (case rest of
               [] \<Rightarrow> True
             | c # _ \<Rightarrow> c = CHR ''-'' \<or> c = CHR ''>'' \<or> c = CHR '','' \<or> c = CHR '' '' \<or> c = CHR 0x09)
      | _ \<Rightarrow> False)"

definition has_ugc_expiration_suffix :: "string \<Rightarrow> bool panics" where
  "has_ugc_expiration_suffix text =
     (if length text \<ge> 8 \<and> ends_with text ''-''
      then map_option (\<lambda>w. list_all is_ascii_digit w \<and> text ! (length text - 8) = CHR ''-'')
             (str_slice text (length text - 7) (length text - 1))
      else Some False)"

definition is_heading_character :: "char \<Rightarrow> bool" where
  "is_heading_character c \<longleftrightarrow> is_ascii_uppercase c \<or> is_ascii_digit c \<or> c = CHR ''/'' \<or> c = CHR ''-''"

definition starts_new_section_header :: "string \<Rightarrow> bool" where
  "starts_new_section_header line =
     (let trimmed = trim line
      in if trimmed = [] then False
         else if ends_with trimmed '':'' \<or> str_contains trimmed ''...'' then True
         else
           let first_token = first_word trimmed
           in \<not> is_ugc_start trimmed \<and> length first_token \<ge> 4
              \<and> is_ascii_uppercase (hd first_token) \<and> list_all is_heading_character first_token)"

definition compact_ugc_text :: "string \<Rightarrow> string" where
  "compact_ugc_text text = remove_white text"

fun collect_loop :: "string \<Rightarrow> string list \<Rightarrow> (string \<times> string list) panics" where
  "collect_loop combined lines =
     (case has_ugc_expiration_suffix combined of
        None \<Rightarrow> None
      | Some True \<Rightarrow> Some (combined, lines)
      | Some False \<Rightarrow>
          (case lines of
             [] \<Rightarrow> Some (combined, [])
           | next_line # rest \<Rightarrow>
               let next = trim next_line
               in if next = [] \<or> starts_new_section_header next then Some (combined, lines)
                  else collect_loop (combined @ compact_ugc_text next) rest))"

declare collect_loop.simps [simp del]

definition collect_ugc_candidate :: "string \<Rightarrow> string list \<Rightarrow> (string option \<times> string list) panics" where
  "collect_ugc_candidate first_line lines =
     (case collect_loop (compact_ugc_text first_line) lines of
        None \<Rightarrow> None
      | Some (combined, rest) \<Rightarrow>
          map_option (\<lambda>complete. (then_some complete combined, rest)) (has_ugc_expiration_suffix combined))"

lemma collect_loop_length: "collect_loop combined lines = Some (c, rest) \<Longrightarrow> length rest \<le> length lines"
proof (induction combined lines rule: collect_loop.induct)
  case (1 combined lines)
  then show ?case
    by (subst (asm) collect_loop.simps) (fastforce simp: Let_def split: option.splits bool.splits list.splits if_splits)
qed

lemma collect_ugc_candidate_length:
  "collect_ugc_candidate line lines = Some (c, rest) \<Longrightarrow> length rest \<le> length lines"
  by (auto simp: collect_ugc_candidate_def dest: collect_loop_length split: option.splits)

function extract_candidates :: "string list \<Rightarrow> string list panics" where
  "extract_candidates [] = Some []"
| "extract_candidates (line # lines) =
     (if \<not> is_ugc_start line then extract_candidates lines
      else case collect_ugc_candidate line lines of
             None \<Rightarrow> None
           | Some (candidate, rest) \<Rightarrow>
               map_option (\<lambda>cs. (case candidate of Some c \<Rightarrow> c # cs | None \<Rightarrow> cs)) (extract_candidates rest))"
  by pat_completeness auto
termination
  by (relation "measure length") (auto dest!: collect_ugc_candidate_length)

definition extract_ugc_candidates :: "string \<Rightarrow> string list panics" where
  "extract_ugc_candidates text = extract_candidates (iter_candidate_lines text)"

subsection \<open>Numbers and ranges\<close>

definition is_three_digit_ugc_token :: "string \<Rightarrow> bool" where
  "is_three_digit_ugc_token token \<longleftrightarrow> length token = 3 \<and> list_all is_ascii_digit token"

definition is_one_to_three_digit_ugc_token :: "string \<Rightarrow> bool" where
  "is_one_to_three_digit_ugc_token token \<longleftrightarrow> 1 \<le> length token \<and> length token \<le> 3 \<and> list_all is_ascii_digit token"

definition parse_ugc_number :: "string \<Rightarrow> u16 option" where
  "parse_ugc_number text = (if \<not> is_three_digit_ugc_token text then None else parse_word text)"

definition is_ugc_numeric_sequence :: "string \<Rightarrow> bool" where
  "is_ugc_numeric_sequence segment =
     (let tokens = split_on (CHR ''>'') segment
      in is_three_digit_ugc_token (hd tokens)
         \<and> (if length tokens = 1 then True
            else if length tokens = 2 then is_one_to_three_digit_ugc_token (tokens ! 1)
            else even (length tokens) \<and> list_all is_one_to_three_digit_ugc_token (tl tokens)))"

definition parse_ugc_range_end :: "u16 \<Rightarrow> string \<Rightarrow> u16 option" where
  "parse_ugc_range_end start token =
     (if \<not> is_one_to_three_digit_ugc_token token then None
      else if length token = 3 then
        (case parse_ugc_number token of None \<Rightarrow> None | Some end_num \<Rightarrow> then_some (end_num \<ge> start) end_num)
      else
        (case parse_word token of
           None \<Rightarrow> None
         | Some suffix \<Rightarrow>
             if 10 ^ length token \<ge> (2 :: nat) ^ 16 then None
             else
               let magnitude = 10 ^ length token;
                   prefix = (start div magnitude) * magnitude;
                   end_num = prefix + suffix
               in then_some (end_num \<ge> start) end_num))"

fun range_pairs :: "string list \<Rightarrow> (u16 \<times> u16) list option" where
  "range_pairs (s # e # tokens) =
     (case parse_ugc_number s of
        None \<Rightarrow> None
      | Some start \<Rightarrow>
          (case parse_ugc_range_end start e of
             None \<Rightarrow> None
           | Some end_num \<Rightarrow> map_option ((#) (start, end_num)) (range_pairs tokens)))"
| "range_pairs _ = Some []"

definition parse_ugc_numeric_ranges :: "string \<Rightarrow> (u16 \<times> u16) list option" where
  "parse_ugc_numeric_ranges numeric =
     (let tokens = split_on (CHR ''>'') numeric
      in case parse_ugc_number (hd tokens) of
           None \<Rightarrow> None
         | Some first \<Rightarrow>
             if length tokens = 1 then Some [(first, first)]
             else if length tokens = 2 then
               (case parse_ugc_range_end first (tokens ! 1) of
                  None \<Rightarrow> None
                | Some end_num \<Rightarrow> Some [(first, end_num)])
             else if odd (length tokens) then None
             else range_pairs tokens)"

subsection \<open>Segments and sections\<close>

definition parse_full_ugc_segment :: "string \<Rightarrow> (string \<times> UgcClass \<times> string) option panics" where
  "parse_full_ugc_segment segment =
     (if length segment < 6 then Some None
      else case str_slice segment 0 2 of
             None \<Rightarrow> None
           | Some state \<Rightarrow>
               let cls = segment ! 2
               in if \<not> list_all is_ascii_uppercase state then Some None
                  else if \<not> is_class_char cls then Some None
                  else case str_slice segment 3 (length segment) of
                         None \<Rightarrow> None
                       | Some numeric \<Rightarrow>
                           Some (then_some (is_ugc_numeric_sequence numeric) (state, class_from_char cls, numeric)))"

type_synonym ugc_prefix = "(string \<times> UgcClass) option"

text \<open>\<open>start_num..=end_num\<close>, with a code for each number.\<close>

definition expand_range :: "string \<Rightarrow> UgcClass \<Rightarrow> u16 \<times> u16 \<Rightarrow> UgcCode list" where
  "expand_range state cls r =
     map (\<lambda>n. \<lparr>ugc_state = state, geoclass = cls, ugc_number = of_nat n\<rparr>) [unat (fst r)..<Suc (unat (snd r))]"

definition parse_ugc_segment :: "string \<Rightarrow> ugc_prefix \<Rightarrow> (UgcCode list \<times> ugc_prefix) option panics" where
  "parse_ugc_segment segment current_prefix =
     (case parse_full_ugc_segment segment of
        None \<Rightarrow> None
      | Some full \<Rightarrow>
          Some (Option.bind
            (case full of
               Some (state, cls, numeric) \<Rightarrow> Some (state, cls, numeric, Some (state, cls))
             | None \<Rightarrow>
                 if is_ugc_numeric_sequence segment
                 then map_option (\<lambda>(state, cls). (state, cls, segment, current_prefix)) current_prefix
                 else None)
            (\<lambda>(state, cls, numeric, prefix).
               map_option (\<lambda>ranges. (concat (map (expand_range state cls) ranges), prefix))
                 (parse_ugc_numeric_ranges numeric))))"

fun expand_segments :: "string list \<Rightarrow> ugc_prefix \<Rightarrow> UgcCode list option panics" where
  "expand_segments [] current_prefix = Some (Some [])"
| "expand_segments (segment # segments) current_prefix =
     (if segment = [] then expand_segments segments current_prefix
      else case parse_ugc_segment (trim segment) current_prefix of
             None \<Rightarrow> None
           | Some None \<Rightarrow> Some None
           | Some (Some (parsed, prefix)) \<Rightarrow>
               map_option (map_option ((@) parsed)) (expand_segments segments prefix))"

definition expand_ugc_block :: "string \<Rightarrow> UgcCode list option panics" where
  "expand_ugc_block block =
     map_option (\<lambda>result. (case result of Some codes \<Rightarrow> then_some (codes \<noteq> []) codes | None \<Rightarrow> None))
       (expand_segments (split_any (\<lambda>c. c = CHR '','' \<or> c = CHR ''-'') block) None)"

definition extract_expiration :: "string \<Rightarrow> (string \<times> string) option panics" where
  "extract_expiration text =
     (case has_ugc_expiration_suffix text of
        None \<Rightarrow> None
      | Some False \<Rightarrow> Some None
      | Some True \<Rightarrow>
          (let split_at = length text - 8
           in case str_slice text 0 split_at of
                None \<Rightarrow> None
              | Some code_block \<Rightarrow>
                  map_option (\<lambda>expire_code. Some (code_block, expire_code))
                    (str_slice text (split_at + 1) (length text - 1))))"

definition parse_expire_time :: "chrono_ext \<Rightarrow> string \<Rightarrow> datetime \<Rightarrow> datetime option panics" where
  "parse_expire_time C expire_code valid_time =
     (if length expire_code \<noteq> 6 then Some None
      else case str_slice expire_code 0 2 of
        None \<Rightarrow> None
      | Some dd \<Rightarrow> (case parse_word dd :: u32 option of
          None \<Rightarrow> Some None
        | Some day \<Rightarrow> (case str_slice expire_code 2 4 of
            None \<Rightarrow> None
          | Some hh \<Rightarrow> (case parse_word hh :: u32 option of
              None \<Rightarrow> Some None
            | Some hour \<Rightarrow> (case str_slice expire_code 4 6 of
                None \<Rightarrow> None
              | Some mm \<Rightarrow> (case parse_word mm :: u32 option of
                  None \<Rightarrow> Some None
                | Some minute \<Rightarrow>
                    Some (resolve_day_time_not_before C valid_time (unat day) (unat hour) (unat minute))))))))"

definition ugc_issue :: "string \<Rightarrow> string \<Rightarrow> string \<Rightarrow> ProductParseIssue" where
  "ugc_issue code what text =
     parse_issue ''ugc_parse'' code (''could not parse UGC '' @ what @ '': `'' @ text @ ''`'') (Some text)"

definition parse_ugc_capture ::
    "chrono_ext \<Rightarrow> 'f catalogs \<Rightarrow> string \<Rightarrow> datetime \<Rightarrow> (ProductParseIssue + 'f UgcSection) panics" where
  "parse_ugc_capture C D text valid_time =
     (case extract_expiration text of
        None \<Rightarrow> None
      | Some None \<Rightarrow> Some (Inl (ugc_issue ''invalid_ugc_format'' ''section'' text))
      | Some (Some (code_block, expire_code)) \<Rightarrow>
          (case expand_ugc_block code_block of
             None \<Rightarrow> None
           | Some None \<Rightarrow> Some (Inl (ugc_issue ''invalid_ugc_codes'' ''codes from section'' text))
           | Some (Some codes) \<Rightarrow>
               (case parse_expire_time C expire_code valid_time of
                  None \<Rightarrow> None
                | Some None \<Rightarrow> Some (Inl (ugc_issue ''invalid_ugc_expiration'' ''expiration from section'' text))
                | Some (Some expiry) \<Rightarrow> Some (Inr (from_codes D codes expiry)))))"

text \<open>A loop over candidates in which each of them may panic.\<close>

fun map_panics :: "('a \<Rightarrow> 'b panics) \<Rightarrow> 'a list \<Rightarrow> 'b list panics" where
  "map_panics f [] = Some []"
| "map_panics f (x # xs) =
     (case f x of None \<Rightarrow> None | Some y \<Rightarrow> map_option ((#) y) (map_panics f xs))"

definition parse_ugc_sections_with_issues ::
    "chrono_ext \<Rightarrow> 'f catalogs \<Rightarrow> string \<Rightarrow> datetime \<Rightarrow> ('f UgcSection list \<times> ProductParseIssue list) panics" where
  "parse_ugc_sections_with_issues C D text valid_time =
     (case extract_ugc_candidates text of
        None \<Rightarrow> None
      | Some candidates \<Rightarrow>
          map_option partition_results (map_panics (\<lambda>candidate. parse_ugc_capture C D candidate valid_time) candidates))"

definition parse_ugc_sections :: "chrono_ext \<Rightarrow> 'f catalogs \<Rightarrow> string \<Rightarrow> datetime \<Rightarrow> 'f UgcSection list panics" where
  "parse_ugc_sections C D text valid_time = map_option fst (parse_ugc_sections_with_issues C D text valid_time)"

end
