(* ===== verification/Ugc_Correct.thy ===== *)
theory Ugc_Correct
  imports Ugc Text_Support_Correct
begin

text \<open>
  The parser of geographic codes never panics on ASCII text, expands only three-digit numbers and a
  bounded number of them, and recovers exactly the sections that were written, however they are
  broken into lines. On text that is not ASCII it can panic.
\<close>

subsection \<open>ASCII text\<close>

lemma ascii_digits: "list_all is_ascii_digit s \<Longrightarrow> ascii s"
  by (auto simp: ascii_def list_all_iff is_ascii_digit_def)

lemma slice_ascii: "ascii s \<Longrightarrow> a \<le> b \<Longrightarrow> b \<le> length s \<Longrightarrow> str_slice s a b = Some (take (b - a) (drop a s))"
  by (simp add: str_slice_def str_get_def ascii_boundary)

lemma set_trim_seqs: "set (trim_seqs ws s) \<subseteq> set s"
proof (induction ws s rule: trim_seqs.induct)
  case (1 ws s)
  then show ?case
    by (subst trim_seqs.simps) (auto split: option.splits dest: in_set_dropD)
qed

lemma set_trim: "set (trim s) \<subseteq> set s"
  using set_trim_seqs [of "map rev unicode_white_space" "rev (trim_start s)"] set_trim_seqs [of unicode_white_space s]
  by (auto simp: trim_def trim_end_def trim_start_def)

lemma set_remove_white: "set (remove_white s) \<subseteq> set s"
proof (induction s rule: remove_white.induct)
  case (2 c cs)
  show ?case
  proof (cases "white_front (c # cs)")
    case None
    then show ?thesis using "2.IH" by auto
  next
    case (Some w)
    have "set (remove_white (drop (length w) (c # cs))) \<subseteq> set (c # cs)"
      using "2.IH"(2) [OF Some] set_drop_subset [of "length w" "c # cs"] by (rule subset_trans)
    with Some show ?thesis by simp
  qed
qed simp

lemma set_str_lines: "l \<in> set (str_lines s) \<Longrightarrow> set l \<subseteq> set s"
proof (induction s rule: str_lines.induct)
  case (1 s)
  show ?case
  proof (cases "split_once (CHR 0x0A) s")
    case None
    then show ?thesis using 1 by (subst (asm) (2) str_lines.simps) (auto split: if_splits)
  next
    case (Some p)
    then obtain i where p: "p = (take i s, drop (Suc i) s)" by (auto simp: split_once_def)
    have "s \<noteq> []" using "1.prems" by (auto simp: str_lines.simps [of "[]"])
    moreover have "l = take i s \<or> strip_suffix [CHR 0x0D] (take i s) = Some l \<or> l \<in> set (str_lines (drop (Suc i) s))"
      using "1.prems" Some p
      by (subst (asm) str_lines.simps) (auto split: if_splits option.splits)
    ultimately show ?thesis
      using "1.IH" [OF _ Some p [symmetric]]
      by (auto simp: strip_suffix_def split: if_splits dest: in_set_takeD in_set_dropD)
  qed
qed

lemma split_any_nonempty [simp]: "split_any P xs \<noteq> []"
  by (cases xs) (auto split: list.splits)

lemma split_any_append: "\<forall>c\<in>set xs. \<not> P c \<Longrightarrow> P d \<Longrightarrow> split_any P (xs @ d # ys) = xs # split_any P ys"
  by (induction xs) auto

lemma split_any_notin: "\<forall>c\<in>set xs. \<not> P c \<Longrightarrow> split_any P xs = [xs]"
  by (induction xs) auto

lemma set_split_any: "t \<in> set (split_any P s) \<Longrightarrow> set t \<subseteq> set s"
  by (induction s arbitrary: t) (auto split: if_splits list.splits, fastforce+)

lemmas ascii_parts = ascii_subset [OF _ set_trim] ascii_subset [OF _ set_remove_white]
  ascii_subset [OF _ set_str_lines] ascii_subset [OF _ set_split_any]

definition ends_section :: "string \<Rightarrow> bool" where
  "ends_section t \<longleftrightarrow> length t \<ge> 8 \<and> ends_with t ''-''
     \<and> list_all is_ascii_digit (take 6 (drop (length t - 7) t)) \<and> t ! (length t - 8) = CHR ''-''"

lemma suffix_ascii: "ascii t \<Longrightarrow> has_ugc_expiration_suffix t = Some (ends_section t)"
proof (cases "length t \<ge> 8")
  case True
  assume "ascii t"
  then have "str_slice t (length t - 7) (length t - 1) = Some (take 6 (drop (length t - 7) t))"
    using True by (subst slice_ascii) auto
  then show ?thesis using True by (simp add: has_ugc_expiration_suffix_def ends_section_def)
qed (simp add: has_ugc_expiration_suffix_def ends_section_def)

lemma expiration_ascii:
  assumes "ascii t"
  shows "extract_expiration t =
    Some (if ends_section t then Some (take (length t - 8) t, take 6 (drop (length t - 7) t)) else None)"
proof (cases "ends_section t")
  case True
  then have len: "length t \<ge> 8" by (simp add: ends_section_def)
  then have "str_slice t (length t - 8 + 1) (length t - 1) = Some (take 6 (drop (length t - 7) t))"
    using slice_ascii [OF assms, of "length t - 7" "length t - 1"] Suc_diff_le [of 8 "length t"] by simp
  with len True show ?thesis
    by (simp add: extract_expiration_def suffix_ascii [OF assms] slice_ascii [OF assms])
qed (simp add: extract_expiration_def suffix_ascii [OF assms])

lemma collect_ascii:
  "ascii combined \<Longrightarrow> \<forall>l\<in>set lines. ascii l
    \<Longrightarrow> \<exists>c rest. collect_loop combined lines = Some (c, rest) \<and> ascii c \<and> set rest \<subseteq> set lines"
proof (induction combined lines rule: collect_loop.induct)
  case (1 combined lines)
  obtain b where b: "has_ugc_expiration_suffix combined = Some b"
    using suffix_ascii [OF "1.prems"(1)] by blast
  show ?case
  proof (cases "b \<or> lines = []")
    case True
    then show ?thesis using b "1.prems" by (subst collect_loop.simps) (auto split: bool.splits)
  next
    case False
    then obtain l rest where lines: "lines = l # rest" by (cases lines) auto
    let ?next = "trim l"
    show ?thesis
    proof (cases "?next = [] \<or> starts_new_section_header ?next")
      case True
      then show ?thesis using b lines False "1.prems" by (subst collect_loop.simps) auto
    next
      case go: False
      have "ascii (combined @ compact_ugc_text ?next)"
        using "1.prems" lines by (auto simp: compact_ugc_text_def intro: ascii_parts)
      then show ?thesis
        using "1.IH" [OF b _ lines refl] b lines False go "1.prems"
        by (subst collect_loop.simps) fastforce
    qed
  qed
qed

lemma candidate_ascii:
  assumes "\<forall>l\<in>set (line # lines). ascii l"
  shows "\<exists>c rest. collect_ugc_candidate line lines = Some (c, rest) \<and> (\<forall>t. c = Some t \<longrightarrow> ascii t)
    \<and> set rest \<subseteq> set lines"
proof -
  have "ascii (compact_ugc_text line)"
    using assms by (auto simp: compact_ugc_text_def intro: ascii_parts)
  then obtain c rest where "collect_loop (compact_ugc_text line) lines = Some (c, rest)" "ascii c" "set rest \<subseteq> set lines"
    using collect_ascii assms by (metis list.set_intros(2))
  then show ?thesis
    by (auto simp: collect_ugc_candidate_def suffix_ascii then_some_def)
qed

lemma extract_ascii: "\<forall>l\<in>set lines. ascii l \<Longrightarrow> \<exists>cs. extract_candidates lines = Some cs \<and> (\<forall>c\<in>set cs. ascii c)"
proof (induction lines rule: extract_candidates.induct)
  case (2 line lines)
  show ?case
  proof (cases "is_ugc_start line")
    case True
    obtain c rest where c: "collect_ugc_candidate line lines = Some (c, rest)" "\<forall>t. c = Some t \<longrightarrow> ascii t"
      "set rest \<subseteq> set lines"
      using candidate_ascii "2.prems" by blast
    then show ?thesis
      using "2.IH"(2) [of "(c, rest)" c rest] "2.prems" True by (fastforce split: option.splits)
  qed (use 2 in auto)
qed simp

lemma segment_ascii:
  assumes "ascii s"
  shows "parse_ugc_segment s prefix \<noteq> None"
proof -
  have "parse_full_ugc_segment s \<noteq> None"
    using slice_ascii [OF assms, of 0 2] slice_ascii [OF assms, of 3 "length s"]
    by (auto simp: parse_full_ugc_segment_def Let_def)
  then show ?thesis by (auto simp: parse_ugc_segment_def)
qed

lemma segments_ascii: "\<forall>s\<in>set segments. ascii s \<Longrightarrow> expand_segments segments prefix \<noteq> None"
proof (induction segments prefix rule: expand_segments.induct)
  case (2 segment segments prefix)
  have "parse_ugc_segment (trim segment) prefix \<noteq> None"
    using "2.prems" by (intro segment_ascii ascii_parts(1)) auto
  then show ?case using 2 by (auto split: option.splits)
qed simp

lemma map_panics_total: "\<forall>x\<in>set xs. f x \<noteq> None \<Longrightarrow> map_panics f xs \<noteq> None"
  by (induction xs) auto

lemma capture_ascii:
  assumes "ascii t"
  shows "parse_ugc_capture C D t valid_time \<noteq> None"
proof -
  let ?block = "take (length t - 8) t" and ?e = "take 6 (drop (length t - 7) t)"
  have a: "ascii ?block" "ascii ?e" using assms by (auto intro: ascii_subset dest: in_set_takeD in_set_dropD)
  have "expand_segments (split_any P ?block) None \<noteq> None" for P
    using a(1) by (intro segments_ascii) (auto intro: ascii_parts)
  then have "expand_ugc_block ?block \<noteq> None" by (simp add: expand_ugc_block_def)
  moreover have "parse_expire_time C ?e valid_time \<noteq> None"
    using slice_ascii [OF a(2), of 0 2] slice_ascii [OF a(2), of 2 4] slice_ascii [OF a(2), of 4 6]
    by (auto simp: parse_expire_time_def split: option.splits)
  ultimately show ?thesis
    by (auto simp: parse_ugc_capture_def expiration_ascii [OF assms] split: option.splits)
qed

subsection \<open>Numbers and ranges\<close>

lemma digits_val_bound: "digits_val acc s = Some v \<Longrightarrow> v < Suc acc * 10 ^ length s"
proof (induction s arbitrary: acc)
  case (Cons c s)
  then obtain d where d: "digit_val c = Some d" "digits_val (10 * acc + d) s = Some v"
    by (auto split: option.splits)
  have "d \<le> 9" using d(1) by (auto simp: digit_val_def is_ascii_digit_def split: if_splits)
  have "v < Suc (10 * acc + d) * 10 ^ length s" by (rule Cons.IH [OF d(2)])
  also have "\<dots> \<le> (Suc acc * 10) * 10 ^ length s"
    using \<open>d \<le> 9\<close> by (intro mult_right_mono) auto
  finally show ?case by (simp only: mult.assoc length_Cons power_Suc)
qed simp

lemma parse_nat_bound: "parse_nat s = Some v \<Longrightarrow> v < 10 ^ length s"
proof -
  assume "parse_nat s = Some v"
  then obtain t where t: "digits_val 0 t = Some v" "length t \<le> length s"
    by (cases s) (auto simp: parse_nat_def simp del: digits_val.simps(2) split: if_splits)
  have "v < 10 ^ length t" using digits_val_bound [OF t(1)] by simp
  also have "\<dots> \<le> 10 ^ length s" using t(2) by (rule power_increasing) simp
  finally show ?thesis .
qed

lemma parse_word_bound: "parse_word s = Some (w :: 'a::len word) \<Longrightarrow> unat w < 10 ^ length s"
  by (auto simp: parse_word_def unat_of_nat dest: parse_nat_bound split: option.splits if_splits)

lemma parse_ugc_number_bound: "parse_ugc_number t = Some n \<Longrightarrow> unat n \<le> 999"
  using parse_word_bound [of t n]
  by (auto simp: parse_ugc_number_def is_three_digit_ugc_token_def split: if_splits)

lemma abbreviated_end:
  fixes start suffix :: u16
  assumes "unat start \<le> 999" and "k = 1 \<or> k = 2" and "unat suffix < 10 ^ k"
  shows "unat ((start div 10 ^ k) * 10 ^ k + suffix) = (unat start div 10 ^ k) * 10 ^ k + unat suffix"
    and "(unat start div 10 ^ k) * 10 ^ k + unat suffix \<le> 999"
proof -
  have m: "unat (10 ^ k :: u16) = 10 ^ k" using assms(2) by auto
  have le: "(unat start div 10 ^ k) * 10 ^ k \<le> 1000 - 10 ^ k"
  proof -
    have "unat start div 10 ^ k \<le> 999 div 10 ^ k" using assms(1) by (rule div_le_mono)
    then have "(unat start div 10 ^ k) * 10 ^ k \<le> (999 div 10 ^ k) * 10 ^ k" by (rule mult_right_mono) simp
    then show ?thesis using assms(2) by auto
  qed
  moreover have "(10 :: nat) ^ k \<le> 100" using assms(2) by auto
  ultimately show "(unat start div 10 ^ k) * 10 ^ k + unat suffix \<le> 999" using assms(3) by linarith
  have q: "unat start div 10 ^ k < 65536"
    using assms(1) div_le_dividend [of "unat start" "10 ^ k"] by linarith
  have "unat ((start div 10 ^ k) * 10 ^ k) = (unat start div 10 ^ k) * 10 ^ k"
    using le q by (simp add: unat_word_ariths unat_div_distrib m)
  then show "unat ((start div 10 ^ k) * 10 ^ k + suffix) = (unat start div 10 ^ k) * 10 ^ k + unat suffix"
    using le assms(3) \<open>(10 :: nat) ^ k \<le> 100\<close> by (simp add: unat_word_ariths)
qed

lemma range_end_bound:
  assumes "parse_ugc_range_end start t = Some e" and "unat start \<le> 999"
  shows "start \<le> e \<and> unat e \<le> 999"
proof (cases "length t = 3")
  case True
  then show ?thesis
    using assms parse_ugc_number_bound [of t]
    by (auto simp: parse_ugc_range_end_def then_some_def split: option.splits if_splits)
next
  case False
  have k: "length t = 1 \<or> length t = 2"
    using assms(1) False by (auto simp: parse_ugc_range_end_def is_one_to_three_digit_ugc_token_def split: if_splits)
  obtain suffix where suffix: "parse_word t = Some suffix"
    and e: "e = (start div 10 ^ length t) * 10 ^ length t + suffix" "start \<le> e"
    using assms(1) False by (auto simp: parse_ugc_range_end_def Let_def then_some_def split: option.splits if_splits)
  show ?thesis
    using abbreviated_end [OF assms(2) k parse_word_bound [OF suffix]] e by simp
qed

lemma range_pairs_bound:
  "range_pairs ts = Some rs \<Longrightarrow> length rs \<le> length ts \<and> (\<forall>r\<in>set rs. fst r \<le> snd r \<and> unat (snd r) \<le> 999)"
  by (induction ts arbitrary: rs rule: range_pairs.induct)
    (fastforce split: option.splits dest: parse_ugc_number_bound range_end_bound)+

lemma length_split_on: "length (split_on d xs) \<le> Suc (length xs)"
  by (induction xs) (auto split: list.splits)

lemma numeric_ranges_bound:
  assumes "parse_ugc_numeric_ranges numeric = Some rs"
  shows "length rs \<le> Suc (length numeric) \<and> (\<forall>r\<in>set rs. fst r \<le> snd r \<and> unat (snd r) \<le> 999)"
  using assms length_split_on [of "CHR ''>''" numeric] range_pairs_bound [of "split_on (CHR ''>'') numeric" rs]
  by (auto simp: parse_ugc_numeric_ranges_def Let_def split: option.splits if_splits
      dest: parse_ugc_number_bound range_end_bound)

definition three_digit_code :: "UgcCode \<Rightarrow> bool" where
  "three_digit_code c \<longleftrightarrow> unat (ugc_number c) \<le> 999"

lemma expand_range_bound:
  "unat (snd r) \<le> 999 \<Longrightarrow> length (expand_range st cls r) \<le> 1000 \<and> list_all three_digit_code (expand_range st cls r)"
  by (auto simp: expand_range_def list_all_iff three_digit_code_def unat_of_nat)

lemma full_segment_length: "parse_full_ugc_segment s = Some (Some (st, cls, numeric)) \<Longrightarrow> length numeric \<le> length s"
  by (auto simp: parse_full_ugc_segment_def Let_def str_slice_def str_get_def then_some_def
      split: option.splits if_splits)

lemma segment_bound:
  assumes "parse_ugc_segment s prefix = Some (Some (codes, prefix'))"
  shows "length codes \<le> 1000 * Suc (length s) \<and> list_all three_digit_code codes"
proof -
  obtain st cls numeric rs where rs: "parse_ugc_numeric_ranges numeric = Some rs" "length numeric \<le> length s"
    and codes: "codes = concat (map (expand_range st cls) rs)"
    using assms
    by (auto simp: parse_ugc_segment_def bind_eq_Some_conv split: option.splits if_splits dest: full_segment_length)
  note b = numeric_ranges_bound [OF rs(1)]
  have "length (concat (map (expand_range st cls) rs)) \<le> 1000 * length rs"
    using b by (induction rs) (auto dest: expand_range_bound [of _ st cls])
  moreover have "list_all three_digit_code codes"
    using b codes expand_range_bound [of _ st cls] by (auto simp: list_all_iff)
  ultimately show ?thesis using b rs(2) codes by fastforce
qed

lemma length_trim: "length (trim s) \<le> length s"
proof -
  have "length (trim_seqs ws t) \<le> length t" for ws :: "string list" and t
  proof (induction ws t rule: trim_seqs.induct)
    case (1 ws t)
    then show ?case by (subst trim_seqs.simps) (fastforce split: option.splits)
  qed
  from this [of unicode_white_space s] this [of "map rev unicode_white_space" "rev (trim_start s)"]
  show ?thesis by (simp add: trim_def trim_end_def trim_start_def)
qed

lemma segments_bound:
  "expand_segments segments prefix = Some (Some codes)
    \<Longrightarrow> length codes \<le> 1000 * (\<Sum>s\<leftarrow>segments. Suc (length s)) \<and> list_all three_digit_code codes"
proof (induction segments prefix arbitrary: codes rule: expand_segments.induct)
  case (2 segment segments prefix)
  show ?case
  proof (cases "segment = []")
    case True
    with 2 show ?thesis by fastforce
  next
    case False
    then obtain parsed prefix' rest where p: "parse_ugc_segment (trim segment) prefix = Some (Some (parsed, prefix'))"
      and rest: "expand_segments segments prefix' = Some (Some rest)" "codes = parsed @ rest"
      using "2.prems" by (auto split: option.splits)
    show ?thesis
      using segment_bound [OF p] "2.IH"(2) [OF False p refl refl rest(1)] rest(2) length_trim [of segment] by auto
  qed
qed simp

lemma length_split_any: "(\<Sum>s\<leftarrow>split_any P xs. Suc (length s)) = Suc (length xs)"
  by (induction xs) (auto split: list.splits)

subsection \<open>Grouping\<close>

datatype ugc_bucket = CountyBucket | ZoneBucket | FireBucket | MarineBucket

fun bucket_map :: "ugc_bucket \<Rightarrow> 'f UgcSection \<Rightarrow> 'f area_map" where
  "bucket_map CountyBucket s = counties s"
| "bucket_map ZoneBucket s = zones s"
| "bucket_map FireBucket s = fire_zones s"
| "bucket_map MarineBucket s = marine_zones s"

text \<open>Zone codes over the sea are marine zones.\<close>

definition bucket_of :: "UgcCode \<Rightarrow> ugc_bucket" where
  "bucket_of c =
     (case geoclass c of
        County \<Rightarrow> CountyBucket
      | FireZone \<Rightarrow> FireBucket
      | Marine \<Rightarrow> MarineBucket
      | _ \<Rightarrow> if is_marine_zone_state (ugc_state c) then MarineBucket else ZoneBucket)"

definition area_of :: "'f catalogs \<Rightarrow> UgcCode \<Rightarrow> 'f UgcArea" where
  "area_of D c =
     build_area c (case geoclass c of
        County \<Rightarrow> Some (ugc_county_entry D)
      | FireZone \<Rightarrow> None
      | Marine \<Rightarrow> None
      | _ \<Rightarrow> Some (ugc_zone_entry D))"

lemma bucket_add_code:
  "bucket_map b (add_code D c s) =
     (if bucket_of c = b then push_area (ugc_state c) (area_of D c) (bucket_map b s) else bucket_map b s)"
  by (cases b) (auto simp: add_code_def bucket_of_def area_of_def split: UgcClass.splits)

lemma from_codes_snoc: "from_codes D (codes @ [c]) e = add_code D c (from_codes D codes e)"
  by (simp add: from_codes_def)

lemma bucket_from_codes:
  "btree_wf (bucket_map b (from_codes D codes e))
    \<and> map_of (bucket_map b (from_codes D codes e)) st =
        (let areas = map (area_of D) (filter (\<lambda>c. bucket_of c = b \<and> ugc_state c = st) codes)
         in if areas = [] then None else Some areas)"
proof (induction codes arbitrary: st rule: rev_induct)
  case Nil
  then show ?case by (cases b) (simp_all add: from_codes_def btree_wf_def)
next
  case (snoc c codes)
  then have wf: "btree_wf (bucket_map b (from_codes D codes e))" by blast
  show ?case
    using snoc [of st] snoc [of "ugc_state c"] wf
    by (auto simp: from_codes_snoc bucket_add_code push_area_def btree_wf_insert map_of_btree_insert Let_def
        filter_empty_conv split: option.splits if_splits)
qed

lemma expires_from_codes: "expires (from_codes D codes e) = e"
  by (induction codes rule: rev_induct)
    (auto simp: from_codes_snoc add_code_def from_codes_def split: UgcClass.splits)

subsection \<open>Sections on the wire\<close>

abbreviation pad3 :: "u16 \<Rightarrow> string" where
  "pad3 n \<equiv> pad_left 3 (CHR ''0'') (show_nat (unat n))"

fun range_text :: "u16 \<times> u16 \<Rightarrow> string" where
  "range_text (a, b) = (if a = b then pad3 a else pad3 a @ ''>'' @ pad3 b)"

definition range_ok :: "u16 \<times> u16 \<Rightarrow> bool" where
  "range_ok r \<longleftrightarrow> fst r \<le> snd r \<and> unat (snd r) \<le> 999"

record ugc_group =
  gr_state :: string
  gr_class :: UgcClass
  gr_first :: "u16 \<times> u16"
  gr_rest :: "(u16 \<times> u16) list"

definition group_ok :: "ugc_group \<Rightarrow> bool" where
  "group_ok g \<longleftrightarrow> length (gr_state g) = 2 \<and> list_all is_ascii_uppercase (gr_state g) \<and> gr_class g \<noteq> UnknownClass
     \<and> list_all range_ok (gr_first g # gr_rest g)"

definition group_segments :: "ugc_group \<Rightarrow> string list" where
  "group_segments g =
     (gr_state g @ [class_as_char (gr_class g)] @ range_text (gr_first g)) # map range_text (gr_rest g)"

definition group_codes :: "ugc_group \<Rightarrow> UgcCode list" where
  "group_codes g = concat (map (expand_range (gr_state g) (gr_class g)) (gr_first g # gr_rest g))"

lemma pad3_token: "unat n \<le> 999 \<Longrightarrow> is_three_digit_ugc_token (pad3 n)"
  using length_pad_left [of "unat n" 2] pad_left_digits
  by (simp add: is_three_digit_ugc_token_def numeral_eq_Suc)

lemma pad3_number: "unat n \<le> 999 \<Longrightarrow> parse_ugc_number (pad3 n) = Some n"
  by (simp add: parse_ugc_number_def pad3_token parse_word_padded)

lemma three_digit_weaken: "is_three_digit_ugc_token t \<Longrightarrow> is_one_to_three_digit_ugc_token t"
  by (simp add: is_three_digit_ugc_token_def is_one_to_three_digit_ugc_token_def)

lemma range_tokens:
  assumes "range_ok (a, b)"
  shows "split_on (CHR ''>'') (range_text (a, b)) = (if a = b then [pad3 a] else [pad3 a, pad3 b])"
proof -
  have "CHR ''>'' \<notin> set (pad3 n)" for n
    using pad_left_digits [of 3 "unat n"] by (auto simp: list_all_iff is_ascii_digit_def)
  then show ?thesis by (auto simp: split_on_notin split_on_append)
qed

lemma range_ok_unat: "range_ok (a, b) \<Longrightarrow> unat a \<le> 999 \<and> unat b \<le> 999"
  by (auto simp: range_ok_def word_le_nat_alt)

lemma range_sequence: "range_ok r \<Longrightarrow> is_ugc_numeric_sequence (range_text r)"
  by (cases r) (simp add: is_ugc_numeric_sequence_def range_tokens range_ok_unat pad3_token three_digit_weaken
      del: range_text.simps)

lemma range_parsed: "range_ok r \<Longrightarrow> parse_ugc_numeric_ranges (range_text r) = Some [r]"
proof (cases r)
  case (Pair a b)
  assume ok: "range_ok r"
  have u: "unat a \<le> 999" "unat b \<le> 999" using ok range_ok_unat Pair by auto
  have "length (pad3 b) = 3" using pad3_token [OF u(2)] by (simp add: is_three_digit_ugc_token_def)
  then have "parse_ugc_range_end a (pad3 b) = Some b"
    using u ok Pair
    by (simp add: parse_ugc_range_end_def pad3_token three_digit_weaken pad3_number then_some_def range_ok_def)
  then show ?thesis
    using u ok Pair by (simp add: parse_ugc_numeric_ranges_def range_tokens pad3_number del: range_text.simps)
qed

text \<open>Segments as they appear on the wire: a code, or a number or range under the last prefix.\<close>

definition wire_char :: "char \<Rightarrow> bool" where
  "wire_char c \<longleftrightarrow> is_ascii_uppercase c \<or> is_ascii_digit c \<or> c = CHR ''>''"

definition starts_code :: "string \<Rightarrow> bool" where
  "starts_code s =
     (case s of
        a # b # c # d1 # d2 # d3 # rest \<Rightarrow>
          is_ascii_uppercase a \<and> is_ascii_uppercase b \<and> is_class_char c \<and> is_ascii_digit d1 \<and> is_ascii_digit d2
          \<and> is_ascii_digit d3 \<and> (rest = [] \<or> hd rest = CHR ''>'')
      | _ \<Rightarrow> False)"

definition wire_segment :: "string \<Rightarrow> bool" where
  "wire_segment s \<longleftrightarrow> s \<noteq> [] \<and> list_all wire_char s \<and> (is_ascii_digit (hd s) \<or> starts_code s)"

definition six_digits :: "string \<Rightarrow> bool" where
  "six_digits s \<longleftrightarrow> length s = 6 \<and> list_all is_ascii_digit s"

lemma wire_char_graphic: "wire_char c \<Longrightarrow> is_graphic c"
  by (auto simp: wire_char_def is_graphic_def is_ascii_uppercase_def is_ascii_digit_def)

lemma wire_char_no_sep: "\<not> wire_char (CHR ''-'')" "\<not> wire_char (CHR '','')" "\<not> wire_char (CHR ''.'')"
  by (simp_all add: wire_char_def is_ascii_uppercase_def is_ascii_digit_def)

lemma digits_wire: "list_all is_ascii_digit s \<Longrightarrow> list_all wire_char s"
  by (auto simp: list_all_iff wire_char_def)

lemma six_digits_wire: "six_digits s \<Longrightarrow> wire_segment s"
  using digits_wire [of s] by (cases s) (auto simp: six_digits_def wire_segment_def)

lemma pad3_digits:
  assumes "unat n \<le> 999"
  obtains d1 d2 d3 where "pad3 n = [d1, d2, d3]" "is_ascii_digit d1" "is_ascii_digit d2" "is_ascii_digit d3"
  using pad3_token [OF assms] that
  by (auto simp: is_three_digit_ugc_token_def numeral_eq_Suc length_Suc_conv)

lemma range_digits:
  assumes "range_ok r"
  obtains d1 d2 d3 rest where "range_text r = d1 # d2 # d3 # rest" "list_all is_ascii_digit [d1, d2, d3]"
    "rest = [] \<or> length rest = 4 \<and> hd rest = CHR ''>'' \<and> list_all wire_char rest"
proof -
  obtain a b where r: "r = (a, b)" by (cases r)
  then have u: "unat a \<le> 999" "unat b \<le> 999" using assms range_ok_unat by auto
  obtain d1 d2 d3 where d: "pad3 a = [d1, d2, d3]" "is_ascii_digit d1" "is_ascii_digit d2" "is_ascii_digit d3"
    using pad3_digits [OF u(1)] by blast
  obtain e1 e2 e3 where e: "pad3 b = [e1, e2, e3]" "is_ascii_digit e1" "is_ascii_digit e2" "is_ascii_digit e3"
    using pad3_digits [OF u(2)] by blast
  let ?rest = "if a = b then [] else [CHR ''>'', e1, e2, e3]"
  have "range_text r = d1 # d2 # d3 # ?rest" using d(1) e(1) by (auto simp: r)
  moreover have "?rest = [] \<or> length ?rest = 4 \<and> hd ?rest = CHR ''>'' \<and> list_all wire_char ?rest"
    using e by (simp add: wire_char_def)
  ultimately show thesis using d by (intro that [of d1 d2 d3 ?rest]) auto
qed

lemma range_segment:
  assumes "range_ok r"
  shows "wire_segment (range_text r)" "\<not> six_digits (range_text r)"
proof -
  obtain d1 d2 d3 rest where d: "range_text r = d1 # d2 # d3 # rest" "list_all is_ascii_digit [d1, d2, d3]"
    "rest = [] \<or> length rest = 4 \<and> hd rest = CHR ''>'' \<and> list_all wire_char rest"
    using range_digits [OF assms] by blast
  then show "wire_segment (range_text r)" "\<not> six_digits (range_text r)"
    by (auto simp: wire_segment_def six_digits_def wire_char_def)
qed

lemma class_char: "cls \<noteq> UnknownClass \<Longrightarrow> is_class_char (class_as_char cls) \<and> is_ascii_uppercase (class_as_char cls)
    \<and> class_from_char (class_as_char cls) = cls"
  by (cases cls) (simp_all add: is_class_char_def is_ascii_uppercase_def class_from_char_def)

lemma full_segment:
  assumes "length st = 2" "list_all is_ascii_uppercase st" "cls \<noteq> UnknownClass" "range_ok r"
  defines "s \<equiv> st @ [class_as_char cls] @ range_text r"
  shows "wire_segment s" "\<not> six_digits s" "starts_code s"
    "parse_full_ugc_segment s = Some (Some (st, cls, range_text r))"
proof -
  obtain x y where st: "st = [x, y]" "is_ascii_uppercase x" "is_ascii_uppercase y"
    using assms(1,2) by (auto simp: numeral_eq_Suc length_Suc_conv)
  obtain d1 d2 d3 rest where d: "range_text r = d1 # d2 # d3 # rest" "list_all is_ascii_digit [d1, d2, d3]"
    "rest = [] \<or> length rest = 4 \<and> hd rest = CHR ''>'' \<and> list_all wire_char rest"
    using range_digits [OF assms(4)] by blast
  note c = class_char [OF assms(3)]
  show seg: "starts_code s" "wire_segment s"
    using d st c by (auto simp: s_def starts_code_def wire_segment_def wire_char_def)
  show "\<not> six_digits s"
    using st by (auto simp: s_def six_digits_def is_ascii_digit_def is_ascii_uppercase_def)
  have "ascii s"
    using seg(2) by (auto simp: wire_segment_def list_all_iff ascii_def wire_char_def is_ascii_uppercase_def
        is_ascii_digit_def)
  then show "parse_full_ugc_segment s = Some (Some (st, cls, range_text r))"
    using d(1) st c range_sequence [OF assms(4)] slice_ascii [of s 0 2] slice_ascii [of s 3 "length s"]
    by (simp add: parse_full_ugc_segment_def then_some_def s_def numeral_eq_Suc)
qed

lemma wire_segment_trim: "wire_segment s \<Longrightarrow> trim s = s"
  by (rule trim_graphic) (auto simp: wire_segment_def list_all_iff intro: wire_char_graphic)

lemma short_segment:
  assumes "range_ok r"
  shows "parse_ugc_segment (range_text r) (Some (st, cls)) = Some (Some (expand_range st cls r, Some (st, cls)))"
proof -
  obtain d1 d2 d3 rest where d: "range_text r = d1 # d2 # d3 # rest" "list_all is_ascii_digit [d1, d2, d3]"
    by (rule range_digits [OF assms])
  have "wire_segment (range_text r)" by (rule range_segment [OF assms])
  then have "ascii (range_text r)"
    by (auto simp: wire_segment_def list_all_iff ascii_def wire_char_def is_ascii_uppercase_def is_ascii_digit_def)
  then have "parse_full_ugc_segment (range_text r) = Some None"
    using d slice_ascii [of "range_text r" 0 2]
    by (auto simp: parse_full_ugc_segment_def is_ascii_uppercase_def is_ascii_digit_def numeral_eq_Suc)
  then show ?thesis
    by (simp add: parse_ugc_segment_def range_sequence range_parsed assms)
qed

lemma expand_group:
  assumes "group_ok g"
  shows "expand_segments (group_segments g @ rest) prefix =
    map_option (map_option ((@) (group_codes g))) (expand_segments rest (Some (gr_state g, gr_class g)))"
proof -
  let ?p = "Some (gr_state g, gr_class g)" and ?x = "expand_range (gr_state g) (gr_class g)"
  have short: "expand_segments (map range_text rs @ rest) ?p =
      map_option (map_option ((@) (concat (map ?x rs)))) (expand_segments rest ?p)" if "list_all range_ok rs" for rs
    using that
  proof (induction rs)
    case Nil
    then show ?case by (simp add: option.map_ident option.map_ident_strong)
  next
    case (Cons r rs)
    then have "range_text r \<noteq> []" "trim (range_text r) = range_text r"
      using range_segment(1) [of r] wire_segment_trim by (auto simp: wire_segment_def)
    then show ?case
      using Cons short_segment [of r] by (simp add: option.map_comp comp_def del: range_text.simps)
  qed
  let ?s = "gr_state g @ [class_as_char (gr_class g)] @ range_text (gr_first g)"
  have "wire_segment ?s" "parse_full_ugc_segment ?s = Some (Some (gr_state g, gr_class g, range_text (gr_first g)))"
    using full_segment [of "gr_state g" "gr_class g" "gr_first g"] assms by (simp_all add: group_ok_def)
  then have "?s \<noteq> []" "trim ?s = ?s" "parse_ugc_segment ?s prefix = Some (Some (?x (gr_first g), ?p))"
    using assms by (simp_all add: wire_segment_trim parse_ugc_segment_def range_parsed group_ok_def)
  moreover have "(\<lambda>x. u @ v @ x) = (@) (u @ v)" for u v :: "UgcCode list" by auto
  ultimately show ?thesis
    using short [of "gr_rest g"] assms
    by (simp add: group_segments_def group_codes_def group_ok_def option.map_comp comp_def)
qed

lemma expand_groups:
  "list_all group_ok gs \<Longrightarrow> expand_segments (concat (map group_segments gs)) prefix = Some (Some (concat (map group_codes gs)))"
  by (induction gs arbitrary: prefix) (auto simp: expand_group)

lemma group_segments_wire:
  assumes "group_ok g"
  shows "\<forall>s\<in>set (group_segments g). wire_segment s \<and> \<not> six_digits s" "starts_code (hd (group_segments g))"
  using assms full_segment [of "gr_state g" "gr_class g" "gr_first g"] range_segment
  by (auto simp: group_segments_def group_ok_def list_all_iff)

lemma group_codes_nonempty: "group_ok g \<Longrightarrow> group_codes g \<noteq> []"
  by (auto simp: group_codes_def group_ok_def range_ok_def expand_range_def word_le_nat_alt)

subsection \<open>Lines\<close>

definition line_text :: "string list \<Rightarrow> string" where
  "line_text segs = concat (map (\<lambda>s. s @ ''-'') segs)"

lemma line_text_simps [simp]: "line_text [] = []" "line_text (s # segs) = s @ ''-'' @ line_text segs"
  "line_text (xs @ ys) = line_text xs @ line_text ys"
  by (simp_all add: line_text_def)

lemma line_text_end: "segs \<noteq> [] \<Longrightarrow> \<exists>p. line_text segs = p @ ''-''"
  by (cases segs rule: rev_cases) auto

lemma ends_section_line:
  assumes "CHR ''-'' \<notin> set s"
  shows "ends_section (line_text (done @ [s])) \<longleftrightarrow> six_digits s \<and> done \<noteq> []"
proof (cases "done = []")
  case True
  have "\<not> ends_section (s @ ''-'')"
  proof
    assume e: "ends_section (s @ ''-'')"
    then have "(s @ ''-'') ! (length s - 7) = CHR ''-''" "length s \<ge> 7" by (auto simp: ends_section_def)
    moreover from this have lt: "length s - 7 < length s" by linarith
    ultimately have "s ! (length s - 7) = CHR ''-''" by (simp add: nth_append)
    with assms nth_mem [OF lt] show False by simp
  qed
  with True show ?thesis by simp
next
  case False
  then obtain p where p: "line_text done = p @ ''-''" using line_text_end by blast
  let ?t = "p @ ''-'' @ s @ ''-''"
  have nth: "?t ! (length p + Suc i) = s ! i" if "i < length s" for i
    using that by (simp add: nth_append)
  consider "length s = 6" | "length s > 6" | "length s < 6" by linarith
  then have "ends_section ?t \<longleftrightarrow> six_digits s"
  proof cases
    case 1
    have "length ?t - 8 = length p" "length ?t - 7 = Suc (length p)" "length ?t \<ge> 8" using 1 by auto
    moreover have "?t = (p @ ''-'') @ s @ ''-''" by simp
    ultimately show ?thesis
      using 1 ends_with_append [of "p @ ''-'' @ s" "''-''"] by (simp add: ends_section_def six_digits_def)
  next
    case 2
    have "length ?t - 8 = length p + Suc (length s - 7)" using 2 by simp
    then have "?t ! (length ?t - 8) = ?t ! (length p + Suc (length s - 7))" by (rule arg_cong)
    also have "\<dots> = s ! (length s - 7)" using 2 by (intro nth) linarith
    finally have "?t ! (length ?t - 8) = s ! (length s - 7)" .
    moreover have "s ! (length s - 7) \<in> set s" using 2 by (intro nth_mem) linarith
    then have "s ! (length s - 7) \<noteq> CHR ''-''" using assms by auto
    ultimately show ?thesis using 2 by (simp add: ends_section_def six_digits_def)
  next
    case 3
    have "CHR ''-'' \<in> set (take 6 (drop (length ?t - 7) ?t))" if "length ?t \<ge> 8"
      using 3 that by simp
    moreover have "\<not> is_ascii_digit (CHR ''-'')" by (simp add: is_ascii_digit_def)
    ultimately have "\<not> ends_section ?t" unfolding ends_section_def list_all_iff by blast
    with 3 show ?thesis by (simp add: six_digits_def)
  qed
  with p False show ?thesis by simp
qed

lemma white_front_graphic: "is_graphic c \<Longrightarrow> white_front (c # cs) = None"
  using white_space_not_graphic
  by (fastforce simp: white_front_def find_None_iff starts_with_iff Cons_eq_append_conv)

lemma remove_white_graphic: "\<forall>c\<in>set s. is_graphic c \<Longrightarrow> remove_white s = s"
  by (induction s) (auto simp: white_front_graphic)

lemma first_word_graphic: "\<forall>c\<in>set s. is_graphic c \<Longrightarrow> first_word s = s"
  by (induction s) (auto simp: white_front_graphic)

lemma set_line_text: "\<forall>s\<in>set segs. wire_segment s \<Longrightarrow> c \<in> set (line_text segs) \<Longrightarrow> wire_char c \<or> c = CHR ''-''"
  by (induction segs) (auto simp: wire_segment_def list_all_iff)

lemma line_chars:
  assumes "\<forall>s\<in>set segs. wire_segment s"
  shows "\<forall>c\<in>set (line_text segs). is_graphic c" "ascii (line_text segs)"
    "CHR ''.'' \<notin> set (line_text segs)" "CHR 0x0A \<notin> set (line_text segs)"
  using set_line_text [OF assms]
  by (fastforce simp: wire_char_graphic is_graphic_def ascii_def wire_char_def is_ascii_uppercase_def
      is_ascii_digit_def)+

lemma line_trim:
  assumes "segs \<noteq> []" "\<forall>s\<in>set segs. wire_segment s"
  shows "line_text segs \<noteq> []" "trim (line_text segs) = line_text segs" "trim_start (line_text segs) = line_text segs"
proof -
  show ne: "line_text segs \<noteq> []" using assms(1) by (cases segs) auto
  have "is_graphic (hd (line_text segs))" "is_graphic (last (line_text segs))"
    using line_chars(1) [OF assms(2)] ne by auto
  then show "trim (line_text segs) = line_text segs" "trim_start (line_text segs) = line_text segs"
    using ne by (simp_all add: trim_graphic trim_start_graphic)
qed

lemma line_start: "starts_code s \<Longrightarrow> \<forall>t\<in>set (s # segs). wire_segment t \<Longrightarrow> is_ugc_start (line_text (s # segs))"
  using line_trim(3) [of "s # segs"]
  by (auto simp: is_ugc_start_def starts_code_def append_eq_Cons_conv split: list.splits)

lemma line_no_header:
  assumes "segs \<noteq> []" "\<forall>s\<in>set segs. wire_segment s"
  shows "\<not> starts_new_section_header (line_text segs)"
proof -
  obtain s rest where segs: "segs = s # rest" using assms(1) by (cases segs) auto
  then have hd: "hd (line_text segs) = hd s" "wire_segment s" using assms(2) by (auto simp: wire_segment_def)
  obtain p where "line_text segs = p @ ''-''" using line_text_end [OF assms(1)] by blast
  then have "\<not> ends_with (line_text segs) '':''" by (simp add: ends_with_def starts_with_def)
  moreover have "\<not> str_contains (line_text segs) ''...''"
    using line_chars(3) [OF assms(2)] by (simp add: str_contains_def find_sub_None_hd)
  moreover have "is_ugc_start (line_text segs) \<or> \<not> is_ascii_uppercase (hd (line_text segs))"
    using hd line_start [of s rest] assms(2) segs
    by (auto simp: wire_segment_def is_ascii_digit_def is_ascii_uppercase_def)
  ultimately show ?thesis
    using line_trim [OF assms] first_word_graphic [OF line_chars(1) [OF assms(2)]]
    by (auto simp: starts_new_section_header_def Let_def)
qed

text \<open>A section in parts: the segments on each line, the last of them the expiration time.\<close>

lemma collect_lines:
  assumes "\<forall>s\<in>set segs. wire_segment s \<and> \<not> six_digits s" "six_digits e" "segs \<noteq> []"
  shows "done \<noteq> [] \<Longrightarrow> [] \<notin> set parts \<Longrightarrow> done @ concat parts = segs @ [e]
    \<Longrightarrow> collect_loop (line_text done) (map line_text parts @ rest) = Some (line_text (segs @ [e]), rest)"
proof (induction parts arbitrary: "done")
  have wire: "\<forall>s\<in>set (segs @ [e]). wire_segment s" using assms six_digits_wire by auto
  have dash: "CHR ''-'' \<notin> set s" if "wire_segment s" for s
    using that wire_char_no_sep by (auto simp: wire_segment_def list_all_iff)
  {
    case Nil
    have "ends_section (line_text (segs @ [e]))"
      using assms six_digits_wire dash by (subst ends_section_line) auto
    then show ?case
      using Nil line_chars(2) [OF wire] by (subst collect_loop.simps) (simp add: suffix_ascii)
  next
    case (Cons part parts)
    have "set done \<union> set part \<subseteq> set (segs @ [e])"
      using Cons.prems(3) [symmetric] by auto
    with wire have part: "part \<noteq> []" "\<forall>s\<in>set part. wire_segment s" and done_wire: "\<forall>s\<in>set done. wire_segment s"
      using Cons.prems(2) by auto
    obtain d0 d where d: "done = d0 @ [d]" using Cons.prems(1) by (cases "done" rule: rev_cases) auto
    have "d \<in> set segs"
    proof -
      have "butlast (done @ part @ concat parts) = done @ butlast (part @ concat parts)"
        using part(1) by (simp add: butlast_append)
      then have "segs = done @ butlast (part @ concat parts)"
        using Cons.prems(3) by (metis butlast_snoc concat.simps(2))
      then show ?thesis using d by simp
    qed
    then have "\<not> ends_section (line_text done)"
      using assms(1) dash d by (subst d, subst ends_section_line) auto
    moreover have "ascii (line_text done)" by (rule line_chars(2) [OF done_wire])
    ultimately have "collect_loop (line_text done) (map line_text (part # parts) @ rest) =
        collect_loop (line_text (done @ part)) (map line_text parts @ rest)"
      using line_trim [OF part] line_no_header [OF part] remove_white_graphic [OF line_chars(1) [OF part(2)]]
      by (subst collect_loop.simps) (simp add: suffix_ascii compact_ugc_text_def)
    also have "\<dots> = Some (line_text (segs @ [e]), rest)"
      using Cons.prems by (intro Cons.IH) auto
    finally show ?case .
  }
qed

subsection \<open>Sections in a text\<close>

record ugc_block =
  ub_groups :: "ugc_group list"
  ub_year :: int
  ub_month :: nat
  ub_day :: nat
  ub_hour :: nat
  ub_minute :: nat
  ub_parts :: "string list list"

abbreviation pad2 :: "nat \<Rightarrow> string" where
  "pad2 n \<equiv> pad_left 2 (CHR ''0'') (show_nat n)"

definition block_segments :: "ugc_block \<Rightarrow> string list" where
  "block_segments b = concat (map group_segments (ub_groups b))"

definition block_expiry :: "ugc_block \<Rightarrow> string" where
  "block_expiry b = pad2 (ub_day b) @ pad2 (ub_hour b) @ pad2 (ub_minute b)"

definition block_time :: "ugc_block \<Rightarrow> datetime" where
  "block_time b = civil_instant (ub_year b) (ub_month b) (ub_day b) (ub_hour b) (ub_minute b)"

definition block_ok :: "datetime \<Rightarrow> ugc_block \<Rightarrow> bool" where
  "block_ok ref b \<longleftrightarrow>
     ub_groups b \<noteq> [] \<and> list_all group_ok (ub_groups b)
     \<and> valid_civil (ub_year b) (ub_month b) (ub_day b) \<and> ub_hour b < 24 \<and> ub_minute b < 60
     \<and> ref \<le> block_time b \<and> block_time b < ref + 28 * DAY
     \<and> [] \<notin> set (ub_parts b) \<and> concat (ub_parts b) = block_segments b @ [block_expiry b]"

definition block_section :: "'f catalogs \<Rightarrow> ugc_block \<Rightarrow> 'f UgcSection" where
  "block_section D b = from_codes D (concat (map group_codes (ub_groups b))) (block_time b)"

lemma pad2_digits: "n < 100 \<Longrightarrow> length (pad2 n) = 2 \<and> list_all is_ascii_digit (pad2 n)"
  using length_pad_left [of n 1] pad_left_digits by (simp add: numeral_2_eq_2)

lemma pad2_parse: "n < 100 \<Longrightarrow> parse_word (pad2 n) = Some (of_nat n :: u32)"
  using parse_word_padded [of 2 "of_nat n :: u32"] by (simp add: unat_of_nat)

lemma block_expiry_digits:
  assumes "block_ok ref b"
  shows "six_digits (block_expiry b)"
proof -
  have "ub_day b < 100"
    using assms days_in_month_bounds(2) [of "ub_year b" "ub_month b"] by (auto simp: block_ok_def valid_civil_def)
  then show ?thesis
    using assms pad2_digits [of "ub_day b"] pad2_digits [of "ub_hour b"] pad2_digits [of "ub_minute b"]
    by (simp add: block_ok_def six_digits_def block_expiry_def)
qed

lemma block_expiry_parsed:
  assumes "block_ok ref b" and "calendar_at C ref"
  shows "parse_expire_time C (block_expiry b) ref = Some (Some (block_time b))"
proof -
  have n: "ub_day b < 100" "ub_hour b < 100" "ub_minute b < 100"
    using assms days_in_month_bounds(2) [of "ub_year b" "ub_month b"] by (auto simp: block_ok_def valid_civil_def)
  have six: "six_digits (block_expiry b)" by (rule block_expiry_digits [OF assms(1)])
  then have ascii: "ascii (block_expiry b)" "length (block_expiry b) = 6"
    by (auto simp: six_digits_def ascii_digits)
  note len = pad2_digits [OF n(1), THEN conjunct1] pad2_digits [OF n(2), THEN conjunct1]
    pad2_digits [OF n(3), THEN conjunct1]
  have "str_slice (block_expiry b) 0 2 = Some (pad2 (ub_day b))"
    "str_slice (block_expiry b) 2 4 = Some (pad2 (ub_hour b))"
    "str_slice (block_expiry b) 4 6 = Some (pad2 (ub_minute b))"
    using len ascii by (simp_all add: slice_ascii) (simp_all add: block_expiry_def)
  moreover have "resolve_day_time_not_before C ref (ub_day b) (ub_hour b) (ub_minute b) = Some (block_time b)"
    using assms unfolding block_time_def
    by (intro day_time_not_before) (auto simp: block_ok_def block_time_def)
  ultimately show ?thesis
    using ascii(2) n by (simp add: parse_expire_time_def pad2_parse unat_of_nat)
qed

lemma block_segments_wire:
  assumes "block_ok ref b"
  shows "\<forall>s\<in>set (block_segments b). wire_segment s \<and> \<not> six_digits s" "block_segments b \<noteq> []"
    "starts_code (hd (block_segments b))"
proof -
  obtain g gs where g: "ub_groups b = g # gs" "group_ok g"
    using assms by (cases "ub_groups b") (auto simp: block_ok_def)
  have "group_segments g \<noteq> []" by (simp add: group_segments_def)
  then show "block_segments b \<noteq> []" "starts_code (hd (block_segments b))"
    using g group_segments_wire(2) by (simp_all add: block_segments_def)
  show "\<forall>s\<in>set (block_segments b). wire_segment s \<and> \<not> six_digits s"
    using assms group_segments_wire(1) by (auto simp: block_segments_def block_ok_def list_all_iff)
qed

lemma block_parsed:
  assumes "block_ok ref b" and "calendar_at C ref"
  shows "parse_ugc_capture C D (line_text (block_segments b @ [block_expiry b])) ref = Some (Inr (block_section D b))"
proof -
  let ?e = "block_expiry b" and ?sep = "\<lambda>c. c = CHR '','' \<or> c = CHR ''-''"
  let ?t = "line_text (block_segments b @ [?e])"
  note segs = block_segments_wire [OF assms(1)] and six = block_expiry_digits [OF assms(1)]
  have wire: "\<forall>s\<in>set (block_segments b @ [?e]). wire_segment s" using segs(1) six six_digits_wire by auto
  have nosep: "\<forall>c\<in>set s. \<not> ?sep c" if "wire_segment s" for s
    using that wire_char_no_sep by (auto simp: wire_segment_def list_all_iff)
  have "CHR ''-'' \<notin> set ?e" using nosep [OF six_digits_wire [OF six]] by blast
  then have "ends_section ?t" using ends_section_line [of ?e "block_segments b"] six segs(2) by blast
  moreover obtain p where p: "line_text (block_segments b) = p @ ''-''" using line_text_end [OF segs(2)] by blast
  moreover have "length ?e = 6" using six by (simp add: six_digits_def)
  ultimately have expiration: "extract_expiration ?t = Some (Some (p, ?e))"
    using expiration_ascii [OF line_chars(2) [OF wire]] by simp
  have lines: "split_any ?sep (line_text ss) = ss @ [[]]" if "\<forall>s\<in>set ss. wire_segment s" for ss
    using that
  proof (induction ss)
    case (Cons s ss)
    then show ?case using split_any_append [OF nosep [of s], of "CHR ''-''"] by simp
  qed simp
  have "split_any ?sep (p @ ''-'') = block_segments b @ [[]]"
    using lines [of "block_segments b"] p segs(1) by simp
  moreover have "split_any ?sep (p @ ''-'') = split_any ?sep p @ [[]]"
    by (induction p) (auto split: list.splits)
  ultimately have "split_any ?sep p = block_segments b" by simp
  then have "expand_ugc_block p = Some (Some (concat (map group_codes (ub_groups b))))"
    using assms(1) group_codes_nonempty expand_groups [of "ub_groups b" None]
    by (cases "ub_groups b") (auto simp: expand_ugc_block_def block_segments_def block_ok_def then_some_def)
  then show ?thesis
    using block_expiry_parsed [OF assms] expiration
    by (simp add: parse_ugc_capture_def block_section_def)
qed

text \<open>A text is a sequence of plain lines and sections.\<close>

fun item_lines :: "string + ugc_block \<Rightarrow> string list" where
  "item_lines (Inl line) = [line]"
| "item_lines (Inr b) = map line_text (ub_parts b)"

fun item_ok :: "datetime \<Rightarrow> string + ugc_block \<Rightarrow> bool" where
  "item_ok ref (Inl line) \<longleftrightarrow> \<not> is_ugc_start line \<and> CHR 0x0A \<notin> set line \<and> CHR 0x0D \<notin> set line"
| "item_ok ref (Inr b) \<longleftrightarrow> block_ok ref b"

definition ugc_text :: "string \<Rightarrow> (string + ugc_block) list \<Rightarrow> string" where
  "ugc_text eol items = concat (map (\<lambda>line. line @ eol) (concat (map item_lines items)))"

lemma extract_items:
  assumes "list_all (item_ok ref) items"
  shows "extract_candidates (concat (map item_lines items)) =
    Some (map (\<lambda>b. line_text (block_segments b @ [block_expiry b])) (List.map_filter (case_sum (\<lambda>_. None) Some) items))"
  using assms
proof (induction items)
  case (Cons item items)
  show ?case
  proof (cases item)
    case (Inl line)
    then show ?thesis using Cons by (simp add: map_filter_simps)
  next
    case (Inr b)
    then have ok: "block_ok ref b" using Cons.prems by simp
    note segs = block_segments_wire [OF ok] and six = block_expiry_digits [OF ok]
    obtain part parts where parts: "ub_parts b = part # parts"
      using ok by (cases "ub_parts b") (auto simp: block_ok_def)
    obtain s rest where part: "part = s # rest" using ok parts by (cases part) (auto simp: block_ok_def)
    have eq: "part @ concat parts = block_segments b @ [block_expiry b]" using ok parts by (simp add: block_ok_def)
    have "s = hd (block_segments b)" using eq part segs(2) by (metis append_Cons hd_append2 list.sel(1))
    moreover have "set part \<subseteq> set (block_segments b @ [block_expiry b])" using eq [symmetric] by simp
    then have wire: "\<forall>t\<in>set part. wire_segment t" using segs(1) six_digits_wire [OF six] by auto
    ultimately have start: "is_ugc_start (line_text part)" using line_start [of s rest] segs(3) part by simp
    let ?t = "line_text (block_segments b @ [block_expiry b])"
    have "collect_loop (line_text part) (map line_text parts @ rest) = Some (?t, rest)" for rest
      using ok parts part eq by (intro collect_lines segs six) (auto simp: block_ok_def)
    moreover have "has_ugc_expiration_suffix ?t = Some True"
    proof -
      have "\<forall>t\<in>set (block_segments b @ [block_expiry b]). wire_segment t" using segs(1) six six_digits_wire by auto
      moreover have "CHR ''-'' \<notin> set (block_expiry b)"
        using six_digits_wire [OF six] wire_char_no_sep by (auto simp: wire_segment_def list_all_iff)
      ultimately show ?thesis
        using suffix_ascii [OF line_chars(2)] ends_section_line segs(2) six by metis
    qed
    ultimately have "collect_ugc_candidate (line_text part) (map line_text parts @ rest) = Some (Some ?t, rest)" for rest
      using remove_white_graphic [OF line_chars(1) [OF wire]]
      by (simp add: collect_ugc_candidate_def compact_ugc_text_def then_some_def)
    then show ?thesis
      using Cons Inr start parts by (simp add: map_filter_simps)
  qed
qed (simp add: map_filter_simps)

lemma trim_end_matches_replicate: "c \<notin> set s \<Longrightarrow> trim_end_matches c (s @ replicate k c) = s"
proof -
  assume s: "c \<notin> set s"
  have "dropWhile ((=) c) (replicate k c @ rev s) = rev s"
    using s by (induction k) (auto simp: dropWhile_eq_self_iff hd_rev)
  then show ?thesis by (simp add: trim_end_matches_def)
qed

lemma strip_cr:
  assumes "CHR 0x0D \<notin> set s"
  shows "(case strip_suffix [CHR 0x0D] (s @ replicate k (CHR 0x0D)) of None \<Rightarrow> s @ replicate k (CHR 0x0D) | Some l \<Rightarrow> l) =
    s @ replicate (k - 1) (CHR 0x0D)"
proof (cases k)
  case 0
  have "\<not> ends_with s [CHR 0x0D]" using assms by (auto simp: ends_with_def starts_with_iff)
  with 0 show ?thesis by (simp add: strip_suffix_def)
next
  case (Suc n)
  then show ?thesis
    using strip_suffix_append [of "[CHR 0x0D]" "s @ replicate n (CHR 0x0D)"]
    by (simp add: replicate_append_same)
qed

lemma lines_with_eol:
  assumes "\<forall>l\<in>set ls. CHR 0x0A \<notin> set l \<and> CHR 0x0D \<notin> set l"
  shows "iter_candidate_lines (concat (map (\<lambda>l. l @ replicate k (CHR 0x0D) @ [CHR 0x0A]) ls)) = ls"
  using assms
proof (induction ls)
  case (Cons l ls)
  let ?rest = "concat (map (\<lambda>l. l @ replicate k (CHR 0x0D) @ [CHR 0x0A]) ls)"
  have "split_once (CHR 0x0A) ((l @ replicate k (CHR 0x0D)) @ CHR 0x0A # ?rest) = Some (l @ replicate k (CHR 0x0D), ?rest)"
    using Cons.prems by (intro split_once_append) auto
  then have "str_lines (concat (map (\<lambda>l. l @ replicate k (CHR 0x0D) @ [CHR 0x0A]) (l # ls))) =
      (l @ replicate (k - 1) (CHR 0x0D)) # str_lines ?rest"
    using strip_cr [of l k] Cons.prems by (subst str_lines.simps) simp
  then show ?case
    using Cons trim_end_matches_replicate [of "CHR 0x0D" l "k - 1"] by (simp add: iter_candidate_lines_def)
qed (simp add: iter_candidate_lines_def str_lines.simps)

lemma item_lines_ok:
  assumes "list_all (item_ok ref) items"
  shows "\<forall>l\<in>set (concat (map item_lines items)). CHR 0x0A \<notin> set l \<and> CHR 0x0D \<notin> set l"
proof -
  have "\<forall>l\<in>set (item_lines item). CHR 0x0A \<notin> set l \<and> CHR 0x0D \<notin> set l" if ok: "item_ok ref item" for item
  proof (cases item)
    case (Inr b)
    then have b: "block_ok ref b" using ok by simp
    have "set part \<subseteq> set (block_segments b @ [block_expiry b])" if "part \<in> set (ub_parts b)" for part
    proof -
      have "concat (ub_parts b) = block_segments b @ [block_expiry b]" using b by (simp add: block_ok_def)
      then show ?thesis using that by (metis concat_append concat.simps(2) le_supI1 le_supI2 order_refl set_append split_list)
    qed
    then have "\<forall>s\<in>set part. wire_segment s" if "part \<in> set (ub_parts b)" for part
      using that block_segments_wire(1) [OF b] six_digits_wire [OF block_expiry_digits [OF b]] by fastforce
    then have "\<forall>c\<in>set (line_text part). is_graphic c" if "part \<in> set (ub_parts b)" for part
      using that line_chars(1) by blast
    then show ?thesis using Inr by (fastforce simp: is_graphic_def)
  qed (use ok in simp)
  then show ?thesis using assms by (auto simp: list_all_iff)
qed

subsection \<open>Properties\<close>

text \<open>
  C13: From a text of plain lines and sections of geographic codes, with any number of carriage
  returns at the line ends and the sections broken into lines after any of their segments, the
  parser recovers exactly the sections: all codes of every range, and the expiration time that was
  meant when it is less than 28 days after the reference time.
\<close>

theorem ugc_sections_recovered:
  assumes "calendar_at C ref" and "list_all (item_ok ref) items"
  shows "parse_ugc_sections_with_issues C D (ugc_text (replicate k (CHR 0x0D) @ [CHR 0x0A]) items) ref =
    Some (map (block_section D) (List.map_filter (case_sum (\<lambda>_. None) Some) items), [])"
proof -
  let ?bs = "List.map_filter (case_sum (\<lambda>_. None) Some) items"
  have "\<forall>b\<in>set ?bs. block_ok ref b"
    using assms(2) by (induction items) (auto simp: map_filter_simps split: sum.splits)
  moreover have "map_panics (\<lambda>candidate. parse_ugc_capture C D candidate ref)
      (map (\<lambda>b. line_text (block_segments b @ [block_expiry b])) bs) = Some (map (\<lambda>b. Inr (block_section D b)) bs)"
    if "\<forall>b\<in>set bs. block_ok ref b" for bs
    using that by (induction bs) (simp_all add: block_parsed [OF _ assms(1)] del: line_text_simps)
  ultimately show ?thesis
    using lines_with_eol [OF item_lines_ok [OF assms(2)]] extract_items [OF assms(2)]
    by (simp add: parse_ugc_sections_with_issues_def extract_ugc_candidates_def ugc_text_def
        del: line_text_simps)
qed

text \<open>
  On ASCII text the parser of geographic codes never panics.
\<close>

theorem ugc_parser_total_on_ascii:
  assumes "ascii text"
  shows "parse_ugc_sections_with_issues C D text valid_time \<noteq> None"
proof -
  have trimmed: "set (trim_end_matches c l) \<subseteq> set l" for c l
    by (auto simp: trim_end_matches_def dest: set_dropWhileD)
  have "ascii (trim_end_matches c l)" if "l \<in> set (str_lines text)" for c l
    by (rule ascii_subset [OF ascii_parts(3) [OF assms that] trimmed])
  then have "\<forall>l\<in>set (iter_candidate_lines text). ascii l"
    by (simp add: iter_candidate_lines_def)
  then obtain cs where "extract_ugc_candidates text = Some cs" "\<forall>c\<in>set cs. ascii c"
    using extract_ascii [of "iter_candidate_lines text"] unfolding extract_ugc_candidates_def by blast
  moreover from this(2) have "map_panics (\<lambda>candidate. parse_ugc_capture C D candidate valid_time) cs \<noteq> None"
    using capture_ascii by (intro map_panics_total) blast
  ultimately show ?thesis by (auto simp: parse_ugc_sections_with_issues_def)
qed

text \<open>
  Every code of an expanded block has a three-digit number, and there are at most a thousand
  codes per byte of the block.
\<close>

theorem ugc_expansion_bounded:
  assumes "expand_ugc_block block = Some (Some codes)"
  shows "length codes \<le> 1000 * Suc (length block) \<and> list_all three_digit_code codes"
proof -
  have "expand_segments (split_any (\<lambda>c. c = CHR '','' \<or> c = CHR ''-'') block) None = Some (Some codes)"
    using assms by (auto simp: expand_ugc_block_def then_some_def split: option.splits if_splits)
  from segments_bound [OF this] show ?thesis by (simp only: length_split_any)
qed

text \<open>
  A section keeps every code: in each of its four maps, the areas of a state are those of the
  codes of that kind and state, in order, and the states are sorted.
\<close>

theorem section_keeps_codes:
  "btree_wf (bucket_map b (from_codes D codes e))
    \<and> map_of (bucket_map b (from_codes D codes e)) st =
        (let areas = map (area_of D) (filter (\<lambda>c. bucket_of c = b \<and> ugc_state c = st) codes)
         in if areas = [] then None else Some areas)
    \<and> expires (from_codes D codes e) = e"
  using bucket_from_codes [of b D codes e st] by (simp add: expires_from_codes)

lemma pad_small:
  "n < 10 \<Longrightarrow> pad_left 3 (CHR ''0'') (show_nat n) = [CHR ''0'', CHR ''0'', char_of (48 + n)]"
  "n < 10 \<Longrightarrow> pad_left 2 (CHR ''0'') (show_nat n) = [CHR ''0'', char_of (48 + n)]"
  "10 \<le> n \<Longrightarrow> n < 100 \<Longrightarrow> pad_left 2 (CHR ''0'') (show_nat n) = [char_of (48 + n div 10), char_of (48 + n mod 10)]"
proof -
  have one: "show_nat k = [char_of (48 + k)]" if "k < 10" for k
    using that by (subst show_nat.simps) simp
  have two: "show_nat n = [char_of (48 + n div 10), char_of (48 + n mod 10)]" if "10 \<le> n" "n < 100"
    using that one [of "n div 10"] by (subst show_nat.simps) simp
  show "pad_left 3 (CHR ''0'') (show_nat n) = [CHR ''0'', CHR ''0'', char_of (48 + n)]" if "n < 10"
    using that by (simp add: one pad_left_def numeral_2_eq_2)
  show "pad_left 2 (CHR ''0'') (show_nat n) = [CHR ''0'', char_of (48 + n)]" if "n < 10"
    using that by (simp add: one pad_left_def)
  show "pad_left 2 (CHR ''0'') (show_nat n) = [char_of (48 + n div 10), char_of (48 + n mod 10)]"
    if "10 \<le> n" "n < 100"
    using two [OF that] by (simp add: pad_left_def)
qed

definition sample_group :: ugc_group where
  "sample_group = \<lparr>gr_state = ''IA'', gr_class = County, gr_first = (1, 3), gr_rest = [(5, 5)]\<rparr>"

definition sample_block :: ugc_block where
  "sample_block =
     \<lparr>ub_groups = [sample_group], ub_year = 2026, ub_month = 3, ub_day = 28, ub_hour = 6, ub_minute = 0,
      ub_parts = [[''IAC001>003''], [''005'', ''280600'']]\<rparr>"

lemma sample_block_ok: "block_ok (civil_instant 2026 3 2 0 10) sample_block"
proof -
  have "group_ok sample_group"
    by (simp add: sample_group_def group_ok_def range_ok_def is_ascii_uppercase_def)
  moreover have "group_segments sample_group = [''IAC001>003'', ''005'']"
    by (simp add: group_segments_def sample_group_def pad_small char_of_def bit_0)
  moreover have "block_expiry sample_block = ''280600''"
    by (simp add: block_expiry_def sample_block_def pad_small char_of_def bit_0)
  ultimately show ?thesis
    by (simp add: block_ok_def block_time_def block_segments_def sample_block_def valid_civil_def days_in_month_def
        sample_instants NANOS_def)
qed

theorem ugc_sections_recovered_witness:
  "parse_ugc_sections_with_issues sample_chrono sample_catalogs
     (ugc_text (replicate 2 (CHR 0x0D) @ [CHR 0x0A]) [Inl ''Flood warning'', Inr sample_block, Inl ''until noon'']) (civil_instant 2026 3 2 0 10) =
   Some (map (block_section sample_catalogs) (List.map_filter (case_sum (\<lambda>_. None) Some)
     [Inl ''Flood warning'', Inr sample_block, Inl ''until noon'']), [])"
proof (rule ugc_sections_recovered [OF sample_calendar])
  have "\<not> is_ugc_start ''Flood warning''" "\<not> is_ugc_start ''until noon''"
    by (simp_all add: is_ugc_start_def trim_start_graphic is_graphic_def is_ascii_uppercase_def)
  then show "list_all (item_ok (civil_instant 2026 3 2 0 10)) [Inl ''Flood warning'', Inr sample_block, Inl ''until noon'']"
    using sample_block_ok by simp
qed

theorem ugc_parser_total_on_ascii_witness:
  "parse_ugc_sections_with_issues sample_chrono sample_catalogs ''IAC001-'' 0 \<noteq> None"
  by (rule ugc_parser_total_on_ascii) (simp add: ascii_def)

theorem ugc_expansion_bounded_witness:
  "length (concat (map group_codes [sample_group])) \<le> 1000 * Suc (length ''IAC001>003-005'')
    \<and> list_all three_digit_code (concat (map group_codes [sample_group]))"
proof (rule ugc_expansion_bounded)
  have ok: "list_all group_ok [sample_group]"
    by (simp add: sample_group_def group_ok_def range_ok_def is_ascii_uppercase_def)
  have "concat (map group_segments [sample_group]) = [''IAC001>003'', ''005'']"
    by (simp add: group_segments_def sample_group_def pad_small char_of_def bit_0)
  with expand_groups [OF ok, of None] group_codes_nonempty [of sample_group] ok
  show "expand_ugc_block ''IAC001>003-005'' = Some (Some (concat (map group_codes [sample_group])))"
    by (simp add: expand_ugc_block_def then_some_def)
qed

text \<open>
  A line of codes with a character that is not ASCII panics when one of the parser's cuts falls
  inside it: seven bytes before the end of the collected text, or two bytes into a segment.
\<close>

theorem ugc_parser_panics_on_garbled_line:
  "parse_ugc_sections_with_issues C D (''IAC001-'' @ map char_of [0xC3, 0xA9 :: nat] @ ''12345-'') valid_time = None"
proof -
  let ?t = "''IAC001-'' @ map char_of [0xC3, 0xA9 :: nat] @ ''12345-''"
  have chars: "char_of (0xC3 :: nat) = CHR 0xC3" "char_of (0xA9 :: nat) = CHR 0xA9" by (simp_all add: char_of_def bit_0)
  have "iter_candidate_lines ?t = [?t]"
    by (simp add: chars iter_candidate_lines_def str_lines.simps split_once_def trim_end_matches_def)
  moreover have "is_ugc_start ?t"
    by (simp add: is_ugc_start_def trim_start_graphic is_graphic_def is_ascii_uppercase_def is_class_char_def
        is_ascii_digit_def)
  moreover have white: "white_front (CHR 0xC3 # cs) = None" "white_front (CHR 0xA9 # cs) = None" for cs
    by (simp_all add: white_front_def unicode_white_space_def starts_with_def char_of_def bit_0)
  have "remove_white ?t = ?t"
    by (simp add: chars white white_front_graphic is_graphic_def)
  moreover have suffix: "has_ugc_expiration_suffix ?t = None"
    by (simp add: chars has_ugc_expiration_suffix_def ends_with_def starts_with_def str_slice_def str_get_def
        is_char_boundary_def is_cont_def bytes_of_def)
  then have "collect_loop ?t [] = None" by (subst collect_loop.simps) simp
  ultimately show ?thesis
    unfolding parse_ugc_sections_with_issues_def extract_ugc_candidates_def
    by (simp only: extract_candidates.simps collect_ugc_candidate_def compact_ugc_text_def option.case if_False
        not_True_eq_False)
qed

end
