(* ===== verification/Persistence.thy ===== *)
theory Persistence
  imports Prelude "HOL-Library.Sublist"
begin

text \<open>
  The background persistence runtime (\<open>emwin-db/src/runtime.rs\<close>, \<open>error.rs\<close> and the data types of
  \<open>writer.rs\<close>): producers put requests into a bounded queue that drops its oldest entry when it is
  full, and one worker takes them out, writes their blobs and commits their metadata, retrying with
  a growing delay while the backend is unavailable.

  Producers and worker share a mutex and a semaphore. Every section under the mutex and every
  completed \<open>await\<close> is one step of a joint state, so that a sequence of \<open>persist_event\<close>s is one
  interleaving; a step is \<open>None\<close> when its event cannot occur in the state. What the storage
  backends answer is part of the event. The field \<open>observed\<close> records what the backends and the
  callers have seen and is never read; log lines other than the throttled warning are left out. Durations are natural numbers of nanoseconds.
\<close>

subsection \<open>error.rs\<close>

datatype io_kind =
    ConnectionRefused | ConnectionReset | ConnectionAborted | NotConnected | BrokenPipe | TimedOut
  | Interrupted | WriteZero | UnexpectedEof | StorageFull | OtherKind

datatype sqlx_kind = SqlxIo | SqlxTls | PoolTimedOut | PoolClosed | WorkerCrashed | SqlxOther

datatype PersistError =
    PIo io_kind string
  | PJoin string
  | PJson string
  | PSqlx sqlx_kind string
  | PMigration string
  | PS3 string bool string
  | PClosed
  | PInvalidConfig string
  | PInvalidRequest string

fun persist_error_text :: "PersistError \<Rightarrow> string" where
  "persist_error_text (PIo _ t) = t"
| "persist_error_text (PJoin t) = t"
| "persist_error_text (PJson t) = t"
| "persist_error_text (PSqlx _ t) = t"
| "persist_error_text (PMigration t) = t"
| "persist_error_text (PS3 operation _ message) = ''s3 '' @ operation @ '' failed: '' @ message"
| "persist_error_text PClosed = ''persistence runtime is closed''"
| "persist_error_text (PInvalidConfig t) = ''invalid persistence config: '' @ t"
| "persist_error_text (PInvalidRequest t) = ''invalid persistence request: '' @ t"

fun is_retryable :: "PersistError \<Rightarrow> bool" where
  "is_retryable (PIo kind _) \<longleftrightarrow> kind \<noteq> OtherKind"
| "is_retryable (PSqlx kind _) \<longleftrightarrow> kind \<noteq> SqlxOther"
| "is_retryable (PS3 _ retryable _) \<longleftrightarrow> retryable"
| "is_retryable _ \<longleftrightarrow> False"

fun should_reset_postgres_pool :: "PersistError \<Rightarrow> bool" where
  "should_reset_postgres_pool (PSqlx kind _) \<longleftrightarrow> kind \<noteq> SqlxOther"
| "should_reset_postgres_pool _ \<longleftrightarrow> False"

fun failure_class :: "PersistError \<Rightarrow> string" where
  "failure_class (PIo kind _) = (if kind = StorageFull then ''storage_full'' else ''filesystem_unavailable'')"
| "failure_class (PSqlx _ _) = ''database_unavailable''"
| "failure_class (PS3 _ _ _) = ''s3_unavailable''"
| "failure_class (PJoin _) = ''runtime_join_failure''"
| "failure_class (PJson _) = ''json_failure''"
| "failure_class (PMigration _) = ''database_migration_failure''"
| "failure_class PClosed = ''runtime_closed''"
| "failure_class (PInvalidConfig _) = ''invalid_config''"
| "failure_class (PInvalidRequest _) = ''invalid_request''"

text \<open>The errors of the S3 client, by the cases that the code distinguishes.\<close>

datatype s3_error = S3HttpFailWithBody u16 | S3Io | S3Reqwest | S3ReqwestHeaderToStr | S3Other

definition s3_status_code :: "s3_error \<Rightarrow> u16 option" where
  "s3_status_code err = (case err of S3HttpFailWithBody status \<Rightarrow> Some status | _ \<Rightarrow> None)"

definition is_retryable_s3_error :: "s3_error \<Rightarrow> u16 option \<Rightarrow> bool" where
  "is_retryable_s3_error err status \<longleftrightarrow>
     status \<in> Some ` {408, 429, 500, 502, 503, 504}
     \<or> err = S3Io \<or> err = S3Reqwest \<or> err = S3ReqwestHeaderToStr"

definition s3_client_error :: "string \<Rightarrow> s3_error \<Rightarrow> string \<Rightarrow> PersistError" where
  "s3_client_error operation err display =
     (let status = s3_status_code err;
          message = (case status of
            Some code \<Rightarrow> ''HTTP '' @ show_nat (unat code) @ '': '' @ display
          | None \<Rightarrow> display)
      in PS3 operation (is_retryable_s3_error err status) message)"

subsection \<open>writer.rs: blobs\<close>

datatype BlobRole = Payload | MetadataSidecar

record BlobEntry =
  blob_role :: BlobRole
  blob_path :: string
  blob_bytes :: "byte list"
  blob_type :: "string option"

datatype BlobStorageKind = Filesystem | S3Storage

record StoredBlob =
  stored_kind :: BlobStorageKind
  stored_role :: BlobRole
  stored_location :: string
  stored_size :: usize
  stored_type :: "string option"

subsection \<open>runtime.rs: configuration\<close>

definition DEFAULT_RETRY_INITIAL_DELAY :: nat where
  "DEFAULT_RETRY_INITIAL_DELAY = 1 * 10 ^ 9"

definition DEFAULT_RETRY_MAX_DELAY :: nat where
  "DEFAULT_RETRY_MAX_DELAY = 60 * 10 ^ 9"

definition DEFAULT_FAILURE_LOG_COOLDOWN :: nat where
  "DEFAULT_FAILURE_LOG_COOLDOWN = 30 * 10 ^ 9"

record PersistenceConfig =
  cfg_queue_capacity :: usize
  retry_initial_delay :: nat
  retry_max_delay :: nat
  failure_log_cooldown :: nat

definition persistence_config :: "usize \<Rightarrow> PersistenceConfig" where
  "persistence_config capacity =
     \<lparr>cfg_queue_capacity = max capacity 1, retry_initial_delay = DEFAULT_RETRY_INITIAL_DELAY,
      retry_max_delay = DEFAULT_RETRY_MAX_DELAY, failure_log_cooldown = DEFAULT_FAILURE_LOG_COOLDOWN\<rparr>"

definition with_retry_delays :: "nat \<Rightarrow> nat \<Rightarrow> PersistenceConfig \<Rightarrow> PersistenceConfig" where
  "with_retry_delays initial_delay max_delay C =
     C\<lparr>retry_initial_delay := initial_delay, retry_max_delay := max max_delay initial_delay\<rparr>"

definition with_failure_log_cooldown :: "nat \<Rightarrow> PersistenceConfig \<Rightarrow> PersistenceConfig" where
  "with_failure_log_cooldown cooldown C = C\<lparr>failure_log_cooldown := cooldown\<rparr>"

text \<open>\<open>Duration::MAX\<close> and \<open>Duration::saturating_mul\<close>.\<close>

definition DURATION_MAX :: nat where
  "DURATION_MAX = 2 ^ 64 * 10 ^ 9 - 1"

definition duration_saturating_mul :: "nat \<Rightarrow> nat \<Rightarrow> nat" where
  "duration_saturating_mul d n = min (d * n) DURATION_MAX"

definition retry_delay :: "PersistenceConfig \<Rightarrow> u32 \<Rightarrow> nat" where
  "retry_delay C attempt =
     (let multiplier = (2 :: nat) ^ min (unat attempt) 6
      in min (duration_saturating_mul (retry_initial_delay C) multiplier) (retry_max_delay C))"

subsection \<open>runtime.rs: the shared queue\<close>

record 'm PersistRequest =
  request_key :: string
  req_metadata :: 'm
  req_blobs :: "BlobEntry list"

record 'm PersistedRequest =
  per_key :: string
  per_metadata :: 'm
  per_blobs :: "StoredBlob list"

record PersistenceStats =
  queue_len :: usize
  stat_capacity :: usize
  enqueued_total :: u64
  evicted_total :: u64
  persisted_total :: u64
  failed_total :: u64

definition stats_default :: PersistenceStats where
  "stats_default =
     \<lparr>queue_len = 0, stat_capacity = 0, enqueued_total = 0, evicted_total = 0, persisted_total = 0, failed_total = 0\<rparr>"

record EnqueueResult =
  accepted :: bool
  evicted_oldest_key :: "string option"
  result_queue_len :: usize

record 'm SharedQueue =
  pending :: "'m PersistRequest list"
  closed :: bool
  stats :: PersistenceStats
  available :: nat
  capacity :: usize

definition enqueue :: "'m PersistRequest \<Rightarrow> 'm SharedQueue \<Rightarrow> EnqueueResult \<times> 'm SharedQueue" where
  "enqueue request q =
     (if closed q then (\<lparr>accepted = False, evicted_oldest_key = None, result_queue_len = length (pending q)\<rparr>, q)
      else
        let (evicted, q1) =
              (if length (pending q) = capacity q
               then (map_option request_key (if pending q = [] then None else Some (hd (pending q))),
                     q\<lparr>stats := (stats q)\<lparr>evicted_total := sat_add (evicted_total (stats q)) 1\<rparr>,
                       pending := tl (pending q)\<rparr>)
               else (None,
                     q\<lparr>stats := (stats q)\<lparr>enqueued_total := sat_add (enqueued_total (stats q)) 1\<rparr>,
                       available := available q + 1\<rparr>));
            q2 = q1\<lparr>pending := pending q1 @ [request]\<rparr>;
            q3 = (if evicted \<noteq> None
                  then q2\<lparr>stats := (stats q2)\<lparr>enqueued_total := sat_add (enqueued_total (stats q2)) 1\<rparr>\<rparr> else q2)
        in (\<lparr>accepted = True, evicted_oldest_key = evicted, result_queue_len = length (pending q3)\<rparr>, q3))"

definition stats_snapshot :: "'m SharedQueue \<Rightarrow> PersistenceStats" where
  "stats_snapshot q = (stats q)\<lparr>queue_len := length (pending q), stat_capacity := capacity q\<rparr>"

definition close_queue :: "'m SharedQueue \<Rightarrow> usize \<times> 'm SharedQueue" where
  "close_queue q =
     (if closed q then (0, q)
      else (length (pending q), q\<lparr>closed := True, pending := [], available := available q + 1\<rparr>))"

definition pop_request :: "'m SharedQueue \<Rightarrow> 'm PersistRequest option \<times> 'm SharedQueue" where
  "pop_request q =
     (case pending q of [] \<Rightarrow> (None, q) | r # rs \<Rightarrow> (Some r, q\<lparr>pending := rs\<rparr>))"

definition is_closed :: "'m SharedQueue \<Rightarrow> bool" where
  "is_closed q \<longleftrightarrow> closed q \<and> pending q = []"

definition should_abort_retry :: "'m SharedQueue \<Rightarrow> bool" where
  "should_abort_retry q \<longleftrightarrow> closed q"

subsection \<open>runtime.rs: log throttling\<close>

record DegradedBackend =
  deg_class :: string
  deg_last_error :: string
  deg_last_logged_at :: nat
  deg_suppressed :: u64

type_synonym BackendHealth = "DegradedBackend option"

text \<open>The new state, and whether a warning is written.\<close>

definition note_retryable_failure :: "PersistenceConfig \<Rightarrow> nat \<Rightarrow> PersistError \<Rightarrow> BackendHealth \<Rightarrow> bool \<times> BackendHealth" where
  "note_retryable_failure C now err health =
     (let fresh = \<lparr>deg_class = failure_class err, deg_last_error = persist_error_text err,
            deg_last_logged_at = now, deg_suppressed = 0\<rparr>
      in case health of
           Some current \<Rightarrow>
             if deg_class current = failure_class err \<and> deg_last_error current = persist_error_text err
                \<and> now - deg_last_logged_at current < failure_log_cooldown C
             then (False, Some (current\<lparr>deg_suppressed := sat_add (deg_suppressed current) 1\<rparr>))
             else (True, Some fresh)
         | None \<Rightarrow> (True, Some fresh))"

definition note_recovered :: "BackendHealth \<Rightarrow> BackendHealth" where
  "note_recovered health = None"

subsection \<open>runtime.rs: the worker\<close>

text \<open>
  Where the worker is: waiting for a permit, about to take a request, about to test whether the
  queue is closed, waiting for the writer, about to decide on a retry, sleeping, waiting for the
  sink, about to count the outcome, or finished with its final statistics.
\<close>

datatype 'm worker =
    Acquiring
  | Popping
  | Testing
  | Writing "'m PersistRequest" u32 "StoredBlob list"
  | WriteFailed "'m PersistRequest" u32 PersistError
  | WriteBackoff "'m PersistRequest" u32
  | Committing "'m PersistRequest" u32 "StoredBlob list"
  | CommitFailed "'m PersistRequest" u32 "StoredBlob list" PersistError
  | CommitBackoff "'m PersistRequest" u32 "StoredBlob list"
  | Completed string
  | Abandoned string PersistError
  | Stopped PersistenceStats

datatype 'm observation =
    Accepted "'m PersistRequest"
  | Taken "'m PersistRequest"
  | Wrote BlobEntry StoredBlob
  | Committed "'m PersistedRequest"
  | Warned string nat
  | Slept nat
  | Dropped usize

record 'm runtime =
  rt_queue :: "'m SharedQueue"
  rt_worker :: "'m worker"
  rt_health :: BackendHealth
  observed :: "'m observation list"

datatype 'm persist_event =
    Enqueue "'m PersistRequest"
  | Close
  | Permit
  | Local nat
  | WriterAnswer "PersistError + StoredBlob"
  | SinkAnswer "PersistError option"
  | Timer

definition spawn :: "PersistenceConfig \<Rightarrow> 'm runtime" where
  "spawn C =
     \<lparr>rt_queue = \<lparr>pending = [], closed = False, stats = stats_default, available = 0, capacity = max (cfg_queue_capacity C) 1\<rparr>,
      rt_worker = Acquiring, rt_health = None, observed = []\<rparr>"

text \<open>\<open>write_blobs\<close> asks the writer for the next blob, or is done when there is none.\<close>

definition write_next :: "'m PersistRequest \<Rightarrow> u32 \<Rightarrow> StoredBlob list \<Rightarrow> 'm worker" where
  "write_next r attempt stored_blobs =
     (if length stored_blobs < length (req_blobs r) then Writing r attempt stored_blobs else Committing r 0 stored_blobs)"

definition observe :: "'m observation list \<Rightarrow> 'm runtime \<Rightarrow> 'm runtime" where
  "observe obs s = s\<lparr>observed := observed s @ obs\<rparr>"

definition goto :: "'m worker \<Rightarrow> 'm runtime \<Rightarrow> 'm runtime" where
  "goto w s = s\<lparr>rt_worker := w\<rparr>"

text \<open>The guard \<open>err.is_retryable() && !should_abort_retry(producer)\<close> and the bookkeeping before the delay.\<close>

definition retry_or :: "PersistenceConfig \<Rightarrow> nat \<Rightarrow> string \<Rightarrow> u32 \<Rightarrow> PersistError \<Rightarrow> 'm worker \<Rightarrow> 'm runtime \<Rightarrow> 'm runtime" where
  "retry_or C now key attempt err backoff s =
     (if is_retryable err \<and> \<not> should_abort_retry (rt_queue s)
      then let delay = retry_delay C attempt;
               (warned, health) = note_retryable_failure C now err (rt_health s)
           in goto backoff (observe ((if warned then [Warned (persist_error_text err) now] else []) @ [Slept delay])
                (s\<lparr>rt_health := health\<rparr>))
      else goto (Abandoned key err) s)"

definition persisted_request :: "'m PersistRequest \<Rightarrow> StoredBlob list \<Rightarrow> 'm PersistedRequest" where
  "persisted_request r stored_blobs =
     \<lparr>per_key = request_key r, per_metadata = req_metadata r, per_blobs = stored_blobs\<rparr>"

definition count_outcome :: "bool \<Rightarrow> 'm SharedQueue \<Rightarrow> 'm SharedQueue" where
  "count_outcome ok q =
     q\<lparr>stats := (if ok then (stats q)\<lparr>persisted_total := sat_add (persisted_total (stats q)) 1\<rparr>
                else (stats q)\<lparr>failed_total := sat_add (failed_total (stats q)) 1\<rparr>)\<rparr>"

fun local_step :: "PersistenceConfig \<Rightarrow> nat \<Rightarrow> 'm runtime \<Rightarrow> 'm worker \<Rightarrow> 'm runtime option" where
  "local_step C now s Popping =
     (case pop_request (rt_queue s) of
        (None, q) \<Rightarrow> Some (goto Testing (s\<lparr>rt_queue := q\<rparr>))
      | (Some r, q) \<Rightarrow> Some (goto (write_next r 0 []) (observe [Taken r] (s\<lparr>rt_queue := q\<rparr>))))"
| "local_step C now s Testing =
     Some (goto (if is_closed (rt_queue s) then Stopped (stats_snapshot (rt_queue s)) else Acquiring) s)"
| "local_step C now s (WriteFailed r attempt err) =
     Some (retry_or C now (request_key r) attempt err (WriteBackoff r attempt) s)"
| "local_step C now s (CommitFailed r attempt stored_blobs err) =
     Some (retry_or C now (request_key r) attempt err (CommitBackoff r attempt stored_blobs) s)"
| "local_step C now s (Completed key) = Some (goto Acquiring (s\<lparr>rt_queue := count_outcome True (rt_queue s)\<rparr>))"
| "local_step C now s (Abandoned key err) = Some (goto Acquiring (s\<lparr>rt_queue := count_outcome False (rt_queue s)\<rparr>))"
| "local_step C now s _ = None"

fun writer_step :: "(PersistError + StoredBlob) \<Rightarrow> 'm runtime \<Rightarrow> 'm worker \<Rightarrow> 'm runtime option" where
  "writer_step (Inr stored) s (Writing r attempt stored_blobs) =
     Some (goto (write_next r attempt (stored_blobs @ [stored]))
       (observe [Wrote (req_blobs r ! length stored_blobs) stored] s))"
| "writer_step (Inl err) s (Writing r attempt stored_blobs) = Some (goto (WriteFailed r attempt err) s)"
| "writer_step _ s _ = None"

fun sink_step :: "PersistError option \<Rightarrow> 'm runtime \<Rightarrow> 'm worker \<Rightarrow> 'm runtime option" where
  "sink_step None s (Committing r attempt stored_blobs) =
     Some (goto (Completed (request_key r))
       (observe [Committed (persisted_request r stored_blobs)] (s\<lparr>rt_health := note_recovered (rt_health s)\<rparr>)))"
| "sink_step (Some err) s (Committing r attempt stored_blobs) = Some (goto (CommitFailed r attempt stored_blobs err) s)"
| "sink_step _ s _ = None"

fun timer_step :: "'m runtime \<Rightarrow> 'm worker \<Rightarrow> 'm runtime option" where
  "timer_step s (WriteBackoff r attempt) = Some (goto (write_next r (sat_add attempt 1) []) s)"
| "timer_step s (CommitBackoff r attempt stored_blobs) = Some (goto (Committing r (sat_add attempt 1) stored_blobs) s)"
| "timer_step s _ = None"

definition permit_step :: "'m runtime \<Rightarrow> 'm worker \<Rightarrow> 'm runtime option" where
  "permit_step s w =
     (if w = Acquiring \<and> 0 < available (rt_queue s)
      then Some (goto Popping (s\<lparr>rt_queue := (rt_queue s)\<lparr>available := available (rt_queue s) - 1\<rparr>\<rparr>))
      else None)"

fun persist_step :: "PersistenceConfig \<Rightarrow> 'm persist_event \<Rightarrow> 'm runtime \<Rightarrow> 'm runtime option" where
  "persist_step C (Enqueue r) s =
     (let (result, q) = enqueue r (rt_queue s)
      in Some (observe (if accepted result then [Accepted r] else []) (s\<lparr>rt_queue := q\<rparr>)))"
| "persist_step C Close s =
     (let (dropped, q) = close_queue (rt_queue s) in Some (observe [Dropped dropped] (s\<lparr>rt_queue := q\<rparr>)))"
| "persist_step C Permit s = permit_step s (rt_worker s)"
| "persist_step C (Local now) s = local_step C now s (rt_worker s)"
| "persist_step C (WriterAnswer answer) s = writer_step answer s (rt_worker s)"
| "persist_step C (SinkAnswer answer) s = sink_step answer s (rt_worker s)"
| "persist_step C Timer s = timer_step s (rt_worker s)"

fun run_persistence :: "PersistenceConfig \<Rightarrow> 'm persist_event list \<Rightarrow> 'm runtime \<Rightarrow> 'm runtime option" where
  "run_persistence C [] s = Some s"
| "run_persistence C (e # es) s =
     (case persist_step C e s of None \<Rightarrow> None | Some s' \<Rightarrow> run_persistence C es s')"

end
