(* ===== verification/Persistence_Correct.thy ===== *)
theory Persistence_Correct
  imports Persistence
begin

text \<open>
  Invariants of every interleaving of producers and worker: the queue is bounded, every pending
  request has a permit, requests are taken in the order in which they were accepted, metadata is
  committed only after all blobs have been written, and no request disappears from the counters.
  After the queue has been closed the worker stops.
\<close>

subsection \<open>Runs\<close>

lemma run_persistence_append:
  "run_persistence C (es @ fs) s = Option.bind (run_persistence C es s) (run_persistence C fs)"
  by (induction es arbitrary: s) (auto split: option.splits)

text \<open>An invariant of the steps holds after every run.\<close>

lemma run_invariant:
  assumes "run_persistence C es s = Some s'" and "I s"
    and "\<And>e s s'. I s \<Longrightarrow> persist_step C e s = Some s' \<Longrightarrow> I s'"
  shows "I s'"
  using assms(1,2)
proof (induction es arbitrary: s)
  case (Cons e es)
  then show ?case using assms(3) by (auto split: option.splits)
qed simp

lemmas runtime_step_simps = goto_def observe_def retry_or_def Let_def write_next_def permit_step_def

lemma observe_simps [simp]:
  "rt_queue (observe obs s) = rt_queue s" "rt_worker (observe obs s) = rt_worker s"
  "observed (observe obs s) = observed s @ obs" "rt_health (observe obs s) = rt_health s"
  by (simp_all add: observe_def)

lemma goto_simps [simp]:
  "rt_queue (goto w s) = rt_queue s" "rt_worker (goto w s) = w" "observed (goto w s) = observed s"
  "rt_health (goto w s) = rt_health s"
  by (simp_all add: goto_def)

text \<open>What the bookkeeping of a retry may record.\<close>

definition retry_note :: "PersistenceConfig \<Rightarrow> u32 \<Rightarrow> 'm observation \<Rightarrow> bool" where
  "retry_note C a x \<longleftrightarrow> x = Slept (retry_delay C a) \<or> (\<exists>t n. x = Warned t n)"

lemma retry_or_cases:
  obtains obs where "observed (retry_or C now key a err w s) = observed s @ obs" "\<forall>x\<in>set obs. retry_note C a x"
    "rt_queue (retry_or C now key a err w s) = rt_queue s"
    "rt_worker (retry_or C now key a err w s) = w \<and> \<not> closed (rt_queue s)
      \<or> rt_worker (retry_or C now key a err w s) = Abandoned key err"
proof (cases "is_retryable err \<and> \<not> closed (rt_queue s)")
  case True
  then show thesis
    using that [of "(if fst (note_retryable_failure C now err (rt_health s)) then [Warned (persist_error_text err) now] else [])
      @ [Slept (retry_delay C a)]"]
    by (auto simp: retry_or_def should_abort_retry_def retry_note_def Let_def split: prod.splits)
next
  case False
  then show thesis using that [of "[]"] by (auto simp: retry_or_def should_abort_retry_def)
qed

text \<open>The steps of the worker, one by one.\<close>

lemma worker_step_cases:
  assumes "persist_step C e s = Some s'" and "e \<noteq> Close" and "\<forall>r. e \<noteq> Enqueue r"
  obtains
    (permit) "rt_worker s = Acquiring" "0 < available (rt_queue s)" "rt_worker s' = Popping"
      "rt_queue s' = (rt_queue s)\<lparr>available := available (rt_queue s) - 1\<rparr>" "observed s' = observed s"
  | (empty) "rt_worker s = Popping" "pending (rt_queue s) = []" "rt_worker s' = Testing"
      "rt_queue s' = rt_queue s" "observed s' = observed s"
  | (take) r rs where "rt_worker s = Popping" "pending (rt_queue s) = r # rs" "rt_worker s' = write_next r 0 []"
      "rt_queue s' = (rt_queue s)\<lparr>pending := rs\<rparr>" "observed s' = observed s @ [Taken r]"
  | (test) "rt_worker s = Testing"
      "rt_worker s' = (if is_closed (rt_queue s) then Stopped (stats_snapshot (rt_queue s)) else Acquiring)"
      "rt_queue s' = rt_queue s" "observed s' = observed s"
  | (wrote) r a bs b where "rt_worker s = Writing r a bs" "rt_worker s' = write_next r a (bs @ [b])"
      "rt_queue s' = rt_queue s" "observed s' = observed s @ [Wrote (req_blobs r ! length bs) b]"
  | (write_failed) r a bs err where "rt_worker s = Writing r a bs" "rt_worker s' = WriteFailed r a err"
      "rt_queue s' = rt_queue s" "observed s' = observed s"
  | (write_decided) r a err obs where "rt_worker s = WriteFailed r a err"
      "rt_worker s' = WriteBackoff r a \<and> \<not> closed (rt_queue s) \<or> rt_worker s' = Abandoned (request_key r) err"
      "rt_queue s' = rt_queue s" "observed s' = observed s @ obs" "\<forall>x\<in>set obs. retry_note C a x"
  | (write_again) r a where "rt_worker s = WriteBackoff r a" "rt_worker s' = write_next r (sat_add a 1) []"
      "rt_queue s' = rt_queue s" "observed s' = observed s"
  | (committed) r a bs where "rt_worker s = Committing r a bs" "rt_worker s' = Completed (request_key r)"
      "rt_queue s' = rt_queue s" "observed s' = observed s @ [Committed (persisted_request r bs)]"
  | (commit_failed) r a bs err where "rt_worker s = Committing r a bs" "rt_worker s' = CommitFailed r a bs err"
      "rt_queue s' = rt_queue s" "observed s' = observed s"
  | (commit_decided) r a bs err obs where "rt_worker s = CommitFailed r a bs err"
      "rt_worker s' = CommitBackoff r a bs \<and> \<not> closed (rt_queue s) \<or> rt_worker s' = Abandoned (request_key r) err"
      "rt_queue s' = rt_queue s" "observed s' = observed s @ obs" "\<forall>x\<in>set obs. retry_note C a x"
  | (commit_again) r a bs where "rt_worker s = CommitBackoff r a bs" "rt_worker s' = Committing r (sat_add a 1) bs"
      "rt_queue s' = rt_queue s" "observed s' = observed s"
  | (counted) ok where "(\<exists>key. rt_worker s = Completed key \<and> ok) \<or> (\<exists>key err. rt_worker s = Abandoned key err \<and> \<not> ok)"
      "rt_worker s' = Acquiring" "rt_queue s' = count_outcome ok (rt_queue s)" "observed s' = observed s"
proof (cases "rt_worker s")
  case Popping
  then show thesis
    using assms empty take by (cases e) (auto simp: pop_request_def permit_step_def split: list.splits)
next
  case (WriteFailed r a err)
  then obtain now where s': "s' = retry_or C now (request_key r) a err (WriteBackoff r a) s"
    using assms by (cases e) (auto simp: permit_step_def)
  show thesis
    by (rule retry_or_cases [of C now "request_key r" a err "WriteBackoff r a" s]) (use WriteFailed s' write_decided in blast)
next
  case (CommitFailed r a bs err)
  then obtain now where s': "s' = retry_or C now (request_key r) a err (CommitBackoff r a bs) s"
    using assms by (cases e) (auto simp: permit_step_def)
  show thesis
    by (rule retry_or_cases [of C now "request_key r" a err "CommitBackoff r a bs" s]) (use CommitFailed s' commit_decided in blast)
next
  case (Writing r a bs)
  then show thesis
    using assms wrote write_failed by (cases e) (auto simp: permit_step_def elim!: writer_step.elims)
next
  case (Committing r a bs)
  then show thesis
    using assms committed commit_failed by (cases e) (auto simp: permit_step_def elim!: sink_step.elims)
next
  case Acquiring
  then show thesis using assms permit by (cases e) (auto simp: permit_step_def split: if_splits)
next
  case Testing
  then show thesis using assms test by (cases e) (auto simp: permit_step_def)
next
  case (WriteBackoff r a)
  then show thesis using assms write_again by (cases e) (auto simp: permit_step_def)
next
  case (CommitBackoff r a bs)
  then show thesis using assms commit_again by (cases e) (auto simp: permit_step_def)
next
  case (Completed key)
  then show thesis using assms counted [of True] by (cases e) (auto simp: permit_step_def)
next
  case (Abandoned key err)
  then show thesis using assms counted [of False] by (cases e) (auto simp: permit_step_def)
next
  case (Stopped st)
  then show thesis using assms by (cases e) (auto simp: permit_step_def)
qed

subsection \<open>Producers\<close>

lemma enqueue_cases:
  assumes "enqueue r q = (result, q')" and "1 \<le> capacity q"
  obtains
    (rejected) "closed q" "q' = q" "\<not> accepted result"
  | (full) "\<not> closed q" "accepted result" "length (pending q) = capacity q"
      "pending q' = tl (pending q) @ [r]" "closed q' = closed q" "capacity q' = capacity q" "available q' = available q"
      "stats q' = (stats q)\<lparr>evicted_total := sat_add (evicted_total (stats q)) 1,
         enqueued_total := sat_add (enqueued_total (stats q)) 1\<rparr>"
      "evicted_oldest_key result = Some (request_key (hd (pending q)))"
  | (room) "\<not> closed q" "accepted result" "length (pending q) \<noteq> capacity q"
      "pending q' = pending q @ [r]" "closed q' = closed q" "capacity q' = capacity q" "available q' = Suc (available q)"
      "stats q' = (stats q)\<lparr>enqueued_total := sat_add (enqueued_total (stats q)) 1\<rparr>"
      "evicted_oldest_key result = None"
proof (cases "closed q")
  case True
  then show thesis using assms by (intro rejected) (auto simp: enqueue_def)
next
  case open_queue: False
  show thesis
  proof (cases "length (pending q) = capacity q")
    case True
    then have "pending q \<noteq> []" using assms(2) by auto
    then show thesis using True open_queue assms(1) by (intro full) (auto simp: enqueue_def Let_def)
  next
    case False
    then show thesis using open_queue assms(1) by (intro room) (auto simp: enqueue_def Let_def)
  qed
qed

lemma close_cases:
  assumes "close_queue q = (n, q')"
  obtains (again) "closed q" "q' = q" "n = 0"
  | (first) "\<not> closed q" "n = length (pending q)"
      "q' = q\<lparr>closed := True, pending := [], available := available q + 1\<rparr>"
  using assms by (auto simp: close_queue_def split: if_splits)

subsection \<open>Permits\<close>

definition queue_ok :: "'m runtime \<Rightarrow> bool" where
  "queue_ok s \<longleftrightarrow>
     (let q = rt_queue s; w = rt_worker s in
      1 \<le> capacity q \<and> length (pending q) \<le> capacity q
      \<and> (if closed q
         then pending q = [] \<and> (w = Popping \<or> w = Testing \<or> (\<exists>st. w = Stopped st) \<or> 0 < available q)
         else available q + (if w = Popping then 1 else 0) = length (pending q) \<and> w \<noteq> Testing \<and> (\<forall>st. w \<noteq> Stopped st)))"

lemma write_next_cases:
  obtains "write_next r a bs = Writing r a bs" "length bs < length (req_blobs r)"
  | "write_next r a bs = Committing r 0 bs" "length (req_blobs r) \<le> length bs"
  by (cases "length bs < length (req_blobs r)") (auto simp: write_next_def)

lemma write_next_not [simp]:
  "write_next r a bs \<noteq> Popping" "write_next r a bs \<noteq> Testing" "write_next r a bs \<noteq> Stopped st"
  by (simp_all add: write_next_def)

lemma count_outcome_simps [simp]:
  "pending (count_outcome ok q) = pending q" "closed (count_outcome ok q) = closed q"
  "available (count_outcome ok q) = available q" "capacity (count_outcome ok q) = capacity q"
  by (simp_all add: count_outcome_def)

lemma queue_ok_step:
  assumes "queue_ok s" and step: "persist_step C e s = Some s'"
  shows "queue_ok s'"
proof (cases "e = Close \<or> (\<exists>r. e = Enqueue r)")
  case True
  then show ?thesis
  proof
    assume e: "e = Close"
    obtain n q where q: "close_queue (rt_queue s) = (n, q)" by (cases "close_queue (rt_queue s)")
    show ?thesis
      using q assms e by (cases rule: close_cases [OF q]) (auto simp: queue_ok_def Let_def)
  next
    assume "\<exists>r. e = Enqueue r"
    then obtain r where e: "e = Enqueue r" by blast
    obtain res q where q: "enqueue r (rt_queue s) = (res, q)" by (cases "enqueue r (rt_queue s)")
    have cap: "1 \<le> capacity (rt_queue s)" using assms(1) by (simp add: queue_ok_def Let_def)
    from q cap show ?thesis
      using assms e q by (cases rule: enqueue_cases) (auto simp: queue_ok_def Let_def split: if_splits)
  qed
next
  case False
  then have "e \<noteq> Close" "\<forall>r. e \<noteq> Enqueue r" by auto
  from step this assms(1) show ?thesis
    by (cases rule: worker_step_cases) (auto simp: queue_ok_def Let_def is_closed_def split: if_splits)
qed

lemma queue_ok_spawn: "queue_ok (spawn C)"
  by (simp add: queue_ok_def spawn_def Let_def)

lemma queue_ok_run: "run_persistence C es (spawn C) = Some s \<Longrightarrow> queue_ok s"
  using run_invariant [of C es "spawn C" s queue_ok] queue_ok_spawn queue_ok_step by blast

subsection \<open>What a run has observed\<close>

fun accepted_of :: "'m observation \<Rightarrow> 'm PersistRequest option" where
  "accepted_of (Accepted r) = Some r"
| "accepted_of _ = None"

fun taken_of :: "'m observation \<Rightarrow> 'm PersistRequest option" where
  "taken_of (Taken r) = Some r"
| "taken_of _ = None"

fun committed_of :: "'m observation \<Rightarrow> 'm PersistedRequest option" where
  "committed_of (Committed p) = Some p"
| "committed_of _ = None"

fun dropped_of :: "'m observation \<Rightarrow> nat option" where
  "dropped_of (Dropped n) = Some n"
| "dropped_of _ = None"

definition accepted_requests :: "'m runtime \<Rightarrow> 'm PersistRequest list" where
  "accepted_requests s = List.map_filter accepted_of (observed s)"

definition taken_requests :: "'m runtime \<Rightarrow> 'm PersistRequest list" where
  "taken_requests s = List.map_filter taken_of (observed s)"

definition committed_requests :: "'m runtime \<Rightarrow> 'm PersistedRequest list" where
  "committed_requests s = List.map_filter committed_of (observed s)"

definition dropped_requests :: "'m runtime \<Rightarrow> nat" where
  "dropped_requests s = sum_list (List.map_filter dropped_of (observed s))"

lemmas log_defs = accepted_requests_def taken_requests_def committed_requests_def dropped_requests_def

lemma map_filter_append [simp]: "List.map_filter f (xs @ ys) = List.map_filter f xs @ List.map_filter f ys"
  by (simp add: List.map_filter_def)

lemma map_filter_Cons_Nil [simp]: "List.map_filter f [x] = (case f x of None \<Rightarrow> [] | Some y \<Rightarrow> [y])"
  by (simp add: List.map_filter_def split: option.splits)

lemma map_filter_empty [simp]: "List.map_filter f [] = []"
  by (simp add: List.map_filter_def)

lemma retry_notes_unseen:
  assumes "\<forall>x\<in>set obs. retry_note C a x"
  shows "List.map_filter accepted_of obs = []" "List.map_filter taken_of obs = []"
    "List.map_filter committed_of obs = []" "List.map_filter dropped_of obs = []"
  using assms by (auto simp: List.map_filter_def retry_note_def filter_empty_conv)

text \<open>The request that the worker holds, and how many requests it has not yet counted.\<close>

fun in_hand :: "'m worker \<Rightarrow> 'm PersistRequest option" where
  "in_hand (Writing r _ _) = Some r"
| "in_hand (WriteFailed r _ _) = Some r"
| "in_hand (WriteBackoff r _) = Some r"
| "in_hand (Committing r _ _) = Some r"
| "in_hand (CommitFailed r _ _ _) = Some r"
| "in_hand (CommitBackoff r _ _) = Some r"
| "in_hand _ = None"

fun uncounted_success :: "'m worker \<Rightarrow> nat" where
  "uncounted_success (Completed _) = 1"
| "uncounted_success _ = 0"

fun in_flight :: "'m worker \<Rightarrow> nat" where
  "in_flight (Completed _) = 1"
| "in_flight (Abandoned _ _) = 1"
| "in_flight w = (if in_hand w = None then 0 else 1)"

lemma write_next_flight [simp]:
  "in_hand (write_next r a bs) = Some r" "in_flight (write_next r a bs) = 1" "uncounted_success (write_next r a bs) = 0"
  by (simp_all add: write_next_def)

subsection \<open>Accounting\<close>

definition accounted :: "'m runtime \<Rightarrow> bool" where
  "accounted s \<longleftrightarrow>
     (let st = stats (rt_queue s) in
      length (accepted_requests s) < 2 ^ 64 \<longrightarrow>
        unat (enqueued_total st) = length (accepted_requests s)
        \<and> length (accepted_requests s) =
            unat (evicted_total st) + unat (persisted_total st) + unat (failed_total st)
            + in_flight (rt_worker s) + length (pending (rt_queue s)) + dropped_requests s
        \<and> length (committed_requests s) = unat (persisted_total st) + uncounted_success (rt_worker s))"

lemma unat_sat_add_one: "Suc (unat x) < 2 ^ LENGTH('a) \<Longrightarrow> unat (sat_add x 1) = Suc (unat x)"
  for x :: "'a::len word"
  by (cases "LENGTH('a) = 0") (auto simp: unat_sat_add)

text \<open>A producer's step, with what it records.\<close>

lemma producer_step_cases:
  assumes "persist_step C e s = Some s'" and "e = Close \<or> (\<exists>r. e = Enqueue r)" and "queue_ok s"
  obtains
    (rejected) "closed (rt_queue s)" "rt_queue s' = rt_queue s" "rt_worker s' = rt_worker s" "observed s' = observed s"
  | (evicting) r p ps where "\<not> closed (rt_queue s)" "pending (rt_queue s) = p # ps"
      "pending (rt_queue s') = ps @ [r]" "stats (rt_queue s') = (stats (rt_queue s))\<lparr>
         evicted_total := sat_add (evicted_total (stats (rt_queue s))) 1,
         enqueued_total := sat_add (enqueued_total (stats (rt_queue s))) 1\<rparr>"
      "closed (rt_queue s') = closed (rt_queue s)"
      "rt_worker s' = rt_worker s" "observed s' = observed s @ [Accepted r]"
  | (admitting) r where "\<not> closed (rt_queue s)"
      "pending (rt_queue s') = pending (rt_queue s) @ [r]" "stats (rt_queue s') = (stats (rt_queue s))\<lparr>
         enqueued_total := sat_add (enqueued_total (stats (rt_queue s))) 1\<rparr>"
      "closed (rt_queue s') = closed (rt_queue s)"
      "rt_worker s' = rt_worker s" "observed s' = observed s @ [Accepted r]"
  | (closing) "closed (rt_queue s')" "pending (rt_queue s') = []" "stats (rt_queue s') = stats (rt_queue s)"
      "rt_worker s' = rt_worker s" "observed s' = observed s @ [Dropped (length (pending (rt_queue s)))]"
proof -
  have cap: "1 \<le> capacity (rt_queue s)" and empty: "closed (rt_queue s) \<Longrightarrow> pending (rt_queue s) = []"
    using assms(3) by (auto simp: queue_ok_def Let_def)
  from assms(2) show thesis
  proof
    assume e: "e = Close"
    obtain n q where q: "close_queue (rt_queue s) = (n, q)" by (cases "close_queue (rt_queue s)")
    show thesis
      using q assms(1) e empty closing by (cases rule: close_cases [OF q]) auto
  next
    assume "\<exists>r. e = Enqueue r"
    then obtain r where e: "e = Enqueue r" by blast
    obtain res q where q: "enqueue r (rt_queue s) = (res, q)" by (cases "enqueue r (rt_queue s)")
    from q cap show thesis
    proof (cases rule: enqueue_cases)
      case full
      then obtain p ps where "pending (rt_queue s) = p # ps" using cap by (cases "pending (rt_queue s)") auto
      then show thesis using full q assms(1) e evicting by auto
    qed (use q assms(1) e rejected admitting in auto)
  qed
qed

lemma accounted_step:
  assumes "accounted s" and "queue_ok s" and step: "persist_step C e s = Some s'"
  shows "accounted s'"
proof (cases "e = Close \<or> (\<exists>r. e = Enqueue r)")
  case True
  from step this assms(2) show ?thesis
    by (cases rule: producer_step_cases)
      (use assms(1) in \<open>auto simp: accounted_def log_defs Let_def unat_sat_add_one\<close>)
next
  case False
  then have "e \<noteq> Close" "\<forall>r. e \<noteq> Enqueue r" by auto
  from step this show ?thesis
  proof (cases rule: worker_step_cases)
    case (counted ok)
    then show ?thesis
      using assms(1) by (auto simp: accounted_def log_defs Let_def count_outcome_def unat_sat_add_one)
  next
    case (write_decided r a err obs)
    then show ?thesis
      using assms(1) retry_notes_unseen [OF write_decided(5)] by (auto simp: accounted_def log_defs Let_def)
  next
    case (commit_decided r a bs err obs)
    then show ?thesis
      using assms(1) retry_notes_unseen [OF commit_decided(5)] by (auto simp: accounted_def log_defs Let_def)
  qed (use assms(1) in \<open>auto simp: accounted_def log_defs Let_def\<close>)
qed

lemma accounted_spawn: "accounted (spawn C)"
  by (simp add: accounted_def spawn_def log_defs stats_default_def Let_def)

lemma accounted_run:
  assumes "run_persistence C es (spawn C) = Some s"
  shows "accounted s"
proof -
  have "queue_ok s \<and> accounted s"
    using run_invariant [OF assms, of "\<lambda>s. queue_ok s \<and> accounted s"]
      queue_ok_spawn accounted_spawn queue_ok_step accounted_step by blast
  then show ?thesis ..
qed

subsection \<open>Order\<close>

definition commits_request :: "'m PersistRequest \<Rightarrow> 'm PersistedRequest \<Rightarrow> bool" where
  "commits_request r p \<longleftrightarrow>
     per_key p = request_key r \<and> per_metadata p = req_metadata r \<and> length (per_blobs p) = length (req_blobs r)"

fun blobs_complete :: "'m worker \<Rightarrow> bool" where
  "blobs_complete (Writing r _ bs) \<longleftrightarrow> length bs < length (req_blobs r)"
| "blobs_complete (Committing r _ bs) \<longleftrightarrow> length bs = length (req_blobs r)"
| "blobs_complete (CommitFailed r _ bs _) \<longleftrightarrow> length bs = length (req_blobs r)"
| "blobs_complete (CommitBackoff r _ bs) \<longleftrightarrow> length bs = length (req_blobs r)"
| "blobs_complete _ \<longleftrightarrow> True"

lemma blobs_complete_next: "length bs \<le> length (req_blobs r) \<Longrightarrow> blobs_complete (write_next r a bs)"
  by (simp add: write_next_def)

definition ordered :: "'m runtime \<Rightarrow> bool" where
  "ordered s \<longleftrightarrow>
     subseq (taken_requests s @ pending (rt_queue s)) (accepted_requests s)
     \<and> blobs_complete (rt_worker s)
     \<and> (\<exists>ts rs. taken_requests s = ts @ (case in_hand (rt_worker s) of None \<Rightarrow> [] | Some r \<Rightarrow> [r])
          \<and> subseq rs ts \<and> list_all2 commits_request rs (committed_requests s))"

lemma orderedI:
  assumes "subseq (taken_requests s @ pending (rt_queue s)) (accepted_requests s)"
    and "blobs_complete (rt_worker s)"
    and "taken_requests s = ts @ (case in_hand (rt_worker s) of None \<Rightarrow> [] | Some r \<Rightarrow> [r])"
    and "subseq rs ts" and "list_all2 commits_request rs (committed_requests s)"
  shows "ordered s"
  using assms by (auto simp: ordered_def)

lemma subseq_tail: "subseq (xs @ y # ys) zs \<Longrightarrow> subseq (xs @ ys) zs"
  by (metis append_Cons append_Nil list_emb_append_mono subseq_order.order_refl subseq_order.trans suffixI
      suffix_imp_subseq)

lemma ordered_producer:
  assumes "ordered s" and "queue_ok s" and "e = Close \<or> (\<exists>r. e = Enqueue r)" and "persist_step C e s = Some s'"
  shows "ordered s'"
  using assms(4,3,2)
proof (cases rule: producer_step_cases)
  case (evicting r p ps)
  then have "subseq (taken_requests s @ ps) (accepted_requests s)"
    using assms(1) subseq_tail [of "taken_requests s" p ps] by (simp add: ordered_def)
  then have "subseq ((taken_requests s @ ps) @ [r]) (accepted_requests s @ [r])" by (rule list_emb_append_mono) simp
  then show ?thesis using assms(1) evicting by (auto simp: ordered_def log_defs)
next
  case (admitting r)
  have "subseq ((taken_requests s @ pending (rt_queue s)) @ [r]) (accepted_requests s @ [r])"
    using assms(1) by (intro list_emb_append_mono) (auto simp: ordered_def)
  then show ?thesis using assms(1) admitting by (auto simp: ordered_def log_defs)
next
  case closing
  have "subseq (taken_requests s) (accepted_requests s)"
    using assms(1) list_emb_append_mono [of "(=)" "taken_requests s" "taken_requests s" "[]" "pending (rt_queue s)"]
    by (auto simp: ordered_def elim: subseq_order.trans [rotated])
  then show ?thesis using assms(1) closing by (auto simp: ordered_def log_defs)
qed (use assms(1) in \<open>auto simp: ordered_def log_defs\<close>)

lemma ordered_worker:
  assumes "ordered s" and "e \<noteq> Close" and "\<forall>r. e \<noteq> Enqueue r" and "persist_step C e s = Some s'"
  shows "ordered s'"
proof -
  obtain ts rs where hist: "taken_requests s = ts @ (case in_hand (rt_worker s) of None \<Rightarrow> [] | Some r \<Rightarrow> [r])"
      "subseq rs ts" "list_all2 commits_request rs (committed_requests s)"
    and base: "subseq (taken_requests s @ pending (rt_queue s)) (accepted_requests s)" "blobs_complete (rt_worker s)"
    using assms(1) by (auto simp: ordered_def)
  have whole: "subseq rs (ts @ xs)" for xs
    using hist(2) list_emb_append_mono [of "(=)" rs ts "[]" xs] by simp
  from assms(4,2,3) show ?thesis
  proof (cases rule: worker_step_cases)
    case (take r rest)
    then show ?thesis
      using hist base by (intro orderedI [of s' ts rs]) (auto simp: log_defs blobs_complete_next)
  next
    case (wrote r a bs b)
    then show ?thesis
      using hist base by (intro orderedI [of s' ts rs]) (auto simp: log_defs blobs_complete_next)
  next
    case (committed r a bs)
    have "subseq (rs @ [r]) (ts @ [r])" using hist(2) by (intro list_emb_append_mono) auto
    moreover have "commits_request r (persisted_request r bs)"
      using base(2) committed by (simp add: commits_request_def persisted_request_def)
    ultimately show ?thesis
      using committed hist base by (intro orderedI [of s' "ts @ [r]" "rs @ [r]"]) (auto simp: log_defs list_all2_appendI)
  next
    case (write_decided r a err obs)
    then show ?thesis
      using hist base whole [of "[r]"] retry_notes_unseen [OF write_decided(5)]
        orderedI [of s' ts rs] orderedI [of s' "ts @ [r]" rs] by (auto simp: log_defs)
  next
    case (commit_decided r a bs err obs)
    then show ?thesis
      using hist base whole [of "[r]"] retry_notes_unseen [OF commit_decided(5)]
        orderedI [of s' ts rs] orderedI [of s' "ts @ [r]" rs] by (auto simp: log_defs)
  next
    case (write_again r a)
    then show ?thesis
      using hist base by (intro orderedI [of s' ts rs]) (auto simp: log_defs blobs_complete_next)
  qed (use hist base in \<open>auto intro!: orderedI [of s' ts rs] simp: log_defs\<close>)
qed

lemma ordered_step:
  assumes "queue_ok s" "ordered s" "persist_step C e s = Some s'"
  shows "ordered s'"
proof (cases "e = Close \<or> (\<exists>r. e = Enqueue r)")
  case True
  then show ?thesis using assms ordered_producer by blast
next
  case False
  then show ?thesis using assms ordered_worker [of s e C s'] by simp
qed

lemma ordered_run:
  assumes "run_persistence C es (spawn C) = Some s"
  shows "ordered s"
proof -
  have "queue_ok s \<and> ordered s"
  proof (rule run_invariant [OF assms])
    show "queue_ok (spawn C) \<and> ordered (spawn C)"
      using queue_ok_spawn by (simp add: ordered_def spawn_def log_defs)
  next
    fix e s s' assume "queue_ok s \<and> ordered s" "persist_step C e s = Some s'"
    then show "queue_ok s' \<and> ordered s'" using queue_ok_step [of s C e s'] ordered_step [of s C e s'] by simp
  qed
  then show ?thesis ..
qed

subsection \<open>Blobs before metadata\<close>

definition backed :: "'m observation list \<Rightarrow> 'm PersistRequest \<Rightarrow> StoredBlob list \<Rightarrow> bool" where
  "backed log r bs \<longleftrightarrow> Taken r \<in> set log \<and> (\<forall>i<length bs. Wrote (req_blobs r ! i) (bs ! i) \<in> set log)"

text \<open>Every commit in the log answers a request taken earlier, with a blob written earlier for each entry.\<close>

definition commits_backed :: "'m observation list \<Rightarrow> bool" where
  "commits_backed log \<longleftrightarrow>
     (\<forall>i p. i < length log \<and> log ! i = Committed p \<longrightarrow>
        (\<exists>r. commits_request r p \<and> backed (take i log) r (per_blobs p)))"

lemma commits_backed_snoc:
  "commits_backed (log @ [x]) \<longleftrightarrow>
     commits_backed log \<and> (\<forall>p. x = Committed p \<longrightarrow> (\<exists>r. commits_request r p \<and> backed log r (per_blobs p)))"
proof
  assume all: "commits_backed (log @ [x])"
  have "\<exists>r. commits_request r p \<and> backed log r (per_blobs p)" if "x = Committed p" for p
    using all [unfolded commits_backed_def, rule_format, of "length log" p] that by simp
  moreover have "commits_backed log"
    using all by (force simp: commits_backed_def nth_append)
  ultimately show "commits_backed log \<and> (\<forall>p. x = Committed p \<longrightarrow> (\<exists>r. commits_request r p \<and> backed log r (per_blobs p)))"
    by blast
qed (auto simp: commits_backed_def nth_append less_Suc_eq)

lemma commits_backed_quiet:
  "commits_backed log \<Longrightarrow> \<forall>x\<in>set obs. \<forall>p. x \<noteq> Committed p \<Longrightarrow> commits_backed (log @ obs)"
proof (induction obs rule: rev_induct)
  case (snoc x obs)
  then show ?case using commits_backed_snoc [of "log @ obs" x] by simp
qed simp

lemma backed_append: "backed log r bs \<Longrightarrow> backed (log @ obs) r bs"
  by (auto simp: backed_def)

lemma backed_wrote:
  "backed log r bs \<Longrightarrow> backed (log @ [Wrote (req_blobs r ! length bs) b]) r (bs @ [b])"
  by (auto simp: backed_def nth_append less_Suc_eq)

fun blobs_in_hand :: "'m worker \<Rightarrow> StoredBlob list" where
  "blobs_in_hand (Writing _ _ bs) = bs"
| "blobs_in_hand (Committing _ _ bs) = bs"
| "blobs_in_hand (CommitFailed _ _ bs _) = bs"
| "blobs_in_hand (CommitBackoff _ _ bs) = bs"
| "blobs_in_hand _ = []"

lemma blobs_in_hand_next [simp]: "blobs_in_hand (write_next r a bs) = bs"
  by (simp add: write_next_def)

definition durable :: "'m runtime \<Rightarrow> bool" where
  "durable s \<longleftrightarrow>
     commits_backed (observed s)
     \<and> (\<forall>r. in_hand (rt_worker s) = Some r \<longrightarrow> backed (observed s) r (blobs_in_hand (rt_worker s)))"

lemma durable_producer:
  assumes "durable s" and "queue_ok s" and "e = Close \<or> (\<exists>r. e = Enqueue r)" and "persist_step C e s = Some s'"
  shows "durable s'"
  using assms(4,3,2)
  by (cases rule: producer_step_cases) (use assms(1) in \<open>auto simp: durable_def commits_backed_snoc backed_append\<close>)

lemma durable_worker:
  assumes "durable s" and "ordered s" and "e \<noteq> Close" and "\<forall>r. e \<noteq> Enqueue r" and "persist_step C e s = Some s'"
  shows "durable s'"
proof -
  have log: "commits_backed (observed s)"
    and hand: "\<And>r. in_hand (rt_worker s) = Some r \<Longrightarrow> backed (observed s) r (blobs_in_hand (rt_worker s))"
    using assms(1) by (auto simp: durable_def)
  from assms(5,3,4) show ?thesis
  proof (cases rule: worker_step_cases)
    case (committed r a bs)
    then have "commits_request r (persisted_request r bs)"
      using assms(2) by (simp add: ordered_def commits_request_def persisted_request_def)
    then show ?thesis
      using committed log hand [of r] by (auto simp: durable_def commits_backed_snoc persisted_request_def)
  next
    case (write_decided r a err obs)
    then show ?thesis
      using hand [of r] log commits_backed_quiet [of "observed s" obs]
      by (auto simp: durable_def retry_note_def backed_append)
  next
    case (commit_decided r a bs err obs)
    then show ?thesis
      using hand [of r] log commits_backed_quiet [of "observed s" obs]
      by (auto simp: durable_def retry_note_def backed_append)
  next
    case (wrote r a bs b)
    then show ?thesis using log hand [of r] by (auto simp: durable_def commits_backed_snoc backed_wrote)
  next
    case (take r rs)
    then show ?thesis using log by (auto simp: durable_def commits_backed_snoc backed_def)
  qed (use log hand in \<open>auto simp: durable_def backed_def\<close>)
qed

lemma durable_run:
  assumes "run_persistence C es (spawn C) = Some s"
  shows "durable s"
proof -
  have "queue_ok s \<and> ordered s \<and> durable s"
  proof (rule run_invariant [OF assms])
    show "queue_ok (spawn C) \<and> ordered (spawn C) \<and> durable (spawn C)"
      using queue_ok_spawn by (simp add: ordered_def durable_def commits_backed_def spawn_def log_defs)
  next
    fix e s s' assume inv: "queue_ok s \<and> ordered s \<and> durable s" and step: "persist_step C e s = Some s'"
    have "durable s'"
    proof (cases "e = Close \<or> (\<exists>r. e = Enqueue r)")
      case True
      then show ?thesis using inv step durable_producer by blast
    next
      case False
      then show ?thesis using inv step durable_worker [of s e C s'] by simp
    qed
    then show "queue_ok s' \<and> ordered s' \<and> durable s'"
      using inv step queue_ok_step [of s C e s'] ordered_step [of s C e s'] by simp
  qed
  then show ?thesis by simp
qed

subsection \<open>Shutdown\<close>

definition worker_event :: "'m persist_event \<Rightarrow> bool" where
  "worker_event e \<longleftrightarrow> e \<noteq> Close \<and> (\<forall>r. e \<noteq> Enqueue r)"

text \<open>How many more steps the worker takes once the queue is closed.\<close>

fun stop_bound :: "'m worker \<Rightarrow> nat" where
  "stop_bound (Stopped _) = 0"
| "stop_bound Testing = 1"
| "stop_bound Popping = 2"
| "stop_bound Acquiring = 3"
| "stop_bound (Completed _) = 4"
| "stop_bound (Abandoned _ _) = 4"
| "stop_bound (CommitFailed _ _ _ _) = 5"
| "stop_bound (WriteFailed _ _ _) = 5"
| "stop_bound (Committing _ _ _) = 6"
| "stop_bound (CommitBackoff _ _ _) = 7"
| "stop_bound (Writing r _ bs) = 6 + (length (req_blobs r) - length bs)"
| "stop_bound (WriteBackoff r _) = 7 + length (req_blobs r)"

lemma stop_bound_next: "stop_bound (write_next r a bs) = 6 + (length (req_blobs r) - length bs)"
  by (simp add: write_next_def)

lemma closed_worker_step:
  assumes "queue_ok s" and "ordered s" and "closed (rt_queue s)" and "worker_event e" and "persist_step C e s = Some s'"
  shows "closed (rt_queue s') \<and> stop_bound (rt_worker s') < stop_bound (rt_worker s)"
proof -
  have empty: "pending (rt_queue s) = []" and writing: "blobs_complete (rt_worker s)"
    using assms by (auto simp: queue_ok_def ordered_def Let_def)
  from assms(4) have "e \<noteq> Close" "\<forall>r. e \<noteq> Enqueue r" by (auto simp: worker_event_def)
  from assms(5) this show ?thesis
    by (cases rule: worker_step_cases) (use empty writing assms(3) in \<open>auto simp: stop_bound_next is_closed_def\<close>)
qed

lemma closed_producer_step:
  assumes "queue_ok s" and "closed (rt_queue s)" and "\<not> worker_event e" and "persist_step C e s = Some s'"
  shows "closed (rt_queue s') \<and> rt_worker s' = rt_worker s"
proof -
  have "e = Close \<or> (\<exists>r. e = Enqueue r)" using assms(3) by (auto simp: worker_event_def)
  from assms(4) this assms(1) show ?thesis by (cases rule: producer_step_cases) (use assms(2) in auto)
qed

lemma closed_run:
  assumes "run_persistence C es s = Some s'" and "queue_ok s" and "ordered s" and "closed (rt_queue s)"
  shows "length (filter worker_event es) + stop_bound (rt_worker s') \<le> stop_bound (rt_worker s) \<and> closed (rt_queue s')"
  using assms
proof (induction es arbitrary: s)
  case (Cons e es)
  then obtain s1 where step: "persist_step C e s = Some s1" and rest: "run_persistence C es s1 = Some s'"
    by (auto split: option.splits)
  have inv: "queue_ok s1" "ordered s1" using Cons.prems step queue_ok_step ordered_step by blast+
  show ?case
  proof (cases "worker_event e")
    case True
    then show ?thesis
      using closed_worker_step [OF Cons.prems(2,3,4) True step] Cons.IH [OF rest inv] by simp
  next
    case False
    then show ?thesis
      using closed_producer_step [OF Cons.prems(2,4) False step] Cons.IH [OF rest inv] by simp
  qed
qed simp

text \<open>A worker that has not stopped can take a step, whatever the backends answer.\<close>

lemma closed_progress:
  assumes "queue_ok s" and "closed (rt_queue s)" and "\<forall>st. rt_worker s \<noteq> Stopped st"
  obtains e s' where "worker_event e" "persist_step C e s = Some s'"
proof (cases "rt_worker s")
  case Acquiring
  then have "0 < available (rt_queue s)" using assms by (auto simp: queue_ok_def Let_def)
  then show thesis using that [of Permit] Acquiring by (simp add: worker_event_def permit_step_def)
next
  case Popping
  then show thesis
    using that [of "Local 0"] by (cases "pending (rt_queue s)") (auto simp: worker_event_def pop_request_def)
next
  case (Writing r a bs)
  then show thesis using that [of "WriterAnswer (Inl PClosed)"] by (simp add: worker_event_def)
next
  case (Committing r a bs)
  then show thesis using that [of "SinkAnswer None"] by (simp add: worker_event_def)
next
  case (WriteBackoff r a)
  then show thesis using that [of Timer] by (simp add: worker_event_def)
next
  case (CommitBackoff r a bs)
  then show thesis using that [of Timer] by (simp add: worker_event_def)
qed (use that [of "Local 0"] assms(3) in \<open>auto simp: worker_event_def\<close>)

subsection \<open>The worker's delays\<close>

lemma retry_delay_eq:
  assumes "retry_max_delay C \<le> DURATION_MAX"
  shows "retry_delay C a = min (retry_initial_delay C * 2 ^ min (unat a) 6) (retry_max_delay C)"
  using assms by (simp add: retry_delay_def duration_saturating_mul_def Let_def)

lemma retry_delay_mono: "a \<le> b \<Longrightarrow> retry_delay C a \<le> retry_delay C b"
proof -
  assume "a \<le> b"
  then have "(2 :: nat) ^ min (unat a) 6 \<le> 2 ^ min (unat b) 6"
    by (intro power_increasing) (auto simp: word_le_nat_alt)
  then have "retry_initial_delay C * 2 ^ min (unat a) 6 \<le> retry_initial_delay C * 2 ^ min (unat b) 6" by simp
  then show ?thesis unfolding retry_delay_def duration_saturating_mul_def Let_def by (intro min.mono order_refl)
qed

lemma retry_delay_max: "retry_delay C a \<le> retry_max_delay C"
  by (simp add: retry_delay_def Let_def)

subsection \<open>Properties of every interleaving\<close>

lemma capacity_step: "persist_step C e s = Some s' \<Longrightarrow> queue_ok s \<Longrightarrow> capacity (rt_queue s') = capacity (rt_queue s)"
proof (cases "e = Close \<or> (\<exists>r. e = Enqueue r)")
  case True
  then show "persist_step C e s = Some s' \<Longrightarrow> queue_ok s \<Longrightarrow> capacity (rt_queue s') = capacity (rt_queue s)"
    by (auto simp: close_queue_def enqueue_def Let_def split: if_splits prod.splits)
next
  case False
  then have "e \<noteq> Close" "\<forall>r. e \<noteq> Enqueue r" by auto
  then show "persist_step C e s = Some s' \<Longrightarrow> queue_ok s \<Longrightarrow> capacity (rt_queue s') = capacity (rt_queue s)"
    by (elim worker_step_cases) (auto simp: count_outcome_def)
qed

lemma capacity_run:
  assumes "run_persistence C es (spawn C) = Some s"
  shows "capacity (rt_queue s) = max (cfg_queue_capacity C) 1"
proof -
  have "queue_ok s \<and> capacity (rt_queue s) = max (cfg_queue_capacity C) 1"
  proof (rule run_invariant [OF assms])
    show "queue_ok (spawn C) \<and> capacity (rt_queue (spawn C)) = max (cfg_queue_capacity C) 1"
      using queue_ok_spawn by (simp add: spawn_def)
  next
    fix e s s' assume "queue_ok s \<and> capacity (rt_queue s) = max (cfg_queue_capacity C) 1" "persist_step C e s = Some s'"
    then show "queue_ok s' \<and> capacity (rt_queue s') = max (cfg_queue_capacity C) 1"
      using queue_ok_step [of s C e s'] capacity_step [of C e s s'] by simp
  qed
  then show ?thesis ..
qed

text \<open>
  C32: in every interleaving of producers and worker the queue holds at most the configured number of
  requests (at least one), a waiting worker can always take a step while a request is pending, so
  that no wake-up is lost by evictions, and the worker leaves its loop only after the queue was closed.
\<close>

theorem persistence_queue_bounded:
  assumes "run_persistence C es (spawn C) = Some s"
  shows "length (pending (rt_queue s)) \<le> max (cfg_queue_capacity C) 1
    \<and> (rt_worker s = Acquiring \<and> pending (rt_queue s) \<noteq> [] \<longrightarrow> persist_step C Permit s \<noteq> None)
    \<and> (rt_worker s = Testing \<or> (\<exists>st. rt_worker s = Stopped st) \<longrightarrow> closed (rt_queue s))"
proof -
  have "queue_ok s" by (rule queue_ok_run [OF assms])
  then show ?thesis
    using capacity_run [OF assms] by (auto simp: queue_ok_def permit_step_def Let_def split: if_splits)
qed

text \<open>
  C33: the counters account for every accepted request (as long as fewer than 2^64 were accepted):
  each one was evicted, dropped by the shutdown, persisted or failed, or is still pending or in the
  hands of the worker, and the requests counted as persisted are exactly those committed to the sink.
\<close>

theorem persistence_accounts_for_requests:
  assumes "run_persistence C es (spawn C) = Some s" and "length (accepted_requests s) < 2 ^ 64"
  shows "unat (enqueued_total (stats (rt_queue s))) = length (accepted_requests s)
    \<and> length (accepted_requests s) =
        unat (evicted_total (stats (rt_queue s))) + unat (persisted_total (stats (rt_queue s)))
        + unat (failed_total (stats (rt_queue s))) + in_flight (rt_worker s) + length (pending (rt_queue s))
        + dropped_requests s
    \<and> length (committed_requests s) = unat (persisted_total (stats (rt_queue s))) + uncounted_success (rt_worker s)"
  using accounted_run [OF assms(1)] assms(2) by (simp add: accounted_def Let_def)

text \<open>
  the worker takes requests in the order in which they were accepted, what is still pending was
  accepted after everything taken so far, and the sink receives the metadata of requests in the order
  in which they were taken, each request at most once and with one stored blob per entry.
\<close>

theorem persistence_keeps_order:
  assumes "run_persistence C es (spawn C) = Some s"
  shows "subseq (taken_requests s @ pending (rt_queue s)) (accepted_requests s)
    \<and> (\<exists>rs. subseq rs (taken_requests s) \<and> list_all2 commits_request rs (committed_requests s))"
proof -
  have "ordered s" by (rule ordered_run [OF assms])
  then obtain ts rs where hist: "taken_requests s = ts @ (case in_hand (rt_worker s) of None \<Rightarrow> [] | Some r \<Rightarrow> [r])"
      "subseq rs ts" "list_all2 commits_request rs (committed_requests s)"
    and fifo: "subseq (taken_requests s @ pending (rt_queue s)) (accepted_requests s)"
    by (auto simp: ordered_def)
  have "subseq rs (taken_requests s)"
    using hist(1,2) list_emb_append_mono [of "(=)" rs ts "[]"] by simp
  then show ?thesis using hist(3) fifo by blast
qed

text \<open>
  C31: metadata is committed only after the blobs: when the sink acknowledges a commit, the request was
  taken before, and each of its blob entries had been written successfully before, with the stored
  reference that the commit carries at the same position.
\<close>

theorem persistence_blobs_before_metadata:
  assumes "run_persistence C es (spawn C) = Some s" and "observed s = pre @ Committed p # post"
  shows "\<exists>r. Taken r \<in> set pre \<and> per_key p = request_key r \<and> per_metadata p = req_metadata r
    \<and> list_all2 (\<lambda>b stored. Wrote b stored \<in> set pre) (req_blobs r) (per_blobs p)"
proof -
  have "commits_backed (observed s)" using durable_run [OF assms(1)] by (simp add: durable_def)
  then obtain r where "commits_request r p" "backed pre r (per_blobs p)"
    unfolding commits_backed_def assms(2) by (auto dest!: spec [of _ "length pre"])
  then show ?thesis by (auto simp: backed_def commits_request_def list_all2_conv_all_nth intro!: exI [of _ r])
qed

text \<open>
  C34: shutdown ends. Once the queue is closed the worker takes only as many steps as its position
  allows, whatever the backends answer and however producers go on, and as long as it has not stopped
  a further step of it is possible; retries are not repeated and a stopped worker leaves nothing behind.
\<close>

theorem persistence_shutdown_stops:
  assumes "run_persistence C es (spawn C) = Some s" and "run_persistence C (Close # fs) s = Some s'"
  shows "length (filter worker_event fs) \<le> stop_bound (rt_worker s)
    \<and> ((\<exists>st. rt_worker s' = Stopped st) \<or> (\<exists>e. worker_event e \<and> persist_step C e s' \<noteq> None))
    \<and> pending (rt_queue s') = []"
proof -
  obtain s1 where close: "persist_step C Close s = Some s1" and rest: "run_persistence C fs s1 = Some s'"
    using assms(2) by (auto split: option.splits)
  have inv: "queue_ok s1" "ordered s1"
    using queue_ok_step [OF queue_ok_run [OF assms(1)] close]
      ordered_step [OF queue_ok_run [OF assms(1)] ordered_run [OF assms(1)] close] by auto
  have shut: "closed (rt_queue s1)" "rt_worker s1 = rt_worker s"
    using close by (auto simp: close_queue_def split: if_splits)
  have bound: "length (filter worker_event fs) + stop_bound (rt_worker s') \<le> stop_bound (rt_worker s)"
      and still: "closed (rt_queue s')"
    using closed_run [OF rest inv shut(1)] shut(2) by auto
  have ok: "queue_ok s'" using run_invariant [of C fs s1 s' queue_ok] rest inv(1) queue_ok_step by blast
  then have "pending (rt_queue s') = []" using still by (simp add: queue_ok_def Let_def)
  moreover have "(\<exists>st. rt_worker s' = Stopped st) \<or> (\<exists>e. worker_event e \<and> persist_step C e s' \<noteq> None)"
    using closed_progress [OF ok still] by (metis option.distinct(1))
  ultimately show ?thesis using bound by simp
qed

subsection \<open>A concrete run\<close>

text \<open>
  A queue for one request: the second request evicts the first, its blob is written at the second
  attempt and its metadata committed; a third one is dropped by the shutdown.
\<close>

definition demo_config :: PersistenceConfig where
  "demo_config = persistence_config 0"

definition demo_request :: "string \<Rightarrow> unit PersistRequest" where
  "demo_request key = \<lparr>request_key = key, req_metadata = (),
     req_blobs = [\<lparr>blob_role = Payload, blob_path = key, blob_bytes = [1, 2], blob_type = None\<rparr>]\<rparr>"

definition demo_stored :: StoredBlob where
  "demo_stored = \<lparr>stored_kind = Filesystem, stored_role = Payload, stored_location = ''b'', stored_size = 2, stored_type = None\<rparr>"

definition demo_before :: "unit persist_event list" where
  "demo_before = [Enqueue (demo_request ''a''), Enqueue (demo_request ''b''), Permit, Local 0,
     WriterAnswer (Inl (PIo TimedOut ''timeout'')), Local 1, Timer, WriterAnswer (Inr demo_stored), SinkAnswer None,
     Enqueue (demo_request ''c'')]"

definition demo_after :: "unit persist_event list" where
  "demo_after = [Local 2, Permit, Enqueue (demo_request ''d''), Local 3, Local 4]"

definition demo_log :: "unit observation list" where
  "demo_log = [Accepted (demo_request ''a''), Accepted (demo_request ''b''), Taken (demo_request ''b''),
     Warned ''timeout'' 1, Slept (10 ^ 9), Wrote (hd (req_blobs (demo_request ''b''))) demo_stored]"

definition demo_state :: "unit runtime" where
  "demo_state = \<lparr>
     rt_queue = \<lparr>pending = [demo_request ''c''], closed = False,
       stats = stats_default\<lparr>enqueued_total := 3, evicted_total := 1\<rparr>, available = 1, capacity = 1\<rparr>,
     rt_worker = Completed ''b'', rt_health = None,
     observed = demo_log @ [Committed (persisted_request (demo_request ''b'') [demo_stored]), Accepted (demo_request ''c'')]\<rparr>"

definition demo_final :: "unit runtime" where
  "demo_final = (let q = \<lparr>pending = [], closed = True,
       stats = stats_default\<lparr>enqueued_total := 3, evicted_total := 1, persisted_total := 1\<rparr>, available = 1, capacity = 1\<rparr>
     in \<lparr>rt_queue = q, rt_worker = Stopped (stats_snapshot q), rt_health = None, observed = observed demo_state @ [Dropped 1]\<rparr>)"

lemmas demo_eval = demo_config_def demo_before_def demo_after_def demo_request_def demo_stored_def demo_log_def
  demo_state_def demo_final_def spawn_def stats_default_def persistence_config_def enqueue_def close_queue_def
  pop_request_def permit_step_def runtime_step_simps should_abort_retry_def note_retryable_failure_def note_recovered_def
  retry_delay_def duration_saturating_mul_def DURATION_MAX_def DEFAULT_RETRY_INITIAL_DELAY_def
  DEFAULT_RETRY_MAX_DELAY_def DEFAULT_FAILURE_LOG_COOLDOWN_def persisted_request_def count_outcome_def is_closed_def
  stats_snapshot_def sat_add_def

lemma demo_run: "run_persistence demo_config demo_before (spawn demo_config) = Some demo_state"
  by (simp add: demo_eval)

lemma demo_shutdown: "run_persistence demo_config (Close # demo_after) demo_state = Some demo_final"
  by (simp add: demo_eval)

lemma demo_history:
  "accepted_requests demo_state = [demo_request ''a'', demo_request ''b'', demo_request ''c'']"
  "taken_requests demo_state = [demo_request ''b'']"
  "committed_requests demo_state = [persisted_request (demo_request ''b'') [demo_stored]]"
  "pending (rt_queue demo_state) = [demo_request ''c'']"
  by (simp_all add: log_defs demo_state_def demo_log_def List.map_filter_def)

theorem persistence_queue_bounded_witness:
  "length (pending (rt_queue demo_state)) \<le> 1 \<and> pending (rt_queue demo_state) = [demo_request ''c'']
   \<and> rt_worker demo_state = Completed ''b''"
  using persistence_queue_bounded [OF demo_run] by (simp add: demo_config_def persistence_config_def demo_state_def)

theorem persistence_accounts_for_requests_witness:
  "unat (enqueued_total (stats (rt_queue demo_state))) = 3 \<and> dropped_requests demo_state = 0
   \<and> length (committed_requests demo_state) = unat (persisted_total (stats (rt_queue demo_state))) + 1"
  using persistence_accounts_for_requests [OF demo_run]
  by (simp add: demo_history) (simp add: demo_state_def stats_default_def)

theorem persistence_keeps_order_witness:
  "subseq (map request_key (taken_requests demo_state @ pending (rt_queue demo_state))) [''a'', ''b'', ''c'']
   \<and> length (committed_requests demo_state) = 1"
proof -
  have "subseq (map request_key (taken_requests demo_state @ pending (rt_queue demo_state)))
      (map request_key (accepted_requests demo_state))"
    using persistence_keeps_order [OF demo_run] by (intro subseq_map) simp
  then show ?thesis by (simp add: demo_history demo_request_def)
qed

theorem persistence_blobs_before_metadata_witness:
  "\<exists>r. Taken r \<in> set demo_log \<and> request_key r = ''b''
     \<and> list_all2 (\<lambda>b stored. Wrote b stored \<in> set demo_log) (req_blobs r) [demo_stored]"
  using persistence_blobs_before_metadata [OF demo_run, of demo_log "persisted_request (demo_request ''b'') [demo_stored]"]
  by (auto simp: demo_state_def persisted_request_def demo_request_def)

theorem persistence_shutdown_stops_witness:
  "length (filter worker_event demo_after) \<le> 4 \<and> (\<exists>st. rt_worker demo_final = Stopped st)
   \<and> pending (rt_queue demo_final) = []"
  using persistence_shutdown_stops [OF demo_run demo_shutdown]
  by (auto simp: demo_state_def demo_final_def Let_def)

end
