(* ===== verification/Server_Support.thy ===== *)
theory Server_Support
  imports Ingest Collections
begin

text \<open>
  Helpers of the live server (\<open>emwin-cli/src/live/server_support.rs\<close>, \<open>emwin-db/src/metadata.rs\<close>): the
  bounded store of completed files that can be downloaded, the wildcard matcher for file names, and
  the encoding and checking of file names in URLs.

  A product's enrichment by the text parser is a parameter (\<open>parser_ext\<close>), so that the metadata of a
  file is polymorphic in it. The clock is an argument; a \<open>SystemTime\<close> is an integer and a
  \<open>Duration\<close> a natural number of nanoseconds.
\<close>

subsection \<open>metadata.rs\<close>

record ('p, 's, 'd) parser_ext =
  enrich_product :: "string \<Rightarrow> byte list \<Rightarrow> 'p"
  summarize_product_v2 :: "'p \<Rightarrow> 's"
  detail_product_v2 :: "'p \<Rightarrow> 'd"

record ('p, 's, 'd) CompletedFileMetadata =
  meta_filename :: string
  meta_size :: usize
  meta_timestamp_utc :: nat
  meta_origin :: ProductOrigin
  meta_product :: 'p
  meta_summary :: 's
  meta_detail :: 'd

definition build_completed_file_metadata ::
    "('p, 's, 'd) parser_ext \<Rightarrow> string \<Rightarrow> nat \<Rightarrow> ProductOrigin \<Rightarrow> byte list \<Rightarrow> ('p, 's, 'd) CompletedFileMetadata" where
  "build_completed_file_metadata X filename timestamp_utc origin data =
     (let product = enrich_product X filename data
      in \<lparr>meta_filename = filename, meta_size = length data, meta_timestamp_utc = timestamp_utc,
          meta_origin = origin, meta_product = product, meta_summary = summarize_product_v2 X product,
          meta_detail = detail_product_v2 X product\<rparr>)"

subsection \<open>RetainedFiles\<close>

record ('p, 's, 'd) RetainedFile =
  ret_data :: "byte list"
  ret_completed_at :: system_time
  ret_metadata :: "('p, 's, 'd) CompletedFileMetadata"

record ('p, 's, 'd) RetainedFiles =
  by_name :: "(string \<times> ('p, 's, 'd) RetainedFile) list"
  order :: "string list"
  max_entries :: usize
  ttl :: duration

definition retained_new :: "usize \<Rightarrow> duration \<Rightarrow> ('p, 's, 'd) RetainedFiles" where
  "retained_new entries lifetime =
     \<lparr>by_name = [], order = [], max_entries = max entries 1, ttl = max lifetime (10 ^ 9)\<rparr>"

text \<open>\<open>now.duration_since(completed_at).unwrap_or(0) > ttl\<close>.\<close>

definition expired :: "system_time \<Rightarrow> duration \<Rightarrow> ('p, 's, 'd) RetainedFile \<Rightarrow> bool" where
  "expired now lifetime f \<longleftrightarrow> nat (now - ret_completed_at f) > lifetime"

text \<open>The closure of \<open>retain\<close>, applied to the names from front to back.\<close>

fun retain_names ::
    "system_time \<Rightarrow> duration \<Rightarrow> string list \<Rightarrow> (string \<times> ('p, 's, 'd) RetainedFile) list
      \<Rightarrow> string list \<times> (string \<times> ('p, 's, 'd) RetainedFile) list" where
  "retain_names now lifetime [] m = ([], m)"
| "retain_names now lifetime (name # names) m =
     (case map_of m name of
        None \<Rightarrow> retain_names now lifetime names m
      | Some f \<Rightarrow>
          if expired now lifetime f then retain_names now lifetime names (hash_remove name m)
          else (let (kept, m') = retain_names now lifetime names m in (name # kept, m')))"

definition evict_expired :: "system_time \<Rightarrow> ('p, 's, 'd) RetainedFiles \<Rightarrow> ('p, 's, 'd) RetainedFiles" where
  "evict_expired now r =
     (let (names, m) = retain_names now (ttl r) (order r) (by_name r)
      in r\<lparr>order := names, by_name := m\<rparr>)"

text \<open>The loop that removes the oldest files while there are too many.\<close>

fun pop_oldest ::
    "usize \<Rightarrow> string list \<Rightarrow> (string \<times> ('p, 's, 'd) RetainedFile) list
      \<Rightarrow> string list \<times> (string \<times> ('p, 's, 'd) RetainedFile) list" where
  "pop_oldest limit names m =
     (if length m > limit then
        (case names of [] \<Rightarrow> ([], m) | oldest # rest \<Rightarrow> pop_oldest limit rest (hash_remove oldest m))
      else (names, m))"

declare pop_oldest.simps [simp del]

definition retained_insert ::
    "('p, 's, 'd) parser_ext \<Rightarrow> system_time \<Rightarrow> string \<Rightarrow> byte list \<Rightarrow> nat \<Rightarrow> ProductOrigin \<Rightarrow> system_time
      \<Rightarrow> ('p, 's, 'd) RetainedFiles \<Rightarrow> ('p, 's, 'd) CompletedFileMetadata \<times> ('p, 's, 'd) RetainedFiles" where
  "retained_insert X now filename data timestamp_utc origin completed_at r =
     (let r1 = evict_expired now r;
          metadata = build_completed_file_metadata X filename timestamp_utc origin data;
          names = (if map_of (by_name r1) filename \<noteq> None then filter (\<lambda>name. name \<noteq> filename) (order r1) else order r1)
            @ [filename];
          m = hash_insert filename
            \<lparr>ret_data = data, ret_completed_at = completed_at, ret_metadata = metadata\<rparr> (by_name r1);
          (names', m') = pop_oldest (max_entries r1) names m
      in (metadata, r1\<lparr>order := names', by_name := m'\<rparr>))"

definition retained_list ::
    "system_time \<Rightarrow> ('p, 's, 'd) RetainedFiles \<Rightarrow> ('p, 's, 'd) CompletedFileMetadata list \<times> ('p, 's, 'd) RetainedFiles" where
  "retained_list now r =
     (let r1 = evict_expired now r
      in (map ret_metadata (List.map_filter (map_of (by_name r1)) (rev (order r1))), r1))"

definition retained_get ::
    "system_time \<Rightarrow> string \<Rightarrow> ('p, 's, 'd) RetainedFiles \<Rightarrow> ('p, 's, 'd) RetainedFile option \<times> ('p, 's, 'd) RetainedFiles" where
  "retained_get now filename r = (let r1 = evict_expired now r in (map_of (by_name r1) filename, r1))"

definition retained_len :: "system_time \<Rightarrow> ('p, 's, 'd) RetainedFiles \<Rightarrow> usize \<times> ('p, 's, 'd) RetainedFiles" where
  "retained_len now r = (let r1 = evict_expired now r in (length (by_name r1), r1))"

subsection \<open>wildcard_match\<close>

text \<open>
  The matching loop over both strings; \<open>star\<close> is the position of the last \<open>*\<close> of the pattern that
  was passed and \<open>match_idx\<close> where the text that it stands for currently ends.
\<close>

partial_function (option) wildcard_loop ::
    "string \<Rightarrow> string \<Rightarrow> usize \<Rightarrow> usize \<Rightarrow> usize option \<Rightarrow> usize \<Rightarrow> usize option option" where
  "wildcard_loop p t pi ti star match_idx =
     (if ti < length t then
        if pi < length p \<and> p ! pi = t ! ti then wildcard_loop p t (pi + 1) (ti + 1) star match_idx
        else if pi < length p \<and> p ! pi = CHR ''*'' then wildcard_loop p t (pi + 1) ti (Some pi) ti
        else (case star of
                Some star_pos \<Rightarrow> wildcard_loop p t (star_pos + 1) (match_idx + 1) star (match_idx + 1)
              | None \<Rightarrow> Some None)
      else Some (Some pi))"

fun skip_stars :: "string \<Rightarrow> bool" where
  "skip_stars [] \<longleftrightarrow> True"
| "skip_stars (c # cs) \<longleftrightarrow> c = CHR ''*'' \<and> skip_stars cs"

definition wildcard_match :: "string \<Rightarrow> string \<Rightarrow> bool option" where
  "wildcard_match pat txt =
     (let p = to_ascii_lowercase pat; t = to_ascii_lowercase txt
      in map_option (\<lambda>r. case r of None \<Rightarrow> False | Some pi \<Rightarrow> skip_stars (drop pi p))
           (wildcard_loop p t 0 0 None 0))"

subsection \<open>File names in requests and responses\<close>

definition content_type_for_filename :: "string \<Rightarrow> string" where
  "content_type_for_filename filename =
     (let upper = to_ascii_uppercase filename
      in if ends_with upper ''.TXT'' \<or> ends_with upper ''.WMO'' \<or> ends_with upper ''.XML''
         then ''text/plain; charset=utf-8''
         else if ends_with upper ''.JSON'' then ''application/json''
         else ''application/octet-stream'')"

definition sanitize_requested_filename :: "string \<Rightarrow> string option" where
  "sanitize_requested_filename raw =
     (let trimmed = trim (dropWhile (\<lambda>c. c = CHR ''/'') raw)
      in if trimmed = [] \<or> CHR 0x00 \<in> set trimmed \<or> str_contains trimmed ''..'' then None
         else if starts_with trimmed ''/'' \<or> starts_with trimmed [CHR 0x5C] then None
         else Some trimmed)"

definition hex_digit :: "nat \<Rightarrow> char" where
  "hex_digit d = char_of (if d < 10 then 48 + d else 55 + d)"

definition unreserved :: "char \<Rightarrow> bool" where
  "unreserved c \<longleftrightarrow> is_ascii_alphanumeric c \<or> c \<in> {CHR ''-'', CHR ''.'', CHR ''_'', CHR ''~''}"

definition percent_encode :: "string \<Rightarrow> string" where
  "percent_encode input =
     concat (map (\<lambda>c. if unreserved c then [c]
        else [CHR ''%'', hex_digit (of_char c div 16), hex_digit (of_char c mod 16)]) input)"

definition file_download_url :: "string \<Rightarrow> string" where
  "file_download_url filename = ''/files/'' @ percent_encode filename"

text \<open>
  The headers and body of a download; \<open>valid_header\<close> says which texts \<open>HeaderValue::from_str\<close> accepts.
\<close>

definition build_file_download_response ::
    "(string \<Rightarrow> bool) \<Rightarrow> ('p, 's, 'd) RetainedFile \<Rightarrow> (string \<times> string) list \<times> byte list" where
  "build_file_download_response valid_header f =
     (let filename = meta_filename (ret_metadata f);
          disposition = ''attachment; filename='' @ [CHR 0x22] @ filename @ [CHR 0x22]
      in ((''content-type'', content_type_for_filename filename)
            # (if valid_header disposition then [(''content-disposition'', disposition)] else [])
            @ [(''cache-control'', ''no-store'')],
          ret_data f))"

datatype status_code = BAD_REQUEST | NOT_FOUND | TOO_MANY_REQUESTS

definition filename_request_or_400 :: "string \<Rightarrow> status_code + string" where
  "filename_request_or_400 raw =
     (case sanitize_requested_filename raw of None \<Rightarrow> Inl BAD_REQUEST | Some name \<Rightarrow> Inr name)"

end
