(* ===== verification/Blob_Store.thy ===== *)
theory Blob_Store
  imports Persistence Server_Support
begin

text \<open>
  Where completed products are stored: the blob writers for a file system and for S3
  (\<open>emwin-db/src/writer.rs\<close>), the request that the command line builds for a product
  (\<open>emwin-cli/src/live/file_pipeline.rs\<close>, \<open>persistence.rs\<close>) and the unpacking of archives before it
  (\<open>archive_postprocess.rs\<close>).

  Paths are Unix paths. The disk is a map from files to their contents; which file a path names is
  a parameter (\<open>resolve\<close>), since links and the working directory decide it. Whether an operation of
  the file system, of the S3 service, of the URL parser or of the ZIP reader succeeds is part of the
  answers that the environment gives.
\<close>

subsection \<open>Paths\<close>

text \<open>\<open>Path::join\<close>: an absolute path replaces the base.\<close>

definition path_join :: "string \<Rightarrow> string \<Rightarrow> string" where
  "path_join base path =
     (if starts_with path ''/'' then path
      else if base = [] \<or> ends_with base ''/'' then base @ path
      else base @ ''/'' @ path)"

text \<open>Trailing slashes and \<open>.\<close> components are not part of the last component; the argument is reversed.\<close>

fun strip_rev :: "string \<Rightarrow> string" where
  "strip_rev (c # s) =
     (if c = CHR ''/'' then strip_rev s
      else if c = CHR ''.'' \<and> s \<noteq> [] \<and> hd s = CHR ''/'' then strip_rev s
      else c # s)"
| "strip_rev [] = []"

text \<open>The directory part with its slash, and the last component.\<close>

definition path_split :: "string \<Rightarrow> string \<times> string" where
  "path_split path =
     (let r = strip_rev (rev path); name = takeWhile (\<lambda>c. c \<noteq> CHR ''/'') r
      in (rev (drop (length name) r), rev name))"

definition path_file_name :: "string \<Rightarrow> string option" where
  "path_file_name path =
     (let name = snd (path_split path) in if name \<in> {[], ''.'', ''..''} then None else Some name)"

definition name_extension :: "string \<Rightarrow> (string \<times> string) option" where
  "name_extension name =
     (case rsplit_once (CHR ''.'') name of Some (stem, ext) \<Rightarrow> if stem = [] then None else Some (stem, ext) | None \<Rightarrow> None)"

definition path_extension :: "string \<Rightarrow> string option" where
  "path_extension path = Option.bind (path_file_name path) (\<lambda>name. map_option snd (name_extension name))"

definition path_with_extension :: "string \<Rightarrow> string \<Rightarrow> string" where
  "path_with_extension path ext =
     (case path_file_name path of
        None \<Rightarrow> path
      | Some name \<Rightarrow>
          fst (path_split path) @ (case name_extension name of Some (stem, _) \<Rightarrow> stem | None \<Rightarrow> name)
            @ (if ext = [] then [] else ''.'' @ ext))"

subsection \<open>writer.rs: the file system\<close>

text \<open>
  What the file system answers to one \<open>write\<close>: whether the blocking task can be joined, whether the
  directories can be created, whether the contents can be written and what a failed write leaves.
\<close>

record fs_answer =
  fs_join :: "string option"
  fs_create_dir :: "(io_kind \<times> string) option"
  fs_write_error :: "(io_kind \<times> string) option"
  fs_leftover :: "byte list option"

definition stored_blob :: "BlobStorageKind \<Rightarrow> string \<Rightarrow> BlobEntry \<Rightarrow> StoredBlob" where
  "stored_blob kind location entry =
     \<lparr>stored_kind = kind, stored_role = blob_role entry, stored_location = location,
      stored_size = length (blob_bytes entry), stored_type = blob_type entry\<rparr>"

definition fs_write ::
    "(string \<Rightarrow> string) \<Rightarrow> string \<Rightarrow> fs_answer \<Rightarrow> BlobEntry \<Rightarrow> disk \<Rightarrow> (PersistError + StoredBlob) \<times> disk" where
  "fs_write resolve root a entry d =
     (case fs_join a of
        Some e \<Rightarrow> (Inl (PJoin e), d)
      | None \<Rightarrow>
          let target = path_join root (blob_path entry) in
          case fs_create_dir a of
            Some (kind, e) \<Rightarrow> (Inl (PIo kind e), d)
          | None \<Rightarrow>
              (case fs_write_error a of
                 Some (kind, e) \<Rightarrow> (Inl (PIo kind e), d(resolve target := fs_leftover a))
               | None \<Rightarrow> (Inr (stored_blob Filesystem target entry), d(resolve target \<mapsto> blob_bytes entry))))"

text \<open>\<open>remove_file\<close>; a file that does not exist is no error. \<open>Some\<close> is any other failure.\<close>

definition fs_delete ::
    "(string \<Rightarrow> string) \<Rightarrow> PersistError option \<Rightarrow> StoredBlob \<Rightarrow> disk \<Rightarrow> (PersistError + unit) \<times> disk" where
  "fs_delete resolve a blob d =
     (case a of Some e \<Rightarrow> (Inl e, d) | None \<Rightarrow> (Inr (), d(resolve (stored_location blob) := None)))"

subsection \<open>writer.rs: S3\<close>

record S3Environment =
  s3_region :: "string option"
  s3_default_region :: "string option"
  s3_endpoint_url :: "string option"
  s3_profile :: "string option"

definition s3_env_from_map :: "(string \<rightharpoonup> string) \<Rightarrow> S3Environment" where
  "s3_env_from_map vars =
     \<lparr>s3_region = vars ''AWS_REGION'', s3_default_region = vars ''AWS_DEFAULT_REGION'',
      s3_endpoint_url = vars ''AWS_ENDPOINT_URL'', s3_profile = vars ''AWS_PROFILE''\<rparr>"

datatype 'r Region = CustomRegion string string | NamedRegion 'r

record 'r ResolvedS3Config =
  cfg_bucket_name :: string
  cfg_prefix :: "string option"
  cfg_region :: "'r Region"
  cfg_path_style :: bool
  cfg_profile :: "string option"

definition trim_matches_slash :: "string \<Rightarrow> string" where
  "trim_matches_slash s =
     rev (dropWhile (\<lambda>c. c = CHR ''/'') (rev (dropWhile (\<lambda>c. c = CHR ''/'') s)))"

definition normalize_prefix :: "string option \<Rightarrow> string option" where
  "normalize_prefix pfx =
     Option.bind pfx (\<lambda>value. let trimmed = trim_matches_slash value in if trimmed \<noteq> [] then Some trimmed else None)"

definition nonblank :: "string option \<Rightarrow> string option" where
  "nonblank value = Option.bind value (\<lambda>v. let t = trim v in if t = [] then None else Some t)"

text \<open>\<open>parse_region\<close> is the region parser of the S3 client.\<close>

definition resolve_s3_config ::
    "(string \<Rightarrow> string + 'r) \<Rightarrow> string \<Rightarrow> string option \<Rightarrow> S3Environment \<Rightarrow> PersistError + 'r ResolvedS3Config" where
  "resolve_s3_config parse_region bucket_name pfx env =
     (let endpoint_url = nonblank (s3_endpoint_url env);
          region_name = (case nonblank (s3_region env) of Some r \<Rightarrow> Some r | None \<Rightarrow> nonblank (s3_default_region env));
          config = (\<lambda>region. Inr \<lparr>cfg_bucket_name = bucket_name, cfg_prefix = normalize_prefix pfx, cfg_region = region,
            cfg_path_style = (endpoint_url \<noteq> None), cfg_profile = s3_profile env\<rparr>)
      in case (endpoint_url, region_name) of
           (Some endpoint, Some region) \<Rightarrow> config (CustomRegion region endpoint)
         | (Some endpoint, None) \<Rightarrow> config (CustomRegion ''us-east-1'' endpoint)
         | (None, Some region) \<Rightarrow>
             (case parse_region region of
                Inr r \<Rightarrow> config (NamedRegion r)
              | Inl err \<Rightarrow> Inl (PInvalidConfig (''invalid AWS region for S3 writer: '' @ err)))
         | (None, None) \<Rightarrow> Inl (PInvalidConfig
             ''S3 output requires AWS_REGION or AWS_DEFAULT_REGION unless AWS_ENDPOINT_URL is set''))"

definition normalize_relative_path :: "string \<Rightarrow> string" where
  "normalize_relative_path relative_path =
     dropWhile (\<lambda>c. c = CHR ''/'') (map (\<lambda>c. if c = CHR 0x5C then CHR ''/'' else c) relative_path)"

definition build_object_key :: "string option \<Rightarrow> string \<Rightarrow> string" where
  "build_object_key pfx relative_path =
     (let normalized = normalize_relative_path relative_path
      in case pfx of
           Some p \<Rightarrow> if p \<noteq> [] then p @ ''/'' @ normalized else normalized
         | None \<Rightarrow> normalized)"

definition format_s3_location :: "string \<Rightarrow> string \<Rightarrow> string" where
  "format_s3_location bucket key = ''s3://'' @ bucket @ ''/'' @ key"

definition parse_s3_location :: "string \<Rightarrow> string \<Rightarrow> PersistError + string" where
  "parse_s3_location location bucket =
     (case strip_prefix (''s3://'' @ bucket @ ''/'') location of
        Some key \<Rightarrow> Inr key
      | None \<Rightarrow> Inl (PInvalidRequest (''stored blob location `'' @ location @ ''` does not belong to bucket `'' @ bucket @ ''`'')))"

text \<open>
  The objects of a bucket with their content types. An answer is an error of the client with its
  text, and for a failed write what the object is afterwards.
\<close>

type_synonym objects = "string \<rightharpoonup> (byte list \<times> string option)"

record S3BlobWriter =
  s3_bucket :: string
  s3_prefix :: "string option"

definition s3_write ::
    "S3BlobWriter \<Rightarrow> ((s3_error \<times> string) \<times> (byte list \<times> string option) option) option \<Rightarrow> BlobEntry \<Rightarrow> objects
      \<Rightarrow> (PersistError + StoredBlob) \<times> objects" where
  "s3_write w a entry os =
     (let key = build_object_key (s3_prefix w) (blob_path entry)
      in case a of
           Some ((err, display), leftover) \<Rightarrow> (Inl (s3_client_error ''put_object'' err display), os(key := leftover))
         | None \<Rightarrow> (Inr (stored_blob S3Storage (format_s3_location (s3_bucket w) key) entry),
                    os(key \<mapsto> (blob_bytes entry, blob_type entry))))"

definition s3_delete ::
    "S3BlobWriter \<Rightarrow> (s3_error \<times> string) option \<Rightarrow> StoredBlob \<Rightarrow> objects \<Rightarrow> (PersistError + unit) \<times> objects" where
  "s3_delete w a blob os =
     (case parse_s3_location (stored_location blob) (s3_bucket w) of
        Inl e \<Rightarrow> (Inl e, os)
      | Inr key \<Rightarrow>
          (case a of
             None \<Rightarrow> (Inr (), os(key := None))
           | Some (err, display) \<Rightarrow>
               if err = S3HttpFailWithBody 404 then (Inr (), os(key := None))
               else (Inl (s3_client_error ''delete_object'' err display), os)))"

subsection \<open>archive\_postprocess.rs\<close>

record DeliveredProduct =
  del_filename :: string
  del_data :: "byte list"

datatype ArchivePostProcessError =
  InvalidArchive | EmptyArchive | InvalidEntry | DirectoryEntry | EmptyEntryPath | UnsafeEntryPath | ReadEntry

text \<open>
  The ZIP reader: the number of entries of an archive, or \<open>None\<close>; and its first entry, or \<open>None\<close>: whether
  it is a directory, its path if that stays inside the archive, and its contents if they can be read.
\<close>

record zip_entry =
  entry_is_dir :: bool
  enclosed_name :: "string option"
  entry_contents :: "byte list option"

record zip_ext =
  zip_len :: "byte list \<Rightarrow> nat option"
  zip_first :: "byte list \<Rightarrow> zip_entry option"

definition is_archive_filename :: "string \<Rightarrow> bool" where
  "is_archive_filename filename =
     (case rsplit_once (CHR ''.'') filename of
        Some (_, ext) \<Rightarrow> eq_ignore_ascii_case ext ''zip'' \<or> eq_ignore_ascii_case ext ''zis''
      | None \<Rightarrow> False)"

definition normalize_entry_path :: "string \<Rightarrow> ArchivePostProcessError + string" where
  "normalize_entry_path path =
     (if path = [] then Inl EmptyEntryPath
      else
        let filename = map (\<lambda>c. if c = CHR 0x5C then CHR ''/'' else c) path
        in if filename = [] \<or> starts_with filename ''/'' then Inl UnsafeEntryPath else Inr filename)"

definition post_process_archive ::
    "zip_ext \<Rightarrow> bool \<Rightarrow> string \<Rightarrow> byte list \<Rightarrow> ArchivePostProcessError + DeliveredProduct" where
  "post_process_archive Z enabled filename data =
     (if \<not> enabled \<or> \<not> is_archive_filename filename then Inr \<lparr>del_filename = filename, del_data = data\<rparr>
      else
        case zip_len Z data of
          None \<Rightarrow> Inl InvalidArchive
        | Some n \<Rightarrow>
            if n = 0 then Inl EmptyArchive
            else (case zip_first Z data of
                    None \<Rightarrow> Inl InvalidEntry
                  | Some entry \<Rightarrow>
                      if entry_is_dir entry then Inl DirectoryEntry
                      else (case enclosed_name entry of
                              None \<Rightarrow> Inl UnsafeEntryPath
                            | Some path \<Rightarrow>
                                (case normalize_entry_path path of
                                   Inl e \<Rightarrow> Inl e
                                 | Inr delivered_filename \<Rightarrow>
                                     (case entry_contents entry of
                                        None \<Rightarrow> Inl ReadEntry
                                      | Some extracted \<Rightarrow>
                                          Inr \<lparr>del_filename = delivered_filename, del_data = extracted\<rparr>)))))"

subsection \<open>file\_pipeline.rs\<close>

definition metadata_sidecar_path :: "string \<Rightarrow> string \<Rightarrow> string" where
  "metadata_sidecar_path output_dir filename =
     (let target = path_join output_dir filename
      in case path_extension target of
           Some _ \<Rightarrow> path_with_extension target ''JSON''
         | None \<Rightarrow> target @ ''.JSON'')"

text \<open>\<open>json\<close> is \<open>serde_json::to_vec_pretty\<close>, which can fail.\<close>

definition build_persist_request ::
    "('m \<Rightarrow> string + byte list) \<Rightarrow> string \<Rightarrow> byte list \<Rightarrow> 'm \<Rightarrow> string + 'm PersistRequest" where
  "build_persist_request json filename data metadata =
     (let metadata_path = dropWhile (\<lambda>c. c = CHR ''/'') (metadata_sidecar_path [] filename)
      in case json metadata of
           Inl e \<Rightarrow> Inl e
         | Inr metadata_bytes \<Rightarrow>
             Inr \<lparr>request_key = filename, req_metadata = metadata,
               req_blobs =
                 [\<lparr>blob_role = Payload, blob_path = filename, blob_bytes = data,
                   blob_type = Some ''application/octet-stream''\<rparr>,
                  \<lparr>blob_role = MetadataSidecar, blob_path = metadata_path, blob_bytes = metadata_bytes,
                   blob_type = Some ''application/json''\<rparr>]\<rparr>)"

subsection \<open>persistence.rs\<close>

datatype StorageTarget = TargetFilesystem string | TargetS3 string "string option"

record parsed_url =
  url_scheme :: string
  url_username :: string
  url_password :: "string option"
  url_port :: "u16 option"
  url_query :: "string option"
  url_fragment :: "string option"
  url_host_str :: "string option"
  url_path :: string

text \<open>\<open>parse_url\<close> is the parser of the \<open>url\<close> crate; errors carry the text of \<open>InvalidArgument\<close>.\<close>

definition quoted :: "string \<Rightarrow> string" where
  "quoted raw = ''`'' @ raw @ ''`''"

definition parse_s3_target :: "(string \<Rightarrow> string + parsed_url) \<Rightarrow> string \<Rightarrow> string + StorageTarget" where
  "parse_s3_target parse_url raw =
     (case parse_url raw of
        Inl err \<Rightarrow> Inl (''invalid S3 output URI '' @ quoted raw @ '': '' @ err)
      | Inr url \<Rightarrow>
          if url_scheme url \<noteq> ''s3'' then
            Inl (''--output-dir only supports filesystem paths or s3://bucket[/prefix], got '' @ quoted raw)
          else if url_username url \<noteq> [] \<or> url_password url \<noteq> None then
            Inl (''S3 output URI must not include credentials: '' @ quoted raw)
          else if url_port url \<noteq> None then Inl (''S3 output URI must not include a port: '' @ quoted raw)
          else if url_query url \<noteq> None \<or> url_fragment url \<noteq> None then
            Inl (''S3 output URI must not include query or fragment components: '' @ quoted raw)
          else
            case url_host_str url of
              None \<Rightarrow> Inl (''S3 output URI must include a bucket name: '' @ quoted raw)
            | Some bucket \<Rightarrow>
                let raw_path = trim_matches_slash (url_path url)
                in if list_ex (\<lambda>segment. segment = []) (split_on (CHR ''/'') raw_path) \<and> raw_path \<noteq> []
                   then Inl (''S3 output URI contains an empty prefix segment: '' @ quoted raw)
                   else Inr (TargetS3 bucket (if raw_path \<noteq> [] then Some raw_path else None)))"

definition parse_storage_target :: "(string \<Rightarrow> string + parsed_url) \<Rightarrow> string \<Rightarrow> string + StorageTarget" where
  "parse_storage_target parse_url raw =
     (if raw = [] then Inl ''--output-dir cannot be empty''
      else if starts_with raw ''s3://'' then parse_s3_target parse_url raw
      else if str_contains raw ''://'' then
        Inl (''--output-dir only supports filesystem paths or s3://bucket[/prefix], got '' @ quoted raw)
      else Inr (TargetFilesystem raw))"

definition enqueue_completed_product ::
    "('m \<Rightarrow> string + byte list) \<Rightarrow> string \<Rightarrow> byte list \<Rightarrow> 'm \<Rightarrow> 'm SharedQueue \<Rightarrow> (string + bool) \<times> 'm SharedQueue" where
  "enqueue_completed_product json filename data metadata q =
     (case build_persist_request json filename data metadata of
        Inl e \<Rightarrow> (Inl e, q)
      | Inr request \<Rightarrow> (let (result, q') = enqueue request q in (Inr (accepted result), q')))"

end
