(* ===== verification/Blob_Store_Correct.thy ===== *)
theory Blob_Store_Correct
  imports Blob_Store
begin

text \<open>
  What the blob writers promise, as a locale that both backends interpret: a successful write puts
  the bytes where the returned reference says and nowhere else, and the reference is enough to delete
  them again. From it follows what a request of the command line leaves behind.
\<close>

subsection \<open>The contract of a backend\<close>

text \<open>\<open>write_blobs\<close> of \<open>runtime.rs\<close>, with the answers of the environment in order.\<close>

fun write_blobs ::
    "('a \<Rightarrow> BlobEntry \<Rightarrow> 's \<Rightarrow> (PersistError + StoredBlob) \<times> 's) \<Rightarrow> (BlobEntry \<times> 'a) list \<Rightarrow> 's
      \<Rightarrow> (PersistError + StoredBlob list) \<times> 's" where
  "write_blobs writer [] s = (Inr [], s)"
| "write_blobs writer ((blob, a) # blobs) s =
     (case writer a blob s of
        (Inl err, s') \<Rightarrow> (Inl err, s')
      | (Inr stored, s') \<Rightarrow>
          (case write_blobs writer blobs s' of
             (Inl err, s'') \<Rightarrow> (Inl err, s'')
           | (Inr rest, s'') \<Rightarrow> (Inr (stored # rest), s'')))"

text \<open>\<open>slot\<close> is the place of an entry, \<open>at\<close> the place that a reference means.\<close>

locale blob_backend =
  fixes writer :: "'a \<Rightarrow> BlobEntry \<Rightarrow> 's \<Rightarrow> (PersistError + StoredBlob) \<times> 's"
    and remover :: "'b \<Rightarrow> StoredBlob \<Rightarrow> 's \<Rightarrow> (PersistError + unit) \<times> 's"
    and content :: "'s \<Rightarrow> 'k \<Rightarrow> byte list option"
    and slot :: "BlobEntry \<Rightarrow> 'k"
    and at :: "StoredBlob \<Rightarrow> 'k \<Rightarrow> bool"
  assumes write_done: "writer a e s = (Inr b, s') \<Longrightarrow>
      at b (slot e) \<and> stored_role b = blob_role e \<and> stored_size b = length (blob_bytes e)
      \<and> stored_type b = blob_type e \<and> content s' = (content s)(slot e \<mapsto> blob_bytes e)"
    and write_failed: "writer a e s = (Inl err, s') \<Longrightarrow> k \<noteq> slot e \<Longrightarrow> content s' k = content s k"
    and removed: "remover d b s = (Inr (), s') \<Longrightarrow> at b k \<Longrightarrow> content s' = (content s)(k := None)"
    and remove_failed: "remover d b s = (Inl err, s') \<Longrightarrow> content s' = content s"
begin

lemma written_then_removed:
  assumes "writer a e s = (Inr b, s1)" and "remover d b s1 = (Inr (), s2)"
  shows "content s2 = (content s)(slot e := None)"
  using write_done [OF assms(1)] removed [OF assms(2)] by auto

text \<open>All blobs are stored, and of two with the same place the later one remains.\<close>

lemma write_blobs_done:
  assumes "write_blobs writer blobs s = (Inr bs, s')"
  shows "content s' = content s ++ map_of (rev (map (\<lambda>(e, _). (slot e, blob_bytes e)) blobs))
    \<and> list_all2 (\<lambda>(e, _) b. at b (slot e) \<and> stored_role b = blob_role e \<and> stored_size b = length (blob_bytes e)) blobs bs"
  using assms
proof (induction blobs arbitrary: s bs)
  case (Cons p blobs)
  obtain e a where p: "p = (e, a)" by (cases p)
  from Cons.prems obtain b s1 rest where w: "writer a e s = (Inr b, s1)"
      and r: "write_blobs writer blobs s1 = (Inr rest, s')" and bs: "bs = b # rest"
    by (auto simp: p split: prod.splits sum.splits)
  have "content s1 = (content s)(slot e \<mapsto> blob_bytes e)" and b: "at b (slot e) \<and> stored_role b = blob_role e
      \<and> stored_size b = length (blob_bytes e)"
    using write_done [OF w] by (simp_all only: simp_thms)
  then have "content s' = (content s)(slot e \<mapsto> blob_bytes e) ++ map_of (rev (map (\<lambda>(e, _). (slot e, blob_bytes e)) blobs))"
    using Cons.IH [OF r] by (simp only:)
  then show ?case using Cons.IH [OF r] b by (simp add: p bs map_add_assoc [symmetric])
qed simp

text \<open>A failing request touches no place but those of its own blobs.\<close>

lemma write_blobs_elsewhere:
  assumes "write_blobs writer blobs s = (res, s')" and "k \<notin> slot ` fst ` set blobs"
  shows "content s' k = content s k"
  using assms
proof (induction blobs arbitrary: s res s')
  case (Cons p blobs)
  obtain e a where p: "p = (e, a)" by (cases p)
  obtain r s1 where w: "writer a e s = (r, s1)" by (cases "writer a e s")
  have k: "k \<noteq> slot e" "k \<notin> slot ` fst ` set blobs" using Cons.prems(2) by (auto simp: p)
  show ?case
  proof (cases r)
    case (Inl err)
    then show ?thesis using Cons.prems(1) w write_failed [of a e s err s1 k] k(1) by (simp add: p)
  next
    case (Inr b)
    obtain r2 s2 where rest: "write_blobs writer blobs s1 = (r2, s2)" by (cases "write_blobs writer blobs s1")
    have "content s2 k = content s1 k" by (rule Cons.IH [OF rest k(2)])
    moreover have "s' = s2" using Cons.prems(1) w Inr rest by (simp add: p split: sum.splits)
    ultimately show ?thesis using write_done [of a e s b s1] w Inr k(1) by simp
  qed
qed simp

end

lemma parse_format_s3_location [simp]: "parse_s3_location (format_s3_location bucket key) bucket = Inr key"
proof -
  have "format_s3_location bucket key = (''s3://'' @ bucket @ ''/'') @ key" by (simp add: format_s3_location_def)
  then show ?thesis by (simp only: parse_s3_location_def strip_prefix_append) simp
qed

interpretation fs: blob_backend "fs_write resolve root" "fs_delete resolve" "\<lambda>d. d"
  "\<lambda>e. resolve (path_join root (blob_path e))" "\<lambda>b k. k = resolve (stored_location b)" for resolve root
proof unfold_locales
  fix a e s b and s' :: disk
  assume "fs_write resolve root a e s = (Inr b, s')"
  then show "resolve (path_join root (blob_path e)) = resolve (stored_location b) \<and> stored_role b = blob_role e
      \<and> stored_size b = length (blob_bytes e) \<and> stored_type b = blob_type e
      \<and> s' = s(resolve (path_join root (blob_path e)) \<mapsto> blob_bytes e)"
    by (auto simp: fs_write_def stored_blob_def Let_def split: option.splits)
qed (auto simp: fs_write_def fs_delete_def Let_def split: option.splits)

interpretation s3: blob_backend "s3_write w" "s3_delete w" "\<lambda>os k. map_option fst (os k)"
  "\<lambda>e. build_object_key (s3_prefix w) (blob_path e)"
  "\<lambda>b k. parse_s3_location (stored_location b) (s3_bucket w) = Inr k" for w
proof unfold_locales
  fix a e s b and s' :: objects
  assume "s3_write w a e s = (Inr b, s')"
  then show "parse_s3_location (stored_location b) (s3_bucket w) = Inr (build_object_key (s3_prefix w) (blob_path e))
      \<and> stored_role b = blob_role e \<and> stored_size b = length (blob_bytes e) \<and> stored_type b = blob_type e
      \<and> (\<lambda>k. map_option fst (s' k)) =
        (\<lambda>k. map_option fst (s k))(build_object_key (s3_prefix w) (blob_path e) \<mapsto> blob_bytes e)"
    by (auto simp: s3_write_def stored_blob_def Let_def split: option.splits)
next
  fix d b s k and s' :: objects
  assume "s3_delete w d b s = (Inr (), s')" "parse_s3_location (stored_location b) (s3_bucket w) = Inr k"
  then have "s' = s(k := None)" by (auto simp: s3_delete_def split: option.splits if_splits)
  then show "(\<lambda>k. map_option fst (s' k)) = (\<lambda>k. map_option fst (s k))(k := None)" by auto
qed (auto simp: s3_write_def s3_delete_def Let_def split: option.splits sum.splits if_splits)

text \<open>
  what a backend has stored it can delete again from the reference alone: after a write and a
  deletion of the returned blob, in a file system as in a bucket, the place of the blob is empty and
  every other place is as before.
\<close>

theorem stored_blobs_can_be_deleted:
  "(fs_write resolve root a e d = (Inr b, d1) \<and> fs_delete resolve a1 b d1 = (Inr (), d2) \<longrightarrow>
      d2 = d(resolve (path_join root (blob_path e)) := None))
   \<and> (s3_write w a2 e os = (Inr b, os1) \<and> s3_delete w a3 b os1 = (Inr (), os2) \<longrightarrow>
      (\<lambda>k. map_option fst (os2 k)) = (\<lambda>k. map_option fst (os k))(build_object_key (s3_prefix w) (blob_path e) := None))"
  using fs.written_then_removed [of resolve root a e d b d1 a1 d2] s3.written_then_removed [of w a2 e os b os1 a3 os2] by blast

subsection \<open>The request for a product\<close>

text \<open>The sidecar of a file name without directories: the extension is replaced, or added.\<close>

lemma strip_rev_plain: "CHR ''/'' \<notin> set s \<Longrightarrow> strip_rev s = s"
proof (cases s)
  case (Cons c s')
  moreover assume "CHR ''/'' \<notin> set s"
  ultimately show ?thesis by (cases s') auto
qed simp

lemma path_split_plain: "CHR ''/'' \<notin> set name \<Longrightarrow> path_split name = ([], name)"
proof -
  assume plain: "CHR ''/'' \<notin> set name"
  then have "takeWhile (\<lambda>c. c \<noteq> CHR ''/'') (rev name) = rev name" by (auto simp: takeWhile_eq_all_conv)
  then show ?thesis using plain by (simp add: path_split_def strip_rev_plain Let_def del: takeWhile_eq_all_conv)
qed

lemma path_join_plain: "CHR ''/'' \<notin> set name \<Longrightarrow> path_join [] name = name"
  by (cases name) (auto simp: path_join_def starts_with_def)

lemma sidecar_replaces_extension:
  assumes "CHR ''/'' \<notin> set stem" "CHR ''/'' \<notin> set ext" "stem \<noteq> []" "CHR ''.'' \<notin> set ext" "stem @ ''.'' @ ext \<noteq> ''..''"
  shows "metadata_sidecar_path [] (stem @ ''.'' @ ext) = stem @ ''.JSON''"
proof -
  let ?name = "stem @ ''.'' @ ext"
  have plain: "CHR ''/'' \<notin> set ?name" using assms by auto
  have fname: "path_file_name ?name = Some ?name"
  proof -
    have "?name \<noteq> []" "?name \<noteq> ''.''" using assms(3) by (cases stem; auto)+
    then have "?name \<notin> {[], ''.'', ''..''}" using assms(5) by (simp del: append_Cons append_Nil)
    then show ?thesis unfolding path_file_name_def path_split_plain [OF plain] snd_conv Let_def by (rule if_not_P)
  qed
  have ext: "name_extension ?name = Some (stem, ext)"
    using assms rsplit_once_append [of "CHR ''.''" ext stem] by (simp add: name_extension_def)
  show ?thesis
    by (simp add: metadata_sidecar_path_def path_join_plain [OF plain] path_extension_def path_with_extension_def fname ext
      path_split_plain [OF plain] del: append_Cons append_Nil)
qed

lemma persist_request_blobs:
  assumes "build_persist_request json filename data md = Inr r" and "json md = Inr js"
  shows "req_blobs r = [\<lparr>blob_role = Payload, blob_path = filename, blob_bytes = data, blob_type = Some ''application/octet-stream''\<rparr>,
      \<lparr>blob_role = MetadataSidecar, blob_path = dropWhile (\<lambda>c. c = CHR ''/'') (metadata_sidecar_path [] filename),
       blob_bytes = js, blob_type = Some ''application/json''\<rparr>]"
  using assms by (auto simp: build_persist_request_def Let_def)

text \<open>The references that the file system writer returns carry the path of the entry below the root.\<close>

lemma fs_locations:
  "write_blobs (fs_write resolve root) blobs d = (Inr bs, d') \<Longrightarrow>
     map stored_location bs = map (\<lambda>(e, _). path_join root (blob_path e)) blobs"
proof (induction blobs arbitrary: d bs)
  case (Cons p blobs)
  obtain e a where p: "p = (e, a)" by (cases p)
  from Cons.prems obtain b d1 rest where "fs_write resolve root a e d = (Inr b, d1)"
      and rest: "write_blobs (fs_write resolve root) blobs d1 = (Inr rest, d')" and bs: "bs = b # rest"
    by (auto simp: p split: prod.splits sum.splits)
  then have "stored_location b = path_join root (blob_path e)"
    by (auto simp: fs_write_def stored_blob_def Let_def split: option.splits)
  with Cons.IH [OF rest] show ?case by (simp add: p bs)
qed simp

text \<open>
  C35: a product with a plain name \<open>stem.ext\<close> (no directories) whose two blobs have been written without an
  error is stored under the output directory: the payload at \<open>root/stem.ext\<close> and the metadata beside it at
  \<open>root/stem.JSON\<close>, which is where the returned references point, and every other file is unchanged. This
  holds when the file system takes these two names for different files, so not for a product whose
  extension is itself \<open>JSON\<close>.
\<close>

theorem persisted_product_is_stored:
  assumes name: "filename = stem @ ''.'' @ ext" "CHR ''/'' \<notin> set stem" "CHR ''/'' \<notin> set ext" "stem \<noteq> []"
      "CHR ''.'' \<notin> set ext" "filename \<noteq> ''..''"
    and req: "build_persist_request json filename data md = Inr r" "json md = Inr js"
    and wrote: "write_blobs (fs_write resolve root) (zip (req_blobs r) answers) d = (Inr bs, d')" "length answers = 2"
    and apart: "resolve (path_join root filename) \<noteq> resolve (path_join root (stem @ ''.JSON''))"
  shows "\<exists>payload sidecar. bs = [payload, sidecar]
    \<and> stored_role payload = Payload \<and> stored_location payload = path_join root filename
    \<and> stored_role sidecar = MetadataSidecar \<and> stored_location sidecar = path_join root (stem @ ''.JSON'')
    \<and> d' (resolve (path_join root filename)) = Some data
    \<and> d' (resolve (path_join root (stem @ ''.JSON''))) = Some js
    \<and> (\<forall>k. k \<noteq> resolve (path_join root filename) \<and> k \<noteq> resolve (path_join root (stem @ ''.JSON'')) \<longrightarrow> d' k = d k)"
proof -
  obtain a1 a2 where two: "answers = [a1, a2]" using wrote(2) by (auto simp: length_Suc_conv numeral_2_eq_2)
  have "metadata_sidecar_path [] filename = stem @ ''.JSON''"
    unfolding name(1) using name by (intro sidecar_replaces_extension) auto
  moreover have "dropWhile (\<lambda>c. c = CHR ''/'') (stem @ ''.JSON'') = stem @ ''.JSON''"
    using name(2,4) by (cases stem) auto
  ultimately have blobs: "req_blobs r =
      [\<lparr>blob_role = Payload, blob_path = filename, blob_bytes = data, blob_type = Some ''application/octet-stream''\<rparr>,
       \<lparr>blob_role = MetadataSidecar, blob_path = stem @ ''.JSON'', blob_bytes = js, blob_type = Some ''application/json''\<rparr>]"
    using persist_request_blobs [OF req] by simp
  then obtain payload sidecar where "bs = [payload, sidecar]" "stored_role payload = Payload"
      "stored_role sidecar = MetadataSidecar"
      "d' = d(resolve (path_join root filename) \<mapsto> data, resolve (path_join root (stem @ ''.JSON'')) \<mapsto> js)"
    using fs.write_blobs_done [OF wrote(1)] two by (auto simp: list_all2_Cons1)
  moreover have "map stored_location bs = [path_join root filename, path_join root (stem @ ''.JSON'')]"
    using fs_locations [OF wrote(1)] two blobs by simp
  ultimately show ?thesis using apart by auto
qed

definition fs_success :: fs_answer where
  "fs_success = \<lparr>fs_join = None, fs_create_dir = None, fs_write_error = None, fs_leftover = None\<rparr>"

definition sample_json :: "unit \<Rightarrow> string + byte list" where
  "sample_json u = Inr [123, 125]"

theorem persisted_product_is_stored_witness:
  "\<exists>r bs d'. build_persist_request sample_json ''A.TXT'' [65] () = Inr r
    \<and> write_blobs (fs_write id ''out'') (zip (req_blobs r) [fs_success, fs_success]) Map.empty = (Inr bs, d')
    \<and> map stored_location bs = [''out/A.TXT'', ''out/A.JSON'']
    \<and> d' ''out/A.TXT'' = Some [65] \<and> d' ''out/A.JSON'' = Some [123, 125]"
proof -
  obtain r where r: "build_persist_request sample_json ''A.TXT'' [65] () = Inr r"
    by (simp add: build_persist_request_def sample_json_def)
  have blobs: "length (req_blobs r) = 2" using persist_request_blobs [OF r] by (simp add: sample_json_def)
  then obtain bs d' where w: "write_blobs (fs_write id ''out'') (zip (req_blobs r) [fs_success, fs_success]) Map.empty = (Inr bs, d')"
    by (auto simp: length_Suc_conv numeral_2_eq_2 fs_write_def fs_success_def Let_def)
  have paths: "path_join ''out'' ''A.TXT'' = ''out/A.TXT''" "path_join ''out'' (''A'' @ ''.JSON'') = ''out/A.JSON''"
    by (simp_all add: path_join_def starts_with_def ends_with_def)
  have apart: "id (path_join ''out'' ''A.TXT'') \<noteq> id (path_join ''out'' (''A'' @ ''.JSON''))" unfolding paths by simp
  have "\<exists>payload sidecar. bs = [payload, sidecar]
    \<and> stored_role payload = Payload \<and> stored_location payload = path_join ''out'' ''A.TXT''
    \<and> stored_role sidecar = MetadataSidecar \<and> stored_location sidecar = path_join ''out'' (''A'' @ ''.JSON'')
    \<and> d' (id (path_join ''out'' ''A.TXT'')) = Some [65]
    \<and> d' (id (path_join ''out'' (''A'' @ ''.JSON''))) = Some [123, 125]
    \<and> (\<forall>k. k \<noteq> id (path_join ''out'' ''A.TXT'') \<and> k \<noteq> id (path_join ''out'' (''A'' @ ''.JSON'')) \<longrightarrow> d' k = Map.empty k)"
    by (rule persisted_product_is_stored [where ext = "''TXT''", OF _ _ _ _ _ _ r _ w _ apart])
      (simp_all add: sample_json_def)
  then have "map stored_location bs = [''out/A.TXT'', ''out/A.JSON'']" "d' ''out/A.TXT'' = Some [65]"
      "d' ''out/A.JSON'' = Some [123, 125]"
    unfolding paths id_apply by (elim exE conjE; simp)+
  then show ?thesis using r w by (intro exI conjI)
qed

text \<open>
  the sidecar replaces the product itself when the product's extension is already \<open>JSON\<close>: both
  blobs of the request have the same path, and after both writes have succeeded the file holds the
  metadata and the payload is lost.
\<close>

theorem json_product_is_overwritten:
  assumes "CHR ''/'' \<notin> set stem" and "stem \<noteq> []"
    and "build_persist_request json (stem @ ''.JSON'') data md = Inr r" and "json md = Inr js"
    and "write_blobs (fs_write resolve root) (zip (req_blobs r) answers) d = (Inr bs, d')" and "length answers = 2"
  shows "d' (resolve (path_join root (stem @ ''.JSON''))) = Some js"
proof -
  have "metadata_sidecar_path [] (stem @ ''.'' @ ''JSON'') = stem @ ''.JSON''"
    using assms(1,2) by (intro sidecar_replaces_extension) auto
  moreover have "dropWhile (\<lambda>c. c = CHR ''/'') (stem @ ''.JSON'') = stem @ ''.JSON''"
    using assms(1,2) by (cases stem) auto
  moreover obtain a1 a2 where "answers = [a1, a2]" using assms(6) by (auto simp: length_Suc_conv numeral_2_eq_2)
  ultimately show ?thesis
    using fs.write_blobs_done [OF assms(5)] persist_request_blobs [OF assms(3,4)] by (auto simp: list_all2_Cons1)
qed

text \<open>
  the output directory does not confine what is written: a name that begins with a slash, as the
  Weather Wire decoder builds it from such an AWIPS identifier, is written to that absolute path.
\<close>

theorem absolute_name_leaves_output_directory:
  assumes "json md = Inr js"
  shows "\<exists>r. build_persist_request json (build_filename (''/'' @ path) ttaaii cccc ident issued) data md = Inr r
    \<and> fst (fs_write resolve root fs_success (hd (req_blobs r)) d) =
        Inr (stored_blob Filesystem (''/'' @ path @ ''.TXT'') (hd (req_blobs r)))
    \<and> snd (fs_write resolve root fs_success (hd (req_blobs r)) d) = d(resolve (''/'' @ path @ ''.TXT'') \<mapsto> data)"
  using assms
  by (simp add: build_persist_request_def build_filename_def fs_write_def fs_success_def path_join_def starts_with_def Let_def)

end
