(* ===== verification/Product_Model.thy ===== *)
theory Product_Model
  imports Ugc Vtec Server_Support Complex_Main
begin

text \<open>
  What the text parser says about a product, as far as other components read it
  (\<open>emwin-parser/src/enrichment.rs\<close>, \<open>body/enrich.rs\<close>, \<open>body/vtec_events.rs\<close>, \<open>header/parser.rs\<close>), and the
  geometry on it (\<open>geo.rs\<close>).

  The type of \<open>f64\<close> is a type variable whose operations are the record \<open>f64_ops\<close>; a decimal literal of
  the code is the image of a rational number. The structured results of the specialized parsers are
  a type variable as well, because nothing here looks into them.
\<close>

subsection \<open>Floating-point operations\<close>

record 'f f64_ops =
  f_lit :: "rat \<Rightarrow> 'f"
  f_add :: "'f \<Rightarrow> 'f \<Rightarrow> 'f"
  f_sub :: "'f \<Rightarrow> 'f \<Rightarrow> 'f"
  f_mul :: "'f \<Rightarrow> 'f \<Rightarrow> 'f"
  f_div :: "'f \<Rightarrow> 'f \<Rightarrow> 'f"
  f_min :: "'f \<Rightarrow> 'f \<Rightarrow> 'f"
  f_max :: "'f \<Rightarrow> 'f \<Rightarrow> 'f"
  f_abs :: "'f \<Rightarrow> 'f"
  f_le :: "'f \<Rightarrow> 'f \<Rightarrow> bool"
  f_lt :: "'f \<Rightarrow> 'f \<Rightarrow> bool"
  f_is_finite :: "'f \<Rightarrow> bool"
  f_to_radians :: "'f \<Rightarrow> 'f"
  f_sin :: "'f \<Rightarrow> 'f"
  f_cos :: "'f \<Rightarrow> 'f"
  f_sqrt :: "'f \<Rightarrow> 'f"
  f_atan2 :: "'f \<Rightarrow> 'f \<Rightarrow> 'f"

subsection \<open>geo.rs\<close>

record 'f GeoPoint =
  pt_lat :: 'f
  pt_lon :: 'f

record 'f GeoBounds =
  min_lat :: 'f
  max_lat :: 'f
  min_lon :: 'f
  max_lon :: 'f

definition EARTH_RADIUS_MILES :: rat where
  "EARTH_RADIUS_MILES = 39587613 / 10000"

definition EPSILON :: rat where
  "EPSILON = 1 / 10 ^ 9"

definition distance_miles :: "'f f64_ops \<Rightarrow> 'f GeoPoint \<Rightarrow> 'f GeoPoint \<Rightarrow> 'f" where
  "distance_miles F a b =
     (let lat1 = f_to_radians F (pt_lat a);
          lat2 = f_to_radians F (pt_lat b);
          delta_lat = f_to_radians F (f_sub F (pt_lat b) (pt_lat a));
          delta_lon = f_to_radians F (f_sub F (pt_lon b) (pt_lon a));
          sin_lat = f_sin F (f_div F delta_lat (f_lit F 2));
          sin_lon = f_sin F (f_div F delta_lon (f_lit F 2));
          haversine = f_add F (f_mul F sin_lat sin_lat)
            (f_mul F (f_mul F (f_mul F (f_cos F lat1) (f_cos F lat2)) sin_lon) sin_lon);
          arc = f_mul F (f_lit F 2) (f_atan2 F (f_sqrt F haversine) (f_sqrt F (f_sub F (f_lit F 1) haversine)))
      in f_mul F (f_lit F EARTH_RADIUS_MILES) arc)"

definition extend_bounds :: "'f f64_ops \<Rightarrow> 'f \<times> 'f \<Rightarrow> 'f GeoBounds \<Rightarrow> 'f GeoBounds" where
  "extend_bounds F p bounds =
     \<lparr>min_lat = f_min F (min_lat bounds) (fst p), max_lat = f_max F (max_lat bounds) (fst p),
      min_lon = f_min F (min_lon bounds) (snd p), max_lon = f_max F (max_lon bounds) (snd p)\<rparr>"

definition polygon_bounds :: "'f f64_ops \<Rightarrow> ('f \<times> 'f) list \<Rightarrow> 'f GeoBounds option" where
  "polygon_bounds F points =
     (case points of
        [] \<Rightarrow> None
      | (lat, lon) # rest \<Rightarrow>
          Some (fold (extend_bounds F) rest \<lparr>min_lat = lat, max_lat = lat, min_lon = lon, max_lon = lon\<rparr>))"

definition bounds_contains :: "'f f64_ops \<Rightarrow> 'f GeoBounds \<Rightarrow> 'f GeoPoint \<Rightarrow> bool" where
  "bounds_contains F bounds p \<longleftrightarrow>
     f_le F (min_lat bounds) (pt_lat p) \<and> f_le F (pt_lat p) (max_lat bounds)
     \<and> f_le F (min_lon bounds) (pt_lon p) \<and> f_le F (pt_lon p) (max_lon bounds)"

definition point_on_segment :: "'f f64_ops \<Rightarrow> 'f GeoPoint \<Rightarrow> 'f \<times> 'f \<Rightarrow> 'f \<times> 'f \<Rightarrow> bool" where
  "point_on_segment F p start stop =
     (let (start_lat, start_lon) = start; (end_lat, end_lon) = stop;
          cross = f_sub F (f_mul F (f_sub F (pt_lat p) start_lat) (f_sub F end_lon start_lon))
            (f_mul F (f_sub F (pt_lon p) start_lon) (f_sub F end_lat start_lat))
      in if f_lt F (f_lit F EPSILON) (f_abs F cross) then False
         else
           f_le F (f_sub F (f_min F start_lat end_lat) (f_lit F EPSILON)) (pt_lat p)
           \<and> f_le F (pt_lat p) (f_add F (f_max F start_lat end_lat) (f_lit F EPSILON))
           \<and> f_le F (f_sub F (f_min F start_lon end_lon) (f_lit F EPSILON)) (pt_lon p)
           \<and> f_le F (pt_lon p) (f_add F (f_max F start_lon end_lon) (f_lit F EPSILON)))"

text \<open>The edge from \<open>previous\<close> to \<open>current\<close> crosses the ray from the point.\<close>

definition crosses :: "'f f64_ops \<Rightarrow> 'f GeoPoint \<Rightarrow> 'f \<times> 'f \<Rightarrow> 'f \<times> 'f \<Rightarrow> bool" where
  "crosses F p previous current =
     (let (current_lat, current_lon) = current; (previous_lat, previous_lon) = previous
      in f_lt F (pt_lat p) current_lat \<noteq> f_lt F (pt_lat p) previous_lat
         \<and> f_le F (pt_lon p)
             (f_add F (f_div F (f_mul F (f_sub F previous_lon current_lon) (f_sub F (pt_lat p) current_lat))
                (f_sub F previous_lat current_lat)) current_lon))"

fun polygon_loop :: "'f f64_ops \<Rightarrow> 'f GeoPoint \<Rightarrow> ('f \<times> 'f) list \<Rightarrow> 'f \<times> 'f \<Rightarrow> bool \<Rightarrow> bool" where
  "polygon_loop F p [] previous inside = inside"
| "polygon_loop F p (current # rest) previous inside =
     (if point_on_segment F p previous current then True
      else polygon_loop F p rest current (if crosses F p previous current then \<not> inside else inside))"

definition point_in_polygon :: "'f f64_ops \<Rightarrow> 'f GeoPoint \<Rightarrow> ('f \<times> 'f) list \<Rightarrow> bool" where
  "point_in_polygon F p polygon =
     (if length polygon < 3 then False else polygon_loop F p polygon (last polygon) False)"

subsection \<open>Bodies\<close>

record 'f LatLonPolygon =
  poly_points :: "('f \<times> 'f) list"
  poly_wkt :: string

record 'f TimeMotLocEntry =
  tml_time_utc :: datetime
  tml_direction_degrees :: u16
  tml_speed_kt :: u16
  tml_points :: "('f \<times> 'f) list"
  tml_wkt :: string

datatype WindHailKind = LegacyWind | LegacyHail | WindThreat | MaxWindGust | HailThreat | MaxHailSize

record 'f WindHailEntry =
  wh_kind :: WindHailKind
  wh_numeric_value :: "'f option"
  wh_units :: "string option"
  wh_comparison :: "char option"

record 'f VtecEventSegment =
  seg_index :: usize
  seg_vtec :: "VtecCode list"
  seg_ugc_sections :: "'f UgcSection list"
  seg_hvtec :: "'f NwslidEntry HvtecCode list"
  seg_polygons :: "'f LatLonPolygon list"
  seg_time_mot_loc :: "'f TimeMotLocEntry list"
  seg_wind_hail :: "'f WindHailEntry list"

record 'f GenericBody =
  gen_ugc :: "'f UgcSection list option"
  gen_latlon :: "'f LatLonPolygon list option"
  gen_time_mot_loc :: "'f TimeMotLocEntry list option"
  gen_wind_hail :: "'f WindHailEntry list option"

datatype 'f ProductBody = VtecEvent "'f VtecEventSegment list" | Generic "'f GenericBody"

record 'f ParsedPolygon =
  pp_points :: "('f \<times> 'f) list"
  pp_bounds :: "'f GeoBounds option"

text \<open>\<open>option.iter().flat_map(|xs| xs.iter())\<close>.\<close>

definition opt_list :: "'a list option \<Rightarrow> 'a list" where
  "opt_list x = (case x of Some xs \<Rightarrow> xs | None \<Rightarrow> [])"

definition geo_point :: "'f \<times> 'f \<Rightarrow> 'f GeoPoint" where
  "geo_point p = \<lparr>pt_lat = fst p, pt_lon = snd p\<rparr>"

definition option_zip :: "'a option \<Rightarrow> 'b option \<Rightarrow> ('a \<times> 'b) option" where
  "option_zip x y = (case (x, y) of (Some a, Some b) \<Rightarrow> Some (a, b) | _ \<Rightarrow> None)"

definition section_points :: "'f UgcSection \<Rightarrow> 'f GeoPoint list" where
  "section_points section =
     List.map_filter (\<lambda>area. map_option geo_point (option_zip (area_lat area) (area_lon area)))
       (concat (map snd (counties section) @ map snd (zones section) @ map snd (fire_zones section)
         @ map snd (marine_zones section)))"

definition entry_points :: "'f TimeMotLocEntry \<Rightarrow> 'f GeoPoint list" where
  "entry_points entry = map geo_point (tml_points entry)"

definition parsed_polygon :: "'f f64_ops \<Rightarrow> 'f LatLonPolygon \<Rightarrow> 'f ParsedPolygon" where
  "parsed_polygon F polygon = \<lparr>pp_points = poly_points polygon, pp_bounds = polygon_bounds F (poly_points polygon)\<rparr>"

definition generic_body_iter_location_points :: "'f GenericBody \<Rightarrow> 'f GeoPoint list" where
  "generic_body_iter_location_points body =
     concat (map entry_points (opt_list (gen_time_mot_loc body))) @ concat (map section_points (opt_list (gen_ugc body)))"

definition generic_body_iter_polygons :: "'f f64_ops \<Rightarrow> 'f GenericBody \<Rightarrow> 'f ParsedPolygon list" where
  "generic_body_iter_polygons F body = map (parsed_polygon F) (opt_list (gen_latlon body))"

definition vtec_event_body_iter_location_points :: "'f VtecEventSegment list \<Rightarrow> 'f GeoPoint list" where
  "vtec_event_body_iter_location_points segments =
     concat (map (\<lambda>segment.
       concat (map entry_points (seg_time_mot_loc segment))
       @ concat (map section_points (seg_ugc_sections segment))
       @ List.map_filter (\<lambda>code. map_option (\<lambda>l. \<lparr>pt_lat = nl_latitude l, pt_lon = nl_longitude l\<rparr>) (hv_location code))
           (seg_hvtec segment)) segments)"

definition vtec_event_body_iter_polygons :: "'f f64_ops \<Rightarrow> 'f VtecEventSegment list \<Rightarrow> 'f ParsedPolygon list" where
  "vtec_event_body_iter_polygons F segments = concat (map (\<lambda>segment. map (parsed_polygon F) (seg_polygons segment)) segments)"

fun iter_location_points :: "'f ProductBody \<Rightarrow> 'f GeoPoint list" where
  "iter_location_points (VtecEvent segments) = vtec_event_body_iter_location_points segments"
| "iter_location_points (Generic body) = generic_body_iter_location_points body"

fun iter_polygons :: "'f f64_ops \<Rightarrow> 'f ProductBody \<Rightarrow> 'f ParsedPolygon list" where
  "iter_polygons F (VtecEvent segments) = vtec_event_body_iter_polygons F segments"
| "iter_polygons F (Generic body) = generic_body_iter_polygons F body"

subsection \<open>The enrichment of a product\<close>

record WmoHeader =
  wh_ttaaii :: string
  wh_cccc :: string
  wh_ddhhmm :: string
  wh_bbb :: "string option"

record TextProductHeader =
  th_ttaaii :: string
  th_cccc :: string
  th_ddhhmm :: string
  th_bbb :: "string option"
  th_afos :: string

datatype BbbKind = Amendment | Correction | DelayedRepeat | OtherBbb

datatype ProductEnrichmentSource = TextHeader | WmoBulletin | FilenameNonText | UnknownSource

record ('f, 'a) ProductEnrichment =
  pe_source :: ProductEnrichmentSource
  pe_family :: "string option"
  pe_title :: "string option"
  pe_container :: string
  pe_pil :: "string option"
  pe_wmo_prefix :: "string option"
  pe_office :: "WmoOfficeEntry option"
  pe_header :: "TextProductHeader option"
  pe_wmo_header :: "WmoHeader option"
  pe_bbb_kind :: "BbbKind option"
  pe_body :: "'f ProductBody option"
  pe_parsed :: "'a option"
  pe_issues :: "ProductParseIssue list"

end
