(* ===== verification/File_Filter.thy ===== *)
theory File_Filter
  imports Product_Model
begin

text \<open>
  The filter for completed-file events (\<open>emwin-cli/src/live/filter.rs\<close>): from raw query parameters to a
  filter, and from a filter to a decision about the metadata of a file. A \<open>BTreeSet\<close> that is only asked
  for membership is a set; the sets are built from lists, so that everything can be evaluated.
\<close>

subsection \<open>Parsing of parameters\<close>

definition normalize_upper :: "string \<Rightarrow> string" where
  "normalize_upper value = to_ascii_uppercase (trim value)"

definition normalize_lower :: "string \<Rightarrow> string" where
  "normalize_lower value = to_ascii_lowercase (trim value)"

definition csv_items :: "string option \<Rightarrow> string list" where
  "csv_items raw =
     (case raw of None \<Rightarrow> [] | Some value \<Rightarrow> filter (\<lambda>v. v \<noteq> []) (map trim (split_on (CHR '','') value)))"

definition csv_values :: "string option \<Rightarrow> (string \<Rightarrow> string) \<Rightarrow> string set option" where
  "csv_values raw norm_fn =
     (let values = set (map norm_fn (csv_items raw)) in if values \<noteq> {} then Some values else None)"

definition csv_numbers :: "string option \<Rightarrow> u32 set option" where
  "csv_numbers raw =
     (let values = set (List.map_filter parse_word (csv_items raw)) in if values \<noteq> {} then Some values else None)"

definition parse_optional_bool :: "string option \<Rightarrow> bool option" where
  "parse_optional_bool raw =
     (case Option.bind raw (\<lambda>r. let v = trim r in if v = [] then None else Some v) of
        Some v \<Rightarrow>
          if eq_ignore_ascii_case v ''true'' \<or> v = ''1'' then Some True
          else if eq_ignore_ascii_case v ''false'' \<or> v = ''0'' then Some False
          else None
      | None \<Rightarrow> None)"

record 'f FileFilterInput =
  in_filename :: "string option"
  in_source :: "string option"
  in_pil :: "string option"
  in_family :: "string option"
  in_container :: "string option"
  in_wmo_prefix :: "string option"
  in_office :: "string option"
  in_office_city :: "string option"
  in_office_state :: "string option"
  in_bbb_kind :: "string option"
  in_cccc :: "string option"
  in_ttaaii :: "string option"
  in_afos :: "string option"
  in_bbb :: "string option"
  in_has_issues :: "string option"
  in_issue_kind :: "string option"
  in_issue_code :: "string option"
  in_has_vtec :: "string option"
  in_has_ugc :: "string option"
  in_has_hvtec :: "string option"
  in_has_latlon :: "string option"
  in_has_time_mot_loc :: "string option"
  in_has_wind_hail :: "string option"
  in_state :: "string option"
  in_county :: "string option"
  in_zone :: "string option"
  in_fire_zone :: "string option"
  in_marine_zone :: "string option"
  in_vtec_phenomena :: "string option"
  in_vtec_significance :: "string option"
  in_vtec_action :: "string option"
  in_vtec_office :: "string option"
  in_etn :: "string option"
  in_hvtec_nwslid :: "string option"
  in_hvtec_severity :: "string option"
  in_hvtec_cause :: "string option"
  in_hvtec_record :: "string option"
  in_wind_hail_kind :: "string option"
  in_lat :: "'f option"
  in_lon :: "'f option"
  in_distance_miles :: "'f option"
  in_min_wind_mph :: "'f option"
  in_min_hail_inches :: "'f option"
  in_min_size :: "usize option"
  in_max_size :: "usize option"

subsection \<open>Shared tests\<close>

type_synonym allowed = "string set option"

definition matches_option_set :: "allowed \<Rightarrow> string option \<Rightarrow> (string \<Rightarrow> string) \<Rightarrow> bool" where
  "matches_option_set allowed value norm_fn =
     (case allowed of
        Some a \<Rightarrow> (case value of Some v \<Rightarrow> norm_fn v \<in> a | None \<Rightarrow> False)
      | None \<Rightarrow> True)"

definition matches_char_set :: "allowed \<Rightarrow> char \<Rightarrow> bool" where
  "matches_char_set allowed value = (case allowed of Some a \<Rightarrow> [ascii_upper value] \<in> a | None \<Rightarrow> True)"

definition matches_number_set :: "u32 set option \<Rightarrow> u32 \<Rightarrow> bool" where
  "matches_number_set allowed value = (case allowed of Some a \<Rightarrow> value \<in> a | None \<Rightarrow> True)"

definition matches_serialized_option :: "allowed \<Rightarrow> 't option \<Rightarrow> ('t \<Rightarrow> string) \<Rightarrow> bool" where
  "matches_serialized_option allowed value serialize =
     (case allowed of
        Some a \<Rightarrow> (case value of Some v \<Rightarrow> serialize v \<in> a | None \<Rightarrow> False)
      | None \<Rightarrow> True)"

definition matches_optional_presence :: "bool option \<Rightarrow> usize \<Rightarrow> bool" where
  "matches_optional_presence expected value_count =
     (case expected of Some e \<Rightarrow> e = (value_count > 0) | None \<Rightarrow> True)"

subsection \<open>Names of enumeration values\<close>

fun product_source_name :: "ProductEnrichmentSource \<Rightarrow> string" where
  "product_source_name TextHeader = ''text_header''"
| "product_source_name WmoBulletin = ''wmo_bulletin''"
| "product_source_name FilenameNonText = ''filename_non_text''"
| "product_source_name UnknownSource = ''unknown''"

fun bbb_kind_name :: "BbbKind \<Rightarrow> string" where
  "bbb_kind_name Amendment = ''amendment''"
| "bbb_kind_name Correction = ''correction''"
| "bbb_kind_name DelayedRepeat = ''delayed_repeat''"
| "bbb_kind_name OtherBbb = ''other''"

fun hvtec_severity_name :: "HvtecSeverity \<Rightarrow> string" where
  "hvtec_severity_name SeverityNone = ''none''"
| "hvtec_severity_name SeverityMinor = ''minor''"
| "hvtec_severity_name SeverityModerate = ''moderate''"
| "hvtec_severity_name SeverityMajor = ''major''"
| "hvtec_severity_name SeverityUnknown = ''unknown''"

fun hvtec_cause_name :: "HvtecCause \<Rightarrow> string" where
  "hvtec_cause_name ExcessiveRainfall = ''excessive_rainfall''"
| "hvtec_cause_name Snowmelt = ''snowmelt''"
| "hvtec_cause_name RainAndSnowmelt = ''rain_and_snowmelt''"
| "hvtec_cause_name DamFailure = ''dam_failure''"
| "hvtec_cause_name GlacierOutburst = ''glacier_outburst''"
| "hvtec_cause_name IceJam = ''ice_jam''"
| "hvtec_cause_name RainSnowmeltIceJam = ''rain_snowmelt_ice_jam''"
| "hvtec_cause_name UpstreamFloodingStormSurge = ''upstream_flooding_storm_surge''"
| "hvtec_cause_name UpstreamFloodingTidalEffects = ''upstream_flooding_tidal_effects''"
| "hvtec_cause_name ElevatedUpstreamFlowTidalEffects = ''elevated_upstream_flow_tidal_effects''"
| "hvtec_cause_name WindTidalEffects = ''wind_tidal_effects''"
| "hvtec_cause_name UpstreamDamRelease = ''upstream_dam_release''"
| "hvtec_cause_name MultipleCauses = ''multiple_causes''"
| "hvtec_cause_name OtherEffects = ''other_effects''"
| "hvtec_cause_name CauseUnknown = ''unknown''"
| "hvtec_cause_name CauseOther = ''other''"

fun hvtec_record_name :: "HvtecRecord \<Rightarrow> string" where
  "hvtec_record_name NoRecord = ''no_record''"
| "hvtec_record_name NearRecord = ''near_record''"
| "hvtec_record_name NotApplicable = ''not_applicable''"
| "hvtec_record_name Unavailable = ''unavailable''"
| "hvtec_record_name RecordUnknown = ''unknown''"

fun wind_hail_kind_name :: "WindHailKind \<Rightarrow> string" where
  "wind_hail_kind_name LegacyWind = ''legacy_wind''"
| "wind_hail_kind_name LegacyHail = ''legacy_hail''"
| "wind_hail_kind_name WindThreat = ''wind_threat''"
| "wind_hail_kind_name MaxWindGust = ''max_wind_gust''"
| "wind_hail_kind_name HailThreat = ''hail_threat''"
| "wind_hail_kind_name MaxHailSize = ''max_hail_size''"

definition is_wind_entry :: "'f WindHailEntry \<Rightarrow> bool" where
  "is_wind_entry entry \<longleftrightarrow> wh_kind entry = LegacyWind \<or> wh_kind entry = MaxWindGust"

definition is_hail_entry :: "'f WindHailEntry \<Rightarrow> bool" where
  "is_hail_entry entry \<longleftrightarrow> wh_kind entry = LegacyHail \<or> wh_kind entry = MaxHailSize"

definition wind_speed_mph :: "'f f64_ops \<Rightarrow> 'f \<Rightarrow> string \<Rightarrow> 'f" where
  "wind_speed_mph F value units =
     (if normalize_upper units = ''KTS'' \<or> normalize_upper units = ''KT'' then f_mul F value (f_lit F (115078 / 100000))
      else value)"

subsection \<open>Parts of a body\<close>

fun body_ugc_sections :: "'f ProductBody \<Rightarrow> 'f UgcSection list" where
  "body_ugc_sections (VtecEvent segments) = concat (map seg_ugc_sections segments)"
| "body_ugc_sections (Generic body) = opt_list (gen_ugc body)"

fun body_vtec_codes :: "'f ProductBody \<Rightarrow> VtecCode list" where
  "body_vtec_codes (VtecEvent segments) = concat (map seg_vtec segments)"
| "body_vtec_codes (Generic _) = []"

fun body_hvtec_codes :: "'f ProductBody \<Rightarrow> 'f NwslidEntry HvtecCode list" where
  "body_hvtec_codes (VtecEvent segments) = concat (map seg_hvtec segments)"
| "body_hvtec_codes (Generic _) = []"

fun body_wind_hail_entries :: "'f ProductBody \<Rightarrow> 'f WindHailEntry list" where
  "body_wind_hail_entries (VtecEvent segments) = concat (map seg_wind_hail segments)"
| "body_wind_hail_entries (Generic body) = opt_list (gen_wind_hail body)"

fun body_vtec_codes_len :: "'f ProductBody \<Rightarrow> usize" where
  "body_vtec_codes_len (VtecEvent segments) = sum_list (map (length \<circ> seg_vtec) segments)"
| "body_vtec_codes_len (Generic _) = 0"

fun body_ugc_sections_len :: "'f ProductBody \<Rightarrow> usize" where
  "body_ugc_sections_len (VtecEvent segments) = sum_list (map (length \<circ> seg_ugc_sections) segments)"
| "body_ugc_sections_len (Generic body) = (case gen_ugc body of Some xs \<Rightarrow> length xs | None \<Rightarrow> 0)"

fun body_hvtec_codes_len :: "'f ProductBody \<Rightarrow> usize" where
  "body_hvtec_codes_len (VtecEvent segments) = sum_list (map (length \<circ> seg_hvtec) segments)"
| "body_hvtec_codes_len (Generic _) = 0"

fun body_latlon_len :: "'f ProductBody \<Rightarrow> usize" where
  "body_latlon_len (VtecEvent segments) = sum_list (map (length \<circ> seg_polygons) segments)"
| "body_latlon_len (Generic body) = (case gen_latlon body of Some xs \<Rightarrow> length xs | None \<Rightarrow> 0)"

fun body_time_mot_loc_len :: "'f ProductBody \<Rightarrow> usize" where
  "body_time_mot_loc_len (VtecEvent segments) = sum_list (map (length \<circ> seg_time_mot_loc) segments)"
| "body_time_mot_loc_len (Generic body) = (case gen_time_mot_loc body of Some xs \<Rightarrow> length xs | None \<Rightarrow> 0)"

fun body_wind_hail_len :: "'f ProductBody \<Rightarrow> usize" where
  "body_wind_hail_len (VtecEvent segments) = sum_list (map (length \<circ> seg_wind_hail) segments)"
| "body_wind_hail_len (Generic body) = (case gen_wind_hail body of Some xs \<Rightarrow> length xs | None \<Rightarrow> 0)"

subsection \<open>Size, product, header and issues\<close>

record SizeRange =
  size_min :: "usize option"
  size_max :: "usize option"

definition size_has_constraints :: "SizeRange \<Rightarrow> bool" where
  "size_has_constraints f \<longleftrightarrow> size_min f \<noteq> None \<or> size_max f \<noteq> None"

definition size_matches :: "SizeRange \<Rightarrow> usize \<Rightarrow> bool" where
  "size_matches f size_bytes =
     (if (case size_min f of Some m \<Rightarrow> size_bytes < m | None \<Rightarrow> False) then False
      else if (case size_max f of Some m \<Rightarrow> size_bytes > m | None \<Rightarrow> False) then False
      else True)"

record ProductFilter =
  pf_source :: allowed
  pf_pil :: allowed
  pf_family :: allowed
  pf_container :: allowed
  pf_wmo_prefix :: allowed
  pf_office :: allowed
  pf_office_city :: allowed
  pf_office_state :: allowed
  pf_bbb_kind :: allowed

definition product_has_constraints :: "ProductFilter \<Rightarrow> bool" where
  "product_has_constraints f \<longleftrightarrow>
     pf_source f \<noteq> None \<or> pf_pil f \<noteq> None \<or> pf_family f \<noteq> None \<or> pf_container f \<noteq> None \<or> pf_wmo_prefix f \<noteq> None
     \<or> pf_office f \<noteq> None \<or> pf_office_city f \<noteq> None \<or> pf_office_state f \<noteq> None \<or> pf_bbb_kind f \<noteq> None"

definition product_matches :: "ProductFilter \<Rightarrow> ('f, 'a) ProductEnrichment \<Rightarrow> bool" where
  "product_matches f product \<longleftrightarrow>
     matches_serialized_option (pf_source f) (Some (pe_source product)) product_source_name
     \<and> matches_option_set (pf_pil f) (pe_pil product) normalize_upper
     \<and> matches_option_set (pf_family f) (pe_family product) normalize_lower
     \<and> matches_option_set (pf_container f) (Some (pe_container product)) normalize_lower
     \<and> matches_option_set (pf_wmo_prefix f) (pe_wmo_prefix product) normalize_upper
     \<and> matches_option_set (pf_office f) (map_option wo_code (pe_office product)) normalize_upper
     \<and> matches_option_set (pf_office_city f) (map_option wo_city (pe_office product)) normalize_lower
     \<and> matches_option_set (pf_office_state f) (map_option wo_state (pe_office product)) normalize_upper
     \<and> matches_serialized_option (pf_bbb_kind f) (pe_bbb_kind product) bbb_kind_name"

record HeaderFilter =
  hf_cccc :: allowed
  hf_ttaaii :: allowed
  hf_afos :: allowed
  hf_bbb :: allowed

definition header_has_constraints :: "HeaderFilter \<Rightarrow> bool" where
  "header_has_constraints f \<longleftrightarrow> hf_cccc f \<noteq> None \<or> hf_ttaaii f \<noteq> None \<or> hf_afos f \<noteq> None \<or> hf_bbb f \<noteq> None"

definition header_matches :: "HeaderFilter \<Rightarrow> ('f, 'a) ProductEnrichment \<Rightarrow> bool" where
  "header_matches f product =
     (if \<not> header_has_constraints f then True
      else
        let header_ok = (case pe_header product of
              Some h \<Rightarrow>
                matches_option_set (hf_cccc f) (Some (th_cccc h)) normalize_upper
                \<and> matches_option_set (hf_ttaaii f) (Some (th_ttaaii h)) normalize_upper
                \<and> matches_option_set (hf_afos f) (Some (th_afos h)) normalize_upper
                \<and> matches_option_set (hf_bbb f) (th_bbb h) normalize_upper
            | None \<Rightarrow> False);
            wmo_header_ok = (case pe_wmo_header product of
              Some h \<Rightarrow>
                matches_option_set (hf_cccc f) (Some (wh_cccc h)) normalize_upper
                \<and> matches_option_set (hf_ttaaii f) (Some (wh_ttaaii h)) normalize_upper
                \<and> hf_afos f = None
                \<and> matches_option_set (hf_bbb f) (wh_bbb h) normalize_upper
            | None \<Rightarrow> False)
        in header_ok \<or> wmo_header_ok)"

record IssueFilter =
  if_has_issues :: "bool option"
  if_kinds :: allowed
  if_codes :: allowed

definition issues_has_constraints :: "IssueFilter \<Rightarrow> bool" where
  "issues_has_constraints f \<longleftrightarrow> if_has_issues f \<noteq> None \<or> if_kinds f \<noteq> None \<or> if_codes f \<noteq> None"

definition issues_matches :: "IssueFilter \<Rightarrow> ProductParseIssue list \<Rightarrow> bool" where
  "issues_matches f issues =
     (if if_has_issues f = Some (issues = []) then False
      else if (case if_kinds f of
                 Some kinds \<Rightarrow> \<not> list_ex (\<lambda>i. normalize_lower (issue_kind i) \<in> kinds) issues | None \<Rightarrow> False) then False
      else if (case if_codes f of
                 Some codes \<Rightarrow> \<not> list_ex (\<lambda>i. normalize_lower (issue_code i) \<in> codes) issues | None \<Rightarrow> False) then False
      else True)"

subsection \<open>Geography\<close>

record GeoFilter =
  gf_states :: allowed
  gf_counties :: allowed
  gf_zones :: allowed
  gf_fire_zones :: allowed
  gf_marine_zones :: allowed

definition geo_has_constraints :: "GeoFilter \<Rightarrow> bool" where
  "geo_has_constraints f \<longleftrightarrow>
     gf_states f \<noteq> None \<or> gf_counties f \<noteq> None \<or> gf_zones f \<noteq> None \<or> gf_fire_zones f \<noteq> None \<or> gf_marine_zones f \<noteq> None"

definition matches_geo_states :: "allowed \<Rightarrow> 'f UgcSection list \<Rightarrow> bool" where
  "matches_geo_states allowed sections =
     (case allowed of
        Some a \<Rightarrow> list_ex (\<lambda>section.
          list_ex (\<lambda>e. fst e \<in> a) (counties section) \<or> list_ex (\<lambda>e. fst e \<in> a) (zones section)
          \<or> list_ex (\<lambda>e. fst e \<in> a) (fire_zones section) \<or> list_ex (\<lambda>e. fst e \<in> a) (marine_zones section)) sections
      | None \<Rightarrow> True)"

definition matches_enriched_ugc_codes ::
    "allowed \<Rightarrow> 'f UgcSection list \<Rightarrow> ('f UgcSection \<Rightarrow> 'f area_map) \<Rightarrow> char \<Rightarrow> bool" where
  "matches_enriched_ugc_codes allowed sections select class_code =
     (case allowed of
        Some a \<Rightarrow> list_ex (\<lambda>section. list_ex (\<lambda>(state, areas).
          list_ex (\<lambda>area. canonical_code state class_code (area_id area) \<in> a) areas) (select section)) sections
      | None \<Rightarrow> True)"

definition geo_matches :: "GeoFilter \<Rightarrow> 'f ProductBody option \<Rightarrow> bool" where
  "geo_matches f body =
     (if \<not> geo_has_constraints f then True
      else case body of
        None \<Rightarrow> False
      | Some b \<Rightarrow>
          let sections = body_ugc_sections b
          in if sections = [] then False
             else matches_geo_states (gf_states f) sections
               \<and> matches_enriched_ugc_codes (gf_counties f) sections counties (CHR ''C'')
               \<and> matches_enriched_ugc_codes (gf_zones f) sections zones (CHR ''Z'')
               \<and> matches_enriched_ugc_codes (gf_fire_zones f) sections fire_zones (CHR ''F'')
               \<and> matches_enriched_ugc_codes (gf_marine_zones f) sections marine_zones (CHR ''Z''))"

subsection \<open>Event codes\<close>

record VtecFilter =
  vf_phenomena :: allowed
  vf_significance :: allowed
  vf_action :: allowed
  vf_office :: allowed
  vf_etn :: "u32 set option"

definition vtec_has_constraints :: "VtecFilter \<Rightarrow> bool" where
  "vtec_has_constraints f \<longleftrightarrow>
     vf_phenomena f \<noteq> None \<or> vf_significance f \<noteq> None \<or> vf_action f \<noteq> None \<or> vf_office f \<noteq> None \<or> vf_etn f \<noteq> None"

definition vtec_matches_code :: "VtecFilter \<Rightarrow> VtecCode \<Rightarrow> bool" where
  "vtec_matches_code f code \<longleftrightarrow>
     matches_option_set (vf_phenomena f) (Some (vtec_phenomena code)) normalize_upper
     \<and> matches_char_set (vf_significance f) (vtec_significance code)
     \<and> matches_option_set (vf_action f) (Some (vtec_action code)) normalize_upper
     \<and> matches_option_set (vf_office f) (Some (vtec_office code)) normalize_upper
     \<and> matches_number_set (vf_etn f) (vtec_etn code)"

definition vtec_matches :: "VtecFilter \<Rightarrow> 'f ProductBody option \<Rightarrow> bool" where
  "vtec_matches f body =
     (if \<not> vtec_has_constraints f then True
      else case body of
        None \<Rightarrow> False
      | Some b \<Rightarrow>
          let codes = body_vtec_codes b in if codes = [] then False else list_ex (vtec_matches_code f) codes)"

record HvtecFilter =
  vh_present :: "bool option"
  vh_nwslid :: allowed
  vh_severity :: allowed
  vh_cause :: allowed
  vh_record :: allowed

definition hvtec_has_constraints :: "HvtecFilter \<Rightarrow> bool" where
  "hvtec_has_constraints f \<longleftrightarrow>
     vh_present f \<noteq> None \<or> vh_nwslid f \<noteq> None \<or> vh_severity f \<noteq> None \<or> vh_cause f \<noteq> None \<or> vh_record f \<noteq> None"

definition hvtec_matches_code :: "HvtecFilter \<Rightarrow> 'loc HvtecCode \<Rightarrow> bool" where
  "hvtec_matches_code f code \<longleftrightarrow>
     matches_option_set (vh_nwslid f) (Some (hv_nwslid code)) normalize_upper
     \<and> matches_serialized_option (vh_severity f) (Some (hv_severity code)) hvtec_severity_name
     \<and> matches_serialized_option (vh_cause f) (Some (hv_cause code)) hvtec_cause_name
     \<and> matches_serialized_option (vh_record f) (Some (hv_record code)) hvtec_record_name"

definition hvtec_matches :: "HvtecFilter \<Rightarrow> 'f ProductBody option \<Rightarrow> bool" where
  "hvtec_matches f body =
     (if \<not> hvtec_has_constraints f then True
      else
        let codes = (case body of Some b \<Rightarrow> body_hvtec_codes b | None \<Rightarrow> [])
        in if vh_present f = Some (codes = []) then False
           else if vh_nwslid f = None \<and> vh_severity f = None \<and> vh_cause f = None \<and> vh_record f = None then True
           else if codes = [] then False
           else list_ex (hvtec_matches_code f) codes)"

subsection \<open>Wind, hail and presence\<close>

record 'f WindHailFilter =
  ww_present :: "bool option"
  ww_kinds :: allowed
  ww_min_wind_mph :: "'f option"
  ww_min_hail_inches :: "'f option"

definition wind_hail_has_constraints :: "'f WindHailFilter \<Rightarrow> bool" where
  "wind_hail_has_constraints f \<longleftrightarrow>
     ww_present f \<noteq> None \<or> ww_kinds f \<noteq> None \<or> ww_min_wind_mph f \<noteq> None \<or> ww_min_hail_inches f \<noteq> None"

definition wind_hail_matches :: "'f f64_ops \<Rightarrow> 'f WindHailFilter \<Rightarrow> 'f ProductBody option \<Rightarrow> bool" where
  "wind_hail_matches F f body =
     (if \<not> wind_hail_has_constraints f then True
      else
        let entries = (case body of Some b \<Rightarrow> body_wind_hail_entries b | None \<Rightarrow> [])
        in if ww_present f = Some (entries = []) then False
           else if entries = [] then ww_kinds f = None \<and> ww_min_wind_mph f = None \<and> ww_min_hail_inches f = None
           else if (case ww_kinds f of
                      Some kinds \<Rightarrow> \<not> list_ex (\<lambda>e. wind_hail_kind_name (wh_kind e) \<in> kinds) entries | None \<Rightarrow> False) then False
           else if (case ww_min_wind_mph f of
                      Some least \<Rightarrow> \<not> list_ex (\<lambda>e. is_wind_entry e \<and>
                        (case option_zip (wh_numeric_value e) (wh_units e) of
                           Some (value, units) \<Rightarrow> f_le F least (wind_speed_mph F value units)
                         | None \<Rightarrow> False)) entries
                    | None \<Rightarrow> False) then False
           else if (case ww_min_hail_inches f of
                      Some least \<Rightarrow> \<not> list_ex (\<lambda>e. is_hail_entry e \<and>
                        (case wh_numeric_value e of Some value \<Rightarrow> f_le F least value | None \<Rightarrow> False)) entries
                    | None \<Rightarrow> False) then False
           else True)"

record BodyPresenceFilter =
  bp_has_vtec :: "bool option"
  bp_has_ugc :: "bool option"
  bp_has_hvtec :: "bool option"
  bp_has_latlon :: "bool option"
  bp_has_time_mot_loc :: "bool option"
  bp_has_wind_hail :: "bool option"

definition presence_has_constraints :: "BodyPresenceFilter \<Rightarrow> bool" where
  "presence_has_constraints f \<longleftrightarrow>
     bp_has_vtec f \<noteq> None \<or> bp_has_ugc f \<noteq> None \<or> bp_has_hvtec f \<noteq> None \<or> bp_has_latlon f \<noteq> None
     \<or> bp_has_time_mot_loc f \<noteq> None \<or> bp_has_wind_hail f \<noteq> None"

definition map_or_0 :: "('b \<Rightarrow> nat) \<Rightarrow> 'b option \<Rightarrow> nat" where
  "map_or_0 f x = (case x of Some v \<Rightarrow> f v | None \<Rightarrow> 0)"

definition presence_matches :: "BodyPresenceFilter \<Rightarrow> 'f ProductBody option \<Rightarrow> bool" where
  "presence_matches f body \<longleftrightarrow>
     matches_optional_presence (bp_has_vtec f) (map_or_0 body_vtec_codes_len body)
     \<and> matches_optional_presence (bp_has_ugc f) (map_or_0 body_ugc_sections_len body)
     \<and> matches_optional_presence (bp_has_hvtec f) (map_or_0 body_hvtec_codes_len body)
     \<and> matches_optional_presence (bp_has_latlon f) (map_or_0 body_latlon_len body)
     \<and> matches_optional_presence (bp_has_time_mot_loc f) (map_or_0 body_time_mot_loc_len body)
     \<and> matches_optional_presence (bp_has_wind_hail f) (map_or_0 body_wind_hail_len body)"

subsection \<open>Location\<close>

record 'f LocationFilter =
  lf_center :: "'f GeoPoint option"
  lf_distance_miles :: "'f option"

definition DEFAULT_DISTANCE_MILES :: rat where
  "DEFAULT_DISTANCE_MILES = 5"

text \<open>\<open>value.is_finite() && (-limit..=limit).contains(&value)\<close>.\<close>

definition coordinate_ok :: "'f f64_ops \<Rightarrow> rat \<Rightarrow> 'f \<Rightarrow> bool" where
  "coordinate_ok F limit value \<longleftrightarrow>
     f_is_finite F value \<and> f_le F (f_lit F (- limit)) value \<and> f_le F value (f_lit F limit)"

definition location_center :: "'f f64_ops \<Rightarrow> 'f option \<Rightarrow> 'f option \<Rightarrow> string + 'f GeoPoint option" where
  "location_center F lat lon =
     (if (lat \<noteq> None) \<noteq> (lon \<noteq> None) then Inl ''lat and lon must be provided together''
      else case (lat, lon) of
        (Some la, Some lo) \<Rightarrow>
          if \<not> coordinate_ok F 90 la then Inl ''lat must be a finite value between -90 and 90''
          else if \<not> coordinate_ok F 180 lo then Inl ''lon must be a finite value between -180 and 180''
          else Inr (Some \<lparr>pt_lat = la, pt_lon = lo\<rparr>)
      | _ \<Rightarrow> Inr None)"

definition location_try_from_input :: "'f f64_ops \<Rightarrow> 'f FileFilterInput \<Rightarrow> string + 'f LocationFilter" where
  "location_try_from_input F input =
     (case location_center F (in_lat input) (in_lon input) of
        Inl e \<Rightarrow> Inl e
      | Inr center \<Rightarrow>
          (case in_distance_miles input of
             Some d \<Rightarrow>
               if center = None then Inl ''distance_miles requires both lat and lon''
               else if \<not> f_is_finite F d \<or> f_le F d (f_lit F 0)
               then Inl ''distance_miles must be a finite value greater than 0''
               else Inr \<lparr>lf_center = center, lf_distance_miles = Some d\<rparr>
           | None \<Rightarrow>
               Inr \<lparr>lf_center = center,
                 lf_distance_miles = (if center \<noteq> None then Some (f_lit F DEFAULT_DISTANCE_MILES) else None)\<rparr>))"

definition location_has_constraints :: "'f LocationFilter \<Rightarrow> bool" where
  "location_has_constraints f \<longleftrightarrow> lf_center f \<noteq> None"

definition location_matches :: "'f f64_ops \<Rightarrow> 'f LocationFilter \<Rightarrow> 'f ProductBody option \<Rightarrow> bool" where
  "location_matches F f body =
     (case lf_center f of
        None \<Rightarrow> True
      | Some center \<Rightarrow>
          (case body of
             None \<Rightarrow> False
           | Some b \<Rightarrow>
               if list_ex (\<lambda>polygon.
                    (case pp_bounds polygon of Some bounds \<Rightarrow> bounds_contains F bounds center | None \<Rightarrow> False)
                    \<and> point_in_polygon F center (pp_points polygon)) (iter_polygons F b) then True
               else case lf_distance_miles f of
                 None \<Rightarrow> False
               | Some d \<Rightarrow> list_ex (\<lambda>p. f_le F (distance_miles F center p) d) (iter_location_points b)))"

subsection \<open>The whole filter\<close>

record 'f FileEventFilter =
  filename_pattern :: "string option"
  flt_size :: SizeRange
  flt_product :: ProductFilter
  flt_header :: HeaderFilter
  flt_issues :: IssueFilter
  flt_geo :: GeoFilter
  flt_vtec :: VtecFilter
  flt_hvtec :: HvtecFilter
  flt_wind_hail :: "'f WindHailFilter"
  flt_location :: "'f LocationFilter"
  flt_presence :: BodyPresenceFilter

definition size_range_reversed :: "'f FileFilterInput \<Rightarrow> bool" where
  "size_range_reversed input =
     (case option_zip (in_min_size input) (in_max_size input) of Some (least, most) \<Rightarrow> least > most | None \<Rightarrow> False)"

definition try_from_input :: "'f f64_ops \<Rightarrow> 'f FileFilterInput \<Rightarrow> string + 'f FileEventFilter" where
  "try_from_input F input =
     (case location_try_from_input F input of
        Inl e \<Rightarrow> Inl e
      | Inr location \<Rightarrow>
          if size_range_reversed input then Inl ''min_size must be less than or equal to max_size''
          else Inr \<lparr>
            filename_pattern = in_filename input,
            flt_size = \<lparr>size_min = in_min_size input, size_max = in_max_size input\<rparr>,
            flt_product =
              \<lparr>pf_source = csv_values (in_source input) normalize_lower, pf_pil = csv_values (in_pil input) normalize_upper,
               pf_family = csv_values (in_family input) normalize_lower,
               pf_container = csv_values (in_container input) normalize_lower,
               pf_wmo_prefix = csv_values (in_wmo_prefix input) normalize_upper,
               pf_office = csv_values (in_office input) normalize_upper,
               pf_office_city = csv_values (in_office_city input) normalize_lower,
               pf_office_state = csv_values (in_office_state input) normalize_upper,
               pf_bbb_kind = csv_values (in_bbb_kind input) normalize_lower\<rparr>,
            flt_header =
              \<lparr>hf_cccc = csv_values (in_cccc input) normalize_upper, hf_ttaaii = csv_values (in_ttaaii input) normalize_upper,
               hf_afos = csv_values (in_afos input) normalize_upper, hf_bbb = csv_values (in_bbb input) normalize_upper\<rparr>,
            flt_issues =
              \<lparr>if_has_issues = parse_optional_bool (in_has_issues input),
               if_kinds = csv_values (in_issue_kind input) normalize_lower,
               if_codes = csv_values (in_issue_code input) normalize_lower\<rparr>,
            flt_geo =
              \<lparr>gf_states = csv_values (in_state input) normalize_upper, gf_counties = csv_values (in_county input) normalize_upper,
               gf_zones = csv_values (in_zone input) normalize_upper,
               gf_fire_zones = csv_values (in_fire_zone input) normalize_upper,
               gf_marine_zones = csv_values (in_marine_zone input) normalize_upper\<rparr>,
            flt_vtec =
              \<lparr>vf_phenomena = csv_values (in_vtec_phenomena input) normalize_upper,
               vf_significance = csv_values (in_vtec_significance input) normalize_upper,
               vf_action = csv_values (in_vtec_action input) normalize_upper,
               vf_office = csv_values (in_vtec_office input) normalize_upper, vf_etn = csv_numbers (in_etn input)\<rparr>,
            flt_hvtec =
              \<lparr>vh_present = parse_optional_bool (in_has_hvtec input), vh_nwslid = csv_values (in_hvtec_nwslid input) normalize_upper,
               vh_severity = csv_values (in_hvtec_severity input) normalize_lower,
               vh_cause = csv_values (in_hvtec_cause input) normalize_lower,
               vh_record = csv_values (in_hvtec_record input) normalize_lower\<rparr>,
            flt_wind_hail =
              \<lparr>ww_present = parse_optional_bool (in_has_wind_hail input),
               ww_kinds = csv_values (in_wind_hail_kind input) normalize_lower,
               ww_min_wind_mph = in_min_wind_mph input, ww_min_hail_inches = in_min_hail_inches input\<rparr>,
            flt_location = location,
            flt_presence =
              \<lparr>bp_has_vtec = parse_optional_bool (in_has_vtec input), bp_has_ugc = parse_optional_bool (in_has_ugc input),
               bp_has_hvtec = parse_optional_bool (in_has_hvtec input),
               bp_has_latlon = parse_optional_bool (in_has_latlon input),
               bp_has_time_mot_loc = parse_optional_bool (in_has_time_mot_loc input),
               bp_has_wind_hail = parse_optional_bool (in_has_wind_hail input)\<rparr>\<rparr>)"

definition filter_has_constraints :: "'f FileEventFilter \<Rightarrow> bool" where
  "filter_has_constraints f \<longleftrightarrow>
     filename_pattern f \<noteq> None \<or> size_has_constraints (flt_size f) \<or> product_has_constraints (flt_product f)
     \<or> header_has_constraints (flt_header f) \<or> issues_has_constraints (flt_issues f) \<or> geo_has_constraints (flt_geo f)
     \<or> vtec_has_constraints (flt_vtec f) \<or> hvtec_has_constraints (flt_hvtec f)
     \<or> wind_hail_has_constraints (flt_wind_hail f) \<or> location_has_constraints (flt_location f)
     \<or> presence_has_constraints (flt_presence f)"

text \<open>\<open>wildcard_match\<close> always returns, so that its result can be taken.\<close>

definition pattern_matches :: "string \<Rightarrow> string \<Rightarrow> bool" where
  "pattern_matches pat txt \<longleftrightarrow> wildcard_match pat txt = Some True"

definition matches_metadata ::
    "'f f64_ops \<Rightarrow> 'f FileEventFilter \<Rightarrow> (('f, 'a) ProductEnrichment, 's, 'd) CompletedFileMetadata \<Rightarrow> bool" where
  "matches_metadata F f metadata =
     (let product = meta_product metadata; body = pe_body product in
      if (case filename_pattern f of Some pat \<Rightarrow> \<not> pattern_matches pat (meta_filename metadata) | None \<Rightarrow> False) then False
      else if \<not> size_matches (flt_size f) (meta_size metadata) then False
      else if \<not> product_matches (flt_product f) product then False
      else if \<not> header_matches (flt_header f) product then False
      else if \<not> issues_matches (flt_issues f) (pe_issues product) then False
      else if \<not> location_matches F (flt_location f) body then False
      else if \<not> presence_matches (flt_presence f) body then False
      else if \<not> geo_matches (flt_geo f) body then False
      else if \<not> vtec_matches (flt_vtec f) body then False
      else if \<not> hvtec_matches (flt_hvtec f) body then False
      else wind_hail_matches F (flt_wind_hail f) body)"

end
