(* ===== verification/Server_Support_Correct.thy ===== *)
theory Server_Support_Correct
  imports Server_Support
begin

text \<open>
  The store of retained files implements a bounded list of the most recent files, the wildcard
  matcher decides the usual relation between patterns and texts, and an advertised download URL
  leads back to the file.
\<close>

subsection \<open>Retained files as a list\<close>

definition retained_ok :: "('p, 's, 'd) RetainedFiles \<Rightarrow> bool" where
  "retained_ok r \<longleftrightarrow>
     hash_wf (by_name r) \<and> distinct (order r) \<and> set (order r) = fst ` set (by_name r) \<and> 1 \<le> max_entries r
     \<and> length (order r) \<le> max_entries r"

text \<open>The files, oldest first.\<close>

definition files_of :: "('p, 's, 'd) RetainedFiles \<Rightarrow> (string \<times> ('p, 's, 'd) RetainedFile) list" where
  "files_of r = map (\<lambda>name. (name, the (map_of (by_name r) name))) (order r)"

definition still_live :: "system_time \<Rightarrow> duration \<Rightarrow> (string \<times> ('p, 's, 'd) RetainedFile) \<Rightarrow> bool" where
  "still_live now lifetime e \<longleftrightarrow> \<not> expired now lifetime (snd e)"

lemma hash_remove_other: "a \<noteq> k \<Longrightarrow> map_of (hash_remove k m) a = map_of m a"
  by (simp add: hash_remove_def map_of_filter_key)

lemma hash_remove_notin: "k \<notin> fst ` set m \<Longrightarrow> hash_remove k m = m"
  by (auto simp: hash_remove_def filter_id_conv)

lemma hash_remove_filter: "hash_remove k (filter P m) = filter (\<lambda>e. P e \<and> fst e \<noteq> k) m"
  by (auto simp: hash_remove_def conj_commute)

lemma retain_names_eq:
  assumes "distinct names" and "set names \<subseteq> fst ` set m"
  shows "retain_names now lifetime names m =
    (filter (\<lambda>n. \<not> expired now lifetime (the (map_of m n))) names,
     filter (\<lambda>e. fst e \<notin> set names \<or> \<not> expired now lifetime (the (map_of m (fst e)))) m)"
  using assms
proof (induction names arbitrary: m)
  case (Cons n names)
  obtain f where f: "map_of m n = Some f" using Cons.prems(2) by (cases "map_of m n") (auto simp: map_of_eq_None_iff)
  show ?case
  proof (cases "expired now lifetime f")
    case True
    have same: "map_of (hash_remove n m) x = map_of m x" if "x \<noteq> n" for x using that by (rule hash_remove_other)
    have "retain_names now lifetime names (hash_remove n m) =
      (filter (\<lambda>x. \<not> expired now lifetime (the (map_of (hash_remove n m) x))) names,
       filter (\<lambda>e. fst e \<notin> set names \<or> \<not> expired now lifetime (the (map_of (hash_remove n m) (fst e)))) (hash_remove n m))"
      using Cons.prems by (intro Cons.IH) (auto simp: hash_remove_keys)
    moreover have "filter (\<lambda>x. \<not> expired now lifetime (the (map_of (hash_remove n m) x))) names =
        filter (\<lambda>x. \<not> expired now lifetime (the (map_of m x))) names"
      using Cons.prems(1) by (intro filter_cong refl) (metis distinct.simps(2) same)
    moreover have "filter (\<lambda>e. fst e \<notin> set names \<or> \<not> expired now lifetime (the (map_of (hash_remove n m) (fst e)))) (hash_remove n m) =
        filter (\<lambda>e. fst e \<notin> set (n # names) \<or> \<not> expired now lifetime (the (map_of m (fst e)))) m"
      unfolding hash_remove_def filter_filter
      by (rule filter_cong [OF refl]) (use True f in \<open>auto simp: map_of_filter_key\<close>)
    ultimately show ?thesis using f True by simp
  next
    case False
    have "retain_names now lifetime names m =
      (filter (\<lambda>x. \<not> expired now lifetime (the (map_of m x))) names,
       filter (\<lambda>e. fst e \<notin> set names \<or> \<not> expired now lifetime (the (map_of m (fst e)))) m)"
      using Cons.prems by (intro Cons.IH) auto
    moreover have "filter (\<lambda>e. fst e \<notin> set names \<or> \<not> expired now lifetime (the (map_of m (fst e)))) m =
        filter (\<lambda>e. fst e \<notin> set (n # names) \<or> \<not> expired now lifetime (the (map_of m (fst e)))) m"
      by (rule filter_cong) (use False f in auto)
    ultimately show ?thesis using f False by simp
  qed
qed simp

lemma map_of_filter_fst: "P n \<Longrightarrow> map_of (filter (\<lambda>e. P (fst e)) m) n = map_of m n"
  by (induction m) auto

text \<open>Evicting keeps the live files, in order.\<close>

lemma map_of_files_of:
  assumes "retained_ok r"
  shows "map_of (files_of r) = map_of (by_name r)"
proof
  fix x
  have "map_of (files_of r) x = (if x \<in> set (order r) then Some (the (map_of (by_name r) x)) else None)"
    unfolding files_of_def by (induction "order r") (auto simp: map_of_map_restrict restrict_map_def)
  also have "\<dots> = map_of (by_name r) x"
  proof (cases "map_of (by_name r) x")
    case None
    then have "x \<notin> set (order r)" using assms by (simp add: retained_ok_def map_of_eq_None_iff)
    then show ?thesis using None by simp
  next
    case (Some f)
    then have "x \<in> fst ` set (by_name r)" by (force dest: map_of_SomeD)
    then show ?thesis using Some assms by (simp add: retained_ok_def)
  qed
  finally show "map_of (files_of r) x = map_of (by_name r) x" .
qed

lemma evict_expired_spec:
  assumes "retained_ok r"
  shows "retained_ok (evict_expired now r)"
    and "files_of (evict_expired now r) = filter (still_live now (ttl r)) (files_of r)"
    and "max_entries (evict_expired now r) = max_entries r" and "ttl (evict_expired now r) = ttl r"
proof -
  let ?live = "\<lambda>n. \<not> expired now (ttl r) (the (map_of (by_name r) n))"
  have names: "distinct (order r)" "set (order r) = fst ` set (by_name r)" using assms by (auto simp: retained_ok_def)
  have evict: "evict_expired now r = r\<lparr>order := filter ?live (order r),
      by_name := filter (\<lambda>e. ?live (fst e)) (by_name r)\<rparr>"
    unfolding evict_expired_def Let_def using names
    by (auto simp: retain_names_eq intro!: RetainedFiles.fold_congs filter_cong)
  have look: "map_of (filter (\<lambda>e. ?live (fst e)) (by_name r)) n = map_of (by_name r) n" if "?live n" for n
    using that map_of_filter_fst [of ?live n] by simp
  show "retained_ok (evict_expired now r)"
    using assms by (auto simp: evict retained_ok_def hash_wf_filter image_iff intro: order_trans [OF length_filter_le])
  show "files_of (evict_expired now r) = filter (still_live now (ttl r)) (files_of r)"
    by (auto simp: evict files_of_def filter_map comp_def still_live_def look)
  show "max_entries (evict_expired now r) = max_entries r" "ttl (evict_expired now r) = ttl r" by (simp_all add: evict)
qed

lemma pop_oldest_spec:
  assumes "hash_wf m" and "distinct names" and "set names = fst ` set m" and "pop_oldest limit names m = (names', m')"
  shows "names' = drop (length names - limit) names \<and> hash_wf m' \<and> set names' = fst ` set m'
    \<and> (\<forall>n\<in>set names'. map_of m' n = map_of m n)"
  using assms
proof (induction names arbitrary: m)
  case Nil
  then show ?case by (simp add: pop_oldest.simps split: if_splits)
next
  case (Cons n names)
  have len: "length m = length (n # names)"
    using Cons.prems(1-3) hash.length_card [of m] distinct_card [of "n # names"] by simp
  show ?case
  proof (cases "length m > limit")
    case True
    have "pop_oldest limit names (hash_remove n m) = (names', m')"
      using Cons.prems(4) True by (subst (asm) pop_oldest.simps) simp
    moreover have "set names = fst ` set (hash_remove n m)"
      using Cons.prems(2,3) by (auto simp: hash_remove_keys)
    ultimately have "names' = drop (length names - limit) names \<and> hash_wf m' \<and> set names' = fst ` set m'
      \<and> (\<forall>x\<in>set names'. map_of m' x = map_of (hash_remove n m) x)"
      using Cons.prems(1,2) by (intro Cons.IH) (auto intro: hash.wf_del)
    moreover have "length (n # names) - limit = Suc (length names - limit)" using True len by simp
    moreover have "n \<notin> set (drop k names)" for k using Cons.prems(2) in_set_dropD [of n k names] by auto
    ultimately show ?thesis by (metis drop_Suc_Cons hash_remove_other)
  next
    case False
    then have "names' = n # names" "m' = m" using Cons.prems(4) by (simp_all add: pop_oldest.simps)
    then show ?thesis using Cons.prems(1,3) False len by simp
  qed
qed

lemma retained_new_ok: "retained_ok (retained_new n d)" and retained_new_empty: "files_of (retained_new n d) = []"
  by (simp_all add: retained_ok_def retained_new_def files_of_def hash_wf_def)

text \<open>Inserting a file: the live files without an older one of the same name, then the new one, the most recent ones of them.\<close>

definition remember :: "usize \<Rightarrow> string \<Rightarrow> 'f \<Rightarrow> (string \<times> 'f) list \<Rightarrow> (string \<times> 'f) list" where
  "remember limit name f es = (let es' = filter (\<lambda>e. fst e \<noteq> name) es @ [(name, f)] in drop (length es' - limit) es')"

lemma retained_insert_spec:
  assumes ok: "retained_ok r" and ins: "retained_insert X now name data ts origin at r = (md, r')"
  shows "retained_ok r'" and "md = build_completed_file_metadata X name ts origin data"
    and "files_of r' = remember (max_entries r) name \<lparr>ret_data = data, ret_completed_at = at, ret_metadata = md\<rparr>
      (filter (still_live now (ttl r)) (files_of r))"
    and "max_entries r' = max_entries r" and "ttl r' = ttl r"
proof -
  define r1 where "r1 = evict_expired now r"
  define names where "names = filter (\<lambda>n. n \<noteq> name) (order r1) @ [name]"
  define m where "m = hash_insert name \<lparr>ret_data = data, ret_completed_at = at, ret_metadata = md\<rparr> (by_name r1)"
  have ok1: "retained_ok r1" and files1: "files_of r1 = filter (still_live now (ttl r)) (files_of r)"
    and conf: "max_entries r1 = max_entries r" "ttl r1 = ttl r"
    using evict_expired_spec [OF ok, of now] by (simp_all add: r1_def)
  have "filter (\<lambda>n. n \<noteq> name) (order r1) = order r1" if "map_of (by_name r1) name = None"
    using that ok1 by (auto simp: filter_id_conv retained_ok_def map_of_eq_None_iff)
  then have pop: "pop_oldest (max_entries r1) names m = (order r', by_name r')"
    and rest: "md = build_completed_file_metadata X name ts origin data" "max_entries r' = max_entries r" "ttl r' = ttl r"
    using ins conf by (auto simp: retained_insert_def Let_def names_def m_def r1_def [symmetric] split: prod.splits if_splits)
  have wf: "hash_wf m" "distinct names" "set names = fst ` set m"
    using ok1 hash_insert_keys [of name _ "by_name r1"] by (auto simp: retained_ok_def m_def names_def hash_wf_insert)
  note spec = pop_oldest_spec [OF wf pop]
  have same: "map_of (by_name r') n = ((map_of (by_name r1))(name \<mapsto>
      \<lparr>ret_data = data, ret_completed_at = at, ret_metadata = md\<rparr>)) n" if "n \<in> set (order r')" for n
    using spec that by (simp add: m_def map_of_hash_insert)
  show "retained_ok r'"
  proof -
    have names': "order r' = drop (length names - max_entries r) names" using spec conf by simp
    have "distinct (order r')" "length (order r') \<le> max_entries r" using wf(2) by (simp_all add: names')
    moreover have "hash_wf (by_name r')" "set (order r') = fst ` set (by_name r')" using spec by blast+
    moreover have "1 \<le> max_entries r'" using ok1 conf rest by (simp add: retained_ok_def)
    ultimately show ?thesis unfolding retained_ok_def rest(2) by blast
  qed
  have "files_of r' = map (\<lambda>n. (n, the (((map_of (by_name r1))(name \<mapsto>
      \<lparr>ret_data = data, ret_completed_at = at, ret_metadata = md\<rparr>)) n))) (drop (length names - max_entries r) names)"
    using spec conf same by (simp add: files_of_def)
  also have "\<dots> = drop (length names - max_entries r) (map (\<lambda>n. (n, the (((map_of (by_name r1))(name \<mapsto>
      \<lparr>ret_data = data, ret_completed_at = at, ret_metadata = md\<rparr>)) n))) names)"
    by (simp add: drop_map)
  also have "map (\<lambda>n. (n, the (((map_of (by_name r1))(name \<mapsto>
      \<lparr>ret_data = data, ret_completed_at = at, ret_metadata = md\<rparr>)) n))) names =
      filter (\<lambda>e. fst e \<noteq> name) (files_of r1) @ [(name, \<lparr>ret_data = data, ret_completed_at = at, ret_metadata = md\<rparr>)]"
    by (simp add: names_def files_of_def filter_map comp_def)
  also have "length names = Suc (length (filter (\<lambda>e. fst e \<noteq> name) (files_of r1)))"
    by (simp add: names_def files_of_def filter_map comp_def)
  finally show "files_of r' = remember (max_entries r) name \<lparr>ret_data = data, ret_completed_at = at, ret_metadata = md\<rparr>
      (filter (still_live now (ttl r)) (files_of r))"
    by (simp add: remember_def Let_def files1)
  show "md = build_completed_file_metadata X name ts origin data" "max_entries r' = max_entries r" "ttl r' = ttl r"
    by (fact rest)+
qed

text \<open>The operations of the server on the store, and their specification on a list of files.\<close>

datatype retained_op =
    InsertFile string "byte list" nat ProductOrigin system_time
  | ListFiles
  | GetFile string
  | CountFiles

datatype ('p, 's, 'd) retained_reply =
    Inserted "('p, 's, 'd) CompletedFileMetadata"
  | Listed "('p, 's, 'd) CompletedFileMetadata list"
  | Found "('p, 's, 'd) RetainedFile option"
  | Counted usize

fun retained_do ::
    "('p, 's, 'd) parser_ext \<Rightarrow> system_time \<Rightarrow> retained_op \<Rightarrow> ('p, 's, 'd) RetainedFiles
      \<Rightarrow> ('p, 's, 'd) retained_reply \<times> ('p, 's, 'd) RetainedFiles" where
  "retained_do X now (InsertFile name data ts origin at) r = apfst Inserted (retained_insert X now name data ts origin at r)"
| "retained_do X now ListFiles r = apfst Listed (retained_list now r)"
| "retained_do X now (GetFile name) r = apfst Found (retained_get now name r)"
| "retained_do X now CountFiles r = apfst Counted (retained_len now r)"

definition recent_do ::
    "('p, 's, 'd) parser_ext \<Rightarrow> usize \<Rightarrow> duration \<Rightarrow> system_time \<Rightarrow> retained_op
      \<Rightarrow> (string \<times> ('p, 's, 'd) RetainedFile) list
      \<Rightarrow> ('p, 's, 'd) retained_reply \<times> (string \<times> ('p, 's, 'd) RetainedFile) list" where
  "recent_do X limit lifetime now f es =
     (let live = filter (still_live now lifetime) es in
      case f of
        InsertFile name data ts origin at \<Rightarrow>
          (let md = build_completed_file_metadata X name ts origin data
           in (Inserted md, remember limit name \<lparr>ret_data = data, ret_completed_at = at, ret_metadata = md\<rparr> live))
      | ListFiles \<Rightarrow> (Listed (map (ret_metadata \<circ> snd) (rev live)), live)
      | GetFile name \<Rightarrow> (Found (map_of live name), live)
      | CountFiles \<Rightarrow> (Counted (length live), live))"

fun replies :: "(system_time \<Rightarrow> 'o \<Rightarrow> 'a \<Rightarrow> 'b \<times> 'a) \<Rightarrow> (system_time \<times> 'o) list \<Rightarrow> 'a \<Rightarrow> 'b list" where
  "replies step [] r = []"
| "replies step ((now, f) # ops) r = (let (reply, r') = step now f r in reply # replies step ops r')"

lemma files_listed:
  assumes "retained_ok r"
  shows "map ret_metadata (List.map_filter (map_of (by_name r)) (rev (order r))) = map (ret_metadata \<circ> snd) (rev (files_of r))"
proof -
  have "List.map_filter (map_of (by_name r)) names = map (\<lambda>n. the (map_of (by_name r) n)) names"
    if "set names \<subseteq> set (order r)" for names
    using that assms
    by (induction names) (auto simp: List.map_filter_def retained_ok_def map_of_eq_None_iff split: option.splits)
  then show ?thesis by (simp add: files_of_def rev_map)
qed

lemma length_files:
  assumes "retained_ok r"
  shows "length (by_name r) = length (files_of r)"
  using assms hash.length_card [of "by_name r"] distinct_card [of "order r"] by (simp add: retained_ok_def files_of_def)

text \<open>One operation refines its specification.\<close>

lemma retained_do_refines:
  assumes "retained_ok r" and "retained_do X now f r = (reply, r')"
  shows "recent_do X (max_entries r) (ttl r) now f (files_of r) = (reply, files_of r')
    \<and> retained_ok r' \<and> max_entries r' = max_entries r \<and> ttl r' = ttl r"
proof (cases f)
  case (InsertFile name data ts origin at)
  then obtain md where ins: "retained_insert X now name data ts origin at r = (md, r')" and "reply = Inserted md"
    using assms(2) by (cases "retained_insert X now name data ts origin at r") auto
  then show ?thesis
    using retained_insert_spec [OF assms(1) ins] InsertFile by (simp add: recent_do_def Let_def)
next
  case ListFiles
  then show ?thesis
    using assms(2) evict_expired_spec [OF assms(1), of now] files_listed [of "evict_expired now r"]
    by (auto simp: recent_do_def retained_list_def Let_def)
next
  case (GetFile name)
  then show ?thesis
    using assms(2) evict_expired_spec [OF assms(1), of now] map_of_files_of [of "evict_expired now r"]
    by (auto simp: recent_do_def retained_get_def Let_def)
next
  case CountFiles
  then show ?thesis
    using assms(2) evict_expired_spec [OF assms(1), of now] length_files [of "evict_expired now r"]
    by (auto simp: recent_do_def retained_len_def Let_def)
qed

lemma replies_refine:
  "retained_ok r \<Longrightarrow> replies (retained_do X) ops r = replies (recent_do X (max_entries r) (ttl r)) ops (files_of r)"
proof (induction ops arbitrary: r)
  case (Cons p ops)
  obtain now f where p: "p = (now, f)" by (cases p)
  obtain reply r' where do: "retained_do X now f r = (reply, r')" by (cases "retained_do X now f r")
  then show ?case using Cons retained_do_refines [OF Cons.prems do] by (simp add: p)
qed simp

text \<open>
  C36: the store of completed files, with its hash map and its queue of names, behaves like one list
  of files in the order of their completion: every operation first drops the files that are older
  than the retention time, inserting replaces a file of the same name, moves it to the end and keeps
  the most recent files up to the limit, listing runs from the newest to the oldest, and looking
  up and counting see exactly the listed files.
\<close>

theorem retained_files_are_recent_list:
  "replies (retained_do X) ops (retained_new entries lifetime) =
   replies (recent_do X (max entries 1) (max lifetime (10 ^ 9))) ops []"
  using replies_refine [OF retained_new_ok] by (simp add: retained_new_empty retained_new_def files_of_def)

subsection \<open>Wildcards\<close>

text \<open>The meaning of a pattern: \<open>*\<close> stands for any text, every other character for itself.\<close>

fun glob :: "string \<Rightarrow> string \<Rightarrow> bool" where
  "glob [] t \<longleftrightarrow> t = []"
| "glob (c # p) t \<longleftrightarrow>
     (if c = CHR ''*'' then list_ex (\<lambda>k. glob p (drop k t)) [0..<Suc (length t)]
      else (case t of [] \<Rightarrow> False | d # t' \<Rightarrow> c = d \<and> glob p t'))"

declare glob.simps(2) [simp del]

lemma glob_star: "glob (CHR ''*'' # p) t \<longleftrightarrow> (\<exists>k\<le>length t. glob p (drop k t))"
  and glob_char: "c \<noteq> CHR ''*'' \<Longrightarrow> glob (c # p) t \<longleftrightarrow> (\<exists>t'. t = c # t' \<and> glob p t')"
  by (auto simp: glob.simps(2) list_ex_iff less_Suc_eq_le simp del: upt_Suc split: list.splits)

lemma glob_literal:
  "CHR ''*'' \<notin> set seg \<Longrightarrow> glob (seg @ p) t \<longleftrightarrow> (\<exists>t'. t = seg @ t' \<and> glob p t')"
  by (induction seg arbitrary: t) (auto simp: glob_char)

lemma glob_end: "glob p [] \<longleftrightarrow> skip_stars p"
  by (induction p) (auto simp: glob.simps(2))

text \<open>
  The invariant of the loop: the part of the pattern behind the last star equals the text from
  \<open>match_idx\<close> on, and the pattern matches the text if its rest behind that star matches somewhere
  from \<open>match_idx\<close> on.
\<close>

definition star_inv :: "string \<Rightarrow> string \<Rightarrow> usize \<Rightarrow> usize \<Rightarrow> usize \<Rightarrow> usize \<Rightarrow> bool" where
  "star_inv p t pi ti s m \<longleftrightarrow>
     (\<exists>seg. drop (Suc s) p = seg @ drop pi p \<and> CHR ''*'' \<notin> set seg \<and> drop m t = seg @ drop ti t \<and> ti = m + length seg)
     \<and> s < pi \<and> pi \<le> length p \<and> ti \<le> length t
     \<and> (glob p t \<longleftrightarrow> (\<exists>k\<ge>m. k \<le> length t \<and> glob (drop (Suc s) p) (drop k t)))"

fun loop_inv :: "string \<Rightarrow> string \<Rightarrow> usize \<Rightarrow> usize \<Rightarrow> usize option \<Rightarrow> usize \<Rightarrow> bool" where
  "loop_inv p t pi ti None m \<longleftrightarrow>
     m = 0 \<and> pi \<le> length p \<and> ti \<le> length t \<and> (glob p t \<longleftrightarrow> glob (drop pi p) (drop ti t))"
| "loop_inv p t pi ti (Some s) m \<longleftrightarrow> star_inv p t pi ti s m"

lemma drop_step: "i < length xs \<Longrightarrow> drop i xs = xs ! i # drop (Suc i) xs"
  by (rule Cons_nth_drop_Suc [symmetric])

lemma inv_advance:
  assumes "loop_inv p t pi ti star m" and "ti < length t" "pi < length p" "p ! pi = t ! ti" and "CHR ''*'' \<notin> set t"
  shows "loop_inv p t (Suc pi) (Suc ti) star m"
proof -
  have plain: "t ! ti \<noteq> CHR ''*''" using assms(2,5) nth_mem by force
  show ?thesis
  proof (cases star)
    case None
    then show ?thesis using assms plain by (auto simp: drop_step glob_char)
  next
    case (Some s)
    then obtain seg where seg: "drop (Suc s) p = seg @ drop pi p" "CHR ''*'' \<notin> set seg" "drop m t = seg @ drop ti t"
        "ti = m + length seg"
      using assms(1) by (auto simp: star_inv_def)
    then have "drop (Suc s) p = (seg @ [t ! ti]) @ drop (Suc pi) p" "drop m t = (seg @ [t ! ti]) @ drop (Suc ti) t"
      using assms(2-4) by (simp_all add: drop_step)
    then show ?thesis
      using assms(1-3) Some seg plain by (auto simp: star_inv_def intro!: exI [of _ "seg @ [t ! ti]"])
  qed
qed

lemma inv_star:
  assumes "loop_inv p t pi ti star m" and "ti < length t" "pi < length p" "p ! pi = CHR ''*''"
  shows "loop_inv p t (Suc pi) ti (Some pi) ti"
proof -
  have rest: "drop pi p = CHR ''*'' # drop (Suc pi) p" using assms(3,4) by (simp add: drop_step)
  have "glob p t \<longleftrightarrow> (\<exists>k\<ge>ti. k \<le> length t \<and> glob (drop (Suc pi) p) (drop k t))"
  proof (cases star)
    case None
    then have "glob p t \<longleftrightarrow> (\<exists>j\<le>length t - ti. glob (drop (Suc pi) p) (drop (j + ti) t))"
      using assms(1) by (simp add: rest glob_star)
    also have "\<dots> \<longleftrightarrow> (\<exists>k\<ge>ti. k \<le> length t \<and> glob (drop (Suc pi) p) (drop k t))"
      using assms(2) by (auto simp: le_iff_add add.commute) (metis add.commute add_le_cancel_left le_add_diff_inverse less_imp_le nat_le_iff_add)+
    finally show ?thesis .
  next
    case (Some s)
    then obtain seg where seg: "drop (Suc s) p = seg @ drop pi p" "CHR ''*'' \<notin> set seg" "drop m t = seg @ drop ti t"
        "ti = m + length seg" and eq: "glob p t \<longleftrightarrow> (\<exists>k\<ge>m. k \<le> length t \<and> glob (drop (Suc s) p) (drop k t))"
      using assms(1) by (auto simp: star_inv_def)
    have step: "glob (drop (Suc s) p) u \<longleftrightarrow> (\<exists>u' j. u = seg @ u' \<and> j \<le> length u' \<and> glob (drop (Suc pi) p) (drop j u'))" for u
      using seg(1,2) by (simp add: rest glob_literal glob_star)
    show ?thesis
    proof
      assume "glob p t"
      then obtain k u j where k: "m \<le> k" "k \<le> length t" "drop k t = seg @ u" "j \<le> length u" "glob (drop (Suc pi) p) (drop j u)"
        using eq step by blast
      have "drop j u = drop (k + length seg + j) t"
        by (metis add.commute append_eq_conv_conj drop_drop k(3))
      moreover have "k + length seg + j \<le> length t"
      proof -
        have "length t - k = length seg + length u" by (metis k(3) length_append length_drop)
        then show ?thesis using k(2,4) by simp
      qed
      ultimately show "\<exists>k\<ge>ti. k \<le> length t \<and> glob (drop (Suc pi) p) (drop k t)"
        using k(1,5) seg(4) by (intro exI [of _ "k + length seg + j"]) simp
    next
      assume "\<exists>k\<ge>ti. k \<le> length t \<and> glob (drop (Suc pi) p) (drop k t)"
      then obtain k where "ti \<le> k" "k \<le> length t" "glob (drop (Suc pi) p) (drop (k - ti) (drop ti t))" by auto
      then have "glob (drop (Suc s) p) (drop m t)"
        using step [of "drop m t"] seg(3) by (auto intro!: exI [of _ "k - ti"])
      then show "glob p t" using eq assms(2) seg(4) by (intro iffD2 [OF eq] exI [of _ m]) simp
    qed
  qed
  then show ?thesis using assms by (auto simp: star_inv_def)
qed

lemma glob_mismatch:
  assumes "ti < length t" "pi \<le> length p" "\<not> (pi < length p \<and> p ! pi = t ! ti)" "\<not> (pi < length p \<and> p ! pi = CHR ''*'')"
  shows "\<not> glob (drop pi p) (drop ti t)"
  using assms by (cases "pi < length p") (auto simp: drop_step glob_char)

lemma inv_retry:
  assumes "loop_inv p t pi ti (Some s) m" and "ti < length t" and "\<not> (pi < length p \<and> p ! pi = t ! ti)"
    and "\<not> (pi < length p \<and> p ! pi = CHR ''*'')"
  shows "loop_inv p t (Suc s) (Suc m) (Some s) (Suc m)"
proof -
  obtain seg where seg: "drop (Suc s) p = seg @ drop pi p" "CHR ''*'' \<notin> set seg" "drop m t = seg @ drop ti t"
      "ti = m + length seg" and eq: "glob p t \<longleftrightarrow> (\<exists>k\<ge>m. k \<le> length t \<and> glob (drop (Suc s) p) (drop k t))"
    and bounds: "s < pi" "pi \<le> length p"
    using assms(1) by (auto simp: star_inv_def)
  have "\<not> glob (drop (Suc s) p) (drop m t)"
    using seg(1-3) glob_mismatch [OF assms(2) bounds(2) assms(3,4)] by (simp add: glob_literal)
  then have "glob p t \<longleftrightarrow> (\<exists>k\<ge>Suc m. k \<le> length t \<and> glob (drop (Suc s) p) (drop k t))"
    using eq by (metis Suc_leD Suc_leI le_neq_implies_less)
  then show ?thesis using bounds assms(2) seg(4) by (auto simp: star_inv_def)
qed

lemma inv_finished:
  assumes "loop_inv p t pi ti star m" and "\<not> ti < length t"
  shows "glob p t \<longleftrightarrow> skip_stars (drop pi p)"
proof (cases star)
  case None
  then show ?thesis using assms by (simp add: glob_end)
next
  case (Some s)
  then have inv: "star_inv p t pi ti s m" using assms(1) by simp
  then obtain seg where seg: "drop (Suc s) p = seg @ drop pi p" "CHR ''*'' \<notin> set seg" "drop m t = seg @ drop ti t"
      "ti = m + length seg" and eq: "glob p t \<longleftrightarrow> (\<exists>k\<ge>m. k \<le> length t \<and> glob (drop (Suc s) p) (drop k t))"
    unfolding star_inv_def by blast
  have "ti = length t" using inv assms(2) unfolding star_inv_def by linarith
  have only: "k = m" if k: "m \<le> k" "k \<le> length t" "glob (drop (Suc s) p) (drop k t)" for k
  proof -
    obtain u where "drop k t = seg @ u" using k(3) seg(1,2) by (auto simp: glob_literal)
    then have "length t - k = length seg + length u" by (metis length_append length_drop)
    then show ?thesis using k(1,2) seg(4) \<open>ti = length t\<close> by simp
  qed
  have "glob (drop (Suc s) p) (drop m t) \<longleftrightarrow> skip_stars (drop pi p)"
    using seg(1-3) \<open>ti = length t\<close> by (simp add: glob_literal glob_end)
  then show ?thesis using eq only seg(4) \<open>ti = length t\<close> by (metis le_add1 order_refl)
qed

lemma inv_bounds:
  assumes "loop_inv p t pi ti star m"
  shows "m \<le> ti" "pi \<le> length p"
  using assms by (cases star; auto simp: star_inv_def)+

text \<open>Every step moves \<open>match_idx\<close> on, or keeps it and moves on in the pattern.\<close>

definition wild_measure :: "string \<Rightarrow> string \<Rightarrow> usize \<Rightarrow> usize \<Rightarrow> nat" where
  "wild_measure p t pi m = (length t - m) * Suc (length p) + (length p - pi)"

lemma wild_measure_pattern: "m \<le> m' \<Longrightarrow> pi < length p \<Longrightarrow> wild_measure p t (Suc pi) m' < wild_measure p t pi m"
proof -
  assume "m \<le> m'" "pi < length p"
  then have "(length t - m') * Suc (length p) \<le> (length t - m) * Suc (length p)" by (intro mult_le_mono) auto
  then show ?thesis using \<open>pi < length p\<close> unfolding wild_measure_def by (intro add_le_less_mono) auto
qed

lemma wild_measure_retry: "m < length t \<Longrightarrow> wild_measure p t pi' (Suc m) < wild_measure p t pi m"
proof -
  assume "m < length t"
  then have "length t - m = Suc (length t - Suc m)" by simp
  then show ?thesis by (simp add: wild_measure_def)
qed

lemma wildcard_loop_correct:
  assumes "CHR ''*'' \<notin> set t" and "loop_inv p t pi ti star m"
  shows "\<exists>r. wildcard_loop p t pi ti star m = Some r
    \<and> (glob p t \<longleftrightarrow> (case r of None \<Rightarrow> False | Some pi' \<Rightarrow> skip_stars (drop pi' p)))"
  using assms(2)
proof (induction "wild_measure p t pi m" arbitrary: pi ti star m rule: less_induct)
  case less
  note bounds = inv_bounds [OF less.prems]
  consider (finished) "\<not> ti < length t" | (same) "ti < length t" "pi < length p" "p ! pi = t ! ti"
    | (star) "ti < length t" "pi < length p" "p ! pi \<noteq> t ! ti" "p ! pi = CHR ''*''"
    | (other) "ti < length t" "\<not> (pi < length p \<and> p ! pi = t ! ti)" "\<not> (pi < length p \<and> p ! pi = CHR ''*'')"
    by blast
  then show ?case
  proof cases
    case finished
    then show ?thesis using inv_finished [OF less.prems] by (subst wildcard_loop.simps) simp
  next
    case same
    have "\<exists>r. wildcard_loop p t (Suc pi) (Suc ti) star m = Some r
        \<and> (glob p t \<longleftrightarrow> (case r of None \<Rightarrow> False | Some pi' \<Rightarrow> skip_stars (drop pi' p)))"
      using same wild_measure_pattern [of m m pi p t] inv_advance [OF less.prems same assms(1)] by (intro less.hyps) auto
    then show ?thesis using same by (subst wildcard_loop.simps) simp
  next
    case star
    have "\<exists>r. wildcard_loop p t (Suc pi) ti (Some pi) ti = Some r
        \<and> (glob p t \<longleftrightarrow> (case r of None \<Rightarrow> False | Some pi' \<Rightarrow> skip_stars (drop pi' p)))"
      using star wild_measure_pattern [OF bounds(1) star(2)] inv_star [OF less.prems star(1,2,4)] by (intro less.hyps) auto
    then show ?thesis using star by (subst wildcard_loop.simps) simp
  next
    case other
    show ?thesis
    proof (cases star)
      case None
      then have "\<not> glob p t" using less.prems glob_mismatch [OF other(1) bounds(2) other(2,3)] by simp
      then show ?thesis using other None by (subst wildcard_loop.simps) auto
    next
      case (Some s)
      have "\<exists>r. wildcard_loop p t (Suc s) (Suc m) (Some s) (Suc m) = Some r
          \<and> (glob p t \<longleftrightarrow> (case r of None \<Rightarrow> False | Some pi' \<Rightarrow> skip_stars (drop pi' p)))"
        using inv_retry [OF _ other, of s m] less.prems Some wild_measure_retry [of m t p "Suc s" pi] bounds(1) other(1)
        by (intro less.hyps) auto
      then show ?thesis using other Some by (subst wildcard_loop.simps) auto
    qed
  qed
qed

lemma wildcard_loop_total:
  assumes "m \<le> ti" "pi \<le> length p" "case star of None \<Rightarrow> True | Some s \<Rightarrow> s < length p"
  shows "\<exists>r. wildcard_loop p t pi ti star m = Some r"
  using assms
proof (induction "wild_measure p t pi m" arbitrary: pi ti star m rule: less_induct)
  case less
  show ?case
  proof (cases "ti < length t")
    case False
    then show ?thesis by (subst wildcard_loop.simps) simp
  next
    case True
    have same: "\<exists>r. wildcard_loop p t (Suc pi) (Suc ti) star m = Some r" if "pi < length p"
      using less.prems that wild_measure_pattern [of m m pi p t] by (intro less.hyps) auto
    moreover have "\<exists>r. wildcard_loop p t (Suc pi) ti (Some pi) ti = Some r" if "pi < length p"
      using less.prems that wild_measure_pattern [of m ti pi p t] by (intro less.hyps) auto
    moreover have "\<exists>r. wildcard_loop p t (Suc s) (Suc m) star (Suc m) = Some r" if "star = Some s" for s
      using less.prems that True wild_measure_retry [of m t p "Suc s" pi] by (intro less.hyps) auto
    ultimately show ?thesis using True by (subst wildcard_loop.simps) (auto split: option.splits)
  qed
qed

lemma ascii_lower_star: "ascii_lower c = CHR ''*'' \<longleftrightarrow> c = CHR ''*''"
proof (cases "is_ascii_uppercase c")
  case True
  then have "(of_char c :: nat) + 32 < 256" "(of_char c :: nat) \<noteq> 10" by (auto simp: is_ascii_uppercase_def)
  then have "(of_char (ascii_lower c) :: nat) \<noteq> 42" using True by (simp add: ascii_lower_def)
  then show ?thesis using True by (auto simp: is_ascii_uppercase_def)
qed (simp add: ascii_lower_def)

lemma star_lowercase: "CHR ''*'' \<in> set (to_ascii_lowercase s) \<longleftrightarrow> CHR ''*'' \<in> set s"
proof
  assume "CHR ''*'' \<in> set (to_ascii_lowercase s)"
  then obtain c where "c \<in> set s" "ascii_lower c = CHR ''*''" by (auto simp: to_ascii_lowercase_def)
  then show "CHR ''*'' \<in> set s" by (simp add: ascii_lower_star)
next
  assume "CHR ''*'' \<in> set s"
  then have "ascii_lower (CHR ''*'') \<in> set (to_ascii_lowercase s)" by (simp add: to_ascii_lowercase_def)
  then show "CHR ''*'' \<in> set (to_ascii_lowercase s)" by (simp only: ascii_lower_star [THEN iffD2, OF refl])
qed

lemma wildcard_match_glob:
  assumes "CHR ''*'' \<notin> set txt"
  shows "wildcard_match pat txt = Some (glob (to_ascii_lowercase pat) (to_ascii_lowercase txt))"
proof -
  have "\<exists>r. wildcard_loop (to_ascii_lowercase pat) (to_ascii_lowercase txt) 0 0 None 0 = Some r
    \<and> (glob (to_ascii_lowercase pat) (to_ascii_lowercase txt) \<longleftrightarrow>
         (case r of None \<Rightarrow> False | Some pi' \<Rightarrow> skip_stars (drop pi' (to_ascii_lowercase pat))))"
    using assms by (intro wildcard_loop_correct) (simp_all add: star_lowercase)
  then show ?thesis by (auto simp: wildcard_match_def Let_def)
qed

text \<open>
on a text without a literal \<open>*\<close> the matcher, with its single backtracking point, decides
  exactly whether the pattern matches when every \<open>*\<close> stands for any text, without regard to case.
\<close>

theorem wildcard_match_decides_glob:
  assumes "CHR ''*'' \<notin> set txt"
  shows "wildcard_match pat txt = Some (glob (to_ascii_lowercase pat) (to_ascii_lowercase txt))"
  by (rule wildcard_match_glob [OF assms])

theorem wildcard_match_decides_glob_witness:
  "CHR ''*'' \<notin> set ''AFDBOX.TXT'' \<and> wildcard_match ''afd*.txt'' ''AFDBOX.TXT'' = Some True
   \<and> wildcard_match ''afd*.zip'' ''AFDBOX.TXT'' = Some False"
proof -
  have yes: "glob (to_ascii_lowercase ''afd*.txt'') (to_ascii_lowercase ''AFDBOX.TXT'')"
    and no: "\<not> glob (to_ascii_lowercase ''afd*.zip'') (to_ascii_lowercase ''AFDBOX.TXT'')"
    by code_simp+
  show ?thesis
    using wildcard_match_decides_glob [of "''AFDBOX.TXT''" "''afd*.txt''"]
      wildcard_match_decides_glob [of "''AFDBOX.TXT''" "''afd*.zip''"] yes no by simp
qed

text \<open>The matcher always returns.\<close>

lemma wildcard_match_total: "\<exists>b. wildcard_match pat txt = Some b"
  using wildcard_loop_total [of 0 0 0 "to_ascii_lowercase pat" None "to_ascii_lowercase txt"]
  by (auto simp: wildcard_match_def Let_def)

text \<open>
a text that has a literal \<open>*\<close> defeats the matcher: it compares characters before it looks at
  the wildcard, so that the pattern \<open>*\<close>, which matches everything, rejects the text \<open>*A\<close>.
\<close>

theorem wildcard_match_misses_literal_star:
  "wildcard_match ''*'' ''*A'' = Some False \<and> glob (to_ascii_lowercase ''*'') (to_ascii_lowercase ''*A'')"
proof
  show "wildcard_match ''*'' ''*A'' = Some False"
    by (simp add: wildcard_match_def to_ascii_lowercase_def ascii_lower_def is_ascii_uppercase_def wildcard_loop.simps)
  show "glob (to_ascii_lowercase ''*'') (to_ascii_lowercase ''*A'')" by code_simp
qed

subsection \<open>Download URLs\<close>

definition hex_val :: "char \<Rightarrow> nat option" where
  "hex_val c = (if is_ascii_digit c then Some (of_char c - 48)
     else if is_ascii_uppercase c \<and> (of_char c :: nat) \<le> 70 then Some (of_char c - 55) else None)"

text \<open>Decoding as in RFC 3986, which the web framework applies to the path of a request.\<close>

fun percent_decode :: "string \<Rightarrow> string" where
  "percent_decode (c # a # b # s) =
     (case (if c = CHR ''%'' then hex_val a else None, hex_val b) of
        (Some h, Some l) \<Rightarrow> char_of (16 * h + l) # percent_decode s
      | _ \<Rightarrow> c # percent_decode (a # b # s))"
| "percent_decode (c # s) = c # percent_decode s"
| "percent_decode [] = []"

lemma hex_val_digit: "d < 16 \<Longrightarrow> hex_val (hex_digit d) = Some d"
  by (cases "d < 10") (auto simp: hex_val_def hex_digit_def is_ascii_digit_def is_ascii_uppercase_def)

lemma percent_decode_plain: "c \<noteq> CHR ''%'' \<Longrightarrow> percent_decode (c # s) = c # percent_decode s"
  by (cases s rule: percent_decode.cases) auto

lemma unreserved_not_percent: "unreserved c \<Longrightarrow> c \<noteq> CHR ''%''"
  by (auto simp: unreserved_def is_ascii_alphanumeric_def is_ascii_alphabetic_def is_ascii_digit_def
    is_ascii_uppercase_def is_ascii_lowercase_def)

lemma percent_roundtrip: "percent_decode (percent_encode s) = s"
proof (induction s)
  case (Cons c s)
  have "(of_char c :: nat) < 16 * 16" using range_nat_of_char by force
  then have "(of_char c :: nat) div 16 < 16" by (rule less_mult_imp_div_less)
  then show ?case
    using Cons by (auto simp: percent_encode_def percent_decode_plain unreserved_not_percent hex_val_digit)
qed (simp add: percent_encode_def)

lemma sanitize_fixed_iff:
  "sanitize_requested_filename f = Some f \<longleftrightarrow>
     f \<noteq> [] \<and> hd f \<noteq> CHR ''/'' \<and> hd f \<noteq> CHR 0x5C \<and> CHR 0x00 \<notin> set f \<and> \<not> str_contains f ''..'' \<and> trim f = f"
proof (cases f)
  case (Cons c s)
  have keep: "dropWhile (\<lambda>c. c = CHR ''/'') f = f" if "hd f \<noteq> CHR ''/''" using that Cons by simp
  have "hd f \<noteq> CHR ''/''" if "sanitize_requested_filename f = Some f"
    using that Cons by (auto simp: sanitize_requested_filename_def Let_def starts_with_def split: if_splits)
  then show ?thesis
    using keep Cons by (auto simp: sanitize_requested_filename_def Let_def starts_with_def split: if_splits)
qed (simp add: sanitize_requested_filename_def)

text \<open>
  the download URL that the server advertises for a file leads back to the file: after the web
  framework has decoded the path, the request is accepted and asks for exactly that name if and only
  if the name is not empty, has no NUL, no two consecutive dots, no leading slash or backslash and no
  surrounding white space. Files with other names are advertised but cannot be downloaded.
\<close>

theorem download_url_leads_to_file:
  "filename_request_or_400 (percent_decode (drop (length ''/files/'') (file_download_url f))) = Inr f \<longleftrightarrow>
     f \<noteq> [] \<and> hd f \<noteq> CHR ''/'' \<and> hd f \<noteq> CHR 0x5C \<and> CHR 0x00 \<notin> set f \<and> \<not> str_contains f ''..'' \<and> trim f = f"
  using sanitize_fixed_iff [of f]
  by (auto simp: file_download_url_def percent_roundtrip filename_request_or_400_def split: option.splits)

end
