(* ===== verification/File_Filter_Correct.thy ===== *)
theory File_Filter_Correct
  imports File_Filter Server_Support_Correct
begin

text \<open>
  A filter built from query parameters accepts exactly the files for which every given parameter
  holds; the specification speaks about the parameters directly, without the normalized sets and
  the early exits of the implementation.
\<close>

subsection \<open>Case and white space\<close>

lemma ascii_lower_upper: "ascii_lower (ascii_upper c) = ascii_lower c"
proof (cases "is_ascii_lowercase c")
  case True
  let ?n = "of_char c :: nat"
  have n: "97 \<le> ?n" "?n \<le> 122" using True by (simp_all add: is_ascii_lowercase_def)
  then have "65 \<le> ?n - 32" "?n - 32 \<le> 90" by arith+
  then have "(of_char (char_of (?n - 32) :: char) :: nat) = ?n - 32" by simp
  moreover have "\<not> is_ascii_uppercase c" using n by (simp add: is_ascii_uppercase_def)
  ultimately show ?thesis
    using True n \<open>65 \<le> ?n - 32\<close> \<open>?n - 32 \<le> 90\<close>
    by (simp add: ascii_upper_def ascii_lower_def is_ascii_uppercase_def)
qed (simp add: ascii_upper_def)

lemma ascii_upper_lower: "ascii_upper (ascii_lower c) = ascii_upper c"
proof (cases "is_ascii_uppercase c")
  case True
  let ?n = "of_char c :: nat"
  have n: "65 \<le> ?n" "?n \<le> 90" using True by (simp_all add: is_ascii_uppercase_def)
  then have "(of_char (char_of (?n + 32) :: char) :: nat) = ?n + 32" by simp
  moreover have "\<not> is_ascii_lowercase c" using n by (simp add: is_ascii_lowercase_def)
  ultimately show ?thesis
    using True n by (simp add: ascii_upper_def ascii_lower_def is_ascii_lowercase_def)
qed (simp add: ascii_lower_def)

lemma uppercase_eq_iff: "to_ascii_uppercase a = to_ascii_uppercase b \<longleftrightarrow> eq_ignore_ascii_case a b"
proof
  assume "to_ascii_uppercase a = to_ascii_uppercase b"
  then have "map ascii_lower (to_ascii_uppercase a) = map ascii_lower (to_ascii_uppercase b)" by simp
  then show "eq_ignore_ascii_case a b"
    by (simp add: eq_ignore_ascii_case_def to_ascii_uppercase_def to_ascii_lowercase_def comp_def ascii_lower_upper)
next
  assume "eq_ignore_ascii_case a b"
  then have "map ascii_upper (to_ascii_lowercase a) = map ascii_upper (to_ascii_lowercase b)"
    by (simp add: eq_ignore_ascii_case_def)
  then show "to_ascii_uppercase a = to_ascii_uppercase b"
    by (simp add: to_ascii_uppercase_def to_ascii_lowercase_def comp_def ascii_upper_lower)
qed

lemma trim_seqs_suffix: "\<exists>p. s = p @ trim_seqs ws s"
proof (induction ws s rule: trim_seqs.induct)
  case (1 ws s)
  show ?case
  proof (cases "find (\<lambda>w. w \<noteq> [] \<and> starts_with s w) ws")
    case None
    then show ?thesis by (simp add: trim_seqs.simps)
  next
    case (Some w)
    then obtain p where "drop (length w) s = p @ trim_seqs ws (drop (length w) s)" using 1 by blast
    then have "s = (take (length w) s @ p) @ trim_seqs ws (drop (length w) s)" by (metis append_assoc append_take_drop_id)
    moreover have "trim_seqs ws s = trim_seqs ws (drop (length w) s)" by (subst trim_seqs.simps) (simp add: Some)
    ultimately show ?thesis by metis
  qed
qed

lemma trim_idem [simp]: "trim (trim s) = trim s"
proof -
  let ?t = "trim_start s" and ?e = "trim_end (trim_start s)"
  have white: "w \<noteq> []" if "w \<in> set unicode_white_space" for w using white_space_not_graphic [OF that] by simp
  obtain q where "rev ?t = q @ rev ?e" using trim_seqs_suffix [of "rev ?t"] by (auto simp: trim_end_def)
  then have pre: "?t = ?e @ rev q" by (metis rev_append rev_rev_ident)
  have "trim_start ?e = ?e" unfolding trim_start_def
  proof (rule trim_seqs_idle, rule ballI)
    fix w assume w: "w \<in> set unicode_white_space"
    have "\<not> starts_with ?t w" using trim_seqs_done [OF w white [OF w]] by (simp add: trim_start_def)
    then show "w = [] \<or> \<not> starts_with (trim_end (trim_seqs unicode_white_space s)) w"
      using starts_with_extend [of ?e w "rev q"] pre by (auto simp: trim_start_def)
  qed
  moreover have "trim_end ?e = ?e"
  proof -
    have "trim_seqs (map rev unicode_white_space) (rev ?e) = rev ?e"
    proof (rule trim_seqs_idle, rule ballI)
      fix w assume "w \<in> set (map rev unicode_white_space)"
      then show "w = [] \<or> \<not> starts_with (rev ?e) w"
        using trim_seqs_done [of w "map rev unicode_white_space"] by (auto simp: trim_end_def)
    qed
    then show ?thesis by (simp add: trim_end_def)
  qed
  ultimately show ?thesis by (simp add: trim_def)
qed

lemma csv_items_trimmed: "item \<in> set (csv_items raw) \<Longrightarrow> trim item = item"
  by (auto simp: csv_items_def split: option.splits)

subsection \<open>What a list of values asks for\<close>

text \<open>No value is listed, or the attribute is one of the listed values up to case and surrounding space.\<close>

definition wanted :: "string option \<Rightarrow> string option \<Rightarrow> bool" where
  "wanted raw v \<longleftrightarrow> csv_items raw = [] \<or> (\<exists>x item. v = Some x \<and> item \<in> set (csv_items raw) \<and> eq_ignore_ascii_case item (trim x))"

lemma csv_values_upper:
  "csv_values raw normalize_upper = (if csv_items raw = [] then None else Some (to_ascii_uppercase ` set (csv_items raw)))"
  by (auto simp: csv_values_def normalize_upper_def csv_items_trimmed intro!: image_cong)

lemma csv_values_lower:
  "csv_values raw normalize_lower = (if csv_items raw = [] then None else Some (to_ascii_lowercase ` set (csv_items raw)))"
  by (auto simp: csv_values_def normalize_lower_def csv_items_trimmed intro!: image_cong)

lemma matches_upper [simp]: "matches_option_set (csv_values raw normalize_upper) v normalize_upper \<longleftrightarrow> wanted raw v"
  by (auto simp: matches_option_set_def csv_values_upper wanted_def normalize_upper_def uppercase_eq_iff [symmetric] image_iff
      split: option.splits) metis+

lemma matches_lower [simp]: "matches_option_set (csv_values raw normalize_lower) v normalize_lower \<longleftrightarrow> wanted raw v"
  by (auto simp: matches_option_set_def csv_values_lower wanted_def normalize_lower_def eq_ignore_ascii_case_def image_iff
      split: option.splits) metis+

text \<open>The names of enumeration values are in lower case and have no white space.\<close>

lemma matches_name:
  assumes "\<forall>x. v = Some x \<longrightarrow> trim (serialize x) = serialize x \<and> to_ascii_lowercase (serialize x) = serialize x"
  shows "matches_serialized_option (csv_values raw normalize_lower) v serialize \<longleftrightarrow> wanted raw (map_option serialize v)"
  using assms
  by (auto simp: matches_serialized_option_def csv_values_lower wanted_def eq_ignore_ascii_case_def image_iff
      split: option.splits) metis+

definition plain_name :: "string \<Rightarrow> bool" where
  "plain_name s \<longleftrightarrow> s \<noteq> [] \<and> list_all (\<lambda>c. is_graphic c \<and> \<not> is_ascii_uppercase c) s"

lemma plain_name_fixed: "plain_name s \<Longrightarrow> trim s = s \<and> to_ascii_lowercase s = s"
  by (auto simp: plain_name_def list_all_iff to_ascii_lowercase_def ascii_lower_def intro!: trim_graphic map_idI)

lemma names_plain:
  "plain_name (product_source_name a)" "plain_name (bbb_kind_name b)" "plain_name (hvtec_severity_name c)"
  "plain_name (hvtec_cause_name d)" "plain_name (hvtec_record_name e)" "plain_name (wind_hail_kind_name g)"
proof -
  note name_simps = plain_name_def is_graphic_def is_ascii_uppercase_def
  show "plain_name (product_source_name a)" by (cases a) (simp_all add: name_simps)
  show "plain_name (bbb_kind_name b)" by (cases b) (simp_all add: name_simps)
  show "plain_name (hvtec_severity_name c)" by (cases c) (simp_all add: name_simps)
  show "plain_name (hvtec_cause_name d)" by (cases d) (simp_all add: name_simps)
  show "plain_name (hvtec_record_name e)" by (cases e) (simp_all add: name_simps)
  show "plain_name (wind_hail_kind_name g)" by (cases g) (simp_all add: name_simps)
qed

lemmas name_matches [simp] =
  matches_name [of _ product_source_name] matches_name [of _ bbb_kind_name] matches_name [of _ hvtec_severity_name]
  matches_name [of _ hvtec_cause_name] matches_name [of _ hvtec_record_name]

lemmas names_fixed [simp] = names_plain [THEN plain_name_fixed, THEN conjunct1] names_plain [THEN plain_name_fixed, THEN conjunct2]

subsection \<open>What a query asks for\<close>

definition given :: "string option \<Rightarrow> bool" where
  "given raw \<longleftrightarrow> csv_items raw \<noteq> []"

text \<open>A truth value is asked for when it can be read.\<close>

definition asked :: "string option \<Rightarrow> bool \<Rightarrow> bool" where
  "asked raw b \<longleftrightarrow> parse_optional_bool raw \<noteq> Some (\<not> b)"

definition header_holds :: "'f FileFilterInput \<Rightarrow> ('f, 'a) ProductEnrichment \<Rightarrow> bool" where
  "header_holds i p \<longleftrightarrow>
     (given (in_cccc i) \<or> given (in_ttaaii i) \<or> given (in_afos i) \<or> given (in_bbb i) \<longrightarrow>
      (\<exists>h. pe_header p = Some h \<and> wanted (in_cccc i) (Some (th_cccc h)) \<and> wanted (in_ttaaii i) (Some (th_ttaaii h))
         \<and> wanted (in_afos i) (Some (th_afos h)) \<and> wanted (in_bbb i) (th_bbb h))
      \<or> (\<exists>h. pe_wmo_header p = Some h \<and> wanted (in_cccc i) (Some (wh_cccc h)) \<and> wanted (in_ttaaii i) (Some (wh_ttaaii h))
         \<and> \<not> given (in_afos i) \<and> wanted (in_bbb i) (wh_bbb h)))"

definition product_holds :: "'f FileFilterInput \<Rightarrow> ('f, 'a) ProductEnrichment \<Rightarrow> bool" where
  "product_holds i p \<longleftrightarrow>
     wanted (in_source i) (Some (product_source_name (pe_source p))) \<and> wanted (in_pil i) (pe_pil p)
     \<and> wanted (in_family i) (pe_family p) \<and> wanted (in_container i) (Some (pe_container p))
     \<and> wanted (in_wmo_prefix i) (pe_wmo_prefix p) \<and> wanted (in_office i) (map_option wo_code (pe_office p))
     \<and> wanted (in_office_city i) (map_option wo_city (pe_office p))
     \<and> wanted (in_office_state i) (map_option wo_state (pe_office p))
     \<and> wanted (in_bbb_kind i) (map_option bbb_kind_name (pe_bbb_kind p))"

definition issues_hold :: "'f FileFilterInput \<Rightarrow> ProductParseIssue list \<Rightarrow> bool" where
  "issues_hold i issues \<longleftrightarrow>
     asked (in_has_issues i) (issues \<noteq> [])
     \<and> (given (in_issue_kind i) \<longrightarrow> (\<exists>x\<in>set issues. wanted (in_issue_kind i) (Some (issue_kind x))))
     \<and> (given (in_issue_code i) \<longrightarrow> (\<exists>x\<in>set issues. wanted (in_issue_code i) (Some (issue_code x))))"

text \<open>Some code among the areas of the body is listed, exactly as it is written in upper case.\<close>

definition listed :: "string option \<Rightarrow> string set \<Rightarrow> bool" where
  "listed raw codes \<longleftrightarrow> (given raw \<longrightarrow> (\<exists>item\<in>set (csv_items raw). to_ascii_uppercase item \<in> codes))"

definition area_codes :: "char \<Rightarrow> 'f area_map list \<Rightarrow> string set" where
  "area_codes c ms = (\<Union>m\<in>set ms. \<Union>e\<in>set m. (\<lambda>area. canonical_code (fst e) c (area_id area)) ` set (snd e))"

definition geography_holds :: "'f FileFilterInput \<Rightarrow> 'f UgcSection list \<Rightarrow> bool" where
  "geography_holds i sections \<longleftrightarrow>
     listed (in_state i) {state. \<exists>s\<in>set sections. state \<in> fst ` set (counties s @ zones s @ fire_zones s @ marine_zones s)}
     \<and> listed (in_county i) (area_codes (CHR ''C'') (map counties sections))
     \<and> listed (in_zone i) (area_codes (CHR ''Z'') (map zones sections))
     \<and> listed (in_fire_zone i) (area_codes (CHR ''F'') (map fire_zones sections))
     \<and> listed (in_marine_zone i) (area_codes (CHR ''Z'') (map marine_zones sections))"

definition vtec_holds :: "'f FileFilterInput \<Rightarrow> VtecCode list \<Rightarrow> bool" where
  "vtec_holds i codes \<longleftrightarrow>
     (given (in_vtec_phenomena i) \<or> given (in_vtec_significance i) \<or> given (in_vtec_action i) \<or> given (in_vtec_office i)
        \<or> csv_numbers (in_etn i) \<noteq> None \<longrightarrow>
      (\<exists>c\<in>set codes. wanted (in_vtec_phenomena i) (Some (vtec_phenomena c))
         \<and> (given (in_vtec_significance i) \<longrightarrow>
            (\<exists>item\<in>set (csv_items (in_vtec_significance i)). eq_ignore_ascii_case item [vtec_significance c]))
         \<and> wanted (in_vtec_action i) (Some (vtec_action c)) \<and> wanted (in_vtec_office i) (Some (vtec_office c))
         \<and> (\<forall>ns. csv_numbers (in_etn i) = Some ns \<longrightarrow> vtec_etn c \<in> ns)))"

definition hvtec_holds :: "'f FileFilterInput \<Rightarrow> 'loc HvtecCode list \<Rightarrow> bool" where
  "hvtec_holds i codes \<longleftrightarrow>
     asked (in_has_hvtec i) (codes \<noteq> [])
     \<and> (given (in_hvtec_nwslid i) \<or> given (in_hvtec_severity i) \<or> given (in_hvtec_cause i) \<or> given (in_hvtec_record i) \<longrightarrow>
        (\<exists>c\<in>set codes. wanted (in_hvtec_nwslid i) (Some (hv_nwslid c))
           \<and> wanted (in_hvtec_severity i) (Some (hvtec_severity_name (hv_severity c)))
           \<and> wanted (in_hvtec_cause i) (Some (hvtec_cause_name (hv_cause c)))
           \<and> wanted (in_hvtec_record i) (Some (hvtec_record_name (hv_record c)))))"

definition wind_hail_holds :: "'f f64_ops \<Rightarrow> 'f FileFilterInput \<Rightarrow> 'f WindHailEntry list \<Rightarrow> bool" where
  "wind_hail_holds F i entries \<longleftrightarrow>
     asked (in_has_wind_hail i) (entries \<noteq> [])
     \<and> (given (in_wind_hail_kind i) \<longrightarrow> (\<exists>e\<in>set entries. wanted (in_wind_hail_kind i) (Some (wind_hail_kind_name (wh_kind e)))))
     \<and> (\<forall>m. in_min_wind_mph i = Some m \<longrightarrow>
        (\<exists>e\<in>set entries. \<exists>v u. is_wind_entry e \<and> wh_numeric_value e = Some v \<and> wh_units e = Some u
           \<and> f_le F m (wind_speed_mph F v u)))
     \<and> (\<forall>m. in_min_hail_inches i = Some m \<longrightarrow>
        (\<exists>e\<in>set entries. \<exists>v. is_hail_entry e \<and> wh_numeric_value e = Some v \<and> f_le F m v))"

definition presence_holds :: "'f FileFilterInput \<Rightarrow> 'f ProductBody option \<Rightarrow> bool" where
  "presence_holds i body \<longleftrightarrow>
     asked (in_has_vtec i) (\<exists>b. body = Some b \<and> body_vtec_codes b \<noteq> [])
     \<and> asked (in_has_ugc i) (\<exists>b. body = Some b \<and> body_ugc_sections b \<noteq> [])
     \<and> asked (in_has_hvtec i) (\<exists>b. body = Some b \<and> body_hvtec_codes b \<noteq> [])
     \<and> asked (in_has_latlon i) (\<exists>b. body = Some b \<and> body_latlon_len b > 0)
     \<and> asked (in_has_time_mot_loc i) (\<exists>b. body = Some b \<and> body_time_mot_loc_len b > 0)
     \<and> asked (in_has_wind_hail i) (\<exists>b. body = Some b \<and> body_wind_hail_entries b \<noteq> [])"

definition location_holds :: "'f f64_ops \<Rightarrow> 'f FileFilterInput \<Rightarrow> 'f ProductBody option \<Rightarrow> bool" where
  "location_holds F i body \<longleftrightarrow>
     (\<forall>la lo. in_lat i = Some la \<and> in_lon i = Some lo \<longrightarrow>
      (let here = \<lparr>pt_lat = la, pt_lon = lo\<rparr>;
           d = (case in_distance_miles i of Some d \<Rightarrow> d | None \<Rightarrow> f_lit F DEFAULT_DISTANCE_MILES)
       in \<exists>b. body = Some b
          \<and> ((\<exists>p\<in>set (iter_polygons F b). \<exists>box. pp_bounds p = Some box \<and> bounds_contains F box here
                \<and> point_in_polygon F here (pp_points p))
             \<or> (\<exists>p\<in>set (iter_location_points b). f_le F (distance_miles F here p) d))))"

definition body_part :: "('b \<Rightarrow> 'c list) \<Rightarrow> 'b option \<Rightarrow> 'c list" where
  "body_part f body = (case body of Some b \<Rightarrow> f b | None \<Rightarrow> [])"

definition query_holds ::
    "'f f64_ops \<Rightarrow> 'f FileFilterInput \<Rightarrow> (('f, 'a) ProductEnrichment, 's, 'd) CompletedFileMetadata \<Rightarrow> bool" where
  "query_holds F i md \<longleftrightarrow>
     (\<forall>pat. in_filename i = Some pat \<longrightarrow> glob (to_ascii_lowercase pat) (to_ascii_lowercase (meta_filename md)))
     \<and> (\<forall>m. in_min_size i = Some m \<longrightarrow> m \<le> meta_size md) \<and> (\<forall>m. in_max_size i = Some m \<longrightarrow> meta_size md \<le> m)
     \<and> product_holds i (meta_product md) \<and> header_holds i (meta_product md)
     \<and> issues_hold i (pe_issues (meta_product md)) \<and> location_holds F i (pe_body (meta_product md))
     \<and> presence_holds i (pe_body (meta_product md))
     \<and> geography_holds i (body_part body_ugc_sections (pe_body (meta_product md)))
     \<and> vtec_holds i (body_part body_vtec_codes (pe_body (meta_product md)))
     \<and> hvtec_holds i (body_part body_hvtec_codes (pe_body (meta_product md)))
     \<and> wind_hail_holds F i (body_part body_wind_hail_entries (pe_body (meta_product md)))"

subsection \<open>The parts of a built filter\<close>

lemma csv_given [simp]:
  "csv_values raw normalize_upper = None \<longleftrightarrow> \<not> given raw" "csv_values raw normalize_lower = None \<longleftrightarrow> \<not> given raw"
  by (simp_all add: csv_values_upper csv_values_lower given_def)

lemma not_given [simp]: "\<not> given raw \<Longrightarrow> wanted raw v"
  by (simp add: given_def wanted_def)

lemma built_fields:
  assumes "try_from_input F i = Inr f"
  shows
    "filename_pattern f = in_filename i"
    and "flt_size f = \<lparr>size_min = in_min_size i, size_max = in_max_size i\<rparr>"
    and "flt_product f = \<lparr>pf_source = csv_values (in_source i) normalize_lower,
      pf_pil = csv_values (in_pil i) normalize_upper, pf_family = csv_values (in_family i) normalize_lower,
      pf_container = csv_values (in_container i) normalize_lower,
      pf_wmo_prefix = csv_values (in_wmo_prefix i) normalize_upper,
      pf_office = csv_values (in_office i) normalize_upper,
      pf_office_city = csv_values (in_office_city i) normalize_lower,
      pf_office_state = csv_values (in_office_state i) normalize_upper,
      pf_bbb_kind = csv_values (in_bbb_kind i) normalize_lower\<rparr>"
    and "flt_header f = \<lparr>hf_cccc = csv_values (in_cccc i) normalize_upper,
      hf_ttaaii = csv_values (in_ttaaii i) normalize_upper, hf_afos = csv_values (in_afos i) normalize_upper,
      hf_bbb = csv_values (in_bbb i) normalize_upper\<rparr>"
    and "flt_issues f = \<lparr>if_has_issues = parse_optional_bool (in_has_issues i),
      if_kinds = csv_values (in_issue_kind i) normalize_lower,
      if_codes = csv_values (in_issue_code i) normalize_lower\<rparr>"
    and "flt_geo f = \<lparr>gf_states = csv_values (in_state i) normalize_upper,
      gf_counties = csv_values (in_county i) normalize_upper, gf_zones = csv_values (in_zone i) normalize_upper,
      gf_fire_zones = csv_values (in_fire_zone i) normalize_upper,
      gf_marine_zones = csv_values (in_marine_zone i) normalize_upper\<rparr>"
    and "flt_vtec f = \<lparr>vf_phenomena = csv_values (in_vtec_phenomena i) normalize_upper,
      vf_significance = csv_values (in_vtec_significance i) normalize_upper,
      vf_action = csv_values (in_vtec_action i) normalize_upper,
      vf_office = csv_values (in_vtec_office i) normalize_upper, vf_etn = csv_numbers (in_etn i)\<rparr>"
    and "flt_hvtec f = \<lparr>vh_present = parse_optional_bool (in_has_hvtec i),
      vh_nwslid = csv_values (in_hvtec_nwslid i) normalize_upper,
      vh_severity = csv_values (in_hvtec_severity i) normalize_lower,
      vh_cause = csv_values (in_hvtec_cause i) normalize_lower,
      vh_record = csv_values (in_hvtec_record i) normalize_lower\<rparr>"
    and "flt_wind_hail f = \<lparr>ww_present = parse_optional_bool (in_has_wind_hail i),
      ww_kinds = csv_values (in_wind_hail_kind i) normalize_lower, ww_min_wind_mph = in_min_wind_mph i,
      ww_min_hail_inches = in_min_hail_inches i\<rparr>"
    and "flt_presence f = \<lparr>bp_has_vtec = parse_optional_bool (in_has_vtec i),
      bp_has_ugc = parse_optional_bool (in_has_ugc i), bp_has_hvtec = parse_optional_bool (in_has_hvtec i),
      bp_has_latlon = parse_optional_bool (in_has_latlon i),
      bp_has_time_mot_loc = parse_optional_bool (in_has_time_mot_loc i),
      bp_has_wind_hail = parse_optional_bool (in_has_wind_hail i)\<rparr>"
    and "location_try_from_input F i = Inr (flt_location f)"
  using assms by (simp_all add: try_from_input_def split: sum.splits if_splits) (auto split: sum.splits if_splits)

lemma built_size:
  assumes "try_from_input F i = Inr f"
  shows "size_matches (flt_size f) n \<longleftrightarrow>
    (\<forall>m. in_min_size i = Some m \<longrightarrow> m \<le> n) \<and> (\<forall>m. in_max_size i = Some m \<longrightarrow> n \<le> m)"
  unfolding built_fields [OF assms] by (auto simp: size_matches_def not_le split: option.splits)

lemma built_product:
  assumes "try_from_input F i = Inr f"
  shows "product_matches (flt_product f) p \<longleftrightarrow> product_holds i p"
  unfolding built_fields [OF assms] product_matches_def product_holds_def by simp

lemma built_header:
  assumes "try_from_input F i = Inr f"
  shows "header_matches (flt_header f) p \<longleftrightarrow> header_holds i p"
  unfolding built_fields [OF assms] header_matches_def header_holds_def header_has_constraints_def
  by (auto simp: Let_def split: option.splits)

lemma any_wanted:
  "(case csv_values raw normalize_lower of Some a \<Rightarrow> \<not> list_ex (\<lambda>x. normalize_lower (g x) \<in> a) xs | None \<Rightarrow> False) \<longleftrightarrow>
     given raw \<and> \<not> (\<exists>x\<in>set xs. wanted raw (Some (g x)))"
  by (auto simp: csv_values_lower given_def list_ex_iff wanted_def normalize_lower_def eq_ignore_ascii_case_def image_iff) metis+

lemma asked_iff: "parse_optional_bool raw = Some b \<longleftrightarrow> \<not> asked raw (\<not> b)"
  by (simp add: asked_def)

lemma built_issues:
  assumes "try_from_input F i = Inr f"
  shows "issues_matches (flt_issues f) xs \<longleftrightarrow> issues_hold i xs"
  unfolding built_fields [OF assms] issues_matches_def issues_hold_def IssueFilter.simps any_wanted asked_iff by auto

lemma listed_iff: "listed raw codes \<longleftrightarrow> (given raw \<longrightarrow> to_ascii_uppercase ` set (csv_items raw) \<inter> codes \<noteq> {})"
  by (auto simp: listed_def)

lemma csv_listed:
  assumes "\<And>A. P (Some A) \<longleftrightarrow> A \<inter> codes \<noteq> {}" and "P None"
  shows "P (csv_values raw normalize_upper) \<longleftrightarrow> listed raw codes"
  using assms by (simp add: csv_values_upper listed_iff given_def)

lemma states_listed:
  fixes sections :: "'f UgcSection list"
  shows "matches_geo_states (csv_values raw normalize_upper) sections \<longleftrightarrow>
     listed raw {state. \<exists>s\<in>set sections. state \<in> fst ` set (counties s @ zones s @ fire_zones s @ marine_zones s)}"
proof (rule csv_listed [of "\<lambda>a. matches_geo_states a sections"])
  fix A
  have "list_ex (\<lambda>e. fst e \<in> A) (counties s) \<or> list_ex (\<lambda>e. fst e \<in> A) (zones s) \<or> list_ex (\<lambda>e. fst e \<in> A) (fire_zones s)
      \<or> list_ex (\<lambda>e. fst e \<in> A) (marine_zones s) \<longleftrightarrow>
      (\<exists>x\<in>A. x \<in> fst ` set (counties s @ zones s @ fire_zones s @ marine_zones s))" for s :: "'f UgcSection"
    by (force simp: list_ex_iff)
  then show "matches_geo_states (Some A) sections \<longleftrightarrow>
      A \<inter> {state. \<exists>s\<in>set sections. state \<in> fst ` set (counties s @ zones s @ fire_zones s @ marine_zones s)} \<noteq> {}"
    unfolding matches_geo_states_def option.case list_ex_iff [of _ sections] by (simp only:) blast
qed (simp add: matches_geo_states_def)

lemma codes_listed:
  "matches_enriched_ugc_codes (csv_values raw normalize_upper) sections select c \<longleftrightarrow> listed raw (area_codes c (map select sections))"
proof (rule csv_listed [of "\<lambda>a. matches_enriched_ugc_codes a sections select c"])
  fix A
  show "matches_enriched_ugc_codes (Some A) sections select c \<longleftrightarrow> A \<inter> area_codes c (map select sections) \<noteq> {}"
    unfolding matches_enriched_ugc_codes_def option.case list_ex_iff area_codes_def by (auto simp: case_prod_unfold) 
qed (simp add: matches_enriched_ugc_codes_def)

lemma built_geo:
  assumes "try_from_input F i = Inr f"
  shows "geo_matches (flt_geo f) body \<longleftrightarrow> geography_holds i (body_part body_ugc_sections body)"
proof (cases "body_part body_ugc_sections body = []")
  case True
  then have "geo_matches (flt_geo f) body \<longleftrightarrow> \<not> geo_has_constraints (flt_geo f)"
    by (auto simp: geo_matches_def body_part_def split: option.splits)
  also have "\<dots> \<longleftrightarrow> geography_holds i []"
    unfolding built_fields [OF assms] by (auto simp: geo_has_constraints_def geography_holds_def listed_def area_codes_def)
  finally show ?thesis using True by simp
next
  case False
  then obtain b where b: "body = Some b" "body_ugc_sections b \<noteq> []" by (cases body) (auto simp: body_part_def)
  show ?thesis
    unfolding built_fields [OF assms] geo_matches_def geo_has_constraints_def GeoFilter.simps states_listed codes_listed csv_given
    using b by (auto simp: geography_holds_def body_part_def listed_def Let_def)
qed

lemma significance_wanted:
  "matches_char_set (csv_values raw normalize_upper) c \<longleftrightarrow>
     (given raw \<longrightarrow> (\<exists>item\<in>set (csv_items raw). eq_ignore_ascii_case item [c]))"
proof -
  have "[ascii_upper c] = to_ascii_uppercase [c]" by (simp add: to_ascii_uppercase_def)
  then show ?thesis
    by (auto simp: matches_char_set_def csv_values_upper given_def uppercase_eq_iff [symmetric] image_iff) metis+
qed

lemma numbers_wanted: "matches_number_set ns n \<longleftrightarrow> (\<forall>s. ns = Some s \<longrightarrow> n \<in> s)"
  by (simp add: matches_number_set_def split: option.splits)

lemma built_vtec:
  assumes "try_from_input F i = Inr f"
  shows "vtec_matches (flt_vtec f) body \<longleftrightarrow> vtec_holds i (body_part body_vtec_codes body)"
proof -
  have code: "vtec_matches_code (flt_vtec f) c \<longleftrightarrow> wanted (in_vtec_phenomena i) (Some (vtec_phenomena c))
      \<and> (given (in_vtec_significance i) \<longrightarrow>
         (\<exists>item\<in>set (csv_items (in_vtec_significance i)). eq_ignore_ascii_case item [vtec_significance c]))
      \<and> wanted (in_vtec_action i) (Some (vtec_action c)) \<and> wanted (in_vtec_office i) (Some (vtec_office c))
      \<and> (\<forall>ns. csv_numbers (in_etn i) = Some ns \<longrightarrow> vtec_etn c \<in> ns)" for c
    unfolding built_fields [OF assms] vtec_matches_code_def by (simp add: significance_wanted numbers_wanted)
  have parts: "vf_phenomena (flt_vtec f) = None \<longleftrightarrow> \<not> given (in_vtec_phenomena i)"
    "vf_significance (flt_vtec f) = None \<longleftrightarrow> \<not> given (in_vtec_significance i)"
    "vf_action (flt_vtec f) = None \<longleftrightarrow> \<not> given (in_vtec_action i)" "vf_office (flt_vtec f) = None \<longleftrightarrow> \<not> given (in_vtec_office i)"
    "vf_etn (flt_vtec f) = csv_numbers (in_etn i)"
    unfolding built_fields [OF assms] by simp_all
  have "vtec_matches (flt_vtec f) body \<longleftrightarrow>
      (vtec_has_constraints (flt_vtec f) \<longrightarrow> (\<exists>c\<in>set (body_part body_vtec_codes body). vtec_matches_code (flt_vtec f) c))"
    by (auto simp: vtec_matches_def body_part_def list_ex_iff Let_def split: option.splits)
  then show ?thesis unfolding vtec_holds_def code vtec_has_constraints_def parts by simp
qed

lemma built_hvtec:
  assumes "try_from_input F i = Inr f"
  shows "hvtec_matches (flt_hvtec f) body \<longleftrightarrow> hvtec_holds i (body_part body_hvtec_codes body)"
proof -
  have code: "hvtec_matches_code (flt_hvtec f) c \<longleftrightarrow> wanted (in_hvtec_nwslid i) (Some (hv_nwslid c))
      \<and> wanted (in_hvtec_severity i) (Some (hvtec_severity_name (hv_severity c)))
      \<and> wanted (in_hvtec_cause i) (Some (hvtec_cause_name (hv_cause c)))
      \<and> wanted (in_hvtec_record i) (Some (hvtec_record_name (hv_record c)))" for c :: "'f NwslidEntry HvtecCode"
    unfolding built_fields [OF assms] hvtec_matches_code_def by simp
  have parts: "vh_present (flt_hvtec f) = parse_optional_bool (in_has_hvtec i)"
    "vh_nwslid (flt_hvtec f) = None \<longleftrightarrow> \<not> given (in_hvtec_nwslid i)" "vh_severity (flt_hvtec f) = None \<longleftrightarrow> \<not> given (in_hvtec_severity i)"
    "vh_cause (flt_hvtec f) = None \<longleftrightarrow> \<not> given (in_hvtec_cause i)" "vh_record (flt_hvtec f) = None \<longleftrightarrow> \<not> given (in_hvtec_record i)"
    unfolding built_fields [OF assms] by simp_all
  show ?thesis
    unfolding hvtec_matches_def hvtec_has_constraints_def parts hvtec_holds_def body_part_def [symmetric] Let_def
    by (auto simp: asked_def list_ex_iff code)
qed

lemma kinds_wanted:
  "(case csv_values raw normalize_lower of
      Some a \<Rightarrow> \<not> list_ex (\<lambda>e. wind_hail_kind_name (wh_kind e) \<in> a) xs | None \<Rightarrow> False) \<longleftrightarrow>
     given raw \<and> \<not> (\<exists>e\<in>set xs. wanted raw (Some (wind_hail_kind_name (wh_kind e))))"
proof -
  have name: "normalize_lower (wind_hail_kind_name k) = wind_hail_kind_name k" for k by (simp add: normalize_lower_def)
  show ?thesis
    using any_wanted [where raw = raw and g = "\<lambda>e. wind_hail_kind_name (wh_kind e)" and xs = xs]
    unfolding name by simp
qed

lemma wind_test:
  "(case least of
      Some m \<Rightarrow> \<not> list_ex (\<lambda>e. is_wind_entry e \<and> (case option_zip (wh_numeric_value e) (wh_units e) of
         Some (value, units) \<Rightarrow> f_le F m (wind_speed_mph F value units) | None \<Rightarrow> False)) xs
    | None \<Rightarrow> False) \<longleftrightarrow>
   \<not> (\<forall>m. least = Some m \<longrightarrow> (\<exists>e\<in>set xs. \<exists>v u. is_wind_entry e \<and> wh_numeric_value e = Some v \<and> wh_units e = Some u
        \<and> f_le F m (wind_speed_mph F v u)))"
proof -
  have "(case option_zip x y of Some (a, b) \<Rightarrow> P a b | None \<Rightarrow> False) \<longleftrightarrow> (\<exists>a b. x = Some a \<and> y = Some b \<and> P a b)" for x y and P :: "'a \<Rightarrow> string \<Rightarrow> bool"
    by (auto simp: option_zip_def split: option.splits)
  then show ?thesis by (simp add: list_ex_iff split: option.splits)
qed

lemma hail_test:
  "(case least of
      Some m \<Rightarrow> \<not> list_ex (\<lambda>e. is_hail_entry e \<and> (case wh_numeric_value e of Some value \<Rightarrow> f_le F m value | None \<Rightarrow> False)) xs
    | None \<Rightarrow> False) \<longleftrightarrow>
   \<not> (\<forall>m. least = Some m \<longrightarrow> (\<exists>e\<in>set xs. \<exists>v. is_hail_entry e \<and> wh_numeric_value e = Some v \<and> f_le F m v))"
proof -
  have "(case x of Some a \<Rightarrow> P a | None \<Rightarrow> False) \<longleftrightarrow> (\<exists>a. x = Some a \<and> P a)" for x and P :: "'a \<Rightarrow> bool"
    by (auto split: option.splits)
  then show ?thesis by (simp add: list_ex_iff split: option.splits)
qed

lemma built_wind_hail:
  assumes "try_from_input F i = Inr f"
  shows "wind_hail_matches F (flt_wind_hail f) body \<longleftrightarrow> wind_hail_holds F i (body_part body_wind_hail_entries body)"
proof (cases "body_part body_wind_hail_entries body")
  case Nil
  then show ?thesis
    unfolding built_fields [OF assms] wind_hail_matches_def wind_hail_has_constraints_def WindHailFilter.simps Let_def
      body_part_def [symmetric] wind_hail_holds_def
    by (auto simp: asked_def)
next
  case (Cons e es)
  then show ?thesis
    unfolding built_fields [OF assms] wind_hail_matches_def wind_hail_has_constraints_def WindHailFilter.simps Let_def
      body_part_def [symmetric] wind_hail_holds_def kinds_wanted wind_test hail_test csv_given
    by (simp add: asked_def)
qed

lemma presence_asked:
  "matches_optional_presence (parse_optional_bool raw) n \<longleftrightarrow> asked raw (n > 0)"
  by (auto simp: matches_optional_presence_def asked_def split: option.splits)

lemma body_lengths:
  "body_vtec_codes_len b = length (body_vtec_codes b)" "body_ugc_sections_len b = length (body_ugc_sections b)"
  "body_hvtec_codes_len b = length (body_hvtec_codes b)" "body_wind_hail_len b = length (body_wind_hail_entries b)"
  by (cases b; simp add: length_concat comp_def opt_list_def split: option.splits)+

lemma built_presence:
  assumes "try_from_input F i = Inr f"
  shows "presence_matches (flt_presence f) body \<longleftrightarrow> presence_holds i body"
  unfolding built_fields [OF assms] presence_matches_def BodyPresenceFilter.simps presence_asked presence_holds_def
  by (cases body) (simp_all add: map_or_0_def body_lengths)

lemma location_built:
  assumes "location_try_from_input F i = Inr l"
  shows "lf_center l = (case (in_lat i, in_lon i) of (Some la, Some lo) \<Rightarrow> Some \<lparr>pt_lat = la, pt_lon = lo\<rparr> | _ \<Rightarrow> None)"
    and "lf_center l \<noteq> None \<Longrightarrow>
      lf_distance_miles l = Some (case in_distance_miles i of Some d \<Rightarrow> d | None \<Rightarrow> f_lit F DEFAULT_DISTANCE_MILES)"
  using assms by (auto simp: location_try_from_input_def location_center_def split: if_splits option.splits)

lemma built_location:
  assumes "try_from_input F i = Inr f"
  shows "location_matches F (flt_location f) body \<longleftrightarrow> location_holds F i body"
proof -
  have loc: "location_try_from_input F i = Inr (flt_location f)" by (rule built_fields [OF assms])
  show ?thesis
  proof (cases "\<exists>la lo. in_lat i = Some la \<and> in_lon i = Some lo")
    case True
    then obtain la lo where at: "in_lat i = Some la" "in_lon i = Some lo" by blast
    then have "lf_center (flt_location f) = Some \<lparr>pt_lat = la, pt_lon = lo\<rparr>"
      "lf_distance_miles (flt_location f) =
        Some (case in_distance_miles i of Some d \<Rightarrow> d | None \<Rightarrow> f_lit F DEFAULT_DISTANCE_MILES)"
      using location_built [OF loc] by simp_all
    then show ?thesis
      using at by (auto simp: location_matches_def location_holds_def list_ex_iff Let_def split: option.splits)
  next
    case False
    then have "lf_center (flt_location f) = None"
      using location_built(1) [OF loc] by (auto split: option.splits)
    then show ?thesis using False by (auto simp: location_matches_def location_holds_def)
  qed
qed

text \<open>
  C37: the filter of the event stream decides the query: a filter built from query parameters accepts
  the metadata of a file whose name has no \<open>*\<close> in it exactly when the file name matches the wildcard pattern, the size is in the
  range and every listed value, truth value, threshold and location that was given holds of the
  product, where the constraints on event codes must hold together of one code, values are compared
  without regard to case and surrounding space, and list parameters without any value do not count.
\<close>

theorem filter_decides_query:
  assumes "try_from_input F i = Inr f" and "CHR ''*'' \<notin> set (meta_filename md)"
  shows "matches_metadata F f md \<longleftrightarrow> query_holds F i md"
proof -
  have "pattern_matches pat (meta_filename md) \<longleftrightarrow> glob (to_ascii_lowercase pat) (to_ascii_lowercase (meta_filename md))" for pat
    unfolding pattern_matches_def wildcard_match_glob [OF assms(2)] by simp
  then have "(case filename_pattern f of Some pat \<Rightarrow> \<not> pattern_matches pat (meta_filename md) | None \<Rightarrow> False) \<longleftrightarrow>
      \<not> (\<forall>pat. in_filename i = Some pat \<longrightarrow> glob (to_ascii_lowercase pat) (to_ascii_lowercase (meta_filename md)))"
    unfolding built_fields(1) [OF assms(1)] by (auto split: option.splits)
  then show ?thesis
    unfolding matches_metadata_def query_holds_def Let_def built_size [OF assms(1)] built_product [OF assms(1)]
      built_header [OF assms(1)] built_issues [OF assms(1)] built_location [OF assms(1)] built_presence [OF assms(1)]
      built_geo [OF assms(1)] built_vtec [OF assms(1)] built_hvtec [OF assms(1)] built_wind_hail [OF assms(1)]
    by argo
qed

text \<open>The event stream does not look at files when a query has no constraint; the filter would let all of them pass.\<close>

lemma unconstrained_matches:
  assumes "\<not> filter_has_constraints f"
  shows "matches_metadata F f md"
proof -
  have "filename_pattern f = None" using assms by (simp add: filter_has_constraints_def)
  moreover have "size_matches (flt_size f) n" for n
    using assms by (auto simp: filter_has_constraints_def size_has_constraints_def size_matches_def)
  moreover have "product_matches (flt_product f) p" for p :: "('a, 'b) ProductEnrichment"
    using assms by (auto simp: filter_has_constraints_def product_has_constraints_def product_matches_def
        matches_option_set_def matches_serialized_option_def)
  moreover have "header_matches (flt_header f) p" for p :: "('a, 'b) ProductEnrichment"
    using assms by (auto simp: filter_has_constraints_def header_matches_def)
  moreover have "issues_matches (flt_issues f) xs" for xs
    using assms by (auto simp: filter_has_constraints_def issues_has_constraints_def issues_matches_def)
  moreover have "location_matches F (flt_location f) b" for b
    using assms by (auto simp: filter_has_constraints_def location_has_constraints_def location_matches_def)
  moreover have "presence_matches (flt_presence f) b" for b :: "'a ProductBody option"
    using assms by (auto simp: filter_has_constraints_def presence_has_constraints_def presence_matches_def
        matches_optional_presence_def)
  moreover have "geo_matches (flt_geo f) b" for b :: "'a ProductBody option"
    using assms by (auto simp: filter_has_constraints_def geo_matches_def)
  moreover have "vtec_matches (flt_vtec f) b" for b :: "'a ProductBody option"
    using assms by (auto simp: filter_has_constraints_def vtec_matches_def)
  moreover have "hvtec_matches (flt_hvtec f) b" for b :: "'a ProductBody option"
    using assms by (auto simp: filter_has_constraints_def hvtec_matches_def)
  moreover have "wind_hail_matches F (flt_wind_hail f) b" for b
    using assms by (auto simp: filter_has_constraints_def wind_hail_matches_def)
  ultimately show ?thesis unfolding matches_metadata_def Let_def by simp
qed

subsection \<open>A query for tornado warnings\<close>

text \<open>Exact real arithmetic satisfies everything that the filter asks of floating-point numbers.\<close>

definition exact_ops :: "real f64_ops" where
  "exact_ops = \<lparr>f_lit = of_rat, f_add = (+), f_sub = (-), f_mul = (*), f_div = (/), f_min = min, f_max = max, f_abs = abs,
     f_le = (\<le>), f_lt = (<), f_is_finite = (\<lambda>_. True), f_to_radians = (\<lambda>x. x * pi / 180), f_sin = sin, f_cos = cos,
     f_sqrt = sqrt, f_atan2 = (\<lambda>y x. 2 * arctan (y / (sqrt (x\<^sup>2 + y\<^sup>2) + x)))\<rparr>"

definition no_parameters :: "'f FileFilterInput" where
  "no_parameters =
     \<lparr>in_filename = None, in_source = None, in_pil = None, in_family = None, in_container = None,
      in_wmo_prefix = None, in_office = None, in_office_city = None, in_office_state = None, in_bbb_kind = None,
      in_cccc = None, in_ttaaii = None, in_afos = None, in_bbb = None, in_has_issues = None,
      in_issue_kind = None, in_issue_code = None, in_has_vtec = None, in_has_ugc = None, in_has_hvtec = None,
      in_has_latlon = None, in_has_time_mot_loc = None, in_has_wind_hail = None, in_state = None,
      in_county = None, in_zone = None, in_fire_zone = None, in_marine_zone = None, in_vtec_phenomena = None,
      in_vtec_significance = None, in_vtec_action = None, in_vtec_office = None, in_etn = None,
      in_hvtec_nwslid = None, in_hvtec_severity = None, in_hvtec_cause = None, in_hvtec_record = None,
      in_wind_hail_kind = None, in_lat = None, in_lon = None, in_distance_miles = None, in_min_wind_mph = None,
      in_min_hail_inches = None, in_min_size = None, in_max_size = None\<rparr>"

definition tornado_query :: "real FileFilterInput" where
  "tornado_query = no_parameters\<lparr>in_filename := Some ''tor*.txt'', in_pil := Some ''tor,svr'', in_max_size := Some 100\<rparr>"

definition tornado_warning :: "((real, unit) ProductEnrichment, unit, unit) CompletedFileMetadata" where
  "tornado_warning =
     \<lparr>meta_filename = ''TOROAX.TXT'', meta_size = 12, meta_timestamp_utc = 0, meta_origin = OriginQbt,
      meta_product = \<lparr>pe_source = TextHeader, pe_family = None, pe_title = None, pe_container = ''raw'', pe_pil = Some ''TOR'',
        pe_wmo_prefix = None, pe_office = None, pe_header = None, pe_wmo_header = None, pe_bbb_kind = None, pe_body = None,
        pe_parsed = None, pe_issues = []\<rparr>,
      meta_summary = (), meta_detail = ()\<rparr>"

lemma no_parameters_items [simp]: "csv_items None = []" "csv_numbers None = None" "parse_optional_bool None = None"
  by (simp_all add: csv_items_def csv_numbers_def parse_optional_bool_def map_filter_simps)

theorem filter_decides_query_witness:
  "\<exists>f. try_from_input exact_ops tornado_query = Inr f \<and> matches_metadata exact_ops f tornado_warning"
proof -
  let ?i = tornado_query and ?md = tornado_warning
  note query = tornado_query_def no_parameters_def and warning = tornado_warning_def
  have built: "\<exists>f. try_from_input exact_ops ?i = Inr f"
    by (simp add: query try_from_input_def location_try_from_input_def location_center_def size_range_reversed_def option_zip_def)
  then obtain f where f: "try_from_input exact_ops ?i = Inr f" by blast
  have lower: "to_ascii_lowercase ''tor*.txt'' = ''tor*.txt''" "to_ascii_lowercase ''TOROAX.TXT'' = ''toroax.txt''"
    "to_ascii_lowercase ''TOR'' = ''tor''" "to_ascii_lowercase ''tor'' = ''tor''"
    by (simp_all add: to_ascii_lowercase_def ascii_lower_def is_ascii_uppercase_def char_of_def bit_0)
  have items: "csv_items (Some ''tor,svr'') = [''tor'', ''svr'']"
    by (simp add: csv_items_def trim_graphic is_graphic_def)
  have tor: "trim ''TOR'' = ''TOR''" "eq_ignore_ascii_case ''tor'' ''TOR''"
    by (simp_all add: trim_graphic is_graphic_def eq_ignore_ascii_case_def lower)
  have "glob (to_ascii_lowercase ''tor*.txt'') (to_ascii_lowercase ''TOROAX.TXT'')"
    by (simp add: lower glob.simps)
  then have "query_holds exact_ops ?i ?md"
    by (simp add: query warning query_holds_def product_holds_def header_holds_def issues_hold_def location_holds_def
        presence_holds_def geography_holds_def vtec_holds_def hvtec_holds_def wind_hail_holds_def wanted_def given_def
        asked_def listed_def body_part_def items tor) (use tor(2) in blast)
  then show ?thesis using f filter_decides_query [OF f, of ?md] by (auto simp: warning)
qed

end
