(* ===== verification/Live_Server.thy ===== *)
theory Live_Server
  imports File_Filter Blob_Store
begin

text \<open>
  The live server (\<open>emwin-cli/src/live/server.rs\<close>, \<open>server/types.rs\<close>, \<open>server/server_ingest.rs\<close>,
  \<open>server/server_http.rs\<close>, \<open>cmd/event_output.rs\<close>): ingest events become retained files, persistence
  requests and broadcast events, and HTTP clients list and download files and follow the event
  stream.

  Every HTTP handler and every ingest event runs without waiting, so that it is one step on the
  shared state; a stream waits in \<open>recv\<close>, and each answer of \<open>recv\<close> is one step. The broadcast
  channel is represented by everything that was sent and by the position of each receiver; what
  \<open>recv\<close> answers at a position is a parameter, as are the serializers and \<open>Debug\<close> texts that
  \<open>serde\<close> and the compiler derive. Log lines are left out.
\<close>

subsection \<open>JSON values\<close>

datatype json = JStr string | JNat nat | JArr "json list" | JObj "(string \<times> json) list"

text \<open>
  The derived serializers of the parser's results, of telemetry and of the whole metadata, the
  \<open>Debug\<close> texts and \<open>serde_json::to_string\<close>.
\<close>

record ('p, 's) render_ext =
  product_json :: "'p \<Rightarrow> json option"
  summary_json :: "'s \<Rightarrow> json option"
  qbt_telemetry_json :: "QbtReceiverTelemetrySnapshot \<Rightarrow> json option"
  wx_telemetry_json :: "WxWireReceiverTelemetrySnapshot \<Rightarrow> json option"
  debug_version :: "QbtProtocolVersion \<Rightarrow> string"
  debug_qbt_warning :: "QbtProtocolWarning \<Rightarrow> string"
  debug_wx_warning :: "WxWireReceiverWarning \<Rightarrow> string"
  json_text :: "json \<Rightarrow> string option"

definition unix_seconds :: "system_time \<Rightarrow> nat" where
  "unix_seconds time = nat time div 10 ^ 9"

definition endpoint_json :: "endpoint \<Rightarrow> json" where
  "endpoint_json e = JArr [JStr (fst e), JNat (unat (snd e))]"

subsection \<open>event\_output.rs\<close>

fun frame_event_name :: "QbtFrameEvent \<Rightarrow> string" where
  "frame_event_name (DataBlock _) = ''data_block''"
| "frame_event_name (ServerListUpdate _) = ''server_list''"
| "frame_event_name (Warning _) = ''warning''"

definition is_text_like :: "string \<Rightarrow> bool" where
  "is_text_like filename =
     (let upper = to_ascii_uppercase filename
      in ends_with upper ''.TXT'' \<or> ends_with upper ''.WMO'' \<or> ends_with upper ''.XML'' \<or> ends_with upper ''.JSON'')"

text \<open>
  The loop over the characters. Only ASCII characters are kept, and these are the bytes below 128
  whatever the other bytes decode to, so that the loop runs over bytes.
\<close>

fun preview_chars :: "usize \<Rightarrow> byte list \<Rightarrow> string \<Rightarrow> string" where
  "preview_chars max_chars [] normalized = normalized"
| "preview_chars max_chars (b # bs) normalized =
     (if length normalized \<ge> max_chars then normalized
      else preview_chars max_chars bs
        (normalized @ (if 33 \<le> b \<and> b \<le> 126 then [char_of (unat b)] else if is_ascii_whitespace b then '' '' else [])))"

text \<open>\<open>split_whitespace().collect().join(" ")\<close> on text whose only white space is the blank.\<close>

definition join_words :: "string \<Rightarrow> string" where
  "join_words s = concat (map (\<lambda>(i, w). if i = 0 then w else '' '' @ w) (enumerate 0 (filter (\<lambda>w. w \<noteq> []) (split_on (CHR '' '') s))))"

definition text_preview :: "string \<Rightarrow> byte list \<Rightarrow> usize \<Rightarrow> string option" where
  "text_preview filename bytes max_chars =
     (if max_chars = 0 \<or> \<not> is_text_like filename then None
      else let normalized = join_words (preview_chars max_chars bytes [])
           in if normalized = [] then None else Some normalized)"

definition frame_event_to_json ::
    "('p, 's, 'd) parser_ext \<Rightarrow> ('p, 's) render_ext \<Rightarrow> QbtFrameEvent \<Rightarrow> usize \<Rightarrow> json" where
  "frame_event_to_json X R event text_preview_chars =
     (case event of
        DataBlock seg \<Rightarrow>
          JObj ([(''type'', JStr ''data_block''), (''filename'', JStr (seg_filename seg)),
                 (''block_number'', JNat (unat (seg_block_number seg))), (''total_blocks'', JNat (unat (seg_total_blocks seg))),
                 (''length'', JNat (length (seg_content seg))), (''version'', JStr (debug_version R (seg_version seg))),
                 (''timestamp_utc'', JNat (unix_seconds (seg_timestamp_utc seg)))]
            @ (case text_preview (seg_filename seg) (seg_content seg) text_preview_chars of
                 Some preview \<Rightarrow> [(''preview'', JStr preview)] | None \<Rightarrow> [])
            @ (case product_json R (enrich_product X (seg_filename seg) (seg_content seg)) of
                 Some product \<Rightarrow> [(''product'', product)] | None \<Rightarrow> []))
      | ServerListUpdate list \<Rightarrow>
          JObj [(''type'', JStr ''server_list''), (''servers'', JArr (map endpoint_json (servers list))),
                (''sat_servers'', JArr (map endpoint_json (sat_servers list)))]
      | Warning w \<Rightarrow> JObj [(''type'', JStr ''warning''), (''warning'', JStr (debug_qbt_warning R w))])"

subsection \<open>types.rs: events\<close>

record 'm CompletedFilePayload =
  cfp_metadata :: 'm
  cfp_download_url :: string

definition payload_from_metadata ::
    "('p, 's, 'd) CompletedFileMetadata \<Rightarrow> ('p, 's, 'd) CompletedFileMetadata CompletedFilePayload" where
  "payload_from_metadata metadata =
     \<lparr>cfp_metadata = metadata, cfp_download_url = file_download_url (meta_filename metadata)\<rparr>"

record 'm CompletedFileEventPayload =
  cfe_metadata :: 'm
  cfe_download_url :: string

definition event_payload_from_metadata ::
    "('p, 's, 'd) CompletedFileMetadata \<Rightarrow> ('p, 's, 'd) CompletedFileMetadata CompletedFileEventPayload" where
  "event_payload_from_metadata metadata =
     \<lparr>cfe_metadata = metadata, cfe_download_url = file_download_url (meta_filename metadata)\<rparr>"

definition event_payload_json ::
    "('p, 's) render_ext \<Rightarrow> ('p, 's, 'd) CompletedFileMetadata CompletedFileEventPayload \<Rightarrow> json option" where
  "event_payload_json R file =
     (let metadata = cfe_metadata file
      in map_option (\<lambda>summary.
           JObj [(''filename'', JStr (meta_filename metadata)), (''size'', JNat (meta_size metadata)),
                 (''timestamp_utc'', JNat (meta_timestamp_utc metadata)), (''product'', summary),
                 (''download_url'', JStr (cfe_download_url file))])
           (summary_json R (meta_summary metadata)))"

datatype TelemetryPayload =
    TpUnavailable
  | TpQbt QbtReceiverTelemetrySnapshot
  | TpWxWire WxWireReceiverTelemetrySnapshot

text \<open>\<open>#[serde(tag = "receiver")]\<close>: the name of the variant is a field beside those of the snapshot.\<close>

definition tagged :: "string \<Rightarrow> json option \<Rightarrow> json option" where
  "tagged name v = (case v of Some (JObj members) \<Rightarrow> Some (JObj ((''receiver'', JStr name) # members)) | _ \<Rightarrow> None)"

fun telemetry_json :: "('p, 's) render_ext \<Rightarrow> TelemetryPayload \<Rightarrow> json option" where
  "telemetry_json R TpUnavailable = Some (JObj [(''receiver'', JStr ''unavailable'')])"
| "telemetry_json R (TpQbt snapshot) = tagged ''qbt'' (qbt_telemetry_json R snapshot)"
| "telemetry_json R (TpWxWire snapshot) = tagged ''wx_wire'' (wx_telemetry_json R snapshot)"

record MetricsPayload =
  mp_telemetry :: TelemetryPayload
  mp_persistence :: "PersistenceStats option"

definition metrics_json :: "('p, 's) render_ext \<Rightarrow> MetricsPayload \<Rightarrow> json option" where
  "metrics_json R payload =
     (case telemetry_json R (mp_telemetry payload) of
        Some (JObj telemetry_fields) \<Rightarrow>
          Some (JObj (telemetry_fields @
            (case mp_persistence payload of
               Some p \<Rightarrow>
                 [(''persistence_queue_len'', JNat (queue_len p)), (''persistence_queue_capacity'', JNat (stat_capacity p)),
                  (''persistence_enqueued_total'', JNat (unat (enqueued_total p))),
                  (''persistence_evicted_total'', JNat (unat (evicted_total p))),
                  (''persistence_persisted_total'', JNat (unat (persisted_total p))),
                  (''persistence_failed_total'', JNat (unat (failed_total p)))]
             | None \<Rightarrow> [])))
      | _ \<Rightarrow> None)"

datatype 'm EventKind =
    EvConnected string
  | EvDisconnected
  | EvQbtFrame QbtFrameEvent
  | EvWxWireFrame WxWireReceiverFrameEvent
  | EvFileComplete "'m CompletedFileEventPayload"
  | EvTelemetry TelemetryPayload
  | EvError string

record 'm BroadcastEvent =
  ev_id :: u64
  ev_kind :: "'m EventKind"

fun event_name :: "'m EventKind \<Rightarrow> string" where
  "event_name (EvConnected _) = ''connected''"
| "event_name EvDisconnected = ''disconnected''"
| "event_name (EvQbtFrame frame) = frame_event_name frame"
| "event_name (EvWxWireFrame (WxFile _)) = ''file''"
| "event_name (EvWxWireFrame (WxWarning _)) = ''warning''"
| "event_name (EvFileComplete _) = ''file_complete''"
| "event_name (EvTelemetry _) = ''telemetry''"
| "event_name (EvError _) = ''error''"

definition or_empty :: "json option \<Rightarrow> json" where
  "or_empty v = (case v of Some j \<Rightarrow> j | None \<Rightarrow> JObj [])"

fun to_json ::
    "('p, 's, 'd) parser_ext \<Rightarrow> ('p, 's) render_ext \<Rightarrow> ('p, 's, 'd) CompletedFileMetadata EventKind \<Rightarrow> json" where
  "to_json X R (EvConnected endpoint) = JObj [(''endpoint'', JStr endpoint)]"
| "to_json X R EvDisconnected = JObj []"
| "to_json X R (EvQbtFrame frame) = frame_event_to_json X R frame 0"
| "to_json X R (EvWxWireFrame (WxFile file)) =
     JObj [(''type'', JStr ''file''), (''filename'', JStr (wx_filename file)), (''length'', JNat (length (wx_data file))),
           (''subject'', JStr (wx_subject file)), (''id'', JStr (wx_id file)), (''issue_utc'', JNat (unix_seconds (wx_issue_utc file))),
           (''ttaaii'', JStr (wx_ttaaii file)), (''cccc'', JStr (wx_cccc file)), (''awipsid'', JStr (wx_awipsid file))]"
| "to_json X R (EvWxWireFrame (WxWarning warning)) =
     JObj [(''type'', JStr ''warning''), (''warning'', JStr (debug_wx_warning R warning))]"
| "to_json X R (EvFileComplete file) = or_empty (event_payload_json R file)"
| "to_json X R (EvTelemetry snapshot) = or_empty (telemetry_json R snapshot)"
| "to_json X R (EvError message) = JObj [(''message'', JStr message)]"

subsection \<open>types.rs: queries\<close>

record 'f EventsQuery =
  q_event :: "string option"
  q_filename :: "string option"
  q_source :: "string option"
  q_pil :: "string option"
  q_family :: "string option"
  q_container :: "string option"
  q_wmo_prefix :: "string option"
  q_office :: "string option"
  q_office_city :: "string option"
  q_office_state :: "string option"
  q_bbb_kind :: "string option"
  q_cccc :: "string option"
  q_ttaaii :: "string option"
  q_afos :: "string option"
  q_bbb :: "string option"
  q_has_issues :: "string option"
  q_issue_kind :: "string option"
  q_issue_code :: "string option"
  q_has_vtec :: "string option"
  q_has_ugc :: "string option"
  q_has_hvtec :: "string option"
  q_has_latlon :: "string option"
  q_has_time_mot_loc :: "string option"
  q_has_wind_hail :: "string option"
  q_state :: "string option"
  q_county :: "string option"
  q_zone :: "string option"
  q_fire_zone :: "string option"
  q_marine_zone :: "string option"
  q_vtec_phenomena :: "string option"
  q_vtec_significance :: "string option"
  q_vtec_action :: "string option"
  q_vtec_office :: "string option"
  q_etn :: "string option"
  q_hvtec_nwslid :: "string option"
  q_hvtec_severity :: "string option"
  q_hvtec_cause :: "string option"
  q_hvtec_record :: "string option"
  q_wind_hail_kind :: "string option"
  q_lat :: "'f option"
  q_lon :: "'f option"
  q_distance_miles :: "'f option"
  q_min_wind_mph :: "'f option"
  q_min_hail_inches :: "'f option"
  q_min_size :: "usize option"
  q_max_size :: "usize option"

definition input_from_query :: "'f EventsQuery \<Rightarrow> 'f FileFilterInput" where
  "input_from_query query =
     \<lparr>in_filename = q_filename query, in_source = q_source query, in_pil = q_pil query,
      in_family = q_family query, in_container = q_container query, in_wmo_prefix = q_wmo_prefix query,
      in_office = q_office query, in_office_city = q_office_city query, in_office_state = q_office_state query,
      in_bbb_kind = q_bbb_kind query, in_cccc = q_cccc query, in_ttaaii = q_ttaaii query, in_afos = q_afos query,
      in_bbb = q_bbb query, in_has_issues = q_has_issues query, in_issue_kind = q_issue_kind query,
      in_issue_code = q_issue_code query, in_has_vtec = q_has_vtec query, in_has_ugc = q_has_ugc query,
      in_has_hvtec = q_has_hvtec query, in_has_latlon = q_has_latlon query,
      in_has_time_mot_loc = q_has_time_mot_loc query, in_has_wind_hail = q_has_wind_hail query,
      in_state = q_state query, in_county = q_county query, in_zone = q_zone query,
      in_fire_zone = q_fire_zone query, in_marine_zone = q_marine_zone query,
      in_vtec_phenomena = q_vtec_phenomena query, in_vtec_significance = q_vtec_significance query,
      in_vtec_action = q_vtec_action query, in_vtec_office = q_vtec_office query, in_etn = q_etn query,
      in_hvtec_nwslid = q_hvtec_nwslid query, in_hvtec_severity = q_hvtec_severity query,
      in_hvtec_cause = q_hvtec_cause query, in_hvtec_record = q_hvtec_record query,
      in_wind_hail_kind = q_wind_hail_kind query, in_lat = q_lat query, in_lon = q_lon query,
      in_distance_miles = q_distance_miles query, in_min_wind_mph = q_min_wind_mph query,
      in_min_hail_inches = q_min_hail_inches query, in_min_size = q_min_size query,
      in_max_size = q_max_size query\<rparr>"

record 'f EventFilter =
  event_names :: "string set option"
  filter_file :: "'f FileEventFilter"

definition try_from_query :: "'f f64_ops \<Rightarrow> 'f EventsQuery \<Rightarrow> string + 'f EventFilter" where
  "try_from_query F query =
     (let names = csv_values (q_event query) normalize_lower
      in case try_from_input F (input_from_query query) of
           Inl e \<Rightarrow> Inl e
         | Inr f \<Rightarrow> Inr \<lparr>event_names = names, filter_file = f\<rparr>)"

type_synonym ('f, 'a, 's, 'd) file_metadata = "(('f, 'a) ProductEnrichment, 's, 'd) CompletedFileMetadata"

definition event_matches_filter :: "'f f64_ops \<Rightarrow> 'f EventFilter \<Rightarrow> ('f, 'a, 's, 'd) file_metadata EventKind \<Rightarrow> bool" where
  "event_matches_filter F f event =
     (if (case event_names f of Some names \<Rightarrow> normalize_lower (event_name event) \<notin> names | None \<Rightarrow> False) then False
      else if \<not> filter_has_constraints (filter_file f) then True
      else (case event of
              EvFileComplete p \<Rightarrow> matches_metadata F (filter_file f) (cfe_metadata p)
            | _ \<Rightarrow> False))"

subsection \<open>The shared state\<close>

text \<open>\<open>event_sent\<close> is everything that was sent to \<open>event_tx\<close>; \<open>persistence\<close> is the queue behind the producer.\<close>

record ('p, 's, 'd) AppState =
  event_sent :: "('p, 's, 'd) CompletedFileMetadata BroadcastEvent list"
  app_files :: "('p, 's, 'd) RetainedFiles"
  app_telemetry :: TelemetryPayload
  app_persistence :: "('p, 's, 'd) CompletedFileMetadata SharedQueue option"
  connected_clients :: usize
  max_clients :: usize
  next_event_id :: u64
  data_blocks_total :: u64
  received_servers :: usize
  received_sat_servers :: usize
  started_at :: instant
  upstream_endpoint :: "string option"
  app_quiet :: bool

definition SERVER_EVENT_CHANNEL_CAPACITY :: usize where
  "SERVER_EVENT_CHANNEL_CAPACITY = 4096"

text \<open>The state that \<open>run\<close> builds from its options.\<close>

definition app_state_new ::
    "usize \<Rightarrow> nat \<Rightarrow> usize \<Rightarrow> ('p, 's, 'd) CompletedFileMetadata SharedQueue option \<Rightarrow> instant \<Rightarrow> bool \<Rightarrow> ('p, 's, 'd) AppState" where
  "app_state_new max_retained_files file_retention_secs clients queue now quiet =
     \<lparr>event_sent = [], app_files = retained_new (max max_retained_files 1) (max file_retention_secs 1 * 10 ^ 9),
      app_telemetry = TpUnavailable, app_persistence = queue, connected_clients = 0, max_clients = max clients 1,
      next_event_id = 1, data_blocks_total = 0, received_servers = 0, received_sat_servers = 0, started_at = now,
      upstream_endpoint = None, app_quiet = quiet\<rparr>"

definition publish ::
    "('p, 's, 'd) CompletedFileMetadata EventKind \<Rightarrow> ('p, 's, 'd) AppState \<Rightarrow> ('p, 's, 'd) AppState" where
  "publish kind state =
     (let id = next_event_id state
      in state\<lparr>next_event_id := id + 1, event_sent := event_sent state @ [\<lparr>ev_id = id, ev_kind = kind\<rparr>]\<rparr>)"

subsection \<open>server\_ingest.rs\<close>

text \<open>
  One product. \<open>completed_at\<close> and \<open>now\<close> are the two readings of the clock, \<open>json\<close> serializes metadata
  for the store. An error is passed on by the caller and ends the ingest loop.
\<close>

definition handle_product ::
    "('p, 's, 'd) parser_ext \<Rightarrow> zip_ext \<Rightarrow> (('p, 's, 'd) CompletedFileMetadata \<Rightarrow> string + byte list) \<Rightarrow> bool
      \<Rightarrow> system_time \<times> system_time \<Rightarrow> ReceivedProduct \<Rightarrow> ('p, 's, 'd) AppState \<Rightarrow> (string + unit) \<times> ('p, 's, 'd) AppState" where
  "handle_product X Z json post_process_archives clock product state =
     (let (completed_at, now) = clock;
          s1 = (if prod_origin product = OriginQbt
                then state\<lparr>data_blocks_total := data_blocks_total state + 1\<rparr> else state)
      in case post_process_archive Z post_process_archives (prod_filename product) (prod_data product) of
           Inl err \<Rightarrow> (Inr (), s1)
         | Inr delivered \<Rightarrow>
             let timestamp_utc = unix_seconds (prod_source_timestamp_utc product);
                 (retained_meta, files) = retained_insert X now (del_filename delivered) (del_data delivered) timestamp_utc
                   (prod_origin product) completed_at (app_files s1);
                 s2 = s1\<lparr>app_files := files\<rparr>;
                 event = EvFileComplete (event_payload_from_metadata retained_meta)
             in case app_persistence s2 of
                  None \<Rightarrow> (Inr (), publish event s2)
                | Some queue \<Rightarrow>
                    (case enqueue_completed_product json (del_filename delivered) (del_data delivered) retained_meta queue of
                       (Inl e, queue') \<Rightarrow> (Inl e, s2\<lparr>app_persistence := Some queue'\<rparr>)
                     | (Inr queued, queue') \<Rightarrow> (Inr (), publish event (s2\<lparr>app_persistence := Some queue'\<rparr>))))"

fun telemetry_payload :: "IngestTelemetry \<Rightarrow> TelemetryPayload" where
  "telemetry_payload (TelemetryQbt value) = TpQbt value"
| "telemetry_payload (TelemetryWxWire value) = TpWxWire value"

fun handle_ingest_event ::
    "('p, 's, 'd) parser_ext \<Rightarrow> zip_ext \<Rightarrow> (('p, 's, 'd) CompletedFileMetadata \<Rightarrow> string + byte list) \<Rightarrow> bool
      \<Rightarrow> system_time \<times> system_time \<Rightarrow> ingest_item \<Rightarrow> ('p, 's, 'd) AppState \<Rightarrow> (string + unit) \<times> ('p, 's, 'd) AppState" where
  "handle_ingest_event X Z json archives clock (Inr (IngestConnected endpoint)) state =
     (Inr (), publish (EvConnected endpoint) (state\<lparr>upstream_endpoint := Some endpoint\<rparr>))"
| "handle_ingest_event X Z json archives clock (Inr IngestDisconnected) state =
     (Inr (), publish EvDisconnected (state\<lparr>upstream_endpoint := None\<rparr>))"
| "handle_ingest_event X Z json archives clock (Inr (IngestTelemetry snapshot)) state =
     (let value = telemetry_payload snapshot in (Inr (), publish (EvTelemetry value) (state\<lparr>app_telemetry := value\<rparr>)))"
| "handle_ingest_event X Z json archives clock (Inr (Product product)) state =
     handle_product X Z json archives clock product state"
| "handle_ingest_event X Z json archives clock (Inr (IngestWarning (WarningQbt value))) state =
     (Inr (), publish (EvQbtFrame (Warning value)) state)"
| "handle_ingest_event X Z json archives clock (Inr (IngestWarning (WarningWxWire value))) state =
     (Inr (), publish (EvWxWireFrame (WxWarning value)) state)"
| "handle_ingest_event X Z json archives clock (Inl err) state =
     (Inr (), publish (EvError (ingest_error_text err)) state)"

record ServerStatsSnapshot =
  ss_uptime_secs :: nat
  ss_data_blocks_total :: u64
  ss_received_servers :: usize
  ss_received_sat_servers :: usize
  ss_retained_files :: usize
  ss_connected_clients :: usize
  ss_upstream :: string
  ss_persistence :: "PersistenceStats option"

definition build_server_stats_snapshot ::
    "instant \<Rightarrow> system_time \<Rightarrow> ('p, 's, 'd) AppState \<Rightarrow> ServerStatsSnapshot \<times> ('p, 's, 'd) AppState" where
  "build_server_stats_snapshot elapsed now state =
     (let (count, files) = retained_len now (app_files state)
      in (\<lparr>ss_uptime_secs = elapsed div 10 ^ 9, ss_data_blocks_total = data_blocks_total state,
           ss_received_servers = received_servers state, ss_received_sat_servers = received_sat_servers state,
           ss_retained_files = count, ss_connected_clients = connected_clients state,
           ss_upstream = (case upstream_endpoint state of Some e \<Rightarrow> e | None \<Rightarrow> ''disconnected''),
           ss_persistence = map_option stats_snapshot (app_persistence state)\<rparr>,
          state\<lparr>app_files := files\<rparr>))"

subsection \<open>server\_http.rs: requests\<close>

datatype reject = RejectTooMany | RejectBadRequest string

text \<open>A stream: where its receiver is in the channel, and its state. Its \<open>ClientGuard\<close> lives as long as it does.\<close>

record 'f StreamState =
  st_pos :: nat
  st_last_id :: u64
  st_filter :: "'f EventFilter"
  st_peer :: string

text \<open>\<open>header\<close> is the text of \<open>last-event-id\<close> if the request has one that is visible ASCII.\<close>

definition query_size_reversed :: "'f EventsQuery \<Rightarrow> bool" where
  "query_size_reversed query =
     (case option_zip (q_min_size query) (q_max_size query) of Some (least, most) \<Rightarrow> least > most | None \<Rightarrow> False)"

definition events_handler ::
    "'f f64_ops \<Rightarrow> string \<Rightarrow> string option \<Rightarrow> 'f EventsQuery \<Rightarrow> ('p, 's, 'd) AppState
      \<Rightarrow> (reject + 'f StreamState) \<times> ('p, 's, 'd) AppState" where
  "events_handler F peer header query state =
     (if \<not> connected_clients state < max_clients state then (Inl RejectTooMany, state)
      else
        let s1 = state\<lparr>connected_clients := connected_clients state + 1\<rparr>;
            rx = length (event_sent s1);
            last_id = (case Option.bind header parse_word of Some v \<Rightarrow> v | None \<Rightarrow> 0)
        in if query_size_reversed query
           then (Inl (RejectBadRequest ''min_size must be less than or equal to max_size''), s1)
           else case try_from_query F query of
                  Inl e \<Rightarrow> (Inl (RejectBadRequest e), s1)
                | Inr f \<Rightarrow> (Inr \<lparr>st_pos = rx, st_last_id = last_id, st_filter = f, st_peer = peer\<rparr>, s1))"

definition drop_client_guard :: "('p, 's, 'd) AppState \<Rightarrow> ('p, 's, 'd) AppState" where
  "drop_client_guard state = state\<lparr>connected_clients := connected_clients state - 1\<rparr>"

definition files_handler ::
    "system_time \<Rightarrow> ('p, 's, 'd) AppState
      \<Rightarrow> ('p, 's, 'd) CompletedFileMetadata CompletedFilePayload list \<times> ('p, 's, 'd) AppState" where
  "files_handler now state =
     (let (metas, files) = retained_list now (app_files state)
      in (map payload_from_metadata metas, state\<lparr>app_files := files\<rparr>))"

definition file_download_handler ::
    "(string \<Rightarrow> bool) \<Rightarrow> system_time \<Rightarrow> string \<Rightarrow> ('p, 's, 'd) AppState
      \<Rightarrow> (status_code + (string \<times> string) list \<times> byte list) \<times> ('p, 's, 'd) AppState" where
  "file_download_handler valid_header now filename state =
     (case filename_request_or_400 filename of
        Inl status \<Rightarrow> (Inl status, state)
      | Inr normalized \<Rightarrow>
          let (found, files) = retained_get now normalized (app_files state); s1 = state\<lparr>app_files := files\<rparr>
          in case found of
               None \<Rightarrow> (Inl NOT_FOUND, s1)
             | Some f \<Rightarrow> (Inr (build_file_download_response valid_header f), s1))"

record HealthResponse =
  health_status :: string
  health_clients :: usize
  health_files :: usize
  health_uptime_secs :: nat
  health_upstream :: "string option"

definition health_handler ::
    "instant \<Rightarrow> system_time \<Rightarrow> ('p, 's, 'd) AppState \<Rightarrow> HealthResponse \<times> ('p, 's, 'd) AppState" where
  "health_handler elapsed now state =
     (let (count, files) = retained_len now (app_files state)
      in (\<lparr>health_status = ''ok'', health_clients = connected_clients state, health_files = count,
           health_uptime_secs = elapsed div 10 ^ 9, health_upstream = upstream_endpoint state\<rparr>,
          state\<lparr>app_files := files\<rparr>))"

definition metrics_handler :: "('p, 's, 'd) AppState \<Rightarrow> MetricsPayload" where
  "metrics_handler state =
     \<lparr>mp_telemetry = app_telemetry state, mp_persistence = map_option stats_snapshot (app_persistence state)\<rparr>"

subsection \<open>server\_http.rs: the event stream\<close>

datatype 'e received = RecvEvent 'e | RecvLagged nat | RecvClosed | RecvPending

text \<open>What the stream yields: an event with its id, name and data, or the warning about dropped events.\<close>

datatype sse = SseEvent u64 string string | SseLagged nat string

datatype 'st stream_outcome = StreamEnds | StreamWaits 'st | StreamYields sse 'st

definition sse_event ::
    "('p, 's, 'd) parser_ext \<Rightarrow> ('p, 's) render_ext \<Rightarrow> ('p, 's, 'd) CompletedFileMetadata BroadcastEvent \<Rightarrow> sse" where
  "sse_event X R event =
     SseEvent (ev_id event) (event_name (ev_kind event))
       (case json_text R (to_json X R (ev_kind event)) of Some payload \<Rightarrow> payload | None \<Rightarrow> ''{}'')"

fun stream_received ::
    "'f f64_ops \<Rightarrow> (('f, 'a) ProductEnrichment, 's, 'd) parser_ext \<Rightarrow> (('f, 'a) ProductEnrichment, 's) render_ext
      \<Rightarrow> ('f, 'a, 's, 'd) file_metadata BroadcastEvent received \<Rightarrow> 'f StreamState \<Rightarrow> 'f StreamState stream_outcome" where
  "stream_received F X R (RecvEvent event) st =
     (if ev_id event \<le> st_last_id st then StreamWaits st
      else if \<not> event_matches_filter F (st_filter st) (ev_kind event) then StreamWaits st
      else StreamYields (sse_event X R event) (st\<lparr>st_last_id := ev_id event\<rparr>))"
| "stream_received F X R RecvClosed st = StreamEnds"
| "stream_received F X R (RecvLagged dropped) st = StreamYields (SseLagged dropped (st_peer st)) st"
| "stream_received F X R RecvPending st = StreamWaits st"

subsection \<open>Interleavings\<close>

text \<open>
  The tasks of the server as one sequence of events: an item from the ingest receiver, requests, an
  answer of \<open>recv\<close> to the stream of a connection, and the end of a stream because of the shutdown
  signal or because the client is gone. \<open>srv_ingesting\<close> says whether the ingest loop still runs.
\<close>

record ('f, 'p, 's, 'd) server =
  srv_app :: "('p, 's, 'd) AppState"
  srv_streams :: "(nat \<times> 'f StreamState) list"
  srv_ingesting :: bool

datatype 'f server_event =
    IngestItem "system_time \<times> system_time" ingest_item
  | EventsRequest nat string "string option" "'f EventsQuery"
  | FilesRequest system_time
  | DownloadRequest system_time string
  | HealthRequest instant system_time
  | Poll nat
  | StreamEnd nat

datatype reply = Opened nat | Rejected nat reject | Yielded nat sse

record ('f, 'a, 's, 'd) server_ext =
  sx_f64 :: "'f f64_ops"
  sx_parser :: "(('f, 'a) ProductEnrichment, 's, 'd) parser_ext"
  sx_render :: "(('f, 'a) ProductEnrichment, 's) render_ext"
  sx_zip :: zip_ext
  sx_json :: "('f, 'a, 's, 'd) file_metadata \<Rightarrow> string + byte list"
  sx_archives :: bool
  sx_recv :: "('f, 'a, 's, 'd) file_metadata BroadcastEvent list \<Rightarrow> nat \<Rightarrow> ('f, 'a, 's, 'd) file_metadata BroadcastEvent received \<times> nat"
  sx_header_ok :: "string \<Rightarrow> bool"

definition close_stream ::
    "nat \<Rightarrow> ('f, 'p, 's, 'd) server \<Rightarrow> ('f, 'p, 's, 'd) server" where
  "close_stream c s = s\<lparr>srv_streams := hash_remove c (srv_streams s), srv_app := drop_client_guard (srv_app s)\<rparr>"

definition poll_stream ::
    "('f, 'a, 's, 'd) server_ext \<Rightarrow> nat \<Rightarrow> 'f StreamState \<Rightarrow> ('f, ('f, 'a) ProductEnrichment, 's, 'd) server
      \<Rightarrow> reply list \<times> ('f, ('f, 'a) ProductEnrichment, 's, 'd) server" where
  "poll_stream E c st s =
     (let (answer, pos) = sx_recv E (event_sent (srv_app s)) (st_pos st)
      in case stream_received (sx_f64 E) (sx_parser E) (sx_render E) answer (st\<lparr>st_pos := pos\<rparr>) of
           StreamEnds \<Rightarrow> ([], close_stream c s)
         | StreamWaits st' \<Rightarrow> ([], s\<lparr>srv_streams := hash_insert c st' (srv_streams s)\<rparr>)
         | StreamYields item st' \<Rightarrow> ([Yielded c item], s\<lparr>srv_streams := hash_insert c st' (srv_streams s)\<rparr>))"

fun server_step ::
    "('f, 'a, 's, 'd) server_ext \<Rightarrow> 'f server_event \<Rightarrow> ('f, ('f, 'a) ProductEnrichment, 's, 'd) server
      \<Rightarrow> (reply list \<times> ('f, ('f, 'a) ProductEnrichment, 's, 'd) server) option" where
  "server_step E (IngestItem clock item) s =
     (if \<not> srv_ingesting s then None
      else (case handle_ingest_event (sx_parser E) (sx_zip E) (sx_json E) (sx_archives E) clock item (srv_app s) of
              (Inr _, app) \<Rightarrow> Some ([], s\<lparr>srv_app := app\<rparr>)
            | (Inl _, app) \<Rightarrow> Some ([], s\<lparr>srv_app := app, srv_ingesting := False\<rparr>)))"
| "server_step E (EventsRequest c peer header query) s =
     (if map_of (srv_streams s) c \<noteq> None then None
      else (case events_handler (sx_f64 E) peer header query (srv_app s) of
              (Inl status, app) \<Rightarrow> Some ([Rejected c status], s\<lparr>srv_app := app\<rparr>)
            | (Inr st, app) \<Rightarrow> Some ([Opened c], s\<lparr>srv_app := app, srv_streams := hash_insert c st (srv_streams s)\<rparr>)))"
| "server_step E (FilesRequest now) s = Some ([], s\<lparr>srv_app := snd (files_handler now (srv_app s))\<rparr>)"
| "server_step E (DownloadRequest now filename) s =
     Some ([], s\<lparr>srv_app := snd (file_download_handler (sx_header_ok E) now filename (srv_app s))\<rparr>)"
| "server_step E (HealthRequest elapsed now) s = Some ([], s\<lparr>srv_app := snd (health_handler elapsed now (srv_app s))\<rparr>)"
| "server_step E (Poll c) s = (case map_of (srv_streams s) c of None \<Rightarrow> None | Some st \<Rightarrow> Some (poll_stream E c st s))"
| "server_step E (StreamEnd c) s = (case map_of (srv_streams s) c of None \<Rightarrow> None | Some _ \<Rightarrow> Some ([], close_stream c s))"

fun run_server ::
    "('f, 'a, 's, 'd) server_ext \<Rightarrow> 'f server_event list \<Rightarrow> ('f, ('f, 'a) ProductEnrichment, 's, 'd) server
      \<Rightarrow> (reply list \<times> ('f, ('f, 'a) ProductEnrichment, 's, 'd) server) option" where
  "run_server E [] s = Some ([], s)"
| "run_server E (e # es) s =
     (case server_step E e s of
        None \<Rightarrow> None
      | Some (replies, s') \<Rightarrow> map_option (apfst ((@) replies)) (run_server E es s'))"

definition server_new :: "('p, 's, 'd) AppState \<Rightarrow> ('f, 'p, 's, 'd) server" where
  "server_new app = \<lparr>srv_app = app, srv_streams = [], srv_ingesting = True\<rparr>"

end
