(* ===== verification/Live_Server_Correct.thy ===== *)
theory Live_Server_Correct
  imports Live_Server File_Filter_Correct Blob_Store_Correct
begin

text \<open>
  What every interleaving of the live server keeps: event ids count up from one, a stream delivers
  exactly the events that its client asked for except those that it reports as dropped, and the
  number of clients stays within its limit, where a rejected query uses up one of them for good.
\<close>

subsection \<open>The channel\<close>

text \<open>
  The documented behaviour of a broadcast receiver: it gets the events in order, waits when it has seen
  all of them, and skips the oldest ones with a count of them when more than the capacity are waiting.
\<close>

definition broadcast_contract :: "('e list \<Rightarrow> nat \<Rightarrow> 'e received \<times> nat) \<Rightarrow> bool" where
  "broadcast_contract recv \<longleftrightarrow>
     (\<forall>sent pos. pos \<le> length sent \<longrightarrow>
        (case recv sent pos of
           (RecvEvent e, p) \<Rightarrow> pos < length sent \<and> e = sent ! pos \<and> p = Suc pos
         | (RecvLagged n, p) \<Rightarrow> 0 < n \<and> p = pos + n \<and> p \<le> length sent \<and> SERVER_EVENT_CHANNEL_CAPACITY < length sent - pos
         | (RecvClosed, p) \<Rightarrow> pos = length sent \<and> p = pos
         | (RecvPending, p) \<Rightarrow> pos = length sent \<and> p = pos))"

lemmas contract_at = broadcast_contract_def [THEN iffD1, rule_format]

definition ids_ok :: "('p, 's, 'd) AppState \<Rightarrow> bool" where
  "ids_ok a \<longleftrightarrow> next_event_id a = of_nat (Suc (length (event_sent a)))
     \<and> (\<forall>i<length (event_sent a). ev_id (event_sent a ! i) = of_nat (Suc i))"

text \<open>What a step of the ingest task and of the file handlers may do to the rest of the state.\<close>

definition publishes :: "('p, 's, 'd) AppState \<Rightarrow> ('p, 's, 'd) AppState \<Rightarrow> bool" where
  "publishes a a' \<longleftrightarrow>
     connected_clients a' = connected_clients a \<and> max_clients a' = max_clients a
     \<and> received_servers a' = received_servers a \<and> received_sat_servers a' = received_sat_servers a
     \<and> (retained_ok (app_files a) \<longrightarrow> retained_ok (app_files a'))
     \<and> (event_sent a' = event_sent a \<and> next_event_id a' = next_event_id a
        \<or> (\<exists>k. event_sent a' = event_sent a @ [\<lparr>ev_id = next_event_id a, ev_kind = k\<rparr>] \<and> next_event_id a' = next_event_id a + 1))"

lemma retained_ok_ops:
  assumes "retained_ok r"
  shows "retained_insert X now name data ts origin since r = (md, r') \<Longrightarrow> retained_ok r'" "retained_list now r = (mds, r') \<Longrightarrow> retained_ok r'"
    "retained_get now name r = (f, r') \<Longrightarrow> retained_ok r'" "retained_len now r = (k, r') \<Longrightarrow> retained_ok r'"
  using retained_insert_spec(1) [OF assms] evict_expired_spec(1) [OF assms, of now]
  by (auto simp: retained_list_def retained_get_def retained_len_def Let_def)

lemma handle_product_publishes: "publishes a (snd (handle_product X Z json z clock p a))"
  by (cases clock) (auto simp: publishes_def handle_product_def Let_def publish_def intro: retained_ok_ops
      split: prod.splits sum.splits option.splits)

lemma handle_publishes: "publishes a (snd (handle_ingest_event X Z json z clock item a))"
proof (cases "\<exists>p. item = Inr (Product p)")
  case True
  then obtain p where "item = Inr (Product p)" ..
  then show ?thesis by (simp add: handle_product_publishes)
next
  case False
  then show ?thesis
    by (cases "(X, Z, json, z, clock, item, a)" rule: handle_ingest_event.cases)
      (auto simp: publishes_def publish_def Let_def)
qed

lemma files_publish:
  "publishes a (snd (files_handler now a))" "publishes a (snd (file_download_handler ok now f a))"
  "publishes a (snd (health_handler e now a))"
  by (auto simp: publishes_def files_handler_def file_download_handler_def health_handler_def Let_def intro: retained_ok_ops
      split: prod.splits sum.splits option.splits)

lemma publishes_sent: "publishes a a' \<Longrightarrow> \<exists>new. event_sent a' = event_sent a @ new"
  by (auto simp: publishes_def)

lemma publishes_ids: "publishes a a' \<Longrightarrow> ids_ok a \<Longrightarrow> ids_ok a'"
  by (auto simp: publishes_def ids_ok_def nth_append less_Suc_eq)

subsection \<open>One step of the server\<close>

text \<open>The steps by their effect: on the application state only, opening, refusing, polling or ending a stream.\<close>

lemma server_step_cases [consumes 1, case_names app opened rejected poll closed]:
  assumes "server_step E e s = Some (rs, s')"
  obtains (app) a where "publishes (srv_app s) a" "srv_app s' = a" "srv_streams s' = srv_streams s" "rs = []"
      "\<forall>c peer h q. e \<noteq> EventsRequest c peer h q"
  | (opened) c peer h q st where "e = EventsRequest c peer h q" "map_of (srv_streams s) c = None"
      "connected_clients (srv_app s) < max_clients (srv_app s)"
      "st_pos st = length (event_sent (srv_app s))" "try_from_query (sx_f64 E) q = Inr (st_filter st)"
      "rs = [Opened c]" "srv_streams s' = hash_insert c st (srv_streams s)"
      "srv_app s' = (srv_app s)\<lparr>connected_clients := connected_clients (srv_app s) + 1\<rparr>"
  | (rejected) c peer h q r where "e = EventsRequest c peer h q" "map_of (srv_streams s) c = None"
      "rs = [Rejected c r]" "srv_streams s' = srv_streams s"
      "(r = RejectTooMany \<and> srv_app s' = srv_app s \<and> \<not> connected_clients (srv_app s) < max_clients (srv_app s))
       \<or> (r \<noteq> RejectTooMany \<and> connected_clients (srv_app s) < max_clients (srv_app s)
          \<and> srv_app s' = (srv_app s)\<lparr>connected_clients := connected_clients (srv_app s) + 1\<rparr>)"
  | (poll) c st where "e = Poll c" "map_of (srv_streams s) c = Some st" "poll_stream E c st s = (rs, s')"
  | (closed) c st where "e = StreamEnd c" "map_of (srv_streams s) c = Some st" "rs = []" "s' = close_stream c s"
proof (cases e)
  case (IngestItem clock item)
  then show thesis
    using assms handle_publishes [of "srv_app s" "sx_parser E" "sx_zip E" "sx_json E" "sx_archives E" clock item]
    by (auto split: if_splits prod.splits sum.splits intro: app)
next
  case (EventsRequest c peer h q)
  show thesis
  proof (cases "fst (events_handler (sx_f64 E) peer h q (srv_app s))")
    case (Inl r)
    then show thesis
      using assms EventsRequest
      by (intro rejected [of c peer h q r])
        (auto simp: events_handler_def Let_def split: if_splits prod.splits sum.splits)
  next
    case (Inr st)
    then show thesis
      using assms EventsRequest
      by (intro opened [of c peer h q st])
        (auto simp: events_handler_def Let_def split: if_splits prod.splits sum.splits)
  qed
next
  case (FilesRequest now)
  then show thesis using assms by (intro app [of "srv_app s'"]) (auto simp: files_publish)
next
  case (DownloadRequest now f)
  then show thesis using assms by (intro app [of "srv_app s'"]) (auto simp: files_publish)
next
  case (HealthRequest el now)
  then show thesis using assms by (intro app [of "srv_app s'"]) (auto simp: files_publish)
next
  case (Poll c)
  then show thesis using assms by (auto split: option.splits intro: poll)
next
  case (StreamEnd c)
  then show thesis using assms by (auto split: option.splits intro: closed)
qed

lemma poll_stream_cases [consumes 1, case_names ends kept]:
  assumes "poll_stream E c st s = (rs, s')"
  obtains (ends) "rs = []" "s' = close_stream c s" "fst (sx_recv E (event_sent (srv_app s)) (st_pos st)) = RecvClosed"
  | (kept) st' where "srv_app s' = srv_app s" "srv_streams s' = hash_insert c st' (srv_streams s)"
      "st_filter st' = st_filter st" "st_pos st' = snd (sx_recv E (event_sent (srv_app s)) (st_pos st))"
      "case fst (sx_recv E (event_sent (srv_app s)) (st_pos st)) of
         RecvEvent event \<Rightarrow>
           if st_last_id st < ev_id event \<and> event_matches_filter (sx_f64 E) (st_filter st) (ev_kind event)
           then rs = [Yielded c (sse_event (sx_parser E) (sx_render E) event)] \<and> st_last_id st' = ev_id event
           else rs = [] \<and> st_last_id st' = st_last_id st
       | RecvLagged n \<Rightarrow> rs = [Yielded c (SseLagged n (st_peer st))] \<and> st_last_id st' = st_last_id st
       | RecvClosed \<Rightarrow> False
       | RecvPending \<Rightarrow> rs = [] \<and> st_last_id st' = st_last_id st"
proof -
  obtain answer pos where r: "sx_recv E (event_sent (srv_app s)) (st_pos st) = (answer, pos)" by fastforce
  show thesis
  proof (cases answer)
    case RecvClosed
    then show thesis using assms r by (intro ends) (auto simp: poll_stream_def)
  qed (use assms r in \<open>auto simp: poll_stream_def not_le split: if_splits intro!: kept\<close>)
qed

subsection \<open>Runs\<close>

text \<open>A property of replies and states that holds initially and that steps keep holds after every run.\<close>

locale server_invariant =
  fixes E :: "('f, 'a, 's, 'd) server_ext"
    and I :: "reply list \<Rightarrow> ('f, ('f, 'a) ProductEnrichment, 's, 'd) server \<Rightarrow> bool"
  assumes step: "I tr s \<Longrightarrow> server_step E e s = Some (rs, s') \<Longrightarrow> I (tr @ rs) s'"
begin

lemma run: "I tr s \<Longrightarrow> run_server E es s = Some (rs, s') \<Longrightarrow> I (tr @ rs) s'"
proof (induction es arbitrary: tr s rs)
  case (Cons e es)
  then obtain r1 s1 r2 where "server_step E e s = Some (r1, s1)" "run_server E es s1 = Some (r2, s')" "rs = r1 @ r2"
    by (auto split: option.splits)
  then show ?case using Cons.IH [of "tr @ r1" s1 r2] step [OF Cons.prems(1)] by simp
qed simp

end

text \<open>The replies that used up a place: queries that were rejected.\<close>

fun is_bad_request :: "reply \<Rightarrow> bool" where
  "is_bad_request (Rejected _ (RejectBadRequest _)) \<longleftrightarrow> True"
| "is_bad_request _ \<longleftrightarrow> False"

definition bad_requests :: "reply list \<Rightarrow> nat" where
  "bad_requests tr = length (filter is_bad_request tr)"

definition server_ok :: "usize \<Rightarrow> reply list \<Rightarrow> ('f, 'p, 's, 'd) server \<Rightarrow> bool" where
  "server_ok limit tr s \<longleftrightarrow>
     ids_ok (srv_app s) \<and> hash_wf (srv_streams s) \<and> max_clients (srv_app s) = limit
     \<and> connected_clients (srv_app s) = length (srv_streams s) + bad_requests tr \<and> connected_clients (srv_app s) \<le> limit
     \<and> received_servers (srv_app s) = 0 \<and> received_sat_servers (srv_app s) = 0 \<and> retained_ok (app_files (srv_app s))"

lemma hash_insert_length:
  "length (hash_insert k v m) = (if map_of m k = None then Suc (length m) else length m)"
  by (induction k v m rule: hash_insert.induct) auto

lemma hash_remove_length:
  assumes "hash_wf m" and "map_of m k = Some v"
  shows "Suc (length (hash_remove k m)) = length m"
proof -
  have "k \<in> fst ` set m" using assms(2) by (metis map_of_eq_None_iff option.distinct(1))
  then have "card (insert k (fst ` set m - {k})) = card (fst ` set m)" by (simp add: insert_absorb)
  then have "Suc (card (fst ` set m - {k})) = card (fst ` set m)" by (subst (asm) card_insert_disjoint) auto
  then show ?thesis
    using assms(1) hash.length_card [of m] hash.length_card [OF hash.wf_del [of m k]] hash.keys_del [of m k] by simp
qed

lemma close_stream_ok:
  assumes "server_ok limit tr s" and "map_of (srv_streams s) c = Some st"
  shows "server_ok limit tr (close_stream c s)"
  using assms hash_remove_length [of "srv_streams s" c st] hash.wf_del [of "srv_streams s" c]
  by (auto simp: server_ok_def close_stream_def drop_client_guard_def ids_ok_def)

lemma poll_stream_ok:
  assumes "server_ok limit tr s" and "map_of (srv_streams s) c = Some st" and "poll_stream E c st s = (rs, s')"
  shows "server_ok limit (tr @ rs) s'"
  using assms(3)
proof (cases rule: poll_stream_cases)
  case ends
  then show ?thesis using close_stream_ok [OF assms(1,2)] by simp
next
  case (kept st')
  have "bad_requests rs = 0" using kept(5) by (auto simp: bad_requests_def sse_event_def split: received.splits if_splits)
  then show ?thesis
    using assms(1,2) kept(1,2) hash.wf_ins [of "srv_streams s" c st']
    by (simp add: server_ok_def hash_insert_length bad_requests_def)
qed

interpretation live: server_invariant E "server_ok limit"
proof unfold_locales
  fix tr s e rs s'
  assume ok: "server_ok limit tr s" and step: "server_step E e s = Some (rs, s')"
  from step show "server_ok limit (tr @ rs) s'"
  proof (cases rule: server_step_cases)
    case (app a)
    then show ?thesis using ok publishes_ids [OF app(1)] by (auto simp: server_ok_def publishes_def)
  next
    case (opened c peer h q st)
    then show ?thesis
      using ok hash.wf_ins [of "srv_streams s" c st]
      by (simp add: server_ok_def hash_insert_length bad_requests_def ids_ok_def)
  next
    case (rejected c peer h q r)
    then show ?thesis using ok by (cases r) (auto simp: server_ok_def bad_requests_def ids_ok_def)
  next
    case (poll c st)
    then show ?thesis using poll_stream_ok [OF ok] by blast
  next
    case (closed c st)
    then show ?thesis using close_stream_ok [OF ok] by simp
  qed
qed

lemma server_new_ok: "server_ok (max clients 1) [] (server_new (app_state_new n secs clients queue now quiet))"
  by (simp add: server_ok_def server_new_def app_state_new_def ids_ok_def bad_requests_def hash_wf_def retained_new_ok)

lemma reachable_ok:
  assumes "run_server E es (server_new (app_state_new n secs clients queue now quiet)) = Some (tr, s)"
  shows "server_ok (max clients 1) tr s"
  using live.run [OF server_new_ok assms] by (simp only: append_Nil)

subsection \<open>What a stream delivers\<close>

definition events_to :: "nat \<Rightarrow> reply list \<Rightarrow> sse list" where
  "events_to c tr = List.map_filter (\<lambda>r. case r of Yielded d (SseEvent i n t) \<Rightarrow> if d = c then Some (SseEvent i n t) else None | _ \<Rightarrow> None) tr"

definition dropped_to :: "nat \<Rightarrow> reply list \<Rightarrow> nat" where
  "dropped_to c tr = sum_list (map (\<lambda>r. case r of Yielded d (SseLagged n _) \<Rightarrow> if d = c then n else 0 | _ \<Rightarrow> 0) tr)"

lemma replies_append [simp]:
  "events_to c (tr @ tr') = events_to c tr @ events_to c tr'" "dropped_to c (tr @ tr') = dropped_to c tr + dropped_to c tr'"
  by (simp_all add: events_to_def dropped_to_def List.map_filter_def)

lemma replies_single [simp]:
  "events_to c [] = []" "dropped_to c [] = 0" "events_to c [Opened d] = []" "dropped_to c [Opened d] = 0"
  "events_to c [Rejected d r] = []" "dropped_to c [Rejected d r] = 0"
  "events_to c [Yielded d (SseLagged n p)] = []" "dropped_to c [Yielded d (SseLagged n p)] = (if d = c then n else 0)"
  "events_to c [Yielded d (SseEvent i m t)] = (if d = c then [SseEvent i m t] else [])"
  "dropped_to c [Yielded d (SseEvent i m t)] = 0"
  by (simp_all add: events_to_def dropped_to_def map_filter_simps)

definition opens :: "nat \<Rightarrow> 'f server_event \<Rightarrow> bool" where
  "opens c e \<longleftrightarrow> (\<exists>peer h q. e = EventsRequest c peer h q)"

definition asked_for :: "('f, 'a, 's, 'd) server_ext \<Rightarrow> 'f StreamState \<Rightarrow> ('f, 'a, 's, 'd) file_metadata BroadcastEvent \<Rightarrow> bool" where
  "asked_for E st event \<longleftrightarrow> st_last_id st < ev_id event \<and> event_matches_filter (sx_f64 E) (st_filter st) (ev_kind event)"

lemma sent_grows:
  assumes "server_step E e s = Some (rs, s')"
  shows "\<exists>new. event_sent (srv_app s') = event_sent (srv_app s) @ new"
  using assms
proof (cases rule: server_step_cases)
  case (app a)
  then show ?thesis using publishes_sent by blast
next
  case (poll c st)
  from poll(3) show ?thesis by (cases rule: poll_stream_cases) (simp_all add: close_stream_def drop_client_guard_def)
qed (auto simp: close_stream_def drop_client_guard_def)

lemma run_sent_grows: "run_server E es s = Some (tr, s') \<Longrightarrow> \<exists>new. event_sent (srv_app s') = event_sent (srv_app s) @ new"
proof (induction es arbitrary: s tr)
  case (Cons e es)
  then obtain r1 s1 r2 where "server_step E e s = Some (r1, s1)" "run_server E es s1 = Some (r2, s')"
    by (auto split: option.splits)
  then show ?case using sent_grows Cons.IH by (metis append_assoc)
qed simp

lemma other_streams:
  assumes "server_step E e s = Some (rs, s')" and "hash_wf (srv_streams s)" and "\<not> opens c e" and "e \<noteq> Poll c" and "e \<noteq> StreamEnd c"
  shows "map_of (srv_streams s') c = map_of (srv_streams s) c \<and> events_to c rs = [] \<and> dropped_to c rs = 0"
  using assms(1)
proof (cases rule: server_step_cases)
  case (poll d st)
  have "d \<noteq> c" using poll assms(4) by auto
  from poll(3) show ?thesis
  proof (cases rule: poll_stream_cases)
    case ends
    then show ?thesis using \<open>d \<noteq> c\<close> assms(2) by (simp add: close_stream_def hash.map_of_del)
  next
    case (kept st')
    then show ?thesis
      using \<open>d \<noteq> c\<close> assms(2) by (auto simp: hash.map_of_ins sse_event_def split: received.splits if_splits)
  qed
next
  case (closed d st)
  then show ?thesis using assms(2,5) by (auto simp: close_stream_def hash.map_of_del)
qed (use assms in \<open>auto simp: hash.map_of_ins opens_def\<close>)

lemma absent_stays:
  assumes "run_server E es s = Some (tr, s')" and "server_ok limit tr0 s" and "map_of (srv_streams s) c = None" and "\<forall>e\<in>set es. \<not> opens c e"
  shows "map_of (srv_streams s') c = None"
  using assms
proof (induction es arbitrary: s tr tr0)
  case (Cons e es)
  then obtain r1 s1 r2 where st: "server_step E e s = Some (r1, s1)" "run_server E es s1 = Some (r2, s')"
    by (auto split: option.splits)
  have "e \<noteq> Poll c" "e \<noteq> StreamEnd c" using st(1) Cons.prems(3) by auto
  then have "map_of (srv_streams s1) c = None"
    using other_streams [OF st(1), of c] Cons.prems by (simp add: server_ok_def)
  then show ?case using Cons.IH [OF st(2) live.step [OF Cons.prems(2) st(1)]] Cons.prems(4) by simp
qed simp

text \<open>One step, seen from a stream that is open before and after it.\<close>

lemma stream_step_cases [consumes 7, case_names same event lagged]:
  assumes "server_step E e s = Some (rs, s')" and "broadcast_contract (sx_recv E)" and "hash_wf (srv_streams s)"
    and "\<not> opens c e" and "map_of (srv_streams s) c = Some st" and "map_of (srv_streams s') c = Some st'"
    and "st_pos st \<le> length (event_sent (srv_app s))"
  obtains (same) "st' = st" "events_to c rs = []" "dropped_to c rs = 0"
  | (event) event where "event = event_sent (srv_app s) ! st_pos st" "st_pos st < length (event_sent (srv_app s))"
      "st_pos st' = Suc (st_pos st)" "st_filter st' = st_filter st" "dropped_to c rs = 0"
      "if asked_for E st event
       then events_to c rs = [sse_event (sx_parser E) (sx_render E) event] \<and> st_last_id st' = ev_id event
       else events_to c rs = [] \<and> st_last_id st' = st_last_id st"
  | (lagged) n where "st_pos st' = st_pos st + n" "st_pos st' \<le> length (event_sent (srv_app s))" "st_filter st' = st_filter st"
      "st_last_id st' = st_last_id st" "events_to c rs = []" "dropped_to c rs = n"
proof (cases "e = Poll c \<or> e = StreamEnd c")
  case False
  then show thesis using other_streams [OF assms(1,3,4)] assms(5,6) by (intro same) auto
next
  case True
  have "e \<noteq> StreamEnd c" using assms(1,3,5,6) by (auto simp: close_stream_def hash.map_of_del)
  then have poll: "poll_stream E c st s = (rs, s')" using True assms(1,5) by simp
  obtain answer pos where r: "sx_recv E (event_sent (srv_app s)) (st_pos st) = (answer, pos)" by fastforce
  from poll show thesis
  proof (cases rule: poll_stream_cases)
    case ends
    then show thesis using assms(3,6) by (simp add: close_stream_def hash.map_of_del)
  next
    case (kept st'')
    have "st'' = st'" using kept(2) assms(3,6) by (simp add: hash.map_of_ins)
    note kept = kept [unfolded this r fst_conv snd_conv]
    note contract = contract_at [OF assms(2,7), unfolded r]
    show thesis
    proof (cases answer)
      case (RecvEvent ev)
      then show thesis
        using contract kept by (intro event [of ev]) (auto simp: asked_for_def sse_event_def split: if_splits)
    next
      case (RecvLagged n)
      then show thesis using contract kept by (intro lagged [of n]) auto
    next
      case RecvClosed
      then show thesis using kept(5) by simp
    next
      case RecvPending
      then have "st' = st" using contract kept(3,4,5) poll r assms(3,6) 
        by (auto simp: poll_stream_def hash.map_of_ins)
      then show thesis using RecvPending kept(5) by (intro same) auto
    qed
  qed
qed

text \<open>
  A stretch of a run during which a stream stays open: there are positions, in ascending order, at which
  the stream received an event; it yielded the ones that were asked for, and the positions between
  that it did not receive are as many as it reported as dropped.
\<close>

definition stretch ::
    "('f, 'a, 's, 'd) server_ext \<Rightarrow> nat \<Rightarrow> ('f, 'a, 's, 'd) file_metadata BroadcastEvent list \<Rightarrow> reply list \<Rightarrow> 'f StreamState \<Rightarrow> 'f StreamState \<Rightarrow> nat list \<Rightarrow> bool" where
  "stretch E c sent tr st st1 is \<longleftrightarrow>
     sorted_wrt (<) is \<and> set is \<subseteq> {st_pos st..<st_pos st1} \<and> st_pos st + (length is + dropped_to c tr) = st_pos st1
     \<and> st_pos st1 \<le> length sent \<and> st_filter st1 = st_filter st
     \<and> events_to c tr = map (\<lambda>i. sse_event (sx_parser E) (sx_render E) (sent ! i)) (filter (\<lambda>i. asked_for E st (sent ! i)) is)"

lemma ids_ordered:
  assumes "ids_ok a" and "length (event_sent a) < 2 ^ 64 - 1" and "i < length (event_sent a)"
  shows "unat (ev_id (event_sent a ! i)) = Suc i"
proof -
  have "Suc i < 2 ^ 64" using assms(2,3) by simp
  then have "unat (of_nat (Suc i) :: u64) = Suc i" by (simp only: unat_of_nat take_bit_nat_eq_self len_of_numeral_defs) simp
  then show ?thesis using assms(1,3) by (simp add: ids_ok_def del: of_nat_Suc)
qed

text \<open>An event received in front of a stretch.\<close>

lemma stretch_event:
  assumes rest: "stretch E c sent tr st' st1 is" and ids: "\<forall>i<length sent. unat (ev_id (sent ! i)) = Suc i"
    and at: "st_pos st < length sent" "st_pos st' = Suc (st_pos st)" "st_filter st' = st_filter st"
    and quiet: "dropped_to c rs = 0"
    and yield: "if asked_for E st (sent ! st_pos st)
      then events_to c rs = [sse_event (sx_parser E) (sx_render E) (sent ! st_pos st)] \<and> st_last_id st' = ev_id (sent ! st_pos st)
      else events_to c rs = [] \<and> st_last_id st' = st_last_id st"
  shows "stretch E c sent (rs @ tr) st st1 (st_pos st # is)"
proof -
  have "asked_for E st' (sent ! i) \<longleftrightarrow> asked_for E st (sent ! i)" if "i \<in> set is" for i
  proof -
    have i: "st_pos st < i" "i < length sent" using that rest at(2) by (auto simp: stretch_def)
    then have later: "ev_id (sent ! st_pos st) < ev_id (sent ! i)" using ids at(1) by (simp add: word_less_nat_alt)
    then show ?thesis using yield at(3) by (auto simp: asked_for_def split: if_splits)
  qed
  then have "filter (\<lambda>i. asked_for E st' (sent ! i)) is = filter (\<lambda>i. asked_for E st (sent ! i)) is" by (rule filter_cong [OF refl])
  then show ?thesis using rest at quiet yield by (auto simp: stretch_def)
qed

lemma stretch_of_run:
  assumes "run_server E es s = Some (tr, s1)" and "server_ok limit tr0 s" and "broadcast_contract (sx_recv E)"
    and "map_of (srv_streams s) c = Some st" and "map_of (srv_streams s1) c = Some st1" and "\<forall>e\<in>set es. \<not> opens c e"
    and "st_pos st \<le> length (event_sent (srv_app s))" and "length (event_sent (srv_app s1)) < 2 ^ 64 - 1"
  shows "\<exists>is. stretch E c (event_sent (srv_app s1)) tr st st1 is"
  using assms
proof (induction es arbitrary: s tr tr0 st)
  case Nil
  then show ?case by (intro exI [of _ "[]"]) (auto simp: stretch_def)
next
  case (Cons e es)
  obtain rs s' tr' where step: "server_step E e s = Some (rs, s')" and run: "run_server E es s' = Some (tr', s1)" and tr: "tr = rs @ tr'"
    using Cons.prems(1) by (auto split: option.splits)
  note ok' = live.step [OF Cons.prems(2) step]
  have wf: "hash_wf (srv_streams s)" using Cons.prems(2) by (simp add: server_ok_def)
  have quiet: "\<not> opens c e" "\<forall>e\<in>set es. \<not> opens c e" using Cons.prems(6) by auto
  obtain st' where st': "map_of (srv_streams s') c = Some st'"
    using absent_stays [OF run ok' _ quiet(2)] Cons.prems(5) by fastforce
  obtain new new' where sent: "event_sent (srv_app s') = event_sent (srv_app s) @ new"
      "event_sent (srv_app s1) = event_sent (srv_app s') @ new'"
    using sent_grows [OF step] run_sent_grows [OF run] by blast
  note IH = Cons.IH [OF run ok' Cons.prems(3) st' Cons.prems(5) quiet(2) _ Cons.prems(8)]
  from step Cons.prems(3) wf quiet(1) Cons.prems(4) st' Cons.prems(7) show ?case
  proof (cases rule: stream_step_cases)
    case same
    then show ?thesis using IH Cons.prems(7) sent(1) by (auto simp: tr stretch_def)
  next
    case (event ev)
    then obtain "is" where rest: "stretch E c (event_sent (srv_app s1)) tr' st' st1 is" using IH sent(1) by auto
    have ids: "\<forall>i<length (event_sent (srv_app s1)). unat (ev_id (event_sent (srv_app s1) ! i)) = Suc i"
      using live.run [OF ok' run] Cons.prems(8) ids_ordered by (auto simp: server_ok_def)
    have "event_sent (srv_app s1) ! st_pos st = ev" using event(1,2) sent by (simp add: nth_append)
    then have "stretch E c (event_sent (srv_app s1)) (rs @ tr') st st1 (st_pos st # is)"
      using event sent by (intro stretch_event [OF rest ids]) auto
    then show ?thesis unfolding tr by blast
  next
    case (lagged n)
    then obtain "is" where "stretch E c (event_sent (srv_app s1)) tr' st' st1 is" using IH sent(1) by auto
    then have "stretch E c (event_sent (srv_app s1)) tr st st1 is" using lagged by (auto simp: tr stretch_def asked_for_def)
    then show ?thesis ..
  qed
qed

text \<open>The receivers stay inside the channel.\<close>

definition positions_ok :: "('f, 'a, 's, 'd) server_ext \<Rightarrow> usize \<Rightarrow> reply list \<Rightarrow> ('f, ('f, 'a) ProductEnrichment, 's, 'd) server \<Rightarrow> bool" where
  "positions_ok E limit tr s \<longleftrightarrow> server_ok limit tr s
     \<and> (broadcast_contract (sx_recv E) \<longrightarrow>
        (\<forall>c st. map_of (srv_streams s) c = Some st \<longrightarrow> st_pos st \<le> length (event_sent (srv_app s))))"

interpretation followed: server_invariant E "positions_ok E limit"
proof unfold_locales
  fix tr s e rs s'
  assume inv: "positions_ok E limit tr s" and step: "server_step E e s = Some (rs, s')"
  then have ok: "server_ok limit tr s" and wf: "hash_wf (srv_streams s)" by (auto simp: positions_ok_def server_ok_def)
  obtain new where sent: "event_sent (srv_app s') = event_sent (srv_app s) @ new" using sent_grows [OF step] ..
  have "st_pos st' \<le> length (event_sent (srv_app s'))"
    if contract: "broadcast_contract (sx_recv E)" and st': "map_of (srv_streams s') c = Some st'" for c st'
  proof (cases "opens c e \<or> map_of (srv_streams s) c = None")
    case True
    show ?thesis
    proof (cases "opens c e")
      case True
      from step True st' wf show ?thesis
        by (cases rule: server_step_cases) (auto simp: opens_def hash.map_of_ins)
    next
      case False
      then have none: "map_of (srv_streams s) c = None" using True by simp
      then have "e \<noteq> Poll c" "e \<noteq> StreamEnd c" using step by auto
      then show ?thesis using other_streams [OF step wf False] st' none by simp
    qed
  next
    case False
    then obtain st where st: "map_of (srv_streams s) c = Some st" by auto
    have pos: "st_pos st \<le> length (event_sent (srv_app s))" using inv contract st by (auto simp: positions_ok_def)
    have "\<not> opens c e" using False by simp
    from step contract wf this st st' pos show ?thesis
      by (cases rule: stream_step_cases) (use pos sent in auto)
  qed
  then show "positions_ok E limit (tr @ rs) s'" using live.step [OF ok step] by (auto simp: positions_ok_def)
qed

lemma positions_new_ok:
  "positions_ok E (max clients 1) [] (server_new (app_state_new n secs clients queue now quiet))"
  using server_new_ok by (auto simp: positions_ok_def server_new_def)

lemma reachable_positions:
  assumes "run_server E es (server_new (app_state_new n secs clients queue now quiet)) = Some (tr, s)"
  shows "positions_ok E (max clients 1) tr s"
  using followed.run [OF positions_new_ok assms] by (simp only: append_Nil)

lemma all_positions:
  assumes "sorted_wrt (<) is" and "set is \<subseteq> {a..<b}" and "a + length is = b"
  shows "is = [a..<b]"
proof (rule sorted_distinct_set_unique)
  have "distinct is" using assms(1) by (rule sorted_wrt_less_distinct)
  then have "card (set is) = card {a..<b}" using assms(3) by (auto simp: distinct_card)
  then show "set is = set [a..<b]" using assms(2) by (simp add: card_subset_eq)
  show "sorted is" "distinct is" using assms(1) by (auto simp: strict_sorted_iff)
qed simp_all

subsection \<open>Announced files\<close>

text \<open>The readings of the clock in a step that can expire files, and the name of a product that it delivers.\<close>

fun readings :: "'f server_event \<Rightarrow> system_time list" where
  "readings (IngestItem (completed_at, now) item) = [now]"
| "readings (FilesRequest now) = [now]"
| "readings (DownloadRequest now name) = [now]"
| "readings (HealthRequest elapsed now) = [now]"
| "readings _ = []"

fun delivers :: "('f, 'a, 's, 'd) server_ext \<Rightarrow> 'f server_event \<Rightarrow> string option" where
  "delivers E (IngestItem clock (Inr (Product p))) =
     (case post_process_archive (sx_zip E) (sx_archives E) (prod_filename p) (prod_data p) of
        Inr d \<Rightarrow> Some (del_filename d) | Inl _ \<Rightarrow> None)"
| "delivers E _ = None"

abbreviation delivered_names :: "('f, 'a, 's, 'd) server_ext \<Rightarrow> 'f server_event list \<Rightarrow> string list" where
  "delivered_names E es \<equiv> List.map_filter (delivers E) es"

text \<open>What a step does to the retained files.\<close>

definition files_change ::
    "('f, 'a, 's, 'd) server_ext \<Rightarrow> 'f server_event \<Rightarrow> (('f, 'a) ProductEnrichment, 's, 'd) RetainedFiles
      \<Rightarrow> (('f, 'a) ProductEnrichment, 's, 'd) RetainedFiles \<Rightarrow> bool" where
  "files_change E e r r' \<longleftrightarrow>
     (case delivers E e of
        None \<Rightarrow> r' = r \<or> (\<exists>now\<in>set (readings e). r' = evict_expired now r)
      | Some name \<Rightarrow> \<exists>now\<in>set (readings e). \<exists>data ts origin since md.
          retained_insert (sx_parser E) now name data ts origin since r = (md, r'))"

lemma product_changes_files:
  "files_change E (IngestItem clock (Inr (Product p))) (app_files a)
     (app_files (snd (handle_product (sx_parser E) (sx_zip E) (sx_json E) (sx_archives E) clock p a)))"
proof (cases clock)
  case clock: (Pair completed_at now)
  show ?thesis
  proof (cases "post_process_archive (sx_zip E) (sx_archives E) (prod_filename p) (prod_data p)")
    case (Inr d)
    obtain md r where "retained_insert (sx_parser E) now (del_filename d) (del_data d)
        (unix_seconds (prod_source_timestamp_utc p)) (prod_origin p) completed_at (app_files a) = (md, r)"
      by fastforce
    moreover from this have "app_files (snd (handle_product (sx_parser E) (sx_zip E) (sx_json E) (sx_archives E) clock p a)) = r"
      by (auto simp: handle_product_def clock Inr Let_def publish_def split: option.splits prod.splits sum.splits)
    ultimately show ?thesis by (simp add: files_change_def clock Inr) blast
  qed (simp add: files_change_def handle_product_def clock Let_def)
qed

lemma ingest_changes_files:
  "files_change E (IngestItem clock item) (app_files a)
     (app_files (snd (handle_ingest_event (sx_parser E) (sx_zip E) (sx_json E) (sx_archives E) clock item a)))"
proof (cases "\<exists>p. item = Inr (Product p)")
  case True
  then obtain p where item: "item = Inr (Product p)" ..
  show ?thesis unfolding item handle_ingest_event.simps by (rule product_changes_files)
next
  case False
  then show ?thesis
    by (cases "(sx_parser E, sx_zip E, sx_json E, sx_archives E, clock, item, a)" rule: handle_ingest_event.cases)
      (auto simp: files_change_def publish_def Let_def)
qed

lemma step_changes_files:
  assumes "server_step E e s = Some (rs, s')"
  shows "files_change E e (app_files (srv_app s)) (app_files (srv_app s'))"
proof (cases e)
  case (IngestItem clock item)
  then show ?thesis
    using assms ingest_changes_files [of E clock item "srv_app s"] by (auto split: if_splits prod.splits sum.splits)
next
  case (Poll c)
  then obtain st where "poll_stream E c st s = (rs, s')" using assms by (auto split: option.splits)
  then show ?thesis
    by (cases rule: poll_stream_cases) (auto simp: Poll files_change_def close_stream_def drop_client_guard_def)
qed (use assms in \<open>auto simp: files_change_def files_handler_def file_download_handler_def health_handler_def
    retained_list_def retained_get_def retained_len_def events_handler_def close_stream_def drop_client_guard_def Let_def
    split: if_splits option.splits sum.splits prod.splits\<close>)

lemma files_change_conf:
  assumes "retained_ok r" and "files_change E e r r'"
  shows "retained_ok r' \<and> max_entries r' = max_entries r \<and> ttl r' = ttl r"
  using assms(2) evict_expired_spec [OF assms(1)] retained_insert_spec [OF assms(1)] assms(1)
  by (auto simp: files_change_def split: option.splits)

interpretation store: server_invariant E "\<lambda>tr s. retained_ok (app_files (srv_app s))
    \<and> max_entries (app_files (srv_app s)) = entries \<and> ttl (app_files (srv_app s)) = lifetime" for E entries lifetime
  by unfold_locales (use files_change_conf step_changes_files in blast)

lemma reachable_store:
  assumes "run_server E es (server_new (app_state_new n secs clients queue t quiet)) = Some (tr, s)"
  shows "max_entries (app_files (srv_app s)) = max n 1" and "ttl (app_files (srv_app s)) = max secs 1 * 10 ^ 9"
proof -
  have "max (max secs 1 * 10 ^ 9) (10 ^ 9) = max secs 1 * (10 ^ 9 :: nat)"
    by (rule max_absorb1) (simp add: max_def)
  then show "max_entries (app_files (srv_app s)) = max n 1" "ttl (app_files (srv_app s)) = max secs 1 * 10 ^ 9"
    using store.run [OF _ assms, where entries = "max n 1" and lifetime = "max secs 1 * 10 ^ 9"]
    by (simp_all add: server_new_def app_state_new_def retained_new_ok) (simp_all add: retained_new_def)
qed

text \<open>A file that is retained, with at most \<open>k\<close> newer ones.\<close>

definition held :: "nat \<Rightarrow> string \<Rightarrow> ('p, 's, 'd) RetainedFile \<Rightarrow> ('p, 's, 'd) RetainedFiles \<Rightarrow> bool" where
  "held k name f r \<longleftrightarrow>
     retained_ok r \<and> (\<exists>older newer. files_of r = older @ (name, f) # newer \<and> length newer \<le> k)"

lemma held_filter:
  assumes "es = older @ e # newer" and "length newer \<le> k" and "P e"
  shows "\<exists>older newer. filter P es = older @ e # newer \<and> length newer \<le> k"
proof (intro exI conjI)
  show "filter P es = filter P older @ e # filter P newer" using assms by simp
  show "length (filter P newer) \<le> k" using assms(2) length_filter_le [of P newer] by (rule order_trans [rotated])
qed

lemma held_evict:
  assumes "held k name f r" and "still_live now (ttl r) (name, f)"
  shows "held k name f (evict_expired now r)"
  using assms evict_expired_spec(1,2) [of r now] held_filter [of "files_of r" _ "(name, f)" _ k]
  by (fastforce simp: held_def)

lemma held_insert:
  assumes held: "held k name f r" and live: "still_live now (ttl r) (name, f)" and "other \<noteq> name"
    and space: "Suc k < max_entries r" and ins: "retained_insert X now other data ts origin since r = (md, r')"
  shows "held (Suc k) name f r'"
proof -
  have ok: "retained_ok r" using held by (simp add: held_def)
  note spec = retained_insert_spec [OF ok ins]
  obtain older newer where "filter (still_live now (ttl r)) (files_of r) = older @ (name, f) # newer" "length newer \<le> k"
    using held live held_filter [of "files_of r" _ "(name, f)" _ k] unfolding held_def by blast
  from held_filter [OF this, of "\<lambda>e. fst e \<noteq> other"] assms(3) obtain older newer where
    kept: "filter (\<lambda>e. fst e \<noteq> other) (filter (still_live now (ttl r)) (files_of r)) = older @ (name, f) # newer" "length newer \<le> k"
    by auto
  let ?f = "\<lparr>ret_data = data, ret_completed_at = since, ret_metadata = md\<rparr>"
  have "files_of r' = drop (Suc (Suc (length older + length newer)) - max_entries r) older @ (name, f) # (newer @ [(other, ?f)])"
    using kept space by (simp add: spec(3) remember_def Let_def)
  moreover have "length (newer @ [(other, ?f)]) \<le> Suc k" using kept(2) by simp
  ultimately show ?thesis using spec(1) unfolding held_def by blast
qed

lemma held_found:
  assumes held: "held k name f r" and live: "still_live now (ttl r) (name, f)"
  shows "fst (retained_get now name r) = Some f"
proof -
  have ok: "retained_ok (evict_expired now r)" using held evict_expired_spec(1) by (auto simp: held_def)
  have "(name, f) \<in> set (files_of (evict_expired now r))" using held_evict [OF assms] by (auto simp: held_def)
  moreover have "distinct (map fst (files_of (evict_expired now r)))" using ok by (simp add: files_of_def retained_ok_def comp_def)
  ultimately have "map_of (by_name (evict_expired now r)) name = Some f"
    using map_of_is_SomeI by (simp flip: map_of_files_of [OF ok])
  then show ?thesis by (simp add: retained_get_def Let_def)
qed

lemma held_run:
  assumes "run_server E es s = Some (tr, s')" and "held k name f (app_files (srv_app s))"
    and "name \<notin> set (delivered_names E es)" and "k + length (delivered_names E es) < max_entries (app_files (srv_app s))"
    and "\<forall>e\<in>set es. \<forall>now\<in>set (readings e). now - ret_completed_at f \<le> int (ttl (app_files (srv_app s)))"
  shows "held (k + length (delivered_names E es)) name f (app_files (srv_app s'))
    \<and> ttl (app_files (srv_app s')) = ttl (app_files (srv_app s))"
  using assms
proof (induction es arbitrary: s tr k)
  case (Cons e es)
  obtain rs s1 tr1 where step: "server_step E e s = Some (rs, s1)" and run: "run_server E es s1 = Some (tr1, s')"
    using Cons.prems(1) by (auto split: option.splits)
  note change = step_changes_files [OF step]
  have ok: "retained_ok (app_files (srv_app s))" using Cons.prems(2) by (simp add: held_def)
  note conf = files_change_conf [OF ok change]
  have live: "still_live now (ttl (app_files (srv_app s))) (name, f)" if "now \<in> set (readings e)" for now
    using Cons.prems(5) that by (fastforce simp: still_live_def expired_def)
  show ?case
  proof (cases "delivers E e")
    case None
    have "held k name f (app_files (srv_app s1))"
      using change Cons.prems(2) held_evict [OF Cons.prems(2) live] by (auto simp: files_change_def None)
    then show ?thesis
      using Cons.IH [OF run, of k] Cons.prems(3-5) conf None by (simp add: map_filter_simps)
  next
    case (Some other)
    have "held (Suc k) name f (app_files (srv_app s1))"
      using change Some Cons.prems(3,4) held_insert [OF Cons.prems(2) live, of _ other]
      by (auto simp: files_change_def map_filter_simps)
    then show ?thesis
      using Cons.IH [OF run, of "Suc k"] Cons.prems(3-5) conf Some by (simp add: map_filter_simps)
  qed
qed (simp add: map_filter_simps)

lemma inserted_is_held:
  assumes ok: "retained_ok r" and ins: "retained_insert X now name data ts origin since r = (md, r')"
  shows "held 0 name \<lparr>ret_data = data, ret_completed_at = since, ret_metadata = md\<rparr> r'"
proof -
  note spec = retained_insert_spec [OF ok ins]
  have "1 \<le> max_entries r" using ok by (simp add: retained_ok_def)
  then show ?thesis using spec(1) by (auto simp: held_def spec(3) remember_def Let_def)
qed

lemma announced_request:
  assumes "sanitize_requested_filename name = Some name"
  shows "filename_request_or_400 (percent_decode (drop (length ''/files/'') (file_download_url name))) = Inr name"
  using assms by (simp add: file_download_url_def percent_roundtrip filename_request_or_400_def)

lemma handle_product_done:
  assumes "handle_product X Z json z (completed_at, now) p a = (Inr (), a')"
    and "post_process_archive Z z (prod_filename p) (prod_data p) = Inr d"
  obtains md where "retained_insert X now (del_filename d) (del_data d) (unix_seconds (prod_source_timestamp_utc p)) (prod_origin p)
      completed_at (app_files a) = (md, app_files a')"
    and "event_sent a' = event_sent a @ [\<lparr>ev_id = next_event_id a, ev_kind = EvFileComplete (event_payload_from_metadata md)\<rparr>]"
proof -
  obtain md r where ins: "retained_insert X now (del_filename d) (del_data d) (unix_seconds (prod_source_timestamp_utc p)) (prod_origin p)
      completed_at (app_files a) = (md, r)" by fastforce
  show thesis
    using assms ins
    by (intro that [of md]) (auto simp: handle_product_def Let_def publish_def split: option.splits prod.splits sum.splits if_splits)
qed

lemma handle_product_without_store:
  assumes "post_process_archive Z z (prod_filename p) (prod_data p) = Inr d" and "app_persistence a = None"
  shows "fst (handle_product X Z json z clock p a) = Inr ()"
  using assms by (cases clock) (auto simp: handle_product_def Let_def split: prod.splits)

subsection \<open>Properties\<close>

text \<open>
  C38: a client gets exactly the events that it asked for. While its stream stays open, the server sends
  it, in order and each once, the events behind its last event id that match its query, out of all
  events published from the place where the stream stands on, except for events that were skipped
  because the client was slow; these are as many as the warnings in the stream say, and without a
  warning nothing is missing.
\<close>

theorem stream_delivers_what_was_asked:
  assumes "run_server E es0 (server_new (app_state_new n secs clients queue now quiet)) = Some (tr0, s)"
    and "run_server E es s = Some (tr, s1)" and "broadcast_contract (sx_recv E)"
    and "map_of (srv_streams s) c = Some st" and "map_of (srv_streams s1) c = Some st1" and "\<forall>e\<in>set es. \<not> opens c e"
    and "length (event_sent (srv_app s1)) < 2 ^ 64 - 1"
  shows "\<exists>is. sorted_wrt (<) is \<and> set is \<subseteq> {st_pos st..<st_pos st1}
    \<and> st_pos st + (length is + dropped_to c tr) = st_pos st1 \<and> st_pos st1 \<le> length (event_sent (srv_app s1))
    \<and> (dropped_to c tr = 0 \<longrightarrow> is = [st_pos st..<st_pos st1])
    \<and> events_to c tr = map (\<lambda>i. sse_event (sx_parser E) (sx_render E) (event_sent (srv_app s1) ! i))
        (filter (\<lambda>i. asked_for E st (event_sent (srv_app s1) ! i)) is)"
proof -
  have inv: "positions_ok E (max clients 1) tr0 s" by (rule reachable_positions [OF assms(1)])
  then have pos: "st_pos st \<le> length (event_sent (srv_app s))" and ok: "server_ok (max clients 1) tr0 s"
    using assms(3,4) by (auto simp: positions_ok_def)
  obtain "is" where st: "stretch E c (event_sent (srv_app s1)) tr st st1 is"
    using stretch_of_run [OF assms(2) ok assms(3-6) pos assms(7)] by blast
  have "dropped_to c tr = 0 \<longrightarrow> is = [st_pos st..<st_pos st1]"
    using st all_positions [of "is" "st_pos st" "st_pos st1"] by (auto simp: stretch_def)
  then show ?thesis using st by (intro exI [of _ "is"]) (simp add: stretch_def)
qed

text \<open>
  in every interleaving the number of connected clients is at most the configured maximum (at least
  one) and equals the number of open streams and of queries that were answered with a bad request.
\<close>

theorem connected_clients_bounded:
  assumes "run_server E es (server_new (app_state_new n secs clients queue now quiet)) = Some (tr, s)"
  shows "connected_clients (srv_app s) \<le> max clients 1
    \<and> connected_clients (srv_app s) = length (srv_streams s) + bad_requests tr"
  using reachable_ok [OF assms] by (auto simp: server_ok_def)

text \<open>
  C40: a rejected query uses up a place for good: the handler counts the client before it looks at the
  query and does not take that back. After as many bad requests as there may be clients, no stream is
  open and from then on every request for the event stream is refused, whatever else happens.
\<close>

theorem bad_queries_exhaust_clients:
  assumes "run_server E es (server_new (app_state_new n secs clients queue now quiet)) = Some (tr, s)"
    and "bad_requests tr = max clients 1" and "run_server E fs s = Some (tr', s')"
  shows "srv_streams s = [] \<and> (\<forall>r\<in>set tr'. \<exists>c. r = Rejected c RejectTooMany)"
proof -
  have ok: "server_ok (max clients 1) tr s" by (rule reachable_ok [OF assms(1)])
  have "\<forall>r\<in>set tr'. \<exists>c. r = Rejected c RejectTooMany" using assms(3) ok assms(2)
  proof (induction fs arbitrary: s tr tr')
    case (Cons e fs)
    obtain rs s2 tr2 where step: "server_step E e s = Some (rs, s2)" and run: "run_server E fs s2 = Some (tr2, s')" and tr': "tr' = rs @ tr2"
      using Cons.prems(1) by (auto split: option.splits)
    have full: "connected_clients (srv_app s) = max_clients (srv_app s)" "srv_streams s = []"
      using Cons.prems(2,3) by (auto simp: server_ok_def)
    from step full have rs: "rs = [] \<or> (\<exists>c. rs = [Rejected c RejectTooMany])"
      by (cases rule: server_step_cases) auto
    then have "bad_requests (tr @ rs) = max clients 1" using Cons.prems(3) by (auto simp: bad_requests_def)
    then show ?case using Cons.IH [OF run live.step [OF Cons.prems(2) step]] rs by (auto simp: tr')
  qed simp
  moreover have "srv_streams s = []" using ok assms(2) by (auto simp: server_ok_def)
  ultimately show ?thesis by blast
qed

text \<open>
  The numbers of servers in the statistics are never counted: nothing updates them, so that every
  snapshot of a running server reports none.
\<close>

theorem received_servers_never_counted:
  assumes "run_server E es (server_new (app_state_new n secs clients queue t quiet)) = Some (tr, s)"
  shows "ss_received_servers (fst (build_server_stats_snapshot el now (srv_app s))) = 0
    \<and> ss_received_sat_servers (fst (build_server_stats_snapshot el now (srv_app s))) = 0"
  using reachable_ok [OF assms] by (simp add: server_ok_def build_server_stats_snapshot_def Let_def split: prod.splits)

text \<open>
  C39: an announced product can be downloaded. When a product has been received (and unpacked, if it is
  an archive) and was handled without an error, the server publishes one event with the next id. After any further steps of the server in
  which no product of the same name and fewer than \<open>--max-retained-files\<close> other products arrive, a request for
  the path of the download URL in that event answers with the product's data, as long as no reading
  of the clock is later than the completion of the product by more than the retention time, for
  every name that the server accepts.
\<close>

theorem announced_product_can_be_downloaded:
  assumes "run_server E es (server_new (app_state_new n secs clients queue t quiet)) = Some (tr, s)"
    and "server_step E (IngestItem (completed_at, now) (Inr (Product p))) s = Some (rs, s')" and "srv_ingesting s'"
    and "post_process_archive (sx_zip E) (sx_archives E) (prod_filename p) (prod_data p) = Inr d"
    and "sanitize_requested_filename (del_filename d) = Some (del_filename d)"
    and "run_server E es' s' = Some (tr', s'')"
    and "del_filename d \<notin> set (delivered_names E es')" and "length (delivered_names E es') < max n 1"
    and "\<forall>time\<in>set (later # concat (map readings es')). time - completed_at \<le> int (max secs 1 * 10 ^ 9)"
  shows "\<exists>payload headers. event_sent (srv_app s') =
      event_sent (srv_app s) @ [\<lparr>ev_id = of_nat (Suc (length (event_sent (srv_app s)))), ev_kind = EvFileComplete payload\<rparr>]
    \<and> meta_filename (cfe_metadata payload) = del_filename d \<and> meta_size (cfe_metadata payload) = length (del_data d)
    \<and> fst (file_download_handler ok later (percent_decode (drop (length ''/files/'') (cfe_download_url payload))) (srv_app s'')) =
        Inr (headers, del_data d)"
proof -
  let ?a = "srv_app s" and ?a' = "srv_app s'" and ?a'' = "srv_app s''"
  have ok: "ids_ok ?a" "retained_ok (app_files ?a)" using reachable_ok [OF assms(1)] by (auto simp: server_ok_def)
  have "handle_product (sx_parser E) (sx_zip E) (sx_json E) (sx_archives E) (completed_at, now) p ?a = (Inr (), ?a')"
    using assms(2,3) by (auto split: if_splits prod.splits sum.splits)
  from handle_product_done [OF this assms(4)] obtain md where
    ins: "retained_insert (sx_parser E) now (del_filename d) (del_data d) (unix_seconds (prod_source_timestamp_utc p)) (prod_origin p)
      completed_at (app_files ?a) = (md, app_files ?a')"
    and sent: "event_sent ?a' = event_sent ?a @ [\<lparr>ev_id = next_event_id ?a, ev_kind = EvFileComplete (event_payload_from_metadata md)\<rparr>]" .
  note spec = retained_insert_spec [OF ok(2) ins]
  have md: "meta_filename md = del_filename d" "meta_size md = length (del_data d)"
    using spec(2) by (simp_all add: build_completed_file_metadata_def Let_def)
  have conf: "max_entries (app_files ?a') = max n 1" "ttl (app_files ?a') = max secs 1 * 10 ^ 9"
    using spec(4,5) reachable_store [OF assms(1)] by simp_all
  let ?f = "\<lparr>ret_data = del_data d, ret_completed_at = completed_at, ret_metadata = md\<rparr>"
  have "held (length (delivered_names E es')) (del_filename d) ?f (app_files ?a'') \<and> ttl (app_files ?a'') = max secs 1 * 10 ^ 9"
    using held_run [OF assms(6) inserted_is_held [OF ok(2) ins]] assms(7-9) conf by simp
  then have "fst (retained_get later (del_filename d) (app_files ?a'')) = Some ?f"
    using assms(9) by (intro held_found) (auto simp: still_live_def expired_def)
  then obtain r where "retained_get later (del_filename d) (app_files ?a'') = (Some ?f, r)"
    by (cases "retained_get later (del_filename d) (app_files ?a'')") auto
  then have "\<exists>headers. fst (file_download_handler ok later
      (percent_decode (drop (length ''/files/'') (file_download_url (meta_filename md)))) ?a'') = Inr (headers, del_data d)"
    unfolding file_download_handler_def md(1) announced_request [OF assms(5)]
    by (simp add: build_file_download_response_def Let_def)
  then show ?thesis
    using sent ok(1) md by (intro exI [of _ "event_payload_from_metadata md"]) (simp add: event_payload_from_metadata_def ids_ok_def)
qed

subsection \<open>A small server\<close>

text \<open>A ring of the last events behaves as documented.\<close>

definition ring_recv :: "'e list \<Rightarrow> nat \<Rightarrow> 'e received \<times> nat" where
  "ring_recv sent pos =
     (if SERVER_EVENT_CHANNEL_CAPACITY < length sent - pos
      then (RecvLagged (length sent - pos - SERVER_EVENT_CHANNEL_CAPACITY), length sent - SERVER_EVENT_CHANNEL_CAPACITY)
      else if pos < length sent then (RecvEvent (sent ! pos), Suc pos)
      else (RecvPending, pos))"

lemma ring_recv_contract: "broadcast_contract ring_recv"
  by (auto simp: broadcast_contract_def ring_recv_def SERVER_EVENT_CHANNEL_CAPACITY_def)

definition no_query :: "'f EventsQuery" where
  "no_query =
     \<lparr>q_event = None, q_filename = None, q_source = None, q_pil = None, q_family = None, q_container = None,
      q_wmo_prefix = None, q_office = None, q_office_city = None, q_office_state = None, q_bbb_kind = None,
      q_cccc = None, q_ttaaii = None, q_afos = None, q_bbb = None, q_has_issues = None, q_issue_kind = None,
      q_issue_code = None, q_has_vtec = None, q_has_ugc = None, q_has_hvtec = None, q_has_latlon = None,
      q_has_time_mot_loc = None, q_has_wind_hail = None, q_state = None, q_county = None, q_zone = None,
      q_fire_zone = None, q_marine_zone = None, q_vtec_phenomena = None, q_vtec_significance = None,
      q_vtec_action = None, q_vtec_office = None, q_etn = None, q_hvtec_nwslid = None, q_hvtec_severity = None,
      q_hvtec_cause = None, q_hvtec_record = None, q_wind_hail_kind = None, q_lat = None, q_lon = None,
      q_distance_miles = None, q_min_wind_mph = None, q_min_hail_inches = None, q_min_size = None,
      q_max_size = None\<rparr>"

definition demo_ext :: "(real, unit, unit, unit) server_ext" where
  "demo_ext =
     \<lparr>sx_f64 = exact_ops,
      sx_parser = \<lparr>enrich_product = \<lambda>_ _. meta_product tornado_warning, summarize_product_v2 = \<lambda>_. (), detail_product_v2 = \<lambda>_. ()\<rparr>,
      sx_render = \<lparr>product_json = \<lambda>_. None, summary_json = \<lambda>_. None, qbt_telemetry_json = \<lambda>_. None, wx_telemetry_json = \<lambda>_. None,
        debug_version = \<lambda>_. [], debug_qbt_warning = \<lambda>_. [], debug_wx_warning = \<lambda>_. [], json_text = \<lambda>_. Some ''{...}''\<rparr>,
      sx_zip = \<lparr>zip_len = \<lambda>_. None, zip_first = \<lambda>_. None\<rparr>, sx_json = \<lambda>_. Inr [], sx_archives = True, sx_recv = ring_recv,
      sx_header_ok = \<lambda>_. True\<rparr>"

definition demo_server :: "(real, (real, unit) ProductEnrichment, unit, unit) server" where
  "demo_server = server_new (app_state_new 10 60 1 None 0 True)"

lemma no_query_accepted:
  "\<exists>f. try_from_query exact_ops no_query = Inr f \<and> event_matches_filter exact_ops f (EvConnected e)"
proof -
  have "input_from_query no_query = (no_parameters :: real FileFilterInput)" by (simp add: input_from_query_def no_query_def no_parameters_def)
  moreover have "csv_values None norm = None" for norm by (simp add: csv_values_def)
  ultimately show ?thesis
    by (simp add: try_from_query_def no_query_def no_parameters_def try_from_input_def location_try_from_input_def location_center_def
        size_range_reversed_def option_zip_def event_matches_filter_def filter_has_constraints_def size_has_constraints_def
        product_has_constraints_def header_has_constraints_def issues_has_constraints_def geo_has_constraints_def
        vtec_has_constraints_def hvtec_has_constraints_def wind_hail_has_constraints_def location_has_constraints_def
        presence_has_constraints_def)
qed

theorem stream_delivers_what_was_asked_witness:
  "\<exists>tr0 s tr s1. run_server demo_ext [EventsRequest 1 ''peer'' None no_query] demo_server = Some (tr0, s)
     \<and> run_server demo_ext [IngestItem (0, 0) (Inr (IngestConnected ''host'')), Poll 1] s = Some (tr, s1)
     \<and> events_to 1 tr = [SseEvent 1 ''connected'' ''{...}'']"
proof -
  obtain f :: "real EventFilter" where f: "try_from_query exact_ops no_query = Inr f"
    and all: "event_matches_filter exact_ops f (EvConnected ''host'' :: (real, unit, unit, unit) file_metadata EventKind)"
    using no_query_accepted by blast
  let ?st = "\<lparr>st_pos = 0, st_last_id = 0, st_filter = f, st_peer = ''peer''\<rparr>"
  let ?event = "\<lparr>ev_id = 1, ev_kind = EvConnected ''host''\<rparr>"
  define s where "s = demo_server\<lparr>srv_app := (srv_app demo_server)\<lparr>connected_clients := 1\<rparr>, srv_streams := [(1, ?st)]\<rparr>"
  define s1 where "s1 = s\<lparr>srv_app := publish (EvConnected ''host'') ((srv_app s)\<lparr>upstream_endpoint := Some ''host''\<rparr>),
    srv_streams := [(1, ?st\<lparr>st_pos := 1, st_last_id := 1\<rparr>)]\<rparr>"
  have run0: "run_server demo_ext [EventsRequest 1 ''peer'' None no_query] demo_server = Some ([Opened 1], s)"
    using f by (simp add: s_def demo_server_def server_new_def app_state_new_def demo_ext_def events_handler_def query_size_reversed_def
        no_query_def option_zip_def Let_def)
  have run: "run_server demo_ext [IngestItem (0, 0) (Inr (IngestConnected ''host'')), Poll 1] s =
      Some ([Yielded 1 (SseEvent 1 ''connected'' ''{...}'')], s1)"
    using all by (simp add: s1_def s_def demo_server_def server_new_def app_state_new_def demo_ext_def publish_def poll_stream_def
        ring_recv_def SERVER_EVENT_CHANNEL_CAPACITY_def sse_event_def Let_def)
  have "event_sent (srv_app s1) = [?event]" by (simp add: s1_def s_def publish_def demo_server_def server_new_def app_state_new_def Let_def)
  moreover have "broadcast_contract (sx_recv demo_ext)" by (simp add: demo_ext_def ring_recv_contract)
  moreover have "\<forall>e\<in>set [IngestItem (0, 0) (Inr (IngestConnected ''host'')), Poll 1 :: real server_event]. \<not> opens 1 e"
    by (simp add: opens_def)
  moreover have "map_of (srv_streams s) 1 = Some ?st" "map_of (srv_streams s1) 1 = Some (?st\<lparr>st_pos := 1, st_last_id := 1\<rparr>)"
    by (simp_all add: s_def s1_def)
  ultimately have "\<exists>is. is = [0..<1] \<and> events_to 1 [Yielded 1 (SseEvent 1 ''connected'' ''{...}'')] =
      map (\<lambda>i. sse_event (sx_parser demo_ext) (sx_render demo_ext) (event_sent (srv_app s1) ! i))
        (filter (\<lambda>i. asked_for demo_ext ?st (event_sent (srv_app s1) ! i)) is)"
    using stream_delivers_what_was_asked [OF run0 [unfolded demo_server_def] run, of 1 ?st "?st\<lparr>st_pos := 1, st_last_id := 1\<rparr>"]
    by auto
  then have "events_to 1 [Yielded 1 (SseEvent 1 ''connected'' ''{...}'')] = [SseEvent 1 ''connected'' ''{...}'']" by simp
  then show ?thesis using run0 run by blast
qed

definition reversed_query :: "real EventsQuery" where
  "reversed_query = no_query\<lparr>q_min_size := Some 2, q_max_size := Some 1\<rparr>"

lemma demo_bad_request:
  "run_server demo_ext [EventsRequest 1 ''peer'' None reversed_query] demo_server =
    Some ([Rejected 1 (RejectBadRequest ''min_size must be less than or equal to max_size'')],
      demo_server\<lparr>srv_app := (srv_app demo_server)\<lparr>connected_clients := 1\<rparr>\<rparr>)"
  by (simp add: reversed_query_def demo_server_def server_new_def app_state_new_def demo_ext_def events_handler_def
      query_size_reversed_def option_zip_def Let_def)

theorem connected_clients_bounded_witness:
  "\<exists>tr s. run_server demo_ext [EventsRequest 1 ''peer'' None reversed_query] demo_server = Some (tr, s)
     \<and> connected_clients (srv_app s) \<le> max 1 1 \<and> connected_clients (srv_app s) = length (srv_streams s) + bad_requests tr"
proof -
  show ?thesis
    using demo_bad_request connected_clients_bounded [OF demo_bad_request [unfolded demo_server_def]]
    unfolding demo_server_def [symmetric] by blast
qed

theorem bad_queries_exhaust_clients_witness:
  "\<exists>tr s. run_server demo_ext [EventsRequest 1 ''peer'' None reversed_query] demo_server = Some (tr, s)
     \<and> (\<exists>tr' s'. run_server demo_ext [EventsRequest 2 ''peer'' None no_query] s = Some (tr', s')
        \<and> tr' \<noteq> [] \<and> (\<forall>r\<in>set tr'. \<exists>c. r = Rejected c RejectTooMany))"
proof -
  let ?s = "demo_server\<lparr>srv_app := (srv_app demo_server)\<lparr>connected_clients := 1\<rparr>\<rparr>"
  have next_run: "run_server demo_ext [EventsRequest 2 ''peer'' None no_query] ?s = Some ([Rejected 2 RejectTooMany], ?s)"
    by (simp add: demo_server_def server_new_def app_state_new_def demo_ext_def events_handler_def)
  have "\<forall>r\<in>set [Rejected 2 RejectTooMany]. \<exists>c. r = Rejected c RejectTooMany"
    using bad_queries_exhaust_clients [OF demo_bad_request [unfolded demo_server_def] _ next_run [unfolded demo_server_def]]
    by (simp add: bad_requests_def)
  then show ?thesis using demo_bad_request next_run by blast
qed

definition demo_product :: ReceivedProduct where
  "demo_product = \<lparr>prod_filename = ''A.TXT'', prod_data = [65, 66], prod_source_timestamp_utc = 0, prod_origin = OriginQbt\<rparr>"

theorem announced_product_can_be_downloaded_witness:
  "\<exists>rs s' headers. \<exists>payload :: (real, unit, unit, unit) file_metadata CompletedFileEventPayload.
     server_step demo_ext (IngestItem (5, 5) (Inr (Product demo_product))) demo_server = Some (rs, s')
     \<and> meta_filename (cfe_metadata payload) = ''A.TXT''
     \<and> (\<exists>tr'' s''. run_server demo_ext [FilesRequest 6, HealthRequest 1 6] s' = Some (tr'', s'')
         \<and> fst (file_download_handler (\<lambda>_. True) 7 (percent_decode (drop (length ''/files/'') (cfe_download_url payload))) (srv_app s'')) =
             Inr (headers, [65, 66]))"
proof -
  have arch: "post_process_archive (sx_zip demo_ext) (sx_archives demo_ext) (prod_filename demo_product) (prod_data demo_product) =
      Inr \<lparr>del_filename = ''A.TXT'', del_data = [65, 66]\<rparr>"
    using rsplit_once_append [of "CHR ''.''" "''TXT''" "''A''"]
    by (simp add: demo_ext_def demo_product_def post_process_archive_def is_archive_filename_def
        eq_ignore_ascii_case_def to_ascii_lowercase_def ascii_lower_def is_ascii_uppercase_def char_of_def bit_0)
  obtain rs s' where step: "server_step demo_ext (IngestItem (5, 5) (Inr (Product demo_product))) demo_server = Some (rs, s')" "srv_ingesting s'"
  proof -
    have "app_persistence (srv_app demo_server) = None" "srv_ingesting demo_server"
      by (simp_all add: demo_server_def server_new_def app_state_new_def)
    then show thesis
      using that handle_product_without_store [OF arch, of "srv_app demo_server" "sx_parser demo_ext" "sx_json demo_ext" "(5, 5)"]
      by (cases "handle_product (sx_parser demo_ext) (sx_zip demo_ext) (sx_json demo_ext) (sx_archives demo_ext) (5, 5)
        demo_product (srv_app demo_server)") simp
  qed
  have name: "sanitize_requested_filename ''A.TXT'' = Some ''A.TXT''"
    by (simp add: sanitize_fixed_iff trim_graphic is_graphic_def str_contains_def starts_with_def)
  have run: "run_server demo_ext [] demo_server = Some ([], demo_server)" by simp
  obtain tr'' s'' where further: "run_server demo_ext [FilesRequest 6, HealthRequest 1 6] s' = Some (tr'', s'')" by simp
  have quiet: "delivered_names demo_ext [FilesRequest 6, HealthRequest 1 6] = []" by (simp add: map_filter_simps)
  have live: "\<forall>time\<in>set (7 # concat (map readings [FilesRequest 6, HealthRequest 1 6 :: real server_event])).
      time - 5 \<le> int (max 60 1 * 10 ^ 9)" by simp
  note announced = announced_product_can_be_downloaded
    [OF run [unfolded demo_server_def] step(1) [unfolded demo_server_def] step(2) arch _ further _ _ live, of "\<lambda>_. True"]
  obtain payload :: "(real, unit, unit, unit) file_metadata CompletedFileEventPayload" and headers where "meta_filename (cfe_metadata payload) = ''A.TXT''"
      "fst (file_download_handler (\<lambda>_. True) 7 (percent_decode (drop (length ''/files/'') (cfe_download_url payload))) (srv_app s'')) =
        Inr (headers, [65, 66])"
    using announced name unfolding quiet by auto
  then show ?thesis using step(1) further by blast
qed

end
