(* ===== verification/Body_Fields.thy ===== *)
theory Body_Fields
  imports Product_Model "HOL-Library.Monad_Syntax"
begin

text \<open>
  The remaining fields of a product's text (\<open>emwin-parser/src/body\<close>): warning polygons (\<open>latlon.rs\<close>),
  storm motion (\<open>time_mot_loc.rs\<close>), wind and hail tags (\<open>wind_hail.rs\<close>) and the printing of geometry
  (\<open>support.rs\<close>).

  A function that slices a token returns \<open>None\<close> when the slice is off a character boundary, which
  panics; a slice that begins at a marker or at another ASCII character is always on a boundary and
  is written with \<open>drop\<close> and \<open>take\<close>. The operations on \<open>f64\<close> that reading and printing need extend the
  record of floating-point operations.
\<close>

subsection \<open>Core-library operations\<close>

record 'f f64_text_ops = "'f f64_ops" +
  f_neg :: "'f \<Rightarrow> 'f"
  f_eq :: "'f \<Rightarrow> 'f \<Rightarrow> bool"
  f_parse :: "string \<Rightarrow> 'f option"
  f_fixed :: "nat \<Rightarrow> 'f \<Rightarrow> string"

text \<open>\<open>?\<close> on an \<open>Option\<close> in a function that may panic.\<close>

definition try_some :: "'a option panics \<Rightarrow> ('a \<Rightarrow> 'b option panics) \<Rightarrow> 'b option panics" where
  "try_some x f = (case x of None \<Rightarrow> None | Some None \<Rightarrow> Some None | Some (Some a) \<Rightarrow> f a)"

lemma trim_seqs_length: "length (trim_seqs ws s) \<le> length s"
  by (induction ws s rule: trim_seqs.induct) (subst trim_seqs.simps, fastforce split: option.splits)

lemma trim_start_length: "length (trim_start s) \<le> length s"
  by (simp add: trim_start_def trim_seqs_length)

lemma trim_end_length: "length (trim_end s) \<le> length s"
  using trim_seqs_length [of "map rev unicode_white_space" "rev s"] by (simp add: trim_end_def)

lemma white_front_trim_start: "white_front (trim_start s) = None"
proof -
  have "find (\<lambda>w. w \<noteq> [] \<and> starts_with (trim_seqs ws s) w) ws = None" for ws :: "string list"
    by (induction ws s rule: trim_seqs.induct) (subst trim_seqs.simps, auto split: option.splits)
  then show ?thesis by (simp add: white_front_def trim_start_def)
qed

text \<open>\<open>str::split_whitespace\<close>.\<close>

function split_whitespace :: "string \<Rightarrow> string list" where
  "split_whitespace s =
     (let t = trim_start s
      in if t = [] then [] else first_word t # split_whitespace (drop (length (first_word t)) t))"
  by pat_completeness auto
termination
proof (relation "measure length", simp)
  fix s t :: string
  assume t: "t = trim_start s" "t \<noteq> []"
  then have "white_front t = None" by (simp add: white_front_trim_start)
  then have "first_word t \<noteq> []" using t(2) by (cases t) auto
  then show "(drop (length (first_word t)) t, s) \<in> measure length"
    using t(2) trim_start_length [of s] unfolding t(1) [symmetric] by (cases "first_word t"; cases t) auto
qed

declare split_whitespace.simps [simp del]

definition trim_start_matches :: "char \<Rightarrow> string \<Rightarrow> string" where
  "trim_start_matches c s = dropWhile ((=) c) s"

definition parse_part :: "'f f64_text_ops \<Rightarrow> string \<Rightarrow> nat \<Rightarrow> nat \<Rightarrow> 'f option panics" where
  "parse_part F s a b = map_option (f_parse F) (str_slice s a b)"

text \<open>
  The loop that appends wrapped lines to a marker line. \<open>ends\<close> decides that a line does not belong to it any
  more, \<open>enough\<close> that the text is complete, after which the next line is looked at before the next round.
\<close>

fun join_continuation :: "(string \<Rightarrow> bool) \<Rightarrow> (string \<Rightarrow> bool) \<Rightarrow> string \<Rightarrow> usize \<Rightarrow> string list \<Rightarrow> string \<times> usize" where
  "join_continuation ends enough raw consumed [] = (raw, consumed)"
| "join_continuation ends enough raw consumed (line # rest) =
     (let next_line = trim line
      in if ends next_line then (raw, consumed)
         else
           let raw1 = (if raw \<noteq> [] then raw @ '' '' else raw) @ next_line
           in if enough raw1
              then (case rest of
                      [] \<Rightarrow> (raw1, consumed + 1)
                    | peek # _ \<Rightarrow>
                        if ends (trim peek) then (raw1, consumed + 1)
                        else join_continuation ends enough raw1 (consumed + 1) rest)
              else join_continuation ends enough raw1 (consumed + 1) rest)"

definition header_word :: "string \<Rightarrow> bool" where
  "header_word trimmed =
     (case split_whitespace trimmed of
        [] \<Rightarrow> False
      | token # _ \<Rightarrow> list_all is_ascii_uppercase token \<and> length token \<ge> 3)"

subsection \<open>support.rs\<close>

definition format_linestring_wkt :: "'f f64_text_ops \<Rightarrow> ('f \<times> 'f) list \<Rightarrow> string" where
  "format_linestring_wkt F points =
     (case points of
        [(lat, lon)] \<Rightarrow> ''POINT('' @ f_fixed F 4 lon @ '' '' @ f_fixed F 4 lat @ '')''
      | _ \<Rightarrow> ''LINESTRING('' @ join '', '' (map (\<lambda>(lat, lon). f_fixed F 4 lon @ '' '' @ f_fixed F 4 lat) points) @ '')'')"

definition format_polygon_wkt :: "'f f64_text_ops \<Rightarrow> ('f \<times> 'f) list \<Rightarrow> string" where
  "format_polygon_wkt F points =
     ''POLYGON(('' @ join '', '' (map (\<lambda>(lat, lon). f_fixed F 6 lon @ '' '' @ f_fixed F 6 lat) points) @ ''))''"

subsection \<open>latlon.rs\<close>

definition LATLON_MARKER :: string where
  "LATLON_MARKER = ''LAT...LON''"

record LatLonCandidate =
  llc_raw :: string
  llc_source_line :: string

definition latlon_issue :: "string \<Rightarrow> string \<Rightarrow> string \<Rightarrow> ProductParseIssue" where
  "latlon_issue code message raw = parse_issue ''latlon_parse'' code (message @ '': `'' @ raw @ ''`'') (Some raw)"

definition latlon_count_issue :: "string \<Rightarrow> ProductParseIssue" where
  "latlon_count_issue raw = latlon_issue ''invalid_latlon_coordinate_count'' ''LAT...LON block has an invalid coordinate count'' raw"

definition latlon_invalid_format_issue :: "string \<Rightarrow> ProductParseIssue" where
  "latlon_invalid_format_issue raw = latlon_issue ''invalid_latlon_format'' ''could not parse LAT...LON block'' raw"

definition latlon_value_issue :: "bool \<Rightarrow> string \<Rightarrow> ProductParseIssue" where
  "latlon_value_issue is_latitude raw =
     (if is_latitude
      then latlon_issue ''invalid_latlon_latitude'' ''could not parse LAT...LON latitude from block'' raw
      else latlon_issue ''invalid_latlon_longitude'' ''could not parse LAT...LON longitude from block'' raw)"

definition latlon_looks_like_coordinate_line :: "string \<Rightarrow> bool" where
  "latlon_looks_like_coordinate_line line =
     list_all (\<lambda>token.
       let digits = trim_start_matches (CHR ''-'') token in digits \<noteq> [] \<and> list_all is_ascii_digit digits)
       (split_whitespace line)"

definition latlon_starts_new_section_header :: "string \<Rightarrow> bool" where
  "latlon_starts_new_section_header line =
     (let trimmed = trim line
      in trimmed \<noteq> [] \<and> \<not> latlon_looks_like_coordinate_line trimmed
         \<and> (str_contains trimmed ''...'' \<or> starts_with trimmed ''/'' \<or> header_word trimmed))"

definition latlon_ends :: "string \<Rightarrow> bool" where
  "latlon_ends next_line \<longleftrightarrow>
     next_line = [] \<or> ascii_find_case_insensitive next_line LATLON_MARKER \<noteq> None
     \<or> (latlon_starts_new_section_header next_line \<and> \<not> latlon_looks_like_coordinate_line next_line)"

definition marker_has_coordinates :: "string \<Rightarrow> bool" where
  "marker_has_coordinates raw =
     (case split_whitespace raw of
        marker # token # _ \<Rightarrow>
          eq_ignore_ascii_case marker LATLON_MARKER \<and> list_all is_ascii_digit (trim_start_matches (CHR ''-'') token)
      | _ \<Rightarrow> False)"

definition collect_latlon_candidate :: "string \<Rightarrow> string list \<Rightarrow> usize \<Rightarrow> string \<times> usize" where
  "collect_latlon_candidate line rest marker_position =
     join_continuation latlon_ends marker_has_coordinates (trim (drop marker_position line)) 1 rest"

function find_latlon_candidates :: "string list \<Rightarrow> LatLonCandidate list" where
  "find_latlon_candidates [] = []"
| "find_latlon_candidates (line # rest) =
     (case ascii_find_case_insensitive line LATLON_MARKER of
        None \<Rightarrow> find_latlon_candidates rest
      | Some marker_position \<Rightarrow>
          let (raw, consumed) = collect_latlon_candidate line rest marker_position
          in \<lparr>llc_raw = raw, llc_source_line = line\<rparr> # find_latlon_candidates (drop (max consumed 1) (line # rest)))"
  by pat_completeness auto
termination by (relation "measure length") auto

definition latlon_parse_coordinate :: "'f f64_text_ops \<Rightarrow> string \<Rightarrow> bool \<Rightarrow> 'f option panics" where
  "latlon_parse_coordinate F text is_latitude =
     (let coord = trim text
      in if starts_with coord ''-'' then Some (f_parse F coord)
         else try_some
           (if length coord = 4 \<or> length coord = 5
            then Some (map_option (\<lambda>hundredths. f_div F hundredths (f_lit F 100)) (f_parse F coord))
            else if length coord = 6
            then try_some (parse_part F coord 0 2) (\<lambda>degrees. try_some (parse_part F coord 2 4) (\<lambda>minutes.
              try_some (parse_part F coord 4 6) (\<lambda>seconds. Some (Some
                (f_add F (f_add F degrees (f_div F minutes (f_lit F 60))) (f_div F seconds (f_lit F 3600)))))))
            else if length coord = 7
            then try_some (parse_part F coord 0 2) (\<lambda>degrees. try_some (parse_part F coord 2 7) (\<lambda>decimal.
              Some (Some (f_add F degrees (f_div F decimal (f_lit F 100000))))))
            else if length coord = 8
            then try_some (parse_part F coord 0 2) (\<lambda>degrees. try_some (parse_part F coord 2 4) (\<lambda>minutes.
              try_some (parse_part F coord 4 6) (\<lambda>seconds. try_some (parse_part F coord 6 8) (\<lambda>hundredths. Some (Some
                (f_add F (f_add F degrees (f_div F minutes (f_lit F 60)))
                  (f_div F (f_add F seconds (f_div F hundredths (f_lit F 100))) (f_lit F 3600))))))))
            else Some (f_parse F coord))
           (\<lambda>value.
             let value1 = (if is_latitude then value
                           else if f_lt F value (f_lit F 40) then f_add F value (f_lit F 100) else value)
             in Some (Some (if is_latitude then value1 else f_neg F value1))))"

definition is_latlon_terminator :: "string \<Rightarrow> bool" where
  "is_latlon_terminator token \<longleftrightarrow> trim token = ''$$'' \<or> trim token = ''&&''"

fun latlon_consume_coordinate_token :: "string \<Rightarrow> string list \<Rightarrow> (string \<times> string list) option" where
  "latlon_consume_coordinate_token token [] = None"
| "latlon_consume_coordinate_token token (t # tokens) =
     (let token1 = token @ trim t
      in if 4 \<le> length token1 \<and> length token1 \<le> 8
         then (if \<not> list_all is_ascii_digit (trim_start_matches (CHR ''-'') token1) then None else Some (token1, tokens))
         else if length token1 > 8 then None
         else latlon_consume_coordinate_token token1 tokens)"

definition latlon_split_packed :: "'f f64_text_ops \<Rightarrow> string list \<Rightarrow> string \<Rightarrow> (string \<times> string) option panics" where
  "latlon_split_packed F normalized token =
     (if starts_with token ''-'' \<or> length token \<noteq> 8 \<or> odd (length normalized) then Some None
      else do {
        lat \<leftarrow> str_slice token 0 4;
        lon \<leftarrow> str_slice token 4 8;
        try_some (latlon_parse_coordinate F lat True) (\<lambda>_.
          try_some (latlon_parse_coordinate F lon False) (\<lambda>_. Some (Some (lat, lon))))
      })"

definition split_fused_coordinate_token :: "'f f64_text_ops \<Rightarrow> string list \<Rightarrow> string \<Rightarrow> (string \<times> string) option panics" where
  "split_fused_coordinate_token F normalized token =
     (if starts_with token ''-'' \<or> length token \<noteq> 8 \<or> even (length normalized) then Some None
      else if list_ex (\<lambda>coord. starts_with coord ''-'' \<or> length coord > 5) normalized then Some None
      else do {
        lon \<leftarrow> str_slice token 0 4;
        lat \<leftarrow> str_slice token 4 8;
        try_some (Some (if normalized = [] then None else Some (last normalized))) (\<lambda>pending_latitude.
          try_some (latlon_parse_coordinate F pending_latitude True) (\<lambda>_.
            try_some (latlon_parse_coordinate F lon False) (\<lambda>_.
              try_some (latlon_parse_coordinate F lat True) (\<lambda>_. Some (Some (lon, lat))))))
      })"

definition fused_issue :: "string \<Rightarrow> string \<Rightarrow> string \<Rightarrow> ProductParseIssue" where
  "fused_issue token lon lat =
     parse_issue ''latlon_parse'' ''latlon_fused_token_repaired''
       (''repaired fused LAT...LON coordinate token `'' @ token @ ''` into `'' @ lon @ ''` `'' @ lat @ ''`'') (Some token)"

lemma latlon_consume_shorter: "latlon_consume_coordinate_token token ts = Some (t, rest) \<Longrightarrow> length rest < length ts"
  by (induction token ts rule: latlon_consume_coordinate_token.induct) (auto simp: Let_def split: if_splits)

function latlon_normalize ::
    "'f f64_text_ops \<Rightarrow> string list \<Rightarrow> ProductParseIssue list \<Rightarrow> string list
      \<Rightarrow> (string list \<times> ProductParseIssue list) option panics" where
  "latlon_normalize F normalized issues [] = Some (Some (normalized, issues))"
| "latlon_normalize F normalized issues (t # tokens) =
     (if is_latlon_terminator t then Some (Some (normalized, issues))
      else case latlon_consume_coordinate_token [] (t # tokens) of
             None \<Rightarrow> Some None
           | Some (token, rest) \<Rightarrow>
               (case latlon_split_packed F normalized token of
                  None \<Rightarrow> None
                | Some (Some (lat, lon)) \<Rightarrow> latlon_normalize F (normalized @ [lat, lon]) issues rest
                | Some None \<Rightarrow>
                    (case split_fused_coordinate_token F normalized token of
                       None \<Rightarrow> None
                     | Some (Some (lon, lat)) \<Rightarrow>
                         latlon_normalize F (normalized @ [lon, lat]) (issues @ [fused_issue token lon lat]) rest
                     | Some None \<Rightarrow> latlon_normalize F (normalized @ [token]) issues rest)))"
  by pat_completeness auto
termination
  by (relation "measure (\<lambda>(F, n, i, ts). length ts)") (auto dest!: latlon_consume_shorter simp del: latlon_consume_coordinate_token.simps)

fun latlon_points_loop ::
    "'f f64_text_ops \<Rightarrow> string \<Rightarrow> 'f option \<Rightarrow> ('f \<times> 'f) list \<Rightarrow> string list \<Rightarrow> (ProductParseIssue + ('f \<times> 'f) list) panics" where
  "latlon_points_loop F raw pending_latitude points [] =
     Some (if pending_latitude \<noteq> None \<or> length points < 3 then Inl (latlon_count_issue raw) else Inr points)"
| "latlon_points_loop F raw pending_latitude points (coord # coords) =
     (if length coord = 8 \<and> \<not> starts_with coord ''-'' then
        if pending_latitude \<noteq> None then Some (Inl (latlon_count_issue raw))
        else do {
          lat_text \<leftarrow> str_slice coord 0 4;
          lat \<leftarrow> latlon_parse_coordinate F lat_text True;
          case lat of
            None \<Rightarrow> Some (Inl (latlon_value_issue True raw))
          | Some lat \<Rightarrow> do {
              lon_text \<leftarrow> str_slice coord 4 (length coord);
              lon \<leftarrow> latlon_parse_coordinate F lon_text False;
              case lon of
                None \<Rightarrow> Some (Inl (latlon_value_issue False raw))
              | Some lon \<Rightarrow> latlon_points_loop F raw None (points @ [(lat, lon)]) coords
            }
        }
      else do {
        v \<leftarrow> latlon_parse_coordinate F coord (pending_latitude = None);
        case v of
          None \<Rightarrow> Some (Inl (latlon_value_issue (pending_latitude = None) raw))
        | Some value \<Rightarrow>
            (case pending_latitude of
               Some lat \<Rightarrow> latlon_points_loop F raw None (points @ [(lat, value)]) coords
             | None \<Rightarrow> latlon_points_loop F raw (Some value) points coords)
      })"

definition latlon_parse_points :: "'f f64_text_ops \<Rightarrow> string list \<Rightarrow> string \<Rightarrow> (ProductParseIssue + ('f \<times> 'f) list) panics" where
  "latlon_parse_points F coords raw = latlon_points_loop F raw None [] coords"

definition point_xy :: "'f \<times> 'f \<Rightarrow> 'f \<times> 'f" where
  "point_xy point = (snd point, fst point)"

definition orientation :: "'f f64_text_ops \<Rightarrow> 'f \<times> 'f \<Rightarrow> 'f \<times> 'f \<Rightarrow> 'f \<times> 'f \<Rightarrow> 'f" where
  "orientation F first second third =
     f_sub F (f_mul F (f_sub F (snd second) (snd first)) (f_sub F (fst third) (fst second)))
       (f_mul F (f_sub F (fst second) (fst first)) (f_sub F (snd third) (snd second)))"

definition segments_intersect :: "'f f64_text_ops \<Rightarrow> 'f \<times> 'f \<Rightarrow> 'f \<times> 'f \<Rightarrow> 'f \<times> 'f \<Rightarrow> 'f \<times> 'f \<Rightarrow> bool" where
  "segments_intersect F first_start first_end second_start second_end =
     (let first_orientation = orientation F first_start first_end second_start;
          second_orientation = orientation F first_start first_end second_end;
          third_orientation = orientation F second_start second_end first_start;
          fourth_orientation = orientation F second_start second_end first_end
      in f_lt F (f_mul F first_orientation second_orientation) (f_lit F 0)
         \<and> f_lt F (f_mul F third_orientation fourth_orientation) (f_lit F 0))"

definition has_self_intersection :: "'f f64_text_ops \<Rightarrow> ('f \<times> 'f) list \<Rightarrow> bool" where
  "has_self_intersection F points =
     (let segment_count = length points - 1
      in list_ex (\<lambda>first_index. list_ex (\<lambda>second_index.
           \<not> (second_index = first_index + 1 \<or> (first_index = 0 \<and> second_index = segment_count - 1))
           \<and> segments_intersect F (point_xy (points ! first_index)) (point_xy (points ! (first_index + 1)))
               (point_xy (points ! second_index)) (point_xy (points ! (second_index + 1))))
         [first_index + 1..<segment_count]) [0..<segment_count])"

definition point_eq :: "'f f64_text_ops \<Rightarrow> 'f \<times> 'f \<Rightarrow> 'f \<times> 'f \<Rightarrow> bool" where
  "point_eq F p q \<longleftrightarrow> f_eq F (fst p) (fst q) \<and> f_eq F (snd p) (snd q)"

definition validate_polygon :: "'f f64_text_ops \<Rightarrow> ('f \<times> 'f) list \<Rightarrow> string \<Rightarrow> ProductParseIssue + ('f \<times> 'f) list" where
  "validate_polygon F points raw =
     (if length points < 3 then Inl (latlon_count_issue raw)
      else
        let closed = (if \<not> point_eq F (hd points) (last points) then points @ [hd points] else points)
        in if length closed > 4 \<and> has_self_intersection F closed
           then Inl (latlon_issue ''latlon_geometry_invalid'' ''LAT...LON block produced a self-intersecting polygon'' raw)
           else Inr closed)"

definition parse_latlon_candidate ::
    "'f f64_text_ops \<Rightarrow> LatLonCandidate \<Rightarrow> ('f LatLonPolygon option \<times> ProductParseIssue list) panics" where
  "parse_latlon_candidate F candidate =
     (let raw = trim (llc_raw candidate)
      in case split_whitespace raw of
           [] \<Rightarrow> Some (None, [latlon_invalid_format_issue raw])
         | marker # raw_coords \<Rightarrow>
             if \<not> eq_ignore_ascii_case marker LATLON_MARKER then Some (None, [latlon_invalid_format_issue raw])
             else do {
               normal \<leftarrow> latlon_normalize F [] [] raw_coords;
               case normal of
                 None \<Rightarrow> Some (None, [latlon_issue ''invalid_latlon_coordinate_format''
                   ''could not normalize LAT...LON coordinates from block'' raw])
               | Some (coords, issues) \<Rightarrow> do {
                   parsed \<leftarrow> latlon_parse_points F coords raw;
                   case parsed of
                     Inl issue \<Rightarrow> Some (None, issues @ [issue])
                   | Inr points \<Rightarrow>
                       (case validate_polygon F points raw of
                          Inl issue \<Rightarrow> Some (None, issues @ [issue])
                        | Inr ring \<Rightarrow> Some (Some \<lparr>poly_points = ring, poly_wkt = format_polygon_wkt F ring\<rparr>, issues))
                 }
             })"

definition parse_latlon_polygons_with_issues ::
    "'f f64_text_ops \<Rightarrow> string \<Rightarrow> ('f LatLonPolygon list \<times> ProductParseIssue list) panics" where
  "parse_latlon_polygons_with_issues F text =
     map_option (\<lambda>results. (List.map_filter fst results, concat (map snd results)))
       (map_panics (parse_latlon_candidate F) (find_latlon_candidates (str_lines text)))"

definition parse_latlon_polygons :: "'f f64_text_ops \<Rightarrow> string \<Rightarrow> 'f LatLonPolygon list panics" where
  "parse_latlon_polygons F text = map_option fst (parse_latlon_polygons_with_issues F text)"

subsection \<open>time\_mot\_loc.rs\<close>

definition TML_MARKER :: string where
  "TML_MARKER = ''TIME...MOT...LOC''"

record TimeMotLocCandidate =
  tmc_raw :: string
  tmc_source_line :: string
  tmc_marker_was_embedded :: bool

definition tml_issue :: "string \<Rightarrow> string \<Rightarrow> string \<Rightarrow> ProductParseIssue" where
  "tml_issue code message raw = parse_issue ''time_mot_loc_parse'' code (message @ '': `'' @ raw @ ''`'') (Some raw)"

definition tml_invalid_format_issue :: "string \<Rightarrow> ProductParseIssue" where
  "tml_invalid_format_issue raw = tml_issue ''invalid_time_mot_loc_format'' ''could not parse TIME...MOT...LOC line'' raw"

definition invalid_direction_issue :: "string \<Rightarrow> ProductParseIssue" where
  "invalid_direction_issue raw =
     tml_issue ''invalid_time_mot_loc_direction'' ''could not parse TIME...MOT...LOC direction from line'' raw"

definition invalid_speed_issue :: "string \<Rightarrow> ProductParseIssue" where
  "invalid_speed_issue raw = tml_issue ''invalid_time_mot_loc_speed'' ''could not parse TIME...MOT...LOC speed from line'' raw"

definition invalid_coordinate_format_issue :: "string \<Rightarrow> ProductParseIssue" where
  "invalid_coordinate_format_issue raw =
     tml_issue ''invalid_time_mot_loc_coordinate_format'' ''could not normalize TIME...MOT...LOC coordinates from line'' raw"

definition tml_value_issue :: "bool \<Rightarrow> string \<Rightarrow> ProductParseIssue" where
  "tml_value_issue is_lat raw =
     (if is_lat
      then tml_issue ''invalid_time_mot_loc_latitude'' ''could not parse TIME...MOT...LOC latitude from line'' raw
      else tml_issue ''invalid_time_mot_loc_longitude'' ''could not parse TIME...MOT...LOC longitude from line'' raw)"

lemma ascii_find_bound: "ascii_find_case_insensitive s m = Some p \<Longrightarrow> m \<noteq> [] \<Longrightarrow> p + length m \<le> length s"
  by (auto simp: ascii_find_case_insensitive_def windows_def split: if_splits dest!: position_SomeD)

function count_in_line :: "string \<Rightarrow> usize" where
  "count_in_line search =
     (case ascii_find_case_insensitive search TML_MARKER of
        None \<Rightarrow> 0
      | Some pos \<Rightarrow> 1 + count_in_line (drop (pos + length TML_MARKER) search))"
  by pat_completeness auto
termination
  by (relation "measure length") (auto simp: TML_MARKER_def dest!: ascii_find_bound)

declare count_in_line.simps [simp del]

definition count_markers :: "string \<Rightarrow> usize" where
  "count_markers text = sum_list (map count_in_line (str_lines text))"

definition tml_looks_like_coordinate_line :: "string \<Rightarrow> bool" where
  "tml_looks_like_coordinate_line line =
     list_all (\<lambda>token. token \<noteq> [] \<and> list_all is_ascii_digit token) (split_whitespace line)"

definition tml_starts_new_section_header :: "string \<Rightarrow> bool" where
  "tml_starts_new_section_header line =
     (let trimmed = trim line
      in trimmed \<noteq> [] \<and> \<not> tml_looks_like_coordinate_line trimmed
         \<and> (str_contains trimmed ''...'' \<or> starts_with trimmed ''/'' \<or> header_word trimmed))"

definition tml_ends :: "string \<Rightarrow> bool" where
  "tml_ends next_line \<longleftrightarrow>
     next_line = [] \<or> ascii_find_case_insensitive next_line TML_MARKER \<noteq> None
     \<or> (tml_starts_new_section_header next_line \<and> \<not> tml_looks_like_coordinate_line next_line)"

text \<open>A number with its unit, in one token or in two; the second component is what is left of the tokens.\<close>

definition parse_unit_token :: "string \<Rightarrow> string list \<Rightarrow> u16 option \<times> string list" where
  "parse_unit_token unit tokens =
     (case tokens of
        [] \<Rightarrow> (None, [])
      | token # rest \<Rightarrow>
          (case strip_suffix unit token of
             Some value \<Rightarrow> (parse_word value, rest)
           | None \<Rightarrow>
               if list_all is_ascii_digit token
               then (case rest of
                       [] \<Rightarrow> (None, [])
                     | u # rest1 \<Rightarrow> (if eq_ignore_ascii_case u unit then parse_word token else None, rest1))
               else (None, rest)))"

definition parse_degrees_token :: "string list \<Rightarrow> u16 option \<times> string list" where
  "parse_degrees_token tokens = parse_unit_token ''DEG'' tokens"

definition parse_speed_token :: "string list \<Rightarrow> u16 option \<times> string list" where
  "parse_speed_token tokens = parse_unit_token ''KT'' tokens"

definition parse_time_shape :: "string \<Rightarrow> bool" where
  "parse_time_shape token \<longleftrightarrow> length token = 5 \<and> ends_with token ''Z'' \<and> list_all is_ascii_digit (take 4 token)"

definition parse_time_token :: "chrono_ext \<Rightarrow> string \<Rightarrow> datetime \<Rightarrow> datetime option" where
  "parse_time_token C token reference_time =
     (if \<not> parse_time_shape token then None
      else do {
        hour \<leftarrow> (parse_word (take 2 token) :: u32 option);
        minute \<leftarrow> (parse_word (take 2 (drop 2 token)) :: u32 option);
        resolve_clock_time_nearest C reference_time (unat hour) (unat minute)
      })"

definition candidate_has_parseable_prefix :: "string \<Rightarrow> bool" where
  "candidate_has_parseable_prefix raw =
     (case split_whitespace raw of
        marker # time # tokens \<Rightarrow>
          (let (degrees, tokens1) = parse_degrees_token tokens; (speed, tokens2) = parse_speed_token tokens1
           in degrees \<noteq> None \<and> speed \<noteq> None \<and> eq_ignore_ascii_case marker TML_MARKER \<and> parse_time_shape time)
      | _ \<Rightarrow> False)"

definition has_odd_coordinate_tail :: "string \<Rightarrow> bool" where
  "has_odd_coordinate_tail raw =
     (let coord_count = length (snd (parse_speed_token (snd (parse_degrees_token (drop 2 (split_whitespace raw))))))
      in coord_count > 0 \<and> odd coord_count)"

definition collect_time_mot_loc_candidate :: "string \<Rightarrow> string list \<Rightarrow> usize \<Rightarrow> string option \<times> usize" where
  "collect_time_mot_loc_candidate line rest marker_position =
     (let (raw, consumed) =
            join_continuation tml_ends (\<lambda>raw. candidate_has_parseable_prefix raw \<and> \<not> has_odd_coordinate_tail raw)
              (trim (drop marker_position line)) 1 rest
      in if candidate_has_parseable_prefix raw then (Some raw, consumed) else (None, consumed))"

function find_time_mot_loc_candidates :: "string list \<Rightarrow> TimeMotLocCandidate list" where
  "find_time_mot_loc_candidates [] = []"
| "find_time_mot_loc_candidates (line # rest) =
     (case ascii_find_case_insensitive line TML_MARKER of
        None \<Rightarrow> find_time_mot_loc_candidates rest
      | Some marker_position \<Rightarrow>
          let (raw, consumed) = collect_time_mot_loc_candidate line rest marker_position
          in (case raw of
                None \<Rightarrow> []
              | Some raw \<Rightarrow>
                  [\<lparr>tmc_raw = raw, tmc_source_line = line, tmc_marker_was_embedded = marker_position > 0\<rparr>])
             @ find_time_mot_loc_candidates (drop (max consumed 1) (line # rest)))"
  by pat_completeness auto
termination by (relation "measure length") auto

definition tml_parse_coordinate :: "'f f64_text_ops \<Rightarrow> string \<Rightarrow> bool \<Rightarrow> 'f option panics" where
  "tml_parse_coordinate F text is_lat =
     (let digits = trim_start_matches (CHR ''-'') (trim text);
          negative = \<not> is_lat;
          degrees_digits = (if is_lat then 2 else 3)
      in try_some
           (if length digits = 4
            then try_some (parse_part F digits 0 2) (\<lambda>degrees. try_some (parse_part F digits 2 4) (\<lambda>hundredths.
              Some (Some (f_add F degrees (f_div F hundredths (f_lit F 100))))))
            else if length digits = 5
            then try_some (parse_part F digits 0 degrees_digits) (\<lambda>degrees.
              try_some (parse_part F digits degrees_digits (length digits)) (\<lambda>hundredths.
                Some (Some (f_add F degrees (f_div F hundredths (f_lit F 100))))))
            else if length digits = 6
            then let minutes_digits = length digits - degrees_digits
              in try_some (parse_part F digits 0 degrees_digits) (\<lambda>degrees.
                try_some (parse_part F digits degrees_digits (degrees_digits + minutes_digits)) (\<lambda>minutes.
                  Some (Some (f_add F degrees (f_div F minutes (f_lit F 60))))))
            else if length digits = 8
            then let whole_minutes_digits = 2; hundredths_digits = length digits - degrees_digits - whole_minutes_digits
              in try_some (parse_part F digits 0 degrees_digits) (\<lambda>degrees.
                try_some (parse_part F digits degrees_digits (degrees_digits + whole_minutes_digits)) (\<lambda>whole_minutes.
                  try_some (parse_part F digits (degrees_digits + whole_minutes_digits)
                      (degrees_digits + whole_minutes_digits + hundredths_digits)) (\<lambda>hundredths.
                    Some (Some (f_add F degrees
                      (f_div F (f_add F whole_minutes (f_div F hundredths (f_lit F 100))) (f_lit F 60)))))))
            else Some None)
           (\<lambda>value. Some (Some (if negative then f_neg F value else value))))"

fun tml_consume_coordinate_token :: "string \<Rightarrow> string list \<Rightarrow> (string \<times> string list) option" where
  "tml_consume_coordinate_token token [] = None"
| "tml_consume_coordinate_token token (t # tokens) =
     (let token1 = token @ trim t
      in if 4 \<le> length token1 \<and> length token1 \<le> 8 then Some (token1, tokens)
         else if length token1 > 8 then None
         else tml_consume_coordinate_token token1 tokens)"

definition tml_split_packed :: "'f f64_text_ops \<Rightarrow> string list \<Rightarrow> string \<Rightarrow> (string \<times> string) option panics" where
  "tml_split_packed F normalized token =
     (if length token \<noteq> 8 \<or> odd (length normalized) then Some None
      else do {
        lat \<leftarrow> str_slice token 0 4;
        lon \<leftarrow> str_slice token 4 8;
        try_some (tml_parse_coordinate F lat True) (\<lambda>_.
          try_some (tml_parse_coordinate F lon False) (\<lambda>_. Some (Some (lat, lon))))
      })"

lemma tml_consume_shorter: "tml_consume_coordinate_token token ts = Some (t, rest) \<Longrightarrow> length rest < length ts"
  by (induction token ts rule: tml_consume_coordinate_token.induct) (auto simp: Let_def split: if_splits)

function tml_normalize :: "'f f64_text_ops \<Rightarrow> string list \<Rightarrow> string list \<Rightarrow> string list option panics" where
  "tml_normalize F normalized [] = Some (Some normalized)"
| "tml_normalize F normalized (t # tokens) =
     (case tml_consume_coordinate_token [] (t # tokens) of
        None \<Rightarrow> Some None
      | Some (token, rest) \<Rightarrow>
          (case tml_split_packed F normalized token of
             None \<Rightarrow> None
           | Some (Some (lat, lon)) \<Rightarrow> tml_normalize F (normalized @ [lat, lon]) rest
           | Some None \<Rightarrow> tml_normalize F (normalized @ [token]) rest))"
  by pat_completeness auto
termination
  by (relation "measure (\<lambda>(F, n, ts). length ts)") (auto dest!: tml_consume_shorter simp del: tml_consume_coordinate_token.simps)

fun tml_points_loop :: "'f f64_text_ops \<Rightarrow> string \<Rightarrow> string list \<Rightarrow> (ProductParseIssue + ('f \<times> 'f) list) panics" where
  "tml_points_loop F raw (lat_text # lon_text # coords) = do {
     lat \<leftarrow> tml_parse_coordinate F lat_text True;
     case lat of
       None \<Rightarrow> Some (Inl (tml_value_issue True raw))
     | Some lat \<Rightarrow> do {
         lon \<leftarrow> tml_parse_coordinate F lon_text False;
         case lon of
           None \<Rightarrow> Some (Inl (tml_value_issue False raw))
         | Some lon \<Rightarrow> map_option (map_sum id ((#) (lat, lon))) (tml_points_loop F raw coords)
       }
   }"
| "tml_points_loop F raw coords = Some (Inr [])"

definition dangling_issue :: "string \<Rightarrow> string \<Rightarrow> ProductParseIssue" where
  "dangling_issue dropped raw =
     parse_issue ''time_mot_loc_parse'' ''time_mot_loc_truncated_dangling_coordinate''
       (''dropped dangling TIME...MOT...LOC coordinate token `'' @ dropped @ ''` after source formatting loss'') (Some raw)"

definition parse_time_mot_loc_candidate ::
    "'f f64_text_ops \<Rightarrow> chrono_ext \<Rightarrow> TimeMotLocCandidate \<Rightarrow> datetime
      \<Rightarrow> (ProductParseIssue + 'f TimeMotLocEntry \<times> ProductParseIssue list) panics" where
  "parse_time_mot_loc_candidate F C candidate reference_time =
     (let raw = trim (tmc_raw candidate)
      in case split_whitespace raw of
           [] \<Rightarrow> Some (Inl (tml_invalid_format_issue raw))
         | marker # tokens \<Rightarrow>
             if \<not> eq_ignore_ascii_case marker TML_MARKER then Some (Inl (tml_invalid_format_issue raw))
             else (case tokens of
               [] \<Rightarrow> Some (Inl (tml_invalid_format_issue raw))
             | time_token # tokens1 \<Rightarrow>
                 (case parse_time_token C time_token reference_time of
                    None \<Rightarrow> Some (Inl (tml_issue ''invalid_time_mot_loc_time''
                      ''could not parse TIME...MOT...LOC time from line'' raw))
                  | Some time_utc \<Rightarrow>
                      (case parse_degrees_token tokens1 of
                         (None, _) \<Rightarrow> Some (Inl (invalid_direction_issue raw))
                       | (Some direction, tokens2) \<Rightarrow>
                           (case parse_speed_token tokens2 of
                              (None, _) \<Rightarrow> Some (Inl (invalid_speed_issue raw))
                            | (Some speed, tokens3) \<Rightarrow> do {
                                normal \<leftarrow> tml_normalize F [] tokens3;
                                case normal of
                                  None \<Rightarrow> Some (Inl (invalid_coordinate_format_issue raw))
                                | Some coords \<Rightarrow>
                                    let issues = (if odd (length coords) then [dangling_issue (last coords) raw] else []);
                                        coord_tokens = (if odd (length coords) then butlast coords else coords)
                                    in if length coord_tokens < 2
                                       then Some (Inl (tml_issue ''invalid_time_mot_loc_coordinate_count''
                                         ''TIME...MOT...LOC line has an invalid coordinate count'' raw))
                                       else do {
                                         parsed \<leftarrow> tml_points_loop F raw coord_tokens;
                                         case parsed of
                                           Inl issue \<Rightarrow> Some (Inl issue)
                                         | Inr points \<Rightarrow> Some (Inr
                                             (\<lparr>tml_time_utc = time_utc, tml_direction_degrees = direction, tml_speed_kt = speed,
                                               tml_points = points, tml_wkt = format_linestring_wkt F points\<rparr>, issues))
                                       }
                              })))))"

text \<open>The results of one candidate, with the warning about its marker first.\<close>

definition tml_candidate_results ::
    "'f f64_text_ops \<Rightarrow> chrono_ext \<Rightarrow> datetime \<Rightarrow> TimeMotLocCandidate
      \<Rightarrow> ('f TimeMotLocEntry list \<times> ProductParseIssue list) panics" where
  "tml_candidate_results F C reference_time candidate =
     map_option (\<lambda>result.
       let embedded = (if tmc_marker_was_embedded candidate
             then [parse_issue ''time_mot_loc_parse'' ''time_mot_loc_poorly_formatted''
               ''TIME...MOT...LOC marker was not line-aligned in the source text'' (Some (tmc_source_line candidate))] else [])
       in case result of
            Inr (entry, parse_issues) \<Rightarrow> ([entry], embedded @ parse_issues)
          | Inl issue \<Rightarrow> ([], embedded @ [issue]))
       (parse_time_mot_loc_candidate F C candidate reference_time)"

definition parse_time_mot_loc_entries_with_issues ::
    "'f f64_text_ops \<Rightarrow> chrono_ext \<Rightarrow> string \<Rightarrow> datetime \<Rightarrow> ('f TimeMotLocEntry list \<times> ProductParseIssue list) panics" where
  "parse_time_mot_loc_entries_with_issues F C text reference_time =
     (let marker_count = count_markers text; candidates = find_time_mot_loc_candidates (str_lines text)
      in map_option (\<lambda>results.
           (concat (map fst results),
            concat (map snd results)
              @ (if marker_count > length candidates
                 then [parse_issue ''time_mot_loc_parse'' ''time_mot_loc_regex_failed_after_marker''
                   ''found TIME...MOT...LOC marker but could not match the expected field layout'' None] else [])))
           (map_panics (tml_candidate_results F C reference_time) candidates))"

definition parse_time_mot_loc_entries ::
    "'f f64_text_ops \<Rightarrow> chrono_ext \<Rightarrow> string \<Rightarrow> datetime \<Rightarrow> 'f TimeMotLocEntry list panics" where
  "parse_time_mot_loc_entries F C text reference_time =
     map_option fst (parse_time_mot_loc_entries_with_issues F C text reference_time)"

subsection \<open>wind\_hail.rs\<close>

text \<open>
  The captures of the regular expression for the legacy tags, one list for each match: entry \<open>i\<close> is the
  text of group \<open>i\<close>, if it took part in the match.
\<close>

type_synonym legacy_regex = "string \<Rightarrow> string option list list"

definition capture :: "string option list \<Rightarrow> nat \<Rightarrow> string option" where
  "capture captures i = (if i < length captures then captures ! i else None)"

definition first_char :: "string \<Rightarrow> char option" where
  "first_char s = (case s of [] \<Rightarrow> None | c # _ \<Rightarrow> Some c)"

definition invalid_wind_hail_issue :: "string \<Rightarrow> ProductParseIssue" where
  "invalid_wind_hail_issue raw =
     parse_issue ''wind_hail_parse'' ''invalid_wind_hail_format'' (''could not parse wind/hail line: `'' @ raw @ ''`'') (Some raw)"

definition invalid_numeric_issue :: "string \<Rightarrow> string \<Rightarrow> ProductParseIssue" where
  "invalid_numeric_issue code raw =
     parse_issue ''wind_hail_parse'' code (''could not parse wind/hail value from line: `'' @ raw @ ''`'') (Some raw)"

definition legacy_match ::
    "'f f64_text_ops \<Rightarrow> string option list \<Rightarrow> 'f WindHailEntry list \<times> ProductParseIssue list" where
  "legacy_match F captures =
     (case capture captures 0 of
        None \<Rightarrow> ([], [])
      | Some raw \<Rightarrow>
          let wind_value = Option.bind (capture captures 2) (f_parse F);
              wind_units = map_option to_ascii_uppercase (capture captures 3);
              hail_value = Option.bind (capture captures 5) (f_parse F)
          in (case (wind_value, wind_units, hail_value) of
                (Some wind, Some units, Some hail) \<Rightarrow>
                  ([\<lparr>wh_kind = LegacyWind, wh_numeric_value = Some wind, wh_units = Some units,
                     wh_comparison = Option.bind (capture captures 1) first_char\<rparr>,
                    \<lparr>wh_kind = LegacyHail, wh_numeric_value = Some hail, wh_units = Some ''IN'',
                     wh_comparison = Option.bind (capture captures 4) first_char\<rparr>], [])
              | _ \<Rightarrow> ([], [invalid_wind_hail_issue raw])))"

definition parse_legacy_wind_hail ::
    "'f f64_text_ops \<Rightarrow> legacy_regex \<Rightarrow> string \<Rightarrow> 'f WindHailEntry list \<times> ProductParseIssue list" where
  "parse_legacy_wind_hail F R text =
     (let results = map (legacy_match F) (R text) in (concat (map fst results), concat (map snd results)))"

definition normalize_modern_label :: "string \<Rightarrow> string" where
  "normalize_modern_label label = to_ascii_uppercase (remove_white label)"

text \<open>The loop that strips the ends of sections.\<close>

definition strip_terminator :: "string \<Rightarrow> string option" where
  "strip_terminator s = (case strip_suffix ''$$'' s of Some t \<Rightarrow> Some t | None \<Rightarrow> strip_suffix ''&&'' s)"

lemma strip_terminator_shorter: "strip_terminator s = Some t \<Longrightarrow> length t < length s"
  by (cases s) (auto simp: strip_terminator_def strip_suffix_def ends_with_def starts_with_def split: option.splits if_splits)

function strip_terminators :: "string \<Rightarrow> string" where
  "strip_terminators normalized =
     (case strip_terminator normalized of
        None \<Rightarrow> normalized
      | Some stripped \<Rightarrow> strip_terminators (trim_end stripped))"
  by pat_completeness auto
termination
  by (relation "measure length") (auto dest!: strip_terminator_shorter intro: le_less_trans [OF trim_end_length])

declare strip_terminators.simps [simp del]

definition normalize_modern_value :: "string \<Rightarrow> string" where
  "normalize_modern_value value =
     trim_end (rev (dropWhile (\<lambda>c. c \<in> {CHR ''.'', CHR '','', CHR '';'', CHR '':''}) (rev (strip_terminators (trim value)))))"

definition split_numeric_and_units :: "string \<Rightarrow> string list \<Rightarrow> (string \<times> string) option" where
  "split_numeric_and_units value allowed_units =
     (case split_whitespace value of
        [] \<Rightarrow> None
      | [first] \<Rightarrow>
          (case position is_ascii_alphabetic first of
             Some (Suc i) \<Rightarrow>
               map_option (Pair (take (Suc i) first))
                 (find (\<lambda>allowed. allowed = to_ascii_uppercase (drop (Suc i) first)) allowed_units)
           | _ \<Rightarrow> None)
      | [first, second] \<Rightarrow> map_option (Pair first) (find (\<lambda>allowed. allowed = to_ascii_uppercase second) allowed_units)
      | _ \<Rightarrow> None)"

definition parse_numeric_value ::
    "'f f64_text_ops \<Rightarrow> string \<Rightarrow> WindHailKind \<Rightarrow> string list \<Rightarrow> string \<Rightarrow> string \<Rightarrow> ProductParseIssue + 'f WindHailEntry" where
  "parse_numeric_value F text kind allowed_units error_code raw =
     (let value = normalize_modern_value text;
          (comparison, remainder) =
            (case value of
               c # cs \<Rightarrow> if c = CHR ''<'' \<or> c = CHR ''>'' then (Some c, trim cs) else (None, value)
             | [] \<Rightarrow> (None, value))
      in case split_numeric_and_units remainder allowed_units of
           None \<Rightarrow> Inl (invalid_numeric_issue error_code raw)
         | Some (numeric_str, units) \<Rightarrow>
             (case f_parse F numeric_str of
                None \<Rightarrow> Inl (invalid_numeric_issue error_code raw)
              | Some numeric_value \<Rightarrow>
                  Inr \<lparr>wh_kind = kind, wh_numeric_value = Some numeric_value, wh_units = Some units, wh_comparison = comparison\<rparr>))"

definition parse_modern_wind_hail_line :: "'f f64_text_ops \<Rightarrow> string \<Rightarrow> ProductParseIssue + 'f WindHailEntry option" where
  "parse_modern_wind_hail_line F line =
     (if line = [] \<or> \<not> str_contains line ''...'' then Inr None
      else case find_sub line ''...'' of
             None \<Rightarrow> Inl (invalid_wind_hail_issue line)
           | Some i \<Rightarrow>
               let label = normalize_modern_label (take i line); value = trim (drop (i + 3) line);
                   threat = (\<lambda>kind. Inr (Some \<lparr>wh_kind = kind, wh_numeric_value = None, wh_units = None, wh_comparison = None\<rparr>))
               in if label = ''HAILTHREAT'' then threat HailThreat
                  else if label = ''WINDTHREAT'' then threat WindThreat
                  else if label = ''HAIL'' \<or> label = ''MAXHAILSIZE''
                  then map_sum id Some (parse_numeric_value F value MaxHailSize [''IN''] ''invalid_wind_hail_hail_value'' line)
                  else if label = ''WIND'' \<or> label = ''MAXWINDGUST''
                  then map_sum id Some (parse_numeric_value F value MaxWindGust [''MPH'', ''KTS''] ''invalid_wind_hail_wind_value'' line)
                  else Inr None)"

definition parse_wind_hail_entries_with_issues ::
    "'f f64_text_ops \<Rightarrow> legacy_regex \<Rightarrow> string \<Rightarrow> 'f WindHailEntry list \<times> ProductParseIssue list" where
  "parse_wind_hail_entries_with_issues F R text =
     (let (legacy_entries, legacy_issues) = parse_legacy_wind_hail F R text;
          (modern, issues) = partition_results (map (\<lambda>raw_line. parse_modern_wind_hail_line F (trim raw_line)) (str_lines text))
      in (legacy_entries @ List.map_filter id modern, legacy_issues @ issues))"

definition parse_wind_hail_entries :: "'f f64_text_ops \<Rightarrow> legacy_regex \<Rightarrow> string \<Rightarrow> 'f WindHailEntry list" where
  "parse_wind_hail_entries F R text = fst (parse_wind_hail_entries_with_issues F R text)"

end
