(* ===== verification/Body.thy ===== *)
theory Body
  imports Body_Fields
begin

text \<open>
  The body of a text product (\<open>emwin-parser/src/body/vtec_events.rs\<close>, \<open>enrich.rs\<close>): the text is cut into
  segments around its event codes, every segment is parsed for all fields, and the plan that the
  catalog holds for a kind of product decides which extractors run. Date parsing, the catalogs,
  floating-point operations and the regular expression for legacy tags are the parameters of
  \<open>body_ext\<close>; a panic of one of the parsers is a panic of the whole.
\<close>

record 'f body_ext =
  bx_f64 :: "'f f64_text_ops"
  bx_chrono :: chrono_ext
  bx_catalogs :: "'f catalogs"
  bx_legacy :: legacy_regex

definition body_hvtec :: "'f body_ext \<Rightarrow> string \<Rightarrow> 'f NwslidEntry HvtecCode list \<times> ProductParseIssue list" where
  "body_hvtec B text = parse_hvtec_codes_with_issues (bx_chrono B) (nwslid_entry (bx_catalogs B)) text"

subsection \<open>Segments\<close>

definition line_has_vtec :: "chrono_ext \<Rightarrow> string \<Rightarrow> bool" where
  "line_has_vtec C line \<longleftrightarrow> fst (parse_vtec_codes_with_issues C line) \<noteq> []"

definition line_has_time_mot_loc :: "string \<Rightarrow> bool" where
  "line_has_time_mot_loc line = starts_with (to_ascii_uppercase (trim_start line)) ''TIME...MOT...LOC''"

definition line_has_geography :: "string \<Rightarrow> bool" where
  "line_has_geography line =
     (let upper = to_ascii_uppercase (trim_start line)
      in starts_with upper ''LAT...LON'' \<or> starts_with upper ''TIME...MOT...LOC'')"

definition line_has_wind_hail :: "string \<Rightarrow> bool" where
  "line_has_wind_hail line =
     (let upper = to_ascii_uppercase (trim_start line)
      in starts_with upper ''HAILTHREAT'' \<or> starts_with upper ''MAXHAILSIZE'' \<or> starts_with upper ''WINDTHREAT''
         \<or> starts_with upper ''MAXWINDGUST'')"

definition looks_like_event_content :: "'f body_ext \<Rightarrow> string \<Rightarrow> bool" where
  "looks_like_event_content B line \<longleftrightarrow>
     is_ugc_start line \<or> line_has_vtec (bx_chrono B) line \<or> line_has_geography line \<or> line_has_wind_hail line
     \<or> fst (body_hvtec B line) \<noteq> []"

record splitting =
  spl_segments :: "string list"
  spl_current :: "string list"
  spl_has_vtec :: bool
  spl_has_geography :: bool

text \<open>Every caller also resets the two flags.\<close>

definition push_vtec_segment :: "chrono_ext \<Rightarrow> splitting \<Rightarrow> splitting" where
  "push_vtec_segment C s =
     (if spl_current s = [] then s
      else
        let joined = join [CHR 0x0A] (spl_current s)
        in s\<lparr>spl_segments := spl_segments s @ (if fst (parse_vtec_codes_with_issues C joined) \<noteq> [] then [joined] else []),
             spl_current := []\<rparr>)"

definition close_segment :: "chrono_ext \<Rightarrow> splitting \<Rightarrow> splitting" where
  "close_segment C s = (push_vtec_segment C s)\<lparr>spl_has_vtec := False, spl_has_geography := False\<rparr>"

definition split_line :: "'f body_ext \<Rightarrow> string \<Rightarrow> splitting \<Rightarrow> splitting" where
  "split_line B line s =
     (let C = bx_chrono B; trimmed = trim_end line
      in if trim trimmed = ''$$'' then close_segment C s
         else
           let boundary = spl_current s \<noteq> [] \<and> spl_has_vtec s
                 \<and> (is_ugc_start trimmed \<or> (line_has_vtec C trimmed \<and> spl_has_geography s));
               s1 = (if boundary then close_segment C s else s)
           in if spl_current s1 = [] \<and> \<not> looks_like_event_content B trimmed then s1
              else if trim trimmed = [] \<and> spl_current s1 = [] then s1
              else s1\<lparr>spl_current := spl_current s1 @ [trimmed],
                      spl_has_vtec := (spl_has_vtec s1 \<or> line_has_vtec C trimmed),
                      spl_has_geography := (spl_has_geography s1 \<or> line_has_geography trimmed)\<rparr>)"

definition split_vtec_segments :: "'f body_ext \<Rightarrow> string \<Rightarrow> string list" where
  "split_vtec_segments B text =
     (let normalized = filter (\<lambda>c. c \<noteq> CHR 0x0D) text
      in spl_segments (push_vtec_segment (bx_chrono B) (fold (split_line B) (str_lines normalized)
           \<lparr>spl_segments = [], spl_current = [], spl_has_vtec = False, spl_has_geography = False\<rparr>)))"

subsection \<open>Quality checks\<close>

record VtecSegmentQcContext =
  qc_ugc_blocked :: bool
  qc_time_mot_loc_blocked :: bool

text \<open>The canonical codes of a group, with those that were seen before as duplicates.\<close>

definition collect_duplicate_ugc_codes :: "'f area_map \<Rightarrow> char \<Rightarrow> string set \<times> string set \<Rightarrow> string set \<times> string set" where
  "collect_duplicate_ugc_codes groups class_code state =
     fold (\<lambda>(st, areas). fold (\<lambda>area (seen, duplicates).
         let canonical = canonical_code st class_code (area_id area)
         in if canonical \<in> seen then (seen, insert canonical duplicates) else (insert canonical seen, duplicates)) areas)
       groups state"

definition section_duplicates :: "'f UgcSection \<Rightarrow> string set \<times> string set \<Rightarrow> string set \<times> string set" where
  "section_duplicates section state =
     collect_duplicate_ugc_codes (marine_zones section) (CHR ''M'')
       (collect_duplicate_ugc_codes (fire_zones section) (CHR ''F'')
         (collect_duplicate_ugc_codes (zones section) (CHR ''Z'')
           (collect_duplicate_ugc_codes (counties section) (CHR ''C'') state)))"

definition find_segment_duplicate_ugc_codes :: "'f VtecEventSegment \<Rightarrow> string list" where
  "find_segment_duplicate_ugc_codes segment =
     sorted_list_of_set (snd (fold section_duplicates (seg_ugc_sections segment) ({}, {})))"

definition segment_has_marine_only_ugc :: "'f VtecEventSegment \<Rightarrow> bool" where
  "segment_has_marine_only_ugc segment \<longleftrightarrow>
     seg_ugc_sections segment \<noteq> []
     \<and> list_all (\<lambda>section. counties section = [] \<and> zones section = [] \<and> fire_zones section = []
         \<and> marine_zones section \<noteq> []) (seg_ugc_sections segment)"

definition segment_is_watch_only :: "'f VtecEventSegment \<Rightarrow> bool" where
  "segment_is_watch_only segment \<longleftrightarrow>
     seg_vtec segment \<noteq> [] \<and> list_all (\<lambda>code. vtec_significance code = CHR ''A'') (seg_vtec segment)"

definition vtec_event_body_has_marine_only_ugc :: "'f VtecEventSegment list \<Rightarrow> bool" where
  "vtec_event_body_has_marine_only_ugc segments \<longleftrightarrow> segments \<noteq> [] \<and> list_all segment_has_marine_only_ugc segments"

definition segment_issue :: "string \<Rightarrow> string \<Rightarrow> nat \<Rightarrow> string \<Rightarrow> ProductParseIssue" where
  "segment_issue kind code index message = parse_issue kind code (''segment '' @ show_nat index @ message) None"

definition validate_vtec_segment :: "'f VtecEventSegment \<Rightarrow> VtecSegmentQcContext \<Rightarrow> ProductParseIssue list" where
  "validate_vtec_segment segment context =
     (if seg_ugc_sections segment = [] \<and> \<not> qc_ugc_blocked context
      then [segment_issue ''body_qc'' ''vtec_segment_missing_ugc'' (seg_index segment)
        '' parsed VTEC content but did not recover UGC sections from the source text''] else [])
     @ (if seg_polygons segment = [] \<and> \<not> segment_has_marine_only_ugc segment \<and> \<not> segment_is_watch_only segment
        then [segment_issue ''body_qc'' ''vtec_segment_missing_required_polygon'' (seg_index segment)
          '' parsed VTEC content but did not recover a LAT...LON polygon from the source text''] else [])
     @ (let duplicates = find_segment_duplicate_ugc_codes segment
        in if duplicates \<noteq> []
           then [segment_issue ''body_qc'' ''vtec_segment_duplicate_ugc_code'' (seg_index segment)
             ('' encountered duplicated UGC codes: '' @ join '', '' duplicates)] else [])"

subsection \<open>Parsing of segments\<close>

text \<open>Sections and storm motion need the reference time; without it their presence is reported.\<close>

definition segment_ugc ::
    "'f body_ext \<Rightarrow> nat \<Rightarrow> string \<Rightarrow> datetime option \<Rightarrow> ('f UgcSection list \<times> ProductParseIssue list \<times> bool) panics" where
  "segment_ugc B segment_index raw_segment reference_time =
     (case reference_time of
        Some t \<Rightarrow>
          map_option (\<lambda>(parsed, issues). (parsed, issues, False))
            (parse_ugc_sections_with_issues (bx_chrono B) (bx_catalogs B) raw_segment t)
      | None \<Rightarrow>
          Some (if list_ex is_ugc_start (str_lines raw_segment)
                then ([], [segment_issue ''ugc_parse'' ''missing_reference_time'' segment_index
                  '' could not parse UGC sections because the header timestamp could not be resolved''], True)
                else ([], [], False)))"

definition segment_time_mot_loc ::
    "'f body_ext \<Rightarrow> nat \<Rightarrow> string \<Rightarrow> datetime option \<Rightarrow> ('f TimeMotLocEntry list \<times> ProductParseIssue list \<times> bool) panics" where
  "segment_time_mot_loc B segment_index raw_segment reference_time =
     (case reference_time of
        Some t \<Rightarrow>
          map_option (\<lambda>(parsed, issues). (parsed, issues, False))
            (parse_time_mot_loc_entries_with_issues (bx_f64 B) (bx_chrono B) raw_segment t)
      | None \<Rightarrow>
          Some (if list_ex line_has_time_mot_loc (str_lines raw_segment)
                then ([], [segment_issue ''time_mot_loc_parse'' ''missing_reference_time'' segment_index
                  '' could not parse TIME...MOT...LOC entries because the header timestamp could not be resolved''], True)
                else ([], [], False)))"

definition parse_segment ::
    "'f body_ext \<Rightarrow> datetime option \<Rightarrow> nat \<times> string \<Rightarrow> ('f VtecEventSegment option \<times> ProductParseIssue list) panics" where
  "parse_segment B reference_time = (\<lambda>(segment_index, raw_segment).
     let (vtec, vtec_issues) = parse_vtec_codes_with_issues (bx_chrono B) raw_segment
     in if vtec = [] then Some (None, vtec_issues)
        else do {
          (ugc_sections, ugc_issues, ugc_blocked) \<leftarrow> segment_ugc B segment_index raw_segment reference_time;
          let (hvtec, hvtec_issues) = body_hvtec B raw_segment;
          (polygons, polygon_issues) \<leftarrow> parse_latlon_polygons_with_issues (bx_f64 B) raw_segment;
          (time_mot_loc, tml_issues, tml_blocked) \<leftarrow> segment_time_mot_loc B segment_index raw_segment reference_time;
          let (wind_hail, wind_hail_issues) = parse_wind_hail_entries_with_issues (bx_f64 B) (bx_legacy B) raw_segment;
          let segment = \<lparr>seg_index = segment_index, seg_vtec = vtec, seg_ugc_sections = ugc_sections, seg_hvtec = hvtec,
                seg_polygons = polygons, seg_time_mot_loc = time_mot_loc, seg_wind_hail = wind_hail\<rparr>;
          Some (Some segment,
            vtec_issues @ ugc_issues @ hvtec_issues @ polygon_issues @ tml_issues @ wind_hail_issues
            @ validate_vtec_segment segment \<lparr>qc_ugc_blocked = ugc_blocked, qc_time_mot_loc_blocked = tml_blocked\<rparr>)
        })"

definition parse_vtec_event_body_with_issues ::
    "'f body_ext \<Rightarrow> string \<Rightarrow> datetime option \<Rightarrow> ('f VtecEventSegment list option \<times> ProductParseIssue list) panics" where
  "parse_vtec_event_body_with_issues B text reference_time =
     map_option (\<lambda>results.
         let segments = List.map_filter fst results
         in (then_some (segments \<noteq> []) segments, concat (map snd results)))
       (map_panics (parse_segment B reference_time) (enumerate 0 (split_vtec_segments B text)))"

subsection \<open>Extractors\<close>

record 'f BodyExtractionState =
  bes_generic_body :: "'f GenericBody"
  bes_vtec_event_body :: "'f VtecEventSegment list option"
  bes_issues :: "ProductParseIssue list"
  bes_has_generic_content :: bool

definition extraction_state_default :: "'f BodyExtractionState" where
  "extraction_state_default =
     \<lparr>bes_generic_body = \<lparr>gen_ugc = None, gen_latlon = None, gen_time_mot_loc = None, gen_wind_hail = None\<rparr>,
      bes_vtec_event_body = None, bes_issues = [], bes_has_generic_content = False\<rparr>"

definition add_issues :: "ProductParseIssue list \<Rightarrow> 'f BodyExtractionState \<Rightarrow> 'f BodyExtractionState" where
  "add_issues issues s = s\<lparr>bes_issues := bes_issues s @ issues\<rparr>"

text \<open>Content that was found is stored in the generic body.\<close>

definition store_generic ::
    "'a list \<Rightarrow> ('a list \<Rightarrow> 'f GenericBody \<Rightarrow> 'f GenericBody) \<Rightarrow> 'f BodyExtractionState \<Rightarrow> 'f BodyExtractionState" where
  "store_generic parsed put s =
     (if parsed = [] then s else s\<lparr>bes_generic_body := put parsed (bes_generic_body s), bes_has_generic_content := True\<rparr>)"

definition apply_vtec_events_extractor ::
    "'f body_ext \<Rightarrow> string \<Rightarrow> datetime option \<Rightarrow> 'f BodyExtractionState \<Rightarrow> 'f BodyExtractionState panics" where
  "apply_vtec_events_extractor B text reference_time s =
     map_option (\<lambda>(parsed, issues).
         add_issues issues (case parsed of None \<Rightarrow> s | Some segments \<Rightarrow> s\<lparr>bes_vtec_event_body := Some segments\<rparr>))
       (parse_vtec_event_body_with_issues B text reference_time)"

definition apply_ugc_extractor ::
    "'f body_ext \<Rightarrow> string \<Rightarrow> datetime option \<Rightarrow> 'f BodyExtractionState \<Rightarrow> 'f BodyExtractionState panics" where
  "apply_ugc_extractor B text reference_time s =
     (case reference_time of
        Some t \<Rightarrow>
          map_option (\<lambda>(parsed, issues). add_issues issues (store_generic parsed (\<lambda>x g. g\<lparr>gen_ugc := Some x\<rparr>) s))
            (parse_ugc_sections_with_issues (bx_chrono B) (bx_catalogs B) text t)
      | None \<Rightarrow>
          Some (add_issues [parse_issue ''ugc_parse'' ''missing_reference_time''
            ''could not parse UGC sections because the header timestamp could not be resolved'' None] s))"

definition apply_latlon_extractor ::
    "'f body_ext \<Rightarrow> string \<Rightarrow> 'f BodyExtractionState \<Rightarrow> 'f BodyExtractionState panics" where
  "apply_latlon_extractor B text s =
     map_option (\<lambda>(parsed, issues). add_issues issues (store_generic parsed (\<lambda>x g. g\<lparr>gen_latlon := Some x\<rparr>) s))
       (parse_latlon_polygons_with_issues (bx_f64 B) text)"

definition apply_time_mot_loc_extractor ::
    "'f body_ext \<Rightarrow> string \<Rightarrow> datetime option \<Rightarrow> 'f BodyExtractionState \<Rightarrow> 'f BodyExtractionState panics" where
  "apply_time_mot_loc_extractor B text reference_time s =
     (case reference_time of
        Some t \<Rightarrow>
          map_option (\<lambda>(parsed, issues). add_issues issues (store_generic parsed (\<lambda>x g. g\<lparr>gen_time_mot_loc := Some x\<rparr>) s))
            (parse_time_mot_loc_entries_with_issues (bx_f64 B) (bx_chrono B) text t)
      | None \<Rightarrow>
          Some (add_issues [parse_issue ''time_mot_loc_parse'' ''missing_reference_time''
            ''could not parse TIME...MOT...LOC entries because the header timestamp could not be resolved'' None] s))"

definition apply_wind_hail_extractor :: "'f body_ext \<Rightarrow> string \<Rightarrow> 'f BodyExtractionState \<Rightarrow> 'f BodyExtractionState" where
  "apply_wind_hail_extractor B text s =
     (let (parsed, issues) = parse_wind_hail_entries_with_issues (bx_f64 B) (bx_legacy B) text
      in add_issues issues (store_generic parsed (\<lambda>x g. g\<lparr>gen_wind_hail := Some x\<rparr>) s))"

fun apply_extractor ::
    "'f body_ext \<Rightarrow> string \<Rightarrow> datetime option \<Rightarrow> BodyExtractorId \<Rightarrow> 'f BodyExtractionState \<Rightarrow> 'f BodyExtractionState panics" where
  "apply_extractor B text reference_time VtecEvents s = apply_vtec_events_extractor B text reference_time s"
| "apply_extractor B text reference_time UgcExtractor s = apply_ugc_extractor B text reference_time s"
| "apply_extractor B text reference_time LatLonExtractor s = apply_latlon_extractor B text s"
| "apply_extractor B text reference_time TimeMotLocExtractor s = apply_time_mot_loc_extractor B text reference_time s"
| "apply_extractor B text reference_time WindHailExtractor s = Some (apply_wind_hail_extractor B text s)"

fun run_extractors ::
    "'f body_ext \<Rightarrow> string \<Rightarrow> datetime option \<Rightarrow> BodyExtractorId list \<Rightarrow> 'f BodyExtractionState \<Rightarrow> 'f BodyExtractionState panics" where
  "run_extractors B text reference_time [] s = Some s"
| "run_extractors B text reference_time (extractor # extractors) s =
     Option.bind (apply_extractor B text reference_time extractor s) (run_extractors B text reference_time extractors)"

definition qc_sections :: "'f ProductBody \<Rightarrow> 'f UgcSection list option" where
  "qc_sections body =
     (case body of
        VtecEvent segments \<Rightarrow>
          if vtec_event_body_has_marine_only_ugc segments then None
          else (case segments of [] \<Rightarrow> None | segment # _ \<Rightarrow> Some (seg_ugc_sections segment))
      | Generic generic_body \<Rightarrow> gen_ugc generic_body)"

text \<open>Here every section starts with no codes seen.\<close>

definition validate_body_qc :: "'f ProductBody \<Rightarrow> BodyExtractionPlan \<Rightarrow> ProductParseIssue list" where
  "validate_body_qc body plan =
     concat (map (\<lambda>rule. case rule of UgcDuplicateCode \<Rightarrow>
       (case qc_sections body of
          None \<Rightarrow> []
        | Some ugc_sections \<Rightarrow>
            let duplicates = fold (\<lambda>section duplicates. snd (section_duplicates section ({}, duplicates))) ugc_sections {}
            in if duplicates \<noteq> {}
               then [parse_issue ''body_qc'' ''ugc_duplicate_code''
                 (''encountered duplicated UGC codes in parsed product body: ''
                   @ join '', '' (sorted_list_of_set duplicates)) None]
               else [])) (plan_qc_rules plan))"

definition enrich_body_from_plan ::
    "'f body_ext \<Rightarrow> string \<Rightarrow> BodyExtractionPlan \<Rightarrow> datetime option
      \<Rightarrow> ('f ProductBody option \<times> ProductParseIssue list) panics" where
  "enrich_body_from_plan B text plan reference_time =
     map_option (\<lambda>s.
         let body = (case bes_vtec_event_body s of
               Some segments \<Rightarrow> Some (VtecEvent segments)
             | None \<Rightarrow> if bes_has_generic_content s then Some (Generic (bes_generic_body s)) else None)
         in (body, bes_issues s @ (case body of Some b \<Rightarrow> validate_body_qc b plan | None \<Rightarrow> [])))
       (run_extractors B text reference_time (plan_extractors plan) extraction_state_default)"

definition enrich_body ::
    "'f body_ext \<Rightarrow> string \<Rightarrow> string \<Rightarrow> datetime option \<Rightarrow> ('f ProductBody option \<times> ProductParseIssue list) panics" where
  "enrich_body B text pil reference_time =
     (case Option.bind (text_product_catalog_entry (bx_catalogs B) pil) body_extraction_plan_for_entry of
        None \<Rightarrow> Some (None, [])
      | Some plan \<Rightarrow> enrich_body_from_plan B text plan reference_time)"

end
