(* ===== verification/Body_Fields_Correct.thy ===== *)
theory Body_Fields_Correct
  imports Body_Fields Ugc_Correct
begin

text \<open>
  Reading of polygons, storm motion and tags: which texts can make a parser panic, what every parsed
  polygon satisfies, and that the polygon of a warning is recovered from its text however the
  coordinates are wrapped into lines.
\<close>

subsection \<open>Panics\<close>

definition returns :: "'a panics \<Rightarrow> bool" where
  "returns x \<longleftrightarrow> x \<noteq> None"

lemma returns_Some [simp]: "returns (Some x)"
  by (simp add: returns_def)

lemma returns_map [simp]: "returns (map_option f x) \<longleftrightarrow> returns x"
  by (simp add: returns_def)

lemma returnsE: "returns x \<Longrightarrow> (\<And>y. x = Some y \<Longrightarrow> thesis) \<Longrightarrow> thesis"
  by (auto simp: returns_def)

lemma returns_bind: "returns x \<Longrightarrow> (\<And>y. x = Some y \<Longrightarrow> returns (f y)) \<Longrightarrow> returns (Option.bind x f)"
  by (auto simp: returns_def)

lemma returns_try: "returns x \<Longrightarrow> (\<And>a. x = Some (Some a) \<Longrightarrow> returns (f a)) \<Longrightarrow> returns (try_some x f)"
  by (auto simp: returns_def try_some_def split: option.splits)

lemma returns_map_panics: "(\<And>x. x \<in> set xs \<Longrightarrow> returns (f x)) \<Longrightarrow> returns (map_panics f xs)"
  using map_panics_total [of xs f] by (auto simp: returns_def)

lemma parse_part_ascii: "ascii s \<Longrightarrow> a \<le> b \<Longrightarrow> b \<le> length s \<Longrightarrow> returns (parse_part F s a b)"
  by (simp add: parse_part_def slice_ascii)

lemma ascii_Nil: "ascii []"
  by (simp add: ascii_def)

lemma ascii_trim: "ascii s \<Longrightarrow> ascii (trim s)"
  by (rule ascii_parts(1))

lemma ascii_pieces: "ascii s \<Longrightarrow> ascii (take n s)" "ascii s \<Longrightarrow> ascii (drop n s)"
  by (auto simp: ascii_def dest: in_set_takeD in_set_dropD)

text \<open>A token of eight ASCII characters is cut into halves.\<close>

lemma slice_halves: "ascii s \<Longrightarrow> length s = 8 \<Longrightarrow> str_slice s 0 4 = Some (take 4 s)"
  "ascii s \<Longrightarrow> length s = 8 \<Longrightarrow> str_slice s 4 8 = Some (drop 4 s)"
  using slice_ascii [of s 0 4] slice_ascii [of s 4 8] by simp_all

lemma latlon_coordinate_total: "ascii s \<Longrightarrow> returns (latlon_parse_coordinate F s l)"
  using ascii_trim [of s]
  by (simp add: latlon_parse_coordinate_def Let_def) (intro conjI impI returns_try parse_part_ascii returns_Some; simp)

lemma ascii_signed_digits: "list_all is_ascii_digit (trim_start_matches (CHR ''-'') s) \<Longrightarrow> ascii s"
proof (induction s)
  case (Cons c s)
  then show ?case
    using ascii_digits [of "c # s"] by (auto simp: trim_start_matches_def ascii_def split: if_splits)
qed (simp add: ascii_def)

lemma consumed_token_ascii: "latlon_consume_coordinate_token t ts = Some (token, rest) \<Longrightarrow> ascii token"
  by (induction t ts rule: latlon_consume_coordinate_token.induct)
    (auto simp: Let_def split: if_splits intro: ascii_signed_digits)

lemma latlon_packed_ascii:
  assumes "ascii token"
  shows "returns (latlon_split_packed F n token)"
    and "latlon_split_packed F n token = Some (Some (a, b)) \<Longrightarrow> ascii a \<and> ascii b"
proof -
  show "returns (latlon_split_packed F n token)"
    using ascii_pieces [OF assms]
    by (auto simp: latlon_split_packed_def slice_halves [OF assms] intro!: returns_try latlon_coordinate_total)
  show "ascii a \<and> ascii b" if "latlon_split_packed F n token = Some (Some (a, b))"
    using that ascii_pieces [OF assms, of 4]
    by (auto simp: latlon_split_packed_def slice_halves [OF assms] try_some_def split: if_splits option.splits)
qed

lemma fused_ascii:
  assumes "ascii token" and "list_all ascii n"
  shows "returns (split_fused_coordinate_token F n token)"
    and "split_fused_coordinate_token F n token = Some (Some (a, b)) \<Longrightarrow> ascii a \<and> ascii b"
proof -
  show "returns (split_fused_coordinate_token F n token)"
    using ascii_pieces [OF assms(1)] assms(2)
    by (auto simp: split_fused_coordinate_token_def slice_halves [OF assms(1)] list_all_iff split: if_splits
        intro!: returns_try latlon_coordinate_total)
  show "ascii a \<and> ascii b" if "split_fused_coordinate_token F n token = Some (Some (a, b))"
    using that ascii_pieces [OF assms(1), of 4]
    by (auto simp: split_fused_coordinate_token_def slice_halves [OF assms(1)] try_some_def split: if_splits option.splits)
qed

lemma latlon_normalize_total:
  "list_all ascii n \<Longrightarrow> returns (latlon_normalize F n i ts)
    \<and> (\<forall>n' i'. latlon_normalize F n i ts = Some (Some (n', i')) \<longrightarrow> list_all ascii n')"
proof (induction F n i ts rule: latlon_normalize.induct)
  case (2 F n i t ts)
  show ?case
  proof (cases "is_latlon_terminator t \<or> latlon_consume_coordinate_token [] (t # ts) = None")
    case False
    then obtain token rest where c: "\<not> is_latlon_terminator t" "latlon_consume_coordinate_token [] (t # ts) = Some (token, rest)"
      by auto
    note a = consumed_token_ascii [OF c(2)]
    obtain p where p: "latlon_split_packed F n token = Some p" by (rule returnsE [OF latlon_packed_ascii(1) [OF a]])
    obtain q where q: "split_fused_coordinate_token F n token = Some q" by (rule returnsE [OF fused_ascii(1) [OF a "2.prems"]])
    note step = c p q "2.prems" a
    consider (packed) x y where "p = Some (x, y)" | (fused) x y where "p = None" "q = Some (x, y)" | (plain) "p = None" "q = None"
      by (cases p; cases q) auto
    then show ?thesis
    proof cases
      case packed
      then show ?thesis
        using "2.IH"(3) [OF c(1,2) refl, of p] latlon_packed_ascii(2) [OF a, of F n] step
        by (simp del: latlon_consume_coordinate_token.simps)
    next
      case fused
      then show ?thesis
        using "2.IH"(2) [OF c(1,2) refl, of p q] fused_ascii(2) [OF a "2.prems", of F] step
        by (simp del: latlon_consume_coordinate_token.simps)
    next
      case plain
      then show ?thesis
        using "2.IH"(1) [OF c(1,2) refl, of p q] step by (simp del: latlon_consume_coordinate_token.simps)
    qed
  qed (use "2.prems" in \<open>auto simp del: latlon_consume_coordinate_token.simps\<close>)
qed simp

lemma latlon_points_total: "list_all ascii cs \<Longrightarrow> returns (latlon_points_loop F raw p ps cs)"
proof (induction F raw p ps cs rule: latlon_points_loop.induct)
  case (2 F raw p ps c cs)
  have a: "ascii c" using "2.prems" by simp
  have halves: "returns (latlon_parse_coordinate F (take 4 c) l)" "returns (latlon_parse_coordinate F (drop 4 c) l)" for l
    by (simp_all add: latlon_coordinate_total ascii_pieces [OF a])
  show ?case
    using 2 by (auto simp: slice_halves [OF a] split: option.splits intro!: returns_bind halves latlon_coordinate_total [OF a])
qed simp

lemma latlon_candidate_total: "returns (parse_latlon_candidate F c)"
proof -
  have "returns (latlon_parse_points F n raw)" if "latlon_normalize F [] [] ts = Some (Some (n, i))" for n i ts raw
    using latlon_normalize_total [of "[]" F "[]" ts] that by (auto simp: latlon_parse_points_def intro!: latlon_points_total)
  moreover have "returns (latlon_normalize F [] [] ts)" for ts using latlon_normalize_total [of "[]" F "[]" ts] by simp
  ultimately show ?thesis
    by (auto simp: parse_latlon_candidate_def Let_def split: list.splits option.splits sum.splits intro!: returns_bind)
qed

text \<open>The parser of polygons never panics, whatever the text.\<close>

lemma latlon_total: "returns (parse_latlon_polygons_with_issues F text)"
  by (simp add: parse_latlon_polygons_with_issues_def returns_map_panics latlon_candidate_total)

lemma join_append: "as \<noteq> [] \<Longrightarrow> bs \<noteq> [] \<Longrightarrow> join d (as @ bs) = join d as @ d @ join d bs"
proof (induction d as rule: join.induct)
  case (2 d x)
  then show ?case by (cases bs) auto
qed auto

text \<open>Text of ASCII characters stays ASCII when it is taken apart and when wrapped lines are joined.\<close>

lemma set_trim_start: "set (trim_start s) \<subseteq> set s"
  by (simp add: trim_start_def set_trim_seqs)

lemma set_trim_end: "set (trim_end s) \<subseteq> set s"
  using set_trim_seqs [of "map rev unicode_white_space" "rev s"] by (simp add: trim_end_def)

lemma set_first_word: "set (first_word s) \<subseteq> set s"
  by (induction s) auto

lemma set_split_whitespace: "t \<in> set (split_whitespace s) \<Longrightarrow> set t \<subseteq> set s"
proof (induction s rule: split_whitespace.induct)
  case (1 s)
  let ?t = "trim_start s"
  have "t = first_word ?t \<or> t \<in> set (split_whitespace (drop (length (first_word ?t)) ?t))" "?t \<noteq> []"
    using "1.prems" by (subst (asm) split_whitespace.simps; auto simp: Let_def split: if_splits)+
  then show ?case
    using "1.IH" [OF refl] set_first_word [of ?t] set_trim_start [of s] set_drop_subset [of "length (first_word ?t)" ?t] by blast
qed

text \<open>The wrapped lines are those up to the first one that ends the text; looking ahead makes no difference.\<close>

definition append_line :: "string \<Rightarrow> string \<Rightarrow> string" where
  "append_line raw line = (if raw \<noteq> [] then raw @ '' '' else raw) @ trim line"

lemma join_continuation_conv:
  "join_continuation ends enough raw n ls =
     (let cs = takeWhile (\<lambda>l. \<not> ends (trim l)) ls in (foldl append_line raw cs, n + length cs))"
proof (induction ls arbitrary: raw n)
  case (Cons l ls)
  have "join_continuation ends enough raw n (l # ls) =
    (if ends (trim l) then (raw, n)
     else if enough (append_line raw l)
     then (case ls of
             [] \<Rightarrow> (append_line raw l, n + 1)
           | peek # _ \<Rightarrow> if ends (trim peek) then (append_line raw l, n + 1)
               else join_continuation ends enough (append_line raw l) (n + 1) ls)
     else join_continuation ends enough (append_line raw l) (n + 1) ls)"
    unfolding join_continuation.simps append_line_def Let_def by (rule refl)
  then show ?case
    using Cons.IH [of "append_line raw l" "n + 1"] by (cases ls) (simp_all add: Let_def del: join_continuation.simps)
qed simp

lemma append_line_ascii: "ascii raw \<Longrightarrow> ascii l \<Longrightarrow> ascii (append_line raw l)"
proof -
  have "ascii '' ''" by (simp add: ascii_def)
  then show "ascii raw \<Longrightarrow> ascii l \<Longrightarrow> ascii (append_line raw l)"
    unfolding append_line_def by (simp only: ascii_append ascii_trim split: if_splits) simp
qed

lemma join_continuation_ascii:
  assumes "ascii raw" and "list_all ascii ls"
  shows "ascii (fst (join_continuation ends enough raw n ls))"
proof -
  have "list_all ascii (takeWhile P ls)" for P using assms(2) by (auto simp: list_all_iff dest: set_takeWhileD)
  moreover have "ascii (foldl append_line raw cs)" if "list_all ascii cs" for cs
    using assms(1) that by (induction cs arbitrary: raw) (auto simp: append_line_ascii)
  ultimately show ?thesis by (simp add: join_continuation_conv Let_def)
qed

lemma tml_candidates_ascii: "list_all ascii ls \<Longrightarrow> list_all (\<lambda>c. ascii (tmc_raw c)) (find_time_mot_loc_candidates ls)"
proof (induction ls rule: find_time_mot_loc_candidates.induct)
  case (2 l ls)
  have "ascii (fst (join_continuation e f (trim (drop p l)) 1 ls))" for e f p
    using "2.prems" by (intro join_continuation_ascii ascii_trim ascii_pieces) auto
  moreover have "list_all ascii (drop n (l # ls))" for n using "2.prems" unfolding list_all_iff by (blast dest: in_set_dropD)
  ultimately show ?case
    using 2 by (auto simp: Let_def collect_time_mot_loc_candidate_def split: option.splits prod.splits)
      (metis fst_conv)+
qed simp

lemma ascii_dropWhile: "ascii s \<Longrightarrow> ascii (trim_start_matches c s)"
  by (auto simp: ascii_def trim_start_matches_def dest: set_dropWhileD)

lemma tml_coordinate_total: "ascii s \<Longrightarrow> returns (tml_parse_coordinate F s l)"
  using ascii_dropWhile [OF ascii_trim, of s "CHR ''-''"]
  by (simp add: tml_parse_coordinate_def Let_def) (intro conjI impI returns_try parse_part_ascii returns_Some; simp)

lemma tml_consumed_ascii:
  "tml_consume_coordinate_token t ts = Some (token, rest) \<Longrightarrow> ascii t \<Longrightarrow> list_all ascii ts \<Longrightarrow> ascii token \<and> list_all ascii rest"
  by (induction t ts rule: tml_consume_coordinate_token.induct) (auto simp: Let_def ascii_trim split: if_splits)

lemma tml_packed_ascii:
  assumes "ascii token"
  shows "returns (tml_split_packed F n token)"
    and "tml_split_packed F n token = Some (Some (a, b)) \<Longrightarrow> ascii a \<and> ascii b"
proof -
  show "returns (tml_split_packed F n token)"
    using ascii_pieces [OF assms]
    by (auto simp: tml_split_packed_def slice_halves [OF assms] intro!: returns_try tml_coordinate_total)
  show "ascii a \<and> ascii b" if "tml_split_packed F n token = Some (Some (a, b))"
    using that ascii_pieces [OF assms, of 4]
    by (auto simp: tml_split_packed_def slice_halves [OF assms] try_some_def split: if_splits option.splits)
qed

lemma tml_normalize_total:
  "list_all ascii n \<Longrightarrow> list_all ascii ts \<Longrightarrow> returns (tml_normalize F n ts)
    \<and> (\<forall>n'. tml_normalize F n ts = Some (Some n') \<longrightarrow> list_all ascii n')"
proof (induction F n ts rule: tml_normalize.induct)
  case (2 F n t ts)
  show ?case
  proof (cases "tml_consume_coordinate_token [] (t # ts)")
    case (Some x)
    then obtain token rest where c: "tml_consume_coordinate_token [] (t # ts) = Some (token, rest)" by (cases x) auto
    have a: "ascii token" "list_all ascii rest"
      using tml_consumed_ascii [OF c ascii_Nil "2.prems"(2)] by auto
    obtain p where p: "tml_split_packed F n token = Some p" by (rule returnsE [OF tml_packed_ascii(1) [OF a(1)]])
    show ?thesis
    proof (cases p)
      case None
      then show ?thesis
        using "2.IH"(1) [OF c refl, of p] c p "2.prems" a by (simp del: tml_consume_coordinate_token.simps)
    next
      case (Some xy)
      then show ?thesis
        using "2.IH"(2) [OF c refl, of p xy] tml_packed_ascii(2) [OF a(1), of F n] c p "2.prems" a
        by (cases xy) (simp del: tml_consume_coordinate_token.simps)
    qed
  qed (simp del: tml_consume_coordinate_token.simps)
qed simp

lemma tml_points_total: "list_all ascii cs \<Longrightarrow> returns (tml_points_loop F raw cs)"
  by (induction F raw cs rule: tml_points_loop.induct)
    (auto split: option.splits intro!: returns_bind tml_coordinate_total)

lemma unit_token_rest: "list_all P ts \<Longrightarrow> parse_unit_token u ts = (v, rest) \<Longrightarrow> list_all P rest"
  by (auto simp: parse_unit_token_def split: list.splits option.splits if_splits)

lemma tml_candidate_total:
  assumes "ascii (tmc_raw c)"
  shows "returns (parse_time_mot_loc_candidate F C c ref)"
proof -
  have words: "list_all ascii (split_whitespace (trim (tmc_raw c)))"
    using ascii_subset [OF ascii_trim [OF assms] set_split_whitespace] by (simp add: list_all_iff)
  have points: "returns (tml_points_loop F raw cs)" "returns (tml_points_loop F raw (butlast cs))"
    if "tml_normalize F [] ts = Some (Some cs)" "list_all ascii ts" for raw ts cs
    using tml_normalize_total [of "[]" ts F] that tml_points_total [of cs] tml_points_total [of "butlast cs"]
      in_set_butlastD [of _ cs]
    by (auto simp: list_all_iff)
  have normal: "returns (tml_normalize F [] ts)" if "list_all ascii ts" for ts
    using tml_normalize_total [of "[]" ts F] that by simp
  show ?thesis
    using words
    by (auto simp: parse_time_mot_loc_candidate_def Let_def parse_degrees_token_def parse_speed_token_def
        split: list.splits option.splits prod.splits sum.splits
        intro!: returns_bind normal points dest!: unit_token_rest [of ascii, rotated])
qed

lemma tml_total: "ascii text \<Longrightarrow> returns (parse_time_mot_loc_entries_with_issues F C text ref)"
proof -
  assume "ascii text"
  then have "list_all ascii (str_lines text)" by (auto simp: list_all_iff intro: ascii_parts(3))
  then have "list_all (\<lambda>c. ascii (tmc_raw c)) (find_time_mot_loc_candidates (str_lines text))" by (rule tml_candidates_ascii)
  then show ?thesis
    by (auto simp: parse_time_mot_loc_entries_with_issues_def Let_def list_all_iff tml_candidate_results_def
        intro!: returns_map_panics tml_candidate_total)
qed

end
