(* ===== verification/Polygon_Correct.thy ===== *)
theory Polygon_Correct
  imports Body_Fields_Correct File_Filter_Correct
begin

text \<open>
  Warning polygons: what every parsed polygon satisfies, and that the polygon of a warning is
  recovered from its text however its coordinates are packed into tokens and wrapped into lines.
\<close>

subsection \<open>Every parsed polygon\<close>

definition edge :: "('f \<times> 'f) list \<Rightarrow> nat \<Rightarrow> ('f \<times> 'f) \<times> ('f \<times> 'f)" where
  "edge points i = (point_xy (points ! i), point_xy (points ! Suc i))"

definition edges_cross :: "'f f64_text_ops \<Rightarrow> ('f \<times> 'f) list \<Rightarrow> nat \<Rightarrow> nat \<Rightarrow> bool" where
  "edges_cross F points i j =
     segments_intersect F (fst (edge points i)) (snd (edge points i)) (fst (edge points j)) (snd (edge points j))"

text \<open>A closed ring of at least three points in which no two edges cross, neighbours apart.\<close>

definition simple_ring :: "'f f64_text_ops \<Rightarrow> ('f \<times> 'f) list \<Rightarrow> bool" where
  "simple_ring F points \<longleftrightarrow>
     3 \<le> length points \<and> (hd points = last points \<or> point_eq F (hd points) (last points))
     \<and> (4 < length points \<longrightarrow>
         (\<forall>i j. Suc i < j \<and> Suc j < length points \<and> \<not> (i = 0 \<and> Suc (Suc j) = length points) \<longrightarrow> \<not> edges_cross F points i j))"

lemma has_self_intersection_iff:
  "has_self_intersection F points \<longleftrightarrow>
     (\<exists>i j. Suc i < j \<and> Suc j < length points \<and> \<not> (i = 0 \<and> Suc (Suc j) = length points) \<and> edges_cross F points i j)"
proof -
  have pair: "i \<in> {0..<n} \<and> j \<in> {i + 1..<n} \<and> \<not> (j = i + 1 \<or> i = 0 \<and> j = n - 1) \<longleftrightarrow>
      Suc i < j \<and> j < n \<and> \<not> (i = 0 \<and> Suc j = n)" for i j n :: nat
    by auto
  have "(\<exists>i\<in>{0..<n}. \<exists>j\<in>{i + 1..<n}. \<not> (j = i + 1 \<or> i = 0 \<and> j = n - 1) \<and> P i j) \<longleftrightarrow>
      (\<exists>i j. (i \<in> {0..<n} \<and> j \<in> {i + 1..<n} \<and> \<not> (j = i + 1 \<or> i = 0 \<and> j = n - 1)) \<and> P i j)" for n :: nat and P
    by blast
  note this [unfolded pair]
  from this [of "length points - 1" "edges_cross F points"] show ?thesis
    by (cases "length points") (simp_all add: has_self_intersection_def Let_def list_ex_iff edges_cross_def edge_def)
qed

lemma validated_ring: "validate_polygon F points raw = Inr ring \<Longrightarrow> simple_ring F ring"
  unfolding simple_ring_def
  by (auto simp: validate_polygon_def Let_def has_self_intersection_iff last_append hd_append split: if_splits)

lemma parsed_candidate_ring:
  "parse_latlon_candidate F c = Some (Some p, issues) \<Longrightarrow>
     simple_ring F (poly_points p) \<and> poly_wkt p = format_polygon_wkt F (poly_points p)"
  by (auto simp: parse_latlon_candidate_def Let_def dest!: validated_ring
      split: list.splits if_splits option.splits sum.splits bind_splits)

lemma map_panics_SomeD: "map_panics f xs = Some ys \<Longrightarrow> list_all2 (\<lambda>x y. f x = Some y) xs ys"
  by (induction xs arbitrary: ys) (auto split: option.splits)

text \<open>
  C18: whatever the text, the polygon parser returns, and every polygon that it returns is a closed ring of
  at least three points; a ring of more than four points has no two edges that cross, apart from
  neighbours, and the text form of a polygon lists exactly its points.
\<close>

theorem parsed_polygons_are_simple_rings:
  "\<exists>ps. parse_latlon_polygons F text = Some ps
    \<and> list_all (\<lambda>p. simple_ring F (poly_points p) \<and> poly_wkt p = format_polygon_wkt F (poly_points p)) ps"
proof -
  obtain rs where rs: "map_panics (parse_latlon_candidate F) (find_latlon_candidates (str_lines text)) = Some rs"
    by (rule returnsE [OF returns_map_panics [OF latlon_candidate_total]])
  have "simple_ring F (poly_points p) \<and> poly_wkt p = format_polygon_wkt F (poly_points p)" if "(Some p, issues) \<in> set rs" for p issues
    using map_panics_SomeD [OF rs] that parsed_candidate_ring by (fastforce simp: list_all2_conv_all_nth in_set_conv_nth)
  then show ?thesis
    by (fastforce simp: parse_latlon_polygons_def parse_latlon_polygons_with_issues_def rs list_all_iff
        List.map_filter_def)
qed

subsection \<open>Words and lines\<close>

definition word :: "string \<Rightarrow> bool" where
  "word w \<longleftrightarrow> w \<noteq> [] \<and> (\<forall>c\<in>set w. is_graphic c)"

lemma word_trim: "word w \<Longrightarrow> trim w = w"
  by (simp add: word_def trim_graphic)

lemma join_words_ends:
  "ws \<noteq> [] \<Longrightarrow> list_all word ws \<Longrightarrow> join '' '' ws \<noteq> [] \<and> is_graphic (hd (join '' '' ws)) \<and> is_graphic (last (join '' '' ws))"
  by (induction "'' ''" ws rule: join.induct) (auto simp: word_def last_append hd_append)

lemma blank_front: "find (\<lambda>w. w \<noteq> [] \<and> starts_with (CHR '' '' # s) w) unicode_white_space = Some '' ''"
  "find (\<lambda>w. w \<noteq> [] \<and> starts_with (CHR '' '' # s) w) (map rev unicode_white_space) = Some '' ''"
  by (simp_all add: unicode_white_space_def starts_with_def char_of_def bit_0)

lemma trim_seqs_blanks:
  "trim_seqs unicode_white_space (replicate i (CHR '' '') @ s) = trim_seqs unicode_white_space s"
  "trim_seqs (map rev unicode_white_space) (replicate i (CHR '' '') @ s) = trim_seqs (map rev unicode_white_space) s"
  by (induction i; subst trim_seqs.simps; simp add: blank_front)+

lemma trim_padded:
  assumes "s \<noteq> []" "is_graphic (hd s)" "is_graphic (last s)"
  shows "trim (replicate i (CHR '' '') @ s @ replicate j (CHR '' '')) = s"
proof -
  have "trim_start (replicate i (CHR '' '') @ s @ replicate j (CHR '' '')) = s @ replicate j (CHR '' '')"
    using trim_start_graphic [of "s @ replicate j (CHR '' '')"] assms by (simp add: trim_start_def trim_seqs_blanks)
  moreover have "trim_end (s @ replicate j (CHR '' '')) = s"
    using trim_end_graphic [of s] assms by (simp add: trim_end_def trim_seqs_blanks)
  ultimately show ?thesis by (simp add: trim_def)
qed

lemma first_word_blank: "\<forall>c\<in>set w. is_graphic c \<Longrightarrow> first_word (w @ CHR '' '' # s) = w"
proof (induction w)
  case Nil
  show ?case by (simp add: white_front_def blank_front)
qed (simp add: white_front_graphic)

lemma split_whitespace_blank: "split_whitespace (CHR '' '' # s) = split_whitespace s"
  using trim_seqs_blanks(1) [of 1 s]
  by (subst split_whitespace.simps, subst (2) split_whitespace.simps) (simp add: trim_start_def)

lemma split_whitespace_word:
  assumes "word w"
  shows "split_whitespace w = [w]" "split_whitespace (w @ CHR '' '' # s) = w # split_whitespace s"
proof -
  have w: "w \<noteq> []" "is_graphic (hd w)" "\<forall>c\<in>set w. is_graphic c" using assms by (auto simp: word_def)
  have "split_whitespace [] = []" by (subst split_whitespace.simps) (simp add: trim_start_graphic)
  then show "split_whitespace w = [w]"
    using w by (subst split_whitespace.simps) (simp add: trim_start_graphic first_word_graphic)
  show "split_whitespace (w @ CHR '' '' # s) = w # split_whitespace s"
    using w trim_start_graphic [of "w @ CHR '' '' # s"]
    by (subst split_whitespace.simps) (simp add: first_word_blank split_whitespace_blank)
qed

lemma split_whitespace_join: "ws \<noteq> [] \<Longrightarrow> list_all word ws \<Longrightarrow> split_whitespace (join '' '' ws) = ws"
  by (induction "'' ''" ws rule: join.induct) (auto simp: split_whitespace_word)

lemma marker_absent:
  assumes "\<forall>c\<in>set s. ascii_lower c \<noteq> ascii_lower m"
  shows "ascii_find_case_insensitive s (m # ms) = None"
proof -
  have "\<not> eq_ignore_ascii_case w (m # ms)" if "w \<in> set (windows (length (m # ms)) s)" for w
  proof
    assume "eq_ignore_ascii_case w (m # ms)"
    then obtain c cs where "w = c # cs" "ascii_lower c = ascii_lower m"
      by (auto simp: eq_ignore_ascii_case_def to_ascii_lowercase_def map_eq_Cons_conv)
    moreover have "set w \<subseteq> set s" using that by (auto simp: windows_def dest: in_set_takeD in_set_dropD)
    ultimately show False using assms by auto
  qed
  then show ?thesis by (simp add: ascii_find_case_insensitive_def position_None_iff)
qed

lemma marker_first: "m \<noteq> [] \<Longrightarrow> ascii_find_case_insensitive (m @ s) m = Some 0"
proof -
  assume m: "m \<noteq> []"
  have "Suc (length (m @ s)) - length m = Suc (length s)" by simp
  then obtain ws where "windows (length m) (m @ s) = m # ws"
    unfolding windows_def by (simp add: upt_conv_Cons del: upt_Suc)
  then show ?thesis using m by (simp add: ascii_find_case_insensitive_def eq_ignore_ascii_case_def)
qed

lemma str_lines_single: "s \<noteq> [] \<Longrightarrow> CHR 0x0A \<notin> set s \<Longrightarrow> str_lines s = [s]"
proof -
  assume s: "s \<noteq> []" "CHR 0x0A \<notin> set s"
  then have "position ((=) (CHR 0x0A)) s = None" by (auto simp: position_None_iff)
  then show "str_lines s = [s]" using s(1) by (subst str_lines.simps) (simp add: split_once_def)
qed

definition unlines :: "nat \<Rightarrow> string list \<Rightarrow> string" where
  "unlines k ls = concat (map (\<lambda>l. l @ replicate k (CHR 0x0D) @ [CHR 0x0A]) ls)"

text \<open>Lines that end in a line feed, with or without a carriage return.\<close>

lemma str_lines_unlines:
  assumes "k \<le> 1" and "\<forall>l\<in>set ls. CHR 0x0A \<notin> set l \<and> CHR 0x0D \<notin> set l"
  shows "str_lines (unlines k ls) = ls"
  using assms(2)
proof (induction ls)
  case (Cons l ls)
  have "split_once (CHR 0x0A) ((l @ replicate k (CHR 0x0D)) @ CHR 0x0A # unlines k ls) =
      Some (l @ replicate k (CHR 0x0D), unlines k ls)"
    using Cons.prems by (intro split_once_append) auto
  moreover have "k - 1 = 0" using assms(1) by simp
  ultimately show ?case
    using Cons strip_cr [of l k] by (subst str_lines.simps) (simp add: unlines_def)
qed (simp add: unlines_def str_lines.simps)

subsection \<open>Coordinates\<close>

text \<open>
  What is used of floating-point numbers: decimal digits are read as the number that they write, and the
  quotient of a number of at least 4000 by 100 is not below 40.
\<close>

definition f64_reading :: "'f f64_text_ops \<Rightarrow> bool" where
  "f64_reading F \<longleftrightarrow>
     (\<forall>s v. s \<noteq> [] \<and> digits_val 0 s = Some v \<longrightarrow> f_parse F s = Some (f_lit F (of_nat v)))
     \<and> (\<forall>n. 4000 \<le> n \<longrightarrow> \<not> f_lt F (f_div F (f_lit F (of_nat n)) (f_lit F 100)) (f_lit F 40))"

text \<open>
  A point in hundredths of a degree north and west, and whether it is written as one token of eight digits.
\<close>

type_synonym point_text = "nat \<times> nat \<times> bool"

definition coordinate :: "nat \<Rightarrow> string" where
  "coordinate n = pad_left 4 (CHR ''0'') (show_nat n)"

fun point_ok :: "point_text \<Rightarrow> bool" where
  "point_ok (lat, lon, packed) \<longleftrightarrow> lat \<le> 9000 \<and> 4000 \<le> lon \<and> lon \<le> 18000 \<and> (packed \<longrightarrow> lon < 10000)"

fun point_tokens :: "point_text \<Rightarrow> string list" where
  "point_tokens (lat, lon, packed) =
     (if packed then [coordinate lat @ coordinate lon] else [coordinate lat, coordinate lon])"

fun point_coordinates :: "point_text \<Rightarrow> string list" where
  "point_coordinates (lat, lon, packed) = [coordinate lat, coordinate lon]"

definition degrees :: "'f f64_text_ops \<Rightarrow> nat \<Rightarrow> 'f" where
  "degrees F n = f_div F (f_lit F (of_nat n)) (f_lit F 100)"

fun point_value :: "'f f64_text_ops \<Rightarrow> point_text \<Rightarrow> 'f \<times> 'f" where
  "point_value F (lat, lon, packed) = (degrees F lat, f_neg F (degrees F lon))"

lemma coordinate_digits: "list_all is_ascii_digit (coordinate n)"
  by (simp add: coordinate_def pad_left_digits)

lemma coordinate_length: "n < 10000 \<Longrightarrow> length (coordinate n) = 4" "n < 100000 \<Longrightarrow> length (coordinate n) = 4 \<or> length (coordinate n) = 5"
proof -
  show "n < 10000 \<Longrightarrow> length (coordinate n) = 4"
    using length_pad_left [of n 3 "CHR ''0''"] by (simp add: coordinate_def)
  show "n < 100000 \<Longrightarrow> length (coordinate n) = 4 \<or> length (coordinate n) = 5"
    using length_show_nat [of n 4] by (auto simp: coordinate_def pad_left_def)
qed

lemma digits_word: "list_all is_ascii_digit s \<Longrightarrow> s \<noteq> [] \<Longrightarrow> word s"
  by (auto simp: word_def list_all_iff is_graphic_def is_ascii_digit_def)

lemma coordinate_nonempty: "coordinate n \<noteq> []"
  by (simp add: coordinate_def pad_left_def)

lemmas coordinate_word = digits_word [OF coordinate_digits coordinate_nonempty]

lemma digits_no_sign: "list_all is_ascii_digit s \<Longrightarrow> \<not> starts_with s ''-'' \<and> trim_start_matches (CHR ''-'') s = s"
  by (cases s) (auto simp: starts_with_iff trim_start_matches_def is_ascii_digit_def)

lemma coordinate_read: "f64_reading F \<Longrightarrow> f_parse F (coordinate n) = Some (f_lit F (of_nat n))"
proof -
  have "digits_val 0 (coordinate n) = Some n"
    by (simp add: coordinate_def pad_left_def digits_val_zeros digits_val_show_nat)
  then show "f64_reading F \<Longrightarrow> f_parse F (coordinate n) = Some (f_lit F (of_nat n))"
    using coordinate_nonempty [of n] by (auto simp: f64_reading_def)
qed

lemma coordinate_parsed:
  assumes "f64_reading F" and "n < 100000"
  shows "latlon_parse_coordinate F (coordinate n) True = Some (Some (degrees F n))"
    and "4000 \<le> n \<Longrightarrow> latlon_parse_coordinate F (coordinate n) False = Some (Some (f_neg F (degrees F n)))"
proof -
  have len: "length (coordinate n) = 4 \<or> length (coordinate n) = 5" by (rule coordinate_length(2) [OF assms(2)])
  note facts = word_trim [OF coordinate_word] digits_no_sign [OF coordinate_digits] coordinate_read [OF assms(1)] degrees_def
  show "latlon_parse_coordinate F (coordinate n) True = Some (Some (degrees F n))"
    using len by (simp add: latlon_parse_coordinate_def facts try_some_def)
  show "latlon_parse_coordinate F (coordinate n) False = Some (Some (f_neg F (degrees F n)))" if "4000 \<le> n"
    using len assms(1) that by (simp add: latlon_parse_coordinate_def facts try_some_def f64_reading_def)
qed

lemma consume_digits:
  "list_all is_ascii_digit w \<Longrightarrow> 4 \<le> length w \<Longrightarrow> length w \<le> 8 \<Longrightarrow> latlon_consume_coordinate_token [] (w # ts) = Some (w, ts)"
  using word_trim [OF digits_word, of w] digits_no_sign [of w] by (cases "w = []") auto

lemma digits_no_terminator: "list_all is_ascii_digit w \<Longrightarrow> w \<noteq> [] \<Longrightarrow> \<not> is_latlon_terminator w"
  using word_trim [OF digits_word, of w] by (auto simp: is_latlon_terminator_def is_ascii_digit_def)

lemma normalize_short:
  assumes "list_all is_ascii_digit w" and "length w = 4 \<or> length w = 5"
  shows "latlon_normalize F n i (w # ts) = latlon_normalize F (n @ [w]) i ts"
proof -
  have "w \<noteq> []" using assms(2) by auto
  then show ?thesis
    using assms consume_digits [OF assms(1)] digits_no_terminator [OF assms(1)]
    by (auto simp: latlon_split_packed_def split_fused_coordinate_token_def simp del: latlon_consume_coordinate_token.simps)
qed

lemma normalize_packed:
  assumes "f64_reading F" and "lat < 10000" and "4000 \<le> lon" and "lon < 10000" and "even (length n)"
  shows "latlon_normalize F n i ((coordinate lat @ coordinate lon) # ts) = latlon_normalize F (n @ [coordinate lat, coordinate lon]) i ts"
proof -
  let ?w = "coordinate lat @ coordinate lon"
  have w: "list_all is_ascii_digit ?w" "length ?w = 8" "?w \<noteq> []"
    using coordinate_length(1) [OF assms(2)] coordinate_length(1) [OF assms(4)] coordinate_nonempty
    by (simp_all add: coordinate_digits)
  have "latlon_split_packed F n ?w = Some (Some (coordinate lat, coordinate lon))"
    using w assms coordinate_length(1) [OF assms(2)] slice_halves [OF ascii_digits [OF w(1)] w(2)] digits_no_sign [OF w(1)]
    by (simp add: latlon_split_packed_def coordinate_parsed try_some_def)
  then show ?thesis
    using w consume_digits [OF w(1)] digits_no_terminator [OF w(1)]
    by (simp del: latlon_consume_coordinate_token.simps)
qed

lemma normalize_points:
  assumes "f64_reading F" and "list_all point_ok pts" and "even (length n)"
  shows "latlon_normalize F n i (concat (map point_tokens pts)) = Some (Some (n @ concat (map point_coordinates pts), i))"
  using assms(2,3)
proof (induction pts arbitrary: n)
  case (Cons p pts)
  obtain lat lon packed where p: "p = (lat, lon, packed)" by (cases p)
  have lens: "length (coordinate lat) = 4 \<or> length (coordinate lat) = 5" "length (coordinate lon) = 4 \<or> length (coordinate lon) = 5"
    using Cons.prems p by (intro coordinate_length(2); simp)+
  have "latlon_normalize F n i (coordinate lat # coordinate lon # ts) = latlon_normalize F (n @ [coordinate lat, coordinate lon]) i ts" for ts
    by (simp only: normalize_short [OF coordinate_digits lens(1)] normalize_short [OF coordinate_digits lens(2)]
        append_assoc append_Cons append_Nil)
  then show ?case
    using Cons.IH [of "n @ [coordinate lat, coordinate lon]"] Cons.prems p
      normalize_packed [OF assms(1), of lat lon n i "concat (map point_tokens pts)"]
    by (simp del: latlon_normalize.simps(2))
qed simp

lemma points_read:
  assumes "f64_reading F" and "list_all point_ok pts"
  shows "latlon_points_loop F raw None ps (concat (map point_coordinates pts)) =
    Some (if length ps + length pts < 3 then Inl (latlon_count_issue raw) else Inr (ps @ map (point_value F) pts))"
  using assms(2)
proof (induction pts arbitrary: ps)
  case (Cons p pts)
  obtain lat lon packed where p: "p = (lat, lon, packed)" by (cases p)
  have "length (coordinate lat) \<noteq> 8" "length (coordinate lon) \<noteq> 8"
    using Cons.prems p coordinate_length(2) [of lat] coordinate_length(2) [of lon] by auto
  then show ?case
    using Cons.IH [of "ps @ [point_value F p]"] Cons.prems p
      coordinate_parsed [OF assms(1), of lat] coordinate_parsed [OF assms(1), of lon] by simp
qed simp

subsection \<open>Warnings\<close>

text \<open>
  The layout of a block: the words after the marker on its line with blanks after them, and lines of
  further words with blanks around them.
\<close>

type_synonym block_layout = "(string list \<times> nat) \<times> (nat \<times> string list \<times> nat) list"

definition continuation_line :: "nat \<times> string list \<times> nat \<Rightarrow> string" where
  "continuation_line = (\<lambda>(i, ws, j). replicate i (CHR '' '') @ join '' '' ws @ replicate j (CHR '' ''))"

fun layout_lines :: "block_layout \<Rightarrow> string list" where
  "layout_lines ((ws, j), conts) =
     (join '' '' (LATLON_MARKER # ws) @ replicate j (CHR '' '')) # map continuation_line conts"

fun layout_words :: "block_layout \<Rightarrow> string list" where
  "layout_words ((ws, j), conts) = ws @ concat (map (\<lambda>c. fst (snd c)) conts)"

fun layout_ok :: "block_layout \<Rightarrow> bool" where
  "layout_ok ((ws, j), conts) \<longleftrightarrow> list_all (\<lambda>c. fst (snd c) \<noteq> []) conts"

definition digits :: "string \<Rightarrow> bool" where
  "digits w \<longleftrightarrow> w \<noteq> [] \<and> list_all is_ascii_digit w"

lemma digits_words: "list_all digits ws \<Longrightarrow> list_all word ws"
  by (auto simp: list_all_iff digits_def intro: digits_word)

lemma marker_word: "word LATLON_MARKER"
  by (simp add: word_def LATLON_MARKER_def is_graphic_def)

lemma set_joined: "set (join d ws) \<subseteq> set d \<union> \<Union> (set ` set ws)"
  by (induction d ws rule: join.induct) auto

lemma join_chars: "c \<in> set (join '' '' ws) \<Longrightarrow> c = CHR '' '' \<or> (\<exists>w\<in>set ws. c \<in> set w)"
  using set_joined [of "'' ''" ws] by auto

lemma digit_chars: "list_all digits ws \<Longrightarrow> c \<in> set (join '' '' ws) \<Longrightarrow> c = CHR '' '' \<or> is_ascii_digit c"
  using join_chars [of c ws] by (auto simp: list_all_iff digits_def)

lemma coordinate_line_continues:
  assumes "ws \<noteq> []" and "list_all digits ws"
  shows "\<not> latlon_ends (join '' '' ws)"
proof -
  have "join '' '' ws \<noteq> []" using join_words_ends [OF assms(1) digits_words [OF assms(2)]] by simp
  moreover have "ascii_lower c \<noteq> ascii_lower (CHR ''L'')" if "c \<in> set (join '' '' ws)" for c
    using digit_chars [OF assms(2) that]
    by (auto simp: ascii_lower_def is_ascii_uppercase_def is_ascii_digit_def char_of_def bit_0)
  then have "ascii_find_case_insensitive (join '' '' ws) LATLON_MARKER = None"
    by (simp add: LATLON_MARKER_def marker_absent)
  moreover have "latlon_looks_like_coordinate_line (join '' '' ws)"
    using assms digits_no_sign
    by (auto simp: latlon_looks_like_coordinate_line_def split_whitespace_join [OF assms(1) digits_words [OF assms(2)]]
        list_all_iff digits_def)
  ultimately show ?thesis by (simp add: latlon_ends_def)
qed

lemma layout_chars:
  assumes "list_all digits (layout_words lay)" and "l \<in> set (layout_lines lay)" and "c \<in> set l"
  shows "c = CHR '' '' \<or> is_ascii_digit c \<or> c \<in> set LATLON_MARKER"
proof -
  obtain ws j conts where lay: "lay = ((ws, j), conts)" by (cases lay) auto
  have ws: "list_all digits ws" and conts: "\<forall>x\<in>set conts. list_all digits (fst (snd x))"
    using assms(1) by (auto simp: lay list_all_iff)
  from assms(2) consider (marker) "l = join '' '' (LATLON_MARKER # ws) @ replicate j (CHR '' '')"
    | (cont) x where "x \<in> set conts" "l = continuation_line x"
    by (auto simp: lay)
  then show ?thesis
  proof cases
    case marker
    then have "c = CHR '' '' \<or> c \<in> set (join '' '' (LATLON_MARKER # ws))" using assms(3) by auto
    then show ?thesis using join_chars [of c "LATLON_MARKER # ws"] ws by (auto simp: list_all_iff digits_def)
  next
    case cont
    then have "c = CHR '' '' \<or> c \<in> set (join '' '' (fst (snd x)))"
      using assms(3) by (cases x) (auto simp: continuation_line_def)
    then show ?thesis using digit_chars [of "fst (snd x)" c] conts cont(1) by auto
  qed
qed

lemma continuation_trim: "ws \<noteq> [] \<Longrightarrow> list_all digits ws \<Longrightarrow> trim (continuation_line (i, ws, j)) = join '' '' ws"
  using join_words_ends [OF _ digits_words, of ws] by (simp add: continuation_line_def trim_padded)

lemma fold_layout:
  assumes "list_all (\<lambda>c. fst (snd c) \<noteq> [] \<and> list_all digits (fst (snd c))) conts" and "w0 \<noteq> []" and "list_all word w0"
  shows "foldl append_line (join '' '' w0) (map continuation_line conts) = join '' '' (w0 @ concat (map (\<lambda>c. fst (snd c)) conts))"
  using assms
proof (induction conts arbitrary: w0)
  case (Cons c conts)
  obtain i ws j where c: "c = (i, ws, j)" by (cases c)
  have ws: "ws \<noteq> []" "list_all digits ws" using Cons.prems c by auto
  have "append_line (join '' '' w0) (continuation_line c) = join '' '' (w0 @ ws)"
    using join_words_ends [OF Cons.prems(2,3)] join_append [of w0 ws "'' ''"] Cons.prems(2) ws
    by (simp add: append_line_def c continuation_trim)
  then show ?case
    using Cons.IH [of "w0 @ ws"] Cons.prems digits_words [OF ws(2)] c by simp
qed simp

lemma layout_candidate:
  assumes "layout_ok lay" and "list_all digits (layout_words lay)" and "post = [] \<or> latlon_ends (trim (hd post))"
  shows "\<exists>line. find_latlon_candidates (layout_lines lay @ post) =
    \<lparr>llc_raw = join '' '' (LATLON_MARKER # layout_words lay), llc_source_line = line\<rparr> # find_latlon_candidates post"
proof -
  obtain ws j conts where lay: "lay = ((ws, j), conts)" by (cases lay) auto
  let ?line = "join '' '' (LATLON_MARKER # ws) @ replicate j (CHR '' '')"
  have conts: "list_all (\<lambda>c. fst (snd c) \<noteq> [] \<and> list_all digits (fst (snd c))) conts" and ws: "list_all word (LATLON_MARKER # ws)"
    using assms(1,2) lay digits_words [of ws] marker_word by (auto simp: list_all_iff)
  obtain r where r: "?line = LATLON_MARKER @ r" by (cases ws) auto
  have trimmed: "trim ?line = join '' '' (LATLON_MARKER # ws)"
    using trim_padded [of "join '' '' (LATLON_MARKER # ws)" 0 j] join_words_ends [OF _ ws] by simp
  have "\<forall>l\<in>set (map continuation_line conts). \<not> latlon_ends (trim l)"
    using conts by (auto simp: list_all_iff continuation_trim coordinate_line_continues)
  then have "takeWhile (\<lambda>l. \<not> latlon_ends (trim l)) (map continuation_line conts @ post) = map continuation_line conts"
    using assms(3) by (cases post) (auto simp: takeWhile_append)
  then have "collect_latlon_candidate ?line (map continuation_line conts @ post) 0 =
      (join '' '' (LATLON_MARKER # layout_words lay), 1 + length conts)"
    using fold_layout [OF conts _ ws] by (simp add: collect_latlon_candidate_def join_continuation_conv trimmed Let_def lay)
  moreover have "ascii_find_case_insensitive ?line LATLON_MARKER = Some 0"
    unfolding r by (rule marker_first) (simp add: LATLON_MARKER_def)
  ultimately show ?thesis by (simp add: lay)
qed

lemma skip_lines: "\<forall>l\<in>set pre. ascii_find_case_insensitive l LATLON_MARKER = None \<Longrightarrow>
    find_latlon_candidates (pre @ ls) = find_latlon_candidates ls"
  by (induction pre) auto

definition close_ring :: "'f f64_text_ops \<Rightarrow> ('f \<times> 'f) list \<Rightarrow> ('f \<times> 'f) list" where
  "close_ring F points = (if point_eq F (hd points) (last points) then points else points @ [hd points])"

lemma ring_no_crossing: "simple_ring F ring \<Longrightarrow> \<not> (4 < length ring \<and> has_self_intersection F ring)"
  unfolding simple_ring_def has_self_intersection_iff by blast

lemma candidate_polygon:
  assumes "f64_reading F" and "list_all point_ok pts" and "3 \<le> length pts"
    and "simple_ring F (close_ring F (map (point_value F) pts))"
    and "raw = join '' '' (LATLON_MARKER # concat (map point_tokens pts))" and "list_all digits (concat (map point_tokens pts))"
  shows "parse_latlon_candidate F \<lparr>llc_raw = raw, llc_source_line = line\<rparr> =
    Some (Some \<lparr>poly_points = close_ring F (map (point_value F) pts),
      poly_wkt = format_polygon_wkt F (close_ring F (map (point_value F) pts))\<rparr>, [])"
proof -
  let ?words = "LATLON_MARKER # concat (map point_tokens pts)" and ?ring = "close_ring F (map (point_value F) pts)"
  have words: "list_all word ?words" using digits_words [OF assms(6)] marker_word by simp
  have "trim raw = raw" using join_words_ends [OF _ words] by (simp add: assms(5) trim_graphic)
  moreover have "split_whitespace raw = ?words" using split_whitespace_join [OF _ words] by (simp add: assms(5))
  moreover have "latlon_normalize F [] [] (concat (map point_tokens pts)) = Some (Some (concat (map point_coordinates pts), []))"
    using normalize_points [OF assms(1,2), of "[]"] by simp
  moreover have "latlon_parse_points F (concat (map point_coordinates pts)) raw = Some (Inr (map (point_value F) pts))"
    using points_read [OF assms(1,2), of raw "[]"] assms(3) by (simp add: latlon_parse_points_def)
  moreover have "validate_polygon F (map (point_value F) pts) raw = Inr ?ring"
    using assms(3) ring_no_crossing [OF assms(4)]
    by (simp add: validate_polygon_def Let_def close_ring_def split: if_splits)
  ultimately show ?thesis
    by (simp add: parse_latlon_candidate_def eq_ignore_ascii_case_def)
qed

lemma point_tokens_digits: "list_all point_ok pts \<Longrightarrow> list_all digits (concat (map point_tokens pts))"
  using coordinate_digits coordinate_nonempty by (induction pts) (auto simp: digits_def)

text \<open>
  C15: the polygon of a warning is recovered from its text. Points in hundredths of a degree are written as
  pairs of tokens or as tokens of eight digits, and the tokens are wrapped into lines in any way,
  with blanks around the lines. The parser returns the closed ring of exactly these points, followed by
  the polygons of the text behind the block, whatever lines without a marker stand in front of it.
\<close>

theorem warning_polygon_recovered:
  assumes "f64_reading F" and "list_all point_ok pts" and "3 \<le> length pts"
    and "ring = close_ring F (map (point_value F) pts)" and "simple_ring F ring"
    and "layout_ok lay" and "layout_words lay = concat (map point_tokens pts)"
    and "\<forall>l\<in>set pre. ascii_find_case_insensitive l LATLON_MARKER = None"
    and "post = [] \<or> latlon_ends (trim (hd post))"
    and "\<forall>l\<in>set (pre @ post). CHR 0x0A \<notin> set l \<and> CHR 0x0D \<notin> set l" and "k \<le> 1"
  shows "parse_latlon_polygons F (unlines k (pre @ layout_lines lay @ post)) =
    map_option ((#) \<lparr>poly_points = ring, poly_wkt = format_polygon_wkt F ring\<rparr>) (parse_latlon_polygons F (unlines k post))"
proof -
  have digits: "list_all digits (layout_words lay)" using point_tokens_digits [OF assms(2)] assms(7) by simp
  have "CHR 0x0A \<notin> set l \<and> CHR 0x0D \<notin> set l" if "l \<in> set (layout_lines lay)" for l
    using layout_chars [OF digits that] by (fastforce simp: LATLON_MARKER_def is_ascii_digit_def)
  then have "str_lines (unlines k (pre @ layout_lines lay @ post)) = pre @ layout_lines lay @ post" "str_lines (unlines k post) = post"
    using assms(10,11) by (auto intro!: str_lines_unlines)
  moreover obtain line where "find_latlon_candidates (layout_lines lay @ post) =
      \<lparr>llc_raw = join '' '' (LATLON_MARKER # layout_words lay), llc_source_line = line\<rparr> # find_latlon_candidates post"
    using layout_candidate [OF assms(6) digits assms(9)] by blast
  ultimately show ?thesis
    using candidate_polygon [OF assms(1-3), of "join '' '' (LATLON_MARKER # layout_words lay)" line] assms(4,5,7) digits
    by (simp add: parse_latlon_polygons_def parse_latlon_polygons_with_issues_def skip_lines [OF assms(8)]
        option.map_comp comp_def)
qed

subsection \<open>A warning\<close>

text \<open>Exact arithmetic reads and compares numbers as required.\<close>

definition exact_text_ops :: "real f64_text_ops" where
  "exact_text_ops =
     f64_ops.extend exact_ops
       (f64_text_ops.fields uminus (=)
         (\<lambda>s. case s of
            [] \<Rightarrow> None
          | c # cs \<Rightarrow> if c = CHR ''-'' then map_option (\<lambda>n. - real n) (digits_val 0 cs) else map_option real (digits_val 0 s))
         (\<lambda>n x. show_nat (nat \<lfloor>\<bar>x\<bar> * 10 ^ n\<rfloor>)))"

lemmas exact_text_simps = exact_text_ops_def exact_ops_def f64_ops.defs f64_text_ops.defs

lemma exact_reading: "f64_reading exact_text_ops"
  by (auto simp: f64_reading_def exact_text_simps digit_val_def is_ascii_digit_def split: list.splits)

definition triangle :: "point_text list" where
  "triangle = [(4000, 9800, False), (4100, 9800, True), (4100, 10100, False)]"

definition triangle_layout :: block_layout where
  "triangle_layout =
     (([coordinate 4000, coordinate 9800], 0),
      [(10, [coordinate 4100 @ coordinate 9800, coordinate 4100], 1), (10, [coordinate 10100], 0)])"

theorem warning_polygon_recovered_witness:
  "parse_latlon_polygons exact_text_ops (unlines 1 ([''BULLETIN''] @ layout_lines triangle_layout @ [[]])) =
     Some [\<lparr>poly_points = [(40, - 98), (41, - 98), (41, - 101), (40, - 98)],
       poly_wkt = format_polygon_wkt exact_text_ops [(40, - 98), (41, - 98), (41, - 101), (40, - 98)]\<rparr>]"
proof -
  have ring: "[(40, - 98), (41, - 98), (41, - 101), (40, - 98)] = close_ring exact_text_ops (map (point_value exact_text_ops) triangle)"
    by (simp add: close_ring_def triangle_def point_eq_def degrees_def exact_text_simps)
  have "parse_latlon_polygons exact_text_ops (unlines 1 [[]]) = Some []"
    by (simp add: parse_latlon_polygons_def parse_latlon_polygons_with_issues_def str_lines_unlines
        ascii_find_case_insensitive_def LATLON_MARKER_def List.map_filter_def)
  moreover have "simple_ring exact_text_ops [(40, - 98), (41, - 98), (41, - 101), (40, - 98)]"
    by (simp add: simple_ring_def)
  moreover have "latlon_ends (trim [])" by (simp add: latlon_ends_def)
  ultimately show ?thesis
    using warning_polygon_recovered [OF exact_reading, of triangle "[(40, - 98), (41, - 98), (41, - 101), (40, - 98)]" triangle_layout
        "[''BULLETIN'']" "[[]]" 1] ring
    by (simp add: triangle_def triangle_layout_def ascii_find_case_insensitive_def LATLON_MARKER_def)
qed

text \<open>
  A sign switches the scaling off: a token with a minus sign is read as a number of whole degrees, so that
  points outside the globe are accepted.
\<close>

theorem signed_coordinates_are_not_scaled:
  "parse_latlon_polygons exact_text_ops ''LAT...LON 4000 -9800 4100 -9800 4100 -9900'' =
     Some [\<lparr>poly_points = [(40, - 9800), (41, - 9800), (41, - 9900), (40, - 9800)],
       poly_wkt = format_polygon_wkt exact_text_ops [(40, - 9800), (41, - 9800), (41, - 9900), (40, - 9800)]\<rparr>]"
proof -
  define coords where "coords = [''4000'', ''-9800'', ''4100'', ''-9800'', ''4100'', ''-9900'']"
  define raw where "raw = join '' '' (LATLON_MARKER # coords)"
  have words: "list_all word (LATLON_MARKER # coords)" by (simp add: coords_def word_def LATLON_MARKER_def is_graphic_def)
  have written: "''LAT...LON 4000 -9800 4100 -9800 4100 -9900'' = raw" by (simp add: raw_def coords_def LATLON_MARKER_def)
  have lines: "str_lines raw = [raw]"
    by (rule str_lines_single) (simp_all add: raw_def coords_def LATLON_MARKER_def)
  have trimmed: "trim raw = raw" unfolding raw_def using join_words_ends [OF _ words] by (intro trim_graphic) simp_all
  have tokens: "trim ''4000'' = ''4000''" "trim ''-9800'' = ''-9800''" "trim ''4100'' = ''4100''" "trim ''-9900'' = ''-9900''"
    by (rule word_trim; simp add: word_def is_graphic_def)+
  have "ascii_find_case_insensitive raw LATLON_MARKER = Some 0"
    using marker_first [of LATLON_MARKER "drop 9 raw"] by (simp add: raw_def coords_def LATLON_MARKER_def)
  then have found: "find_latlon_candidates [raw] = [\<lparr>llc_raw = raw, llc_source_line = raw\<rparr>]"
    using trimmed by (simp add: collect_latlon_candidate_def)
  have normal: "latlon_normalize exact_text_ops [] [] coords = Some (Some (coords, []))"
    by (simp add: coords_def tokens is_latlon_terminator_def latlon_split_packed_def split_fused_coordinate_token_def
        trim_start_matches_def is_ascii_digit_def Let_def)
  have points: "latlon_parse_points exact_text_ops coords raw = Some (Inr [(40, - 9800), (41, - 9800), (41, - 9900)])"
    by (simp add: latlon_parse_points_def coords_def tokens latlon_parse_coordinate_def try_some_def starts_with_def
        exact_text_simps digit_val_def is_ascii_digit_def)
  have "validate_polygon exact_text_ops [(40, - 9800), (41, - 9800), (41, - 9900)] raw =
      Inr [(40, - 9800), (41, - 9800), (41, - 9900), (40, - 9800)]"
    by (simp add: validate_polygon_def point_eq_def exact_text_simps)
  then have "parse_latlon_candidate exact_text_ops \<lparr>llc_raw = raw, llc_source_line = raw\<rparr> =
      Some (Some \<lparr>poly_points = [(40, - 9800), (41, - 9800), (41, - 9900), (40, - 9800)],
        poly_wkt = format_polygon_wkt exact_text_ops [(40, - 9800), (41, - 9800), (41, - 9900), (40, - 9800)]\<rparr>, [])"
    using split_whitespace_join [OF _ words, folded raw_def] normal points trimmed
    by (simp add: parse_latlon_candidate_def eq_ignore_ascii_case_def)
  then show ?thesis
    unfolding written
    by (simp add: parse_latlon_polygons_def parse_latlon_polygons_with_issues_def lines found List.map_filter_def
        del: find_latlon_candidates.simps)
qed

subsection \<open>Storm motion\<close>

text \<open>
  The parser of storm motion does not look at the characters of a coordinate before it cuts it: a coordinate
  in which the cut falls inside a character panics.
\<close>

definition garbled_coordinate :: string where
  "garbled_coordinate = ''3'' @ map char_of [0xC3, 0xA9 :: nat] @ ''1''"

definition garbled_motion :: string where
  "garbled_motion = ''TIME...MOT...LOC 2310Z 238DEG 39KT '' @ garbled_coordinate @ '' 8853''"

lemma garbled_words:
  "split_whitespace garbled_motion = [''TIME...MOT...LOC'', ''2310Z'', ''238DEG'', ''39KT'', garbled_coordinate, ''8853'']"
  "trim garbled_motion = garbled_motion" "trim garbled_coordinate = garbled_coordinate"
proof -
  have white: "white_front (CHR 0xC3 # cs) = None" "white_front (CHR 0xA9 # cs) = None" for cs
    by (simp_all add: white_front_def unicode_white_space_def starts_with_def char_of_def bit_0)
  have g: "garbled_coordinate = CHR ''3'' # CHR 0xC3 # CHR 0xA9 # ''1''"
    by (simp add: garbled_coordinate_def char_of_def bit_0)
  have words: "word ''TIME...MOT...LOC''" "word ''2310Z''" "word ''238DEG''" "word ''39KT''" "word ''8853''"
    by (simp_all add: word_def is_graphic_def)
  have three: "is_graphic (CHR ''3'')" "is_graphic (CHR ''1'')" "is_graphic (CHR ''T'')" by (simp_all add: is_graphic_def)
  show "trim garbled_coordinate = garbled_coordinate" "trim garbled_motion = garbled_motion"
    using three by (simp_all add: trim_graphic g garbled_motion_def)
  have "first_word (garbled_coordinate @ CHR '' '' # s) = garbled_coordinate" for s
    using first_word_blank [of "''1''" s] three by (simp add: g white white_front_graphic)
  then have "split_whitespace (garbled_coordinate @ CHR '' '' # ''8853'') = [garbled_coordinate, ''8853'']"
    using split_whitespace_word(1) [OF words(5)] trim_start_graphic [of "garbled_coordinate @ CHR '' '' # ''8853''"] three
    by (subst split_whitespace.simps) (simp add: split_whitespace_blank, simp add: g split_whitespace_blank)
  then show "split_whitespace garbled_motion = [''TIME...MOT...LOC'', ''2310Z'', ''238DEG'', ''39KT'', garbled_coordinate, ''8853'']"
    using split_whitespace_word(2) [OF words(1), of "''2310Z 238DEG 39KT '' @ garbled_coordinate @ '' 8853''"]
      split_whitespace_word(2) [OF words(2), of "''238DEG 39KT '' @ garbled_coordinate @ '' 8853''"]
      split_whitespace_word(2) [OF words(3), of "''39KT '' @ garbled_coordinate @ '' 8853''"]
      split_whitespace_word(2) [OF words(4), of "garbled_coordinate @ '' 8853''"]
    by (simp add: garbled_motion_def)
qed

lemma garbled_candidate:
  "find_time_mot_loc_candidates (str_lines garbled_motion) =
     [\<lparr>tmc_raw = garbled_motion, tmc_source_line = garbled_motion, tmc_marker_was_embedded = False\<rparr>]"
proof -
  have "CHR 0x0A \<notin> set garbled_motion"
    by (simp add: garbled_motion_def garbled_coordinate_def char_of_def bit_0)
  then have lines: "str_lines garbled_motion = [garbled_motion]"
    by (intro str_lines_single) (simp_all add: garbled_motion_def)
  have "ascii_find_case_insensitive garbled_motion TML_MARKER = Some 0"
    using marker_first [of TML_MARKER "'' 2310Z 238DEG 39KT '' @ garbled_coordinate @ '' 8853''"]
    by (simp add: garbled_motion_def TML_MARKER_def)
  moreover have "candidate_has_parseable_prefix garbled_motion"
    by (simp add: candidate_has_parseable_prefix_def garbled_words parse_degrees_token_def parse_speed_token_def
        parse_unit_token_def strip_suffix_def ends_with_def starts_with_def parse_word_def parse_nat_def digit_val_def
        is_ascii_digit_def eq_ignore_ascii_case_def TML_MARKER_def parse_time_shape_def)
  ultimately show ?thesis
    by (simp add: lines collect_time_mot_loc_candidate_def garbled_words)
qed

theorem storm_motion_parser_panics:
  assumes "resolve_clock_time_nearest C ref 23 10 = Some t"
  shows "parse_time_mot_loc_entries_with_issues F C garbled_motion ref = None"
proof -
  have time: "parse_time_token C ''2310Z'' ref = Some t"
    using assms
    by (simp add: parse_time_token_def parse_time_shape_def ends_with_def starts_with_def parse_word_def parse_nat_def
        digit_val_def is_ascii_digit_def)
  have units: "parse_degrees_token (''238DEG'' # ts) = (Some 238, ts)" "parse_speed_token (''39KT'' # ts) = (Some 39, ts)" for ts
    by (simp_all add: parse_degrees_token_def parse_speed_token_def parse_unit_token_def strip_suffix_def ends_with_def
        starts_with_def parse_word_def parse_nat_def digit_val_def is_ascii_digit_def)
  have trims: "trim ''8853'' = ''8853''" by (rule word_trim) (simp add: word_def is_graphic_def)
  have len: "length garbled_coordinate = 4" by (simp add: garbled_coordinate_def)
  have normal: "tml_normalize F [] [garbled_coordinate, ''8853''] = Some (Some [garbled_coordinate, ''8853''])"
    using len trims by (simp add: garbled_words(3) tml_split_packed_def)
  have "trim_start_matches (CHR ''-'') garbled_coordinate = garbled_coordinate"
    by (simp add: trim_start_matches_def garbled_coordinate_def)
  moreover have "str_slice garbled_coordinate 0 2 = None"
    by (simp add: str_slice_def str_get_def garbled_coordinate_def char_of_def bit_0 is_char_boundary_def is_cont_def
        bytes_of_def)
  ultimately have "tml_parse_coordinate F garbled_coordinate True = None"
    using len by (simp add: tml_parse_coordinate_def garbled_words(3) parse_part_def try_some_def)
  then have "parse_time_mot_loc_candidate F C \<lparr>tmc_raw = garbled_motion, tmc_source_line = garbled_motion, tmc_marker_was_embedded = False\<rparr> ref = None"
    using normal time units
    by (simp add: parse_time_mot_loc_candidate_def garbled_words eq_ignore_ascii_case_def TML_MARKER_def Let_def
        del: tml_normalize.simps)
  then show ?thesis
    by (simp add: parse_time_mot_loc_entries_with_issues_def Let_def garbled_candidate tml_candidate_results_def)
qed

end
