(* ===== verification/Body_Correct.thy ===== *)
theory Body_Correct
  imports Body Polygon_Correct Vtec_Correct "HOL-Library.Sublist"
begin

text \<open>
  The body of a product: cutting the text into segments loses no event code, and ASCII text never makes the
  parser panic.
\<close>

subsection \<open>Event codes and segments\<close>

abbreviation codes :: "chrono_ext \<Rightarrow> string \<Rightarrow> VtecCode list" where
  "codes C s \<equiv> fst (parse_vtec_codes_with_issues C s)"

lemma scan_append: "subseq (scan_slash_delimited_candidates P a @ scan_slash_delimited_candidates P b)
    (scan_slash_delimited_candidates P (a @ b))"
proof (induction a)
  case (Cons c a)
  show ?case
  proof (cases "c = CHR ''/''")
    case True
    show ?thesis
    proof (cases "position ((=) (CHR ''/'')) a")
      case None
      then show ?thesis
        using Cons.IH True
        by (auto simp: position_append Let_def split: option.splits intro: list_emb_append2 subseq_order.trans)
    next
      case (Some i)
      then have "i < length a" using position_SomeD [OF Some] by simp
      with Some show ?thesis using Cons.IH True by (simp add: position_append Let_def)
    qed
  qed (use Cons.IH in simp)
qed simp

lemma scan_append_plain: "CHR ''/'' \<notin> set b \<Longrightarrow> scan_slash_delimited_candidates P (a @ b) = scan_slash_delimited_candidates P a"
proof (induction a)
  case Nil
  then show ?case by (induction b) auto
next
  case (Cons c a)
  have "position ((=) (CHR ''/'')) b = None" using Cons.prems by (auto simp: position_None_iff)
  moreover have "i < length a" if "position ((=) (CHR ''/'')) a = Some i" for i using position_SomeD [OF that] by simp
  ultimately show ?case
    using Cons by (cases "position ((=) (CHR ''/'')) a") (simp_all add: position_append Let_def)
qed

lemma codes_conv: "codes C s = List.map_filter (\<lambda>c. case parse_vtec_candidate C c of Inr x \<Rightarrow> Some x | Inl _ \<Rightarrow> None) (find_vtec_candidates s)"
proof -
  have "fst (partition_results (map f xs)) = List.map_filter (\<lambda>c. case f c of Inr x \<Rightarrow> Some x | Inl _ \<Rightarrow> None) xs"
    for f :: "string \<Rightarrow> ProductParseIssue + VtecCode" and xs
    by (induction xs) (auto simp: Let_def List.map_filter_simps split: prod.splits sum.splits)
  then show ?thesis by (simp add: parse_vtec_codes_with_issues_def)
qed

lemma subseq_map_filter: "subseq xs ys \<Longrightarrow> subseq (List.map_filter f xs) (List.map_filter f ys)"
  unfolding List.map_filter_def by (intro subseq_map subseq_filter)

lemma codes_append: "subseq (codes C a @ codes C b) (codes C (a @ b))"
proof -
  let ?g = "\<lambda>c. case parse_vtec_candidate C c of Inr x \<Rightarrow> Some x | Inl _ \<Rightarrow> None"
  have "subseq (List.map_filter ?g (find_vtec_candidates a @ find_vtec_candidates b)) (List.map_filter ?g (find_vtec_candidates (a @ b)))"
    unfolding find_vtec_candidates_def by (intro subseq_map_filter scan_append)
  then show ?thesis by (simp add: codes_conv) (simp add: List.map_filter_def)
qed

lemma codes_plain: "CHR ''/'' \<notin> set s \<Longrightarrow> codes C s = []"
  using scan_append_plain [of s is_vtec_candidate "[]"] by (simp add: codes_conv find_vtec_candidates_def List.map_filter_def)

lemma codes_append_plain: "CHR ''/'' \<notin> set b \<Longrightarrow> codes C (a @ b) = codes C a"
  by (simp add: codes_conv find_vtec_candidates_def scan_append_plain)

lemma codes_join: "subseq (concat (map (codes C) ls)) (codes C (join [CHR 0x0A] ls))"
proof (induction "[CHR 0x0A]" ls rule: join.induct)
  case (3 x y zs)
  have "codes C ([CHR 0x0A] @ s) = codes C s" for s
    by (simp add: codes_conv find_vtec_candidates_def)
  then have "subseq (codes C x @ codes C (join [CHR 0x0A] (y # zs))) (codes C (join [CHR 0x0A] (x # y # zs)))"
    using codes_append [of C x "[CHR 0x0A] @ join [CHR 0x0A] (y # zs)"] by simp
  then show ?case using 3 by (auto intro: subseq_order.trans list_emb_append_mono)
qed simp_all

lemma trim_seqs_keeps: "c \<in> set s \<Longrightarrow> \<forall>w\<in>set ws. c \<notin> set w \<Longrightarrow> c \<in> set (trim_seqs ws s)"
proof (induction ws s rule: trim_seqs.induct)
  case (1 ws s)
  show ?case
  proof (cases "find (\<lambda>w. w \<noteq> [] \<and> starts_with s w) ws")
    case None
    then show ?thesis using "1.prems" by (subst trim_seqs.simps) simp
  next
    case (Some w)
    then have w: "w \<in> set ws" "starts_with s w" by (auto simp: find_Some_iff)
    then have "c \<in> set (drop (length w) s)" using "1.prems" by (auto simp: starts_with_iff)
    then show ?thesis using "1.IH" [OF Some] "1.prems"(2) Some by (subst trim_seqs.simps) simp
  qed
qed

lemma white_space_no_slash: "\<forall>w\<in>set unicode_white_space. CHR ''/'' \<notin> set w"
  by (simp add: unicode_white_space_def char_of_def bit_0)

lemma slash_kept: "CHR ''/'' \<in> set s \<Longrightarrow> CHR ''/'' \<in> set (trim_end s)" "CHR ''/'' \<in> set s \<Longrightarrow> CHR ''/'' \<in> set (trim s)"
proof -
  have "CHR ''/'' \<in> set (trim_end s)" if "CHR ''/'' \<in> set s" for s
    using trim_seqs_keeps [of "CHR ''/''" "rev s" "map rev unicode_white_space"] that white_space_no_slash by (simp add: trim_end_def)
  moreover have "CHR ''/'' \<in> set (trim_start s)" if "CHR ''/'' \<in> set s" for s
    using trim_seqs_keeps [of "CHR ''/''" s unicode_white_space] that white_space_no_slash by (simp add: trim_start_def)
  ultimately show "CHR ''/'' \<in> set s \<Longrightarrow> CHR ''/'' \<in> set (trim_end s)" "CHR ''/'' \<in> set s \<Longrightarrow> CHR ''/'' \<in> set (trim s)"
    by (auto simp: trim_def)
qed

lemma trim_seqs_dropped: "\<exists>p. s = p @ trim_seqs ws s \<and> (\<forall>c\<in>set p. \<exists>w\<in>set ws. c \<in> set w)"
proof (induction ws s rule: trim_seqs.induct)
  case (1 ws s)
  show ?case
  proof (cases "find (\<lambda>w. w \<noteq> [] \<and> starts_with s w) ws")
    case None
    then show ?thesis by (subst trim_seqs.simps) simp
  next
    case (Some w)
    then have w: "w \<in> set ws" "s = w @ drop (length w) s" by (auto simp: find_Some_iff starts_with_iff)
    obtain p where "drop (length w) s = p @ trim_seqs ws (drop (length w) s)" "\<forall>c\<in>set p. \<exists>w\<in>set ws. c \<in> set w"
      using "1.IH" [OF Some] by blast
    then have "s = (w @ p) @ trim_seqs ws s" "\<forall>c\<in>set (w @ p). \<exists>w\<in>set ws. c \<in> set w"
      using w Some by (subst trim_seqs.simps, auto)+
    then show ?thesis by blast
  qed
qed

text \<open>Blanks at the end of a line do not matter for event codes.\<close>

lemma codes_trim_end: "codes C (trim_end s) = codes C s"
proof -
  obtain p where p: "rev s = p @ trim_seqs (map rev unicode_white_space) (rev s)"
      "\<forall>c\<in>set p. \<exists>w\<in>set (map rev unicode_white_space). c \<in> set w"
    using trim_seqs_dropped [of "rev s" "map rev unicode_white_space"] by (elim exE conjE)
  have "s = trim_end s @ rev p" using arg_cong [OF p(1), of rev] by (simp add: trim_end_def)
  moreover have "CHR ''/'' \<notin> set (rev p)" using p(2) white_space_no_slash by auto
  ultimately show ?thesis using codes_append_plain [of "rev p" C "trim_end s"] by simp
qed

definition collected :: "chrono_ext \<Rightarrow> splitting \<Rightarrow> VtecCode list" where
  "collected C s = concat (map (codes C) (spl_segments s)) @ codes C (join [CHR 0x0A] (spl_current s))"

lemma codes_Nil [simp]: "codes C [] = []"
  by (simp add: codes_plain)

lemma push_collects:
  "spl_current (push_vtec_segment C s) = []" "concat (map (codes C) (spl_segments (push_vtec_segment C s))) = collected C s"
  by (auto simp: push_vtec_segment_def collected_def Let_def)

lemma close_collects: "collected C (close_segment C s) = collected C s" "spl_current (close_segment C s) = []"
  using push_collects [of C s] by (simp_all add: close_segment_def collected_def)

lemma append_current: "subseq (collected C s @ codes C l) (collected C (s\<lparr>spl_current := spl_current s @ [l]\<rparr>))"
proof (cases "spl_current s = []")
  case False
  have "join [CHR 0x0A] (spl_current s @ [l]) = join [CHR 0x0A] (spl_current s) @ [CHR 0x0A] @ l"
    using join_append [OF False, of "[l]"] by simp
  moreover have "codes C ([CHR 0x0A] @ l) = codes C l" by (simp add: codes_conv find_vtec_candidates_def)
  ultimately show ?thesis
    using codes_append [of C "join [CHR 0x0A] (spl_current s)" "[CHR 0x0A] @ l"]
    by (simp add: collected_def list_emb_append_mono)
qed (simp add: collected_def)

lemma split_line_collects: "subseq (collected (bx_chrono B) s @ codes (bx_chrono B) l) (collected (bx_chrono B) (split_line B l s))"
proof -
  let ?C = "bx_chrono B" and ?t = "trim_end l"
  define s1 where "s1 = (if spl_current s \<noteq> [] \<and> spl_has_vtec s \<and> (is_ugc_start ?t \<or> (line_has_vtec ?C ?t \<and> spl_has_geography s))
    then close_segment ?C s else s)"
  have s1: "collected ?C s1 = collected ?C s" by (simp add: s1_def close_collects)
  have empty: "codes ?C l = []" if "CHR ''/'' \<notin> set (trim ?t)"
    using codes_plain [of l ?C] slash_kept [of l] slash_kept [of ?t] that by blast
  have grow: "collected ?C (s1\<lparr>spl_current := x, spl_has_vtec := v, spl_has_geography := g\<rparr>) = collected ?C (s1\<lparr>spl_current := x\<rparr>)" for x v g
    by (simp add: collected_def)
  consider (separator) "trim ?t = ''$$''"
    | (skipped) "trim ?t \<noteq> ''$$''" "spl_current s1 = []" "\<not> looks_like_event_content B ?t \<or> trim ?t = []"
    | (kept) "trim ?t \<noteq> ''$$''" "\<not> (spl_current s1 = [] \<and> (\<not> looks_like_event_content B ?t \<or> trim ?t = []))"
    by blast
  then show ?thesis
  proof cases
    case separator
    then show ?thesis using empty by (simp add: split_line_def Let_def close_collects)
  next
    case skipped
    then have "codes ?C l = []"
      using empty codes_trim_end [of ?C l] by (auto simp: looks_like_event_content_def line_has_vtec_def)
    then show ?thesis using skipped s1 by (auto simp: split_line_def Let_def s1_def [symmetric])
  next
    case kept
    then have "split_line B l s = s1\<lparr>spl_current := spl_current s1 @ [?t], spl_has_vtec := spl_has_vtec s1 \<or> line_has_vtec ?C ?t,
        spl_has_geography := spl_has_geography s1 \<or> line_has_geography ?t\<rparr>"
      by (auto simp: split_line_def Let_def s1_def [symmetric])
    then show ?thesis using append_current [of ?C s1 ?t] s1 by (simp add: grow codes_trim_end)
  qed
qed

lemma fold_collects:
  "subseq (collected (bx_chrono B) s @ concat (map (codes (bx_chrono B)) ls)) (collected (bx_chrono B) (fold (split_line B) ls s))"
proof (induction ls arbitrary: s)
  case (Cons l ls)
  have "subseq ((collected (bx_chrono B) s @ codes (bx_chrono B) l) @ concat (map (codes (bx_chrono B)) ls))
      (collected (bx_chrono B) (split_line B l s) @ concat (map (codes (bx_chrono B)) ls))"
    by (intro list_emb_append_mono split_line_collects) simp
  then show ?case using Cons.IH [of "split_line B l s"] by (auto intro: subseq_order.trans)
qed simp

definition bearing :: "chrono_ext \<Rightarrow> splitting \<Rightarrow> bool" where
  "bearing C s \<longleftrightarrow> (\<forall>x\<in>set (spl_segments s). codes C x \<noteq> [])"

lemma push_bearing: "bearing C s \<Longrightarrow> bearing C (push_vtec_segment C s)"
  by (auto simp: bearing_def push_vtec_segment_def Let_def)

lemma split_line_bearing: "bearing (bx_chrono B) s \<Longrightarrow> bearing (bx_chrono B) (split_line B l s)"
  using push_bearing [of "bx_chrono B" s] by (simp add: split_line_def close_segment_def Let_def) (simp add: bearing_def)

lemma fold_bearing: "bearing (bx_chrono B) s \<Longrightarrow> bearing (bx_chrono B) (fold (split_line B) ls s)"
  by (induction ls arbitrary: s) (simp_all add: split_line_bearing)

lemma split_collects:
  "subseq (concat (map (codes (bx_chrono B)) (str_lines (filter (\<lambda>c. c \<noteq> CHR 0x0D) text))))
     (concat (map (codes (bx_chrono B)) (split_vtec_segments B text)))"
  "\<forall>x\<in>set (split_vtec_segments B text). codes (bx_chrono B) x \<noteq> []"
proof -
  let ?s = "\<lparr>spl_segments = [], spl_current = [], spl_has_vtec = False, spl_has_geography = False\<rparr>"
    and ?ls = "str_lines (filter (\<lambda>c. c \<noteq> CHR 0x0D) text)" and ?C = "bx_chrono B"
  show "subseq (concat (map (codes ?C) ?ls)) (concat (map (codes ?C) (split_vtec_segments B text)))"
    using fold_collects [of B ?s ?ls] unfolding split_vtec_segments_def Let_def push_collects(2)
    by (simp add: collected_def)
  have "bearing ?C ?s" by (simp add: bearing_def)
  then show "\<forall>x\<in>set (split_vtec_segments B text). codes ?C x \<noteq> []"
    using push_bearing [OF fold_bearing, of B ?s ?ls] unfolding split_vtec_segments_def Let_def bearing_def by blast
qed

lemma parse_segment_codes:
  "parse_segment B ref (i, raw) = Some (r, issues) \<Longrightarrow> codes (bx_chrono B) raw \<noteq> [] \<Longrightarrow>
     \<exists>seg. r = Some seg \<and> seg_index seg = i \<and> seg_vtec seg = codes (bx_chrono B) raw"
  by (auto simp: parse_segment_def Let_def split: prod.splits if_splits bind_splits)

lemma parse_segments_codes:
  assumes "map_panics (parse_segment B ref) (enumerate n raws) = Some results"
    and "\<forall>raw\<in>set raws. codes (bx_chrono B) raw \<noteq> []"
  shows "map seg_vtec (List.map_filter fst results) = map (codes (bx_chrono B)) raws
    \<and> map seg_index (List.map_filter fst results) = [n..<n + length raws]"
  using assms
proof (induction raws arbitrary: n results)
  case (Cons raw raws)
  obtain r issues rest where r: "parse_segment B ref (n, raw) = Some (r, issues)"
    "map_panics (parse_segment B ref) (enumerate (Suc n) raws) = Some rest" "results = (r, issues) # rest"
    using Cons.prems(1) by (auto split: option.splits)
  obtain seg where "r = Some seg" "seg_index seg = n" "seg_vtec seg = codes (bx_chrono B) raw"
    using parse_segment_codes [OF r(1)] Cons.prems(2) by auto
  then show ?case
    using Cons.IH [OF r(2)] Cons.prems(2) r(3) by (simp add: List.map_filter_simps upt_conv_Cons del: upt_Suc)
qed (simp add: List.map_filter_simps)

text \<open>
  C16: no event is lost when a product is cut into segments. The segments of the body are numbered from 0 and
  each has at least one event code, and the event codes that stand on single lines of the text occur in
  the segments in the same order.
\<close>

theorem body_keeps_every_event:
  assumes "parse_vtec_event_body_with_issues B text ref = Some (body, issues)"
  shows "map seg_index (opt_list body) = [0..<length (opt_list body)] \<and> list_all (\<lambda>seg. seg_vtec seg \<noteq> []) (opt_list body)
    \<and> subseq (concat (map (codes (bx_chrono B)) (str_lines (filter (\<lambda>c. c \<noteq> CHR 0x0D) text))))
        (concat (map seg_vtec (opt_list body)))"
proof -
  let ?raws = "split_vtec_segments B text"
  obtain results where r: "map_panics (parse_segment B ref) (enumerate 0 ?raws) = Some results"
    and body: "opt_list body = List.map_filter fst results"
    using assms by (auto simp: parse_vtec_event_body_with_issues_def Let_def then_some_def opt_list_def split: if_splits)
  note segs = parse_segments_codes [OF r split_collects(2)]
  then have len: "length (List.map_filter fst results) = length ?raws" using map_eq_imp_length_eq by blast
  have "seg_vtec seg \<noteq> []" if "seg \<in> set (List.map_filter fst results)" for seg
  proof -
    have "seg_vtec seg \<in> set (map seg_vtec (List.map_filter fst results))" using that by simp
    then show ?thesis unfolding conjunct1 [OF segs] using split_collects(2) [of B "text"] by auto
  qed
  then show ?thesis
    using segs len split_collects(1) [of B "text"] by (simp add: body list_all_iff)
qed

subsection \<open>Panics\<close>

lemma ascii_join: "ascii d \<Longrightarrow> list_all ascii ls \<Longrightarrow> ascii (join d ls)"
  by (induction d ls rule: join.induct) (auto simp: ascii_def)

definition ascii_splitting :: "splitting \<Rightarrow> bool" where
  "ascii_splitting s \<longleftrightarrow> list_all ascii (spl_segments s) \<and> list_all ascii (spl_current s)"

lemma push_ascii: "ascii_splitting s \<Longrightarrow> ascii_splitting (push_vtec_segment C s)"
  using ascii_join [of "[CHR 0x0A]" "spl_current s"]
  by (auto simp: ascii_splitting_def push_vtec_segment_def Let_def ascii_def [of "[CHR 0x0A]"])

lemma split_line_ascii: "ascii_splitting s \<Longrightarrow> ascii l \<Longrightarrow> ascii_splitting (split_line B l s)"
  using push_ascii [of s "bx_chrono B"] ascii_subset [OF _ set_trim_end, of l]
  by (simp add: split_line_def close_segment_def Let_def) (simp add: ascii_splitting_def)

lemma fold_ascii: "list_all ascii ls \<Longrightarrow> ascii_splitting s \<Longrightarrow> ascii_splitting (fold (split_line B) ls s)"
  by (induction ls arbitrary: s) (auto simp: split_line_ascii)

lemma vtec_segments_ascii:
  assumes "ascii text"
  shows "list_all ascii (split_vtec_segments B text)"
proof -
  let ?ls = "str_lines (filter (\<lambda>c. c \<noteq> CHR 0x0D) text)"
  have "ascii (filter (\<lambda>c. c \<noteq> CHR 0x0D) text)" using assms by (auto simp: ascii_def)
  then have "list_all ascii ?ls" using ascii_parts(3) by (simp add: list_all_iff)
  then have "ascii_splitting (fold (split_line B) ?ls s)" if "ascii_splitting s" for s
    using that by (rule fold_ascii)
  from push_ascii [OF this] show ?thesis
    unfolding split_vtec_segments_def Let_def by (simp add: ascii_splitting_def)
qed

lemma ugc_total: "ascii text \<Longrightarrow> returns (parse_ugc_sections_with_issues C D text t)"
  using ugc_parser_total_on_ascii [of "text" C D t] by (simp add: returns_def)

lemma parse_segment_total: "ascii raw \<Longrightarrow> returns (parse_segment B ref (i, raw))"
  using ugc_total [of raw "bx_chrono B" "bx_catalogs B"] tml_total [of raw "bx_f64 B" "bx_chrono B"] latlon_total [of "bx_f64 B" raw]
  by (auto simp: parse_segment_def Let_def segment_ugc_def segment_time_mot_loc_def split: prod.splits option.splits
      intro!: returns_bind)

lemma vtec_events_total:
  assumes "ascii text"
  shows "returns (parse_vtec_event_body_with_issues B text ref)"
proof -
  have "ascii (snd x)" if "x \<in> set (enumerate 0 (split_vtec_segments B text))" for x
    using vtec_segments_ascii [OF assms, of B] that by (cases x) (auto simp: list_all_iff in_set_enumerate_eq)
  then have "returns (map_panics (parse_segment B ref) (enumerate 0 (split_vtec_segments B text)))"
    by (intro returns_map_panics) (metis parse_segment_total prod.collapse)
  then show ?thesis by (simp add: parse_vtec_event_body_with_issues_def Let_def)
qed

lemma extractor_total: "ascii text \<Longrightarrow> returns (apply_extractor B text ref e s)"
  using ugc_total [of "text" "bx_chrono B" "bx_catalogs B"] tml_total [of "text" "bx_f64 B" "bx_chrono B"]
    latlon_total [of "bx_f64 B" "text"] vtec_events_total [of "text" B ref]
  by (cases e) (simp_all add: apply_vtec_events_extractor_def apply_ugc_extractor_def apply_latlon_extractor_def
      apply_time_mot_loc_extractor_def split: option.splits)

lemma extractors_total: "ascii text \<Longrightarrow> returns (run_extractors B text ref es s)"
  by (induction es arbitrary: s) (auto intro!: returns_bind extractor_total)

text \<open>
  C17: on ASCII text the body of a product is always parsed: no extractor panics, whatever the product, its
  extraction plan and the reference time.
\<close>

theorem body_parser_total_on_ascii:
  assumes "ascii text"
  shows "\<exists>body issues. enrich_body B text pil ref = Some (body, issues)"
proof -
  have "returns (enrich_body B text pil ref)"
    using extractors_total [OF assms] by (auto simp: enrich_body_def enrich_body_from_plan_def split: option.splits)
  then show ?thesis by (auto simp: returns_def)
qed

subsection \<open>A product\<close>

definition demo_body :: "real body_ext" where
  "demo_body =
     \<lparr>bx_f64 = exact_text_ops, bx_chrono = sample_chrono,
      bx_catalogs = \<lparr>NWSLID_CATALOG = [], UGC_COUNTY_CATALOG = [], UGC_ZONE_CATALOG = [], WMO_OFFICE_CATALOG = [],
        TEXT_PRODUCT_CATALOG =
          [\<lparr>tp_pil = ''TOR'', tp_wmo_prefix = ''WF'', tp_title = ''Tornado Warning'', tp_routing = RouteGeneric,
            tp_body_behavior = BodyCatalog,
            tp_extractors = [VtecEvents, UgcExtractor, LatLonExtractor, TimeMotLocExtractor, WindHailExtractor]\<rparr>]\<rparr>,
      bx_legacy = \<lambda>_. []\<rparr>"

theorem body_parser_total_on_ascii_witness:
  "\<exists>body issues. enrich_body demo_body ''TORNADO WARNING'' ''TOR'' (Some 0) = Some (body, issues)"
  by (rule body_parser_total_on_ascii) (simp add: ascii_def)

definition demo_event :: string where
  "demo_event = interleave [[], []] [vtec_text sample_vtec]"

lemma demo_event_chars: "c \<in> set demo_event \<Longrightarrow> is_graphic c"
  using pad_left_digits [of 4 23]
  by (auto simp: demo_event_def interleave_def vtec_text_def vtec_fields_def sample_vtec_def UNSPECIFIED_TIME_def
      is_graphic_def list_all_iff is_ascii_digit_def)

lemma demo_event_codes: "codes sample_chrono demo_event = [vtec_meaning sample_chrono sample_vtec]"
proof -
  let ?xs = "[Inl sample_vtec :: vtec_wire + string]"
  have "vtec.parse_codes sample_chrono (interleave [[], []] (map (case_sum vtec_text id) ?xs)) =
      (map (vtec_meaning sample_chrono) (List.map_filter (case_sum Some (\<lambda>_. None)) ?xs), [])"
    by (rule vtec.parse_interleaved)
      (simp_all add: sample_code_simps is_vtec_candidate_def enclosed_def between_slashes_def strip_prefix_def strip_suffix_def starts_with_def)
  then show ?thesis by (simp add: demo_event_def parse_vtec_codes_conv List.map_filter_simps)
qed

theorem body_keeps_every_event_witness:
  "\<exists>body issues. parse_vtec_event_body_with_issues demo_body demo_event None = Some (body, issues)
     \<and> subseq [vtec_meaning sample_chrono sample_vtec] (concat (map seg_vtec (opt_list body)))"
proof -
  have "ascii demo_event" using demo_event_chars by (fastforce simp: ascii_def is_graphic_def)
  then obtain body issues where b: "parse_vtec_event_body_with_issues demo_body demo_event None = Some (body, issues)"
    by (metis returnsE vtec_events_total prod.collapse)
  have no: "CHR 0x0A \<notin> set demo_event" "CHR 0x0D \<notin> set demo_event"
    using demo_event_chars [of "CHR 0x0A"] demo_event_chars [of "CHR 0x0D"] by (auto simp: is_graphic_def)
  have "filter (\<lambda>c. c \<noteq> CHR 0x0D) demo_event = demo_event" using no(2) by (simp add: filter_id_conv) blast
  moreover have "str_lines demo_event = [demo_event]" using no(1) demo_event_codes by (intro str_lines_single) auto
  ultimately show ?thesis
    using body_keeps_every_event [OF b] b by (simp add: demo_body_def demo_event_codes)
qed

end
