(* ===== verification/Spec2Isabelle.thy ===== *)
theory Spec2Isabelle
  imports Codec_Props Assembler_Correct Receiver_Correct Relay_Props Wxwire_Transport_Correct
    Wxwire_Client_Correct Wxwire_Codec_Correct Ingest_Correct Vtec_Correct Ugc_Correct
    Persistence_Correct Blob_Store_Correct File_Filter_Correct Live_Server_Correct Body_Correct
begin

text \<open>
  Verification of the EMWIN ingest system (\<open>src/crates/emwin-protocol\<close>), of the part of its text
  parser that reads the bodies of products (\<open>src/crates/emwin-parser\<close>), of the
  persistence runtime (\<open>src/crates/emwin-db\<close>) and of the live server (\<open>src/crates/emwin-cli\<close>).

  \<^bold>\<open>The program.\<close> Weather products reach the system over two feeds. The QBT feed is a byte stream,
  masked with \<open>0xFF\<close>, of data frames (one block of a file each) and server-list frames; the
  Weather Wire feed is an XMPP chat room whose messages carry one product each. For each feed a
  receiver keeps a connection, decodes what it reads and puts events into a bounded queue. The
  unified receiver adapts both queues into one stream of products; on the QBT side it assembles
  the blocks into files. A relay serves the unmodified QBT byte stream to authenticated clients.
  The text parser takes a product apart: it cuts the text into segments around event codes and reads
  event codes, sections of geographic codes with an expiration time, warning polygons, storm motion and
  wind and hail tags, with look-ups in catalogs of products and places. The live server takes
  the unified stream, unpacks archives, keeps recent products for download, announces each one to the
  HTTP clients whose query it matches and queues it for a background worker, which writes payload and
  metadata to a file system or to S3 and then commits a row to a database.

  \<^bold>\<open>Theories and sources.\<close> Paths are relative to \<open>src/crates/emwin-protocol/src\<close> or,
  where they begin with the name of a crate, to \<open>src/crates\<close>.

  \<^item> \<open>Prelude\<close>, \<open>Utf8\<close>, \<open>Collections\<close>: the parts of Rust's core and standard library that the
    code uses (byte and string operations, saturating integers, UTF-8 decoding, hash and tree maps)
    and their lemmas; \<open>Collections\<close> has the locale of keyed stores, interpreted on both maps.
  \<^item> \<open>Wire_Model\<close> (\<open>qbt_receiver/protocol/model.rs\<close>, \<open>error.rs\<close>, \<open>config.rs\<close>), \<open>Wire_Basics\<close>
    (\<open>checksum.rs\<close>, \<open>compression.rs\<close>, \<open>auth.rs\<close>), \<open>Server_List\<close> (\<open>server_list.rs\<close>,
    \<open>server_list_wire.rs\<close>).
  \<^item> \<open>Codec\<close> (\<open>protocol/codec.rs\<close>): the frame decoder as a state machine over a record; \<open>Codec_Correct\<close>
    shows that it terminates, keeps its invariant and is a chunked decoder (a locale), so that the
    segmentation of its input does not matter; \<open>Codec_Props\<close> what it emits.
  \<^item> \<open>Assembler\<close> (\<open>file/assembler.rs\<close>) and \<open>Assembler_Correct\<close>: the files a run of pushes completes.
  \<^item> \<open>Connection_Policy\<close> (\<open>client/reconnect.rs\<close>, \<open>watchdog.rs\<close>), \<open>Server_List_Manager\<close>
    (\<open>client/server_list_manager.rs\<close>, over an explicit disk whose operations can fail),
    \<open>Runtime_Support\<close> (\<open>runtime_support.rs\<close>, with the locale of drop reporting that both receivers
    interpret).
  \<^item> \<open>Receiver\<close> (\<open>client/mod.rs\<close>, \<open>connection.rs\<close>) and \<open>Receiver_Correct\<close>.
  \<^item> \<open>Relay\<close> (\<open>relay/mod.rs\<close>, \<open>auth.rs\<close>, \<open>state.rs\<close>, \<open>runtime.rs\<close>): the tasks of the relay as one
    transition function on their joint state; \<open>Relay_Correct\<close> and \<open>Relay_Props\<close>: invariants of every
    interleaving.
  \<^item> \<open>Wxwire_Model\<close> (\<open>wxwire_receiver/error.rs\<close>, \<open>model.rs\<close>, \<open>config.rs\<close>), \<open>Wxwire_Codec\<close>
    (\<open>codec.rs\<close>), \<open>Wxwire_Transport\<close> (\<open>transport.rs\<close>), \<open>Wxwire_Client\<close> (\<open>client.rs\<close>) and for each its
    \<open>_Correct\<close> theory.
  \<^item> \<open>Ingest\<close> (\<open>ingest/model.rs\<close>, \<open>qbt_adapter.rs\<close>, \<open>wxwire_adapter.rs\<close>, \<open>receiver.rs\<close>) and
    \<open>Ingest_Correct\<close>. This theory joins the components into one statement from the wire to the
    product.

  \<^item> \<open>Text_Support\<close> (\<open>emwin-parser/src/issue.rs\<close>, \<open>body/support.rs\<close>, \<open>time.rs\<close>), \<open>Vtec\<close>
    (\<open>body/vtec.rs\<close>, \<open>hvtec.rs\<close>), \<open>Catalog\<close> (\<open>data/mod.rs\<close>, \<open>graphics.rs\<close>), \<open>Ugc\<close> (\<open>body/ugc.rs\<close>)
    and their \<open>_Correct\<close> theories; \<open>Text_Support_Correct\<close> has the locale of codes between slashes,
    interpreted for both kinds of event codes, and the Gregorian calendar as a reference.

  \<^item> \<open>Body_Fields\<close> (\<open>emwin-parser/src/body/latlon.rs\<close>, \<open>time_mot_loc.rs\<close>, \<open>wind_hail.rs\<close>) and \<open>Body\<close>
    (\<open>vtec_events.rs\<close>, \<open>enrich.rs\<close>); \<open>Body_Fields_Correct\<close> shows which texts can make these parsers panic,
    \<open>Polygon_Correct\<close> what polygons they return, \<open>Body_Correct\<close> that segmentation keeps every event.
  \<^item> \<open>Persistence\<close> (\<open>emwin-db/src/runtime.rs\<close>, \<open>error.rs\<close>): producers, queue and worker as one transition
    function; \<open>Persistence_Correct\<close>: invariants of every interleaving. \<open>Blob_Store\<close>
    (\<open>emwin-db/src/writer.rs\<close>, \<open>emwin-cli/src/live/file_pipeline.rs\<close>, \<open>persistence.rs\<close>, \<open>archive_postprocess.rs\<close>) and \<open>Blob_Store_Correct\<close>: what ends up on disk.
  \<^item> \<open>Server_Support\<close> (\<open>emwin-db/src/metadata.rs\<close>, \<open>emwin-cli/src/live/server_support.rs\<close>),
    \<open>Product_Model\<close> (\<open>emwin-parser/src/enrichment.rs\<close>, \<open>geo.rs\<close>), \<open>File_Filter\<close>
    (\<open>emwin-cli/src/live/filter.rs\<close>), \<open>Live_Server\<close> (\<open>emwin-cli/src/live/server.rs\<close>, \<open>server/types.rs\<close>,
    \<open>server_ingest.rs\<close>, \<open>server_http.rs\<close>, \<open>cmd/event_output.rs\<close>) and their \<open>_Correct\<close> theories. The tasks
    of the server are one transition function; \<open>Live_Server_Correct\<close> has the locale of server invariants
    and interprets it for the state, for the store of files and for one client's stream.

  \<^bold>\<open>How code is represented.\<close> A struct is a \<open>record\<close>, an enum a \<open>datatype\<close>, a fixed-width integer a
  word (\<open>usize\<close> and times are \<open>nat\<close> or \<open>int\<close>, with saturation written out), a \<open>String\<close> the list
  of its UTF-8 bytes as characters. A method on \<open>&mut self\<close> returns the updated record; \<open>Result\<close> is a
  sum with the error on the left. Asynchronous tasks are functions of the sequence of things they
  observe: an \<open>await\<close> or \<open>select!\<close> consumes the next observation, and theorems quantify over all
  sequences. Third-party code (regular expressions, date parsing, inflation, JSON, XML and XMPP
  parsing, TLS, base64), clocks, sockets and entropy are parameters, collected in the records
  \<open>qbt_ext\<close>, \<open>asm_ext\<close>, \<open>slm_ext\<close>, \<open>wx_ext\<close>, \<open>xmpp_ext\<close>, \<open>chrono_ext\<close>, \<open>catalogs\<close>, \<open>graphics_ext\<close>,
  \<open>parser_ext\<close>, \<open>render_ext\<close>, \<open>zip_ext\<close>, \<open>server_ext\<close>, \<open>f64_ops\<close> (floating-point arithmetic), \<open>f64_text_ops\<close>
  (its text forms) and \<open>body_ext\<close>; where a
  theorem needs a fact of them it is a named hypothesis (\<open>reader_ok\<close>: the XML reader reports increasing
  positions inside its input; \<open>calendar_at\<close>: the date library follows the Gregorian calendar in the months
  around an instant; \<open>catalogs_sorted\<close>: the generated tables are sorted by their keys;
  \<open>f64_reading\<close>: decimal digits are read as the number they write; \<open>broadcast_contract\<close>: a receiver
  gets the events of a channel in order and learns how many it missed). One value stands for all the
  readings of the clock that replace unreadable dates in a run of the QBT decoder. Slicing a string off a
  character boundary panics, which is \<open>None\<close> in the text parser and \<open>ScanPanic\<close> in the XMPP transport.

  \<^bold>\<open>Loops.\<close> The decoder's \<open>feed\<close> loop is a total function, with its termination measure proved. Loops that
  wait for the network (\<open>next_stanza\<close>, \<open>wait_for_any_tag\<close>, \<open>wait_for_join\<close>) are
  \<open>partial_function (option)\<close>; the one that only consumes its buffer
  (\<open>pop_next_top_level_element\<close>) is proved to return on ASCII text. No fuel is used.

  \<^bold>\<open>What is shown.\<close> Decoder: chunk independence, exact decoding of frames after noise, every emitted
  block traced back to a header and a body with its checksum in the input, bounded buffering. Assembler: completion in any order, only complete files,
  duplicate suppression, bounded state. Receivers: the delivered events are the decoded stream, over
  reconnections too, every event that the queue refused is counted and reported, counters agree,
  connection events alternate. Relay: client limit,
  authentication before data, conservation of bytes, exact registry, refinement of the quality
  window. Transport: credentials only over TLS, elements split off whole, only room
  messages, bounded buffer. Server list:
  atomic saving and its round trip. Unified stream: refinement of the assembler, and delivery of a
  transmitted file as exactly one product. Text parser: event codes and geographic sections are
  recovered from any text that contains them, partial times are resolved to the instant that was
  meant, look-ups are exact, segmentation loses no event code, warning polygons are recovered from wrapped
  text and are simple rings, and ASCII text never makes the body parser panic. Persistence:
  the queue is bounded and every request is accounted for, a commit only follows the writes of all its
  blobs, a shutdown ends the worker, a stored product can be read back. Live server: the retained files
  are the recent ones, the filter decides its query, an announced product can be downloaded
  while it is retained, a stream delivers
  exactly what its client asked for. Some theorems state defects: a server-list frame of
  unbounded length, files completed early when block counts disagree, endpoints given up for good,
  a logon parser that panics on noise, a quality window of one period, characters split between
  reads, rejected joins, times before the epoch, parsers that panic on a garbled line or coordinate, signed coordinates that are not scaled,
  a product overwritten by its own metadata, a file name that leaves the output directory, a wildcard
  that misses a literal star, client places lost to bad queries, and counters that never count.

  \<^bold>\<open>Not modelled.\<close> Logging, \<open>Debug\<close> output and the channel wrappers in \<open>qbt_receiver/stream\<close>, which
  have no logic of their own; the rest of the text parser (\<open>emwin-parser\<close>: regular-expression headers,
  the pipeline and the formats of single bulletins, and derived serializers) and the generated tables; the PostgreSQL sink,
  which is SQL over a third-party client; the command-line arguments and the start-up code that builds
  and joins the tasks; scheduling within one poll of a future, and cancellation inside a write.
\<close>

section \<open>From the wire to the product\<close>

text \<open>
  C1: A file sent over the satellite feed arrives: after any noise, a synchronisation marker and
  any interleaving of well-formed data frames that carry the blocks of the file once each, in any
  order, and cut into reads in any way, the products of the unified stream that bear the file's
  name and time are exactly one, with the contents of the blocks in order. The session lasts, the
  queue keeps up, the events are pulled within the 90 seconds an incomplete file is kept, and at
  most 256 files are sent.
\<close>

theorem transmitted_file_becomes_product:
  assumes noise: "find_sub noise SYNC_BYTES = None"
    and good: "list_all (good_frame E (cfg_decode cfg)) fs"
    and wire: "concat (List.map_filter chunk_of inps) =
      xor_ff (noise @ SYNC_BYTES @ concat (map frame_bytes fs))"
    and env: "\<forall>h\<in>set hs. \<forall>ev. h ev = Inr ()" "flowing st" "list_all undisturbed inps" "frames st = []"
    and pulled: "map snd items =
      snd_delivered (rx_sender (snd (run_connected_session E X cfg hs start None inps st)))"
    and time: "list_all (\<lambda>(now, _). tmin \<le> now \<and> now \<le> tmin + 90000000000) items"
    and sent: "segs = segments (concat (map (frame_events E (cfg_decode cfg)) fs))"
    and fits: "card (file_key A ` set segs) \<le> 256"
    and blocks: "file_blocks A k n blk" "filter (\<lambda>s. file_key A s = k) segs = map blk nums"
      "distinct nums" "set nums = {1..n}"
  shows "filter (\<lambda>p. key_of A (prod_filename p) (prod_source_timestamp_utc p) = k)
      (products (adapt_qbt_events A items)) =
    [\<lparr>prod_filename = seg_filename (blk 1), prod_data = concat (map (\<lambda>i. seg_content (blk i)) [1..<Suc n]),
      prod_source_timestamp_utc = seg_timestamp_utc (blk 1), prod_origin = OriginQbt\<rparr>]"
proof -
  let ?st' = "snd (run_connected_session E X cfg hs start None inps st)"
  have "frames ?st' = concat (map (frame_events E (cfg_decode cfg)) fs)"
    using session_stream [OF env(1-3), of E X cfg start] feed_frames_after_noise [OF noise good] env(4)
    by (simp add: wire Let_def split: prod.splits)
  then have segs: "map snd (blocks_of items) = segs"
    by (simp add: segments_of_items pulled sent flip: frames_def)
  moreover have "snd ` set (blocks_of items) = set segs" by (simp flip: segs)
  moreover have "list_all (\<lambda>(now, _). tmin \<le> now \<and> now \<le> tmin + 90000000000) (blocks_of items)"
    using time blocks_of_subset [of items] by (fastforce simp: list_all_iff)
  ultimately show ?thesis
    using adapter_completes_file [OF blocks(1), of items tmin nums] fits blocks(2-4) by simp
qed

definition sample_reads :: "session_input list" where
  "sample_reads =
     [ReadData 6 (xor_ff ([1, 0, 2] @ SYNC_BYTES)), TelemetryTick, ReadData 7 (xor_ff (frame_bytes sample_frame))]"

definition sample_start :: receiver_state where
  "sample_start =
     receiver_initial sample_receiver_config (sender_new (\<lambda>_. None)) telemetry_default (\<lambda>_. None) (\<lambda>_. 7)"

theorem transmitted_file_becomes_product_witness:
  "\<exists>items.
     map snd items = snd_delivered (rx_sender (snd (run_connected_session sample_ext sample_slm_ext
       sample_receiver_config [] 5 None sample_reads sample_start)))
   \<and> filter (\<lambda>p. key_of sample_asm_ext (prod_filename p) (prod_source_timestamp_utc p) =
       file_key sample_asm_ext sample_segment) (products (adapt_qbt_events sample_asm_ext items)) =
     [\<lparr>prod_filename = ''A.TXT'', prod_data = [65, 65], prod_source_timestamp_utc = 1704164645000000000,
       prod_origin = OriginQbt\<rparr>]"
proof -
  let ?out = "snd_delivered (rx_sender (snd (run_connected_session sample_ext sample_slm_ext
       sample_receiver_config [] 5 None sample_reads sample_start)))"
  have cfg: "cfg_decode sample_receiver_config = QbtDecodeConfig_default"
    by (simp add: sample_receiver_config_def)
  have "filter (\<lambda>p. key_of sample_asm_ext (prod_filename p) (prod_source_timestamp_utc p) =
       file_key sample_asm_ext sample_segment)
       (products (adapt_qbt_events sample_asm_ext (map (Pair 0) ?out))) =
     [\<lparr>prod_filename = seg_filename sample_segment,
       prod_data = concat (map (\<lambda>i. seg_content sample_segment) [1..<Suc 1]),
       prod_source_timestamp_utc = seg_timestamp_utc sample_segment, prod_origin = OriginQbt\<rparr>]"
  proof (rule transmitted_file_becomes_product [where noise = "[1, 0, 2]" and fs = "[sample_frame]"
        and blk = "\<lambda>_. sample_segment" and nums = "[1]" and n = 1 and tmin = 0 and segs = "[sample_segment]"])
    show "find_sub [1, 0, 2] SYNC_BYTES = None" by (simp add: SYNC_BYTES_def starts_with_def)
    show "list_all (good_frame sample_ext (cfg_decode sample_receiver_config)) [sample_frame]"
      by (simp add: cfg sample_frame_good)
    show "concat (List.map_filter chunk_of sample_reads) =
        xor_ff ([1, 0, 2] @ SYNC_BYTES @ concat (map frame_bytes [sample_frame]))"
      by (simp add: sample_reads_def map_filter_simps xor_ff_def)
    show "list_all undisturbed sample_reads"
      by (simp add: sample_reads_def SYNC_BYTES_def frame_bytes_def sample_frame_def xor_ff_def)
    show "flowing sample_start" "frames sample_start = []"
      by (simp_all add: sample_start_def flowing_def frames_def receiver_initial_def sender_new_def
        tracker_default_def map_filter_def)
    show "[sample_segment] = segments (concat (map (frame_events sample_ext (cfg_decode sample_receiver_config))
        [sample_frame]))"
      by (simp add: cfg sample_events segments_def map_filter_simps)
    show "file_blocks sample_asm_ext (file_key sample_asm_ext sample_segment) 1 (\<lambda>_. sample_segment)"
      by (simp add: file_blocks_def sample_segment_def eq_ignore_ascii_case_def to_ascii_lowercase_def
        ascii_lower_def)
  qed (simp_all add: comp_def list_all_iff)
  then show ?thesis
    by (intro exI [of _ "map (Pair 0) ?out"]) (simp add: comp_def sample_segment_def)
qed

end
